(* ===== verification/Prelude.thy ===== *)
theory Prelude
  imports Main "HOL-Library.AList" "HOL-Library.List_Lexorder" "HOL-Library.Char_ord"
begin

text \<open>
  Shared vocabulary of the development: Python dictionaries as insertion-ordered
  association lists, the texts of integers, the string helpers the sources use, the
  interface of the string enumerations of \<^verbatim>\<open>core/enums.py\<close>, and the lemma collections
  the component theories extend.
\<close>

named_theorems dict_simps \<open>lookups after updates of a dictionary\<close>

subsection \<open>Dictionaries\<close>

text \<open>
  A Python \<^verbatim>\<open>dict\<close> keeps insertion order and replaces the value of a present key in place.
  The library's association lists do exactly this: \<open>AList.update\<close> is \<^verbatim>\<open>d[k] = v\<close>,
  \<open>AList.delete\<close> is \<^verbatim>\<open>d.pop(k, None)\<close>, \<open>map_of\<close> is \<^verbatim>\<open>d.get(k)\<close>.
\<close>

type_synonym ('k, 'v) dict = "('k \<times> 'v) list"

abbreviation dict_set :: "'k \<Rightarrow> 'v \<Rightarrow> ('k, 'v) dict \<Rightarrow> ('k, 'v) dict" where
  "dict_set \<equiv> AList.update"

abbreviation dict_pop :: "'k \<Rightarrow> ('k, 'v) dict \<Rightarrow> ('k, 'v) dict" where
  "dict_pop \<equiv> AList.delete"

abbreviation dict_get :: "('k, 'v) dict \<Rightarrow> 'k \<Rightarrow> 'v option" where
  "dict_get \<equiv> map_of"

abbreviation dict_keys :: "('k, 'v) dict \<Rightarrow> 'k list" where
  "dict_keys d \<equiv> map fst d"

abbreviation dict_values :: "('k, 'v) dict \<Rightarrow> 'v list" where
  "dict_values d \<equiv> map snd d"

definition dict_has :: "('k, 'v) dict \<Rightarrow> 'k \<Rightarrow> bool" where
  "dict_has d k = (map_of d k \<noteq> None)"

text \<open>\<^verbatim>\<open>d.get(k, x)\<close>\<close>

definition dict_get_or :: "('k, 'v) dict \<Rightarrow> 'k \<Rightarrow> 'v \<Rightarrow> 'v" where
  "dict_get_or d k x = (case map_of d k of None \<Rightarrow> x | Some v \<Rightarrow> v)"

text \<open>\<^verbatim>\<open>d.setdefault(k, v)\<close>: the dictionary afterwards\<close>

definition dict_setdefault :: "'k \<Rightarrow> 'v \<Rightarrow> ('k, 'v) dict \<Rightarrow> ('k, 'v) dict" where
  "dict_setdefault k v d = (if dict_has d k then d else d @ [(k, v)])"

text \<open>\<^verbatim>\<open>d.setdefault(k, []).append(x)\<close>\<close>

definition dict_append :: "'k \<Rightarrow> 'x \<Rightarrow> ('k, 'x list) dict \<Rightarrow> ('k, 'x list) dict" where
  "dict_append k x d = dict_set k (dict_get_or d k [] @ [x]) d"

lemma dict_get_set [dict_simps, simp]:
  "map_of (AList.update k v d) k' = (if k' = k then Some v else map_of d k')"
  by (simp add: update_conv)

lemma dict_get_pop [dict_simps, simp]:
  "map_of (AList.delete k d) k' = (if k' = k then None else map_of d k')"
  by (simp add: delete_conv)

lemma dict_get_setdefault [dict_simps, simp]:
  "map_of (dict_setdefault k v d) k' =
     (if k' = k \<and> \<not> dict_has d k then Some v else map_of d k')"
  by (auto simp: dict_setdefault_def dict_has_def map_add_def split: option.splits)

lemma dict_get_append [dict_simps, simp]:
  "map_of (dict_append k x d) k' =
     (if k' = k then Some (dict_get_or d k [] @ [x]) else map_of d k')"
  by (simp add: dict_append_def)

lemma dict_get_or_append [dict_simps, simp]:
  "dict_get_or (dict_append k x d) k' [] = dict_get_or d k' [] @ (if k' = k then [x] else [])"
  by (auto simp: dict_get_or_def)

lemma distinct_dict_set [dict_simps, simp]:
  "distinct (map fst (AList.update k v d)) = distinct (map fst d)"
  by (induction d) (auto simp: dom_update)

lemma distinct_dict_setdefault [dict_simps, simp]:
  "distinct (map fst (dict_setdefault k v d)) = distinct (map fst d)"
  by (auto simp: dict_setdefault_def dict_has_def map_of_eq_None_iff)

lemma distinct_dict_append [dict_simps, simp]:
  "distinct (map fst (dict_append k x d)) = distinct (map fst d)"
  by (simp add: dict_append_def)

lemma keys_dict_set [dict_simps]:
  "set (map fst (AList.update k v d)) = insert k (set (map fst d))"
  by (simp add: dom_update)

lemma dict_has_iff: "dict_has d k \<longleftrightarrow> k \<in> fst ` set d"
  by (simp add: dict_has_def map_of_eq_None_iff)

lemma dict_has_set [dict_simps, simp]: "dict_has (AList.update k v d) k' = (k' = k \<or> dict_has d k')"
  by (simp add: dict_has_def)

lemma values_dict_set_subset: "set (map snd (AList.update k v d)) \<subseteq> insert v (set (map snd d))"
  by (induction d) auto

lemma length_dict_set_present:
  "dict_has d k \<Longrightarrow> length (AList.update k v d) = length d"
  by (induction d) (auto simp: dict_has_def)

lemma dict_set_absent: "\<not> dict_has d k \<Longrightarrow> AList.update k v d = d @ [(k, v)]"
  by (induction d) (auto simp: dict_has_def split: if_splits)

lemma dict_set_present_keys:
  "dict_has d k \<Longrightarrow> map fst (AList.update k v d) = map fst d"
  by (induction d) (auto simp: dict_has_def)

subsection \<open>Optional values\<close>

text \<open>Python's \<^verbatim>\<open>x or y\<close> on optional objects that are never falsy when present.\<close>

definition or_else :: "'a option \<Rightarrow> 'a option \<Rightarrow> 'a option" where
  "or_else x y = (case x of None \<Rightarrow> y | Some v \<Rightarrow> Some v)"

lemma or_else_simps [simp]:
  "or_else None y = y" "or_else (Some v) y = Some v" "or_else x None = x"
  by (simp_all add: or_else_def split: option.splits)

text \<open>\<^verbatim>\<open>check is not None\<close> as a list, to collect optional results in order\<close>

definition optional_list :: "'a option \<Rightarrow> 'a list" where
  "optional_list x = (case x of None \<Rightarrow> [] | Some v \<Rightarrow> [v])"

lemma optional_list_simps [simp]:
  "optional_list None = []" "optional_list (Some v) = [v]"
  by (simp_all add: optional_list_def)

subsection \<open>Texts of integers\<close>

definition digit_char :: "nat \<Rightarrow> char" where
  "digit_char d = char_of (48 + d)"

definition char_digit :: "char \<Rightarrow> nat" where
  "char_digit c = of_char c - 48"

definition is_digit :: "char \<Rightarrow> bool" where
  "is_digit c = (48 \<le> (of_char c :: nat) \<and> (of_char c :: nat) \<le> 57)"

fun nat_to_str :: "nat \<Rightarrow> string" where
  "nat_to_str n =
     (if n < 10 then [digit_char n] else nat_to_str (n div 10) @ [digit_char (n mod 10)])"

declare nat_to_str.simps [simp del]

definition digits_value :: "string \<Rightarrow> nat" where
  "digits_value s = foldl (\<lambda>n c. 10 * n + char_digit c) 0 s"

definition int_to_str :: "int \<Rightarrow> string" where
  "int_to_str i = (if i < 0 then CHR ''-'' # nat_to_str (nat (- i)) else nat_to_str (nat i))"

lemma char_digit_digit_char [simp]: "d < 10 \<Longrightarrow> char_digit (digit_char d) = d"
  by (simp add: char_digit_def digit_char_def)

lemma is_digit_digit_char [simp]: "d < 10 \<Longrightarrow> is_digit (digit_char d)"
  by (simp add: is_digit_def digit_char_def)

lemma digits_value_snoc: "digits_value (s @ [c]) = 10 * digits_value s + char_digit c"
  by (simp add: digits_value_def)

lemma digits_value_nat_to_str [simp]: "digits_value (nat_to_str n) = n"
proof (induction n rule: nat_to_str.induct)
  case (1 n)
  show ?case
  proof (cases "n < 10")
    case True
    then show ?thesis by (simp add: nat_to_str.simps [of n] digits_value_def)
  next
    case False
    with 1 show ?thesis by (simp add: nat_to_str.simps [of n] digits_value_snoc)
  qed
qed

lemma nat_to_str_inj [simp]: "nat_to_str m = nat_to_str n \<longleftrightarrow> m = n"
  by (metis digits_value_nat_to_str)

lemma nat_to_str_digits: "list_all is_digit (nat_to_str n)"
proof (induction n rule: nat_to_str.induct)
  case (1 n)
  then show ?case by (cases "n < 10") (simp_all add: nat_to_str.simps [of n])
qed

lemma nat_to_str_nonempty [simp]: "nat_to_str n \<noteq> []"
  by (subst nat_to_str.simps) simp

lemma nat_to_str_not_minus: "nat_to_str n \<noteq> CHR ''-'' # s"
  using nat_to_str_digits [of n] by (auto simp: is_digit_def)

lemma int_to_str_inj [simp]: "int_to_str i = int_to_str j \<longleftrightarrow> i = j"
  using nat_to_str_not_minus nat_to_str_not_minus [symmetric]
  by (auto simp: int_to_str_def)

subsection \<open>String helpers\<close>

definition str_join :: "string \<Rightarrow> string list \<Rightarrow> string" where
  "str_join sep xs = (case xs of [] \<Rightarrow> [] | x # ys \<Rightarrow> x @ concat (map (\<lambda>y. sep @ y) ys))"

definition lower_char :: "char \<Rightarrow> char" where
  "lower_char c = (let n = (of_char c :: nat) in
     if (65 \<le> n \<and> n \<le> 90) \<or> (192 \<le> n \<and> n \<le> 222 \<and> n \<noteq> 215) then char_of (n + 32) else c)"

definition str_lower :: "string \<Rightarrow> string" where
  "str_lower s = map lower_char s"

definition is_space :: "char \<Rightarrow> bool" where
  "is_space c = (let n = (of_char c :: nat) in
     (9 \<le> n \<and> n \<le> 13) \<or> (28 \<le> n \<and> n \<le> 32) \<or> n = 133 \<or> n = 160)"

definition str_strip :: "string \<Rightarrow> string" where
  "str_strip s = rev (dropWhile is_space (rev (dropWhile is_space s)))"

subsection \<open>The interface of a string enumeration\<close>

text \<open>
  \<^verbatim>\<open>class StringEnum(str, Enum)\<close>: a member is looked up by its text with \<^verbatim>\<open>E(value)\<close>,
  which raises \<^verbatim>\<open>ValueError\<close> when no member has it.
\<close>

definition enum_lookup :: "('e \<Rightarrow> string) \<Rightarrow> 'e list \<Rightarrow> string \<Rightarrow> 'e option" where
  "enum_lookup val members s = List.find (\<lambda>m. val m = s) members"

locale string_enum =
  fixes val :: "'e \<Rightarrow> string" and members :: "'e list"
  assumes all_members: "m \<in> set members"
    and distinct_values: "distinct (map val members)"
begin

lemma value_inj: "val m = val n \<longleftrightarrow> m = n"
  using distinct_values all_members by (auto simp: distinct_map inj_on_def)

lemma lookup_value: "enum_lookup val members (val m) = Some m"
proof -
  obtain x where "List.find (\<lambda>x. val x = val m) members = Some x"
    using all_members by (metis (mono_tags, lifting) find_None_iff not_None_eq)
  moreover from this have "x = m" by (auto simp: find_Some_iff value_inj)
  ultimately show ?thesis by (simp add: enum_lookup_def)
qed

lemma lookup_sound: "enum_lookup val members s = Some m \<longleftrightarrow> s = val m"
  using lookup_value by (auto simp: enum_lookup_def find_Some_iff)

end

end
