(* ===== verification/Enums.thy ===== *)
theory Enums
  imports Prelude
begin

text \<open>
  The string enumerations of \<^verbatim>\<open>core/enums.py\<close> that the modelled components use: one datatype
  per class, constructors prefixed by the initials of the class, \<open>x_value\<close> for \<^verbatim>\<open>member.value\<close>,
  \<open>x_members\<close> for the class body in order and \<open>x_of\<close> for the lookup \<^verbatim>\<open>X(text)\<close>. Each class is an
  instance of the interface \<open>string_enum\<close>, which gives the round trip both ways.
\<close>

named_theorems enum_simps \<open>round trips of the string enumerations\<close>

datatype event_type =
  ET_ACTION_ACCEPTED | ET_ACTION_EXECUTION_FAILED | ET_ACTION_EXECUTION_STARTED
  | ET_ACTION_EXECUTED | ET_ACTION_REJECTED | ET_ACTION_REQUESTED | ET_AUDIT_ANCHOR_PUBLISHED
  | ET_AUDIT_CHECKPOINT | ET_AUDIT_LEDGER_ARCHIVED | ET_DATA_ACCEPTED | ET_DATA_DUPLICATE
  | ET_DATA_OUT_OF_ORDER | ET_DATA_RECEIVED | ET_DATA_SEQUENCE_GAP | ET_ERROR
  | ET_EXCHANGE_BALANCE_SNAPSHOT | ET_EXCHANGE_FILL | ET_EXCHANGE_ORDER_UPDATE
  | ET_EXCHANGE_POSITION_SNAPSHOT | ET_EXCHANGE_PRODUCT_SNAPSHOT | ET_EXCHANGE_REQUEST_RETRY
  | ET_FEED_CONNECTED | ET_FEED_DEGRADED | ET_FEED_DISCONNECTED | ET_FEED_HEARTBEAT
  | ET_FEED_RECONNECT_SCHEDULED | ET_ORDER_LOGICAL_CREATED | ET_ORDER_PLACEMENT_RECORDED
  | ET_RECONCILIATION_DRIFT | ET_RECONCILIATION_MISMATCH | ET_RECONCILIATION_RECOVERY
  | ET_OPERATOR_LEDGER_HEALTH_ACKNOWLEDGED | ET_LIVE_PREFLIGHT_RESULT
  | ET_OPERATOR_CANARY_EVIDENCE_RESULT | ET_RUNTIME_HEALTH_CHECK_RESULT
  | ET_STRATEGY_SIMULATION_RESULT | ET_RUNTIME_TASK_COMPLETED | ET_RUNTIME_TASK_STARTED
  | ET_STRATEGY_EVALUATION_COMPLETED | ET_STRATEGY_EVALUATION_FAILED
  | ET_STRATEGY_EVALUATION_STARTED | ET_SYSTEM_STARTED | ET_SYSTEM_STOPPED | ET_TRIGGER_FIRED

fun event_type_value :: "event_type \<Rightarrow> string" where
  "event_type_value ET_ACTION_ACCEPTED = ''action.accepted''"
| "event_type_value ET_ACTION_EXECUTION_FAILED = ''action.execution_failed''"
| "event_type_value ET_ACTION_EXECUTION_STARTED = ''action.execution_started''"
| "event_type_value ET_ACTION_EXECUTED = ''action.executed''"
| "event_type_value ET_ACTION_REJECTED = ''action.rejected''"
| "event_type_value ET_ACTION_REQUESTED = ''action.requested''"
| "event_type_value ET_AUDIT_ANCHOR_PUBLISHED = ''audit.anchor_published''"
| "event_type_value ET_AUDIT_CHECKPOINT = ''audit.checkpoint''"
| "event_type_value ET_AUDIT_LEDGER_ARCHIVED = ''audit.ledger_archived''"
| "event_type_value ET_DATA_ACCEPTED = ''data.accepted''"
| "event_type_value ET_DATA_DUPLICATE = ''data.duplicate''"
| "event_type_value ET_DATA_OUT_OF_ORDER = ''data.out_of_order''"
| "event_type_value ET_DATA_RECEIVED = ''data.received''"
| "event_type_value ET_DATA_SEQUENCE_GAP = ''data.sequence_gap''"
| "event_type_value ET_ERROR = ''error''"
| "event_type_value ET_EXCHANGE_BALANCE_SNAPSHOT = ''exchange.balance_snapshot''"
| "event_type_value ET_EXCHANGE_FILL = ''exchange.fill''"
| "event_type_value ET_EXCHANGE_ORDER_UPDATE = ''exchange.order_update''"
| "event_type_value ET_EXCHANGE_POSITION_SNAPSHOT = ''exchange.position_snapshot''"
| "event_type_value ET_EXCHANGE_PRODUCT_SNAPSHOT = ''exchange.product_snapshot''"
| "event_type_value ET_EXCHANGE_REQUEST_RETRY = ''exchange.request_retry''"
| "event_type_value ET_FEED_CONNECTED = ''feed.connected''"
| "event_type_value ET_FEED_DEGRADED = ''feed.degraded''"
| "event_type_value ET_FEED_DISCONNECTED = ''feed.disconnected''"
| "event_type_value ET_FEED_HEARTBEAT = ''feed.heartbeat''"
| "event_type_value ET_FEED_RECONNECT_SCHEDULED = ''feed.reconnect_scheduled''"
| "event_type_value ET_ORDER_LOGICAL_CREATED = ''order.logical_created''"
| "event_type_value ET_ORDER_PLACEMENT_RECORDED = ''order.placement_recorded''"
| "event_type_value ET_RECONCILIATION_DRIFT = ''reconciliation.drift''"
| "event_type_value ET_RECONCILIATION_MISMATCH = ''reconciliation.mismatch''"
| "event_type_value ET_RECONCILIATION_RECOVERY = ''reconciliation.recovery''"
| "event_type_value ET_OPERATOR_LEDGER_HEALTH_ACKNOWLEDGED = ''operator.ledger_health_acknowledged''"
| "event_type_value ET_LIVE_PREFLIGHT_RESULT = ''runtime.live_preflight_result''"
| "event_type_value ET_OPERATOR_CANARY_EVIDENCE_RESULT = ''runtime.operator_canary_evidence_result''"
| "event_type_value ET_RUNTIME_HEALTH_CHECK_RESULT = ''runtime.health_check_result''"
| "event_type_value ET_STRATEGY_SIMULATION_RESULT = ''runtime.strategy_simulation_result''"
| "event_type_value ET_RUNTIME_TASK_COMPLETED = ''runtime.task_completed''"
| "event_type_value ET_RUNTIME_TASK_STARTED = ''runtime.task_started''"
| "event_type_value ET_STRATEGY_EVALUATION_COMPLETED = ''strategy.evaluation_completed''"
| "event_type_value ET_STRATEGY_EVALUATION_FAILED = ''strategy.evaluation_failed''"
| "event_type_value ET_STRATEGY_EVALUATION_STARTED = ''strategy.evaluation_started''"
| "event_type_value ET_SYSTEM_STARTED = ''system.started''"
| "event_type_value ET_SYSTEM_STOPPED = ''system.stopped''"
| "event_type_value ET_TRIGGER_FIRED = ''trigger.fired''"

definition event_type_members :: "event_type list" where
  "event_type_members = [ET_ACTION_ACCEPTED, ET_ACTION_EXECUTION_FAILED,
     ET_ACTION_EXECUTION_STARTED, ET_ACTION_EXECUTED, ET_ACTION_REJECTED, ET_ACTION_REQUESTED,
     ET_AUDIT_ANCHOR_PUBLISHED, ET_AUDIT_CHECKPOINT, ET_AUDIT_LEDGER_ARCHIVED,
     ET_DATA_ACCEPTED, ET_DATA_DUPLICATE, ET_DATA_OUT_OF_ORDER, ET_DATA_RECEIVED,
     ET_DATA_SEQUENCE_GAP, ET_ERROR, ET_EXCHANGE_BALANCE_SNAPSHOT, ET_EXCHANGE_FILL,
     ET_EXCHANGE_ORDER_UPDATE, ET_EXCHANGE_POSITION_SNAPSHOT, ET_EXCHANGE_PRODUCT_SNAPSHOT,
     ET_EXCHANGE_REQUEST_RETRY, ET_FEED_CONNECTED, ET_FEED_DEGRADED, ET_FEED_DISCONNECTED,
     ET_FEED_HEARTBEAT, ET_FEED_RECONNECT_SCHEDULED, ET_ORDER_LOGICAL_CREATED,
     ET_ORDER_PLACEMENT_RECORDED, ET_RECONCILIATION_DRIFT, ET_RECONCILIATION_MISMATCH,
     ET_RECONCILIATION_RECOVERY, ET_OPERATOR_LEDGER_HEALTH_ACKNOWLEDGED,
     ET_LIVE_PREFLIGHT_RESULT, ET_OPERATOR_CANARY_EVIDENCE_RESULT,
     ET_RUNTIME_HEALTH_CHECK_RESULT, ET_STRATEGY_SIMULATION_RESULT, ET_RUNTIME_TASK_COMPLETED,
     ET_RUNTIME_TASK_STARTED, ET_STRATEGY_EVALUATION_COMPLETED, ET_STRATEGY_EVALUATION_FAILED,
     ET_STRATEGY_EVALUATION_STARTED, ET_SYSTEM_STARTED, ET_SYSTEM_STOPPED, ET_TRIGGER_FIRED]"

definition event_type_of :: "string \<Rightarrow> event_type option" where
  "event_type_of = enum_lookup event_type_value event_type_members"

interpretation event_type_enum: string_enum event_type_value event_type_members
  by (unfold_locales, case_tac m) (simp_all add: event_type_members_def)

lemmas event_type_of_iff = event_type_enum.lookup_sound [folded event_type_of_def]

lemma event_type_of_value [enum_simps, simp]: "event_type_of (event_type_value m) = Some m"
  by (simp add: event_type_of_iff)

datatype error_category =
  EC_ACTION_EXECUTOR | EC_AUDIT_LEDGER | EC_CONFIG | EC_EXCHANGE_AUTH
  | EC_EXCHANGE_RATE_LIMIT | EC_EXCHANGE_TRANSPORT | EC_FEED_SOURCE | EC_HOOK
  | EC_RECONCILIATION | EC_RUNTIME_TASK | EC_STRATEGY | EC_UNEXPECTED

fun error_category_value :: "error_category \<Rightarrow> string" where
  "error_category_value EC_ACTION_EXECUTOR = ''action_executor''"
| "error_category_value EC_AUDIT_LEDGER = ''audit_ledger''"
| "error_category_value EC_CONFIG = ''config''"
| "error_category_value EC_EXCHANGE_AUTH = ''exchange_auth''"
| "error_category_value EC_EXCHANGE_RATE_LIMIT = ''exchange_rate_limit''"
| "error_category_value EC_EXCHANGE_TRANSPORT = ''exchange_transport''"
| "error_category_value EC_FEED_SOURCE = ''feed_source''"
| "error_category_value EC_HOOK = ''hook''"
| "error_category_value EC_RECONCILIATION = ''reconciliation''"
| "error_category_value EC_RUNTIME_TASK = ''runtime_task''"
| "error_category_value EC_STRATEGY = ''strategy''"
| "error_category_value EC_UNEXPECTED = ''unexpected''"

definition error_category_members :: "error_category list" where
  "error_category_members = [EC_ACTION_EXECUTOR, EC_AUDIT_LEDGER, EC_CONFIG, EC_EXCHANGE_AUTH,
     EC_EXCHANGE_RATE_LIMIT, EC_EXCHANGE_TRANSPORT, EC_FEED_SOURCE, EC_HOOK, EC_RECONCILIATION,
     EC_RUNTIME_TASK, EC_STRATEGY, EC_UNEXPECTED]"

definition error_category_of :: "string \<Rightarrow> error_category option" where
  "error_category_of = enum_lookup error_category_value error_category_members"

interpretation error_category_enum: string_enum error_category_value error_category_members
  by (unfold_locales, case_tac m) (simp_all add: error_category_members_def)

lemmas error_category_of_iff = error_category_enum.lookup_sound [folded error_category_of_def]

lemma error_category_of_value [enum_simps, simp]: "error_category_of (error_category_value m) = Some m"
  by (simp add: error_category_of_iff)

datatype error_code =
  ER_ACTION_EXECUTOR_CONTRACT_FAILED | ER_ACTION_EXECUTOR_FAILED | ER_AUDIT_INTEGRITY_FAILED
  | ER_AUDIT_LEDGER_FAILED | ER_CONFIG_INVALID | ER_EXCHANGE_AUTH_FAILED
  | ER_EXCHANGE_RATE_LIMITED | ER_EXCHANGE_ORDER_UPDATE_INVALID
  | ER_EXCHANGE_STATE_SNAPSHOT_INVALID | ER_EXCHANGE_TRANSPORT_FAILED | ER_FEED_SOURCE_FAILED
  | ER_FEED_SOURCE_MISMATCH | ER_FEED_UNEXPECTED_SOURCE | ER_FILL_ORDER_MISMATCH
  | ER_FILL_PAYLOAD_INVALID | ER_HOOK_FAILED | ER_PRODUCT_ID_MISSING
  | ER_PRODUCT_METADATA_MISSING | ER_RECONCILIATION_LOOKUP_FAILED | ER_RUNTIME_TASK_FAILED
  | ER_STRATEGY_CONTRACT_FAILED | ER_STRATEGY_ACTION_FAILED | ER_STRATEGY_EVALUATION_FAILED
  | ER_STRATEGY_INPUT_UNAVAILABLE | ER_UNSUPPORTED_ACTION_TYPE | ER_UNSUPPORTED_PRODUCT_VENUE
  | ER_UNEXPECTED_EXCEPTION

fun error_code_value :: "error_code \<Rightarrow> string" where
  "error_code_value ER_ACTION_EXECUTOR_CONTRACT_FAILED = ''action_executor_contract_failed''"
| "error_code_value ER_ACTION_EXECUTOR_FAILED = ''action_executor_failed''"
| "error_code_value ER_AUDIT_INTEGRITY_FAILED = ''audit_integrity_failed''"
| "error_code_value ER_AUDIT_LEDGER_FAILED = ''audit_ledger_failed''"
| "error_code_value ER_CONFIG_INVALID = ''config_invalid''"
| "error_code_value ER_EXCHANGE_AUTH_FAILED = ''exchange_auth_failed''"
| "error_code_value ER_EXCHANGE_RATE_LIMITED = ''exchange_rate_limited''"
| "error_code_value ER_EXCHANGE_ORDER_UPDATE_INVALID = ''exchange_order_update_invalid''"
| "error_code_value ER_EXCHANGE_STATE_SNAPSHOT_INVALID = ''exchange_state_snapshot_invalid''"
| "error_code_value ER_EXCHANGE_TRANSPORT_FAILED = ''exchange_transport_failed''"
| "error_code_value ER_FEED_SOURCE_FAILED = ''feed_source_failed''"
| "error_code_value ER_FEED_SOURCE_MISMATCH = ''feed_source_mismatch''"
| "error_code_value ER_FEED_UNEXPECTED_SOURCE = ''feed_unexpected_source''"
| "error_code_value ER_FILL_ORDER_MISMATCH = ''fill_order_mismatch''"
| "error_code_value ER_FILL_PAYLOAD_INVALID = ''fill_payload_invalid''"
| "error_code_value ER_HOOK_FAILED = ''hook_failed''"
| "error_code_value ER_PRODUCT_ID_MISSING = ''product_id_missing''"
| "error_code_value ER_PRODUCT_METADATA_MISSING = ''product_metadata_missing''"
| "error_code_value ER_RECONCILIATION_LOOKUP_FAILED = ''reconciliation_lookup_failed''"
| "error_code_value ER_RUNTIME_TASK_FAILED = ''runtime_task_failed''"
| "error_code_value ER_STRATEGY_CONTRACT_FAILED = ''strategy_contract_failed''"
| "error_code_value ER_STRATEGY_ACTION_FAILED = ''strategy_action_failed''"
| "error_code_value ER_STRATEGY_EVALUATION_FAILED = ''strategy_evaluation_failed''"
| "error_code_value ER_STRATEGY_INPUT_UNAVAILABLE = ''strategy_input_unavailable''"
| "error_code_value ER_UNSUPPORTED_ACTION_TYPE = ''unsupported_action_type''"
| "error_code_value ER_UNSUPPORTED_PRODUCT_VENUE = ''unsupported_product_venue''"
| "error_code_value ER_UNEXPECTED_EXCEPTION = ''unexpected_exception''"

definition error_code_members :: "error_code list" where
  "error_code_members = [ER_ACTION_EXECUTOR_CONTRACT_FAILED, ER_ACTION_EXECUTOR_FAILED,
     ER_AUDIT_INTEGRITY_FAILED, ER_AUDIT_LEDGER_FAILED, ER_CONFIG_INVALID,
     ER_EXCHANGE_AUTH_FAILED, ER_EXCHANGE_RATE_LIMITED, ER_EXCHANGE_ORDER_UPDATE_INVALID,
     ER_EXCHANGE_STATE_SNAPSHOT_INVALID, ER_EXCHANGE_TRANSPORT_FAILED, ER_FEED_SOURCE_FAILED,
     ER_FEED_SOURCE_MISMATCH, ER_FEED_UNEXPECTED_SOURCE, ER_FILL_ORDER_MISMATCH,
     ER_FILL_PAYLOAD_INVALID, ER_HOOK_FAILED, ER_PRODUCT_ID_MISSING,
     ER_PRODUCT_METADATA_MISSING, ER_RECONCILIATION_LOOKUP_FAILED, ER_RUNTIME_TASK_FAILED,
     ER_STRATEGY_CONTRACT_FAILED, ER_STRATEGY_ACTION_FAILED, ER_STRATEGY_EVALUATION_FAILED,
     ER_STRATEGY_INPUT_UNAVAILABLE, ER_UNSUPPORTED_ACTION_TYPE, ER_UNSUPPORTED_PRODUCT_VENUE,
     ER_UNEXPECTED_EXCEPTION]"

definition error_code_of :: "string \<Rightarrow> error_code option" where
  "error_code_of = enum_lookup error_code_value error_code_members"

interpretation error_code_enum: string_enum error_code_value error_code_members
  by (unfold_locales, case_tac m) (simp_all add: error_code_members_def)

lemmas error_code_of_iff = error_code_enum.lookup_sound [folded error_code_of_def]

lemma error_code_of_value [enum_simps, simp]: "error_code_of (error_code_value m) = Some m"
  by (simp add: error_code_of_iff)

datatype http_method =
  HM_GET | HM_POST

fun http_method_value :: "http_method \<Rightarrow> string" where
  "http_method_value HM_GET = ''GET''"
| "http_method_value HM_POST = ''POST''"

definition http_method_members :: "http_method list" where
  "http_method_members = [HM_GET, HM_POST]"

definition http_method_of :: "string \<Rightarrow> http_method option" where
  "http_method_of = enum_lookup http_method_value http_method_members"

interpretation http_method_enum: string_enum http_method_value http_method_members
  by (unfold_locales, case_tac m) (simp_all add: http_method_members_def)

lemmas http_method_of_iff = http_method_enum.lookup_sound [folded http_method_of_def]

lemma http_method_of_value [enum_simps, simp]: "http_method_of (http_method_value m) = Some m"
  by (simp add: http_method_of_iff)

datatype digest_algorithm =
  DA_SHA256

fun digest_algorithm_value :: "digest_algorithm \<Rightarrow> string" where
  "digest_algorithm_value DA_SHA256 = ''sha256''"

definition digest_algorithm_members :: "digest_algorithm list" where
  "digest_algorithm_members = [DA_SHA256]"

definition digest_algorithm_of :: "string \<Rightarrow> digest_algorithm option" where
  "digest_algorithm_of = enum_lookup digest_algorithm_value digest_algorithm_members"

interpretation digest_algorithm_enum: string_enum digest_algorithm_value digest_algorithm_members
  by (unfold_locales, case_tac m) (simp_all add: digest_algorithm_members_def)

lemmas digest_algorithm_of_iff = digest_algorithm_enum.lookup_sound [folded digest_algorithm_of_def]

lemma digest_algorithm_of_value [enum_simps, simp]: "digest_algorithm_of (digest_algorithm_value m) = Some m"
  by (simp add: digest_algorithm_of_iff)

datatype anchor_store_type =
  AST_LOCAL_FILE | AST_WORM_OBJECT

fun anchor_store_type_value :: "anchor_store_type \<Rightarrow> string" where
  "anchor_store_type_value AST_LOCAL_FILE = ''local_file''"
| "anchor_store_type_value AST_WORM_OBJECT = ''worm_object''"

definition anchor_store_type_members :: "anchor_store_type list" where
  "anchor_store_type_members = [AST_LOCAL_FILE, AST_WORM_OBJECT]"

definition anchor_store_type_of :: "string \<Rightarrow> anchor_store_type option" where
  "anchor_store_type_of = enum_lookup anchor_store_type_value anchor_store_type_members"

interpretation anchor_store_type_enum: string_enum anchor_store_type_value anchor_store_type_members
  by (unfold_locales, case_tac m) (simp_all add: anchor_store_type_members_def)

lemmas anchor_store_type_of_iff = anchor_store_type_enum.lookup_sound [folded anchor_store_type_of_def]

lemma anchor_store_type_of_value [enum_simps, simp]: "anchor_store_type_of (anchor_store_type_value m) = Some m"
  by (simp add: anchor_store_type_of_iff)

datatype anchor_immutability_mode =
  AIM_COMPLIANCE | AIM_GOVERNANCE

fun anchor_immutability_mode_value :: "anchor_immutability_mode \<Rightarrow> string" where
  "anchor_immutability_mode_value AIM_COMPLIANCE = ''compliance''"
| "anchor_immutability_mode_value AIM_GOVERNANCE = ''governance''"

definition anchor_immutability_mode_members :: "anchor_immutability_mode list" where
  "anchor_immutability_mode_members = [AIM_COMPLIANCE, AIM_GOVERNANCE]"

definition anchor_immutability_mode_of :: "string \<Rightarrow> anchor_immutability_mode option" where
  "anchor_immutability_mode_of = enum_lookup anchor_immutability_mode_value anchor_immutability_mode_members"

interpretation anchor_immutability_mode_enum: string_enum anchor_immutability_mode_value anchor_immutability_mode_members
  by (unfold_locales, case_tac m) (simp_all add: anchor_immutability_mode_members_def)

lemmas anchor_immutability_mode_of_iff = anchor_immutability_mode_enum.lookup_sound [folded anchor_immutability_mode_of_def]

lemma anchor_immutability_mode_of_value [enum_simps, simp]: "anchor_immutability_mode_of (anchor_immutability_mode_value m) = Some m"
  by (simp add: anchor_immutability_mode_of_iff)

datatype ledger_health_status =
  LHS_ATTENTION_REQUIRED | LHS_OK

fun ledger_health_status_value :: "ledger_health_status \<Rightarrow> string" where
  "ledger_health_status_value LHS_ATTENTION_REQUIRED = ''attention_required''"
| "ledger_health_status_value LHS_OK = ''ok''"

definition ledger_health_status_members :: "ledger_health_status list" where
  "ledger_health_status_members = [LHS_ATTENTION_REQUIRED, LHS_OK]"

definition ledger_health_status_of :: "string \<Rightarrow> ledger_health_status option" where
  "ledger_health_status_of = enum_lookup ledger_health_status_value ledger_health_status_members"

interpretation ledger_health_status_enum: string_enum ledger_health_status_value ledger_health_status_members
  by (unfold_locales, case_tac m) (simp_all add: ledger_health_status_members_def)

lemmas ledger_health_status_of_iff = ledger_health_status_enum.lookup_sound [folded ledger_health_status_of_def]

lemma ledger_health_status_of_value [enum_simps, simp]: "ledger_health_status_of (ledger_health_status_value m) = Some m"
  by (simp add: ledger_health_status_of_iff)

datatype readiness_status =
  RS_ATTENTION_REQUIRED | RS_OK

fun readiness_status_value :: "readiness_status \<Rightarrow> string" where
  "readiness_status_value RS_ATTENTION_REQUIRED = ''attention_required''"
| "readiness_status_value RS_OK = ''ok''"

definition readiness_status_members :: "readiness_status list" where
  "readiness_status_members = [RS_ATTENTION_REQUIRED, RS_OK]"

definition readiness_status_of :: "string \<Rightarrow> readiness_status option" where
  "readiness_status_of = enum_lookup readiness_status_value readiness_status_members"

interpretation readiness_status_enum: string_enum readiness_status_value readiness_status_members
  by (unfold_locales, case_tac m) (simp_all add: readiness_status_members_def)

lemmas readiness_status_of_iff = readiness_status_enum.lookup_sound [folded readiness_status_of_def]

lemma readiness_status_of_value [enum_simps, simp]: "readiness_status_of (readiness_status_value m) = Some m"
  by (simp add: readiness_status_of_iff)

datatype feed_status =
  FS_CONNECTED | FS_DISCONNECTED | FS_STALE

fun feed_status_value :: "feed_status \<Rightarrow> string" where
  "feed_status_value FS_CONNECTED = ''connected''"
| "feed_status_value FS_DISCONNECTED = ''disconnected''"
| "feed_status_value FS_STALE = ''stale''"

definition feed_status_members :: "feed_status list" where
  "feed_status_members = [FS_CONNECTED, FS_DISCONNECTED, FS_STALE]"

definition feed_status_of :: "string \<Rightarrow> feed_status option" where
  "feed_status_of = enum_lookup feed_status_value feed_status_members"

interpretation feed_status_enum: string_enum feed_status_value feed_status_members
  by (unfold_locales, case_tac m) (simp_all add: feed_status_members_def)

lemmas feed_status_of_iff = feed_status_enum.lookup_sound [folded feed_status_of_def]

lemma feed_status_of_value [enum_simps, simp]: "feed_status_of (feed_status_value m) = Some m"
  by (simp add: feed_status_of_iff)

datatype action_status =
  AS_ACCEPTED | AS_EXECUTED | AS_FAILED | AS_REJECTED | AS_REQUESTED

fun action_status_value :: "action_status \<Rightarrow> string" where
  "action_status_value AS_ACCEPTED = ''accepted''"
| "action_status_value AS_EXECUTED = ''executed''"
| "action_status_value AS_FAILED = ''failed''"
| "action_status_value AS_REJECTED = ''rejected''"
| "action_status_value AS_REQUESTED = ''requested''"

definition action_status_members :: "action_status list" where
  "action_status_members = [AS_ACCEPTED, AS_EXECUTED, AS_FAILED, AS_REJECTED, AS_REQUESTED]"

definition action_status_of :: "string \<Rightarrow> action_status option" where
  "action_status_of = enum_lookup action_status_value action_status_members"

interpretation action_status_enum: string_enum action_status_value action_status_members
  by (unfold_locales, case_tac m) (simp_all add: action_status_members_def)

lemmas action_status_of_iff = action_status_enum.lookup_sound [folded action_status_of_def]

lemma action_status_of_value [enum_simps, simp]: "action_status_of (action_status_value m) = Some m"
  by (simp add: action_status_of_iff)

datatype action_type =
  AT_CANCEL_ORDER | AT_PLACE_ORDER

fun action_type_value :: "action_type \<Rightarrow> string" where
  "action_type_value AT_CANCEL_ORDER = ''order.cancel''"
| "action_type_value AT_PLACE_ORDER = ''order.place''"

definition action_type_members :: "action_type list" where
  "action_type_members = [AT_CANCEL_ORDER, AT_PLACE_ORDER]"

definition action_type_of :: "string \<Rightarrow> action_type option" where
  "action_type_of = enum_lookup action_type_value action_type_members"

interpretation action_type_enum: string_enum action_type_value action_type_members
  by (unfold_locales, case_tac m) (simp_all add: action_type_members_def)

lemmas action_type_of_iff = action_type_enum.lookup_sound [folded action_type_of_def]

lemma action_type_of_value [enum_simps, simp]: "action_type_of (action_type_value m) = Some m"
  by (simp add: action_type_of_iff)

datatype action_rejection_reason =
  ARR_DUPLICATE_ACTION_ID | ARR_DUPLICATE_ORDER_IDENTITY | ARR_RISK_CHECK_FAILED
  | ARR_VALIDATION_FAILED

fun action_rejection_reason_value :: "action_rejection_reason \<Rightarrow> string" where
  "action_rejection_reason_value ARR_DUPLICATE_ACTION_ID = ''duplicate_action_id''"
| "action_rejection_reason_value ARR_DUPLICATE_ORDER_IDENTITY = ''duplicate_order_identity''"
| "action_rejection_reason_value ARR_RISK_CHECK_FAILED = ''risk_check_failed''"
| "action_rejection_reason_value ARR_VALIDATION_FAILED = ''validation_failed''"

definition action_rejection_reason_members :: "action_rejection_reason list" where
  "action_rejection_reason_members = [ARR_DUPLICATE_ACTION_ID, ARR_DUPLICATE_ORDER_IDENTITY,
     ARR_RISK_CHECK_FAILED, ARR_VALIDATION_FAILED]"

definition action_rejection_reason_of :: "string \<Rightarrow> action_rejection_reason option" where
  "action_rejection_reason_of = enum_lookup action_rejection_reason_value action_rejection_reason_members"

interpretation action_rejection_reason_enum: string_enum action_rejection_reason_value action_rejection_reason_members
  by (unfold_locales, case_tac m) (simp_all add: action_rejection_reason_members_def)

lemmas action_rejection_reason_of_iff = action_rejection_reason_enum.lookup_sound [folded action_rejection_reason_of_def]

lemma action_rejection_reason_of_value [enum_simps, simp]: "action_rejection_reason_of (action_rejection_reason_value m) = Some m"
  by (simp add: action_rejection_reason_of_iff)

datatype action_failure_reason =
  AFR_EXECUTION_FAILED | AFR_EXECUTION_REJECTED | AFR_EXECUTOR_ERROR

fun action_failure_reason_value :: "action_failure_reason \<Rightarrow> string" where
  "action_failure_reason_value AFR_EXECUTION_FAILED = ''execution_failed''"
| "action_failure_reason_value AFR_EXECUTION_REJECTED = ''execution_rejected''"
| "action_failure_reason_value AFR_EXECUTOR_ERROR = ''executor_error''"

definition action_failure_reason_members :: "action_failure_reason list" where
  "action_failure_reason_members = [AFR_EXECUTION_FAILED, AFR_EXECUTION_REJECTED,
     AFR_EXECUTOR_ERROR]"

definition action_failure_reason_of :: "string \<Rightarrow> action_failure_reason option" where
  "action_failure_reason_of = enum_lookup action_failure_reason_value action_failure_reason_members"

interpretation action_failure_reason_enum: string_enum action_failure_reason_value action_failure_reason_members
  by (unfold_locales, case_tac m) (simp_all add: action_failure_reason_members_def)

lemmas action_failure_reason_of_iff = action_failure_reason_enum.lookup_sound [folded action_failure_reason_of_def]

lemma action_failure_reason_of_value [enum_simps, simp]: "action_failure_reason_of (action_failure_reason_value m) = Some m"
  by (simp add: action_failure_reason_of_iff)

datatype execution_mode =
  EM_DRY_RUN | EM_LIVE

fun execution_mode_value :: "execution_mode \<Rightarrow> string" where
  "execution_mode_value EM_DRY_RUN = ''dry_run''"
| "execution_mode_value EM_LIVE = ''live''"

definition execution_mode_members :: "execution_mode list" where
  "execution_mode_members = [EM_DRY_RUN, EM_LIVE]"

definition execution_mode_of :: "string \<Rightarrow> execution_mode option" where
  "execution_mode_of = enum_lookup execution_mode_value execution_mode_members"

interpretation execution_mode_enum: string_enum execution_mode_value execution_mode_members
  by (unfold_locales, case_tac m) (simp_all add: execution_mode_members_def)

lemmas execution_mode_of_iff = execution_mode_enum.lookup_sound [folded execution_mode_of_def]

lemma execution_mode_of_value [enum_simps, simp]: "execution_mode_of (execution_mode_value m) = Some m"
  by (simp add: execution_mode_of_iff)

datatype execution_status =
  ES_ACCEPTED | ES_CANCELLED | ES_FAILED | ES_REJECTED

fun execution_status_value :: "execution_status \<Rightarrow> string" where
  "execution_status_value ES_ACCEPTED = ''accepted''"
| "execution_status_value ES_CANCELLED = ''cancelled''"
| "execution_status_value ES_FAILED = ''failed''"
| "execution_status_value ES_REJECTED = ''rejected''"

definition execution_status_members :: "execution_status list" where
  "execution_status_members = [ES_ACCEPTED, ES_CANCELLED, ES_FAILED, ES_REJECTED]"

definition execution_status_of :: "string \<Rightarrow> execution_status option" where
  "execution_status_of = enum_lookup execution_status_value execution_status_members"

interpretation execution_status_enum: string_enum execution_status_value execution_status_members
  by (unfold_locales, case_tac m) (simp_all add: execution_status_members_def)

lemmas execution_status_of_iff = execution_status_enum.lookup_sound [folded execution_status_of_def]

lemma execution_status_of_value [enum_simps, simp]: "execution_status_of (execution_status_value m) = Some m"
  by (simp add: execution_status_of_iff)

datatype risk_check_status =
  RCS_FAIL | RCS_PASS

fun risk_check_status_value :: "risk_check_status \<Rightarrow> string" where
  "risk_check_status_value RCS_FAIL = ''fail''"
| "risk_check_status_value RCS_PASS = ''pass''"

definition risk_check_status_members :: "risk_check_status list" where
  "risk_check_status_members = [RCS_FAIL, RCS_PASS]"

definition risk_check_status_of :: "string \<Rightarrow> risk_check_status option" where
  "risk_check_status_of = enum_lookup risk_check_status_value risk_check_status_members"

interpretation risk_check_status_enum: string_enum risk_check_status_value risk_check_status_members
  by (unfold_locales, case_tac m) (simp_all add: risk_check_status_members_def)

lemmas risk_check_status_of_iff = risk_check_status_enum.lookup_sound [folded risk_check_status_of_def]

lemma risk_check_status_of_value [enum_simps, simp]: "risk_check_status_of (risk_check_status_value m) = Some m"
  by (simp add: risk_check_status_of_iff)

datatype risk_rule =
  RR_ALLOWED_ORDER_TYPE | RR_ALLOWED_PRODUCT | RR_ALLOWED_SIDE | RR_ALLOWED_TIME_IN_FORCE
  | RR_KILL_SWITCH | RR_LINEAGE_RELATION_ALLOWED | RR_MAX_DAILY_NOTIONAL | RR_MAX_LEVERAGE
  | RR_MAX_OPEN_ORDERS | RR_MAX_ORDER_NOTIONAL | RR_MAX_ORDER_REPLACEMENTS | RR_MAX_ORDER_SIZE
  | RR_MAX_VISIBLE_NOTIONAL | RR_PLACEMENT_KIND_ALLOWED | RR_POST_ONLY_REQUIRED
  | RR_PRODUCT_BASE_SIZE | RR_PRODUCT_PRICE_INCREMENT | RR_PRODUCT_QUOTE_NOTIONAL
  | RR_PRODUCT_TRADABLE | RR_REDUCE_ONLY_REQUIRED

fun risk_rule_value :: "risk_rule \<Rightarrow> string" where
  "risk_rule_value RR_ALLOWED_ORDER_TYPE = ''allowed_order_type''"
| "risk_rule_value RR_ALLOWED_PRODUCT = ''allowed_product''"
| "risk_rule_value RR_ALLOWED_SIDE = ''allowed_side''"
| "risk_rule_value RR_ALLOWED_TIME_IN_FORCE = ''allowed_time_in_force''"
| "risk_rule_value RR_KILL_SWITCH = ''kill_switch''"
| "risk_rule_value RR_LINEAGE_RELATION_ALLOWED = ''lineage_relation_allowed''"
| "risk_rule_value RR_MAX_DAILY_NOTIONAL = ''max_daily_notional''"
| "risk_rule_value RR_MAX_LEVERAGE = ''max_leverage''"
| "risk_rule_value RR_MAX_OPEN_ORDERS = ''max_open_orders''"
| "risk_rule_value RR_MAX_ORDER_NOTIONAL = ''max_order_notional''"
| "risk_rule_value RR_MAX_ORDER_REPLACEMENTS = ''max_order_replacements''"
| "risk_rule_value RR_MAX_ORDER_SIZE = ''max_order_size''"
| "risk_rule_value RR_MAX_VISIBLE_NOTIONAL = ''max_visible_notional''"
| "risk_rule_value RR_PLACEMENT_KIND_ALLOWED = ''placement_kind_allowed''"
| "risk_rule_value RR_POST_ONLY_REQUIRED = ''post_only_required''"
| "risk_rule_value RR_PRODUCT_BASE_SIZE = ''product_base_size''"
| "risk_rule_value RR_PRODUCT_PRICE_INCREMENT = ''product_price_increment''"
| "risk_rule_value RR_PRODUCT_QUOTE_NOTIONAL = ''product_quote_notional''"
| "risk_rule_value RR_PRODUCT_TRADABLE = ''product_tradable''"
| "risk_rule_value RR_REDUCE_ONLY_REQUIRED = ''reduce_only_required''"

definition risk_rule_members :: "risk_rule list" where
  "risk_rule_members = [RR_ALLOWED_ORDER_TYPE, RR_ALLOWED_PRODUCT, RR_ALLOWED_SIDE,
     RR_ALLOWED_TIME_IN_FORCE, RR_KILL_SWITCH, RR_LINEAGE_RELATION_ALLOWED,
     RR_MAX_DAILY_NOTIONAL, RR_MAX_LEVERAGE, RR_MAX_OPEN_ORDERS, RR_MAX_ORDER_NOTIONAL,
     RR_MAX_ORDER_REPLACEMENTS, RR_MAX_ORDER_SIZE, RR_MAX_VISIBLE_NOTIONAL,
     RR_PLACEMENT_KIND_ALLOWED, RR_POST_ONLY_REQUIRED, RR_PRODUCT_BASE_SIZE,
     RR_PRODUCT_PRICE_INCREMENT, RR_PRODUCT_QUOTE_NOTIONAL, RR_PRODUCT_TRADABLE,
     RR_REDUCE_ONLY_REQUIRED]"

definition risk_rule_of :: "string \<Rightarrow> risk_rule option" where
  "risk_rule_of = enum_lookup risk_rule_value risk_rule_members"

interpretation risk_rule_enum: string_enum risk_rule_value risk_rule_members
  by (unfold_locales, case_tac m) (simp_all add: risk_rule_members_def)

lemmas risk_rule_of_iff = risk_rule_enum.lookup_sound [folded risk_rule_of_def]

lemma risk_rule_of_value [enum_simps, simp]: "risk_rule_of (risk_rule_value m) = Some m"
  by (simp add: risk_rule_of_iff)

datatype order_side =
  OS_BUY | OS_SELL

fun order_side_value :: "order_side \<Rightarrow> string" where
  "order_side_value OS_BUY = ''buy''"
| "order_side_value OS_SELL = ''sell''"

definition order_side_members :: "order_side list" where
  "order_side_members = [OS_BUY, OS_SELL]"

definition order_side_of :: "string \<Rightarrow> order_side option" where
  "order_side_of = enum_lookup order_side_value order_side_members"

interpretation order_side_enum: string_enum order_side_value order_side_members
  by (unfold_locales, case_tac m) (simp_all add: order_side_members_def)

lemmas order_side_of_iff = order_side_enum.lookup_sound [folded order_side_of_def]

lemma order_side_of_value [enum_simps, simp]: "order_side_of (order_side_value m) = Some m"
  by (simp add: order_side_of_iff)

datatype order_book_side =
  OBS_ASK | OBS_BID

fun order_book_side_value :: "order_book_side \<Rightarrow> string" where
  "order_book_side_value OBS_ASK = ''ask''"
| "order_book_side_value OBS_BID = ''bid''"

definition order_book_side_members :: "order_book_side list" where
  "order_book_side_members = [OBS_ASK, OBS_BID]"

definition order_book_side_of :: "string \<Rightarrow> order_book_side option" where
  "order_book_side_of = enum_lookup order_book_side_value order_book_side_members"

interpretation order_book_side_enum: string_enum order_book_side_value order_book_side_members
  by (unfold_locales, case_tac m) (simp_all add: order_book_side_members_def)

lemmas order_book_side_of_iff = order_book_side_enum.lookup_sound [folded order_book_side_of_def]

lemma order_book_side_of_value [enum_simps, simp]: "order_book_side_of (order_book_side_value m) = Some m"
  by (simp add: order_book_side_of_iff)

datatype order_type =
  OT_LIMIT | OT_MARKET

fun order_type_value :: "order_type \<Rightarrow> string" where
  "order_type_value OT_LIMIT = ''limit''"
| "order_type_value OT_MARKET = ''market''"

definition order_type_members :: "order_type list" where
  "order_type_members = [OT_LIMIT, OT_MARKET]"

definition order_type_of :: "string \<Rightarrow> order_type option" where
  "order_type_of = enum_lookup order_type_value order_type_members"

interpretation order_type_enum: string_enum order_type_value order_type_members
  by (unfold_locales, case_tac m) (simp_all add: order_type_members_def)

lemmas order_type_of_iff = order_type_enum.lookup_sound [folded order_type_of_def]

lemma order_type_of_value [enum_simps, simp]: "order_type_of (order_type_value m) = Some m"
  by (simp add: order_type_of_iff)

datatype margin_type =
  MT_CROSS | MT_ISOLATED

fun margin_type_value :: "margin_type \<Rightarrow> string" where
  "margin_type_value MT_CROSS = ''cross''"
| "margin_type_value MT_ISOLATED = ''isolated''"

definition margin_type_members :: "margin_type list" where
  "margin_type_members = [MT_CROSS, MT_ISOLATED]"

definition margin_type_of :: "string \<Rightarrow> margin_type option" where
  "margin_type_of = enum_lookup margin_type_value margin_type_members"

interpretation margin_type_enum: string_enum margin_type_value margin_type_members
  by (unfold_locales, case_tac m) (simp_all add: margin_type_members_def)

lemmas margin_type_of_iff = margin_type_enum.lookup_sound [folded margin_type_of_def]

lemma margin_type_of_value [enum_simps, simp]: "margin_type_of (margin_type_value m) = Some m"
  by (simp add: margin_type_of_iff)

datatype order_lifecycle_status =
  OLS_ACCEPTED | OLS_CANCEL_QUEUED | OLS_CANCELLED | OLS_EXPIRED | OLS_EXECUTION_UNKNOWN
  | OLS_FAILED | OLS_FILLED | OLS_OPEN | OLS_PENDING | OLS_REJECTED | OLS_REQUESTED

fun order_lifecycle_status_value :: "order_lifecycle_status \<Rightarrow> string" where
  "order_lifecycle_status_value OLS_ACCEPTED = ''accepted''"
| "order_lifecycle_status_value OLS_CANCEL_QUEUED = ''cancel_queued''"
| "order_lifecycle_status_value OLS_CANCELLED = ''cancelled''"
| "order_lifecycle_status_value OLS_EXPIRED = ''expired''"
| "order_lifecycle_status_value OLS_EXECUTION_UNKNOWN = ''execution_unknown''"
| "order_lifecycle_status_value OLS_FAILED = ''failed''"
| "order_lifecycle_status_value OLS_FILLED = ''filled''"
| "order_lifecycle_status_value OLS_OPEN = ''open''"
| "order_lifecycle_status_value OLS_PENDING = ''pending''"
| "order_lifecycle_status_value OLS_REJECTED = ''rejected''"
| "order_lifecycle_status_value OLS_REQUESTED = ''requested''"

definition order_lifecycle_status_members :: "order_lifecycle_status list" where
  "order_lifecycle_status_members = [OLS_ACCEPTED, OLS_CANCEL_QUEUED, OLS_CANCELLED,
     OLS_EXPIRED, OLS_EXECUTION_UNKNOWN, OLS_FAILED, OLS_FILLED, OLS_OPEN, OLS_PENDING,
     OLS_REJECTED, OLS_REQUESTED]"

definition order_lifecycle_status_of :: "string \<Rightarrow> order_lifecycle_status option" where
  "order_lifecycle_status_of = enum_lookup order_lifecycle_status_value order_lifecycle_status_members"

interpretation order_lifecycle_status_enum: string_enum order_lifecycle_status_value order_lifecycle_status_members
  by (unfold_locales, case_tac m) (simp_all add: order_lifecycle_status_members_def)

lemmas order_lifecycle_status_of_iff = order_lifecycle_status_enum.lookup_sound [folded order_lifecycle_status_of_def]

lemma order_lifecycle_status_of_value [enum_simps, simp]: "order_lifecycle_status_of (order_lifecycle_status_value m) = Some m"
  by (simp add: order_lifecycle_status_of_iff)

datatype order_lineage_relation =
  OLR_CONSOLIDATION | OLR_EXTERNAL_IMPORT | OLR_FOLLOWUP_AFTER_FILL | OLR_MANUAL_ASSOCIATION
  | OLR_ROOT | OLR_SPLIT_CHILD

fun order_lineage_relation_value :: "order_lineage_relation \<Rightarrow> string" where
  "order_lineage_relation_value OLR_CONSOLIDATION = ''consolidation''"
| "order_lineage_relation_value OLR_EXTERNAL_IMPORT = ''external_import''"
| "order_lineage_relation_value OLR_FOLLOWUP_AFTER_FILL = ''followup_after_fill''"
| "order_lineage_relation_value OLR_MANUAL_ASSOCIATION = ''manual_association''"
| "order_lineage_relation_value OLR_ROOT = ''root''"
| "order_lineage_relation_value OLR_SPLIT_CHILD = ''split_child''"

definition order_lineage_relation_members :: "order_lineage_relation list" where
  "order_lineage_relation_members = [OLR_CONSOLIDATION, OLR_EXTERNAL_IMPORT,
     OLR_FOLLOWUP_AFTER_FILL, OLR_MANUAL_ASSOCIATION, OLR_ROOT, OLR_SPLIT_CHILD]"

definition order_lineage_relation_of :: "string \<Rightarrow> order_lineage_relation option" where
  "order_lineage_relation_of = enum_lookup order_lineage_relation_value order_lineage_relation_members"

interpretation order_lineage_relation_enum: string_enum order_lineage_relation_value order_lineage_relation_members
  by (unfold_locales, case_tac m) (simp_all add: order_lineage_relation_members_def)

lemmas order_lineage_relation_of_iff = order_lineage_relation_enum.lookup_sound [folded order_lineage_relation_of_def]

lemma order_lineage_relation_of_value [enum_simps, simp]: "order_lineage_relation_of (order_lineage_relation_value m) = Some m"
  by (simp add: order_lineage_relation_of_iff)

datatype order_placement_kind =
  OPK_AMEND | OPK_CANCEL_REPLACE | OPK_EXTERNAL_IMPORT | OPK_INITIAL | OPK_RELEASE
  | OPK_STAGED_RELEASE

fun order_placement_kind_value :: "order_placement_kind \<Rightarrow> string" where
  "order_placement_kind_value OPK_AMEND = ''amend''"
| "order_placement_kind_value OPK_CANCEL_REPLACE = ''cancel_replace''"
| "order_placement_kind_value OPK_EXTERNAL_IMPORT = ''external_import''"
| "order_placement_kind_value OPK_INITIAL = ''initial''"
| "order_placement_kind_value OPK_RELEASE = ''release''"
| "order_placement_kind_value OPK_STAGED_RELEASE = ''staged_release''"

definition order_placement_kind_members :: "order_placement_kind list" where
  "order_placement_kind_members = [OPK_AMEND, OPK_CANCEL_REPLACE, OPK_EXTERNAL_IMPORT,
     OPK_INITIAL, OPK_RELEASE, OPK_STAGED_RELEASE]"

definition order_placement_kind_of :: "string \<Rightarrow> order_placement_kind option" where
  "order_placement_kind_of = enum_lookup order_placement_kind_value order_placement_kind_members"

interpretation order_placement_kind_enum: string_enum order_placement_kind_value order_placement_kind_members
  by (unfold_locales, case_tac m) (simp_all add: order_placement_kind_members_def)

lemmas order_placement_kind_of_iff = order_placement_kind_enum.lookup_sound [folded order_placement_kind_of_def]

lemma order_placement_kind_of_value [enum_simps, simp]: "order_placement_kind_of (order_placement_kind_value m) = Some m"
  by (simp add: order_placement_kind_of_iff)

datatype order_placement_status =
  OPS_ACCEPTED | OPS_CANCELLED | OPS_FAILED | OPS_REJECTED | OPS_STAGED | OPS_SUBMITTED

fun order_placement_status_value :: "order_placement_status \<Rightarrow> string" where
  "order_placement_status_value OPS_ACCEPTED = ''accepted''"
| "order_placement_status_value OPS_CANCELLED = ''cancelled''"
| "order_placement_status_value OPS_FAILED = ''failed''"
| "order_placement_status_value OPS_REJECTED = ''rejected''"
| "order_placement_status_value OPS_STAGED = ''staged''"
| "order_placement_status_value OPS_SUBMITTED = ''submitted''"

definition order_placement_status_members :: "order_placement_status list" where
  "order_placement_status_members = [OPS_ACCEPTED, OPS_CANCELLED, OPS_FAILED, OPS_REJECTED,
     OPS_STAGED, OPS_SUBMITTED]"

definition order_placement_status_of :: "string \<Rightarrow> order_placement_status option" where
  "order_placement_status_of = enum_lookup order_placement_status_value order_placement_status_members"

interpretation order_placement_status_enum: string_enum order_placement_status_value order_placement_status_members
  by (unfold_locales, case_tac m) (simp_all add: order_placement_status_members_def)

lemmas order_placement_status_of_iff = order_placement_status_enum.lookup_sound [folded order_placement_status_of_def]

lemma order_placement_status_of_value [enum_simps, simp]: "order_placement_status_of (order_placement_status_value m) = Some m"
  by (simp add: order_placement_status_of_iff)

datatype order_sizing_decision_status =
  OSD_ACCEPTED | OSD_REJECTED

fun order_sizing_decision_status_value :: "order_sizing_decision_status \<Rightarrow> string" where
  "order_sizing_decision_status_value OSD_ACCEPTED = ''accepted''"
| "order_sizing_decision_status_value OSD_REJECTED = ''rejected''"

definition order_sizing_decision_status_members :: "order_sizing_decision_status list" where
  "order_sizing_decision_status_members = [OSD_ACCEPTED, OSD_REJECTED]"

definition order_sizing_decision_status_of :: "string \<Rightarrow> order_sizing_decision_status option" where
  "order_sizing_decision_status_of = enum_lookup order_sizing_decision_status_value order_sizing_decision_status_members"

interpretation order_sizing_decision_status_enum: string_enum order_sizing_decision_status_value order_sizing_decision_status_members
  by (unfold_locales, case_tac m) (simp_all add: order_sizing_decision_status_members_def)

lemmas order_sizing_decision_status_of_iff = order_sizing_decision_status_enum.lookup_sound [folded order_sizing_decision_status_of_def]

lemma order_sizing_decision_status_of_value [enum_simps, simp]: "order_sizing_decision_status_of (order_sizing_decision_status_value m) = Some m"
  by (simp add: order_sizing_decision_status_of_iff)

datatype exchange_order_status =
  EOS_CANCELLED | EOS_CANCEL_QUEUED | EOS_EXPIRED | EOS_FAILED | EOS_FILLED | EOS_OPEN
  | EOS_PENDING | EOS_UNKNOWN

fun exchange_order_status_value :: "exchange_order_status \<Rightarrow> string" where
  "exchange_order_status_value EOS_CANCELLED = ''CANCELLED''"
| "exchange_order_status_value EOS_CANCEL_QUEUED = ''CANCEL_QUEUED''"
| "exchange_order_status_value EOS_EXPIRED = ''EXPIRED''"
| "exchange_order_status_value EOS_FAILED = ''FAILED''"
| "exchange_order_status_value EOS_FILLED = ''FILLED''"
| "exchange_order_status_value EOS_OPEN = ''OPEN''"
| "exchange_order_status_value EOS_PENDING = ''PENDING''"
| "exchange_order_status_value EOS_UNKNOWN = ''UNKNOWN''"

definition exchange_order_status_members :: "exchange_order_status list" where
  "exchange_order_status_members = [EOS_CANCELLED, EOS_CANCEL_QUEUED, EOS_EXPIRED, EOS_FAILED,
     EOS_FILLED, EOS_OPEN, EOS_PENDING, EOS_UNKNOWN]"

definition exchange_order_status_of :: "string \<Rightarrow> exchange_order_status option" where
  "exchange_order_status_of = enum_lookup exchange_order_status_value exchange_order_status_members"

interpretation exchange_order_status_enum: string_enum exchange_order_status_value exchange_order_status_members
  by (unfold_locales, case_tac m) (simp_all add: exchange_order_status_members_def)

lemmas exchange_order_status_of_iff = exchange_order_status_enum.lookup_sound [folded exchange_order_status_of_def]

lemma exchange_order_status_of_value [enum_simps, simp]: "exchange_order_status_of (exchange_order_status_value m) = Some m"
  by (simp add: exchange_order_status_of_iff)

datatype exchange_lookup_status =
  ELS_FAILED | ELS_FOUND | ELS_NOT_FOUND

fun exchange_lookup_status_value :: "exchange_lookup_status \<Rightarrow> string" where
  "exchange_lookup_status_value ELS_FAILED = ''failed''"
| "exchange_lookup_status_value ELS_FOUND = ''found''"
| "exchange_lookup_status_value ELS_NOT_FOUND = ''not_found''"

definition exchange_lookup_status_members :: "exchange_lookup_status list" where
  "exchange_lookup_status_members = [ELS_FAILED, ELS_FOUND, ELS_NOT_FOUND]"

definition exchange_lookup_status_of :: "string \<Rightarrow> exchange_lookup_status option" where
  "exchange_lookup_status_of = enum_lookup exchange_lookup_status_value exchange_lookup_status_members"

interpretation exchange_lookup_status_enum: string_enum exchange_lookup_status_value exchange_lookup_status_members
  by (unfold_locales, case_tac m) (simp_all add: exchange_lookup_status_members_def)

lemmas exchange_lookup_status_of_iff = exchange_lookup_status_enum.lookup_sound [folded exchange_lookup_status_of_def]

lemma exchange_lookup_status_of_value [enum_simps, simp]: "exchange_lookup_status_of (exchange_lookup_status_value m) = Some m"
  by (simp add: exchange_lookup_status_of_iff)

datatype reconciliation_issue =
  RI_BOT_POSITION_MISSING | RI_EXCHANGE_POSITION_MISSING | RI_MISSING_EXECUTION_RESULT
  | RI_MISSING_USER_CONFIRMATION | RI_POSITION_SIZE_DRIFT

fun reconciliation_issue_value :: "reconciliation_issue \<Rightarrow> string" where
  "reconciliation_issue_value RI_BOT_POSITION_MISSING = ''bot_position_missing''"
| "reconciliation_issue_value RI_EXCHANGE_POSITION_MISSING = ''exchange_position_missing''"
| "reconciliation_issue_value RI_MISSING_EXECUTION_RESULT = ''missing_execution_result''"
| "reconciliation_issue_value RI_MISSING_USER_CONFIRMATION = ''missing_user_confirmation''"
| "reconciliation_issue_value RI_POSITION_SIZE_DRIFT = ''position_size_drift''"

definition reconciliation_issue_members :: "reconciliation_issue list" where
  "reconciliation_issue_members = [RI_BOT_POSITION_MISSING, RI_EXCHANGE_POSITION_MISSING,
     RI_MISSING_EXECUTION_RESULT, RI_MISSING_USER_CONFIRMATION, RI_POSITION_SIZE_DRIFT]"

definition reconciliation_issue_of :: "string \<Rightarrow> reconciliation_issue option" where
  "reconciliation_issue_of = enum_lookup reconciliation_issue_value reconciliation_issue_members"

interpretation reconciliation_issue_enum: string_enum reconciliation_issue_value reconciliation_issue_members
  by (unfold_locales, case_tac m) (simp_all add: reconciliation_issue_members_def)

lemmas reconciliation_issue_of_iff = reconciliation_issue_enum.lookup_sound [folded reconciliation_issue_of_def]

lemma reconciliation_issue_of_value [enum_simps, simp]: "reconciliation_issue_of (reconciliation_issue_value m) = Some m"
  by (simp add: reconciliation_issue_of_iff)

datatype runtime_component =
  RC_EXCHANGE_STATE_SMOKE | RC_FEED_SMOKE | RC_ORCHESTRATOR

fun runtime_component_value :: "runtime_component \<Rightarrow> string" where
  "runtime_component_value RC_EXCHANGE_STATE_SMOKE = ''exchange_state_smoke''"
| "runtime_component_value RC_FEED_SMOKE = ''feed_smoke''"
| "runtime_component_value RC_ORCHESTRATOR = ''orchestrator''"

definition runtime_component_members :: "runtime_component list" where
  "runtime_component_members = [RC_EXCHANGE_STATE_SMOKE, RC_FEED_SMOKE, RC_ORCHESTRATOR]"

definition runtime_component_of :: "string \<Rightarrow> runtime_component option" where
  "runtime_component_of = enum_lookup runtime_component_value runtime_component_members"

interpretation runtime_component_enum: string_enum runtime_component_value runtime_component_members
  by (unfold_locales, case_tac m) (simp_all add: runtime_component_members_def)

lemmas runtime_component_of_iff = runtime_component_enum.lookup_sound [folded runtime_component_of_def]

lemma runtime_component_of_value [enum_simps, simp]: "runtime_component_of (runtime_component_value m) = Some m"
  by (simp add: runtime_component_of_iff)

datatype runtime_stop_reason =
  RSR_MAX_CYCLES | RSR_STOP_REQUESTED | RSR_TASK_COMPLETION_TARGET

fun runtime_stop_reason_value :: "runtime_stop_reason \<Rightarrow> string" where
  "runtime_stop_reason_value RSR_MAX_CYCLES = ''max_cycles''"
| "runtime_stop_reason_value RSR_STOP_REQUESTED = ''stop_requested''"
| "runtime_stop_reason_value RSR_TASK_COMPLETION_TARGET = ''task_completion_target''"

definition runtime_stop_reason_members :: "runtime_stop_reason list" where
  "runtime_stop_reason_members = [RSR_MAX_CYCLES, RSR_STOP_REQUESTED,
     RSR_TASK_COMPLETION_TARGET]"

definition runtime_stop_reason_of :: "string \<Rightarrow> runtime_stop_reason option" where
  "runtime_stop_reason_of = enum_lookup runtime_stop_reason_value runtime_stop_reason_members"

interpretation runtime_stop_reason_enum: string_enum runtime_stop_reason_value runtime_stop_reason_members
  by (unfold_locales, case_tac m) (simp_all add: runtime_stop_reason_members_def)

lemmas runtime_stop_reason_of_iff = runtime_stop_reason_enum.lookup_sound [folded runtime_stop_reason_of_def]

lemma runtime_stop_reason_of_value [enum_simps, simp]: "runtime_stop_reason_of (runtime_stop_reason_value m) = Some m"
  by (simp add: runtime_stop_reason_of_iff)

datatype runtime_task =
  RT_AUDIT_ANCHOR | RT_AUDIT_ARCHIVE | RT_EXCHANGE_STATE_RECONCILIATION | RT_FEED_HEALTH
  | RT_FILL_RECONCILIATION | RT_ORDER_RECOVERY | RT_PRODUCT_CATALOG_REFRESH
  | RT_STRATEGY_EVALUATION | RT_TRIGGER_POLLING | RT_WATCHDOG

fun runtime_task_value :: "runtime_task \<Rightarrow> string" where
  "runtime_task_value RT_AUDIT_ANCHOR = ''audit.anchor''"
| "runtime_task_value RT_AUDIT_ARCHIVE = ''audit.archive''"
| "runtime_task_value RT_EXCHANGE_STATE_RECONCILIATION = ''reconciliation.exchange_state''"
| "runtime_task_value RT_FEED_HEALTH = ''feed.health''"
| "runtime_task_value RT_FILL_RECONCILIATION = ''reconciliation.fills''"
| "runtime_task_value RT_ORDER_RECOVERY = ''reconciliation.recovery''"
| "runtime_task_value RT_PRODUCT_CATALOG_REFRESH = ''products.catalog_refresh''"
| "runtime_task_value RT_STRATEGY_EVALUATION = ''strategies.evaluate''"
| "runtime_task_value RT_TRIGGER_POLLING = ''triggers.poll''"
| "runtime_task_value RT_WATCHDOG = ''reconciliation.watchdog''"

definition runtime_task_members :: "runtime_task list" where
  "runtime_task_members = [RT_AUDIT_ANCHOR, RT_AUDIT_ARCHIVE, RT_EXCHANGE_STATE_RECONCILIATION,
     RT_FEED_HEALTH, RT_FILL_RECONCILIATION, RT_ORDER_RECOVERY, RT_PRODUCT_CATALOG_REFRESH,
     RT_STRATEGY_EVALUATION, RT_TRIGGER_POLLING, RT_WATCHDOG]"

definition runtime_task_of :: "string \<Rightarrow> runtime_task option" where
  "runtime_task_of = enum_lookup runtime_task_value runtime_task_members"

interpretation runtime_task_enum: string_enum runtime_task_value runtime_task_members
  by (unfold_locales, case_tac m) (simp_all add: runtime_task_members_def)

lemmas runtime_task_of_iff = runtime_task_enum.lookup_sound [folded runtime_task_of_def]

lemma runtime_task_of_value [enum_simps, simp]: "runtime_task_of (runtime_task_value m) = Some m"
  by (simp add: runtime_task_of_iff)

datatype strategy_evaluation_status =
  SES_COMPLETED | SES_FAILED | SES_STARTED

fun strategy_evaluation_status_value :: "strategy_evaluation_status \<Rightarrow> string" where
  "strategy_evaluation_status_value SES_COMPLETED = ''completed''"
| "strategy_evaluation_status_value SES_FAILED = ''failed''"
| "strategy_evaluation_status_value SES_STARTED = ''started''"

definition strategy_evaluation_status_members :: "strategy_evaluation_status list" where
  "strategy_evaluation_status_members = [SES_COMPLETED, SES_FAILED, SES_STARTED]"

definition strategy_evaluation_status_of :: "string \<Rightarrow> strategy_evaluation_status option" where
  "strategy_evaluation_status_of = enum_lookup strategy_evaluation_status_value strategy_evaluation_status_members"

interpretation strategy_evaluation_status_enum: string_enum strategy_evaluation_status_value strategy_evaluation_status_members
  by (unfold_locales, case_tac m) (simp_all add: strategy_evaluation_status_members_def)

lemmas strategy_evaluation_status_of_iff = strategy_evaluation_status_enum.lookup_sound [folded strategy_evaluation_status_of_def]

lemma strategy_evaluation_status_of_value [enum_simps, simp]: "strategy_evaluation_status_of (strategy_evaluation_status_value m) = Some m"
  by (simp add: strategy_evaluation_status_of_iff)

datatype strategy_simulation_status =
  SSS_ATTENTION_REQUIRED | SSS_OK

fun strategy_simulation_status_value :: "strategy_simulation_status \<Rightarrow> string" where
  "strategy_simulation_status_value SSS_ATTENTION_REQUIRED = ''attention_required''"
| "strategy_simulation_status_value SSS_OK = ''ok''"

definition strategy_simulation_status_members :: "strategy_simulation_status list" where
  "strategy_simulation_status_members = [SSS_ATTENTION_REQUIRED, SSS_OK]"

definition strategy_simulation_status_of :: "string \<Rightarrow> strategy_simulation_status option" where
  "strategy_simulation_status_of = enum_lookup strategy_simulation_status_value strategy_simulation_status_members"

interpretation strategy_simulation_status_enum: string_enum strategy_simulation_status_value strategy_simulation_status_members
  by (unfold_locales, case_tac m) (simp_all add: strategy_simulation_status_members_def)

lemmas strategy_simulation_status_of_iff = strategy_simulation_status_enum.lookup_sound [folded strategy_simulation_status_of_def]

lemma strategy_simulation_status_of_value [enum_simps, simp]: "strategy_simulation_status_of (strategy_simulation_status_value m) = Some m"
  by (simp add: strategy_simulation_status_of_iff)

datatype product_type =
  PT_FUTURE | PT_SPOT | PT_UNKNOWN

fun product_type_value :: "product_type \<Rightarrow> string" where
  "product_type_value PT_FUTURE = ''FUTURE''"
| "product_type_value PT_SPOT = ''SPOT''"
| "product_type_value PT_UNKNOWN = ''UNKNOWN_PRODUCT_TYPE''"

definition product_type_members :: "product_type list" where
  "product_type_members = [PT_FUTURE, PT_SPOT, PT_UNKNOWN]"

definition product_type_of :: "string \<Rightarrow> product_type option" where
  "product_type_of = enum_lookup product_type_value product_type_members"

interpretation product_type_enum: string_enum product_type_value product_type_members
  by (unfold_locales, case_tac m) (simp_all add: product_type_members_def)

lemmas product_type_of_iff = product_type_enum.lookup_sound [folded product_type_of_def]

lemma product_type_of_value [enum_simps, simp]: "product_type_of (product_type_value m) = Some m"
  by (simp add: product_type_of_iff)

datatype product_venue =
  PV_CBE | PV_FCM | PV_INTX | PV_UNKNOWN

fun product_venue_value :: "product_venue \<Rightarrow> string" where
  "product_venue_value PV_CBE = ''CBE''"
| "product_venue_value PV_FCM = ''FCM''"
| "product_venue_value PV_INTX = ''INTX''"
| "product_venue_value PV_UNKNOWN = ''UNKNOWN_VENUE_TYPE''"

definition product_venue_members :: "product_venue list" where
  "product_venue_members = [PV_CBE, PV_FCM, PV_INTX, PV_UNKNOWN]"

definition product_venue_of :: "string \<Rightarrow> product_venue option" where
  "product_venue_of = enum_lookup product_venue_value product_venue_members"

interpretation product_venue_enum: string_enum product_venue_value product_venue_members
  by (unfold_locales, case_tac m) (simp_all add: product_venue_members_def)

lemmas product_venue_of_iff = product_venue_enum.lookup_sound [folded product_venue_of_def]

lemma product_venue_of_value [enum_simps, simp]: "product_venue_of (product_venue_value m) = Some m"
  by (simp add: product_venue_of_iff)

datatype time_in_force =
  TIF_FILL_OR_KILL | TIF_GOOD_UNTIL_CANCELLED | TIF_IMMEDIATE_OR_CANCEL

fun time_in_force_value :: "time_in_force \<Rightarrow> string" where
  "time_in_force_value TIF_FILL_OR_KILL = ''fill_or_kill''"
| "time_in_force_value TIF_GOOD_UNTIL_CANCELLED = ''good_until_cancelled''"
| "time_in_force_value TIF_IMMEDIATE_OR_CANCEL = ''immediate_or_cancel''"

definition time_in_force_members :: "time_in_force list" where
  "time_in_force_members = [TIF_FILL_OR_KILL, TIF_GOOD_UNTIL_CANCELLED,
     TIF_IMMEDIATE_OR_CANCEL]"

definition time_in_force_of :: "string \<Rightarrow> time_in_force option" where
  "time_in_force_of = enum_lookup time_in_force_value time_in_force_members"

interpretation time_in_force_enum: string_enum time_in_force_value time_in_force_members
  by (unfold_locales, case_tac m) (simp_all add: time_in_force_members_def)

lemmas time_in_force_of_iff = time_in_force_enum.lookup_sound [folded time_in_force_of_def]

lemma time_in_force_of_value [enum_simps, simp]: "time_in_force_of (time_in_force_value m) = Some m"
  by (simp add: time_in_force_of_iff)

datatype feed_stop_reason =
  FSR_CANCELLED | FSR_ERROR | FSR_SEQUENCE_ANOMALY | FSR_SOURCE_MISMATCH | FSR_STOP_REQUESTED
  | FSR_STREAM_ENDED

fun feed_stop_reason_value :: "feed_stop_reason \<Rightarrow> string" where
  "feed_stop_reason_value FSR_CANCELLED = ''cancelled''"
| "feed_stop_reason_value FSR_ERROR = ''error''"
| "feed_stop_reason_value FSR_SEQUENCE_ANOMALY = ''sequence_anomaly''"
| "feed_stop_reason_value FSR_SOURCE_MISMATCH = ''source_mismatch''"
| "feed_stop_reason_value FSR_STOP_REQUESTED = ''stop_requested''"
| "feed_stop_reason_value FSR_STREAM_ENDED = ''stream_ended''"

definition feed_stop_reason_members :: "feed_stop_reason list" where
  "feed_stop_reason_members = [FSR_CANCELLED, FSR_ERROR, FSR_SEQUENCE_ANOMALY,
     FSR_SOURCE_MISMATCH, FSR_STOP_REQUESTED, FSR_STREAM_ENDED]"

definition feed_stop_reason_of :: "string \<Rightarrow> feed_stop_reason option" where
  "feed_stop_reason_of = enum_lookup feed_stop_reason_value feed_stop_reason_members"

interpretation feed_stop_reason_enum: string_enum feed_stop_reason_value feed_stop_reason_members
  by (unfold_locales, case_tac m) (simp_all add: feed_stop_reason_members_def)

lemmas feed_stop_reason_of_iff = feed_stop_reason_enum.lookup_sound [folded feed_stop_reason_of_def]

lemma feed_stop_reason_of_value [enum_simps, simp]: "feed_stop_reason_of (feed_stop_reason_value m) = Some m"
  by (simp add: feed_stop_reason_of_iff)

datatype coinbase_web_socket_channel =
  CWC_CANDLES | CWC_FUTURES_BALANCE_SUMMARY | CWC_HEARTBEATS | CWC_LEVEL2 | CWC_MARKET_TRADES
  | CWC_STATUS | CWC_TICKER | CWC_TICKER_BATCH | CWC_USER

fun coinbase_web_socket_channel_value :: "coinbase_web_socket_channel \<Rightarrow> string" where
  "coinbase_web_socket_channel_value CWC_CANDLES = ''candles''"
| "coinbase_web_socket_channel_value CWC_FUTURES_BALANCE_SUMMARY = ''futures_balance_summary''"
| "coinbase_web_socket_channel_value CWC_HEARTBEATS = ''heartbeats''"
| "coinbase_web_socket_channel_value CWC_LEVEL2 = ''level2''"
| "coinbase_web_socket_channel_value CWC_MARKET_TRADES = ''market_trades''"
| "coinbase_web_socket_channel_value CWC_STATUS = ''status''"
| "coinbase_web_socket_channel_value CWC_TICKER = ''ticker''"
| "coinbase_web_socket_channel_value CWC_TICKER_BATCH = ''ticker_batch''"
| "coinbase_web_socket_channel_value CWC_USER = ''user''"

definition coinbase_web_socket_channel_members :: "coinbase_web_socket_channel list" where
  "coinbase_web_socket_channel_members = [CWC_CANDLES, CWC_FUTURES_BALANCE_SUMMARY,
     CWC_HEARTBEATS, CWC_LEVEL2, CWC_MARKET_TRADES, CWC_STATUS, CWC_TICKER, CWC_TICKER_BATCH,
     CWC_USER]"

definition coinbase_web_socket_channel_of :: "string \<Rightarrow> coinbase_web_socket_channel option" where
  "coinbase_web_socket_channel_of = enum_lookup coinbase_web_socket_channel_value coinbase_web_socket_channel_members"

interpretation coinbase_web_socket_channel_enum: string_enum coinbase_web_socket_channel_value coinbase_web_socket_channel_members
  by (unfold_locales, case_tac m) (simp_all add: coinbase_web_socket_channel_members_def)

lemmas coinbase_web_socket_channel_of_iff = coinbase_web_socket_channel_enum.lookup_sound [folded coinbase_web_socket_channel_of_def]

lemma coinbase_web_socket_channel_of_value [enum_simps, simp]: "coinbase_web_socket_channel_of (coinbase_web_socket_channel_value m) = Some m"
  by (simp add: coinbase_web_socket_channel_of_iff)

datatype hook_point =
  HP_AFTER_APPEND | HP_BEFORE_APPEND

fun hook_point_value :: "hook_point \<Rightarrow> string" where
  "hook_point_value HP_AFTER_APPEND = ''after_append''"
| "hook_point_value HP_BEFORE_APPEND = ''before_append''"

definition hook_point_members :: "hook_point list" where
  "hook_point_members = [HP_AFTER_APPEND, HP_BEFORE_APPEND]"

definition hook_point_of :: "string \<Rightarrow> hook_point option" where
  "hook_point_of = enum_lookup hook_point_value hook_point_members"

interpretation hook_point_enum: string_enum hook_point_value hook_point_members
  by (unfold_locales, case_tac m) (simp_all add: hook_point_members_def)

lemmas hook_point_of_iff = hook_point_enum.lookup_sound [folded hook_point_of_def]

lemma hook_point_of_value [enum_simps, simp]: "hook_point_of (hook_point_value m) = Some m"
  by (simp add: hook_point_of_iff)

datatype trigger_relation =
  TR_AFTER | TR_BEFORE | TR_ON

fun trigger_relation_value :: "trigger_relation \<Rightarrow> string" where
  "trigger_relation_value TR_AFTER = ''after''"
| "trigger_relation_value TR_BEFORE = ''before''"
| "trigger_relation_value TR_ON = ''on''"

definition trigger_relation_members :: "trigger_relation list" where
  "trigger_relation_members = [TR_AFTER, TR_BEFORE, TR_ON]"

definition trigger_relation_of :: "string \<Rightarrow> trigger_relation option" where
  "trigger_relation_of = enum_lookup trigger_relation_value trigger_relation_members"

interpretation trigger_relation_enum: string_enum trigger_relation_value trigger_relation_members
  by (unfold_locales, case_tac m) (simp_all add: trigger_relation_members_def)

lemmas trigger_relation_of_iff = trigger_relation_enum.lookup_sound [folded trigger_relation_of_def]

lemma trigger_relation_of_value [enum_simps, simp]: "trigger_relation_of (trigger_relation_value m) = Some m"
  by (simp add: trigger_relation_of_iff)

end
