(* ===== verification/Datetime.thy ===== *)
theory Datetime
  imports Prelude
begin

text \<open>
  Instants. A \<^verbatim>\<open>datetime\<close> of the sources is always brought to UTC before it is compared or
  written (the \<^verbatim>\<open>_utc\<close> helpers and \<^verbatim>\<open>normalize_json\<close>), so it is modelled by the instant it
  denotes: microseconds since 1970-01-01T00:00:00Z. Differences are \<^verbatim>\<open>timedelta\<close>s, also in
  microseconds. The text of an instant is \<^verbatim>\<open>isoformat()\<close> of the aware UTC value; the civil date
  follows the standard library's \<^verbatim>\<open>_ord2ymd\<close>.
\<close>

type_synonym datetime = int
type_synonym timedelta = int

definition seconds :: "int \<Rightarrow> timedelta" where
  "seconds n = n * 1000000"

definition utc_date :: "datetime \<Rightarrow> int" where
  "utc_date t = t div 86400000000"

definition days_before_month :: "int \<Rightarrow> int" where
  "days_before_month m =
     [0, 0, 31, 59, 90, 120, 151, 181, 212, 243, 273, 304, 334] ! nat m"

definition days_in_month :: "int \<Rightarrow> int" where
  "days_in_month m = [0, 31, 28, 31, 30, 31, 30, 31, 31, 30, 31, 30, 31] ! nat m"

definition ord2ymd :: "int \<Rightarrow> int \<times> int \<times> int" where
  "ord2ymd ordinal =
     (let n = ordinal - 1;
          n400 = n div 146097; n = n mod 146097;
          n100 = n div 36524; n = n mod 36524;
          n4 = n div 1461; n = n mod 1461;
          n1 = n div 365; n = n mod 365;
          year = n400 * 400 + 1 + n100 * 100 + n4 * 4 + n1
      in if n1 = 4 \<or> n100 = 4 then (year - 1, 12, 31)
         else
           let leap = n1 = 3 \<and> (n4 \<noteq> 24 \<or> n100 = 3);
               month = (n + 50) div 32;
               preceding = days_before_month month + (if month > 2 \<and> leap then 1 else 0)
           in if preceding > n
              then (year, month - 1,
                    n - (preceding - (days_in_month (month - 1)
                                      + (if month - 1 = 2 \<and> leap then 1 else 0))) + 1)
              else (year, month, n - preceding + 1))"

definition pad_int :: "nat \<Rightarrow> int \<Rightarrow> string" where
  "pad_int w i = (let s = int_to_str i in replicate (w - length s) (CHR ''0'') @ s)"

definition isoformat :: "datetime \<Rightarrow> string" where
  "isoformat t =
     (let day = t div 86400000000; us = t mod 86400000000;
          micro = us mod 1000000; sec = us div 1000000
      in case ord2ymd (day + 719163) of (y, m, d) \<Rightarrow>
           pad_int 4 y @ ''-'' @ pad_int 2 m @ ''-'' @ pad_int 2 d @ ''T''
           @ pad_int 2 (sec div 3600) @ '':'' @ pad_int 2 (sec mod 3600 div 60) @ '':''
           @ pad_int 2 (sec mod 60)
           @ (if micro = 0 then [] else ''.'' @ pad_int 6 micro) @ ''+00:00'')"

end
