(* ===== verification/Json.thy ===== *)
theory Json
  imports Enums Datetime "HOL-Library.Multiset"
begin

text \<open>
  JSON values and \<^verbatim>\<open>core/json_tools.py\<close>: \<open>normalize_json\<close> takes the Python values the
  sources put into payloads to JSON values, \<open>canonical_json\<close> is the text that is hashed.
  A finite float is given by its shortest decimal text (sign, digits, exponent), which is what
  \<^verbatim>\<open>repr\<close> prints. Exceptions are values too: the class name, the text and, for a \<^verbatim>\<open>BotError\<close> of
  \<^verbatim>\<open>core/errors.py\<close>, its category, context, code and retry flag.
\<close>

subsection \<open>Values\<close>

datatype pyfloat = PyFloat (float_neg: bool) (float_digits: nat) (float_exp: int)

datatype json =
    JNull
  | JBool bool
  | JInt int
  | JFloat pyfloat
  | JStr string
  | JList "json list"
  | JObj "(string \<times> json) list"

type_synonym payload = "(string, json) dict"

datatype bot_info = BotInfo
  (bot_category: error_category) (bot_context: payload) (bot_code: string) (bot_retryable: bool)

datatype pyexc = PyExc (exc_class: string) (exc_message: string) (exc_bot: "bot_info option")

abbreviation type_error :: "string \<Rightarrow> pyexc" where
  "type_error m \<equiv> PyExc ''TypeError'' m None"

abbreviation value_error :: "string \<Rightarrow> pyexc" where
  "value_error m \<equiv> PyExc ''ValueError'' m None"

abbreviation key_error :: "string \<Rightarrow> pyexc" where
  "key_error m \<equiv> PyExc ''KeyError'' m None"

type_synonym 'a res = "pyexc + 'a"

fun res_bind :: "'a res \<Rightarrow> ('a \<Rightarrow> 'b res) \<Rightarrow> 'b res" where
  "res_bind (Inl e) f = Inl e"
| "res_bind (Inr x) f = f x"

lemma res_bind_Inr: "res_bind r f = Inr y \<longleftrightarrow> (\<exists>x. r = Inr x \<and> f x = Inr y)"
  by (cases r) auto

lemma res_bind_Inl: "res_bind r f = Inl e \<longleftrightarrow> r = Inl e \<or> (\<exists>x. r = Inr x \<and> f x = Inl e)"
  by (cases r) auto

fun res_map :: "('a \<Rightarrow> 'b res) \<Rightarrow> 'a list \<Rightarrow> 'b list res" where
  "res_map f [] = Inr []"
| "res_map f (x # xs) = res_bind (f x) (\<lambda>y. res_bind (res_map f xs) (\<lambda>ys. Inr (y # ys)))"

text \<open>A loop that may raise: the state is threaded until the first exception.\<close>

fun res_fold :: "('a \<Rightarrow> 's \<Rightarrow> 's res) \<Rightarrow> 'a list \<Rightarrow> 's \<Rightarrow> 's res" where
  "res_fold f [] s = Inr s"
| "res_fold f (x # xs) s = res_bind (f x s) (res_fold f xs)"

lemma res_fold_append:
  "res_fold f (xs @ ys) s = res_bind (res_fold f xs s) (res_fold f ys)"
proof (induction xs arbitrary: s)
  case Nil
  show ?case by simp
next
  case (Cons x xs)
  then show ?case by (cases "f x s") simp_all
qed

lemma res_fold_invariant:
  assumes "\<And>x s s'. x \<in> set xs \<Longrightarrow> f x s = Inr s' \<Longrightarrow> P s \<Longrightarrow> P s'"
    and "res_fold f xs s = Inr s'" and "P s"
  shows "P s'"
  using assms
proof (induction xs arbitrary: s)
  case Nil
  then show ?case by simp
next
  case (Cons x xs)
  from Cons.prems(2) obtain t where t: "f x s = Inr t" "res_fold f xs t = Inr s'"
    by (auto simp: res_bind_Inr)
  with Cons.prems have "P t" by auto
  with Cons t show ?case by (meson list.set_intros(2))
qed

subsection \<open>Normalisation of Python values\<close>

text \<open>
  The values the sources hand to \<^verbatim>\<open>normalize_json\<close>: a mapping's keys are given by their
  \<^verbatim>\<open>str(key)\<close>, a dataclass by its fields (\<^verbatim>\<open>asdict\<close>), a value of another type by the type's name.
  \<open>PvJson\<close> embeds a value that is JSON already; \<open>normalize_json_of_json\<close> below is why
  normalising it again gives it back.
\<close>

datatype pyval =
    PvNone
  | PvBool bool
  | PvInt int
  | PvFloat pyfloat
  | PvNonFinite
  | PvStr string
  | PvEnum string
  | PvDatetime datetime
  | PvDataclass "(string \<times> pyval) list"
  | PvMapping "(string \<times> pyval) list"
  | PvSequence "pyval list"
  | PvOther string
  | PvJson json

definition dict_of_items :: "(string \<times> 'v) list \<Rightarrow> (string, 'v) dict" where
  "dict_of_items kvs = fold (\<lambda>(k, v). dict_set k v) kvs []"

fun collect_items :: "(string \<times> json res) list \<Rightarrow> (string \<times> json) list res" where
  "collect_items [] = Inr []"
| "collect_items ((k, r) # rs) = res_bind r (\<lambda>v. res_bind (collect_items rs) (\<lambda>vs. Inr ((k, v) # vs)))"

fun collect_list :: "json res list \<Rightarrow> json list res" where
  "collect_list [] = Inr []"
| "collect_list (r # rs) = res_bind r (\<lambda>v. res_bind (collect_list rs) (\<lambda>vs. Inr (v # vs)))"

fun normalize_json :: "pyval \<Rightarrow> json res" where
  "normalize_json (PvEnum v) = Inr (JStr v)"
| "normalize_json (PvDatetime t) = Inr (JStr (isoformat t))"
| "normalize_json (PvDataclass kvs) =
     res_bind (collect_items (map (\<lambda>(k, v). (k, normalize_json v)) kvs)) (\<lambda>xs. Inr (JObj (dict_of_items xs)))"
| "normalize_json (PvMapping kvs) =
     res_bind (collect_items (map (\<lambda>(k, v). (k, normalize_json v)) kvs)) (\<lambda>xs. Inr (JObj (dict_of_items xs)))"
| "normalize_json (PvSequence vs) =
     res_bind (collect_list (map normalize_json vs)) (\<lambda>xs. Inr (JList xs))"
| "normalize_json (PvFloat f) = Inr (JFloat f)"
| "normalize_json PvNonFinite = Inl (value_error ''JSON payload floats must be finite'')"
| "normalize_json PvNone = Inr JNull"
| "normalize_json (PvStr s) = Inr (JStr s)"
| "normalize_json (PvInt i) = Inr (JInt i)"
| "normalize_json (PvBool b) = Inr (JBool b)"
| "normalize_json (PvOther name) = Inl (type_error (''Unsupported JSON payload type: '' @ name))"
| "normalize_json (PvJson j) = Inr j"

text \<open>A JSON value is itself a Python value.\<close>

fun pyval_of_json :: "json \<Rightarrow> pyval" where
  "pyval_of_json JNull = PvNone"
| "pyval_of_json (JBool b) = PvBool b"
| "pyval_of_json (JInt i) = PvInt i"
| "pyval_of_json (JFloat f) = PvFloat f"
| "pyval_of_json (JStr s) = PvStr s"
| "pyval_of_json (JList xs) = PvSequence (map pyval_of_json xs)"
| "pyval_of_json (JObj kvs) = PvMapping (map (\<lambda>(k, v). (k, pyval_of_json v)) kvs)"

text \<open>Every object of a value has distinct keys, as a Python \<^verbatim>\<open>dict\<close> has.\<close>

fun json_wf :: "json \<Rightarrow> bool" where
  "json_wf (JList xs) = list_all json_wf xs"
| "json_wf (JObj kvs) = (distinct (map fst kvs) \<and> list_all (\<lambda>(k, v). json_wf v) kvs)"
| "json_wf _ = True"

lemma fold_dict_set_new:
  "distinct (map fst (acc @ kvs)) \<Longrightarrow> fold (\<lambda>(k, v). dict_set k v) kvs acc = acc @ kvs"
proof (induction kvs arbitrary: acc)
  case Nil
  show ?case by simp
next
  case (Cons kv kvs)
  obtain k v where kv: "kv = (k, v)" by force
  with Cons.prems have "\<not> dict_has acc k" by (auto simp: dict_has_iff)
  with Cons kv show ?case by (simp add: dict_set_absent)
qed

lemma dict_of_items_distinct: "distinct (map fst kvs) \<Longrightarrow> dict_of_items kvs = kvs"
  using fold_dict_set_new [of "[]" kvs] by (simp add: dict_of_items_def)

lemma distinct_dict_of_items: "distinct (map fst (dict_of_items kvs))"
proof -
  have "distinct (map fst acc) \<Longrightarrow> distinct (map fst (fold (\<lambda>(k, v). dict_set k v) kvs acc))" for acc
    by (induction kvs arbitrary: acc) auto
  then show ?thesis by (simp add: dict_of_items_def)
qed

lemma collect_items_Inr: "collect_items (map (\<lambda>(k, v). (k, Inr v)) kvs) = Inr kvs"
  by (induction kvs) auto

lemma collect_list_Inr: "collect_list (map Inr xs) = Inr xs"
  by (induction xs) auto

lemma normalize_json_of_json: "json_wf j \<Longrightarrow> normalize_json (pyval_of_json j) = Inr j"
proof (induction j)
  case (JList xs)
  then have "map (normalize_json \<circ> pyval_of_json) xs = map Inr xs"
    by (auto simp: list_all_iff)
  then have "collect_list (map (normalize_json \<circ> pyval_of_json) xs) = Inr xs"
    by (simp only: collect_list_Inr)
  then show ?case by simp
next
  case (JObj kvs)
  have "map (\<lambda>(k, v). (k, normalize_json v)) (map (\<lambda>(k, v). (k, pyval_of_json v)) kvs)
      = map (\<lambda>(k, v). (k, Inr v)) kvs"
    using JObj by (auto simp: list_all_iff)
  then show ?case
    using JObj.prems
    by (simp only: pyval_of_json.simps normalize_json.simps collect_items_Inr res_bind.simps
        dict_of_items_distinct json_wf.simps)
qed simp_all

lemma collect_items_wf:
  "collect_items rs = Inr kvs \<Longrightarrow> (\<And>k r v. (k, r) \<in> set rs \<Longrightarrow> r = Inr v \<Longrightarrow> json_wf v) \<Longrightarrow>
   list_all (\<lambda>(k, v). json_wf v) kvs"
proof (induction rs arbitrary: kvs rule: collect_items.induct)
  case (2 k r rs)
  from "2.prems"(1) obtain v vs where r: "r = Inr v" and vs: "collect_items rs = Inr vs"
    and kvs: "kvs = (k, v) # vs"
    by (auto simp: res_bind_Inr)
  have "list_all (\<lambda>(k, v). json_wf v) vs"
    by (rule "2.IH" [OF vs]) (use "2.prems"(2) in auto)
  then show ?case using "2.prems"(2) r kvs by auto
qed simp

lemma collect_list_wf:
  "collect_list rs = Inr xs \<Longrightarrow> (\<And>r v. r \<in> set rs \<Longrightarrow> r = Inr v \<Longrightarrow> json_wf v) \<Longrightarrow> list_all json_wf xs"
proof (induction rs arbitrary: xs rule: collect_list.induct)
  case (2 r rs)
  from "2.prems"(1) obtain v vs where r: "r = Inr v" and vs: "collect_list rs = Inr vs"
    and xs: "xs = v # vs"
    by (auto simp: res_bind_Inr)
  have "list_all json_wf vs"
    by (rule "2.IH" [OF vs]) (use "2.prems"(2) in auto)
  then show ?case using "2.prems"(2) r xs by auto
qed simp

lemma list_all_dict_set:
  "list_all (\<lambda>(k, v). P v) d \<Longrightarrow> P v \<Longrightarrow> list_all (\<lambda>(k, v). P v) (dict_set k v d)"
  by (induction d) auto

lemma list_all_dict_of_items:
  assumes "list_all (\<lambda>(k, v). P v) kvs"
  shows "list_all (\<lambda>(k, v). P v) (dict_of_items kvs)"
proof -
  have "list_all (\<lambda>(k, v). P v) acc \<Longrightarrow>
      list_all (\<lambda>(k, v). P v) (fold (\<lambda>(k, v). dict_set k v) kvs acc)" for acc
    using assms by (induction kvs arbitrary: acc) (auto intro: list_all_dict_set)
  then show ?thesis by (simp add: dict_of_items_def)
qed

text \<open>The JSON values embedded in a Python value are dictionaries with distinct keys.\<close>

fun pyval_wf :: "pyval \<Rightarrow> bool" where
  "pyval_wf (PvJson j) = json_wf j"
| "pyval_wf (PvDataclass kvs) = list_all (\<lambda>(k, v). pyval_wf v) kvs"
| "pyval_wf (PvMapping kvs) = list_all (\<lambda>(k, v). pyval_wf v) kvs"
| "pyval_wf (PvSequence vs) = list_all pyval_wf vs"
| "pyval_wf _ = True"

lemma normalize_json_wf: "normalize_json p = Inr j \<Longrightarrow> pyval_wf p \<Longrightarrow> json_wf j"
proof (induction p arbitrary: j)
  case (PvDataclass kvs)
  from PvDataclass.prems obtain xs
    where xs: "collect_items (map (\<lambda>(k, v). (k, normalize_json v)) kvs) = Inr xs"
      and j: "j = JObj (dict_of_items xs)" by (auto simp: res_bind_Inr)
  have "list_all (\<lambda>(k, v). json_wf v) xs"
    using PvDataclass.IH PvDataclass.prems(2)
    by (intro collect_items_wf [OF xs]) (fastforce simp: list_all_iff)
  then show ?case using j by (simp add: distinct_dict_of_items list_all_dict_of_items)
next
  case (PvMapping kvs)
  from PvMapping.prems obtain xs
    where xs: "collect_items (map (\<lambda>(k, v). (k, normalize_json v)) kvs) = Inr xs"
      and j: "j = JObj (dict_of_items xs)" by (auto simp: res_bind_Inr)
  have "list_all (\<lambda>(k, v). json_wf v) xs"
    using PvMapping.IH PvMapping.prems(2)
    by (intro collect_items_wf [OF xs]) (fastforce simp: list_all_iff)
  then show ?case using j by (simp add: distinct_dict_of_items list_all_dict_of_items)
next
  case (PvSequence vs)
  from PvSequence.prems obtain xs
    where xs: "collect_list (map normalize_json vs) = Inr xs" and j: "j = JList xs"
    by (auto simp: res_bind_Inr)
  have "list_all json_wf xs"
    using PvSequence.IH PvSequence.prems(2)
    by (intro collect_list_wf [OF xs]) (fastforce simp: list_all_iff)
  then show ?case using j by simp
qed simp_all

text \<open>
  The payload accepted by the audit boundary is a fixed point of normalisation: what was
  normalised once is left unchanged by a second pass, so hashing the stored payload again gives
  the hash that was stored.
\<close>

theorem normalize_json_idempotent:
  assumes "normalize_json p = Inr j" and "pyval_wf p"
  shows "normalize_json (pyval_of_json j) = Inr j"
  by (rule normalize_json_of_json) (rule normalize_json_wf [OF assms])

theorem normalize_json_idempotent_witness:
  "normalize_json (pyval_of_json (JObj [(''a'', JInt 2)])) = Inr (JObj [(''a'', JInt 2)])"
proof -
  have "normalize_json (PvMapping [(''a'', PvInt 1), (''a'', PvInt 2)]) = Inr (JObj [(''a'', JInt 2)])"
    by (simp add: dict_of_items_def)
  then show ?thesis by (rule normalize_json_idempotent) simp
qed

subsection \<open>Canonical text\<close>

definition float_repr :: "pyfloat \<Rightarrow> string" where
  "float_repr f =
     (let ds = nat_to_str (float_digits f); n = int (length ds); decpt = n + float_exp f;
          zeros = (\<lambda>k. replicate (nat k) (CHR ''0''));
          sign = (if float_neg f then ''-'' else [])
      in if float_digits f = 0 then sign @ ''0.0''
         else if -4 < decpt \<and> decpt \<le> 16 then
           sign @ (if decpt \<le> 0 then ''0.'' @ zeros (- decpt) @ ds
                   else if n \<le> decpt then ds @ zeros (decpt - n) @ ''.0''
                   else take (nat decpt) ds @ ''.'' @ drop (nat decpt) ds)
         else
           let ex = decpt - 1
           in sign @ take 1 ds @ (if length ds = 1 then [] else ''.'' @ drop 1 ds)
              @ ''e'' @ (if ex < 0 then ''-'' else ''+'') @ pad_int 2 (abs ex))"

definition hex_char :: "nat \<Rightarrow> char" where
  "hex_char d = (if d < 10 then char_of (48 + d) else char_of (87 + d))"

definition escape_char :: "char \<Rightarrow> string" where
  "escape_char c = (let n = (of_char c :: nat) in
     if n = 34 then [CHR 0x5C, CHR 0x22]
     else if n = 92 then [CHR 0x5C, CHR 0x5C]
     else if n = 10 then CHR 0x5C # ''n''
     else if n = 13 then CHR 0x5C # ''r''
     else if n = 9 then CHR 0x5C # ''t''
     else if n = 12 then CHR 0x5C # ''f''
     else if n = 8 then CHR 0x5C # ''b''
     else if 32 \<le> n \<and> n \<le> 126 then [c]
     else CHR 0x5C # ''u00'' @ [hex_char (n div 16), hex_char (n mod 16)])"

definition json_string :: "string \<Rightarrow> string" where
  "json_string s = [CHR 0x22] @ concat (map escape_char s) @ [CHR 0x22]"

text \<open>\<^verbatim>\<open>json.dumps(..., ensure_ascii=True, separators=(",", ":"), sort_keys=True)\<close>\<close>

fun canonical_json :: "json \<Rightarrow> string" where
  "canonical_json JNull = ''null''"
| "canonical_json (JBool b) = (if b then ''true'' else ''false'')"
| "canonical_json (JInt i) = int_to_str i"
| "canonical_json (JFloat f) = float_repr f"
| "canonical_json (JStr s) = json_string s"
| "canonical_json (JList xs) = ''['' @ str_join '','' (map canonical_json xs) @ '']''"
| "canonical_json (JObj kvs) =
     ''{'' @ str_join '','' (map (\<lambda>(k, t). json_string k @ '':'' @ t)
        (sort_key fst (map (\<lambda>(k, v). (k, canonical_json v)) kvs))) @ ''}''"

lemma sort_key_fst_perm:
  assumes "mset xs = mset ys" and "distinct (map fst xs)"
  shows "sort_key fst xs = sort_key fst ys"
  by (rule sort_key_inj_key_eq) (use assms in \<open>auto simp: distinct_map\<close>)

text \<open>
  Two dictionaries with the same items have the same canonical text, whatever their order.
\<close>

theorem canonical_json_key_order:
  assumes "mset kvs = mset kvs'" and "distinct (map fst kvs)"
  shows "canonical_json (JObj kvs) = canonical_json (JObj kvs')"
proof -
  let ?f = "\<lambda>(k, v). (k, canonical_json v)"
  have "map fst (map ?f kvs) = map fst kvs" by auto
  with assms have "sort_key fst (map ?f kvs) = sort_key fst (map ?f kvs')"
    by (intro sort_key_fst_perm) (simp_all only: mset_map)
  then show ?thesis by simp
qed

theorem canonical_json_key_order_witness:
  "canonical_json (JObj [(''b'', JInt 1), (''a'', JNull)])
     = canonical_json (JObj [(''a'', JNull), (''b'', JInt 1)])"
  by (rule canonical_json_key_order) simp_all

end
