(* ===== verification/Errors.thy ===== *)
theory Errors
  imports Json
begin

text \<open>
  \<^verbatim>\<open>core/errors.py\<close>: the error envelope every \<^verbatim>\<open>error\<close> event carries. The \<^verbatim>\<open>BotError\<close> classes are
  the exceptions of theory \<open>Json\<close> whose \<open>exc_bot\<close> is present.
\<close>

definition jopt :: "string option \<Rightarrow> json" where
  "jopt s = (case s of None \<Rightarrow> JNull | Some t \<Rightarrow> JStr t)"

definition jopt_int :: "int option \<Rightarrow> json" where
  "jopt_int i = (case i of None \<Rightarrow> JNull | Some n \<Rightarrow> JInt n)"

definition jget :: "payload \<Rightarrow> string \<Rightarrow> json" where
  "jget p k = (case dict_get p k of None \<Rightarrow> JNull | Some v \<Rightarrow> v)"

definition dict_merge :: "('k, 'v) dict \<Rightarrow> ('k, 'v) dict \<Rightarrow> ('k, 'v) dict" where
  "dict_merge d e = fold (\<lambda>(k, v). dict_set k v) e d"

definition error_schema_version :: int where
  "error_schema_version = 1"

fun default_error_code :: "error_category \<Rightarrow> error_code" where
  "default_error_code EC_ACTION_EXECUTOR = ER_ACTION_EXECUTOR_FAILED"
| "default_error_code EC_AUDIT_LEDGER = ER_AUDIT_LEDGER_FAILED"
| "default_error_code EC_CONFIG = ER_CONFIG_INVALID"
| "default_error_code EC_EXCHANGE_AUTH = ER_EXCHANGE_AUTH_FAILED"
| "default_error_code EC_EXCHANGE_RATE_LIMIT = ER_EXCHANGE_RATE_LIMITED"
| "default_error_code EC_EXCHANGE_TRANSPORT = ER_EXCHANGE_TRANSPORT_FAILED"
| "default_error_code EC_FEED_SOURCE = ER_FEED_SOURCE_FAILED"
| "default_error_code EC_HOOK = ER_HOOK_FAILED"
| "default_error_code EC_RECONCILIATION = ER_RECONCILIATION_LOOKUP_FAILED"
| "default_error_code EC_RUNTIME_TASK = ER_RUNTIME_TASK_FAILED"
| "default_error_code EC_STRATEGY = ER_STRATEGY_EVALUATION_FAILED"
| "default_error_code EC_UNEXPECTED = ER_UNEXPECTED_EXCEPTION"

subsection \<open>The exception classes the modelled code raises\<close>

text \<open>
  Each constructor gives the category, the default code and the default retry flag of its class.
\<close>

definition audit_integrity_error :: "string \<Rightarrow> string \<Rightarrow> pyexc" where
  "audit_integrity_error cls msg =
     PyExc cls msg (Some (BotInfo EC_AUDIT_LEDGER [] (error_code_value ER_AUDIT_INTEGRITY_FAILED) False))"

definition action_executor_contract_error :: "string \<Rightarrow> payload \<Rightarrow> pyexc" where
  "action_executor_contract_error msg ctx =
     PyExc ''ActionExecutorContractError'' msg
       (Some (BotInfo EC_ACTION_EXECUTOR ctx (error_code_value ER_ACTION_EXECUTOR_CONTRACT_FAILED) False))"

subsection \<open>The envelope\<close>

definition error_event_payload ::
  "error_category \<Rightarrow> payload \<Rightarrow> string option \<Rightarrow> string option \<Rightarrow> string \<Rightarrow> bool \<Rightarrow> payload res" where
  "error_event_payload category context error_code exception_type message retryable =
     (if message = [] then Inl (value_error ''message is required'')
      else
        let envelope =
              [(''category'', JStr (error_category_value category)),
               (''code'', jopt error_code),
               (''context'', JObj context),
               (''exception_type'', jopt exception_type),
               (''message'', JStr message),
               (''retryable'', JBool retryable),
               (''schema_version'', JInt error_schema_version)];
            payload =
              [(''error'', JObj envelope),
               (''error_category'', JStr (error_category_value category)),
               (''error_code'', jopt error_code),
               (''error_schema_version'', JInt error_schema_version),
               (''exception_type'', jopt exception_type),
               (''message'', JStr message),
               (''retryable'', JBool retryable)]
        in Inr (fold (\<lambda>(k, v) p. if dict_has p k then p else dict_set k v p) context payload))"

definition exception_to_error_payload ::
  "pyexc \<Rightarrow> error_category \<Rightarrow> payload \<Rightarrow> error_code option \<Rightarrow> bool option \<Rightarrow> payload res" where
  "exception_to_error_payload exc category context error_code retryable =
     (let message = (if exc_message exc = [] then exc_class exc else exc_message exc) in
      case exc_bot exc of
        Some b \<Rightarrow>
          error_event_payload (bot_category b) (dict_merge (bot_context b) context)
            (or_else (map_option error_code_value error_code) (Some (bot_code b)))
            (Some (exc_class exc)) message
            (case retryable of None \<Rightarrow> bot_retryable b | Some r \<Rightarrow> r)
      | None \<Rightarrow>
          error_event_payload category context
            (or_else (map_option error_code_value error_code)
               (Some (error_code_value (default_error_code category))))
            (Some (exc_class exc)) message
            (case retryable of None \<Rightarrow> False | Some r \<Rightarrow> r))"

text \<open>The envelope fields win over a context that uses their names.\<close>

lemma fold_absent_keeps:
  "dict_get p k = Some v \<Longrightarrow>
   dict_get (fold (\<lambda>(k, v) p. if dict_has p k then p else dict_set k v p) ctx p) k = Some v"
proof (induction ctx arbitrary: p)
  case Nil
  then show ?case by simp
next
  case (Cons kv ctx)
  obtain k' v' where kv: "kv = (k', v')" by force
  have "dict_get (if dict_has p k' then p else dict_set k' v' p) k = Some v"
    using Cons.prems by (auto simp: dict_has_def)
  from Cons.IH [OF this] show ?case using kv by simp
qed

lemma error_event_payload_fields:
  assumes "error_event_payload cat ctx code exc msg r = Inr p"
  shows "dict_get p ''error_category'' = Some (JStr (error_category_value cat))"
    and "dict_get p ''error_code'' = Some (jopt code)"
    and "dict_get p ''message'' = Some (JStr msg)"
    and "dict_get p ''retryable'' = Some (JBool r)"
  using assms
  by (auto simp: error_event_payload_def Let_def split: if_splits intro!: fold_absent_keeps)

lemma error_event_payload_ok_iff:
  "(\<exists>p. error_event_payload cat ctx code exc msg r = Inr p) \<longleftrightarrow> msg \<noteq> []"
  by (simp add: error_event_payload_def Let_def)

lemma exception_to_error_payload_ok:
  "exc_class exc \<noteq> [] \<Longrightarrow> \<exists>p. exception_to_error_payload exc cat ctx code r = Inr p"
  by (simp add: exception_to_error_payload_def Let_def error_event_payload_ok_iff split: option.splits)

end
