(* ===== verification/Ledger.thy ===== *)
theory Ledger
  imports Errors
begin

text \<open>
  \<^verbatim>\<open>audit/ledger.py\<close> and \<^verbatim>\<open>audit/replay.py\<close>: the hash-chained ledger. The ledger file is given by
  the list of its records and whether another process holds the lock file; every operation takes
  the lock and verifies the whole chain first, as \<^verbatim>\<open>_verify_locked\<close> does. The digest
  \<^verbatim>\<open>hashlib.sha256\<close>, the clock reading and the record id of \<^verbatim>\<open>uuid4\<close> are arguments, so the
  theorems hold for every digest function.
\<close>

subsection \<open>Records\<close>

record audit_record =
  rec_sequence :: int
  rec_id :: string
  rec_occurred_at :: datetime
  rec_event_type :: event_type
  rec_payload :: json
  rec_previous_hash :: string
  rec_payload_hash :: string
  rec_hash :: string
  rec_schema_version :: int

record ledger_state =
  next_sequence :: int
  last_hash :: string

record ledger =
  led_records :: "audit_record list"
  led_locked :: bool

type_synonym digest = "string \<Rightarrow> string"

definition genesis_hash :: string where
  "genesis_hash = replicate 64 (CHR ''0'')"

definition ledger_schema_version :: int where
  "ledger_schema_version = 1"

definition ledger_corruption :: "string \<Rightarrow> pyexc" where
  "ledger_corruption msg = audit_integrity_error ''LedgerCorruptionError'' msg"

definition ledger_lock_error :: pyexc where
  "ledger_lock_error = audit_integrity_error ''LedgerLockError'' ''Ledger is locked by another process''"

definition record_to_dict :: "audit_record \<Rightarrow> payload" where
  "record_to_dict r =
     [(''event_type'', JStr (event_type_value (rec_event_type r))),
      (''occurred_at'', JStr (isoformat (rec_occurred_at r))),
      (''payload'', rec_payload r),
      (''payload_hash'', JStr (rec_payload_hash r)),
      (''previous_hash'', JStr (rec_previous_hash r)),
      (''record_hash'', JStr (rec_hash r)),
      (''record_id'', JStr (rec_id r)),
      (''schema_version'', JInt (rec_schema_version r)),
      (''sequence'', JInt (rec_sequence r))]"

text \<open>What the record hash covers: every field of the record but the hash itself.\<close>

definition unsigned_text :: "audit_record \<Rightarrow> string" where
  "unsigned_text r = canonical_json (JObj (dict_pop ''record_hash'' (record_to_dict r)))"

definition payload_text :: "audit_record \<Rightarrow> string" where
  "payload_text r = canonical_json (rec_payload r)"

subsection \<open>Verification\<close>

definition verify_audit_record ::
  "digest \<Rightarrow> audit_record \<Rightarrow> int \<Rightarrow> int \<Rightarrow> string \<Rightarrow> string res" where
  "verify_audit_record sha r expected_sequence line prev =
     (if rec_schema_version r \<noteq> ledger_schema_version
      then Inl (ledger_corruption (''Unsupported schema version on line '' @ int_to_str line))
      else if rec_sequence r \<noteq> expected_sequence
      then Inl (ledger_corruption (''Unexpected sequence on line '' @ int_to_str line))
      else if rec_previous_hash r \<noteq> prev
      then Inl (ledger_corruption (''Broken hash chain on line '' @ int_to_str line))
      else if rec_payload_hash r \<noteq> sha (payload_text r)
      then Inl (ledger_corruption (''Payload hash mismatch on line '' @ int_to_str line))
      else if rec_hash r \<noteq> sha (unsigned_text r)
      then Inl (ledger_corruption (''Record hash mismatch on line '' @ int_to_str line))
      else Inr (rec_hash r))"

fun verify_from :: "digest \<Rightarrow> audit_record list \<Rightarrow> int \<Rightarrow> string \<Rightarrow> ledger_state res" where
  "verify_from sha [] expected prev = Inr \<lparr>next_sequence = expected, last_hash = prev\<rparr>"
| "verify_from sha (r # rs) expected prev =
     res_bind (verify_audit_record sha r expected expected prev)
       (\<lambda>h. verify_from sha rs (expected + 1) h)"

definition verify_audit_records :: "digest \<Rightarrow> audit_record list \<Rightarrow> ledger_state res" where
  "verify_audit_records sha rs = verify_from sha rs 1 genesis_hash"

subsection \<open>Operations\<close>

definition ledger_snapshot ::
  "digest \<Rightarrow> ledger \<Rightarrow> (ledger_state \<times> audit_record list) res" where
  "ledger_snapshot sha led =
     (if led_locked led then Inl ledger_lock_error
      else res_bind (verify_audit_records sha (led_records led)) (\<lambda>st. Inr (st, led_records led)))"

definition ledger_verify :: "digest \<Rightarrow> ledger \<Rightarrow> ledger_state res" where
  "ledger_verify sha led = res_bind (ledger_snapshot sha led) (\<lambda>(st, rs). Inr st)"

definition iter_records :: "digest \<Rightarrow> ledger \<Rightarrow> audit_record list res" where
  "iter_records sha led = res_bind (ledger_snapshot sha led) (\<lambda>(st, rs). Inr rs)"

definition signed_record ::
  "digest \<Rightarrow> event_type \<Rightarrow> json \<Rightarrow> datetime \<Rightarrow> string \<Rightarrow> ledger_state \<Rightarrow> audit_record" where
  "signed_record sha et p now uid st =
     (let r = \<lparr>rec_sequence = next_sequence st, rec_id = uid, rec_occurred_at = now,
               rec_event_type = et, rec_payload = p, rec_previous_hash = last_hash st,
               rec_payload_hash = sha (canonical_json p), rec_hash = [],
               rec_schema_version = ledger_schema_version\<rparr>
      in r\<lparr>rec_hash := sha (unsigned_text r)\<rparr>)"

definition ledger_append ::
  "digest \<Rightarrow> event_type \<Rightarrow> pyval \<Rightarrow> datetime \<Rightarrow> string \<Rightarrow> ledger \<Rightarrow> audit_record res \<times> ledger" where
  "ledger_append sha et p now uid led =
     (if led_locked led then (Inl ledger_lock_error, led)
      else
        case verify_audit_records sha (led_records led) of
          Inl e \<Rightarrow> (Inl e, led)
        | Inr st \<Rightarrow>
            (case normalize_json p of
               Inl e \<Rightarrow> (Inl e, led)
             | Inr j \<Rightarrow>
                 let r = signed_record sha et j now uid st
                 in (Inr r, led\<lparr>led_records := led_records led @ [r]\<rparr>)))"

text \<open>\<^verbatim>\<open>ReplayEngine.replay\<close>: the handler is folded over the records from a sequence on.\<close>

definition replay ::
  "digest \<Rightarrow> ledger \<Rightarrow> (audit_record \<Rightarrow> 's \<Rightarrow> 's) \<Rightarrow> int \<Rightarrow> 's \<Rightarrow> ('s \<times> int) res" where
  "replay sha led handler from_sequence s =
     res_bind (iter_records sha led)
       (\<lambda>rs. let replayed = filter (\<lambda>r. \<not> rec_sequence r < from_sequence) rs
             in Inr (fold handler replayed s, int (length replayed)))"

subsection \<open>The chain\<close>

lemma unsigned_text_hash: "unsigned_text (r\<lparr>rec_hash := h\<rparr>) = unsigned_text r"
  by (simp add: unsigned_text_def record_to_dict_def)

lemma verify_audit_record_Inr:
  "verify_audit_record sha r expected line prev = Inr h \<longleftrightarrow>
     rec_schema_version r = ledger_schema_version \<and> rec_sequence r = expected \<and>
     rec_previous_hash r = prev \<and> rec_payload_hash r = sha (payload_text r) \<and>
     rec_hash r = sha (unsigned_text r) \<and> h = rec_hash r"
  by (auto simp: verify_audit_record_def)

lemma verify_signed_record [simp]:
  "verify_audit_record sha (signed_record sha et p now uid st) (next_sequence st) line (last_hash st)
     = Inr (rec_hash (signed_record sha et p now uid st))"
  by (simp only: verify_audit_record_Inr signed_record_def Let_def unsigned_text_hash) (simp add: payload_text_def)

lemma verify_from_append:
  "verify_from sha (rs @ rs') expected prev =
     res_bind (verify_from sha rs expected prev)
       (\<lambda>st. verify_from sha rs' (next_sequence st) (last_hash st))"
proof (induction rs arbitrary: expected prev)
  case Nil
  show ?case by simp
next
  case (Cons r rs)
  then show ?case by (cases "verify_audit_record sha r expected expected prev") simp_all
qed

lemma verify_from_next_sequence:
  "verify_from sha rs expected prev = Inr st \<Longrightarrow> next_sequence st = expected + int (length rs)"
  by (induction rs arbitrary: expected prev) (auto simp: res_bind_Inr)

lemma verify_from_sequences:
  "verify_from sha rs expected prev = Inr st \<Longrightarrow> i < length rs \<Longrightarrow>
   rec_sequence (rs ! i) = expected + int i"
proof (induction rs arbitrary: expected prev i)
  case Nil
  then show ?case by simp
next
  case (Cons r rs)
  from Cons.prems(1) obtain h where r: "rec_sequence r = expected"
    and rs: "verify_from sha rs (expected + 1) h = Inr st"
    by (auto simp: res_bind_Inr verify_audit_record_Inr)
  show ?case
  proof (cases i)
    case 0
    with r show ?thesis by simp
  next
    case (Suc k)
    with Cons.IH [OF rs] Cons.prems(2) show ?thesis by simp
  qed
qed

lemma verify_from_last_hash:
  "verify_from sha rs expected prev = Inr st \<Longrightarrow>
   last_hash st = (if rs = [] then prev else rec_hash (last rs))"
proof (induction rs arbitrary: expected prev)
  case Nil
  then show ?case by auto
next
  case (Cons r rs)
  from Cons.prems obtain h where h: "verify_audit_record sha r expected expected prev = Inr h"
    and rs: "verify_from sha rs (expected + 1) h = Inr st"
    by (auto simp: res_bind_Inr)
  from h have "h = rec_hash r" by (simp add: verify_audit_record_Inr)
  with Cons.IH [OF rs] show ?case by simp
qed

lemma verify_from_prefix:
  "verify_from sha (rs @ rs') expected prev = Inr st \<Longrightarrow>
   \<exists>st'. verify_from sha rs expected prev = Inr st'"
  by (auto simp: verify_from_append res_bind_Inr)

definition ledger_ok :: "digest \<Rightarrow> ledger \<Rightarrow> bool" where
  "ledger_ok sha led \<longleftrightarrow>
     \<not> led_locked led \<and> (\<exists>st. verify_audit_records sha (led_records led) = Inr st)"

definition tip :: "digest \<Rightarrow> ledger \<Rightarrow> ledger_state" where
  "tip sha led =
     \<lparr>next_sequence = int (length (led_records led)) + 1,
      last_hash = (if led_records led = [] then genesis_hash else rec_hash (last (led_records led)))\<rparr>"

lemma verify_state_unique:
  "verify_audit_records sha rs = Inr st \<Longrightarrow>
   st = \<lparr>next_sequence = int (length rs) + 1,
         last_hash = (if rs = [] then genesis_hash else rec_hash (last rs))\<rparr>"
  unfolding verify_audit_records_def
  using verify_from_next_sequence [of sha rs 1 genesis_hash st]
    verify_from_last_hash [of sha rs 1 genesis_hash st]
  by (cases st) (simp add: add.commute)

lemma ledger_ok_verify: "ledger_ok sha led \<Longrightarrow> verify_audit_records sha (led_records led) = Inr (tip sha led)"
  using verify_state_unique by (fastforce simp: ledger_ok_def tip_def)

lemma ledger_ok_snapshot:
  "ledger_ok sha led \<Longrightarrow> ledger_snapshot sha led = Inr (tip sha led, led_records led)"
  by (simp add: ledger_snapshot_def ledger_ok_verify) (simp add: ledger_ok_def)

lemma ledger_ok_empty [simp]: "ledger_ok sha \<lparr>led_records = [], led_locked = False\<rparr>"
  by (simp add: ledger_ok_def verify_audit_records_def)

subsection \<open>Appending\<close>

text \<open>
  On a ledger that verifies and is not locked, appending a payload that normalises adds one record
  with the next sequence and the normalised payload, and the longer chain verifies.
\<close>

theorem ledger_append_ok:
  assumes "ledger_ok sha led" and "normalize_json p = Inr j"
  shows "\<exists>r led'. ledger_append sha et p now uid led = (Inr r, led') \<and>
           led_records led' = led_records led @ [r] \<and> ledger_ok sha led' \<and>
           rec_sequence r = int (length (led_records led)) + 1 \<and>
           rec_event_type r = et \<and> rec_payload r = j \<and> rec_occurred_at r = now"
proof -
  let ?r = "signed_record sha et j now uid (tip sha led)"
  let ?led' = "led\<lparr>led_records := led_records led @ [?r]\<rparr>"
  have "ledger_append sha et p now uid led = (Inr ?r, ?led')"
    using assms ledger_ok_verify [OF assms(1)]
    by (simp add: ledger_append_def ledger_ok_def Let_def)
  moreover have "ledger_ok sha ?led'"
    using assms(1) ledger_ok_verify [OF assms(1)]
    by (auto simp: ledger_ok_def verify_audit_records_def verify_from_append)
  ultimately show ?thesis
    by (simp add: signed_record_def tip_def Let_def)
qed

theorem ledger_append_ok_witness:
  "\<exists>r led'. ledger_append (\<lambda>s. s) ET_SYSTEM_STARTED (PvMapping [(''task_count'', PvInt 2)]) 0 ''id''
       \<lparr>led_records = [], led_locked = False\<rparr> = (Inr r, led') \<and>
     led_records led' = [r] \<and> ledger_ok (\<lambda>s. s) led' \<and> rec_sequence r = 1"
  using ledger_append_ok [of "\<lambda>s. s" "\<lparr>led_records = [], led_locked = False\<rparr>"
      "PvMapping [(''task_count'', PvInt 2)]" "JObj [(''task_count'', JInt 2)]"
      ET_SYSTEM_STARTED 0 "''id''"]
  by (auto simp: dict_of_items_def)

text \<open>A failing append leaves the records alone.\<close>

lemma ledger_append_error: "ledger_append sha et p now uid led = (Inl e, led') \<Longrightarrow> led' = led"
  by (auto simp: ledger_append_def Let_def split: if_splits sum.splits)

lemma ledger_append_Inr:
  assumes "ledger_append sha et p now uid led = (Inr r, led')"
  shows "led' = led\<lparr>led_records := led_records led @ [r]\<rparr>" and "ledger_ok sha led" and "ledger_ok sha led'"
proof -
  from assms obtain st j where st: "\<not> led_locked led" "verify_audit_records sha (led_records led) = Inr st"
    and j: "normalize_json p = Inr j"
    by (auto simp: ledger_append_def Let_def split: if_splits sum.splits)
  then show ok: "ledger_ok sha led" by (auto simp: ledger_ok_def)
  from ledger_append_ok [OF ok j, of et now uid] assms
  show "ledger_ok sha led'" by auto
  from assms show "led' = led\<lparr>led_records := led_records led @ [r]\<rparr>"
    by (auto simp: ledger_append_def Let_def split: if_splits sum.splits)
qed

text \<open>
  Verification before append: whatever the payload, nothing is appended to a ledger whose chain does
  not verify or that another process holds.
\<close>

theorem append_refuses_corrupt_ledger:
  assumes "\<not> ledger_ok sha led"
  shows "\<exists>e. ledger_append sha et p now uid led = (Inl e, led)"
  using assms by (auto simp: ledger_append_def ledger_ok_def split: sum.splits)

theorem append_refuses_corrupt_ledger_witness:
  "\<exists>e. ledger_append (\<lambda>s. s) ET_ERROR (PvMapping []) 0 ''id''
         \<lparr>led_records = [(signed_record (\<lambda>s. s) ET_ERROR JNull 0 ''x''
                              \<lparr>next_sequence = 1, last_hash = genesis_hash\<rparr>)\<lparr>rec_payload := JInt 1\<rparr>],
          led_locked = False\<rparr> =
      (Inl e, \<lparr>led_records = [(signed_record (\<lambda>s. s) ET_ERROR JNull 0 ''x''
                              \<lparr>next_sequence = 1, last_hash = genesis_hash\<rparr>)\<lparr>rec_payload := JInt 1\<rparr>],
          led_locked = False\<rparr>)"
  by (rule append_refuses_corrupt_ledger)
    (simp add: ledger_ok_def verify_audit_records_def verify_audit_record_def signed_record_def
      Let_def payload_text_def int_to_str_def nat_to_str.simps digit_char_def)

end
