(* ===== verification/Hooks.thy ===== *)
theory Hooks
  imports Ledger
begin

text \<open>
  \<^verbatim>\<open>hooks/registry.py\<close>: callables run before and after every append. A hook is identified by a
  number (Python compares the callables), has a name, and either returns or raises; what it
  raises is collected as a failure and never stops the other hooks.
\<close>

record hook_context =
  ctx_point :: hook_point
  ctx_event_type :: event_type
  ctx_payload :: json
  ctx_record :: "audit_record option"

record hook =
  hook_ident :: nat
  hook_name :: string
  hook_call :: "hook_context \<Rightarrow> pyexc option"

record hook_failure =
  hf_point :: hook_point
  hf_hook_name :: string
  hf_exception_type :: string
  hf_message :: string
  hf_record_sequence :: "int option"

type_synonym hook_registry = "hook_point \<Rightarrow> hook list"

definition hook_failure_payload :: "hook_failure \<Rightarrow> payload res" where
  "hook_failure_payload f =
     error_event_payload EC_HOOK
       [(''hook_name'', JStr (hf_hook_name f)),
        (''point'', JStr (hook_point_value (hf_point f))),
        (''record_sequence'', jopt_int (hf_record_sequence f))]
       (Some (error_code_value ER_HOOK_FAILED)) (Some (hf_exception_type f)) (hf_message f) False"

definition register_hook :: "hook_point \<Rightarrow> hook \<Rightarrow> hook_registry \<Rightarrow> hook_registry res" where
  "register_hook point h reg =
     (if hook_ident h \<in> set (map hook_ident (reg point))
      then Inl (value_error (''hook is already registered for '' @ hook_point_value point))
      else Inr (reg(point := reg point @ [h])))"

definition hook_outcome :: "hook_point \<Rightarrow> hook_context \<Rightarrow> hook \<Rightarrow> hook_failure option" where
  "hook_outcome point ctx h =
     map_option (\<lambda>e. \<lparr>hf_point = point, hf_hook_name = hook_name h,
                      hf_exception_type = exc_class e, hf_message = exc_message e,
                      hf_record_sequence = map_option rec_sequence (ctx_record ctx)\<rparr>)
       (hook_call h ctx)"

definition run_hooks :: "hook_registry \<Rightarrow> hook_point \<Rightarrow> hook_context \<Rightarrow> hook_failure list" where
  "run_hooks reg point ctx = List.map_filter (hook_outcome point ctx) (reg point)"

definition hooks_snapshot :: "hook_registry \<Rightarrow> hook_point \<Rightarrow> string list" where
  "hooks_snapshot reg point = map hook_name (reg point)"

text \<open>Registration keeps the hooks of a point distinct, and every registered hook runs.\<close>

definition hooks_distinct :: "hook_registry \<Rightarrow> bool" where
  "hooks_distinct reg \<longleftrightarrow> (\<forall>p \<in> set hook_point_members. distinct (map hook_ident (reg p)))"

lemma register_hook_distinct:
  "hooks_distinct reg \<Longrightarrow> register_hook p h reg = Inr reg' \<Longrightarrow> hooks_distinct reg'"
  by (auto simp: hooks_distinct_def register_hook_def split: if_splits)

lemma run_hooks_all:
  "set (run_hooks reg p ctx) = {f. \<exists>h \<in> set (reg p). hook_outcome p ctx h = Some f}"
  by (auto simp: run_hooks_def List.map_filter_def image_iff) (metis option.sel)

text \<open>A hook whose exceptions always carry a text.\<close>

definition hook_speaks :: "hook \<Rightarrow> bool" where
  "hook_speaks h \<longleftrightarrow> (\<forall>ctx e. hook_call h ctx = Some e \<longrightarrow> exc_message e \<noteq> [])"

lemma run_hooks_messages:
  assumes "\<And>h. h \<in> set (reg p) \<Longrightarrow> hook_speaks h" and "f \<in> set (run_hooks reg p ctx)"
  shows "hf_message f \<noteq> []"
  using assms by (auto simp: run_hooks_all hook_outcome_def hook_speaks_def)

end
