(* ===== verification/Triggers.thy ===== *)
theory Triggers
  imports Ledger
begin

text \<open>
  \<^verbatim>\<open>triggers/rules.py\<close>: time and message triggers and the engine that fires them. The engine keeps
  the keys that have fired and the trigger ids seeded from a replayed ledger.
\<close>

record trigger_decision =
  td_trigger_id :: string
  td_relation :: trigger_relation
  td_event_type :: "event_type option"
  td_sequence :: "int option"
  td_target_time :: "datetime option"

datatype trigger_rule =
    TimeTrigger (rule_id: string) (rule_relation: trigger_relation) (rule_target: datetime)
      (rule_tolerance: timedelta) (rule_repeatable: bool)
  | MessageTrigger (rule_id: string) (rule_relation: trigger_relation)
      (rule_event_type: "event_type option") (rule_repeatable: bool)

record trigger_engine =
  te_rules :: "trigger_rule list"
  te_fired :: "string set"
  te_seeded :: "string set"

definition empty_trigger_engine :: trigger_engine where
  "empty_trigger_engine = \<lparr>te_rules = [], te_fired = {}, te_seeded = {}\<rparr>"

definition decision_payload :: "trigger_decision \<Rightarrow> payload" where
  "decision_payload d =
     [(''matched_event_type'', jopt (map_option event_type_value (td_event_type d))),
      (''matched_sequence'', jopt_int (td_sequence d)),
      (''relation'', JStr (trigger_relation_value (td_relation d))),
      (''target_time'', jopt (map_option isoformat (td_target_time d))),
      (''trigger_id'', JStr (td_trigger_id d))]"

subsection \<open>Rules\<close>

text \<open>The checks of \<^verbatim>\<open>__post_init__\<close>.\<close>

fun trigger_rule_ok :: "trigger_rule \<Rightarrow> bool" where
  "trigger_rule_ok (TimeTrigger i rel target tol rep) = (i \<noteq> [] \<and> 0 < tol)"
| "trigger_rule_ok (MessageTrigger i rel et rep) = (i \<noteq> [])"

definition time_matches :: "trigger_relation \<Rightarrow> datetime \<Rightarrow> timedelta \<Rightarrow> datetime \<Rightarrow> bool" where
  "time_matches rel target tol now =
     (case rel of TR_BEFORE \<Rightarrow> now < target
                | TR_ON \<Rightarrow> abs (now - target) \<le> tol
                | TR_AFTER \<Rightarrow> now > target)"

definition matches_event_type :: "event_type option \<Rightarrow> event_type \<Rightarrow> bool" where
  "matches_event_type want et = (want = None \<or> want = Some et)"

fun evaluate_time_rule :: "trigger_rule \<Rightarrow> datetime \<Rightarrow> trigger_decision option" where
  "evaluate_time_rule (TimeTrigger i rel target tol rep) now =
     (if time_matches rel target tol now
      then Some \<lparr>td_trigger_id = i, td_relation = rel, td_event_type = None, td_sequence = None,
                 td_target_time = Some target\<rparr>
      else None)"
| "evaluate_time_rule (MessageTrigger i rel et rep) now = None"

fun evaluate_record_rule :: "trigger_rule \<Rightarrow> audit_record \<Rightarrow> trigger_decision option" where
  "evaluate_record_rule (MessageTrigger i rel want rep) r =
     (if rel = TR_BEFORE \<or> \<not> matches_event_type want (rec_event_type r) then None
      else Some \<lparr>td_trigger_id = i, td_relation = rel, td_event_type = Some (rec_event_type r),
                 td_sequence = Some (rec_sequence r), td_target_time = None\<rparr>)"
| "evaluate_record_rule (TimeTrigger i rel target tol rep) r = None"

fun evaluate_before_rule :: "trigger_rule \<Rightarrow> event_type \<Rightarrow> int \<Rightarrow> trigger_decision option" where
  "evaluate_before_rule (MessageTrigger i rel want rep) et matched_sequence =
     (if rel \<noteq> TR_BEFORE \<or> \<not> matches_event_type want et then None
      else Some \<lparr>td_trigger_id = i, td_relation = rel, td_event_type = Some et,
                 td_sequence = Some matched_sequence, td_target_time = None\<rparr>)"
| "evaluate_before_rule (TimeTrigger i rel target tol rep) et matched_sequence = None"

definition record_fired_key :: "trigger_rule \<Rightarrow> audit_record \<Rightarrow> string" where
  "record_fired_key rule r =
     (if rule_repeatable rule
      then rule_id rule @ '':'' @ int_to_str (rec_sequence r) @ '':'' @ rec_hash r
      else rule_id rule)"

definition before_fired_key :: "trigger_rule \<Rightarrow> int \<Rightarrow> string" where
  "before_fired_key rule n =
     (if rule_repeatable rule then rule_id rule @ '':before:'' @ int_to_str n else rule_id rule)"

definition time_fired_key :: "trigger_rule \<Rightarrow> datetime \<Rightarrow> string" where
  "time_fired_key rule now =
     (if rule_repeatable rule then rule_id rule @ '':time:'' @ isoformat now else rule_id rule)"

subsection \<open>The engine\<close>

definition seed_rule :: "trigger_rule \<Rightarrow> trigger_engine \<Rightarrow> trigger_engine" where
  "seed_rule rule te =
     (if \<not> rule_repeatable rule \<and> rule_id rule \<in> te_seeded te
      then te\<lparr>te_fired := insert (rule_id rule) (te_fired te)\<rparr> else te)"

definition register_trigger :: "trigger_rule \<Rightarrow> trigger_engine \<Rightarrow> trigger_engine res" where
  "register_trigger rule te =
     (if rule_id rule \<in> set (map rule_id (te_rules te))
      then Inl (value_error (''trigger_id is already registered: '' @ rule_id rule))
      else Inr (seed_rule rule (te\<lparr>te_rules := te_rules te @ [rule]\<rparr>)))"

definition payload_trigger_id :: "json \<Rightarrow> string option" where
  "payload_trigger_id p =
     (case p of JObj kvs \<Rightarrow>
        (case dict_get kvs ''trigger_id'' of
           Some (JStr s) \<Rightarrow> if s = [] then None else Some s | _ \<Rightarrow> None)
      | _ \<Rightarrow> None)"

definition seed_fired_from_records :: "audit_record list \<Rightarrow> trigger_engine \<Rightarrow> trigger_engine" where
  "seed_fired_from_records rs te =
     (let te' = fold (\<lambda>r te.
             if rec_event_type r \<noteq> ET_TRIGGER_FIRED then te
             else case payload_trigger_id (rec_payload r) of
                    None \<Rightarrow> te | Some i \<Rightarrow> te\<lparr>te_seeded := insert i (te_seeded te)\<rparr>) rs te
      in fold seed_rule (te_rules te') te')"

text \<open>
  The loop the three evaluations share: a rule that has a decision and whose key has not fired
  adds the key and the decision.
\<close>

fun fire_rules ::
  "(trigger_rule \<Rightarrow> (trigger_decision \<times> string) option) \<Rightarrow> trigger_rule list \<Rightarrow> string set \<Rightarrow>
   trigger_decision list \<times> string set" where
  "fire_rules f [] fired = ([], fired)"
| "fire_rules f (rule # rules) fired =
     (case f rule of
        None \<Rightarrow> fire_rules f rules fired
      | Some (d, key) \<Rightarrow>
          if key \<in> fired then fire_rules f rules fired
          else case fire_rules f rules (insert key fired) of (ds, fired') \<Rightarrow> (d # ds, fired'))"

definition run_rules ::
  "(trigger_rule \<Rightarrow> (trigger_decision \<times> string) option) \<Rightarrow> trigger_engine \<Rightarrow>
   trigger_decision list \<times> trigger_engine" where
  "run_rules f te =
     (case fire_rules f (te_rules te) (te_fired te) of (ds, fired) \<Rightarrow> (ds, te\<lparr>te_fired := fired\<rparr>))"

definition record_candidate ::
  "audit_record \<Rightarrow> trigger_rule \<Rightarrow> (trigger_decision \<times> string) option" where
  "record_candidate r rule =
     map_option (\<lambda>d. (d, record_fired_key rule r)) (evaluate_record_rule rule r)"

definition evaluate_record ::
  "audit_record \<Rightarrow> trigger_engine \<Rightarrow> trigger_decision list \<times> trigger_engine" where
  "evaluate_record r te = run_rules (record_candidate r) te"

definition before_matches :: "event_type \<Rightarrow> trigger_rule \<Rightarrow> bool" where
  "before_matches et rule =
     (case rule of MessageTrigger i rel want rep \<Rightarrow> rel = TR_BEFORE \<and> matches_event_type want et
                 | TimeTrigger _ _ _ _ _ \<Rightarrow> False)"

definition before_candidate ::
  "event_type \<Rightarrow> int \<Rightarrow> trigger_rule \<Rightarrow> (trigger_decision \<times> string) option" where
  "before_candidate et n rule =
     map_option (\<lambda>d. (d, before_fired_key rule n)) (evaluate_before_rule rule et n)"

definition evaluate_before_append ::
  "event_type \<Rightarrow> int \<Rightarrow> trigger_engine \<Rightarrow> trigger_decision list \<times> trigger_engine" where
  "evaluate_before_append et next te =
     (let matched_rules = filter (before_matches et) (te_rules te);
          matched_sequence = next + int (length matched_rules)
      in case fire_rules (before_candidate et matched_sequence) matched_rules (te_fired te) of
           (ds, fired) \<Rightarrow> (ds, te\<lparr>te_fired := fired\<rparr>))"

definition time_candidate ::
  "datetime \<Rightarrow> trigger_rule \<Rightarrow> (trigger_decision \<times> string) option" where
  "time_candidate now rule =
     map_option (\<lambda>d. (d, time_fired_key rule now)) (evaluate_time_rule rule now)"

definition evaluate_time_triggers ::
  "datetime \<Rightarrow> trigger_engine \<Rightarrow> trigger_decision list \<times> trigger_engine" where
  "evaluate_time_triggers now te = run_rules (time_candidate now) te"

subsection \<open>Firing once\<close>

lemma fire_rules_fired_mono: "fire_rules f rules fired = (ds, fired') \<Longrightarrow> fired \<subseteq> fired'"
  by (induction f rules fired arbitrary: ds fired' rule: fire_rules.induct)
    (fastforce split: option.splits prod.splits if_splits)+

lemma fire_rules_decision:
  "fire_rules f rules fired = (ds, fired') \<Longrightarrow> d \<in> set ds \<Longrightarrow>
   \<exists>rule key. rule \<in> set rules \<and> f rule = Some (d, key) \<and> key \<notin> fired \<and> key \<in> fired'"
proof (induction rules arbitrary: fired ds fired')
  case Nil
  then show ?case by simp
next
  case (Cons rule rules)
  show ?case
  proof (cases "\<exists>d' key. f rule = Some (d', key) \<and> key \<notin> fired")
    case False
    with Cons.prems(1) have "fire_rules f rules fired = (ds, fired')"
      by (auto split: option.splits prod.splits if_splits)
    with Cons.IH Cons.prems(2) show ?thesis by (metis list.set_intros(2))
  next
    case True
    then obtain d' key where f: "f rule = Some (d', key)" and new: "key \<notin> fired" by auto
    obtain ds' where rest: "fire_rules f rules (insert key fired) = (ds', fired')" and ds: "ds = d' # ds'"
      using Cons.prems(1) f new by (auto split: prod.splits)
    show ?thesis
    proof (cases "d = d'")
      case True
      with f new fire_rules_fired_mono [OF rest] show ?thesis by auto
    next
      case False
      with ds Cons.prems(2) have "d \<in> set ds'" by simp
      from Cons.IH [OF rest this] show ?thesis by auto
    qed
  qed
qed

text \<open>
  A candidate function is faithful when its decisions carry the id of their rule and the key of a
  rule that is not repeatable is that id; the three evaluations are.
\<close>

definition faithful_candidate :: "(trigger_rule \<Rightarrow> (trigger_decision \<times> string) option) \<Rightarrow> bool" where
  "faithful_candidate f \<longleftrightarrow>
     (\<forall>rule d key. f rule = Some (d, key) \<longrightarrow>
        td_trigger_id d = rule_id rule \<and> (\<not> rule_repeatable rule \<longrightarrow> key = rule_id rule))"

lemma faithful_candidates [intro, simp]:
  "faithful_candidate (record_candidate r)"
  "faithful_candidate (before_candidate et n)"
  "faithful_candidate (time_candidate now)"
proof -
  have "evaluate_record_rule rule r = Some d \<Longrightarrow> td_trigger_id d = rule_id rule" for rule d
    by (cases rule) (auto split: if_splits)
  then show "faithful_candidate (record_candidate r)"
    by (auto simp: faithful_candidate_def record_candidate_def record_fired_key_def)
  have "evaluate_before_rule rule et n = Some d \<Longrightarrow> td_trigger_id d = rule_id rule" for rule d
    by (cases rule) (auto split: if_splits)
  then show "faithful_candidate (before_candidate et n)"
    by (auto simp: faithful_candidate_def before_candidate_def before_fired_key_def)
  have "evaluate_time_rule rule now = Some d \<Longrightarrow> td_trigger_id d = rule_id rule" for rule d
    by (cases rule) (auto split: if_splits)
  then show "faithful_candidate (time_candidate now)"
    by (auto simp: faithful_candidate_def time_candidate_def time_fired_key_def)
qed

abbreviation firings :: "string \<Rightarrow> trigger_decision list \<Rightarrow> nat" where
  "firings i ds \<equiv> length (filter (\<lambda>d. td_trigger_id d = i) ds)"

text \<open>One evaluation: a rule that is not repeatable fires at most once, and not if it has fired.\<close>

lemma fire_rules_once:
  assumes "faithful_candidate f" and "distinct (map rule_id rules)"
    and "\<And>rule. rule \<in> set rules \<Longrightarrow> rule_id rule = i \<Longrightarrow> \<not> rule_repeatable rule"
    and "fire_rules f rules fired = (ds, fired')"
  shows "firings i ds \<le> (if i \<in> fired then 0 else 1) \<and> (0 < firings i ds \<longrightarrow> i \<in> fired')"
  using assms(2-4)
proof (induction rules arbitrary: fired ds fired')
  case Nil
  then show ?case by simp
next
  case (Cons rule rules)
  show ?case
  proof (cases "\<exists>d key. f rule = Some (d, key) \<and> key \<notin> fired")
    case False
    with Cons.prems(3) have "fire_rules f rules fired = (ds, fired')"
      by (auto split: option.splits prod.splits if_splits)
    with Cons.IH [of fired ds fired'] Cons.prems(1,2) show ?thesis by auto
  next
    case True
    then obtain d key where f: "f rule = Some (d, key)" and new: "key \<notin> fired" by auto
    obtain ds' where rest: "fire_rules f rules (insert key fired) = (ds', fired')" and ds: "ds = d # ds'"
      using Cons.prems(3) f new by (auto split: prod.splits)
    have IH: "firings i ds' \<le> (if i \<in> insert key fired then 0 else 1) \<and> (0 < firings i ds' \<longrightarrow> i \<in> fired')"
      using Cons.IH [OF _ _ rest] Cons.prems(1,2) by auto
    have id: "td_trigger_id d = rule_id rule" using assms(1) f by (auto simp: faithful_candidate_def)
    show ?thesis
    proof (cases "rule_id rule = i")
      case True
      have "key = i"
        using Cons.prems(2) [of rule] assms(1) f True by (simp add: faithful_candidate_def)
      moreover from this have "firings i ds' = 0" using IH by simp
      moreover have "i \<in> fired'" using fire_rules_fired_mono [OF rest] \<open>key = i\<close> by blast
      ultimately show ?thesis using ds id new True by simp
    next
      case False
      then have "firings i ds = firings i ds'" using ds id by simp
      with IH show ?thesis by (cases "i \<in> fired"; cases "i = key") simp_all
    qed
  qed
qed

text \<open>The calls the audit core makes, and a run of them.\<close>

datatype trigger_call = OnRecord audit_record | OnBefore event_type int | OnTime datetime

fun call_trigger :: "trigger_call \<Rightarrow> trigger_engine \<Rightarrow> trigger_decision list \<times> trigger_engine" where
  "call_trigger (OnRecord r) te = evaluate_record r te"
| "call_trigger (OnBefore et n) te = evaluate_before_append et n te"
| "call_trigger (OnTime now) te = evaluate_time_triggers now te"

fun trigger_run :: "trigger_call list \<Rightarrow> trigger_engine \<Rightarrow> trigger_decision list \<times> trigger_engine" where
  "trigger_run [] te = ([], te)"
| "trigger_run (c # cs) te =
     (case call_trigger c te of (ds, te') \<Rightarrow> case trigger_run cs te' of (ds', te'') \<Rightarrow> (ds @ ds', te''))"

lemma trigger_call_rules: "call_trigger c te = (ds, te') \<Longrightarrow> te_rules te' = te_rules te"
  by (cases c)
    (auto simp: evaluate_record_def evaluate_before_append_def evaluate_time_triggers_def run_rules_def
      Let_def split: prod.splits)

lemma trigger_call_fires:
  "call_trigger c te = (ds, te') \<Longrightarrow>
   \<exists>f rules. faithful_candidate f \<and> fire_rules f rules (te_fired te) = (ds, te_fired te') \<and>
     (\<exists>P. rules = filter P (te_rules te))"
proof (cases c)
  case (OnRecord r)
  then show "call_trigger c te = (ds, te') \<Longrightarrow> ?thesis"
    by (intro exI [of _ "record_candidate r"] exI [of _ "te_rules te"])
      (auto simp: evaluate_record_def run_rules_def split: prod.splits intro!: exI [of _ "\<lambda>_. True"])
next
  case (OnBefore et n)
  then show "call_trigger c te = (ds, te') \<Longrightarrow> ?thesis"
    by (intro exI [of _ "before_candidate et (n + int (length (filter (before_matches et) (te_rules te))))"]
        exI [of _ "filter (before_matches et) (te_rules te)"])
      (auto simp: evaluate_before_append_def Let_def split: prod.splits)
next
  case (OnTime now)
  then show "call_trigger c te = (ds, te') \<Longrightarrow> ?thesis"
    by (intro exI [of _ "time_candidate now"] exI [of _ "te_rules te"])
      (auto simp: evaluate_time_triggers_def run_rules_def split: prod.splits intro!: exI [of _ "\<lambda>_. True"])
qed

lemma trigger_call_once:
  assumes "distinct (map rule_id (te_rules te))"
    and "rule \<in> set (te_rules te)" and "\<not> rule_repeatable rule"
    and "call_trigger c te = (ds, te')"
  shows "firings (rule_id rule) ds \<le> (if rule_id rule \<in> te_fired te then 0 else 1)"
    and "0 < firings (rule_id rule) ds \<or> rule_id rule \<in> te_fired te \<Longrightarrow> rule_id rule \<in> te_fired te'"
proof -
  from trigger_call_fires [OF assms(4)] obtain f P where
    f: "faithful_candidate f" and run: "fire_rules f (filter P (te_rules te)) (te_fired te) = (ds, te_fired te')"
    by auto
  have "distinct (map rule_id (filter P (te_rules te)))"
    using assms(1) by (rule distinct_map_filter)
  moreover have "\<not> rule_repeatable r" if "r \<in> set (filter P (te_rules te))" "rule_id r = rule_id rule" for r
    using that assms(1-3) by (auto simp: distinct_map inj_on_def)
  ultimately have "firings (rule_id rule) ds \<le> (if rule_id rule \<in> te_fired te then 0 else 1) \<and>
      (0 < firings (rule_id rule) ds \<longrightarrow> rule_id rule \<in> te_fired te')"
    by (intro fire_rules_once [OF f _ _ run])
  then show "firings (rule_id rule) ds \<le> (if rule_id rule \<in> te_fired te then 0 else 1)"
    and "0 < firings (rule_id rule) ds \<or> rule_id rule \<in> te_fired te \<Longrightarrow> rule_id rule \<in> te_fired te'"
    using fire_rules_fired_mono [OF run] by auto
qed

text \<open>
  Over any run, a rule that is not repeatable fires at most once, and never if it has fired.
\<close>

theorem trigger_fires_once:
  assumes "distinct (map rule_id (te_rules te))"
    and "rule \<in> set (te_rules te)" and "\<not> rule_repeatable rule"
  shows "firings (rule_id rule) (fst (trigger_run cs te)) \<le> (if rule_id rule \<in> te_fired te then 0 else 1)"
  using assms
proof (induction cs arbitrary: te)
  case Nil
  then show ?case by simp
next
  case (Cons c cs)
  obtain ds te' where c: "call_trigger c te = (ds, te')" by force
  have IH: "firings (rule_id rule) (fst (trigger_run cs te'))
      \<le> (if rule_id rule \<in> te_fired te' then 0 else 1)"
    using Cons.IH [of te'] Cons.prems trigger_call_rules [OF c] by simp
  have run: "firings (rule_id rule) (fst (trigger_run (c # cs) te)) =
      firings (rule_id rule) ds + firings (rule_id rule) (fst (trigger_run cs te'))"
    using c by (simp split: prod.splits)
  show ?case
  proof (cases "0 < firings (rule_id rule) ds \<or> rule_id rule \<in> te_fired te")
    case True
    then have "rule_id rule \<in> te_fired te'" by (rule trigger_call_once(2) [OF Cons.prems c])
    with IH run trigger_call_once(1) [OF Cons.prems c] show ?thesis by simp
  next
    case False
    with IH run show ?thesis by (simp split: if_splits)
  qed
qed

theorem trigger_fires_once_witness:
  "firings ''t'' (fst (trigger_run [OnTime 5, OnTime 6]
      \<lparr>te_rules = [TimeTrigger ''t'' TR_AFTER 1 1 False], te_fired = {}, te_seeded = {}\<rparr>)) \<le> 1"
  using trigger_fires_once [of
      "\<lparr>te_rules = [TimeTrigger ''t'' TR_AFTER 1 1 False], te_fired = {}, te_seeded = {}\<rparr>"
      "TimeTrigger ''t'' TR_AFTER 1 1 False" "[OnTime 5, OnTime 6]"]
  by simp

text \<open>Seeding from a replayed ledger marks every rule that is not repeatable and has fired there.\<close>

lemma seed_rules_fired:
  "te_fired (fold seed_rule rules te) =
     te_fired te \<union> {rule_id r |r. r \<in> set rules \<and> \<not> rule_repeatable r \<and> rule_id r \<in> te_seeded te}"
  by (induction rules arbitrary: te) (auto simp: seed_rule_def)

lemma seed_rules_frame [simp]:
  "te_rules (fold seed_rule rules te) = te_rules te"
  "te_seeded (fold seed_rule rules te) = te_seeded te"
  by (induction rules arbitrary: te) (simp_all add: seed_rule_def)

lemma seed_records_seeded:
  "te_seeded (fold (\<lambda>r te. if rec_event_type r \<noteq> ET_TRIGGER_FIRED then te
        else case payload_trigger_id (rec_payload r) of
               None \<Rightarrow> te | Some i \<Rightarrow> te\<lparr>te_seeded := insert i (te_seeded te)\<rparr>) rs te) =
     te_seeded te \<union> {i. \<exists>r \<in> set rs. rec_event_type r = ET_TRIGGER_FIRED \<and>
                              payload_trigger_id (rec_payload r) = Some i}"
  by (induction rs arbitrary: te) (auto split: option.splits)

lemma seed_records_frame [simp]:
  "te_rules (fold (\<lambda>r te. if rec_event_type r \<noteq> ET_TRIGGER_FIRED then te
        else case payload_trigger_id (rec_payload r) of
               None \<Rightarrow> te | Some i \<Rightarrow> te\<lparr>te_seeded := insert i (te_seeded te)\<rparr>) rs te) = te_rules te"
  by (induction rs arbitrary: te) (auto split: option.splits)

lemma seed_fired_from_records_frame [simp]:
  "te_rules (seed_fired_from_records rs te) = te_rules te"
  by (simp add: seed_fired_from_records_def Let_def)

lemma seeded_rule_fired:
  assumes "r \<in> set rs" and "rec_event_type r = ET_TRIGGER_FIRED"
    and "payload_trigger_id (rec_payload r) = Some (rule_id rule)"
    and "rule \<in> set (te_rules te)" and "\<not> rule_repeatable rule"
  shows "rule_id rule \<in> te_fired (seed_fired_from_records rs te)"
  using assms by (auto simp: seed_fired_from_records_def Let_def seed_rules_fired seed_records_seeded)

text \<open>
  C12. Restart safety: after a restart the engine is seeded from the ledger, so a trigger that is not
  repeatable and whose firing the ledger records fires in no later run.
\<close>

theorem seeded_trigger_never_refires:
  assumes "r \<in> set rs" and "rec_event_type r = ET_TRIGGER_FIRED"
    and "payload_trigger_id (rec_payload r) = Some (rule_id rule)"
    and "rule \<in> set (te_rules te)" and "\<not> rule_repeatable rule"
    and "distinct (map rule_id (te_rules te))"
  shows "firings (rule_id rule) (fst (trigger_run cs (seed_fired_from_records rs te))) = 0"
  using trigger_fires_once [of "seed_fired_from_records rs te" rule cs] seeded_rule_fired [OF assms(1-5)]
    assms(4-6)
  by simp

theorem seeded_trigger_never_refires_witness:
  "firings ''t'' (fst (trigger_run [OnTime 5]
      (seed_fired_from_records
         [\<lparr>rec_sequence = 1, rec_id = ''r'', rec_occurred_at = 0, rec_event_type = ET_TRIGGER_FIRED,
           rec_payload = JObj [(''trigger_id'', JStr ''t'')], rec_previous_hash = [],
           rec_payload_hash = [], rec_hash = [], rec_schema_version = 1\<rparr>]
         \<lparr>te_rules = [TimeTrigger ''t'' TR_AFTER 1 1 False], te_fired = {}, te_seeded = {}\<rparr>))) = 0"
  using seeded_trigger_never_refires [where rule = "TimeTrigger ''t'' TR_AFTER 1 1 False"
      and te = "\<lparr>te_rules = [TimeTrigger ''t'' TR_AFTER 1 1 False], te_fired = {}, te_seeded = {}\<rparr>"
      and cs = "[OnTime 5]", OF list.set_intros(1)]
  by (simp add: payload_trigger_id_def)

end
