(* ===== verification/Programs.thy ===== *)
theory Programs
  imports Json
begin

text \<open>
  Stateful code that may raise: a program takes the state and returns a result or an exception
  together with the state reached, so that what was written before an exception stays written.
\<close>

type_synonym ('s, 'a) prog = "'s \<Rightarrow> 'a res \<times> 's"

definition prog_return :: "'a \<Rightarrow> ('s, 'a) prog" where
  "prog_return x s = (Inr x, s)"

definition prog_raise :: "pyexc \<Rightarrow> ('s, 'a) prog" where
  "prog_raise e s = (Inl e, s)"

definition prog_bind :: "('s, 'a) prog \<Rightarrow> ('a \<Rightarrow> ('s, 'b) prog) \<Rightarrow> ('s, 'b) prog" where
  "prog_bind m f s = (case m s of (Inl e, t) \<Rightarrow> (Inl e, t) | (Inr x, t) \<Rightarrow> f x t)"

text \<open>A pure step that may raise.\<close>

definition prog_lift :: "'a res \<Rightarrow> ('s, 'a) prog" where
  "prog_lift r s = (r, s)"

text \<open>\<^verbatim>\<open>try: m except Exception as exc: h(exc)\<close>\<close>

definition prog_try :: "('s, 'a) prog \<Rightarrow> (pyexc \<Rightarrow> ('s, 'a) prog) \<Rightarrow> ('s, 'a) prog" where
  "prog_try m h s = (case m s of (Inl e, t) \<Rightarrow> h e t | (Inr x, t) \<Rightarrow> (Inr x, t))"

text \<open>\<^verbatim>\<open>for x in xs: f(x)\<close>, collecting the results\<close>

fun prog_each :: "('x \<Rightarrow> ('s, 'a) prog) \<Rightarrow> 'x list \<Rightarrow> ('s, 'a list) prog" where
  "prog_each f [] = prog_return []"
| "prog_each f (x # xs) =
     prog_bind (f x) (\<lambda>y. prog_bind (prog_each f xs) (\<lambda>ys. prog_return (y # ys)))"

named_theorems prog_simps \<open>running programs\<close>

lemma prog_run [prog_simps]:
  "prog_return x s = (Inr x, s)"
  "prog_raise e s = (Inl e, s)"
  "prog_lift r s = (r, s)"
  "m s = (Inr x, t) \<Longrightarrow> prog_bind m f s = f x t"
  "m s = (Inl e, t) \<Longrightarrow> prog_bind m f s = (Inl e, t)"
  by (simp_all add: prog_return_def prog_raise_def prog_lift_def prog_bind_def)

lemma prog_bind_Inr:
  "prog_bind m f s = (Inr y, u) \<longleftrightarrow> (\<exists>x t. m s = (Inr x, t) \<and> f x t = (Inr y, u))"
  by (auto simp: prog_bind_def split: prod.splits sum.splits)

lemma prog_bind_cases:
  assumes "prog_bind m f s = (r, u)"
  obtains e where "m s = (Inl e, u)" and "r = Inl e"
  | x t where "m s = (Inr x, t)" and "f x t = (r, u)"
  using assms by (auto simp: prog_bind_def split: prod.splits sum.splits)

lemma prog_bind_run:
  "prog_bind m f s = (case m s of (Inl e, t) \<Rightarrow> (Inl e, t) | (Inr x, t) \<Rightarrow> f x t)"
  by (simp add: prog_bind_def)

lemma prog_each_Cons:
  "prog_each f (x # xs) s =
     (case f x s of (Inl e, t) \<Rightarrow> (Inl e, t)
      | (Inr y, t) \<Rightarrow> (case prog_each f xs t of (Inl e, u) \<Rightarrow> (Inl e, u)
                       | (Inr ys, u) \<Rightarrow> (Inr (y # ys), u)))"
  by (auto simp: prog_bind_run prog_return_def split: prod.splits sum.splits)

text \<open>What every step keeps, the loop keeps, whether it ends or raises.\<close>

lemma prog_each_invariant:
  assumes "\<And>x s r t. x \<in> set xs \<Longrightarrow> f x s = (r, t) \<Longrightarrow> P s \<Longrightarrow> P t"
    and "prog_each f xs s = (r, t)" and "P s"
  shows "P t"
  using assms
proof (induction xs arbitrary: s r)
  case Nil
  then show ?case by (simp add: prog_run)
next
  case (Cons x xs)
  from Cons.prems(2) show ?case
  proof (simp, elim prog_bind_cases)
    fix e assume "f x s = (Inl e, t)"
    with Cons.prems show ?case by auto
  next
    fix y u e assume y: "f x s = (Inr y, u)" and "prog_each f xs u = (Inl e, t)"
    moreover from y Cons.prems have "P u" by (meson list.set_intros(1))
    ultimately show ?case using Cons.IH Cons.prems(1) by (meson list.set_intros(2))
  next
    fix y u ys v assume y: "f x s = (Inr y, u)" and ys: "prog_each f xs u = (Inr ys, v)"
      and "prog_return (y # ys) v = (r, t)"
    then have "v = t" by (simp add: prog_run)
    from y Cons.prems have "P u" by (meson list.set_intros(1))
    with ys \<open>v = t\<close> show ?case using Cons.IH Cons.prems(1) by (meson list.set_intros(2))
  qed
qed

end
