(* ===== verification/Engine.thy ===== *)
theory Engine
  imports Hooks Triggers Programs
begin

text \<open>
  \<^verbatim>\<open>core/engine.py\<close>: the audit core. One emission runs the hooks before the append, fires the
  triggers that wait for the event, appends the record, runs the hooks after it, fires the
  triggers the record matches and appends an \<^verbatim>\<open>error\<close> record for every hook that raised. The
  environment supplies the digest, the clock readings and the record ids.
\<close>

record env =
  env_digest :: digest
  env_clock :: "nat \<Rightarrow> datetime"
  env_reads :: nat
  env_uuid :: "nat \<Rightarrow> string"
  env_uuids :: nat

record core =
  core_ledger :: ledger
  core_hooks :: hook_registry
  core_triggers :: "trigger_engine option"
  core_logging_failure :: bool
  core_env :: env

abbreviation core_records :: "core \<Rightarrow> audit_record list" where
  "core_records c \<equiv> led_records (core_ledger c)"

abbreviation core_digest :: "core \<Rightarrow> digest" where
  "core_digest c \<equiv> env_digest (core_env c)"

definition peek_clock :: "core \<Rightarrow> datetime" where
  "peek_clock c = env_clock (core_env c) (env_reads (core_env c))"

definition tick :: "core \<Rightarrow> core" where
  "tick c = c\<lparr>core_env := (core_env c)\<lparr>env_reads := Suc (env_reads (core_env c))\<rparr>\<rparr>"

definition core_now :: "(core, datetime) prog" where
  "core_now c = (Inr (peek_clock c), tick c)"

definition init_core ::
  "ledger \<Rightarrow> hook_registry \<Rightarrow> trigger_engine option \<Rightarrow> env \<Rightarrow> core res" where
  "init_core led hooks triggers env =
     (case triggers of
        None \<Rightarrow> Inr \<lparr>core_ledger = led, core_hooks = hooks, core_triggers = None,
                      core_logging_failure = False, core_env = env\<rparr>
      | Some te \<Rightarrow> res_bind (iter_records (env_digest env) led)
          (\<lambda>rs. Inr \<lparr>core_ledger = led, core_hooks = hooks,
                      core_triggers = Some (seed_fired_from_records rs te),
                      core_logging_failure = False, core_env = env\<rparr>))"

text \<open>\<^verbatim>\<open>_immutable_payload\<close>: the payload the hooks see; freezing does not change the value.\<close>

definition immutable_payload :: "pyval \<Rightarrow> json res" where
  "immutable_payload p =
     res_bind (normalize_json p)
       (\<lambda>j. case j of JObj kvs \<Rightarrow> Inr j | _ \<Rightarrow> Inl (type_error ''payload must normalize to a JSON object''))"

definition core_append :: "event_type \<Rightarrow> pyval \<Rightarrow> (core, audit_record) prog" where
  "core_append et p c =
     (case ledger_append (core_digest c) et p (peek_clock c) (env_uuid (core_env c) (env_uuids (core_env c)))
             (core_ledger c) of
        (Inl e, led) \<Rightarrow> (Inl e, c)
      | (Inr r, led) \<Rightarrow>
          (Inr r, (tick c)\<lparr>core_ledger := led,
                           core_env := (core_env (tick c))\<lparr>env_uuids := Suc (env_uuids (core_env c))\<rparr>\<rparr>))"

text \<open>\<^verbatim>\<open>_emit(..., run_extensions=False)\<close>\<close>

definition emit_plain :: "event_type \<Rightarrow> pyval \<Rightarrow> (core, audit_record) prog" where
  "emit_plain et p = prog_bind (prog_lift (immutable_payload p)) (\<lambda>_. core_append et p)"

definition emit_decisions :: "trigger_decision list \<Rightarrow> (core, audit_record list) prog" where
  "emit_decisions = prog_each (\<lambda>d. emit_plain ET_TRIGGER_FIRED (PvJson (JObj (decision_payload d))))"

definition emit_before_trigger_records :: "event_type \<Rightarrow> (core, audit_record list) prog" where
  "emit_before_trigger_records et c =
     (case core_triggers c of
        None \<Rightarrow> (Inr [], c)
      | Some te \<Rightarrow>
          (case ledger_verify (core_digest c) (core_ledger c) of
             Inl e \<Rightarrow> (Inl e, c)
           | Inr st \<Rightarrow>
               (case evaluate_before_append et (next_sequence st) te of (ds, te') \<Rightarrow>
                  emit_decisions ds (c\<lparr>core_triggers := Some te'\<rparr>))))"

definition emit_trigger_records :: "audit_record \<Rightarrow> (core, audit_record list) prog" where
  "emit_trigger_records r c =
     (case core_triggers c of
        None \<Rightarrow> (Inr [], c)
      | Some te \<Rightarrow>
          (case evaluate_record r te of (ds, te') \<Rightarrow>
             emit_decisions ds ((tick c)\<lparr>core_triggers := Some te'\<rparr>)))"

definition emit_hook_failures :: "hook_failure list \<Rightarrow> (core, audit_record list) prog" where
  "emit_hook_failures fs c =
     (if fs = [] \<or> core_logging_failure c then (Inr [], c)
      else
        case prog_each (\<lambda>f. prog_bind (prog_lift (hook_failure_payload f))
                               (\<lambda>p. emit_plain ET_ERROR (PvJson (JObj p)))) fs
               (c\<lparr>core_logging_failure := True\<rparr>) of
          (r, c') \<Rightarrow> (r, c'\<lparr>core_logging_failure := False\<rparr>))"

text \<open>\<^verbatim>\<open>AuditCore.emit\<close>\<close>

definition core_emit :: "event_type \<Rightarrow> pyval \<Rightarrow> (core, audit_record) prog" where
  "core_emit et p =
     prog_bind (prog_lift (immutable_payload p)) (\<lambda>hook_payload.
     prog_bind (\<lambda>c. (Inr (run_hooks (core_hooks c) HP_BEFORE_APPEND
                       \<lparr>ctx_point = HP_BEFORE_APPEND, ctx_event_type = et, ctx_payload = hook_payload,
                        ctx_record = None\<rparr>), c)) (\<lambda>before_failures.
     prog_bind (emit_before_trigger_records et) (\<lambda>_.
     prog_bind (core_append et p) (\<lambda>r.
     prog_bind (\<lambda>c. (Inr (run_hooks (core_hooks c) HP_AFTER_APPEND
                       \<lparr>ctx_point = HP_AFTER_APPEND, ctx_event_type = et,
                        ctx_payload = (case rec_payload r of JObj kvs \<Rightarrow> rec_payload r | _ \<Rightarrow> JObj []),
                        ctx_record = Some r\<rparr>), c)) (\<lambda>after_failures.
     prog_bind (emit_trigger_records r) (\<lambda>_.
     prog_bind (emit_hook_failures (before_failures @ after_failures)) (\<lambda>_.
     prog_return r)))))))"

definition emit_due_time_triggers :: "(core, audit_record list) prog" where
  "emit_due_time_triggers c =
     (case core_triggers c of
        None \<Rightarrow> (Inr [], c)
      | Some te \<Rightarrow>
          (case evaluate_time_triggers (peek_clock c) te of (ds, te') \<Rightarrow>
             emit_decisions ds ((tick c)\<lparr>core_triggers := Some te'\<rparr>)))"

subsection \<open>What an emission keeps and adds\<close>

definition core_ok :: "core \<Rightarrow> bool" where
  "core_ok c \<longleftrightarrow> ledger_ok (core_digest c) (core_ledger c) \<and>
     (\<forall>p. \<forall>h \<in> set (core_hooks c p). hook_speaks h) \<and> \<not> core_logging_failure c"

text \<open>
  \<open>core_steps c c' new\<close>: the ledger was verified and extended by the records \<open>new\<close>; hooks and
  digest are the same.
\<close>

definition core_steps :: "core \<Rightarrow> core \<Rightarrow> audit_record list \<Rightarrow> bool" where
  "core_steps c c' new \<longleftrightarrow> core_records c' = core_records c @ new \<and>
     core_digest c' = core_digest c \<and> core_hooks c' = core_hooks c \<and>
     (ledger_ok (core_digest c) (core_ledger c) \<longrightarrow> ledger_ok (core_digest c) (core_ledger c'))"

lemma core_steps_refl [simp]: "core_steps c c []"
  by (simp add: core_steps_def)

lemma core_steps_trans [trans]:
  "core_steps c c' xs \<Longrightarrow> core_steps c' c'' ys \<Longrightarrow> core_steps c c'' (xs @ ys)"
  by (simp add: core_steps_def)

lemma core_steps_frame [simp]:
  "core_steps (tick c) c' xs = core_steps c c' xs"
  "core_steps (c\<lparr>core_triggers := t\<rparr>) c' xs = core_steps c c' xs"
  "core_steps (c\<lparr>core_logging_failure := b\<rparr>) c' xs = core_steps c c' xs"
  "core_steps c (tick c') xs = core_steps c c' xs"
  "core_steps c (c'\<lparr>core_triggers := t\<rparr>) xs = core_steps c c' xs"
  "core_steps c (c'\<lparr>core_logging_failure := b\<rparr>) xs = core_steps c c' xs"
  by (simp_all add: core_steps_def tick_def)

lemma tick_frame [simp]:
  "core_ledger (tick c) = core_ledger c" "core_digest (tick c) = core_digest c"
  "core_hooks (tick c) = core_hooks c" "core_triggers (tick c) = core_triggers c"
  "core_logging_failure (tick c) = core_logging_failure c"
  by (simp_all add: tick_def)

lemma core_append_error: "core_append et p c = (Inl e, c') \<Longrightarrow> c' = c"
  by (auto simp: core_append_def split: prod.splits sum.splits)

lemma core_append_Inr:
  assumes "core_append et p c = (Inr r, c')"
  shows "core_steps c c' [r]" and "core_triggers c' = core_triggers c"
    and "core_logging_failure c' = core_logging_failure c"
proof -
  from assms obtain led where led: "ledger_append (core_digest c) et p (peek_clock c)
      (env_uuid (core_env c) (env_uuids (core_env c))) (core_ledger c) = (Inr r, led)"
    and c': "c' = (tick c)\<lparr>core_ledger := led,
                core_env := (core_env (tick c))\<lparr>env_uuids := Suc (env_uuids (core_env c))\<rparr>\<rparr>"
    by (auto simp: core_append_def split: prod.splits sum.splits)
  from ledger_append_Inr [OF led] show "core_steps c c' [r]"
    by (simp add: c' core_steps_def tick_def)
  show "core_triggers c' = core_triggers c" and "core_logging_failure c' = core_logging_failure c"
    by (simp_all add: c' tick_def)
qed

lemma core_append_ok:
  assumes "ledger_ok (core_digest c) (core_ledger c)" and "normalize_json p = Inr j"
  shows "\<exists>r c'. core_append et p c = (Inr r, c') \<and> rec_event_type r = et \<and> rec_payload r = j \<and>
           rec_sequence r = int (length (core_records c)) + 1"
proof -
  from ledger_append_ok [OF assms, of et "peek_clock c" "env_uuid (core_env c) (env_uuids (core_env c))"]
  show ?thesis by (fastforce simp: core_append_def)
qed

lemma emit_plain_ok:
  assumes "ledger_ok (core_digest c) (core_ledger c)"
  shows "\<exists>r c'. emit_plain et (PvJson (JObj kvs)) c = (Inr r, c') \<and> core_steps c c' [r] \<and>
           core_triggers c' = core_triggers c \<and> core_logging_failure c' = core_logging_failure c \<and>
           rec_event_type r = et \<and> rec_payload r = JObj kvs"
proof -
  have "normalize_json (PvJson (JObj kvs)) = Inr (JObj kvs)" by simp
  from core_append_ok [OF assms this] obtain r c' where
    "core_append et (PvJson (JObj kvs)) c = (Inr r, c')" "rec_event_type r = et" "rec_payload r = JObj kvs"
    by blast
  with core_append_Inr [of et "PvJson (JObj kvs)" c r c'] show ?thesis
    by (auto simp: emit_plain_def immutable_payload_def prog_bind_def prog_lift_def)
qed

lemma core_steps_ok:
  "core_steps c c' new \<Longrightarrow> ledger_ok (core_digest c) (core_ledger c) \<Longrightarrow>
   ledger_ok (core_digest c') (core_ledger c')"
  by (simp add: core_steps_def)

lemma emit_decisions_ok:
  assumes "ledger_ok (core_digest c) (core_ledger c)"
  shows "\<exists>rs c'. emit_decisions ds c = (Inr rs, c') \<and> core_steps c c' rs \<and>
           length rs = length ds \<and> core_triggers c' = core_triggers c \<and>
           core_logging_failure c' = core_logging_failure c \<and>
           list_all (\<lambda>r. rec_event_type r = ET_TRIGGER_FIRED) rs"
  using assms
proof (induction ds arbitrary: c)
  case Nil
  then show ?case by (simp add: emit_decisions_def prog_run)
next
  case (Cons d ds)
  from emit_plain_ok [OF Cons.prems] obtain r c1 where
    r: "emit_plain ET_TRIGGER_FIRED (PvJson (JObj (decision_payload d))) c = (Inr r, c1)"
      "core_steps c c1 [r]" "core_triggers c1 = core_triggers c"
      "core_logging_failure c1 = core_logging_failure c" "rec_event_type r = ET_TRIGGER_FIRED"
    by blast
  from Cons.IH [OF core_steps_ok [OF r(2) Cons.prems]] obtain rs c2 where
    rs: "emit_decisions ds c1 = (Inr rs, c2)" "core_steps c1 c2 rs" "length rs = length ds"
      "core_triggers c2 = core_triggers c1" "core_logging_failure c2 = core_logging_failure c1"
      "list_all (\<lambda>r. rec_event_type r = ET_TRIGGER_FIRED) rs" by blast
  have "emit_decisions (d # ds) c = (Inr (r # rs), c2)"
    using r(1) rs(1) by (simp add: emit_decisions_def prog_bind_def prog_return_def)
  moreover have "core_steps c c2 (r # rs)"
    using core_steps_trans [OF r(2) rs(2)] by simp
  ultimately show ?case using r rs by auto
qed

lemma emit_before_trigger_records_ok:
  assumes "ledger_ok (core_digest c) (core_ledger c)"
  shows "\<exists>rs c'. emit_before_trigger_records et c = (Inr rs, c') \<and> core_steps c c' rs \<and>
           core_logging_failure c' = core_logging_failure c \<and>
           list_all (\<lambda>r. rec_event_type r = ET_TRIGGER_FIRED) rs"
proof (cases "core_triggers c")
  case None
  then show ?thesis by (simp add: emit_before_trigger_records_def)
next
  case (Some te)
  obtain ds te' where ev: "evaluate_before_append et (next_sequence (tip (core_digest c) (core_ledger c))) te
      = (ds, te')" by force
  have "ledger_verify (core_digest c) (core_ledger c) = Inr (tip (core_digest c) (core_ledger c))"
    by (simp add: ledger_verify_def ledger_ok_snapshot assms)
  then have eq: "emit_before_trigger_records et c = emit_decisions ds (c\<lparr>core_triggers := Some te'\<rparr>)"
    using Some ev by (simp add: emit_before_trigger_records_def)
  show ?thesis
    unfolding eq using emit_decisions_ok [of "c\<lparr>core_triggers := Some te'\<rparr>" ds] assms by auto
qed

lemma emit_trigger_records_ok:
  assumes "ledger_ok (core_digest c) (core_ledger c)"
  shows "\<exists>rs c'. emit_trigger_records r c = (Inr rs, c') \<and> core_steps c c' rs \<and>
           core_logging_failure c' = core_logging_failure c \<and>
           list_all (\<lambda>r. rec_event_type r = ET_TRIGGER_FIRED) rs"
proof (cases "core_triggers c")
  case None
  then show ?thesis by (simp add: emit_trigger_records_def)
next
  case (Some te)
  obtain ds te' where ev: "evaluate_record r te = (ds, te')" by force
  then have eq: "emit_trigger_records r c = emit_decisions ds ((tick c)\<lparr>core_triggers := Some te'\<rparr>)"
    using Some by (simp add: emit_trigger_records_def)
  show ?thesis
    unfolding eq using emit_decisions_ok [of "(tick c)\<lparr>core_triggers := Some te'\<rparr>" ds] assms
    by auto
qed

lemma emit_failure_list_ok:
  assumes "ledger_ok (core_digest c) (core_ledger c)" and "\<And>f. f \<in> set fs \<Longrightarrow> hf_message f \<noteq> []"
  shows "\<exists>rs c'. prog_each (\<lambda>f. prog_bind (prog_lift (hook_failure_payload f))
                               (\<lambda>p. emit_plain ET_ERROR (PvJson (JObj p)))) fs c = (Inr rs, c') \<and>
           core_steps c c' rs \<and> length rs = length fs \<and>
           list_all (\<lambda>r. rec_event_type r = ET_ERROR) rs"
  using assms
proof (induction fs arbitrary: c)
  case Nil
  then show ?case by (simp add: prog_run)
next
  case (Cons f fs)
  from Cons.prems(2) [of f] obtain p where p: "hook_failure_payload f = Inr p"
    using error_event_payload_ok_iff by (fastforce simp: hook_failure_payload_def)
  from emit_plain_ok [OF Cons.prems(1)] obtain r c1 where
    r: "emit_plain ET_ERROR (PvJson (JObj p)) c = (Inr r, c1)" "core_steps c c1 [r]"
      "rec_event_type r = ET_ERROR" by blast
  from Cons.IH [OF core_steps_ok [OF r(2) Cons.prems(1)]] Cons.prems(2) obtain rs c2 where
    rs: "prog_each (\<lambda>f. prog_bind (prog_lift (hook_failure_payload f))
           (\<lambda>p. emit_plain ET_ERROR (PvJson (JObj p)))) fs c1 = (Inr rs, c2)" "core_steps c1 c2 rs"
      "length rs = length fs" "list_all (\<lambda>r. rec_event_type r = ET_ERROR) rs"
    by (metis list.set_intros(2))
  have "core_steps c c2 (r # rs)" using core_steps_trans [OF r(2) rs(2)] by simp
  moreover have "prog_each (\<lambda>f. prog_bind (prog_lift (hook_failure_payload f))
        (\<lambda>p. emit_plain ET_ERROR (PvJson (JObj p)))) (f # fs) c = (Inr (r # rs), c2)"
    using p r(1) rs(1) by (simp add: prog_bind_run [where s = c] prog_lift_def)
      (simp add: prog_bind_run prog_return_def)
  ultimately show ?case using r(3) rs(3,4) by auto
qed

lemma emit_hook_failures_ok:
  assumes "ledger_ok (core_digest c) (core_ledger c)" and "\<And>f. f \<in> set fs \<Longrightarrow> hf_message f \<noteq> []"
    and "\<not> core_logging_failure c"
  shows "\<exists>rs c'. emit_hook_failures fs c = (Inr rs, c') \<and> core_steps c c' rs \<and> length rs = length fs \<and>
           \<not> core_logging_failure c' \<and> list_all (\<lambda>r. rec_event_type r = ET_ERROR) rs"
  using emit_failure_list_ok [of "c\<lparr>core_logging_failure := True\<rparr>" fs] assms
  by (fastforce simp: emit_hook_failures_def)

text \<open>What an emission adds around its own record.\<close>

definition extension_record :: "audit_record \<Rightarrow> bool" where
  "extension_record r \<longleftrightarrow> rec_event_type r = ET_TRIGGER_FIRED \<or> rec_event_type r = ET_ERROR"

definition context_before :: "event_type \<Rightarrow> json \<Rightarrow> hook_context" where
  "context_before et j = \<lparr>ctx_point = HP_BEFORE_APPEND, ctx_event_type = et, ctx_payload = j,
                          ctx_record = None\<rparr>"

definition context_after :: "audit_record \<Rightarrow> hook_context" where
  "context_after r = \<lparr>ctx_point = HP_AFTER_APPEND, ctx_event_type = rec_event_type r,
                      ctx_payload = rec_payload r, ctx_record = Some r\<rparr>"

lemma core_ok_steps:
  "core_ok c \<Longrightarrow> core_steps c c' new \<Longrightarrow> \<not> core_logging_failure c' \<Longrightarrow> core_ok c'"
  by (simp add: core_ok_def core_steps_def)

text \<open>
  The emission in full: the triggers before the append, the record with its payload, the triggers
  it fires and one \<^verbatim>\<open>error\<close> record for every hook that raised, in this order and nothing else.
\<close>

lemma core_emit_run:
  assumes ok: "core_ok c" and p: "normalize_json p = Inr (JObj kvs)"
  shows "\<exists>r c' pre post failures. core_emit et p c = (Inr r, c') \<and> core_ok c' \<and>
           core_records c' = core_records c @ pre @ [r] @ post @ failures \<and>
           rec_event_type r = et \<and> rec_payload r = JObj kvs \<and>
           list_all (\<lambda>r. rec_event_type r = ET_TRIGGER_FIRED) (pre @ post) \<and>
           list_all (\<lambda>r. rec_event_type r = ET_ERROR) failures \<and>
           length failures =
             length (run_hooks (core_hooks c) HP_BEFORE_APPEND (context_before et (JObj kvs)))
             + length (run_hooks (core_hooks c) HP_AFTER_APPEND (context_after r)) \<and>
           core_digest c' = core_digest c \<and> core_hooks c' = core_hooks c"
proof -
  let ?before = "run_hooks (core_hooks c) HP_BEFORE_APPEND (context_before et (JObj kvs))"
  from ok have led: "ledger_ok (core_digest c) (core_ledger c)" and quiet: "\<not> core_logging_failure c"
    by (simp_all add: core_ok_def)
  from emit_before_trigger_records_ok [OF led, of et] obtain pre c1 where
    b: "emit_before_trigger_records et c = (Inr pre, c1)" "core_steps c c1 pre"
      "core_logging_failure c1 = core_logging_failure c"
      "list_all (\<lambda>r. rec_event_type r = ET_TRIGGER_FIRED) pre" by blast
  note led1 = core_steps_ok [OF b(2) led]
  from core_append_ok [OF led1 p, of et] obtain r c2 where
    a: "core_append et p c1 = (Inr r, c2)" "rec_event_type r = et" "rec_payload r = JObj kvs" by blast
  note steps2 = core_append_Inr [OF a(1)]
  note led2 = core_steps_ok [OF steps2(1) led1]
  from emit_trigger_records_ok [OF led2, of r] obtain post c3 where
    t: "emit_trigger_records r c2 = (Inr post, c3)" "core_steps c2 c3 post"
      "core_logging_failure c3 = core_logging_failure c2"
      "list_all (\<lambda>r. rec_event_type r = ET_TRIGGER_FIRED) post" by blast
  let ?after = "run_hooks (core_hooks c2) HP_AFTER_APPEND (context_after r)"
  have hooks: "core_hooks c2 = core_hooks c" using b(2) steps2(1) by (simp add: core_steps_def)
  have "hf_message f \<noteq> []" if "f \<in> set (?before @ ?after)" for f
  proof -
    from ok have speaks: "\<And>p h. h \<in> set (core_hooks c p) \<Longrightarrow> hook_speaks h" by (simp add: core_ok_def)
    from that hooks have "f \<in> set ?before \<or> f \<in> set (run_hooks (core_hooks c) HP_AFTER_APPEND (context_after r))"
      by auto
    then show ?thesis by (elim disjE) (erule run_hooks_messages [rotated], erule speaks)+
  qed
  then obtain failures c4 where
    f: "emit_hook_failures (?before @ ?after) c3 = (Inr failures, c4)" "core_steps c3 c4 failures"
      "length failures = length (?before @ ?after)" "\<not> core_logging_failure c4"
      "list_all (\<lambda>r. rec_event_type r = ET_ERROR) failures"
    using emit_hook_failures_ok [OF core_steps_ok [OF t(2) led2], of "?before @ ?after"]
      t(3) steps2(3) b(3) quiet by blast
  have steps: "core_steps c c4 (pre @ [r] @ post @ failures)"
    using core_steps_trans [OF b(2) core_steps_trans [OF steps2(1) core_steps_trans [OF t(2) f(2)]]] .
  have "core_emit et p c = (Inr r, c4)"
    using p b(1) a t(1) f(1)
    by (simp add: core_emit_def immutable_payload_def prog_bind_def prog_lift_def prog_return_def
        context_before_def context_after_def)
  moreover have "core_ok c4" using core_ok_steps [OF ok steps f(4)] .
  ultimately show ?thesis
    using steps a(2,3) b(4) t(4) f(3,5) hooks by (auto simp: core_steps_def)
qed

text \<open>Append-only: whatever happens, the records that were there are still there, in front.\<close>

definition extends :: "core \<Rightarrow> core \<Rightarrow> bool" where
  "extends c c' \<longleftrightarrow> (\<exists>new. core_steps c c' new)"

lemma extends_refl [simp]: "extends c c"
  using core_steps_refl extends_def by blast

lemma extends_trans: "extends c c' \<Longrightarrow> extends c' c'' \<Longrightarrow> extends c c''"
  unfolding extends_def using core_steps_trans by blast

lemma extends_frame [simp]:
  "extends (tick c) c' = extends c c'"
  "extends (c\<lparr>core_triggers := t\<rparr>) c' = extends c c'"
  "extends (c\<lparr>core_logging_failure := b\<rparr>) c' = extends c c'"
  "extends c (tick c') = extends c c'"
  "extends c (c'\<lparr>core_triggers := t\<rparr>) = extends c c'"
  "extends c (c'\<lparr>core_logging_failure := b\<rparr>) = extends c c'"
  by (simp_all add: extends_def)

lemma prog_bind_extends:
  assumes "prog_bind m f c = (x, c')" and "\<And>y c1. m c = (y, c1) \<Longrightarrow> extends c c1"
    and "\<And>y c1. m c = (Inr y, c1) \<Longrightarrow> f y c1 = (x, c') \<Longrightarrow> extends c1 c'"
  shows "extends c c'"
  using assms(1) by (rule prog_bind_cases) (use assms(2,3) extends_trans in blast)+

lemma prog_lift_extends [simp]: "prog_lift r c = (x, c') \<Longrightarrow> extends c c'"
  by (simp add: prog_lift_def)

lemma core_append_extends: "core_append et p c = (x, c') \<Longrightarrow> extends c c'"
  by (cases x) (auto simp: extends_def dest: core_append_error core_append_Inr(1) intro: core_steps_refl)

lemma emit_plain_extends: "emit_plain et p c = (x, c') \<Longrightarrow> extends c c'"
  unfolding emit_plain_def by (erule prog_bind_extends) (auto intro: core_append_extends)

lemma prog_each_extends:
  assumes "\<And>x c y c'. f x c = (y, c') \<Longrightarrow> extends c c'" and "prog_each f xs c = (y, c')"
  shows "extends c c'"
  by (rule prog_each_invariant [where P = "extends c", OF _ assms(2)]) (use assms(1) extends_trans in auto)

lemma emit_decisions_extends: "emit_decisions ds c = (x, c') \<Longrightarrow> extends c c'"
  unfolding emit_decisions_def by (rule prog_each_extends) (auto intro: emit_plain_extends)

lemma emit_before_trigger_records_extends:
  "emit_before_trigger_records et c = (x, c') \<Longrightarrow> extends c c'"
  by (auto simp: emit_before_trigger_records_def split: option.splits sum.splits prod.splits
      dest!: emit_decisions_extends)

lemma emit_trigger_records_extends: "emit_trigger_records r c = (x, c') \<Longrightarrow> extends c c'"
  by (auto simp: emit_trigger_records_def split: option.splits prod.splits dest!: emit_decisions_extends)

lemma emit_hook_failures_extends: "emit_hook_failures fs c = (x, c') \<Longrightarrow> extends c c'"
proof -
  have step: "prog_bind (prog_lift (hook_failure_payload f))
      (\<lambda>p. emit_plain ET_ERROR (PvJson (JObj p))) c = (y, c') \<Longrightarrow> extends c c'" for f c y c'
    by (erule prog_bind_extends) (auto intro: emit_plain_extends)
  show "emit_hook_failures fs c = (x, c') \<Longrightarrow> extends c c'"
    by (auto simp: emit_hook_failures_def split: if_splits prod.splits)
      (use prog_each_extends [OF step] in fastforce)
qed

lemma core_emit_extends: "core_emit et p c = (x, c') \<Longrightarrow> extends c c'"
  unfolding core_emit_def
  by (erule prog_bind_extends, simp, erule prog_bind_extends, simp, erule prog_bind_extends,
      erule emit_before_trigger_records_extends, erule prog_bind_extends, erule core_append_extends,
      erule prog_bind_extends, simp, erule prog_bind_extends, erule emit_trigger_records_extends,
      erule prog_bind_extends, erule emit_hook_failures_extends) (simp add: prog_return_def)

subsection \<open>The interface to the components that emit\<close>

text \<open>
  What the gateway, the feeds and the runtime rely on: an emission of a payload that normalises
  succeeds and adds its record, possibly among records of the extensions; no emission removes a
  record.
\<close>

locale event_sink =
  fixes emit :: "event_type \<Rightarrow> pyval \<Rightarrow> ('s, audit_record) prog"
    and written :: "'s \<Rightarrow> audit_record list"
    and usable :: "'s \<Rightarrow> bool"
  assumes emit_ok: "usable s \<Longrightarrow> normalize_json p = Inr (JObj kvs) \<Longrightarrow>
      \<exists>r s' pre post. emit et p s = (Inr r, s') \<and> usable s' \<and>
        written s' = written s @ pre @ [r] @ post \<and> rec_event_type r = et \<and>
        rec_payload r = JObj kvs \<and> list_all extension_record (pre @ post)"
    and emit_keeps: "emit et p s = (x, s') \<Longrightarrow> \<exists>new. written s' = written s @ new"
begin

text \<open>
  \<open>facts es rs\<close>: the records \<open>rs\<close> are the events \<open>es\<close> in their order, with records of the
  extensions in between.
\<close>

inductive facts :: "(event_type \<times> payload) list \<Rightarrow> audit_record list \<Rightarrow> bool" where
  facts_nil: "facts [] []"
| facts_extension: "extension_record r \<Longrightarrow> facts es rs \<Longrightarrow> facts es (r # rs)"
| facts_event: "rec_event_type r = et \<Longrightarrow> rec_payload r = JObj kvs \<Longrightarrow> facts es rs \<Longrightarrow>
     facts ((et, kvs) # es) (r # rs)"

lemma facts_append: "facts es rs \<Longrightarrow> facts es' rs' \<Longrightarrow> facts (es @ es') (rs @ rs')"
  by (induction rule: facts.induct) (auto intro: facts.intros)

lemma facts_extensions: "list_all extension_record rs \<Longrightarrow> facts [] rs"
  by (induction rs) (auto intro: facts.intros)

lemma facts_one:
  assumes "rec_event_type r = et" and "rec_payload r = JObj kvs" and "list_all extension_record (pre @ post)"
  shows "facts [(et, kvs)] (pre @ [r] @ post)"
proof -
  have "facts [] pre" "facts [] post" using assms(3) by (auto intro: facts_extensions)
  moreover have "facts [(et, kvs)] (r # post)"
    using assms(1,2) \<open>facts [] post\<close> by (intro facts_event)
  ultimately show ?thesis using facts_append [of "[]" pre "[(et, kvs)]" "r # post"] by simp
qed

lemma emit_fact:
  assumes "usable s" and "normalize_json p = Inr (JObj kvs)"
  obtains r s' new where "emit et p s = (Inr r, s')" and "usable s'" and "written s' = written s @ new"
    and "facts [(et, kvs)] new" and "rec_event_type r = et" and "rec_payload r = JObj kvs"
proof -
  from emit_ok [OF assms, of et] obtain r s' pre post where
    r: "emit et p s = (Inr r, s')" "usable s'" "written s' = written s @ pre @ [r] @ post"
      "rec_event_type r = et" "rec_payload r = JObj kvs" "list_all extension_record (pre @ post)"
    by blast
  from facts_one [OF r(4-6)] show thesis by (rule that [OF r(1-3) _ r(4,5)])
qed

text \<open>A sequence of emissions writes its events in order.\<close>

lemma emit_all_facts:
  assumes "usable s"
  shows "\<exists>rs s' new. prog_each (\<lambda>(et, kvs). emit et (PvJson (JObj kvs))) es s = (Inr rs, s') \<and>
           usable s' \<and> written s' = written s @ new \<and> facts es new"
  using assms
proof (induction es arbitrary: s)
  case Nil
  then show ?case by (auto simp: prog_return_def intro: facts_nil)
next
  case (Cons e es)
  obtain et kvs where e: "e = (et, kvs)" by force
  have "normalize_json (PvJson (JObj kvs)) = Inr (JObj kvs)" by simp
  from emit_fact [OF Cons.prems this, of et] obtain r s1 new where
    r: "emit et (PvJson (JObj kvs)) s = (Inr r, s1)" "usable s1" "written s1 = written s @ new"
      "facts [(et, kvs)] new" by blast
  from Cons.IH [OF r(2)] obtain rs s2 new' where
    rs: "prog_each (\<lambda>(et, kvs). emit et (PvJson (JObj kvs))) es s1 = (Inr rs, s2)" "usable s2"
      "written s2 = written s1 @ new'" "facts es new'" by blast
  have "facts (e # es) (new @ new')" using facts_append [OF r(4) rs(4)] e by simp
  then show ?case using r rs e by (auto simp: prog_bind_run prog_return_def)
qed

lemma facts_length: "facts es rs \<Longrightarrow> length es \<le> length rs"
  by (induction rule: facts.induct) auto

end

lemma core_emit_sink:
  assumes "core_ok c" and "normalize_json p = Inr (JObj kvs)"
  shows "\<exists>r c' pre post. core_emit et p c = (Inr r, c') \<and> core_ok c' \<and>
           core_records c' = core_records c @ pre @ [r] @ post \<and> rec_event_type r = et \<and>
           rec_payload r = JObj kvs \<and> list_all extension_record (pre @ post)"
proof -
  from core_emit_run [OF assms, of et] obtain r c' pre post failures where
    "core_emit et p c = (Inr r, c')" "core_ok c'"
    "core_records c' = core_records c @ pre @ [r] @ post @ failures" "rec_event_type r = et"
    "rec_payload r = JObj kvs" "list_all (\<lambda>r. rec_event_type r = ET_TRIGGER_FIRED) (pre @ post)"
    "list_all (\<lambda>r. rec_event_type r = ET_ERROR) failures" by blast
  moreover from this have "list_all extension_record (pre @ post @ failures)"
    by (auto simp: extension_record_def list_all_iff)
  ultimately show ?thesis by (intro exI [of _ r] exI [of _ c'] exI [of _ pre] exI [of _ "post @ failures"]) simp
qed

interpretation core_sink: event_sink core_emit core_records core_ok
proof
  show "\<exists>new. core_records c' = core_records c @ new" if "core_emit et p c = (x, c')" for et p c x c'
    using core_emit_extends [OF that] by (auto simp: extends_def core_steps_def)
qed (rule core_emit_sink)

subsection \<open>Theorems\<close>

definition empty_core :: "hook_registry \<Rightarrow> trigger_engine option \<Rightarrow> core" where
  "empty_core hooks triggers =
     \<lparr>core_ledger = \<lparr>led_records = [], led_locked = False\<rparr>, core_hooks = hooks,
      core_triggers = triggers, core_logging_failure = False,
      core_env = \<lparr>env_digest = (\<lambda>s. s), env_clock = int, env_reads = 0, env_uuid = nat_to_str,
                  env_uuids = 0\<rparr>\<rparr>"

lemma core_ok_empty [simp]:
  "core_ok (empty_core hooks te) \<longleftrightarrow> (\<forall>p. \<forall>h \<in> set (hooks p). hook_speaks h)"
  by (simp add: core_ok_def empty_core_def)



lemma fire_rules_before_sequence:
  "fire_rules (before_candidate et n) rules fired = (ds, fired') \<Longrightarrow> d \<in> set ds \<Longrightarrow> td_sequence d = Some n"
proof (induction rules arbitrary: fired ds fired')
  case Nil
  then show ?case by simp
next
  case (Cons rule rules)
  have "td_sequence d' = Some n" if "before_candidate et n rule = Some (d', key)" for d' key
    using that by (cases rule) (auto simp: before_candidate_def split: if_splits)
  with Cons show ?case by (fastforce split: option.splits prod.splits if_splits)
qed

text \<open>
  The record an emission returns carries a \<^verbatim>\<open>matched_sequence\<close> in the decisions fired before it that
  is off by the number of the matching rules that had fired already: the code reserves a record for
  every matching rule, fired or not.
\<close>

theorem before_trigger_sequence:
  assumes "core_ok c" and "core_triggers c = Some te" and "normalize_json p = Inr (JObj kvs)"
    and "core_emit et p c = (Inr r, c')"
    and "evaluate_before_append et (int (length (core_records c)) + 1) te = (ds, te')"
    and "d \<in> set ds"
  shows "td_sequence d =
           Some (rec_sequence r
             + (int (length (filter (before_matches et) (te_rules te))) - int (length ds)))"
proof -
  from assms(1) have led: "ledger_ok (core_digest c) (core_ledger c)" by (simp add: core_ok_def)
  let ?c = "c\<lparr>core_triggers := Some te'\<rparr>"
  from emit_decisions_ok [of ?c ds] led obtain rs c1 where
    rs: "emit_decisions ds ?c = (Inr rs, c1)" "core_steps c c1 rs" "length rs = length ds" by auto
  have "ledger_verify (core_digest c) (core_ledger c) = Inr (tip (core_digest c) (core_ledger c))"
    by (simp add: ledger_verify_def ledger_ok_snapshot led)
  then have before: "emit_before_trigger_records et c = (Inr rs, c1)"
    using assms(2,5) rs(1) by (simp add: emit_before_trigger_records_def tip_def)
  from core_append_ok [OF core_steps_ok [OF rs(2) led] assms(3), of et] obtain r1 c2 where
    r1: "core_append et p c1 = (Inr r1, c2)" "rec_sequence r1 = int (length (core_records c1)) + 1" by blast
  have "r = r1"
    using assms(3,4) before r1(1)
    by (auto simp: core_emit_def immutable_payload_def prog_bind_def prog_lift_def prog_return_def
        split: prod.splits sum.splits)
  moreover have "td_sequence d = Some (int (length (core_records c)) + 1 +
      int (length (filter (before_matches et) (te_rules te))))"
    using assms(5,6) fire_rules_before_sequence
    by (auto simp: evaluate_before_append_def Let_def split: prod.splits)
  ultimately show ?thesis using r1(2) rs(2,3) by (simp add: core_steps_def)
qed

theorem before_trigger_sequence_witness:
  "\<exists>r c'. core_emit ET_ERROR (PvMapping [])
       (empty_core (\<lambda>_. []) (Some \<lparr>te_rules = [MessageTrigger ''a'' TR_BEFORE None False,
                                        MessageTrigger ''b'' TR_BEFORE None False],
                            te_fired = {''a''}, te_seeded = {}\<rparr>)) = (Inr r, c') \<and>
     Some 3 = Some (rec_sequence r + 1)"
proof -
  let ?te = "\<lparr>te_rules = [MessageTrigger ''a'' TR_BEFORE None False,
                         MessageTrigger ''b'' TR_BEFORE None False],
             te_fired = {''a''}, te_seeded = {}\<rparr>"
  let ?c = "empty_core (\<lambda>_. []) (Some ?te)"
  have ok: "core_ok ?c" by simp
  have p: "normalize_json (PvMapping []) = Inr (JObj [])" by (simp add: dict_of_items_def)
  from core_emit_sink [OF ok p] obtain r c' where
    e: "core_emit ET_ERROR (PvMapping []) ?c = (Inr r, c')" by blast
  let ?d = "\<lparr>td_trigger_id = ''b'', td_relation = TR_BEFORE, td_event_type = Some ET_ERROR,
            td_sequence = Some 3, td_target_time = None\<rparr>"
  have "evaluate_before_append ET_ERROR (int (length (core_records ?c)) + 1) ?te
      = ([?d], ?te\<lparr>te_fired := {''b'', ''a''}\<rparr>)"
    by (simp add: evaluate_before_append_def before_matches_def matches_event_type_def
        before_candidate_def before_fired_key_def empty_core_def)
  from before_trigger_sequence [OF ok _ p e this, of ?d]
  have "Some 3 = Some (rec_sequence r + 1)"
    by (simp add: empty_core_def before_matches_def matches_event_type_def)
  with e show ?thesis by blast
qed

lemma silent_failure_list:
  assumes "f \<in> set fs" and "hf_message f = []"
  shows "\<exists>e c'. prog_each (\<lambda>f. prog_bind (prog_lift (hook_failure_payload f))
                               (\<lambda>p. emit_plain ET_ERROR (PvJson (JObj p)))) fs c = (Inl e, c')"
  using assms(1)
proof (induction fs arbitrary: c)
  case Nil
  then show ?case by simp
next
  case (Cons f' fs)
  show ?case
  proof (cases "hf_message f' = []")
    case True
    then have "\<exists>e. hook_failure_payload f' = Inl e"
      by (simp add: hook_failure_payload_def error_event_payload_def)
    then show ?thesis by (auto simp: prog_bind_run prog_lift_def)
  next
    case False
    with Cons.prems assms(2) have "f \<in> set fs" by auto
    obtain x c1 where x: "prog_bind (prog_lift (hook_failure_payload f'))
        (\<lambda>p. emit_plain ET_ERROR (PvJson (JObj p))) c = (x, c1)" by force
    show ?thesis
    proof (cases x)
      case (Inl e)
      with x show ?thesis by (auto simp: prog_bind_run)
    next
      case (Inr r)
      obtain y c2 where "prog_each (\<lambda>f. prog_bind (prog_lift (hook_failure_payload f))
          (\<lambda>p. emit_plain ET_ERROR (PvJson (JObj p)))) fs c1 = (Inl y, c2)"
        using Cons.IH [OF \<open>f \<in> set fs\<close>, of c1] by blast
      with x Inr show ?thesis by (simp only: prog_each_Cons) simp
    qed
  qed
qed

text \<open>
  A hook that raises an exception without a text makes the emission raise, after its record was
  appended: \<^verbatim>\<open>error_event_payload\<close> rejects the empty message.
\<close>

theorem silent_hook_breaks_emission:
  assumes "ledger_ok (core_digest c) (core_ledger c)" and "\<not> core_logging_failure c"
    and "normalize_json p = Inr (JObj kvs)"
    and "h \<in> set (core_hooks c HP_BEFORE_APPEND)"
    and "hook_call h (context_before et (JObj kvs)) = Some e" and "exc_message e = []"
  shows "\<exists>x c' new. core_emit et p c = (Inl x, c') \<and> core_records c' = core_records c @ new \<and>
           (\<exists>r \<in> set new. rec_event_type r = et \<and> rec_payload r = JObj kvs)"
proof -
  let ?before = "run_hooks (core_hooks c) HP_BEFORE_APPEND (context_before et (JObj kvs))"
  obtain f where f: "f \<in> set ?before" "hf_message f = []"
    using assms(4-6) by (fastforce simp: run_hooks_all hook_outcome_def)
  from emit_before_trigger_records_ok [OF assms(1), of et] obtain pre c1 where
    b: "emit_before_trigger_records et c = (Inr pre, c1)" "core_steps c c1 pre"
      "core_logging_failure c1 = core_logging_failure c" by blast
  note led1 = core_steps_ok [OF b(2) assms(1)]
  from core_append_ok [OF led1 assms(3), of et] obtain r c2 where
    a: "core_append et p c1 = (Inr r, c2)" "rec_event_type r = et" "rec_payload r = JObj kvs" by blast
  note steps2 = core_append_Inr [OF a(1)]
  note led2 = core_steps_ok [OF steps2(1) led1]
  from emit_trigger_records_ok [OF led2, of r] obtain post c3 where
    t: "emit_trigger_records r c2 = (Inr post, c3)" "core_steps c2 c3 post"
      "core_logging_failure c3 = core_logging_failure c2" by blast
  let ?after = "run_hooks (core_hooks c2) HP_AFTER_APPEND (context_after r)"
  obtain x c4 where x: "emit_hook_failures (?before @ ?after) c3 = (Inl x, c4)"
    using silent_failure_list [of f "?before @ ?after" "c3\<lparr>core_logging_failure := True\<rparr>"] f t(3)
      steps2(3) b(3) assms(2)
    by (fastforce simp: emit_hook_failures_def)
  from emit_hook_failures_extends [OF this] obtain new where "core_steps c3 c4 new"
    by (auto simp: extends_def)
  then have "core_records c4 = core_records c @ pre @ [r] @ post @ new"
    using b(2) steps2(1) t(2) by (simp add: core_steps_def)
  moreover have "core_emit et p c = (Inl x, c4)"
    using assms(3) b(1) a t(1) x
    by (simp add: core_emit_def immutable_payload_def prog_bind_def prog_lift_def prog_return_def
        context_before_def context_after_def)
  ultimately show ?thesis
    using a(2,3) by (intro exI [of _ x] exI [of _ c4] exI [of _ "pre @ [r] @ post @ new"]) auto
qed

theorem silent_hook_breaks_emission_witness:
  "\<exists>x c' new. core_emit ET_ERROR (PvMapping [])
       (empty_core (\<lambda>_. [\<lparr>hook_ident = 0, hook_name = ''quiet'',
                          hook_call = (\<lambda>_. Some (PyExc ''AssertionError'' [] None))\<rparr>]) None) = (Inl x, c')
     \<and> core_records c' = new \<and> new \<noteq> []"
  using silent_hook_breaks_emission [of "empty_core (\<lambda>_. [\<lparr>hook_ident = 0, hook_name = ''quiet'',
                          hook_call = (\<lambda>_. Some (PyExc ''AssertionError'' [] None))\<rparr>]) None"
      "PvMapping []" "[]" "\<lparr>hook_ident = 0, hook_name = ''quiet'',
                          hook_call = (\<lambda>_. Some (PyExc ''AssertionError'' [] None))\<rparr>"
      ET_ERROR "PyExc ''AssertionError'' [] None"]
  by (simp add: empty_core_def dict_of_items_def) (fastforce)

text \<open>
  Append-only: every emission, whether it returns or raises, keeps the records that were there as a
  prefix and keeps a verified ledger verified.
\<close>

theorem emission_append_only:
  "\<exists>new. core_records (snd (core_emit et p c)) = core_records c @ new \<and>
     core_digest (snd (core_emit et p c)) = core_digest c \<and>
     (ledger_ok (core_digest c) (core_ledger c) \<longrightarrow>
      ledger_ok (core_digest c) (core_ledger (snd (core_emit et p c))))"
  using core_emit_extends [of et p c "fst (core_emit et p c)" "snd (core_emit et p c)"]
  by (auto simp: extends_def core_steps_def)

theorem emission_append_only_witness:
  "ledger_ok (\<lambda>s. s) (core_ledger (snd (core_emit ET_ERROR (PvOther ''set'') (empty_core (\<lambda>_. []) None))))"
  using emission_append_only [of ET_ERROR "PvOther ''set''" "empty_core (\<lambda>_. []) None"]
  by (simp add: empty_core_def)

end
