(* ===== verification/Decimal.thy ===== *)
theory Decimal
  imports Complex_Main Errors
begin

text \<open>
  The part of Python's \<^verbatim>\<open>decimal\<close> the sources use, under the default context: precision 28,
  rounding half even, \<^verbatim>\<open>Emax\<close> 999999, \<^verbatim>\<open>Emin\<close> -999999, traps for invalid operations, division
  by zero and overflow. A finite number keeps its sign, coefficient and exponent, because \<^verbatim>\<open>str\<close> and
  \<^verbatim>\<open>quantize\<close> show them. The payload digits of a NaN are dropped.
\<close>

datatype pydec = DFin bool nat int | DInf bool | DNaN bool bool

definition dec_prec :: nat where "dec_prec = 28"
definition dec_emax :: int where "dec_emax = 999999"
definition dec_emin :: int where "dec_emin = - 999999"
definition dec_etiny :: int where "dec_etiny = dec_emin - int dec_prec + 1"
definition dec_etop :: int where "dec_etop = dec_emax - int dec_prec + 1"

abbreviation invalid_operation :: pyexc where
  "invalid_operation \<equiv> PyExc ''InvalidOperation'' ''[<class 'decimal.InvalidOperation'>]'' None"

abbreviation decimal_overflow :: pyexc where
  "decimal_overflow \<equiv> PyExc ''Overflow'' ''[<class 'decimal.Overflow'>]'' None"

abbreviation division_impossible :: pyexc where
  "division_impossible \<equiv> PyExc ''InvalidOperation'' ''[<class 'decimal.DivisionImpossible'>]'' None"

abbreviation division_undefined :: pyexc where
  "division_undefined \<equiv> PyExc ''InvalidOperation'' ''[<class 'decimal.DivisionUndefined'>]'' None"

abbreviation conversion_syntax :: pyexc where
  "conversion_syntax \<equiv> PyExc ''InvalidOperation'' ''[<class 'decimal.ConversionSyntax'>]'' None"

abbreviation division_by_zero :: pyexc where
  "division_by_zero \<equiv> PyExc ''DivisionByZero'' ''[<class 'decimal.DivisionByZero'>]'' None"

subsection \<open>Values\<close>

definition signed :: "bool \<Rightarrow> nat \<Rightarrow> int" where
  "signed s c = (if s then - int c else int c)"

fun is_finite :: "pydec \<Rightarrow> bool" where
  "is_finite (DFin s c e) = True"
| "is_finite _ = False"

fun is_nan :: "pydec \<Rightarrow> bool" where
  "is_nan (DNaN s g) = True"
| "is_nan _ = False"

fun is_snan :: "pydec \<Rightarrow> bool" where
  "is_snan (DNaN s g) = g"
| "is_snan _ = False"

text \<open>\<open>dec_rat\<close> is the number a finite decimal denotes.\<close>

fun dec_rat :: "pydec \<Rightarrow> rat" where
  "dec_rat (DFin s c e) = of_int (signed s c) * power_int 10 e"
| "dec_rat _ = 0"

text \<open>The signed coefficient after moving the exponent down to \<open>m\<close>.\<close>

definition aligned :: "int \<Rightarrow> bool \<Rightarrow> nat \<Rightarrow> int \<Rightarrow> int" where
  "aligned m s c e = signed s c * 10 ^ nat (e - m)"

lemma aligned_rat:
  assumes "m \<le> e"
  shows "of_int (aligned m s c e) * power_int 10 m = dec_rat (DFin s c e)"
proof -
  have "(10 :: rat) ^ nat (e - m) = power_int 10 (e - m)"
    using assms by (simp add: power_int_def)
  then show ?thesis
    by (simp add: aligned_def power_int_diff)
qed

subsection \<open>Rounding to the context\<close>

definition num_digits :: "nat \<Rightarrow> nat" where
  "num_digits n = length (nat_to_str n)"

definition div_half_even :: "nat \<Rightarrow> nat \<Rightarrow> nat" where
  "div_half_even n d =
     (let q = n div d; r = n mod d
      in if 2 * r < d then q else if 2 * r > d then q + 1 else if even q then q else q + 1)"

text \<open>
  \<^verbatim>\<open>Decimal._fix\<close>: at most 28 digits, an adjusted exponent at most \<^verbatim>\<open>Emax\<close> (else the trapped
  overflow), subnormal results rounded at \<^verbatim>\<open>Etiny\<close>.
\<close>

definition dec_fix :: "bool \<Rightarrow> nat \<Rightarrow> int \<Rightarrow> pydec res" where
  "dec_fix s c e =
     (if c = 0 then Inr (DFin s 0 (min (max e dec_etiny) dec_emax))
      else
        let exp_min = int (num_digits c) + e - int dec_prec in
        if exp_min > dec_etop then Inl decimal_overflow
        else
          let exp_min = max exp_min dec_etiny in
          if e < exp_min then
            let coeff = div_half_even c (10 ^ nat (exp_min - e)) in
            if num_digits coeff > dec_prec then
              (if exp_min + 1 > dec_etop then Inl decimal_overflow
               else Inr (DFin s (coeff div 10) (exp_min + 1)))
            else Inr (DFin s coeff exp_min)
          else Inr (DFin s c e))"

text \<open>A result of at most 28 digits within the exponent range is not rounded.\<close>

lemma dec_fix_exact:
  assumes "num_digits c \<le> dec_prec" and "dec_etiny \<le> e" and "e \<le> dec_etop"
  shows "dec_fix s c e = Inr (DFin s c e)"
  using assms by (auto simp: dec_fix_def Let_def dec_etop_def dec_emax_def dec_prec_def dec_etiny_def dec_emin_def)

subsection \<open>Comparison\<close>

text \<open>\<^verbatim>\<open>-1\<close>, \<^verbatim>\<open>0\<close>, \<^verbatim>\<open>1\<close>, or \<open>None\<close> when an operand is a NaN.\<close>

fun dec_cmp :: "pydec \<Rightarrow> pydec \<Rightarrow> int option" where
  "dec_cmp (DFin s c e) (DFin t d f) =
     Some (sgn (aligned (min e f) s c e - aligned (min e f) t d f))"
| "dec_cmp (DInf s) (DInf t) = Some (if s = t then 0 else if s then -1 else 1)"
| "dec_cmp (DInf s) (DFin t d f) = Some (if s then -1 else 1)"
| "dec_cmp (DFin s c e) (DInf t) = Some (if t then 1 else -1)"
| "dec_cmp _ _ = None"

text \<open>Ordering comparisons signal on every NaN, equality only on a signalling one.\<close>

definition dec_le :: "pydec \<Rightarrow> pydec \<Rightarrow> bool res" where
  "dec_le x y = (case dec_cmp x y of None \<Rightarrow> Inl invalid_operation | Some k \<Rightarrow> Inr (k \<le> 0))"

definition dec_lt :: "pydec \<Rightarrow> pydec \<Rightarrow> bool res" where
  "dec_lt x y = (case dec_cmp x y of None \<Rightarrow> Inl invalid_operation | Some k \<Rightarrow> Inr (k < 0))"

definition dec_eq :: "pydec \<Rightarrow> pydec \<Rightarrow> bool res" where
  "dec_eq x y =
     (if is_snan x \<or> is_snan y then Inl invalid_operation else Inr (dec_cmp x y = Some 0))"

lemma dec_cmp_rat:
  assumes "is_finite x" and "is_finite y"
  shows "dec_cmp x y = Some (sgn_int)
    \<longleftrightarrow> sgn_int = (if dec_rat x < dec_rat y then -1 else if dec_rat x = dec_rat y then 0 else 1)"
proof -
  from assms obtain s c e t d f where x: "x = DFin s c e" and y: "y = DFin t d f"
    by (metis is_finite.elims(2))
  let ?m = "min e f" and ?p = "power_int 10 (min e f) :: rat"
  have p: "?p > 0" by (simp add: zero_less_power_int)
  have rx: "dec_rat x = of_int (aligned ?m s c e) * ?p"
    and ry: "dec_rat y = of_int (aligned ?m t d f) * ?p"
    using aligned_rat [of ?m e s c] aligned_rat [of ?m f t d] by (simp_all add: x y)
  have "dec_rat x < dec_rat y \<longleftrightarrow> aligned ?m s c e < aligned ?m t d f"
    and "dec_rat x = dec_rat y \<longleftrightarrow> aligned ?m s c e = aligned ?m t d f"
    using p by (simp_all add: rx ry)
  then show ?thesis by (auto simp: x y sgn_if)
qed

lemma dec_le_rat [simp]:
  "is_finite x \<Longrightarrow> is_finite y \<Longrightarrow> dec_le x y = Inr (dec_rat x \<le> dec_rat y)"
  using dec_cmp_rat [of x y] by (auto simp: dec_le_def split: option.splits)

lemma dec_lt_rat [simp]:
  "is_finite x \<Longrightarrow> is_finite y \<Longrightarrow> dec_lt x y = Inr (dec_rat x < dec_rat y)"
  using dec_cmp_rat [of x y] by (auto simp: dec_lt_def split: option.splits)

lemma finite_not_snan [simp]: "is_finite x \<Longrightarrow> \<not> is_snan x"
  by (cases x) auto

lemma dec_eq_rat [simp]:
  "is_finite x \<Longrightarrow> is_finite y \<Longrightarrow> dec_eq x y = Inr (dec_rat x = dec_rat y)"
  using dec_cmp_rat [of x y "if dec_rat x < dec_rat y then -1 else if dec_rat x = dec_rat y then 0 else 1"]
  by (auto simp: dec_eq_def split: if_splits)

subsection \<open>Arithmetic\<close>

text \<open>Operands that are not numbers: a signalling NaN is trapped, a quiet one is the result.\<close>

definition nan_operand :: "pydec \<Rightarrow> pydec \<Rightarrow> pydec res option" where
  "nan_operand x y =
     (if is_snan x \<or> is_snan y then Some (Inl invalid_operation)
      else if is_nan x then Some (Inr x) else if is_nan y then Some (Inr y) else None)"

definition with_numbers :: "(pydec \<Rightarrow> pydec \<Rightarrow> pydec res) \<Rightarrow> pydec \<Rightarrow> pydec \<Rightarrow> pydec res" where
  "with_numbers f x y = (case nan_operand x y of Some r \<Rightarrow> r | None \<Rightarrow> f x y)"

fun mul_numbers :: "pydec \<Rightarrow> pydec \<Rightarrow> pydec res" where
  "mul_numbers (DFin s c e) (DFin t d f) = dec_fix (s \<noteq> t) (c * d) (e + f)"
| "mul_numbers (DInf s) (DFin t d f) = (if d = 0 then Inl invalid_operation else Inr (DInf (s \<noteq> t)))"
| "mul_numbers (DFin s c e) (DInf t) = (if c = 0 then Inl invalid_operation else Inr (DInf (s \<noteq> t)))"
| "mul_numbers (DInf s) (DInf t) = Inr (DInf (s \<noteq> t))"
| "mul_numbers x y = Inr x"

definition dec_mul :: "pydec \<Rightarrow> pydec \<Rightarrow> pydec res" where
  "dec_mul = with_numbers mul_numbers"

fun add_numbers :: "pydec \<Rightarrow> pydec \<Rightarrow> pydec res" where
  "add_numbers (DFin s c e) (DFin t d f) =
     (let m = min e f; v = aligned m s c e + aligned m t d f
      in if v = 0 then dec_fix (c = 0 \<and> d = 0 \<and> s \<and> t) 0 m
         else dec_fix (v < 0) (nat (abs v)) m)"
| "add_numbers (DInf s) (DInf t) = (if s = t then Inr (DInf s) else Inl invalid_operation)"
| "add_numbers (DInf s) y = Inr (DInf s)"
| "add_numbers x y = Inr y"

definition dec_add :: "pydec \<Rightarrow> pydec \<Rightarrow> pydec res" where
  "dec_add = with_numbers add_numbers"

fun copy_negate :: "pydec \<Rightarrow> pydec" where
  "copy_negate (DFin s c e) = DFin (\<not> s) c e"
| "copy_negate (DInf s) = DInf (\<not> s)"
| "copy_negate (DNaN s g) = DNaN (\<not> s) g"

definition dec_sub :: "pydec \<Rightarrow> pydec \<Rightarrow> pydec res" where
  "dec_sub x y = dec_add x (copy_negate y)"

text \<open>\<^verbatim>\<open>__truediv__\<close>: enough digits for one correct rounding, a sticky last digit.\<close>

fun strip_zeros :: "nat \<Rightarrow> nat \<Rightarrow> int \<Rightarrow> nat \<times> int" where
  "strip_zeros 0 c e = (c, e)"
| "strip_zeros (Suc k) c e =
     (if c \<noteq> 0 \<and> c mod 10 = 0 then strip_zeros k (c div 10) (e + 1) else (c, e))"

fun div_numbers :: "pydec \<Rightarrow> pydec \<Rightarrow> pydec res" where
  "div_numbers (DFin s c e) (DFin t d f) =
     (if d = 0 then (if c = 0 then Inl division_undefined else Inl division_by_zero)
      else if c = 0 then dec_fix (s \<noteq> t) 0 (e - f)
      else
        let shift = int (num_digits d) - int (num_digits c) + int dec_prec + 1;
            ex = e - f - shift;
            n = c * 10 ^ nat shift; m = d * 10 ^ nat (- shift);
            q = n div m; r = n mod m
        in if r \<noteq> 0 then dec_fix (s \<noteq> t) (if q mod 5 = 0 then q + 1 else q) ex
           else case strip_zeros (nat (e - f - ex)) q ex of (q', ex') \<Rightarrow> dec_fix (s \<noteq> t) q' ex')"
| "div_numbers (DInf s) (DInf t) = Inl invalid_operation"
| "div_numbers (DInf s) (DFin t d f) = Inr (DInf (s \<noteq> t))"
| "div_numbers (DFin s c e) (DInf t) = Inr (DFin (s \<noteq> t) 0 dec_etiny)"
| "div_numbers x y = Inr x"

definition dec_div :: "pydec \<Rightarrow> pydec \<Rightarrow> pydec res" where
  "dec_div = with_numbers div_numbers"

text \<open>
  \<^verbatim>\<open>_divide\<close>: integer quotient and remainder, refused when the quotient needs more than 28 digits.
\<close>

definition adjusted :: "nat \<Rightarrow> int \<Rightarrow> int" where
  "adjusted c e = int (num_digits c) - 1 + e"

definition rescale :: "bool \<Rightarrow> nat \<Rightarrow> int \<Rightarrow> int \<Rightarrow> pydec" where
  "rescale s c e ex =
     (if c = 0 then DFin s 0 ex
      else if ex \<le> e then DFin s (c * 10 ^ nat (e - ex)) ex
      else DFin s (div_half_even c (10 ^ nat (ex - e))) ex)"

definition int_divide ::
  "bool \<Rightarrow> nat \<Rightarrow> int \<Rightarrow> bool \<Rightarrow> nat \<Rightarrow> int \<Rightarrow> (pydec \<times> pydec) res" where
  "int_divide s c e t d f =
     (let expdiff = adjusted c e - adjusted d f; m = min e f in
      if c = 0 \<or> expdiff \<le> -2 then Inr (DFin (s \<noteq> t) 0 0, rescale s c e m)
      else if expdiff \<le> int dec_prec \<and> (c * 10 ^ nat (e - m)) div (d * 10 ^ nat (f - m)) < 10 ^ dec_prec
      then Inr (DFin (s \<noteq> t) ((c * 10 ^ nat (e - m)) div (d * 10 ^ nat (f - m))) 0,
                DFin s ((c * 10 ^ nat (e - m)) mod (d * 10 ^ nat (f - m))) m)
      else Inl division_impossible)"

fun mod_numbers :: "pydec \<Rightarrow> pydec \<Rightarrow> pydec res" where
  "mod_numbers (DFin s c e) (DFin t d f) =
     (if d = 0 then Inl (if c = 0 then division_undefined else invalid_operation)
      else res_bind (int_divide s c e t d f)
             (\<lambda>(q, r). case r of DFin rs rc re \<Rightarrow> dec_fix rs rc re | _ \<Rightarrow> Inr r))"
| "mod_numbers (DInf s) y = Inl invalid_operation"
| "mod_numbers (DFin s c e) (DInf t) = dec_fix s c e"
| "mod_numbers x y = Inr x"

definition dec_mod :: "pydec \<Rightarrow> pydec \<Rightarrow> pydec res" where
  "dec_mod = with_numbers mod_numbers"

fun floordiv_numbers :: "pydec \<Rightarrow> pydec \<Rightarrow> pydec res" where
  "floordiv_numbers (DFin s c e) (DFin t d f) =
     (if d = 0 then Inl (if c = 0 then division_undefined else division_by_zero)
      else res_bind (int_divide s c e t d f) (\<lambda>(q, r). Inr q))"
| "floordiv_numbers (DInf s) (DInf t) = Inl invalid_operation"
| "floordiv_numbers (DInf s) (DFin t d f) = Inr (DInf (s \<noteq> t))"
| "floordiv_numbers (DFin s c e) (DInf t) = Inr (DFin (s \<noteq> t) 0 0)"
| "floordiv_numbers x y = Inr x"

definition dec_floordiv :: "pydec \<Rightarrow> pydec \<Rightarrow> pydec res" where
  "dec_floordiv = with_numbers floordiv_numbers"

fun quantize_numbers :: "pydec \<Rightarrow> pydec \<Rightarrow> pydec res" where
  "quantize_numbers (DFin s c e) (DFin t d f) =
     (if f < dec_etiny \<or> dec_emax < f then Inl invalid_operation
      else if c = 0 then dec_fix s 0 f
      else if adjusted c e > dec_emax \<or> adjusted c e - f + 1 > int dec_prec then Inl invalid_operation
      else case rescale s c e f of
          DFin rs rc re \<Rightarrow>
            if adjusted rc re > dec_emax \<or> num_digits rc > dec_prec then Inl invalid_operation
            else dec_fix rs rc re
        | r \<Rightarrow> Inr r)"
| "quantize_numbers (DInf s) (DInf t) = Inr (DInf s)"
| "quantize_numbers x y = Inl invalid_operation"

definition dec_quantize :: "pydec \<Rightarrow> pydec \<Rightarrow> pydec res" where
  "dec_quantize = with_numbers quantize_numbers"

fun dec_normalize :: "pydec \<Rightarrow> pydec res" where
  "dec_normalize (DFin s c e) =
     res_bind (dec_fix s c e) (\<lambda>d. case d of
       DFin s' c' e' \<Rightarrow>
         if c' = 0 then Inr (DFin s' 0 0)
         else (case strip_zeros (nat (dec_emax - e')) c' e' of (c'', e'') \<Rightarrow> Inr (DFin s' c'' e''))
     | _ \<Rightarrow> Inr d)"
| "dec_normalize (DNaN s g) = (if g then Inl invalid_operation else Inr (DNaN s g))"
| "dec_normalize (DInf s) = Inr (DInf s)"

text \<open>The truth value, the constants, \<^verbatim>\<open>max\<close> and \<^verbatim>\<open>min\<close> of two values (the first one wins a tie).\<close>

fun dec_bool :: "pydec \<Rightarrow> bool" where
  "dec_bool (DFin s c e) = (c \<noteq> 0)"
| "dec_bool _ = True"

definition dec_zero :: pydec where "dec_zero = DFin False 0 0"
definition dec_one :: pydec where "dec_one = DFin False 1 0"

definition dec_of_int :: "int \<Rightarrow> pydec" where
  "dec_of_int i = DFin (i < 0) (nat (abs i)) 0"

definition dec_max :: "pydec \<Rightarrow> pydec \<Rightarrow> pydec res" where
  "dec_max x y = res_bind (dec_lt x y) (\<lambda>b. Inr (if b then y else x))"

definition dec_min :: "pydec \<Rightarrow> pydec \<Rightarrow> pydec res" where
  "dec_min x y = res_bind (dec_lt y x) (\<lambda>b. Inr (if b then y else x))"

subsection \<open>Texts\<close>

definition span_digits :: "string \<Rightarrow> string \<times> string" where
  "span_digits s = (takeWhile is_digit s, dropWhile is_digit s)"

definition parse_exponent :: "string \<Rightarrow> int option" where
  "parse_exponent s =
     (let (neg, ds) = (case s of c # r \<Rightarrow> if c = CHR ''-'' then (True, r)
                                         else if c = CHR ''+'' then (False, r) else (False, s)
                       | [] \<Rightarrow> (False, s))
      in if ds \<noteq> [] \<and> list_all is_digit ds
         then Some (if neg then - int (digits_value ds) else int (digits_value ds)) else None)"

definition parse_number :: "bool \<Rightarrow> string \<Rightarrow> pydec option" where
  "parse_number neg s =
     (let (ip, r) = span_digits s;
          (fp, r') = (case r of c # q \<Rightarrow> if c = CHR ''.'' then span_digits q else ([], r) | [] \<Rightarrow> ([], r))
      in if ip = [] \<and> fp = [] then None
         else
           (case (case r' of [] \<Rightarrow> Some 0 | c # q \<Rightarrow> if c = CHR ''e'' then parse_exponent q else None) of
              None \<Rightarrow> None
            | Some ex \<Rightarrow>
                let c = digits_value (ip @ fp); e = ex - int (length fp) in
                if adjusted c e > 999999999999999999 \<or> e < - 1999999999999999997 then None
                else Some (DFin neg c e)))"

text \<open>\<^verbatim>\<open>Decimal(text)\<close>; \<open>None\<close> is the trapped conversion error.\<close>

definition dec_parse :: "string \<Rightarrow> pydec option" where
  "dec_parse text =
     (let s = str_lower (filter (\<lambda>c. c \<noteq> CHR ''_'') (str_strip text));
          (neg, r) = (case s of c # q \<Rightarrow> if c = CHR ''-'' then (True, q)
                                        else if c = CHR ''+'' then (False, q) else (False, s)
                      | [] \<Rightarrow> (False, s))
      in if r = ''inf'' \<or> r = ''infinity'' then Some (DInf neg)
         else if take 3 r = ''nan'' \<and> list_all is_digit (drop 3 r) then Some (DNaN neg False)
         else if take 4 r = ''snan'' \<and> list_all is_digit (drop 4 r) then Some (DNaN neg True)
         else parse_number neg r)"

definition zeros :: "int \<Rightarrow> string" where
  "zeros k = replicate (nat k) (CHR ''0'')"

text \<open>\<^verbatim>\<open>str(value)\<close>\<close>

fun dec_str :: "pydec \<Rightarrow> string" where
  "dec_str (DFin s c e) =
     (let ds = nat_to_str c; n = int (length ds); left = e + n;
          dot = (if e \<le> 0 \<and> left > -6 then left else 1);
          body = (if dot \<le> 0 then ''0.'' @ zeros (- dot) @ ds
                  else if n \<le> dot then ds @ zeros (dot - n)
                  else take (nat dot) ds @ ''.'' @ drop (nat dot) ds);
          ex = (if left = dot then []
                else ''E'' @ (if left - dot < 0 then ''-'' else ''+'') @ int_to_str (abs (left - dot)))
      in (if s then ''-'' else []) @ body @ ex)"
| "dec_str (DInf s) = (if s then ''-'' else []) @ ''Infinity''"
| "dec_str (DNaN s g) = (if s then ''-'' else []) @ (if g then ''sNaN'' else ''NaN'')"

text \<open>\<^verbatim>\<open>format(value, "f")\<close>: positional notation\<close>

fun dec_format_f :: "pydec \<Rightarrow> string" where
  "dec_format_f (DFin s c e) =
     (let ds = nat_to_str c; n = int (length ds); left = e + n
      in (if s then ''-'' else []) @
         (if 0 \<le> e then (if c = 0 then ''0'' else ds @ zeros e)
          else if left \<le> 0 then ''0.'' @ zeros (- left) @ ds
          else take (nat left) ds @ ''.'' @ drop (nat left) ds))"
| "dec_format_f d = dec_str d"

end
