(* ===== verification/Payloads.thy ===== *)
theory Payloads
  imports Decimal
begin

text \<open>
  The parsers with which \<^verbatim>\<open>projections/state.py\<close> and \<^verbatim>\<open>risk/gate.py\<close> read event payloads: each takes
  the JSON value \<^verbatim>\<open>payload.get(key)\<close> (\<open>JNull\<close> when absent) and gives the value of the wanted type or
  \<open>None\<close>. A Python \<^verbatim>\<open>float\<close> result is the binary64 number, a rational, without the sign of zero.
\<close>

subsection \<open>Dictionaries, lists, strings\<close>

definition payload_dict :: "json \<Rightarrow> payload" where
  "payload_dict j = (case j of JObj kvs \<Rightarrow> kvs | _ \<Rightarrow> [])"

fun objects :: "json list \<Rightarrow> payload list option" where
  "objects [] = Some []"
| "objects (j # js) =
     (case j of JObj kvs \<Rightarrow> map_option ((#) kvs) (objects js) | _ \<Rightarrow> None)"

definition payload_dict_tuple :: "json \<Rightarrow> payload list option" where
  "payload_dict_tuple j = (case j of JList js \<Rightarrow> objects js | _ \<Rightarrow> None)"

text \<open>\<^verbatim>\<open>_events\<close> and \<^verbatim>\<open>_updates\<close>: the same tuple, empty when the value is not a list of objects\<close>

definition payload_dicts :: "json \<Rightarrow> payload list" where
  "payload_dicts j = (case payload_dict_tuple j of None \<Rightarrow> [] | Some ps \<Rightarrow> ps)"

definition string_or_none :: "json \<Rightarrow> string option" where
  "string_or_none j = (case j of JStr s \<Rightarrow> if s = [] then None else Some s | _ \<Rightarrow> None)"

text \<open>Iterating over a dictionary gives its keys.\<close>

definition string_tuple :: "json \<Rightarrow> string list" where
  "string_tuple j =
     (case j of JList js \<Rightarrow> List.map_filter string_or_none js
      | JObj kvs \<Rightarrow> filter (\<lambda>k. k \<noteq> []) (dict_keys kvs)
      | _ \<Rightarrow> [])"

fun first_string :: "payload \<Rightarrow> string list \<Rightarrow> string option" where
  "first_string p [] = None"
| "first_string p (k # ks) =
     (case string_or_none (jget p k) of Some s \<Rightarrow> Some s | None \<Rightarrow> first_string p ks)"

definition bool_or_none :: "json \<Rightarrow> bool option" where
  "bool_or_none j = (case j of JBool b \<Rightarrow> Some b | _ \<Rightarrow> None)"

definition first_bool :: "json \<Rightarrow> json \<Rightarrow> bool option" where
  "first_bool a b = or_else (bool_or_none a) (bool_or_none b)"

text \<open>The parsers of the enumerations: \<^verbatim>\<open>E(value)\<close>, \<open>None\<close> when it raises.\<close>

definition enum_or_none :: "(string \<Rightarrow> 'e option) \<Rightarrow> json \<Rightarrow> 'e option" where
  "enum_or_none of_text j = (case j of JStr s \<Rightarrow> of_text s | _ \<Rightarrow> None)"

subsection \<open>Numbers\<close>

text \<open>Underscores stand between two digits.\<close>

fun underscores_ok :: "char \<Rightarrow> string \<Rightarrow> bool" where
  "underscores_ok prev [] = (prev \<noteq> CHR ''_'')"
| "underscores_ok prev (c # cs) =
     ((c = CHR ''_'' \<longrightarrow> is_digit prev) \<and> (prev = CHR ''_'' \<longrightarrow> is_digit c) \<and> underscores_ok c cs)"

definition split_sign :: "string \<Rightarrow> bool \<times> string" where
  "split_sign s =
     (case s of [] \<Rightarrow> (False, [])
      | c # r \<Rightarrow> if c = CHR ''-'' then (True, r) else if c = CHR ''+'' then (False, r) else (False, s))"

text \<open>\<^verbatim>\<open>int(text)\<close>, with the interpreter's limit of 4300 digits\<close>

definition parse_int :: "string \<Rightarrow> int option" where
  "parse_int text =
     (let (neg, r) = split_sign (str_strip text); ds = filter (\<lambda>c. c \<noteq> CHR ''_'') r
      in if ds \<noteq> [] \<and> list_all is_digit ds \<and> underscores_ok (CHR '' '') r \<and> length ds \<le> 4300
         then Some (if neg then - int (digits_value ds) else int (digits_value ds)) else None)"

fun bit_size :: "nat \<Rightarrow> nat" where
  "bit_size n = (if n = 0 then 0 else Suc (bit_size (n div 2)))"

declare bit_size.simps [simp del]

datatype pyreal = RFin rat | RInf bool | RNaN

text \<open>
  The nearest binary64 number of \<open>n / d\<close>, ties to even: 53 bits, exponents from -1074, infinite
  from \<open>2\<^sup>1\<^sup>0\<^sup>2\<^sup>4\<close> on.
\<close>

definition binary64 :: "bool \<Rightarrow> nat \<Rightarrow> nat \<Rightarrow> pyreal" where
  "binary64 neg n d =
     (let b = int (bit_size n) - int (bit_size d);
          lower = (if n * 2 ^ nat (- b) < d * 2 ^ nat b then b - 1 else b);
          e = max (lower - 52) (- 1074);
          m = div_half_even (n * 2 ^ nat (- e)) (d * 2 ^ nat e)
      in if n = 0 then RFin 0
         else if int (bit_size m) + e > 1024 then RInf neg
         else RFin ((if neg then - of_nat m else of_nat m) * power_int 2 e))"

definition scaled :: "nat \<Rightarrow> int \<Rightarrow> nat \<times> nat" where
  "scaled c e = (c * 10 ^ nat e, 10 ^ nat (- e))"

definition float_value :: "pyfloat \<Rightarrow> pyreal" where
  "float_value f = (case scaled (float_digits f) (float_exp f) of (n, d) \<Rightarrow> binary64 (float_neg f) n d)"

text \<open>\<^verbatim>\<open>float(text)\<close>\<close>

definition parse_float :: "string \<Rightarrow> pyreal option" where
  "parse_float text =
     (let (neg, r) = split_sign (str_lower (str_strip text))
      in if r = ''inf'' \<or> r = ''infinity'' then Some (RInf neg)
         else if r = ''nan'' then Some RNaN
         else if \<not> underscores_ok (CHR '' '') r then None
         else (case parse_number neg (filter (\<lambda>c. c \<noteq> CHR ''_'') r) of
                 Some (DFin s c e) \<Rightarrow> (case scaled c e of (n, d) \<Rightarrow> Some (binary64 s n d))
               | _ \<Rightarrow> None))"

definition overflow_error :: pyexc where
  "overflow_error = PyExc ''OverflowError'' ''int too large to convert to float'' None"

text \<open>\<^verbatim>\<open>int(value)\<close> of a finite float drops the fraction of the binary64 number.\<close>

definition truncate :: "pyreal \<Rightarrow> int" where
  "truncate x = (case x of RFin q \<Rightarrow> if q < 0 then - floor (- q) else floor q | _ \<Rightarrow> 0)"

definition int_or_none :: "json \<Rightarrow> int option" where
  "int_or_none j =
     (case j of JInt i \<Rightarrow> Some i
      | JFloat f \<Rightarrow> Some (truncate (float_value f))
      | JStr s \<Rightarrow> parse_int s
      | _ \<Rightarrow> None)"

text \<open>\<^verbatim>\<open>_int_or_none(a) or b\<close>: zero counts as absent\<close>

definition int_or :: "int option \<Rightarrow> int option \<Rightarrow> int option" where
  "int_or a b = (case a of Some i \<Rightarrow> if i = 0 then b else Some i | None \<Rightarrow> b)"

definition int_or_zero :: "json \<Rightarrow> int" where
  "int_or_zero j = (case int_or_none j of Some i \<Rightarrow> if 0 \<le> i then i else 0 | None \<Rightarrow> 0)"

definition first_int :: "payload \<Rightarrow> payload \<Rightarrow> string \<Rightarrow> int option" where
  "first_int p q k =
     (case int_or_none (jget p k) of Some i \<Rightarrow> Some i | None \<Rightarrow> int_or_none (jget q k))"

text \<open>\<^verbatim>\<open>float(value)\<close> of a too large integer raises \<^verbatim>\<open>OverflowError\<close>, which is not caught.\<close>

definition float_or_none :: "json \<Rightarrow> pyreal option res" where
  "float_or_none j =
     (case j of JInt i \<Rightarrow>
        (case binary64 (i < 0) (nat (abs i)) 1 of RInf s \<Rightarrow> Inl overflow_error | x \<Rightarrow> Inr (Some x))
      | JFloat f \<Rightarrow> Inr (Some (float_value f))
      | JStr s \<Rightarrow> Inr (parse_float s)
      | _ \<Rightarrow> Inr None)"

text \<open>
  \<^verbatim>\<open>_decimal_or_none\<close> on the optional strings it is applied to; the text of \<^verbatim>\<open>None\<close> is no number.
\<close>

definition decimal_or_none :: "string option \<Rightarrow> pydec option" where
  "decimal_or_none s = Option.bind s dec_parse"

definition decimal_or_zero :: "string option \<Rightarrow> pydec" where
  "decimal_or_zero s =
     (case decimal_or_none s of Some d \<Rightarrow> if dec_bool d then d else dec_zero | None \<Rightarrow> dec_zero)"

definition decimal_string :: "pydec \<Rightarrow> string res" where
  "decimal_string d = res_bind (dec_normalize d) (\<lambda>n. Inr (dec_format_f n))"

definition order_book_side_or_none :: "json \<Rightarrow> order_book_side option" where
  "order_book_side_or_none j =
     (case j of JStr s \<Rightarrow>
        (let n = str_lower s in
         if n = ''bid'' \<or> n = ''buy'' then Some OBS_BID
         else if n = ''ask'' \<or> n = ''offer'' \<or> n = ''sell'' then Some OBS_ASK else None)
      | _ \<Rightarrow> None)"

definition coinbase_order_side_or_none :: "json \<Rightarrow> order_side option" where
  "coinbase_order_side_or_none j = (case j of JStr s \<Rightarrow> order_side_of (str_lower s) | _ \<Rightarrow> None)"

definition coinbase_order_type_or_none :: "json \<Rightarrow> order_type option" where
  "coinbase_order_type_or_none j =
     (case j of JStr s \<Rightarrow> if s = ''LIMIT'' then Some OT_LIMIT
                          else if s = ''MARKET'' then Some OT_MARKET else None
      | _ \<Rightarrow> None)"

lemma string_or_none_Some: "string_or_none j = Some s \<longleftrightarrow> j = JStr s \<and> s \<noteq> []"
  by (auto simp: string_or_none_def split: json.splits)

lemma enum_or_none_value:
  "enum_or_none of_text (JStr s) = of_text s" "enum_or_none of_text JNull = None"
  by (simp_all add: enum_or_none_def)

text \<open>What every step of a loop keeps, the loop keeps when it ends.\<close>

lemma res_fold_keeps:
  assumes "\<And>x s s'. f x s = Inr s' \<Longrightarrow> P s \<Longrightarrow> P s'" and "res_fold f xs s = Inr s'" and "P s"
  shows "P s'"
  using res_fold_invariant [where f = f and P = P and xs = xs and s = s and s' = s'] assms by blast

end
