(* ===== verification/Snapshots.thy ===== *)
theory Snapshots
  imports Payloads Ledger
begin

text \<open>
  The state of \<^verbatim>\<open>projections/state.py\<close>: one record per snapshot class, the fields in the order of the
  class and with its name as a prefix, and the record \<open>projection\<close> for
  \<^verbatim>\<open>SourceOfTruthProjection\<close>. Order snapshots are shared and updated in place through three
  dictionaries, so they live in the list \<open>pj_orders\<close> and the dictionaries hold indices into it; the
  strategy evaluations are shared the same way between their list and their dictionary. All other
  snapshots are replaced or reached through one dictionary only.
\<close>

subsection \<open>Snapshots\<close>

record action_snapshot =
  act_action_id :: string
  act_status :: action_status
  act_requested_sequence :: "int option"
  act_accepted_sequence :: "int option"
  act_execution_started_sequence :: "int option"
  act_failed_sequence :: "int option"
  act_failure_reason :: "action_failure_reason option"
  act_rejected_sequence :: "int option"
  act_executed_sequence :: "int option"
  act_last_payload :: payload

record data_message_snapshot =
  msg_message_key :: string
  msg_source_id :: "string option"
  msg_message_event_type :: "event_type option"
  msg_received_sequences :: "int list"
  msg_accepted_sequence :: "int option"
  msg_duplicate_sequences :: "int list"

record market_ticker_snapshot =
  tkr_product_id :: string
  tkr_sequence :: int
  tkr_message_key :: string
  tkr_source_id :: "string option"
  tkr_ask_price :: "string option"
  tkr_ask_size :: "string option"
  tkr_bid_price :: "string option"
  tkr_bid_size :: "string option"
  tkr_exchange_sequence :: "int option"
  tkr_last_price :: "string option"
  tkr_observed_at :: "datetime option"
  tkr_payload :: payload
  tkr_timestamp :: "string option"

record market_order_book_snapshot =
  book_product_id :: string
  book_sequence :: int
  book_message_key :: string
  book_source_id :: "string option"
  book_ask_levels :: "(string, string) dict"
  book_best_ask_price :: "string option"
  book_best_ask_size :: "string option"
  book_best_bid_price :: "string option"
  book_best_bid_size :: "string option"
  book_bid_levels :: "(string, string) dict"
  book_exchange_sequence :: "int option"
  book_observed_at :: "datetime option"
  book_payload :: payload
  book_timestamp :: "string option"
  book_update_count :: int

record market_trade_snapshot =
  trade_trade_id :: string
  trade_product_id :: string
  trade_sequence :: int
  trade_message_key :: string
  trade_source_id :: "string option"
  trade_exchange_sequence :: "int option"
  trade_observed_at :: "datetime option"
  trade_payload :: payload
  trade_price :: "string option"
  trade_side :: "order_side option"
  trade_size :: "string option"
  trade_trade_time :: "string option"

record feed_source_snapshot =
  src_source_id :: string
  src_status :: feed_status
  src_last_seen :: "string option"
  src_connected_count :: int
  src_disconnected_count :: int
  src_last_disconnect_reason :: "string option"
  src_last_reconnect_attempt :: "int option"
  src_last_reconnect_delay_seconds :: "pyreal option"
  src_last_reconnect_scheduled_sequence :: "int option"
  src_reconnect_scheduled_count :: int

record feed_degradation_snapshot =
  deg_sequence :: int
  deg_connected_sources :: "string list"
  deg_disconnected_sources :: "string list"
  deg_live_count :: "int option"
  deg_min_live_sources :: "int option"
  deg_payload :: payload
  deg_stale_sources :: "string list"

record order_snapshot =
  ord_action_id :: string
  ord_lifecycle_status :: order_lifecycle_status
  ord_requested_sequence :: "int option"
  ord_accepted_sequence :: "int option"
  ord_execution_started_sequence :: "int option"
  ord_executed_sequence :: "int option"
  ord_terminal_sequence :: "int option"
  ord_product_id :: "string option"
  ord_side :: "order_side option"
  ord_order_type :: "order_type option"
  ord_size :: "string option"
  ord_limit_price :: "string option"
  ord_leverage :: "string option"
  ord_margin_type :: "margin_type option"
  ord_post_only :: "bool option"
  ord_reduce_only :: "bool option"
  ord_time_in_force :: "time_in_force option"
  ord_client_order_id :: "string option"
  ord_exchange_order_id :: "string option"
  ord_execution_mode :: "execution_mode option"
  ord_execution_status :: "execution_status option"
  ord_exchange_status :: "exchange_order_status option"
  ord_cancel_action_ids :: "string list"
  ord_average_fill_price :: "string option"
  ord_fill_ids :: "string list"
  ord_filled_size :: string
  ord_last_execution_result :: payload
  ord_last_exchange_update :: payload
  ord_total_fees :: string

record logical_order_snapshot =
  lo_logical_order_id :: string
  lo_root_order_id :: string
  lo_lineage_relation :: order_lineage_relation
  lo_product_id :: string
  lo_side :: order_side
  lo_size :: string
  lo_sequence :: int
  lo_child_order_ids :: "string list"
  lo_created_by_action_id :: "string option"
  lo_limit_price :: "string option"
  lo_parent_order_id :: "string option"
  lo_placement_ids :: "string list"
  lo_payload :: payload
  lo_source_order_ids :: "string list"

record order_placement_snapshot =
  plc_placement_id :: string
  plc_logical_order_id :: string
  plc_placement_kind :: order_placement_kind
  plc_placement_status :: order_placement_status
  plc_product_id :: string
  plc_side :: order_side
  plc_size :: string
  plc_sequence :: int
  plc_action_id :: "string option"
  plc_exchange_order_id :: "string option"
  plc_limit_price :: "string option"
  plc_payload :: payload
  plc_release_of_action_id :: "string option"
  plc_release_of_placement_id :: "string option"
  plc_venue_client_order_id :: "string option"

record passive_market_making_quote_snapshot =
  quote_placement_id :: string
  quote_logical_order_id :: string
  quote_product_id :: string
  quote_side :: order_side
  quote_size :: string
  quote_sequence :: int
  quote_action_id :: "string option"
  quote_ask_price :: "string option"
  quote_bid_price :: "string option"
  quote_half_spread_bps :: "string option"
  quote_limit_price :: "string option"
  quote_midpoint :: "string option"
  quote_released :: bool
  quote_release_placement_id :: "string option"

record fill_snapshot =
  fill_fill_id :: string
  fill_sequence :: int
  fill_order_id :: "string option"
  fill_trade_id :: "string option"
  fill_product_id :: "string option"
  fill_side :: "order_side option"
  fill_price :: "string option"
  fill_size :: "string option"
  fill_commission :: "string option"
  fill_trade_time :: "string option"
  fill_payload :: payload

record position_snapshot =
  pos_product_id :: string
  pos_net_size :: string
  pos_gross_buy_size :: string
  pos_gross_sell_size :: string
  pos_gross_buy_notional :: string
  pos_gross_sell_notional :: string
  pos_total_fees :: string
  pos_fill_count :: int

record exchange_balance_snapshot =
  bal_account_id :: string
  bal_currency :: "string option"
  bal_sequence :: int
  bal_available :: "string option"
  bal_hold :: "string option"
  bal_venue :: "product_venue option"
  bal_payload :: payload

record exchange_position_snapshot =
  xpos_product_id :: string
  xpos_venue :: product_venue
  xpos_sequence :: int
  xpos_net_size :: "string option"
  xpos_side :: "string option"
  xpos_average_entry_price :: "string option"
  xpos_current_price :: "string option"
  xpos_payload :: payload

record exchange_product_snapshot =
  xprod_product_id :: string
  xprod_product_type :: product_type
  xprod_product_venue :: product_venue
  xprod_sequence :: int
  xprod_cancel_only :: "bool option"
  xprod_is_disabled :: "bool option"
  xprod_limit_only :: "bool option"
  xprod_payload :: payload
  xprod_post_only :: "bool option"
  xprod_trading_disabled :: "bool option"
  xprod_tradable_for_new_orders :: "bool option"
  xprod_view_only :: "bool option"

record exchange_request_retry_snapshot =
  retry_sequence :: int
  retry_method :: http_method
  retry_attempt :: int
  retry_next_attempt :: int
  retry_max_attempts :: int
  retry_delay_seconds :: pyreal
  retry_error_category :: "error_category option"
  retry_error_code :: "string option"
  retry_payload :: payload
  retry_status_code :: "int option"
  retry_url :: "string option"

record error_snapshot =
  err_sequence :: int
  err_category :: "error_category option"
  err_code :: "error_code option"
  err_exception_type :: "string option"
  err_message :: "string option"
  err_payload :: payload
  err_retryable :: "bool option"

record reconciliation_mismatch_snapshot =
  mis_action_id :: string
  mis_reason :: reconciliation_issue
  mis_sequence :: int
  mis_payload :: payload

record reconciliation_recovery_snapshot =
  recv_action_id :: string
  recv_reason :: reconciliation_issue
  recv_lookup_status :: exchange_lookup_status
  recv_sequence :: int
  recv_payload :: payload

record reconciliation_drift_snapshot =
  drift_drift_key :: string
  drift_issue :: reconciliation_issue
  drift_product_id :: string
  drift_sequence :: int
  drift_venue :: "product_venue option"
  drift_payload :: payload

record runtime_task_snapshot =
  task_task_id :: runtime_task
  task_completed_count :: int
  task_last_completed_sequence :: "int option"
  task_last_error_sequence :: "int option"
  task_last_result :: json
  task_last_started_sequence :: "int option"
  task_started_count :: int

record system_start_snapshot =
  start_sequence :: int
  start_component :: "runtime_component option"
  start_startup_metadata :: payload
  start_payload :: payload

record system_stop_snapshot =
  stop_sequence :: int
  stop_component :: "runtime_component option"
  stop_completed_cycles :: "int option"
  stop_payload :: payload
  stop_reason :: "runtime_stop_reason option"
  stop_stopped_at :: "string option"

record trigger_snapshot =
  trig_sequence :: int
  trig_trigger_id :: string
  trig_matched_event_type :: "event_type option"
  trig_matched_sequence :: "int option"
  trig_payload :: payload
  trig_relation :: "trigger_relation option"
  trig_target_time :: "string option"

record strategy_evaluation_snapshot =
  seval_strategy_id :: string
  seval_status :: strategy_evaluation_status
  seval_started_sequence :: int
  seval_action_ids :: "string list"
  seval_as_of_sequence :: "int option"
  seval_closed_sequence :: "int option"
  seval_error_sequence :: "int option"
  seval_intent_count :: int
  seval_payload :: payload
  seval_submitted_action_count :: int

record ledger_anchor_snapshot =
  anchor_sequence :: int
  anchor_artifact_uri :: string
  anchor_checkpoint_hash :: string
  anchor_checkpoint_through_sequence :: int
  anchor_immutability_mode :: "anchor_immutability_mode option"
  anchor_payload :: payload
  anchor_retention_until :: "string option"
  anchor_store_metadata :: payload
  anchor_store_type :: "anchor_store_type option"
  anchor_version_id :: "string option"

record ledger_archive_snapshot =
  arch_sequence :: int
  arch_artifact_uri :: string
  arch_record_count :: int
  arch_through_hash :: string
  arch_through_sequence :: int
  arch_immutability_mode :: "anchor_immutability_mode option"
  arch_payload :: payload
  arch_retention_until :: "string option"
  arch_store_metadata :: payload
  arch_store_type :: "anchor_store_type option"
  arch_version_id :: "string option"

record ledger_checkpoint_snapshot =
  chk_sequence :: int
  chk_checkpoint_hash :: string
  chk_created_at :: "string option"
  chk_digest_algorithm :: "digest_algorithm option"
  chk_ledger_path :: "string option"
  chk_payload :: payload
  chk_record_count :: "int option"
  chk_records_digest :: "string option"
  chk_through_hash :: "string option"
  chk_through_sequence :: "int option"

record live_preflight_result_snapshot =
  lpf_sequence :: int
  lpf_status :: "readiness_status option"
  lpf_completed_step_names :: "string list"
  lpf_config_fingerprint :: "string option"
  lpf_payload :: payload

record operator_canary_evidence_result_snapshot =
  canary_sequence :: int
  canary_status :: "readiness_status option"
  canary_action_id :: "string option"
  canary_exchange_order_id :: "string option"
  canary_issue_count :: int
  canary_issue_names :: "string list"
  canary_payload :: payload
  canary_product_id :: "string option"

record runtime_health_check_result_snapshot =
  rhc_sequence :: int
  rhc_checked_health_status :: "ledger_health_status option"
  rhc_checked_through_sequence :: "int option"
  rhc_attention_check_count :: "int option"
  rhc_attention_checks :: "string list"
  rhc_payload :: payload
  rhc_record_count :: "int option"

record strategy_simulation_result_snapshot =
  sim_sequence :: int
  sim_status :: "strategy_simulation_status option"
  sim_accepted_action_count :: int
  sim_config_fingerprint :: "string option"
  sim_failed_count :: int
  sim_rejected_action_count :: int
  sim_strategy_ids :: "string list"
  sim_payload :: payload

record ledger_health_acknowledgement_snapshot =
  ack_sequence :: int
  ack_acknowledged_by :: "string option"
  ack_acknowledged_health_status :: "ledger_health_status option"
  ack_acknowledged_through_hash :: "string option"
  ack_acknowledged_through_sequence :: "int option"
  ack_attention_check_count :: "int option"
  ack_ledger_health_attention_digest :: "string option"
  ack_payload :: payload
  ack_reason :: "string option"

record market_data_context =
  mdc_sequence :: int
  mdc_message_key :: string
  mdc_source_id :: "string option"
  mdc_exchange_sequence :: "int option"
  mdc_observed_at :: datetime
  mdc_timestamp :: "string option"

subsection \<open>The projection\<close>

record projection =
  pj_actions :: "(string, action_snapshot) dict"
  pj_audit_anchors :: "ledger_anchor_snapshot list"
  pj_audit_archives :: "ledger_archive_snapshot list"
  pj_audit_checkpoints :: "ledger_checkpoint_snapshot list"
  pj_live_preflight_results :: "live_preflight_result_snapshot list"
  pj_ledger_health_acknowledgements :: "ledger_health_acknowledgement_snapshot list"
  pj_operator_canary_evidence_results :: "operator_canary_evidence_result_snapshot list"
  pj_runtime_health_check_results :: "runtime_health_check_result_snapshot list"
  pj_strategy_simulation_results :: "strategy_simulation_result_snapshot list"
  pj_data_messages :: "(string, data_message_snapshot) dict"
  pj_feed_degradations :: "feed_degradation_snapshot list"
  pj_feed_sources :: "(string, feed_source_snapshot) dict"
  pj_latest_tickers_by_product_id :: "(string, market_ticker_snapshot) dict"
  pj_order_books_by_product_id :: "(string, market_order_book_snapshot) dict"
  pj_order_book_samples_by_product_id :: "(string, market_order_book_snapshot list) dict"
  pj_order_book_sample_retention_dropped_by_product_id :: "(string, int) dict"
  pj_order_book_sample_scope_skipped_by_product_id :: "(string, int) dict"
  pj_max_order_book_sample_depth_per_side :: "int option"
  pj_max_order_book_samples_per_product :: "int"
  pj_order_book_sample_product_ids :: "string list"
  pj_market_trades_by_id :: "(string, market_trade_snapshot) dict"
  pj_market_trade_ids_by_product_id :: "(string, string list) dict"
  pj_market_trade_retention_dropped_by_product_id :: "(string, int) dict"
  pj_max_market_trades_per_product :: "int option"
  pj_orders :: "order_snapshot list"
  pj_orders_by_action_id :: "(string, nat) dict"
  pj_orders_by_client_order_id :: "(string, nat) dict"
  pj_orders_by_exchange_order_id :: "(string, nat) dict"
  pj_logical_order_id_by_action_id :: "(string, string) dict"
  pj_logical_orders_by_id :: "(string, logical_order_snapshot) dict"
  pj_placement_ids_by_action_id :: "(string, string list) dict"
  pj_placements_by_id :: "(string, order_placement_snapshot) dict"
  pj_placements_by_logical_order_id :: "(string, order_placement_snapshot list) dict"
  pj_release_placement_id_by_staged_placement_id :: "(string, string) dict"
  pj_fills_by_id :: "(string, fill_snapshot) dict"
  pj_fills_by_order_id :: "(string, fill_snapshot list) dict"
  pj_positions_by_product_id :: "(string, position_snapshot) dict"
  pj_exchange_balances_by_account_id :: "(string, exchange_balance_snapshot) dict"
  pj_exchange_positions_by_venue_product :: "(product_venue \<times> string, exchange_position_snapshot) dict"
  pj_exchange_products_by_product_id :: "(string, exchange_product_snapshot) dict"
  pj_exchange_product_snapshot_sequences :: "int list"
  pj_exchange_request_retries :: "exchange_request_retry_snapshot list"
  pj_errors :: "error_snapshot list"
  pj_reconciliation_drifts :: "(string, reconciliation_drift_snapshot) dict"
  pj_reconciliation_mismatches :: "(string \<times> reconciliation_issue, reconciliation_mismatch_snapshot) dict"
  pj_reconciliation_recoveries :: "(string \<times> reconciliation_issue, reconciliation_recovery_snapshot) dict"
  pj_runtime_tasks :: "(runtime_task, runtime_task_snapshot) dict"
  pj_strategy_evaluations :: "strategy_evaluation_snapshot list"
  pj_strategy_evaluations_by_started_sequence :: "(int, nat) dict"
  pj_system_starts :: "system_start_snapshot list"
  pj_system_stops :: "system_stop_snapshot list"
  pj_trigger_firings :: "trigger_snapshot list"
  pj_record_occurred_at_by_sequence :: "(int, datetime) dict"
  pj_received_data_payloads_by_sequence :: "(int, payload) dict"
  pj_error_sequences :: "int list"
  pj_feed_degraded_sequences :: "int list"
  pj_trigger_sequences :: "int list"
  pj_sequence_gap_sequences :: "int list"
  pj_out_of_order_sequences :: "int list"
  pj_last_sequence :: "int"
  pj_last_record_hash :: "string option"

definition empty_projection :: "int option \<Rightarrow> int option \<Rightarrow> int \<Rightarrow> string list \<Rightarrow> projection" where
  "empty_projection max_trades max_depth max_samples scope =
     \<lparr>pj_actions = [], pj_audit_anchors = [], pj_audit_archives = [],
      pj_audit_checkpoints = [], pj_live_preflight_results = [],
      pj_ledger_health_acknowledgements = [], pj_operator_canary_evidence_results = [],
      pj_runtime_health_check_results = [], pj_strategy_simulation_results = [],
      pj_data_messages = [], pj_feed_degradations = [], pj_feed_sources = [],
      pj_latest_tickers_by_product_id = [], pj_order_books_by_product_id = [],
      pj_order_book_samples_by_product_id = [],
      pj_order_book_sample_retention_dropped_by_product_id = [],
      pj_order_book_sample_scope_skipped_by_product_id = [],
      pj_max_order_book_sample_depth_per_side = max_depth,
      pj_max_order_book_samples_per_product = max_samples,
      pj_order_book_sample_product_ids = scope, pj_market_trades_by_id = [],
      pj_market_trade_ids_by_product_id = [],
      pj_market_trade_retention_dropped_by_product_id = [],
      pj_max_market_trades_per_product = max_trades, pj_orders = [],
      pj_orders_by_action_id = [], pj_orders_by_client_order_id = [],
      pj_orders_by_exchange_order_id = [], pj_logical_order_id_by_action_id = [],
      pj_logical_orders_by_id = [], pj_placement_ids_by_action_id = [],
      pj_placements_by_id = [], pj_placements_by_logical_order_id = [],
      pj_release_placement_id_by_staged_placement_id = [], pj_fills_by_id = [],
      pj_fills_by_order_id = [], pj_positions_by_product_id = [],
      pj_exchange_balances_by_account_id = [], pj_exchange_positions_by_venue_product = [],
      pj_exchange_products_by_product_id = [], pj_exchange_product_snapshot_sequences = [],
      pj_exchange_request_retries = [], pj_errors = [], pj_reconciliation_drifts = [],
      pj_reconciliation_mismatches = [], pj_reconciliation_recoveries = [],
      pj_runtime_tasks = [], pj_strategy_evaluations = [],
      pj_strategy_evaluations_by_started_sequence = [], pj_system_starts = [],
      pj_system_stops = [], pj_trigger_firings = [], pj_record_occurred_at_by_sequence = [],
      pj_received_data_payloads_by_sequence = [], pj_error_sequences = [],
      pj_feed_degraded_sequences = [], pj_trigger_sequences = [],
      pj_sequence_gap_sequences = [], pj_out_of_order_sequences = [], pj_last_sequence = 0,
      pj_last_record_hash = None\<rparr>"

definition validate_positive_int :: "int \<Rightarrow> string \<Rightarrow> unit res" where
  "validate_positive_int value name =
     (if value \<le> 0 then Inl (value_error (name @ '' must be positive'')) else Inr ())"

definition validate_optional_positive_int :: "int option \<Rightarrow> string \<Rightarrow> unit res" where
  "validate_optional_positive_int value name =
     (case value of None \<Rightarrow> Inr () | Some n \<Rightarrow> validate_positive_int n name)"

definition validate_string_scope :: "string list \<Rightarrow> string \<Rightarrow> unit res" where
  "validate_string_scope value name =
     (if [] \<in> set value then Inl (type_error (name @ '' must contain non-empty strings''))
      else if \<not> distinct value then Inl (value_error (name @ '' must be unique''))
      else Inr ())"

definition init_projection ::
  "int option \<Rightarrow> int option \<Rightarrow> int \<Rightarrow> string list \<Rightarrow> projection res" where
  "init_projection max_trades max_depth max_samples scope =
     res_bind (validate_optional_positive_int max_trades ''max_market_trades_per_product'') (\<lambda>_.
     res_bind (validate_optional_positive_int max_depth ''max_order_book_sample_depth_per_side'') (\<lambda>_.
     res_bind (validate_positive_int max_samples ''max_order_book_samples_per_product'') (\<lambda>_.
     res_bind (validate_string_scope scope ''order_book_sample_product_ids'') (\<lambda>_.
     Inr (empty_projection max_trades max_depth max_samples scope)))))"

definition error_sequence :: "audit_record \<Rightarrow> projection \<Rightarrow> projection" where
  "error_sequence r pj = pj\<lparr>pj_error_sequences := pj_error_sequences pj @ [rec_sequence r]\<rparr>"

end
