(* ===== verification/Market.thy ===== *)
theory Market
  imports Snapshots
begin

text \<open>
  The market data of \<^verbatim>\<open>projections/state.py\<close>: tickers, order books with their retained samples and
  trades with their retention. A book whose prices cannot be compared makes the update raise, so the
  operations return a result or an exception.
\<close>

subsection \<open>Payloads of a feed message\<close>

record market_data_context =
  mdc_sequence :: int
  mdc_message_key :: string
  mdc_source_id :: "string option"
  mdc_exchange_sequence :: "int option"
  mdc_observed_at :: datetime
  mdc_timestamp :: "string option"

definition ticker_payloads :: "payload \<Rightarrow> payload list" where
  "ticker_payloads raw =
     concat (map (\<lambda>event. case payload_dict_tuple (jget event ''tickers'') of
                    Some ts \<Rightarrow> ts
                  | None \<Rightarrow> if string_or_none (jget event ''product_id'') \<noteq> None then [event] else [])
               (payload_dicts (jget raw ''events'')))"

definition trade_payloads :: "payload \<Rightarrow> payload list" where
  "trade_payloads raw =
     concat (map (\<lambda>event. payload_dicts (jget event ''trades'')) (payload_dicts (jget raw ''events'')))"

subsection \<open>Order book levels\<close>

definition is_zero_quantity :: "string \<Rightarrow> bool res" where
  "is_zero_quantity q =
     (case decimal_or_none (Some q) of None \<Rightarrow> Inr False | Some d \<Rightarrow> dec_eq d dec_zero)"

definition parsed_prices :: "(string, string) dict \<Rightarrow> (string \<times> pydec) list" where
  "parsed_prices levels =
     List.map_filter (\<lambda>p. map_option (Pair p) (decimal_or_none (Some p))) (dict_keys levels)"

text \<open>
  \<^verbatim>\<open>max(..., key)\<close> and \<^verbatim>\<open>min(..., key)\<close>: the first of the best ones; a comparison with a NaN raises.
\<close>

definition better :: "order_book_side \<Rightarrow> pydec \<Rightarrow> pydec \<Rightarrow> bool res" where
  "better side x y = (case side of OBS_BID \<Rightarrow> dec_lt y x | OBS_ASK \<Rightarrow> dec_lt x y)"

definition keep_better ::
  "order_book_side \<Rightarrow> string \<times> pydec \<Rightarrow> string \<times> pydec \<Rightarrow> (string \<times> pydec) res" where
  "keep_better side x best = res_bind (better side (snd x) (snd best)) (\<lambda>b. Inr (if b then x else best))"

definition best_price :: "order_book_side \<Rightarrow> (string, string) dict \<Rightarrow> string option res" where
  "best_price side levels =
     (case parsed_prices levels of
        [] \<Rightarrow> Inr None
      | x # xs \<Rightarrow> res_bind (res_fold (keep_better side) xs x) (\<lambda>best. Inr (Some (fst best))))"

definition level_size :: "(string, string) dict \<Rightarrow> string option \<Rightarrow> string option" where
  "level_size levels price = Option.bind price (dict_get levels)"

definition sync_order_book_top :: "market_order_book_snapshot \<Rightarrow> market_order_book_snapshot res" where
  "sync_order_book_top b =
     res_bind (best_price OBS_BID (book_bid_levels b)) (\<lambda>bid.
     res_bind (best_price OBS_ASK (book_ask_levels b)) (\<lambda>ask.
     Inr (b\<lparr>book_best_bid_price := bid, book_best_bid_size := level_size (book_bid_levels b) bid,
            book_best_ask_price := ask, book_best_ask_size := level_size (book_ask_levels b) ask\<rparr>)))"

definition update_order_book_level ::
  "order_book_side \<Rightarrow> string \<Rightarrow> string \<Rightarrow> market_order_book_snapshot \<Rightarrow> market_order_book_snapshot res" where
  "update_order_book_level side price quantity b =
     res_bind (is_zero_quantity quantity) (\<lambda>zero.
     let change = (\<lambda>levels. if zero then dict_pop price levels else dict_set price quantity levels)
     in sync_order_book_top
          (case side of OBS_BID \<Rightarrow> b\<lparr>book_bid_levels := change (book_bid_levels b)\<rparr>
                      | OBS_ASK \<Rightarrow> b\<lparr>book_ask_levels := change (book_ask_levels b)\<rparr>))"

definition reset_order_book_levels :: "market_order_book_snapshot \<Rightarrow> market_order_book_snapshot res" where
  "reset_order_book_levels b = sync_order_book_top (b\<lparr>book_ask_levels := [], book_bid_levels := []\<rparr>)"

text \<open>
  \<^verbatim>\<open>sorted(..., key=price, reverse=side == BID)\<close>: stable, and comparing with a NaN raises, which
  happens as soon as there are two levels.
\<close>

definition comes_first :: "order_book_side \<Rightarrow> pydec \<Rightarrow> pydec \<Rightarrow> bool" where
  "comes_first side x y =
     (case dec_cmp x y of None \<Rightarrow> False | Some c \<Rightarrow> (case side of OBS_BID \<Rightarrow> 0 < c | OBS_ASK \<Rightarrow> c < 0))"

fun insert_level :: "order_book_side \<Rightarrow> string \<times> pydec \<Rightarrow> (string \<times> pydec) list \<Rightarrow> (string \<times> pydec) list" where
  "insert_level side x [] = [x]"
| "insert_level side x (y # ys) =
     (if comes_first side (snd y) (snd x) then y # insert_level side x ys else x # y # ys)"

definition sort_levels :: "order_book_side \<Rightarrow> (string \<times> pydec) list \<Rightarrow> (string \<times> pydec) list res" where
  "sort_levels side xs =
     (if 1 < length xs \<and> list_ex (\<lambda>x. is_nan (snd x)) xs then Inl invalid_operation
      else Inr (foldr (insert_level side) xs []))"

definition retained_order_book_levels ::
  "int option \<Rightarrow> order_book_side \<Rightarrow> (string, string) dict \<Rightarrow> (string, string) dict res" where
  "retained_order_book_levels max_depth side levels =
     (case max_depth of
        None \<Rightarrow> Inr levels
      | Some n \<Rightarrow>
          if int (length levels) \<le> n then Inr levels
          else res_bind (sort_levels side (parsed_prices levels)) (\<lambda>sorted.
            Inr (filter (\<lambda>(p, q). p \<in> set (map fst (take (nat n) sorted))) levels)))"

definition copy_order_book_snapshot ::
  "int option \<Rightarrow> market_order_book_snapshot \<Rightarrow> market_order_book_snapshot res" where
  "copy_order_book_snapshot max_depth b =
     res_bind (retained_order_book_levels max_depth OBS_ASK (book_ask_levels b)) (\<lambda>asks.
     res_bind (retained_order_book_levels max_depth OBS_BID (book_bid_levels b)) (\<lambda>bids.
     sync_order_book_top (b\<lparr>book_ask_levels := asks, book_bid_levels := bids\<rparr>)))"

subsection \<open>Retention\<close>

text \<open>\<^verbatim>\<open>while len(xs) > n: xs.pop(0)\<close>: what was popped, in order, and what is left\<close>

fun pop_oldest :: "int \<Rightarrow> 'a list \<Rightarrow> 'a list \<times> 'a list" where
  "pop_oldest n [] = ([], [])"
| "pop_oldest n (x # xs) =
     (if int (length (x # xs)) > n then (case pop_oldest n xs of (dropped, kept) \<Rightarrow> (x # dropped, kept))
      else ([], x # xs))"

definition count_up :: "string \<Rightarrow> int \<Rightarrow> (string, int) dict \<Rightarrow> (string, int) dict" where
  "count_up k n d = dict_set k (dict_get_or d k 0 + n) d"

definition append_order_book_sample ::
  "string \<Rightarrow> market_order_book_snapshot \<Rightarrow> projection \<Rightarrow> projection res" where
  "append_order_book_sample product_id b pj =
     (if pj_order_book_sample_product_ids pj \<noteq> [] \<and> product_id \<notin> set (pj_order_book_sample_product_ids pj)
      then Inr (pj\<lparr>pj_order_book_sample_scope_skipped_by_product_id :=
                    count_up product_id 1 (pj_order_book_sample_scope_skipped_by_product_id pj)\<rparr>)
      else
        res_bind (copy_order_book_snapshot (pj_max_order_book_sample_depth_per_side pj) b) (\<lambda>copied.
        let samples = dict_get_or (pj_order_book_samples_by_product_id pj) product_id [] @ [copied]
        in case pop_oldest (pj_max_order_book_samples_per_product pj) samples of (dropped, kept) \<Rightarrow>
          Inr (pj\<lparr>pj_order_book_samples_by_product_id :=
                    dict_set product_id kept (pj_order_book_samples_by_product_id pj),
                  pj_order_book_sample_retention_dropped_by_product_id :=
                    (if dropped = [] then pj_order_book_sample_retention_dropped_by_product_id pj
                     else count_up product_id (int (length dropped))
                            (pj_order_book_sample_retention_dropped_by_product_id pj))\<rparr>)))"

definition enforce_market_trade_retention :: "string \<Rightarrow> projection \<Rightarrow> projection" where
  "enforce_market_trade_retention product_id pj =
     (case pj_max_market_trades_per_product pj of
        None \<Rightarrow> pj
      | Some n \<Rightarrow>
          (case dict_get (pj_market_trade_ids_by_product_id pj) product_id of
             None \<Rightarrow> pj
           | Some ids \<Rightarrow>
               (case pop_oldest n ids of (dropped, kept) \<Rightarrow>
                  pj\<lparr>pj_market_trade_ids_by_product_id :=
                       dict_set product_id kept (pj_market_trade_ids_by_product_id pj),
                     pj_market_trades_by_id := fold dict_pop dropped (pj_market_trades_by_id pj),
                     pj_market_trade_retention_dropped_by_product_id :=
                       (if dropped = [] then pj_market_trade_retention_dropped_by_product_id pj
                        else count_up product_id (int (length dropped))
                               (pj_market_trade_retention_dropped_by_product_id pj))\<rparr>)))"

subsection \<open>Tickers\<close>

definition ticker_snapshot ::
  "market_data_context \<Rightarrow> string \<Rightarrow> payload \<Rightarrow> market_ticker_snapshot" where
  "ticker_snapshot ctx product_id t =
     \<lparr>tkr_product_id = product_id, tkr_sequence = mdc_sequence ctx, tkr_message_key = mdc_message_key ctx,
      tkr_source_id = mdc_source_id ctx,
      tkr_ask_price = first_string t [''best_ask'', ''best_ask_price'', ''ask'', ''ask_price''],
      tkr_ask_size = first_string t [''best_ask_quantity'', ''best_ask_size'', ''ask_quantity'', ''ask_size''],
      tkr_bid_price = first_string t [''best_bid'', ''best_bid_price'', ''bid'', ''bid_price''],
      tkr_bid_size = first_string t [''best_bid_quantity'', ''best_bid_size'', ''bid_quantity'', ''bid_size''],
      tkr_exchange_sequence = mdc_exchange_sequence ctx,
      tkr_last_price = first_string t [''price'', ''last_price''],
      tkr_observed_at = Some (mdc_observed_at ctx), tkr_payload = t,
      tkr_timestamp = or_else (first_string t [''time'', ''timestamp'']) (mdc_timestamp ctx)\<rparr>"

definition apply_ticker_payloads :: "payload \<Rightarrow> market_data_context \<Rightarrow> projection \<Rightarrow> projection" where
  "apply_ticker_payloads raw ctx =
     fold (\<lambda>t pj. case string_or_none (jget t ''product_id'') of
             None \<Rightarrow> pj
           | Some product_id \<Rightarrow>
               pj\<lparr>pj_latest_tickers_by_product_id :=
                    dict_set product_id (ticker_snapshot ctx product_id t)
                      (pj_latest_tickers_by_product_id pj)\<rparr>)
       (ticker_payloads raw)"

subsection \<open>Order books\<close>

definition new_order_book :: "market_data_context \<Rightarrow> string \<Rightarrow> market_order_book_snapshot" where
  "new_order_book ctx product_id =
     \<lparr>book_product_id = product_id, book_sequence = mdc_sequence ctx,
      book_message_key = mdc_message_key ctx, book_source_id = None, book_ask_levels = [],
      book_best_ask_price = None, book_best_ask_size = None, book_best_bid_price = None,
      book_best_bid_size = None, book_bid_levels = [], book_exchange_sequence = None,
      book_observed_at = Some (mdc_observed_at ctx), book_payload = [], book_timestamp = None,
      book_update_count = 0\<rparr>"

text \<open>The products whose levels were reset and the ones updated, beside the projection.\<close>

type_synonym book_loop = "projection \<times> string list \<times> string list"

definition stamp_order_book ::
  "market_data_context \<Rightarrow> payload \<Rightarrow> payload \<Rightarrow> market_order_book_snapshot \<Rightarrow> market_order_book_snapshot" where
  "stamp_order_book ctx event upd b =
     b\<lparr>book_exchange_sequence := mdc_exchange_sequence ctx, book_message_key := mdc_message_key ctx,
       book_observed_at := Some (mdc_observed_at ctx), book_payload := event,
       book_sequence := mdc_sequence ctx, book_source_id := mdc_source_id ctx,
       book_timestamp := or_else (first_string upd [''event_time'', ''time'', ''timestamp'']) (mdc_timestamp ctx),
       book_update_count := book_update_count b + 1\<rparr>"

definition update_book ::
  "market_data_context \<Rightarrow> payload \<Rightarrow> payload \<Rightarrow> bool \<Rightarrow> order_book_side \<Rightarrow> string \<Rightarrow> string \<Rightarrow>
   market_order_book_snapshot \<Rightarrow> market_order_book_snapshot res" where
  "update_book ctx event upd reset side price quantity b =
     res_bind (if reset then reset_order_book_levels b else Inr b)
       (\<lambda>b. update_order_book_level side price quantity (stamp_order_book ctx event upd b))"

definition apply_book_update ::
  "market_data_context \<Rightarrow> payload \<Rightarrow> payload \<Rightarrow> book_loop \<Rightarrow> book_loop res" where
  "apply_book_update ctx event upd st =
     (case st of (pj, resets, updated) \<Rightarrow>
      case or_else (string_or_none (jget upd ''product_id'')) (string_or_none (jget event ''product_id'')) of
        None \<Rightarrow> Inr st
      | Some product_id \<Rightarrow>
          (case (order_book_side_or_none (jget upd ''side''),
                 first_string upd [''price_level'', ''price''],
                 first_string upd [''new_quantity'', ''quantity'', ''size'']) of
             (Some side, Some price, Some quantity) \<Rightarrow>
               (let b = (case dict_get (pj_order_books_by_product_id pj) product_id of
                           Some b \<Rightarrow> b | None \<Rightarrow> new_order_book ctx product_id);
                    reset = (string_or_none (jget event ''type'') = Some ''snapshot''
                             \<and> product_id \<notin> set resets)
                in res_bind (update_book ctx event upd reset side price quantity b) (\<lambda>b.
                   Inr (pj\<lparr>pj_order_books_by_product_id :=
                             dict_set product_id b (pj_order_books_by_product_id pj)\<rparr>,
                        (if reset then product_id # resets else resets),
                        (if product_id \<in> set updated then updated else product_id # updated))))
           | _ \<Rightarrow> Inr st))"

definition apply_book_event :: "market_data_context \<Rightarrow> payload \<Rightarrow> book_loop \<Rightarrow> book_loop res" where
  "apply_book_event ctx event = res_fold (apply_book_update ctx event) (payload_dicts (jget event ''updates''))"

definition sample_book :: "string \<Rightarrow> projection \<Rightarrow> projection res" where
  "sample_book product_id pj =
     (case dict_get (pj_order_books_by_product_id pj) product_id of
        None \<Rightarrow> Inr pj | Some b \<Rightarrow> append_order_book_sample product_id b pj)"

definition apply_order_book_payloads ::
  "payload \<Rightarrow> market_data_context \<Rightarrow> projection \<Rightarrow> projection res" where
  "apply_order_book_payloads raw ctx pj =
     res_bind (res_fold (apply_book_event ctx) (payload_dicts (jget raw ''events'')) (pj, [], []))
       (\<lambda>(pj, resets, updated). res_fold sample_book (sort updated) pj)"

subsection \<open>Trades\<close>

definition trade_snapshot :: "market_data_context \<Rightarrow> string \<Rightarrow> string \<Rightarrow> payload \<Rightarrow> market_trade_snapshot" where
  "trade_snapshot ctx trade_id product_id t =
     \<lparr>trade_trade_id = trade_id, trade_product_id = product_id, trade_sequence = mdc_sequence ctx,
      trade_message_key = mdc_message_key ctx, trade_source_id = mdc_source_id ctx,
      trade_exchange_sequence = mdc_exchange_sequence ctx,
      trade_observed_at = Some (mdc_observed_at ctx), trade_payload = t,
      trade_price = first_string t [''price''], trade_side = coinbase_order_side_or_none (jget t ''side''),
      trade_size = first_string t [''size''],
      trade_trade_time = or_else (first_string t [''time'', ''trade_time'', ''timestamp'']) (mdc_timestamp ctx)\<rparr>"

definition apply_market_trade :: "market_data_context \<Rightarrow> nat \<times> payload \<Rightarrow> projection \<Rightarrow> projection" where
  "apply_market_trade ctx it pj =
     (case it of (i, t) \<Rightarrow>
      case string_or_none (jget t ''product_id'') of
        None \<Rightarrow> pj
      | Some product_id \<Rightarrow>
          (let trade_id = (case string_or_none (jget t ''trade_id'') of
                             Some s \<Rightarrow> s
                           | None \<Rightarrow> product_id @ '':'' @ int_to_str (mdc_sequence ctx) @ '':'' @ nat_to_str i);
               is_new = (\<not> dict_has (pj_market_trades_by_id pj) trade_id);
               pj' = pj\<lparr>pj_market_trades_by_id :=
                         dict_set trade_id (trade_snapshot ctx trade_id product_id t)
                           (pj_market_trades_by_id pj)\<rparr>
           in if is_new
              then enforce_market_trade_retention product_id
                     (pj'\<lparr>pj_market_trade_ids_by_product_id :=
                            dict_append product_id trade_id (pj_market_trade_ids_by_product_id pj')\<rparr>)
              else pj'))"

definition apply_market_trade_payloads :: "payload \<Rightarrow> market_data_context \<Rightarrow> projection \<Rightarrow> projection" where
  "apply_market_trade_payloads raw ctx =
     fold (apply_market_trade ctx) (enumerate 0 (trade_payloads raw))"

subsection \<open>An accepted market message\<close>

definition market_context ::
  "audit_record \<Rightarrow> payload \<Rightarrow> payload \<Rightarrow> payload \<Rightarrow> market_data_context" where
  "market_context r accepted feed raw =
     \<lparr>mdc_sequence = rec_sequence r,
      mdc_message_key = (case string_or_none (jget accepted ''message_key'') of
                           Some s \<Rightarrow> s | None \<Rightarrow> ''accepted-data-'' @ int_to_str (rec_sequence r)),
      mdc_source_id = string_or_none (jget accepted ''source_id''),
      mdc_exchange_sequence = first_int feed raw ''sequence_num'',
      mdc_observed_at = rec_occurred_at r,
      mdc_timestamp = or_else (string_or_none (jget feed ''timestamp'')) (string_or_none (jget raw ''timestamp''))\<rparr>"

definition l2_data_channel :: string where
  "l2_data_channel = ''l2_data''"

definition apply_accepted_market_data ::
  "audit_record \<Rightarrow> payload \<Rightarrow> payload \<Rightarrow> projection \<Rightarrow> projection res" where
  "apply_accepted_market_data r accepted received pj =
     (let feed = payload_dict (jget received ''payload'');
          raw = (let p = payload_dict (jget feed ''raw'') in if p = [] then feed else p)
      in case or_else (string_or_none (jget feed ''channel'')) (string_or_none (jget raw ''channel'')) of
           None \<Rightarrow> Inr pj
         | Some channel \<Rightarrow>
             (let ctx = market_context r accepted feed raw in
              if channel = coinbase_web_socket_channel_value CWC_TICKER
                 \<or> channel = coinbase_web_socket_channel_value CWC_TICKER_BATCH
              then Inr (apply_ticker_payloads raw ctx pj)
              else if channel = coinbase_web_socket_channel_value CWC_LEVEL2 \<or> channel = l2_data_channel
              then apply_order_book_payloads raw ctx pj
              else if channel = coinbase_web_socket_channel_value CWC_MARKET_TRADES
              then Inr (apply_market_trade_payloads raw ctx pj)
              else Inr pj))"

subsection \<open>The best price\<close>

lemma parsed_prices_iff:
  "(p, d) \<in> set (parsed_prices levels) \<longleftrightarrow> p \<in> set (dict_keys levels) \<and> decimal_or_none (Some p) = Some d"
  by (force simp: parsed_prices_def List.map_filter_def image_iff)

definition at_least_as_good :: "order_book_side \<Rightarrow> pydec \<Rightarrow> pydec \<Rightarrow> bool" where
  "at_least_as_good side x y =
     (case side of OBS_BID \<Rightarrow> dec_rat y \<le> dec_rat x | OBS_ASK \<Rightarrow> dec_rat x \<le> dec_rat y)"

lemma at_least_as_good_refl [simp]: "at_least_as_good side x x"
  by (cases side) (simp_all add: at_least_as_good_def)

lemma at_least_as_good_trans:
  "at_least_as_good side x y \<Longrightarrow> at_least_as_good side y z \<Longrightarrow> at_least_as_good side x z"
  by (cases side) (auto simp: at_least_as_good_def)

lemma keep_better_finite:
  assumes "is_finite (snd x)" and "is_finite (snd best)"
  shows "\<exists>y. keep_better side x best = Inr y \<and> y \<in> {x, best} \<and>
           at_least_as_good side (snd y) (snd x) \<and> at_least_as_good side (snd y) (snd best)"
  using assms
  by (cases side) (auto simp: keep_better_def better_def at_least_as_good_def not_less)

lemma fold_keep_better:
  assumes "\<And>y. y \<in> set (x # xs) \<Longrightarrow> is_finite (snd y)"
  shows "\<exists>b. res_fold (keep_better side) xs x = Inr b \<and> b \<in> set (x # xs) \<and>
           (\<forall>y \<in> set (x # xs). at_least_as_good side (snd b) (snd y))"
  using assms
proof (induction xs arbitrary: x)
  case Nil
  then show ?case by simp
next
  case (Cons z zs)
  from keep_better_finite [of z x side] Cons.prems obtain y where
    y: "keep_better side z x = Inr y" "y = z \<or> y = x" "at_least_as_good side (snd y) (snd z)"
      "at_least_as_good side (snd y) (snd x)" by auto
  have "is_finite (snd v)" if "v \<in> set (y # zs)" for v
  proof -
    from that y(2) have "v \<in> set (x # z # zs)" by auto
    then show ?thesis by (rule Cons.prems)
  qed
  from Cons.IH [OF this] obtain b where
    b: "res_fold (keep_better side) zs y = Inr b" "b \<in> set (y # zs)"
      "\<And>v. v \<in> set (y # zs) \<Longrightarrow> at_least_as_good side (snd b) (snd v)" by blast
  have "at_least_as_good side (snd b) (snd v)" if "v \<in> set (x # z # zs)" for v
  proof -
    from that consider "v = x" | "v = z" | "v \<in> set zs" by auto
    then show ?thesis
    proof cases
      case 1
      then show ?thesis using b(3) [of y] y(4) at_least_as_good_trans by auto
    next
      case 2
      then show ?thesis using b(3) [of y] y(3) at_least_as_good_trans by auto
    qed (simp add: b(3))
  qed
  then show ?case using y(1,2) b(1,2) by auto
qed

lemma best_price_finite:
  assumes "\<And>p d. (p, d) \<in> set (parsed_prices levels) \<Longrightarrow> is_finite d"
  shows "(parsed_prices levels = [] \<and> best_price side levels = Inr None) \<or>
         (\<exists>p d. best_price side levels = Inr (Some p) \<and> (p, d) \<in> set (parsed_prices levels) \<and>
            (\<forall>q e. (q, e) \<in> set (parsed_prices levels) \<longrightarrow> at_least_as_good side d e))"
proof (cases "parsed_prices levels")
  case Nil
  then show ?thesis by (simp add: best_price_def)
next
  case (Cons x xs)
  with assms have "is_finite (snd y)" if "y \<in> set (x # xs)" for y using that by (metis prod.collapse)
  from fold_keep_better [OF this, where side = side] obtain b where
    "res_fold (keep_better side) xs x = Inr b" "b \<in> set (x # xs)"
    "\<forall>y \<in> set (x # xs). at_least_as_good side (snd b) (snd y)" by blast
  then have "best_price side levels = Inr (Some (fst b)) \<and> (fst b, snd b) \<in> set (parsed_prices levels) \<and>
      (\<forall>q e. (q, e) \<in> set (parsed_prices levels) \<longrightarrow> at_least_as_good side (snd b) e)"
    using Cons by (force simp: best_price_def)
  then show ?thesis by blast
qed

lemma keep_better_nan:
  "is_nan (snd x) \<or> is_nan (snd best) \<Longrightarrow> keep_better side x best = Inl invalid_operation"
  by (cases side; cases "snd x"; cases "snd best") (auto simp: keep_better_def better_def dec_lt_def)

lemma keep_better_Inr: "keep_better side x best = Inr y \<Longrightarrow> y = x \<or> y = best"
  by (auto simp: keep_better_def res_bind_Inr split: if_splits)

lemma fold_keep_better_nan:
  "xs \<noteq> [] \<Longrightarrow> y \<in> set (x # xs) \<Longrightarrow> is_nan (snd y) \<Longrightarrow>
   \<exists>e. res_fold (keep_better side) xs x = Inl e"
proof (induction xs arbitrary: x)
  case Nil
  then show ?case by simp
next
  case (Cons z zs)
  show ?case
  proof (cases "is_nan (snd z) \<or> is_nan (snd x)")
    case True
    then show ?thesis by (simp add: keep_better_nan)
  next
    case False
    with Cons.prems have y: "y \<in> set zs" by auto
    show ?thesis
    proof (cases "keep_better side z x")
      case (Inr b)
      have "zs \<noteq> []" using y by auto
      then show ?thesis using Cons.IH [of b] y Cons.prems(3) Inr by auto
    qed simp
  qed
qed

lemma best_price_nan:
  assumes "(p, d) \<in> set (parsed_prices levels)" and "is_nan d" and "length (parsed_prices levels) \<noteq> 1"
  shows "\<exists>e. best_price side levels = Inl e"
proof -
  from assms(1,3) obtain x xs where xs: "parsed_prices levels = x # xs" "xs \<noteq> []"
    by (cases "parsed_prices levels") auto
  with assms(1,2) fold_keep_better_nan [where xs = xs and y = "(p, d)" and x = x and side = side] show ?thesis
    by (auto simp: best_price_def)
qed

subsection \<open>Books stay synchronised with their levels\<close>

definition book_ok :: "market_order_book_snapshot \<Rightarrow> bool" where
  "book_ok b \<longleftrightarrow> sync_order_book_top b = Inr b \<and> distinct (dict_keys (book_bid_levels b)) \<and>
     distinct (dict_keys (book_ask_levels b))"

lemma book_ok_best:
  assumes "book_ok b"
  shows "best_price OBS_BID (book_bid_levels b) = Inr (book_best_bid_price b)"
    and "best_price OBS_ASK (book_ask_levels b) = Inr (book_best_ask_price b)"
    and "book_best_bid_size b = level_size (book_bid_levels b) (book_best_bid_price b)"
    and "book_best_ask_size b = level_size (book_ask_levels b) (book_best_ask_price b)"
  using assms by (cases b; auto simp: book_ok_def sync_order_book_top_def res_bind_Inr)+

lemma sync_ok:
  assumes "sync_order_book_top b = Inr b'" and "distinct (dict_keys (book_bid_levels b))"
    and "distinct (dict_keys (book_ask_levels b))"
  shows "book_ok b'"
  using assms by (auto simp: sync_order_book_top_def res_bind_Inr book_ok_def)

lemma distinct_dict_pop [simp]: "distinct (dict_keys d) \<Longrightarrow> distinct (dict_keys (dict_pop k d))"
  by (rule distinct_delete)

lemma update_level_ok:
  assumes "update_order_book_level side price quantity b = Inr b'"
    and "distinct (dict_keys (book_bid_levels b))" and "distinct (dict_keys (book_ask_levels b))"
  shows "book_ok b'"
  using assms by (cases side) (auto simp: update_order_book_level_def Let_def res_bind_Inr intro: sync_ok)

lemma reset_levels_ok: "reset_order_book_levels b = Inr b' \<Longrightarrow> book_ok b'"
  by (auto simp: reset_order_book_levels_def intro: sync_ok)

lemma stamp_levels [simp]:
  "book_bid_levels (stamp_order_book ctx event upd b) = book_bid_levels b"
  "book_ask_levels (stamp_order_book ctx event upd b) = book_ask_levels b"
  by (simp_all add: stamp_order_book_def)

lemma retained_levels:
  assumes "retained_order_book_levels max_depth side levels = Inr kept" and "distinct (dict_keys levels)"
  shows "distinct (dict_keys kept)" and "set kept \<subseteq> set levels"
    and "max_depth = Some n \<Longrightarrow> 0 \<le> n \<Longrightarrow> int (length kept) \<le> n"
proof -
  show "distinct (dict_keys kept)" and "set kept \<subseteq> set levels"
    using assms by (auto simp: retained_order_book_levels_def res_bind_Inr distinct_map_filter
        split: option.splits if_splits)
  assume n: "max_depth = Some n" "0 \<le> n"
  show "int (length kept) \<le> n"
  proof (cases "int (length levels) \<le> n")
    case True
    with assms n show ?thesis by (simp add: retained_order_book_levels_def)
  next
    case False
    with assms n have eq: "res_bind (sort_levels side (parsed_prices levels)) (\<lambda>ps.
        Inr (filter (\<lambda>(p, q). p \<in> set (map fst (take (nat n) ps))) levels)) = Inr kept"
      by (simp add: retained_order_book_levels_def)
    then obtain ps where ps: "sort_levels side (parsed_prices levels) = Inr ps"
      by (cases "sort_levels side (parsed_prices levels)") auto
    from eq have kept: "kept = filter (\<lambda>(p, q). p \<in> set (map fst (take (nat n) ps))) levels"
      by (simp add: ps)
    have "length kept = card (set (dict_keys kept))"
      using \<open>distinct (dict_keys kept)\<close> distinct_card [of "dict_keys kept"] by simp
    also have "\<dots> \<le> card (set (map fst (take (nat n) ps)))"
      by (rule card_mono) (auto simp: kept simp del: set_map, force)
    also have "\<dots> \<le> nat n"
      using card_length [of "map fst (take (nat n) ps)"] by simp
    finally show ?thesis using n(2) by simp
  qed
qed

definition sample_ok :: "int option \<Rightarrow> market_order_book_snapshot \<Rightarrow> bool" where
  "sample_ok max_depth b \<longleftrightarrow> book_ok b \<and>
     (case max_depth of None \<Rightarrow> True
      | Some n \<Rightarrow> int (length (book_bid_levels b)) \<le> n \<and> int (length (book_ask_levels b)) \<le> n)"

lemma copy_ok:
  assumes "copy_order_book_snapshot max_depth b = Inr c" and "book_ok b"
    and "\<And>n. max_depth = Some n \<Longrightarrow> 0 \<le> n"
  shows "sample_ok max_depth c"
proof -
  from assms(1) obtain asks bids where
    r: "retained_order_book_levels max_depth OBS_ASK (book_ask_levels b) = Inr asks"
      "retained_order_book_levels max_depth OBS_BID (book_bid_levels b) = Inr bids"
    and c: "sync_order_book_top (b\<lparr>book_ask_levels := asks, book_bid_levels := bids\<rparr>) = Inr c"
    by (auto simp: copy_order_book_snapshot_def res_bind_Inr)
  have d: "distinct (dict_keys (book_ask_levels b))" "distinct (dict_keys (book_bid_levels b))"
    using assms(2) by (simp_all add: book_ok_def)
  have "book_ok c" using sync_ok [OF c] retained_levels(1) [OF r(1) d(1)] retained_levels(1) [OF r(2) d(2)] by simp
  moreover have "book_ask_levels c = asks" "book_bid_levels c = bids"
    using c by (auto simp: sync_order_book_top_def res_bind_Inr)
  ultimately show ?thesis
    using retained_levels(3) [OF r(1) d(1)] retained_levels(3) [OF r(2) d(2)] assms(3)
    by (auto simp: sample_ok_def split: option.splits)
qed

subsection \<open>The retained market data\<close>

lemma pop_oldest_take_drop:
  "0 \<le> n \<Longrightarrow> pop_oldest n xs = (take (length xs - nat n) xs, drop (length xs - nat n) xs)"
proof (induction n xs rule: pop_oldest.induct)
  case (1 n)
  then show ?case by simp
next
  case (2 n x xs)
  show ?case
  proof (cases "int (length (x # xs)) > n")
    case True
    with 2 have "length (x # xs) - nat n = Suc (length xs - nat n)" by auto
    with 2 True show ?thesis by simp
  qed (use 2 in auto)
qed

lemma get_fold_pop: "dict_get (fold dict_pop ks d) k = (if k \<in> set ks then None else dict_get d k)"
  by (induction ks arbitrary: d) auto

text \<open>The trade ids kept for a product, oldest first.\<close>

definition trade_ids :: "projection \<Rightarrow> string \<Rightarrow> string list" where
  "trade_ids pj product_id = dict_get_or (pj_market_trade_ids_by_product_id pj) product_id []"

definition order_book_samples :: "projection \<Rightarrow> string \<Rightarrow> market_order_book_snapshot list" where
  "order_book_samples pj product_id = dict_get_or (pj_order_book_samples_by_product_id pj) product_id []"

text \<open>The arguments of the constructor, after its validation.\<close>

definition limits_ok :: "projection \<Rightarrow> bool" where
  "limits_ok pj \<longleftrightarrow> 0 < pj_max_order_book_samples_per_product pj \<and>
     (\<forall>n. pj_max_market_trades_per_product pj = Some n \<longrightarrow> 0 < n) \<and>
     (\<forall>n. pj_max_order_book_sample_depth_per_side pj = Some n \<longrightarrow> 0 < n)"

text \<open>
  Every trade is listed under exactly one product, once, and every listed trade is there; no list is
  longer than the retention allows.
\<close>

definition trades_ok :: "projection \<Rightarrow> bool" where
  "trades_ok pj \<longleftrightarrow>
     (\<forall>p. distinct (trade_ids pj p)) \<and>
     (\<forall>p q t. t \<in> set (trade_ids pj p) \<longrightarrow> t \<in> set (trade_ids pj q) \<longrightarrow> p = q) \<and>
     (\<forall>t. dict_has (pj_market_trades_by_id pj) t \<longleftrightarrow> (\<exists>p. t \<in> set (trade_ids pj p))) \<and>
     (\<forall>n p. pj_max_market_trades_per_product pj = Some n \<longrightarrow> int (length (trade_ids pj p)) \<le> n)"

definition books_ok :: "projection \<Rightarrow> bool" where
  "books_ok pj \<longleftrightarrow>
     (\<forall>p b. dict_get (pj_order_books_by_product_id pj) p = Some b \<longrightarrow> book_ok b) \<and>
     (\<forall>p. int (length (order_book_samples pj p)) \<le> pj_max_order_book_samples_per_product pj \<and>
        (\<forall>b \<in> set (order_book_samples pj p). sample_ok (pj_max_order_book_sample_depth_per_side pj) b))"

definition market_ok :: "projection \<Rightarrow> bool" where
  "market_ok pj \<longleftrightarrow> limits_ok pj \<and> trades_ok pj \<and> books_ok pj"

text \<open>What these invariants read; an operation that leaves it alone keeps them.\<close>

definition market_view :: "projection \<Rightarrow> _" where
  "market_view pj = (pj_order_books_by_product_id pj, pj_order_book_samples_by_product_id pj,
     pj_market_trades_by_id pj, pj_market_trade_ids_by_product_id pj,
     pj_max_order_book_samples_per_product pj, pj_max_market_trades_per_product pj,
     pj_max_order_book_sample_depth_per_side pj)"

lemma market_view_ok: "market_view pj' = market_view pj \<Longrightarrow> market_ok pj \<Longrightarrow> market_ok pj'"
  by (simp add: market_view_def market_ok_def limits_ok_def trades_ok_def books_ok_def trade_ids_def
      order_book_samples_def)

lemma limits_frame:
  "pj_max_order_book_samples_per_product pj' = pj_max_order_book_samples_per_product pj \<Longrightarrow>
   pj_max_market_trades_per_product pj' = pj_max_market_trades_per_product pj \<Longrightarrow>
   pj_max_order_book_sample_depth_per_side pj' = pj_max_order_book_sample_depth_per_side pj \<Longrightarrow>
   limits_ok pj' = limits_ok pj"
  by (simp add: limits_ok_def)

lemma init_market_ok: "init_projection t d s scope = Inr pj \<Longrightarrow> market_ok pj"
  by (auto simp: init_projection_def res_bind_Inr validate_positive_int_def
      validate_optional_positive_int_def empty_projection_def market_ok_def limits_ok_def trades_ok_def
      books_ok_def trade_ids_def order_book_samples_def dict_get_or_def dict_has_def
      split: if_splits option.splits)

lemma apply_ticker_view [simp]: "market_view (apply_ticker_payloads raw ctx pj) = market_view pj"
proof -
  have "market_view (fold (\<lambda>t pj. case string_or_none (jget t ''product_id'') of
             None \<Rightarrow> pj
           | Some product_id \<Rightarrow>
               pj\<lparr>pj_latest_tickers_by_product_id :=
                    dict_set product_id (ticker_snapshot ctx product_id t)
                      (pj_latest_tickers_by_product_id pj)\<rparr>) ts pj) = market_view pj" for ts
    by (induction ts arbitrary: pj) (auto simp: market_view_def split: option.splits)
  then show ?thesis by (simp add: apply_ticker_payloads_def)
qed

text \<open>Trades.\<close>

lemma retention_trades_ok:
  assumes "trades_ok pj" and "limits_ok pj" and "\<not> dict_has (pj_market_trades_by_id pj) t"
  shows "trades_ok (enforce_market_trade_retention p
           (pj\<lparr>pj_market_trades_by_id := dict_set t snap (pj_market_trades_by_id pj),
               pj_market_trade_ids_by_product_id :=
                 dict_append p t (pj_market_trade_ids_by_product_id pj)\<rparr>))"
    (is "trades_ok (enforce_market_trade_retention p ?pj)")
proof -
  from assms(1,3) have new: "\<And>q. t \<notin> set (trade_ids pj q)" by (auto simp: trades_ok_def)
  have ids: "trade_ids ?pj q = trade_ids pj q @ (if q = p then [t] else [])" for q
    by (simp add: trade_ids_def)
  show ?thesis
  proof (cases "pj_max_market_trades_per_product pj")
    case None
    with assms(1) new show ?thesis
      by (auto simp: trades_ok_def enforce_market_trade_retention_def ids)
  next
    case (Some n)
    with assms(2) have n: "0 < n" by (simp add: limits_ok_def)
    let ?k = "length (trade_ids pj p) + 1 - nat n"
    have get: "dict_get (pj_market_trade_ids_by_product_id ?pj) p = Some (trade_ids pj p @ [t])"
      by (simp add: trade_ids_def)
    define pj' where "pj' = enforce_market_trade_retention p ?pj"
    have ids': "trade_ids pj' q = (if q = p then drop ?k (trade_ids pj p @ [t]) else trade_ids pj q)" for q
      using n get Some by (simp add: pj'_def enforce_market_trade_retention_def pop_oldest_take_drop trade_ids_def
          dict_get_or_def)
    have has': "dict_has (pj_market_trades_by_id pj') s \<longleftrightarrow>
        s \<notin> set (take ?k (trade_ids pj p @ [t])) \<and> (s = t \<or> dict_has (pj_market_trades_by_id pj) s)" for s
      using n get Some by (simp add: pj'_def enforce_market_trade_retention_def pop_oldest_take_drop dict_has_def
          get_fold_pop)
    have max': "pj_max_market_trades_per_product pj' = Some n"
      using get Some by (simp add: pj'_def enforce_market_trade_retention_def split: prod.splits)
    have dist: "distinct (trade_ids pj p @ [t])" using assms(1) new by (simp add: trades_ok_def)
    have split: "set (take ?k (trade_ids pj p @ [t])) \<inter> set (drop ?k (trade_ids pj p @ [t])) = {}"
      using dist by (rule set_take_disj_set_drop_if_distinct) simp
    have parts: "set (trade_ids pj p @ [t]) =
        set (take ?k (trade_ids pj p @ [t])) \<union> set (drop ?k (trade_ids pj p @ [t]))"
      by (metis append_take_drop_id set_append)
    have disj: "x = y" if "s \<in> set (trade_ids pj x)" "s \<in> set (trade_ids pj y)" for s x y
      using assms(1) that unfolding trades_ok_def by blast
    have "trades_ok pj'"
      unfolding trades_ok_def
    proof (intro conjI allI impI)
      show "distinct (trade_ids pj' q)" for q
        unfolding ids' using distinct_drop [OF dist] assms(1) by (cases "q = p") (simp_all only: trades_ok_def refl if_True if_False)
      show "q = r" if "s \<in> set (trade_ids pj' q)" "s \<in> set (trade_ids pj' r)" for q r s
      proof -
        have "(x = p \<and> s = t) \<or> s \<in> set (trade_ids pj x)" if "s \<in> set (trade_ids pj' x)" for x
          using that parts by (auto simp: ids' split: if_splits)
        with that disj new show ?thesis by metis
      qed
      show "dict_has (pj_market_trades_by_id pj') s \<longleftrightarrow> (\<exists>q. s \<in> set (trade_ids pj' q))" for s
      proof -
        have old: "dict_has (pj_market_trades_by_id pj) s \<longleftrightarrow> (\<exists>q. s \<in> set (trade_ids pj q))"
          using assms(1) by (simp add: trades_ok_def)
        show ?thesis
        proof
          assume "dict_has (pj_market_trades_by_id pj') s"
          then have s: "s \<notin> set (take ?k (trade_ids pj p @ [t]))" "s = t \<or> (\<exists>q. s \<in> set (trade_ids pj q))"
            using has' old by auto
          then consider "s \<in> set (trade_ids pj p @ [t])" | q where "q \<noteq> p" "s \<in> set (trade_ids pj q)"
            by (metis Un_iff list.set_intros(1) set_append)
          then show "\<exists>q. s \<in> set (trade_ids pj' q)"
          proof cases
            case 1
            with s(1) parts have "s \<in> set (trade_ids pj' p)" by (auto simp: ids')
            then show ?thesis by blast
          next
            case 2
            then show ?thesis by (auto simp: ids' intro: exI [of _ q])
          qed
        next
          assume "\<exists>q. s \<in> set (trade_ids pj' q)"
          then obtain q where q: "s \<in> set (trade_ids pj' q)" by blast
          show "dict_has (pj_market_trades_by_id pj') s"
          proof (cases "q = p")
            case True
            with q have "s \<in> set (drop ?k (trade_ids pj p @ [t]))" by (simp add: ids')
            then have "s \<notin> set (take ?k (trade_ids pj p @ [t]))" "s \<in> set (trade_ids pj p @ [t])"
              using split parts by auto
            then show ?thesis using has' old by auto
          next
            case False
            with q have "s \<in> set (trade_ids pj q)" by (simp add: ids')
            moreover from this new have "s \<noteq> t" by auto
            moreover have "s \<notin> set (take ?k (trade_ids pj p @ [t]))"
              using False disj [of s q p] calculation by (auto dest!: in_set_takeD)
            ultimately show ?thesis using has' old by auto
          qed
        qed
      qed
      show "int (length (trade_ids pj' q)) \<le> m"
        if "pj_max_market_trades_per_product pj' = Some m" for m q
        using that max' n assms(1) Some by (auto simp: ids' trades_ok_def)
    qed
    then show ?thesis by (simp add: pj'_def)
  qed
qed

lemma retention_view [simp]:
  "pj_order_books_by_product_id (enforce_market_trade_retention p pj) = pj_order_books_by_product_id pj"
  "pj_order_book_samples_by_product_id (enforce_market_trade_retention p pj)
     = pj_order_book_samples_by_product_id pj"
  "pj_max_order_book_samples_per_product (enforce_market_trade_retention p pj)
     = pj_max_order_book_samples_per_product pj"
  "pj_max_market_trades_per_product (enforce_market_trade_retention p pj)
     = pj_max_market_trades_per_product pj"
  "pj_max_order_book_sample_depth_per_side (enforce_market_trade_retention p pj)
     = pj_max_order_book_sample_depth_per_side pj"
  by (simp_all add: enforce_market_trade_retention_def split: option.splits prod.splits)

lemma apply_market_trade_ok: "market_ok pj \<Longrightarrow> market_ok (apply_market_trade ctx (i, t) pj)"
proof -
  assume ok: "market_ok pj"
  show ?thesis
  proof (cases "string_or_none (jget t ''product_id'')")
    case None
    with ok show ?thesis by (simp add: apply_market_trade_def)
  next
    case (Some p)
    define tid where "tid = (case string_or_none (jget t ''trade_id'') of
        Some s \<Rightarrow> s | None \<Rightarrow> p @ '':'' @ int_to_str (mdc_sequence ctx) @ '':'' @ nat_to_str i)"
    let ?stored = "pj\<lparr>pj_market_trades_by_id := dict_set tid (trade_snapshot ctx tid p t)
        (pj_market_trades_by_id pj)\<rparr>"
    show ?thesis
    proof (cases "dict_has (pj_market_trades_by_id pj) tid")
      case True
      then have "apply_market_trade ctx (i, t) pj = ?stored"
        using Some by (simp add: apply_market_trade_def tid_def Let_def)
      moreover have "trades_ok ?stored"
        using ok True by (auto simp: market_ok_def trades_ok_def trade_ids_def)
      ultimately show ?thesis
        using ok by (simp add: market_ok_def limits_ok_def books_ok_def order_book_samples_def)
    next
      case False
      let ?listed = "?stored\<lparr>pj_market_trade_ids_by_product_id :=
          dict_append p tid (pj_market_trade_ids_by_product_id pj)\<rparr>"
      have eq: "apply_market_trade ctx (i, t) pj = enforce_market_trade_retention p ?listed"
        using Some False by (simp add: apply_market_trade_def tid_def Let_def)
      have "trades_ok (enforce_market_trade_retention p ?listed)"
        using retention_trades_ok [of pj tid p "trade_snapshot ctx tid p t"] ok False
        by (simp add: market_ok_def)
      moreover have "limits_ok (enforce_market_trade_retention p ?listed)"
        using ok by (simp add: market_ok_def limits_ok_def)
      ultimately show ?thesis
        using ok by (simp add: eq market_ok_def books_ok_def order_book_samples_def)
    qed
  qed
qed

lemma apply_market_trades_ok:
  "market_ok pj \<Longrightarrow> market_ok (apply_market_trade_payloads raw ctx pj)"
proof -
  have "market_ok pj \<Longrightarrow> market_ok (fold (apply_market_trade ctx) its pj)" for its pj
    by (induction its arbitrary: pj) (auto simp: apply_market_trade_ok)
  then show "market_ok pj \<Longrightarrow> ?thesis" by (simp add: apply_market_trade_payloads_def)
qed

text \<open>Order books.\<close>

lemma new_order_book_ok [simp]: "book_ok (new_order_book ctx p)"
  by (simp add: book_ok_def new_order_book_def sync_order_book_top_def best_price_def parsed_prices_def
      List.map_filter_def level_size_def)

lemma update_book_ok:
  assumes "update_book ctx event upd reset side price quantity b = Inr b'" and "book_ok b"
  shows "book_ok b'"
proof -
  from assms(1) obtain c where c: "(if reset then reset_order_book_levels b else Inr b) = Inr c"
    and b': "update_order_book_level side price quantity (stamp_order_book ctx event upd c) = Inr b'"
    by (auto simp: update_book_def res_bind_Inr)
  from c assms(2) have "book_ok c" by (cases reset) (auto intro: reset_levels_ok)
  with update_level_ok [OF b'] show ?thesis by (simp add: book_ok_def)
qed

lemma store_book_ok:
  assumes "market_ok pj" and "book_ok b"
  shows "market_ok (pj\<lparr>pj_order_books_by_product_id := dict_set p b (pj_order_books_by_product_id pj)\<rparr>)"
  using assms
  by (simp add: market_ok_def limits_ok_def trades_ok_def trade_ids_def books_ok_def order_book_samples_def)

lemma apply_book_update_ok:
  assumes "apply_book_update ctx event upd (pj, resets, updated) = Inr (pj', resets', updated')"
    and "market_ok pj"
  shows "market_ok pj'"
proof (cases "or_else (string_or_none (jget upd ''product_id'')) (string_or_none (jget event ''product_id''))")
  case None
  with assms show ?thesis by (simp add: apply_book_update_def)
next
  case (Some p)
  let ?side = "order_book_side_or_none (jget upd ''side'')"
  let ?price = "first_string upd [''price_level'', ''price'']"
  let ?quantity = "first_string upd [''new_quantity'', ''quantity'', ''size'']"
  show ?thesis
  proof (cases "\<exists>side price quantity. ?side = Some side \<and> ?price = Some price \<and> ?quantity = Some quantity")
    case False
    then have "apply_book_update ctx event upd (pj, resets, updated) = Inr (pj, resets, updated)"
      using Some by (simp only: apply_book_update_def prod.case option.case) (auto split: option.split)
    with assms show ?thesis by simp
  next
    case True
    then obtain side price quantity where args: "?side = Some side" "?price = Some price" "?quantity = Some quantity"
      by blast
    let ?b = "case dict_get (pj_order_books_by_product_id pj) p of
                Some b \<Rightarrow> b | None \<Rightarrow> new_order_book ctx p"
    have "book_ok ?b"
      using assms(2) by (auto simp: market_ok_def books_ok_def split: option.split)
    moreover let ?reset = "string_or_none (jget event ''type'') = Some ''snapshot'' \<and> p \<notin> set resets"
    have "apply_book_update ctx event upd (pj, resets, updated) =
        res_bind (update_book ctx event upd ?reset side price quantity ?b) (\<lambda>b.
          Inr (pj\<lparr>pj_order_books_by_product_id := dict_set p b (pj_order_books_by_product_id pj)\<rparr>,
               if ?reset then p # resets else resets,
               if p \<in> set updated then updated else p # updated))"
      by (simp only: apply_book_update_def Some args prod.case option.case Let_def)
    from assms(1) [unfolded this res_bind_Inr] obtain b where
      "update_book ctx event upd ?reset side price quantity ?b = Inr b"
      and eq: "Inr (pj\<lparr>pj_order_books_by_product_id := dict_set p b (pj_order_books_by_product_id pj)\<rparr>,
               if ?reset then p # resets else resets,
               if p \<in> set updated then updated else p # updated) = (Inr (pj', resets', updated') :: book_loop res)"
      by (elim exE conjE) (rule that)
    moreover from eq have "pj' = pj\<lparr>pj_order_books_by_product_id :=
        dict_set p b (pj_order_books_by_product_id pj)\<rparr>"
      by (simp only: sum.inject prod.inject)
    ultimately show ?thesis using store_book_ok [OF assms(2)] update_book_ok by blast
  qed
qed

text \<open>Samples.\<close>

lemma append_sample_ok:
  assumes "append_order_book_sample p b pj = Inr pj'" and "market_ok pj" and "book_ok b"
  shows "market_ok pj'"
proof (cases "pj_order_book_sample_product_ids pj \<noteq> [] \<and> p \<notin> set (pj_order_book_sample_product_ids pj)")
  case True
  with assms(1) have "market_view pj' = market_view pj"
    by (auto simp: append_order_book_sample_def market_view_def)
  with assms(2) show ?thesis by (rule market_view_ok [rotated])
next
  case False
  from assms(2) have ok: "limits_ok pj" "trades_ok pj" "books_ok pj" by (simp_all add: market_ok_def)
  let ?n = "pj_max_order_book_samples_per_product pj"
  have n: "0 \<le> ?n" using ok(1) by (simp add: limits_ok_def)
  have "append_order_book_sample p b pj =
      res_bind (copy_order_book_snapshot (pj_max_order_book_sample_depth_per_side pj) b) (\<lambda>copied.
        let samples = order_book_samples pj p @ [copied]
        in case pop_oldest ?n samples of (dropped, kept) \<Rightarrow>
          Inr (pj\<lparr>pj_order_book_samples_by_product_id :=
                    dict_set p kept (pj_order_book_samples_by_product_id pj),
                  pj_order_book_sample_retention_dropped_by_product_id :=
                    (if dropped = [] then pj_order_book_sample_retention_dropped_by_product_id pj
                     else count_up p (int (length dropped))
                            (pj_order_book_sample_retention_dropped_by_product_id pj))\<rparr>))"
    using False by (simp only: append_order_book_sample_def order_book_samples_def if_False)
  from assms(1) [unfolded this res_bind_Inr] obtain c where
    c: "copy_order_book_snapshot (pj_max_order_book_sample_depth_per_side pj) b = Inr c"
    and r: "(let samples = order_book_samples pj p @ [c]
        in case pop_oldest ?n samples of (dropped, kept) \<Rightarrow>
          Inr (pj\<lparr>pj_order_book_samples_by_product_id :=
                    dict_set p kept (pj_order_book_samples_by_product_id pj),
                  pj_order_book_sample_retention_dropped_by_product_id :=
                    (if dropped = [] then pj_order_book_sample_retention_dropped_by_product_id pj
                     else count_up p (int (length dropped))
                            (pj_order_book_sample_retention_dropped_by_product_id pj))\<rparr>)) = (Inr pj' :: projection res)"
    by (elim exE conjE) (rule that)
  from r obtain m where
    pj': "pj' = pj\<lparr>pj_order_book_samples_by_product_id :=
        dict_set p (drop (Suc (length (order_book_samples pj p)) - nat ?n) (order_book_samples pj p @ [c]))
          (pj_order_book_samples_by_product_id pj),
        pj_order_book_sample_retention_dropped_by_product_id := m\<rparr>"
    by (simp only: Let_def pop_oldest_take_drop [OF n] prod.case sum.inject length_append list.size add_0_right
        add_Suc_right) blast
  have sample: "sample_ok (pj_max_order_book_sample_depth_per_side pj) c"
    using copy_ok [OF c assms(3)] ok(1) by (simp add: limits_ok_def order.strict_implies_order)
  have samples: "order_book_samples pj' q = (if q = p
      then drop (Suc (length (order_book_samples pj p)) - nat ?n) (order_book_samples pj p @ [c])
      else order_book_samples pj q)" for q
    by (simp add: pj' order_book_samples_def dict_get_or_def)
  have "set (order_book_samples pj' p) \<subseteq> insert c (set (order_book_samples pj p))"
    unfolding samples if_P [OF refl]
    using set_drop_subset [of "Suc (length (order_book_samples pj p)) - nat ?n" "order_book_samples pj p @ [c]"]
    by simp
  moreover have "int (length (order_book_samples pj' p)) \<le> ?n"
    using n by (simp add: samples)
  moreover have other: "order_book_samples pj' q = order_book_samples pj q" if "q \<noteq> p" for q
    using that by (simp add: samples)
  moreover have same: "pj_order_books_by_product_id pj' = pj_order_books_by_product_id pj"
    "pj_max_order_book_samples_per_product pj' = ?n"
    "pj_max_order_book_sample_depth_per_side pj' = pj_max_order_book_sample_depth_per_side pj"
    by (simp_all add: pj')
  ultimately have "books_ok pj'"
    unfolding books_ok_def same
    using ok(3) [unfolded books_ok_def] sample by (metis insert_iff subsetD)
  moreover have "limits_ok pj'" "trades_ok pj'"
    using ok by (simp_all add: pj' limits_ok_def trades_ok_def trade_ids_def)
  ultimately show ?thesis by (simp add: market_ok_def)
qed

lemma sample_book_ok:
  assumes "sample_book p pj = Inr pj'" and "market_ok pj"
  shows "market_ok pj'"
proof (cases "dict_get (pj_order_books_by_product_id pj) p")
  case None
  with assms show ?thesis by (simp add: sample_book_def)
next
  case (Some b)
  with assms(2) have "book_ok b" by (simp add: market_ok_def books_ok_def)
  with append_sample_ok [of p b pj pj'] assms Some show ?thesis by (simp add: sample_book_def)
qed

text \<open>The state of the loop over the updates.\<close>

definition loop_ok :: "book_loop \<Rightarrow> bool" where
  "loop_ok st \<longleftrightarrow> market_ok (fst st)"

lemma apply_book_update_loop:
  "apply_book_update ctx event upd st = Inr st' \<Longrightarrow> loop_ok st \<Longrightarrow> loop_ok st'"
  using apply_book_update_ok by (cases st; cases st') (auto simp: loop_ok_def)

lemma apply_book_event_loop:
  "apply_book_event ctx event st = Inr st' \<Longrightarrow> loop_ok st \<Longrightarrow> loop_ok st'"
  unfolding apply_book_event_def by (rule res_fold_keeps [where P = loop_ok]) (rule apply_book_update_loop)

lemma apply_order_book_payloads_ok:
  assumes "apply_order_book_payloads raw ctx pj = Inr pj'" and "market_ok pj"
  shows "market_ok pj'"
proof -
  from assms(1) obtain pj1 resets updated where
    events: "res_fold (apply_book_event ctx) (payload_dicts (jget raw ''events'')) (pj, [], [])
      = Inr (pj1, resets, updated)"
    and samples: "res_fold sample_book (sort updated) pj1 = Inr pj'"
    by (auto simp: apply_order_book_payloads_def res_bind_Inr)
  have "loop_ok (pj1, resets, updated)"
    by (rule res_fold_keeps [where P = loop_ok, OF _ events])
      (use assms(2) apply_book_event_loop in \<open>auto simp: loop_ok_def\<close>)
  then have "market_ok pj1" by (simp add: loop_ok_def)
  with samples show ?thesis by (rule res_fold_keeps [where P = market_ok, rotated]) (rule sample_book_ok)
qed

lemma apply_accepted_market_data_ok:
  assumes "apply_accepted_market_data r accepted received pj = Inr pj'" and "market_ok pj"
  shows "market_ok pj'"
  using assms market_view_ok [OF apply_ticker_view] apply_market_trades_ok apply_order_book_payloads_ok
  by (auto simp: apply_accepted_market_data_def Let_def split: option.splits if_splits)

end
