(* ===== verification/Orders.thy ===== *)
theory Orders
  imports Snapshots
begin

text \<open>
  Actions, orders, fills, positions, logical orders and placements in \<^verbatim>\<open>projections/state.py\<close>. An order
  is a cell of \<open>pj_orders\<close>; the dictionaries by action id, client order id and exchange order id hold
  the cell's index, so an update through one of them is seen through the others, as with the shared
  objects of the source.
\<close>

subsection \<open>Order cells\<close>

definition order_at :: "projection \<Rightarrow> nat \<Rightarrow> order_snapshot" where
  "order_at pj i = pj_orders pj ! i"

definition update_order :: "nat \<Rightarrow> (order_snapshot \<Rightarrow> order_snapshot) \<Rightarrow> projection \<Rightarrow> projection" where
  "update_order i f pj = pj\<lparr>pj_orders := (pj_orders pj)[i := f (pj_orders pj ! i)]\<rparr>"

definition new_order :: "string \<Rightarrow> order_lifecycle_status \<Rightarrow> order_snapshot" where
  "new_order action_id status =
     \<lparr>ord_action_id = action_id, ord_lifecycle_status = status, ord_requested_sequence = None,
      ord_accepted_sequence = None, ord_execution_started_sequence = None,
      ord_executed_sequence = None, ord_terminal_sequence = None, ord_product_id = None,
      ord_side = None, ord_order_type = None, ord_size = None, ord_limit_price = None,
      ord_leverage = None, ord_margin_type = None, ord_post_only = None, ord_reduce_only = None,
      ord_time_in_force = None, ord_client_order_id = None, ord_exchange_order_id = None,
      ord_execution_mode = None, ord_execution_status = None, ord_exchange_status = None,
      ord_cancel_action_ids = [], ord_average_fill_price = None, ord_fill_ids = [],
      ord_filled_size = ''0'', ord_last_execution_result = [], ord_last_exchange_update = [],
      ord_total_fees = ''0''\<rparr>"

definition create_order :: "string \<Rightarrow> order_lifecycle_status \<Rightarrow> projection \<Rightarrow> nat \<times> projection" where
  "create_order action_id status pj =
     (length (pj_orders pj),
      pj\<lparr>pj_orders := pj_orders pj @ [new_order action_id status],
         pj_orders_by_action_id := dict_set action_id (length (pj_orders pj)) (pj_orders_by_action_id pj)\<rparr>)"

definition index_order :: "nat \<Rightarrow> projection \<Rightarrow> projection" where
  "index_order i pj =
     (let o1 = order_at pj i;
          pj' = (case ord_client_order_id o1 of None \<Rightarrow> pj
                 | Some c \<Rightarrow> pj\<lparr>pj_orders_by_client_order_id := dict_set c i (pj_orders_by_client_order_id pj)\<rparr>)
      in case ord_exchange_order_id o1 of None \<Rightarrow> pj'
         | Some x \<Rightarrow> pj'\<lparr>pj_orders_by_exchange_order_id := dict_set x i (pj_orders_by_exchange_order_id pj')\<rparr>)"

definition order_by_action_payload :: "payload \<Rightarrow> projection \<Rightarrow> nat option" where
  "order_by_action_payload p pj =
     Option.bind (string_or_none (jget p ''action_id'')) (dict_get (pj_orders_by_action_id pj))"

text \<open>The lookup by exchange order id, then by client order id.\<close>

definition order_by_ids :: "json \<Rightarrow> json \<Rightarrow> projection \<Rightarrow> nat option" where
  "order_by_ids exchange_id client_id pj =
     or_else (Option.bind (string_or_none exchange_id) (dict_get (pj_orders_by_exchange_order_id pj)))
             (Option.bind (string_or_none client_id) (dict_get (pj_orders_by_client_order_id pj)))"

definition order_by_execution_identifiers :: "payload \<Rightarrow> projection \<Rightarrow> nat option" where
  "order_by_execution_identifiers result pj =
     order_by_ids (jget result ''exchange_order_id'') (jget result ''client_order_id'') pj"

definition order_by_exchange_update :: "payload \<Rightarrow> projection \<Rightarrow> nat option" where
  "order_by_exchange_update upd pj =
     order_by_ids (jget upd ''order_id'') (jget upd ''client_order_id'') pj"

subsection \<open>Order events\<close>

definition action_type_in :: "payload \<Rightarrow> action_type option" where
  "action_type_in p = enum_or_none action_type_of (jget p ''action_type'')"

definition requested_fields :: "audit_record \<Rightarrow> string \<Rightarrow> payload \<Rightarrow> order_snapshot \<Rightarrow> order_snapshot" where
  "requested_fields r client_order_id p o1 =
     o1\<lparr>ord_lifecycle_status := OLS_REQUESTED, ord_requested_sequence := Some (rec_sequence r),
        ord_product_id := string_or_none (jget p ''product_id''),
        ord_side := enum_or_none order_side_of (jget p ''side''),
        ord_order_type := enum_or_none order_type_of (jget p ''order_type''),
        ord_size := string_or_none (jget p ''size''),
        ord_limit_price := string_or_none (jget p ''limit_price''),
        ord_leverage := string_or_none (jget p ''leverage''),
        ord_margin_type := enum_or_none margin_type_of (jget p ''margin_type''),
        ord_post_only := bool_or_none (jget p ''post_only''),
        ord_reduce_only := bool_or_none (jget p ''reduce_only''),
        ord_time_in_force := enum_or_none time_in_force_of (jget p ''time_in_force''),
        ord_client_order_id := Some client_order_id\<rparr>"

definition apply_order_requested :: "audit_record \<Rightarrow> payload \<Rightarrow> projection \<Rightarrow> projection" where
  "apply_order_requested r p pj =
     (if action_type_in p \<noteq> Some AT_PLACE_ORDER then pj
      else case string_or_none (jget p ''action_id'') of
             None \<Rightarrow> pj
           | Some action_id \<Rightarrow>
               (case (case dict_get (pj_orders_by_action_id pj) action_id of
                        Some i \<Rightarrow> (i, pj) | None \<Rightarrow> create_order action_id OLS_REQUESTED pj) of
                  (i, pj') \<Rightarrow>
                    update_order i
                      (requested_fields r
                         (case string_or_none (jget p ''idempotency_key'') of
                            Some key \<Rightarrow> key | None \<Rightarrow> action_id)
                         (payload_dict (jget p ''payload''))) pj'))"

definition apply_order_accepted :: "audit_record \<Rightarrow> payload \<Rightarrow> projection \<Rightarrow> projection" where
  "apply_order_accepted r p pj =
     (if action_type_in p \<noteq> Some AT_PLACE_ORDER then pj
      else case order_by_action_payload p pj of
             None \<Rightarrow> pj
           | Some i \<Rightarrow>
               index_order i (update_order i
                 (\<lambda>o1. o1\<lparr>ord_lifecycle_status := OLS_ACCEPTED,
                          ord_accepted_sequence := Some (rec_sequence r)\<rparr>) pj))"

definition apply_order_execution_started :: "audit_record \<Rightarrow> payload \<Rightarrow> projection \<Rightarrow> projection" where
  "apply_order_execution_started r p pj =
     (if action_type_in p \<noteq> Some AT_PLACE_ORDER then pj
      else case order_by_action_payload p pj of
             None \<Rightarrow> pj
           | Some i \<Rightarrow>
               update_order i (\<lambda>o1. o1\<lparr>ord_execution_started_sequence := Some (rec_sequence r)\<rparr>) pj)"

definition started_field :: "payload \<Rightarrow> order_snapshot \<Rightarrow> order_snapshot" where
  "started_field p o1 =
     (case int_or_none (jget p ''execution_started_sequence'') of
        None \<Rightarrow> o1 | Some n \<Rightarrow> o1\<lparr>ord_execution_started_sequence := Some n\<rparr>)"

definition execution_fields ::
  "payload \<Rightarrow> execution_status option \<Rightarrow> order_snapshot \<Rightarrow> order_snapshot" where
  "execution_fields result status o1 =
     o1\<lparr>ord_last_execution_result := result,
        ord_execution_mode := enum_or_none execution_mode_of (jget result ''mode''),
        ord_execution_status := status,
        ord_client_order_id := or_else (string_or_none (jget result ''client_order_id'')) (ord_client_order_id o1),
        ord_exchange_order_id :=
          or_else (string_or_none (jget result ''exchange_order_id'')) (ord_exchange_order_id o1)\<rparr>"

definition end_order :: "audit_record \<Rightarrow> order_lifecycle_status \<Rightarrow> order_snapshot \<Rightarrow> order_snapshot" where
  "end_order r status o1 =
     o1\<lparr>ord_lifecycle_status := status, ord_terminal_sequence := Some (rec_sequence r)\<rparr>"

definition execution_status_in :: "payload \<Rightarrow> execution_status option" where
  "execution_status_in result = enum_or_none execution_status_of (jget result ''status'')"

definition apply_order_execution_failed :: "audit_record \<Rightarrow> payload \<Rightarrow> projection \<Rightarrow> projection" where
  "apply_order_execution_failed r p pj =
     (if action_type_in p \<noteq> Some AT_PLACE_ORDER then pj
      else case order_by_action_payload p pj of
             None \<Rightarrow> pj
           | Some i \<Rightarrow>
               (let pj1 = update_order i (started_field p) pj;
                    result = payload_dict (jget p ''execution_result'');
                    status = execution_status_in result
                in if status = Some ES_FAILED \<or> status = Some ES_REJECTED
                   then update_order i
                          (end_order r (if status = Some ES_REJECTED then OLS_REJECTED else OLS_FAILED))
                          (index_order i (update_order i (execution_fields result status) pj1))
                   else update_order i (\<lambda>o1. o1\<lparr>ord_lifecycle_status := OLS_EXECUTION_UNKNOWN\<rparr>) pj1))"

definition apply_order_rejected :: "audit_record \<Rightarrow> payload \<Rightarrow> projection \<Rightarrow> projection" where
  "apply_order_rejected r p pj =
     (if action_type_in p \<noteq> Some AT_PLACE_ORDER then pj
      else case order_by_action_payload p pj of
             None \<Rightarrow> pj | Some i \<Rightarrow> update_order i (end_order r OLS_REJECTED) pj)"

definition executed_lifecycle ::
  "audit_record \<Rightarrow> execution_status option \<Rightarrow> order_snapshot \<Rightarrow> order_snapshot" where
  "executed_lifecycle r status o1 =
     (case status of
        Some ES_ACCEPTED \<Rightarrow> o1\<lparr>ord_lifecycle_status := OLS_OPEN\<rparr>
      | Some ES_REJECTED \<Rightarrow> end_order r OLS_REJECTED o1
      | Some ES_FAILED \<Rightarrow> end_order r OLS_FAILED o1
      | _ \<Rightarrow> o1)"

definition place_order_at :: "audit_record \<Rightarrow> payload \<Rightarrow> payload \<Rightarrow> nat \<Rightarrow> projection \<Rightarrow> projection" where
  "place_order_at r p result i pj =
     (let status = execution_status_in result;
          pj1 = update_order i
                  (\<lambda>o1. execution_fields result status
                          (started_field p (o1\<lparr>ord_executed_sequence := Some (rec_sequence r)\<rparr>))) pj
      in update_order i (executed_lifecycle r status) (index_order i pj1))"

definition apply_place_order_execution ::
  "audit_record \<Rightarrow> payload \<Rightarrow> payload \<Rightarrow> projection \<Rightarrow> projection" where
  "apply_place_order_execution r p result pj =
     (case order_by_action_payload p pj of
        Some i \<Rightarrow> place_order_at r p result i pj
      | None \<Rightarrow>
          (case string_or_none (jget p ''action_id'') of
             None \<Rightarrow> pj
           | Some action_id \<Rightarrow>
               (case create_order action_id OLS_ACCEPTED pj of
                  (i, pj') \<Rightarrow> place_order_at r p result i pj')))"

definition cancelled_fields ::
  "audit_record \<Rightarrow> payload \<Rightarrow> payload \<Rightarrow> order_snapshot \<Rightarrow> order_snapshot" where
  "cancelled_fields r p result o1 =
     (let status = execution_status_in result;
          o2 = (case status of
                  Some ES_CANCELLED \<Rightarrow> end_order r OLS_CANCELLED o1
                | Some ES_FAILED \<Rightarrow> end_order r OLS_FAILED o1
                | _ \<Rightarrow> o1)
      in o2\<lparr>ord_execution_status := status,
            ord_execution_mode :=
              or_else (enum_or_none execution_mode_of (jget result ''mode'')) (ord_execution_mode o2),
            ord_last_execution_result := result,
            ord_cancel_action_ids :=
              ord_cancel_action_ids o2 @ optional_list (string_or_none (jget p ''action_id''))\<rparr>)"

definition apply_cancel_order_execution ::
  "audit_record \<Rightarrow> payload \<Rightarrow> payload \<Rightarrow> projection \<Rightarrow> projection" where
  "apply_cancel_order_execution r p result pj =
     (case order_by_execution_identifiers result pj of
        None \<Rightarrow> pj | Some i \<Rightarrow> update_order i (cancelled_fields r p result) pj)"

definition apply_order_executed :: "audit_record \<Rightarrow> payload \<Rightarrow> projection \<Rightarrow> projection" where
  "apply_order_executed r p pj =
     (let result = payload_dict (jget p ''execution_result'') in
      case or_else (action_type_in p) (action_type_in result) of
        Some AT_PLACE_ORDER \<Rightarrow> apply_place_order_execution r p result pj
      | Some AT_CANCEL_ORDER \<Rightarrow> apply_cancel_order_execution r p result pj
      | None \<Rightarrow> pj)"

fun lifecycle_from_exchange_status :: "exchange_order_status \<Rightarrow> order_lifecycle_status option" where
  "lifecycle_from_exchange_status EOS_PENDING = Some OLS_PENDING"
| "lifecycle_from_exchange_status EOS_OPEN = Some OLS_OPEN"
| "lifecycle_from_exchange_status EOS_FILLED = Some OLS_FILLED"
| "lifecycle_from_exchange_status EOS_CANCEL_QUEUED = Some OLS_CANCEL_QUEUED"
| "lifecycle_from_exchange_status EOS_CANCELLED = Some OLS_CANCELLED"
| "lifecycle_from_exchange_status EOS_EXPIRED = Some OLS_EXPIRED"
| "lifecycle_from_exchange_status EOS_FAILED = Some OLS_FAILED"
| "lifecycle_from_exchange_status EOS_UNKNOWN = None"

definition exchange_terminal :: "order_lifecycle_status \<Rightarrow> bool" where
  "exchange_terminal s \<longleftrightarrow> s \<in> {OLS_CANCELLED, OLS_EXPIRED, OLS_FAILED, OLS_FILLED}"

definition exchange_update_fields :: "audit_record \<Rightarrow> payload \<Rightarrow> order_snapshot \<Rightarrow> order_snapshot" where
  "exchange_update_fields r upd o1 =
     (let status = enum_or_none exchange_order_status_of (jget upd ''status'');
          lifecycle = (case Option.bind status lifecycle_from_exchange_status of
                         Some l \<Rightarrow> l | None \<Rightarrow> ord_lifecycle_status o1)
      in o1\<lparr>ord_exchange_order_id := or_else (string_or_none (jget upd ''order_id'')) (ord_exchange_order_id o1),
            ord_client_order_id := or_else (string_or_none (jget upd ''client_order_id'')) (ord_client_order_id o1),
            ord_product_id := or_else (string_or_none (jget upd ''product_id'')) (ord_product_id o1),
            ord_side := or_else (coinbase_order_side_or_none (jget upd ''order_side'')) (ord_side o1),
            ord_order_type := or_else (coinbase_order_type_or_none (jget upd ''order_type'')) (ord_order_type o1),
            ord_size := or_else (string_or_none (jget upd ''leaves_quantity'')) (ord_size o1),
            ord_limit_price := or_else (string_or_none (jget upd ''limit_price'')) (ord_limit_price o1),
            ord_exchange_status := status,
            ord_last_exchange_update := upd,
            ord_lifecycle_status := lifecycle,
            ord_terminal_sequence :=
              (if exchange_terminal lifecycle then Some (rec_sequence r) else ord_terminal_sequence o1)\<rparr>)"

definition exchange_update_action_id :: "audit_record \<Rightarrow> payload \<Rightarrow> string" where
  "exchange_update_action_id r upd =
     (case or_else (string_or_none (jget upd ''client_order_id'')) (string_or_none (jget upd ''order_id'')) of
        Some i \<Rightarrow> i | None \<Rightarrow> ''exchange-update-'' @ int_to_str (rec_sequence r))"

definition apply_exchange_order_update :: "audit_record \<Rightarrow> payload \<Rightarrow> projection \<Rightarrow> projection" where
  "apply_exchange_order_update r upd pj =
     (case (case order_by_exchange_update upd pj of
              Some i \<Rightarrow> (i, pj)
            | None \<Rightarrow> create_order (exchange_update_action_id r upd) OLS_PENDING pj) of
        (i, pj') \<Rightarrow> index_order i (update_order i (exchange_update_fields r upd) pj'))"

subsection \<open>Fills and positions\<close>

definition fill_average ::
  "order_snapshot \<Rightarrow> pydec option \<Rightarrow> pydec \<Rightarrow> pydec \<Rightarrow> pydec \<Rightarrow> string option res" where
  "fill_average o1 price sz previous_size next_size =
     (case price of
        None \<Rightarrow> Inr (ord_average_fill_price o1)
      | Some price \<Rightarrow>
          res_bind (dec_eq next_size dec_zero) (\<lambda>zero.
          if zero then Inr (ord_average_fill_price o1)
          else
            res_bind (dec_mul (decimal_or_zero (ord_average_fill_price o1)) previous_size) (\<lambda>previous_notional.
            res_bind (dec_mul price sz) (\<lambda>notional.
            res_bind (dec_add previous_notional notional) (\<lambda>total.
            res_bind (dec_div total next_size) (\<lambda>average.
            res_bind (decimal_string average) (\<lambda>text. Inr (Some text))))))))"

definition apply_fill_to_order :: "fill_snapshot \<Rightarrow> order_snapshot \<Rightarrow> order_snapshot res" where
  "apply_fill_to_order fill o1 =
     (if fill_fill_id fill \<in> set (ord_fill_ids o1) then Inr o1
      else
        res_bind (dec_add (decimal_or_zero (Some (ord_total_fees o1))) (decimal_or_zero (fill_commission fill)))
          (\<lambda>fees.
        res_bind (decimal_string fees) (\<lambda>fees_text.
        let o2 = o1\<lparr>ord_fill_ids := ord_fill_ids o1 @ [fill_fill_id fill], ord_total_fees := fees_text\<rparr>
        in case decimal_or_none (fill_size fill) of
             None \<Rightarrow> Inr o2
           | Some sz \<Rightarrow>
               (let previous_size = decimal_or_zero (Some (ord_filled_size o1)) in
                res_bind (dec_add previous_size sz) (\<lambda>next_size.
                res_bind (decimal_string next_size) (\<lambda>size_text.
                res_bind (fill_average o2 (decimal_or_none (fill_price fill)) sz previous_size next_size)
                  (\<lambda>average.
                Inr (o2\<lparr>ord_filled_size := size_text, ord_average_fill_price := average\<rparr>))))))))"

definition new_position :: "string \<Rightarrow> position_snapshot" where
  "new_position product_id =
     \<lparr>pos_product_id = product_id, pos_net_size = ''0'', pos_gross_buy_size = ''0'',
      pos_gross_sell_size = ''0'', pos_gross_buy_notional = ''0'', pos_gross_sell_notional = ''0'',
      pos_total_fees = ''0'', pos_fill_count = 0\<rparr>"

text \<open>\<^verbatim>\<open>_decimal_string(_decimal_or_zero(text) + d)\<close>\<close>

definition add_text :: "string \<Rightarrow> pydec \<Rightarrow> string res" where
  "add_text text d = res_bind (dec_add (decimal_or_zero (Some text)) d) decimal_string"

definition sub_text :: "string \<Rightarrow> pydec \<Rightarrow> string res" where
  "sub_text text d = res_bind (dec_sub (decimal_or_zero (Some text)) d) decimal_string"

definition fill_position ::
  "order_side \<Rightarrow> pydec \<Rightarrow> pydec \<Rightarrow> pydec \<Rightarrow> position_snapshot \<Rightarrow> position_snapshot res" where
  "fill_position side sz notional commission pos =
     res_bind
       (case side of
          OS_BUY \<Rightarrow>
            res_bind (add_text (pos_net_size pos) sz) (\<lambda>net.
            res_bind (add_text (pos_gross_buy_size pos) sz) (\<lambda>gross.
            res_bind (add_text (pos_gross_buy_notional pos) notional) (\<lambda>total.
            Inr (pos\<lparr>pos_net_size := net, pos_gross_buy_size := gross, pos_gross_buy_notional := total\<rparr>))))
        | OS_SELL \<Rightarrow>
            res_bind (sub_text (pos_net_size pos) sz) (\<lambda>net.
            res_bind (add_text (pos_gross_sell_size pos) sz) (\<lambda>gross.
            res_bind (add_text (pos_gross_sell_notional pos) notional) (\<lambda>total.
            Inr (pos\<lparr>pos_net_size := net, pos_gross_sell_size := gross, pos_gross_sell_notional := total\<rparr>)))))
       (\<lambda>pos'. res_bind (add_text (pos_total_fees pos') commission) (\<lambda>fees.
          Inr (pos'\<lparr>pos_total_fees := fees, pos_fill_count := pos_fill_count pos' + 1\<rparr>)))"

definition apply_fill_to_position :: "fill_snapshot \<Rightarrow> projection \<Rightarrow> projection res" where
  "apply_fill_to_position fill pj =
     (case (fill_product_id fill, fill_side fill, decimal_or_none (fill_size fill),
            decimal_or_none (fill_price fill)) of
        (Some product_id, Some side, Some sz, Some price) \<Rightarrow>
          (let pos = (case dict_get (pj_positions_by_product_id pj) product_id of
                        Some pos \<Rightarrow> pos | None \<Rightarrow> new_position product_id)
           in res_bind (dec_mul sz price) (\<lambda>notional.
              res_bind (fill_position side sz notional (decimal_or_zero (fill_commission fill)) pos) (\<lambda>pos'.
              Inr (pj\<lparr>pj_positions_by_product_id :=
                        dict_set product_id pos' (pj_positions_by_product_id pj)\<rparr>))))
      | _ \<Rightarrow> Inr pj)"

definition fill_of_payload ::
  "audit_record \<Rightarrow> payload \<Rightarrow> string \<Rightarrow> order_snapshot option \<Rightarrow> fill_snapshot" where
  "fill_of_payload r p fill_id o1 =
     \<lparr>fill_fill_id = fill_id, fill_sequence = rec_sequence r,
      fill_order_id = string_or_none (jget p ''order_id''),
      fill_trade_id = string_or_none (jget p ''trade_id''),
      fill_product_id =
        or_else (string_or_none (jget p ''product_id'')) (Option.bind o1 ord_product_id),
      fill_side = or_else (coinbase_order_side_or_none (jget p ''side'')) (Option.bind o1 ord_side),
      fill_price = string_or_none (jget p ''price''), fill_size = string_or_none (jget p ''size''),
      fill_commission = string_or_none (jget p ''commission''),
      fill_trade_time = string_or_none (jget p ''trade_time''), fill_payload = p\<rparr>"

definition apply_exchange_fill :: "audit_record \<Rightarrow> projection \<Rightarrow> projection res" where
  "apply_exchange_fill r pj =
     (let p = payload_dict (rec_payload r) in
      case string_or_none (jget p ''fill_id'') of
        None \<Rightarrow> Inr (error_sequence r pj)
      | Some fill_id \<Rightarrow>
          if dict_has (pj_fills_by_id pj) fill_id then Inr pj
          else
            (let order_id = string_or_none (jget p ''order_id'');
                 oi = Option.bind order_id (dict_get (pj_orders_by_exchange_order_id pj));
                 fill = fill_of_payload r p fill_id (map_option (order_at pj) oi);
                 pj1 = pj\<lparr>pj_fills_by_id := dict_set fill_id fill (pj_fills_by_id pj),
                          pj_fills_by_order_id :=
                            (case order_id of None \<Rightarrow> pj_fills_by_order_id pj
                             | Some oid \<Rightarrow> dict_append oid fill (pj_fills_by_order_id pj))\<rparr>
             in res_bind
                  (case oi of
                     None \<Rightarrow> Inr pj1
                   | Some i \<Rightarrow> res_bind (apply_fill_to_order fill (order_at pj1 i))
                                (\<lambda>o1. Inr (update_order i (\<lambda>_. o1) pj1)))
                  (apply_fill_to_position fill)))"

subsection \<open>Logical orders and placements\<close>

definition add_new :: "string \<Rightarrow> string list \<Rightarrow> string list" where
  "add_new x xs = (if x \<in> set xs then xs else xs @ [x])"

definition add_child ::
  "string option \<Rightarrow> string \<Rightarrow> (string, logical_order_snapshot) dict \<Rightarrow> (string, logical_order_snapshot) dict" where
  "add_child parent_id child d =
     (case Option.bind parent_id (\<lambda>q. map_option (Pair q) (dict_get d q)) of
        None \<Rightarrow> d
      | Some (q, parent) \<Rightarrow>
          dict_set q (parent\<lparr>lo_child_order_ids := add_new child (lo_child_order_ids parent)\<rparr>) d)"

definition setdefault_opt :: "string option \<Rightarrow> string \<Rightarrow> (string, string) dict \<Rightarrow> (string, string) dict" where
  "setdefault_opt k v d = (case k of None \<Rightarrow> d | Some k \<Rightarrow> dict_setdefault k v d)"

definition apply_logical_order_created :: "audit_record \<Rightarrow> projection \<Rightarrow> projection" where
  "apply_logical_order_created r pj =
     (let p = payload_dict (rec_payload r) in
      case (string_or_none (jget p ''logical_order_id''), string_or_none (jget p ''root_order_id''),
            enum_or_none order_lineage_relation_of (jget p ''lineage_relation''),
            string_or_none (jget p ''product_id''), enum_or_none order_side_of (jget p ''side''),
            string_or_none (jget p ''size'')) of
        (Some logical_id, Some root_id, Some relation, Some product_id, Some side, Some sz) \<Rightarrow>
          if dict_has (pj_logical_orders_by_id pj) logical_id then pj
          else
            (let lo = \<lparr>lo_logical_order_id = logical_id, lo_root_order_id = root_id,
                       lo_lineage_relation = relation, lo_product_id = product_id, lo_side = side,
                       lo_size = sz, lo_sequence = rec_sequence r, lo_child_order_ids = [],
                       lo_created_by_action_id = string_or_none (jget p ''created_by_action_id''),
                       lo_limit_price = string_or_none (jget p ''limit_price''),
                       lo_parent_order_id = string_or_none (jget p ''parent_order_id''),
                       lo_placement_ids = [], lo_payload = p,
                       lo_source_order_ids = string_tuple (jget p ''source_order_ids'')\<rparr>
             in pj\<lparr>pj_logical_orders_by_id :=
                     add_child (lo_parent_order_id lo) logical_id
                       (dict_set logical_id lo (pj_logical_orders_by_id pj)),
                   pj_logical_order_id_by_action_id :=
                     setdefault_opt (lo_created_by_action_id lo) logical_id
                       (pj_logical_order_id_by_action_id pj)\<rparr>)
      | _ \<Rightarrow> error_sequence r pj)"

definition release_relationship_ids :: "payload \<Rightarrow> string option \<times> string option" where
  "release_relationship_ids p =
     (let staged = payload_dict (jget (payload_dict (jget p ''metadata'')) ''staged_release'')
      in (string_or_none (jget staged ''release_of_action_id''),
          string_or_none (jget staged ''release_of_placement_id'')))"

definition add_placement_id ::
  "string \<Rightarrow> string \<Rightarrow> (string, logical_order_snapshot) dict \<Rightarrow> (string, logical_order_snapshot) dict" where
  "add_placement_id logical_id placement_id d =
     (case dict_get d logical_id of
        None \<Rightarrow> d
      | Some lo \<Rightarrow> dict_set logical_id (lo\<lparr>lo_placement_ids := add_new placement_id (lo_placement_ids lo)\<rparr>) d)"

definition store_placement :: "order_placement_snapshot \<Rightarrow> projection \<Rightarrow> projection" where
  "store_placement plc pj =
     pj\<lparr>pj_placements_by_id := dict_set (plc_placement_id plc) plc (pj_placements_by_id pj),
        pj_placement_ids_by_action_id :=
          (case plc_action_id plc of None \<Rightarrow> pj_placement_ids_by_action_id pj
           | Some a \<Rightarrow> dict_append a (plc_placement_id plc) (pj_placement_ids_by_action_id pj)),
        pj_logical_order_id_by_action_id :=
          setdefault_opt (plc_action_id plc) (plc_logical_order_id plc) (pj_logical_order_id_by_action_id pj),
        pj_placements_by_logical_order_id :=
          dict_append (plc_logical_order_id plc) plc (pj_placements_by_logical_order_id pj),
        pj_logical_orders_by_id :=
          add_placement_id (plc_logical_order_id plc) (plc_placement_id plc) (pj_logical_orders_by_id pj),
        pj_release_placement_id_by_staged_placement_id :=
          (if plc_placement_kind plc = OPK_RELEASE
           then setdefault_opt (plc_release_of_placement_id plc) (plc_placement_id plc)
                  (pj_release_placement_id_by_staged_placement_id pj)
           else pj_release_placement_id_by_staged_placement_id pj)\<rparr>"

definition apply_order_placement_recorded :: "audit_record \<Rightarrow> projection \<Rightarrow> projection" where
  "apply_order_placement_recorded r pj =
     (let p = payload_dict (rec_payload r) in
      case (string_or_none (jget p ''placement_id''), string_or_none (jget p ''logical_order_id''),
            enum_or_none order_placement_kind_of (jget p ''placement_kind''),
            enum_or_none order_placement_status_of (jget p ''placement_status''),
            string_or_none (jget p ''product_id''), enum_or_none order_side_of (jget p ''side''),
            string_or_none (jget p ''size'')) of
        (Some placement_id, Some logical_id, Some kind, Some status, Some product_id, Some side, Some sz) \<Rightarrow>
          if dict_has (pj_placements_by_id pj) placement_id then pj
          else
            store_placement
              \<lparr>plc_placement_id = placement_id, plc_logical_order_id = logical_id,
               plc_placement_kind = kind, plc_placement_status = status, plc_product_id = product_id,
               plc_side = side, plc_size = sz, plc_sequence = rec_sequence r,
               plc_action_id = string_or_none (jget p ''action_id''),
               plc_exchange_order_id = string_or_none (jget p ''exchange_order_id''),
               plc_limit_price = string_or_none (jget p ''limit_price''), plc_payload = p,
               plc_release_of_action_id = fst (release_relationship_ids p),
               plc_release_of_placement_id = snd (release_relationship_ids p),
               plc_venue_client_order_id = string_or_none (jget p ''venue_client_order_id'')\<rparr> pj
      | _ \<Rightarrow> error_sequence r pj)"

subsection \<open>Actions\<close>

definition new_action :: "string \<Rightarrow> action_snapshot" where
  "new_action action_id =
     \<lparr>act_action_id = action_id, act_status = AS_REQUESTED, act_requested_sequence = None,
      act_accepted_sequence = None, act_execution_started_sequence = None, act_failed_sequence = None,
      act_failure_reason = None, act_rejected_sequence = None, act_executed_sequence = None,
      act_last_payload = []\<rparr>"

definition payload_action_id :: "payload \<Rightarrow> string option" where
  "payload_action_id p = first_string p [''action_id'', ''client_order_id'', ''order_id'']"

definition is_duplicate_action_attempt :: "audit_record \<Rightarrow> action_snapshot \<Rightarrow> payload \<Rightarrow> bool" where
  "is_duplicate_action_attempt r a p \<longleftrightarrow>
     (rec_event_type r = ET_ACTION_REQUESTED \<and> act_requested_sequence a \<noteq> None) \<or>
     (rec_event_type r = ET_ACTION_REJECTED \<and>
      jget p ''rejection_reason'' = JStr (action_rejection_reason_value ARR_DUPLICATE_ACTION_ID) \<and>
      act_status a \<noteq> AS_REQUESTED)"

fun action_failure_reason_for_execution_status :: "execution_status option \<Rightarrow> action_failure_reason option" where
  "action_failure_reason_for_execution_status (Some ES_REJECTED) = Some AFR_EXECUTION_REJECTED"
| "action_failure_reason_for_execution_status (Some ES_FAILED) = Some AFR_EXECUTION_FAILED"
| "action_failure_reason_for_execution_status _ = None"

definition executed_action :: "audit_record \<Rightarrow> payload \<Rightarrow> action_snapshot \<Rightarrow> action_snapshot" where
  "executed_action r p a =
     (let a1 = a\<lparr>act_executed_sequence := Some (rec_sequence r)\<rparr> in
      case action_failure_reason_for_execution_status
             (execution_status_in (payload_dict (jget p ''execution_result''))) of
        Some reason \<Rightarrow> a1\<lparr>act_status := AS_FAILED, act_failed_sequence := Some (rec_sequence r),
                          act_failure_reason := Some reason\<rparr>
      | None \<Rightarrow> a1\<lparr>act_status := AS_EXECUTED\<rparr>)"

definition action_event :: "audit_record \<Rightarrow> payload \<Rightarrow> action_snapshot \<Rightarrow> action_snapshot" where
  "action_event r p a =
     (let a1 = a\<lparr>act_last_payload := p\<rparr>; n = Some (rec_sequence r) in
      case rec_event_type r of
        ET_ACTION_REQUESTED \<Rightarrow> a1\<lparr>act_status := AS_REQUESTED, act_requested_sequence := n\<rparr>
      | ET_ACTION_ACCEPTED \<Rightarrow> a1\<lparr>act_status := AS_ACCEPTED, act_accepted_sequence := n\<rparr>
      | ET_ACTION_EXECUTION_STARTED \<Rightarrow> a1\<lparr>act_status := AS_ACCEPTED, act_execution_started_sequence := n\<rparr>
      | ET_ACTION_EXECUTION_FAILED \<Rightarrow>
          a1\<lparr>act_status := AS_FAILED, act_failed_sequence := n,
             act_failure_reason := enum_or_none action_failure_reason_of (jget p ''failure_reason'')\<rparr>
      | ET_ACTION_REJECTED \<Rightarrow> a1\<lparr>act_status := AS_REJECTED, act_rejected_sequence := n\<rparr>
      | ET_ACTION_EXECUTED \<Rightarrow> executed_action r p a1
      | _ \<Rightarrow> a1)"

definition action_order_event :: "audit_record \<Rightarrow> payload \<Rightarrow> projection \<Rightarrow> projection" where
  "action_order_event r p =
     (case rec_event_type r of
        ET_ACTION_REQUESTED \<Rightarrow> apply_order_requested r p
      | ET_ACTION_ACCEPTED \<Rightarrow> apply_order_accepted r p
      | ET_ACTION_EXECUTION_STARTED \<Rightarrow> apply_order_execution_started r p
      | ET_ACTION_EXECUTION_FAILED \<Rightarrow> apply_order_execution_failed r p
      | ET_ACTION_REJECTED \<Rightarrow> apply_order_rejected r p
      | ET_ACTION_EXECUTED \<Rightarrow> apply_order_executed r p
      | _ \<Rightarrow> (\<lambda>pj. pj))"

definition apply_action :: "audit_record \<Rightarrow> projection \<Rightarrow> projection" where
  "apply_action r pj =
     (let p = payload_dict (rec_payload r) in
      case payload_action_id p of
        None \<Rightarrow> error_sequence r pj
      | Some action_id \<Rightarrow>
          (let current = (case dict_get (pj_actions pj) action_id of
                            Some a \<Rightarrow> a | None \<Rightarrow> new_action action_id);
               pj1 = pj\<lparr>pj_actions := dict_set action_id current (pj_actions pj)\<rparr>
           in if is_duplicate_action_attempt r current p then pj1
              else action_order_event r p
                     (pj1\<lparr>pj_actions := dict_set action_id (action_event r p current) (pj_actions pj1)\<rparr>)))"

subsection \<open>What the order cells keep\<close>

definition order_closed :: "order_lifecycle_status \<Rightarrow> bool" where
  "order_closed s \<longleftrightarrow> s \<in> {OLS_CANCELLED, OLS_EXPIRED, OLS_FAILED, OLS_FILLED, OLS_REJECTED}"

text \<open>
  A cell lists each of its fills once and only recorded ones, and says when it ended if it ended.
\<close>

definition cell_ok :: "(string, fill_snapshot) dict \<Rightarrow> order_snapshot \<Rightarrow> bool" where
  "cell_ok fills o1 \<longleftrightarrow> distinct (ord_fill_ids o1) \<and> (\<forall>f \<in> set (ord_fill_ids o1). dict_has fills f) \<and>
     (order_closed (ord_lifecycle_status o1) \<longrightarrow> ord_terminal_sequence o1 \<noteq> None)"

definition orders_ok :: "projection \<Rightarrow> bool" where
  "orders_ok pj \<longleftrightarrow>
     (\<forall>a i. dict_get (pj_orders_by_action_id pj) a = Some i \<longrightarrow>
        i < length (pj_orders pj) \<and> ord_action_id (order_at pj i) = a) \<and>
     (\<forall>c i. dict_get (pj_orders_by_client_order_id pj) c = Some i \<longrightarrow> i < length (pj_orders pj)) \<and>
     (\<forall>x i. dict_get (pj_orders_by_exchange_order_id pj) x = Some i \<longrightarrow> i < length (pj_orders pj)) \<and>
     (\<forall>i < length (pj_orders pj). cell_ok (pj_fills_by_id pj) (order_at pj i) \<and>
        (\<forall>x. ord_exchange_order_id (order_at pj i) = Some x \<longrightarrow>
           dict_has (pj_orders_by_exchange_order_id pj) x))"

definition order_view :: "projection \<Rightarrow> _" where
  "order_view pj = (pj_orders pj, pj_orders_by_action_id pj, pj_orders_by_client_order_id pj,
     pj_orders_by_exchange_order_id pj, pj_fills_by_id pj)"

lemma order_view_ok: "order_view pj' = order_view pj \<Longrightarrow> orders_ok pj \<Longrightarrow> orders_ok pj'"
  by (simp add: order_view_def orders_ok_def order_at_def)

text \<open>The rest of the state, which the order operations leave alone.\<close>

definition beside_orders :: "projection \<Rightarrow> projection" where
  "beside_orders pj = pj\<lparr>pj_orders := [], pj_orders_by_action_id := [], pj_orders_by_client_order_id := [],
     pj_orders_by_exchange_order_id := []\<rparr>"

lemma beside_orders_steps [simp]:
  "beside_orders (update_order i f pj) = beside_orders pj"
  "beside_orders (index_order i pj) = beside_orders pj"
  "beside_orders (snd (create_order a s pj)) = beside_orders pj"
  by (simp_all add: beside_orders_def update_order_def index_order_def create_order_def Let_def
      split: option.splits)

lemma update_order_sel [simp]:
  "length (pj_orders (update_order i f pj)) = length (pj_orders pj)"
  "pj_orders_by_action_id (update_order i f pj) = pj_orders_by_action_id pj"
  "pj_orders_by_client_order_id (update_order i f pj) = pj_orders_by_client_order_id pj"
  "pj_orders_by_exchange_order_id (update_order i f pj) = pj_orders_by_exchange_order_id pj"
  "pj_fills_by_id (update_order i f pj) = pj_fills_by_id pj"
  by (simp_all add: update_order_def)

lemma order_at_update:
  "i < length (pj_orders pj) \<Longrightarrow>
   order_at (update_order i f pj) j = (if j = i then f (order_at pj i) else order_at pj j)"
  by (simp add: update_order_def order_at_def)

lemma index_order_sel [simp]:
  "pj_orders (index_order i pj) = pj_orders pj"
  "pj_orders_by_action_id (index_order i pj) = pj_orders_by_action_id pj"
  "pj_fills_by_id (index_order i pj) = pj_fills_by_id pj"
  "order_at (index_order i pj) j = order_at pj j"
  by (simp_all add: index_order_def Let_def order_at_def split: option.splits)

lemma index_order_client:
  "dict_get (pj_orders_by_client_order_id (index_order i pj)) c =
     (if ord_client_order_id (order_at pj i) = Some c then Some i
      else dict_get (pj_orders_by_client_order_id pj) c)"
  by (auto simp: index_order_def Let_def split: option.splits)

lemma index_order_exchange:
  "dict_get (pj_orders_by_exchange_order_id (index_order i pj)) x =
     (if ord_exchange_order_id (order_at pj i) = Some x then Some i
      else dict_get (pj_orders_by_exchange_order_id pj) x)"
  by (auto simp: index_order_def Let_def split: option.splits)

text \<open>
  A change of a cell is harmless when it keeps the action id and the fills, and an ended order has
  its terminal sequence.
\<close>

definition harmless :: "(order_snapshot \<Rightarrow> order_snapshot) \<Rightarrow> bool" where
  "harmless f \<longleftrightarrow> (\<forall>o1. ord_action_id (f o1) = ord_action_id o1 \<and> ord_fill_ids (f o1) = ord_fill_ids o1 \<and>
     ((order_closed (ord_lifecycle_status o1) \<longrightarrow> ord_terminal_sequence o1 \<noteq> None) \<longrightarrow>
      order_closed (ord_lifecycle_status (f o1)) \<longrightarrow> ord_terminal_sequence (f o1) \<noteq> None))"

lemma harmlessI:
  assumes "\<And>o1. ord_action_id (f o1) = ord_action_id o1" and "\<And>o1. ord_fill_ids (f o1) = ord_fill_ids o1"
    and "\<And>o1. (order_closed (ord_lifecycle_status o1) \<Longrightarrow> ord_terminal_sequence o1 \<noteq> None) \<Longrightarrow>
           order_closed (ord_lifecycle_status (f o1)) \<Longrightarrow> ord_terminal_sequence (f o1) \<noteq> None"
  shows "harmless f"
  using assms unfolding harmless_def by blast

lemma harmless_cell: "harmless f \<Longrightarrow> cell_ok fills o1 \<Longrightarrow> cell_ok fills (f o1)"
  by (auto simp: harmless_def cell_ok_def)

lemma update_index_ok:
  assumes "orders_ok pj" and "i < length (pj_orders pj)" and "harmless f"
  shows "orders_ok (index_order i (update_order i f pj))"
  using assms harmless_cell [OF assms(3)]
  by (auto simp: orders_ok_def order_at_update index_order_client index_order_exchange harmless_def dict_has_def)

lemma update_order_ok:
  assumes "orders_ok pj" and "i < length (pj_orders pj)" and "harmless f"
    and "\<And>o1. ord_exchange_order_id (f o1) = ord_exchange_order_id o1"
  shows "orders_ok (update_order i f pj)"
  using assms harmless_cell [OF assms(3)]
  by (auto simp: orders_ok_def order_at_update harmless_def)

lemma create_order_ok:
  assumes "orders_ok pj" and "create_order a s pj = (i, pj')" and "\<not> order_closed s"
  shows "orders_ok pj'" and "i < length (pj_orders pj')" and "beside_orders pj' = beside_orders pj"
proof -
  from assms(2) have i: "i = length (pj_orders pj)"
    and pj': "pj' = pj\<lparr>pj_orders := pj_orders pj @ [new_order a s],
                     pj_orders_by_action_id := dict_set a i (pj_orders_by_action_id pj)\<rparr>"
    by (auto simp: create_order_def)
  have old: "order_at pj' j = order_at pj j" if "j < length (pj_orders pj)" for j
    using that by (simp add: pj' order_at_def nth_append)
  have new: "order_at pj' (length (pj_orders pj)) = new_order a s"
    by (simp add: pj' order_at_def)
  have len: "length (pj_orders pj') = Suc (length (pj_orders pj))"
    and sel: "pj_orders_by_action_id pj' = dict_set a (length (pj_orders pj)) (pj_orders_by_action_id pj)"
      "pj_orders_by_client_order_id pj' = pj_orders_by_client_order_id pj"
      "pj_orders_by_exchange_order_id pj' = pj_orders_by_exchange_order_id pj"
      "pj_fills_by_id pj' = pj_fills_by_id pj"
    by (simp_all add: pj' i)
  have "cell_ok (pj_fills_by_id pj) (new_order a s)"
    using assms(3) by (simp add: cell_ok_def new_order_def)
  moreover have "ord_exchange_order_id (new_order a s) = None" "ord_action_id (new_order a s) = a"
    by (simp_all add: new_order_def)
  ultimately show "orders_ok pj'"
    using assms(1) unfolding orders_ok_def len sel by (auto simp: less_Suc_eq old new)
  show "i < length (pj_orders pj')" by (simp add: pj' i)
  show "beside_orders pj' = beside_orders pj" by (simp add: pj' beside_orders_def)
qed

lemma order_lookup_valid:
  assumes "orders_ok pj"
  shows "order_by_action_payload p pj = Some i \<Longrightarrow> i < length (pj_orders pj)"
    and "order_by_ids x c pj = Some i \<Longrightarrow> i < length (pj_orders pj)"
  using assms
  by (auto simp: orders_ok_def order_by_action_payload_def order_by_ids_def bind_eq_Some_conv or_else_def
      split: option.splits)

lemma lifecycle_not_rejected [simp]: "lifecycle_from_exchange_status s \<noteq> Some OLS_REJECTED"
  by (cases s) simp_all

lemma harmless_steps [simp]:
  "harmless (requested_fields r c p)" "harmless (started_field p)" "harmless (execution_fields result st)"
  "harmless (end_order r s)" "harmless (executed_lifecycle r st)" "harmless (cancelled_fields r p result)"
  "harmless (exchange_update_fields r upd)"
  "harmless (\<lambda>o1. o1\<lparr>ord_lifecycle_status := OLS_ACCEPTED, ord_accepted_sequence := n\<rparr>)"
  "harmless (\<lambda>o1. o1\<lparr>ord_lifecycle_status := OLS_EXECUTION_UNKNOWN\<rparr>)"
  "harmless (\<lambda>o1. o1\<lparr>ord_execution_started_sequence := n\<rparr>)"
  by (auto intro!: harmlessI simp: requested_fields_def started_field_def execution_fields_def end_order_def
      executed_lifecycle_def cancelled_fields_def exchange_update_fields_def Let_def order_closed_def
      exchange_terminal_def bind_eq_Some_conv split: option.splits execution_status.splits if_splits)

lemma exchange_id_steps [simp]:
  "ord_exchange_order_id (requested_fields r c p o1) = ord_exchange_order_id o1"
  "ord_exchange_order_id (started_field p o1) = ord_exchange_order_id o1"
  "ord_exchange_order_id (end_order r s o1) = ord_exchange_order_id o1"
  "ord_exchange_order_id (executed_lifecycle r st o1) = ord_exchange_order_id o1"
  "ord_exchange_order_id (cancelled_fields r p result o1) = ord_exchange_order_id o1"
  by (simp_all add: requested_fields_def started_field_def end_order_def executed_lifecycle_def
      cancelled_fields_def Let_def split: option.splits execution_status.splits)

lemma apply_order_requested_ok:
  assumes "orders_ok pj"
  shows "orders_ok (apply_order_requested r p pj)"
    and "beside_orders (apply_order_requested r p pj) = beside_orders pj"
proof -
  have "orders_ok (apply_order_requested r p pj) \<and>
      beside_orders (apply_order_requested r p pj) = beside_orders pj"
  proof (cases "action_type_in p = Some AT_PLACE_ORDER \<and> string_or_none (jget p ''action_id'') \<noteq> None")
    case False
    with assms show ?thesis by (auto simp: apply_order_requested_def split: option.splits)
  next
    case True
    then obtain a where a: "action_type_in p = Some AT_PLACE_ORDER" "string_or_none (jget p ''action_id'') = Some a"
      by blast
    obtain i pj' where c: "(case dict_get (pj_orders_by_action_id pj) a of
        Some i \<Rightarrow> (i, pj) | None \<Rightarrow> create_order a OLS_REQUESTED pj) = (i, pj')" by force
    have "orders_ok pj' \<and> i < length (pj_orders pj') \<and> beside_orders pj' = beside_orders pj"
    proof (cases "dict_get (pj_orders_by_action_id pj) a")
      case None
      with c create_order_ok [OF assms] show ?thesis by (auto simp: order_closed_def)
    next
      case (Some j)
      with c assms show ?thesis by (auto simp: orders_ok_def)
    qed
    then show ?thesis
      using a c by (simp add: apply_order_requested_def update_order_ok)
  qed
  then show "orders_ok (apply_order_requested r p pj)"
    and "beside_orders (apply_order_requested r p pj) = beside_orders pj" by simp_all
qed

lemma apply_order_accepted_ok:
  "orders_ok pj \<Longrightarrow> orders_ok (apply_order_accepted r p pj)"
  "beside_orders (apply_order_accepted r p pj) = beside_orders pj"
  by (auto simp: apply_order_accepted_def split: option.splits intro!: update_index_ok
      dest: order_lookup_valid(1))

lemma apply_order_execution_started_ok:
  "orders_ok pj \<Longrightarrow> orders_ok (apply_order_execution_started r p pj)"
  "beside_orders (apply_order_execution_started r p pj) = beside_orders pj"
  by (auto simp: apply_order_execution_started_def split: option.splits intro!: update_order_ok
      dest: order_lookup_valid(1))

lemma index_order_length: "length (pj_orders (index_order i pj)) = length (pj_orders pj)"
  by simp

lemma apply_order_execution_failed_ok:
  "orders_ok pj \<Longrightarrow> orders_ok (apply_order_execution_failed r p pj)"
  "beside_orders (apply_order_execution_failed r p pj) = beside_orders pj"
  by (auto simp: apply_order_execution_failed_def Let_def split: option.splits intro!: update_order_ok
      update_index_ok dest: order_lookup_valid(1))

lemma apply_order_rejected_ok:
  "orders_ok pj \<Longrightarrow> orders_ok (apply_order_rejected r p pj)"
  "beside_orders (apply_order_rejected r p pj) = beside_orders pj"
  by (auto simp: apply_order_rejected_def split: option.splits intro!: update_order_ok
      dest: order_lookup_valid(1))

lemma place_order_at_ok:
  assumes "orders_ok pj" and "i < length (pj_orders pj)"
  shows "orders_ok (place_order_at r p result i pj)"
    and "beside_orders (place_order_at r p result i pj) = beside_orders pj"
proof -
  have "harmless (\<lambda>o1. execution_fields result st (started_field p (o1\<lparr>ord_executed_sequence := n\<rparr>)))" for st n
    by (rule harmlessI) (auto simp: execution_fields_def started_field_def split: option.splits)
  then show "orders_ok (place_order_at r p result i pj)"
    using assms by (simp add: place_order_at_def Let_def update_order_ok update_index_ok)
  show "beside_orders (place_order_at r p result i pj) = beside_orders pj"
    by (simp add: place_order_at_def Let_def)
qed

lemma apply_place_order_execution_ok:
  assumes "orders_ok pj"
  shows "orders_ok (apply_place_order_execution r p result pj)"
    and "beside_orders (apply_place_order_execution r p result pj) = beside_orders pj"
  using assms order_lookup_valid(1) [OF assms, of p] create_order_ok [OF assms]
  by (auto simp: apply_place_order_execution_def place_order_at_ok order_closed_def split: option.splits prod.splits)

lemma apply_cancel_order_execution_ok:
  "orders_ok pj \<Longrightarrow> orders_ok (apply_cancel_order_execution r p result pj)"
  "beside_orders (apply_cancel_order_execution r p result pj) = beside_orders pj"
  by (auto simp: apply_cancel_order_execution_def order_by_execution_identifiers_def split: option.splits
      intro!: update_order_ok dest: order_lookup_valid(2))

lemma apply_order_executed_ok:
  assumes "orders_ok pj"
  shows "orders_ok (apply_order_executed r p pj)"
    and "beside_orders (apply_order_executed r p pj) = beside_orders pj"
  using assms
  by (auto simp: apply_order_executed_def Let_def apply_place_order_execution_ok
      apply_cancel_order_execution_ok split: option.splits action_type.splits)

lemma apply_exchange_order_update_ok:
  assumes "orders_ok pj"
  shows "orders_ok (apply_exchange_order_update r upd pj)"
    and "beside_orders (apply_exchange_order_update r upd pj) = beside_orders pj"
proof -
  obtain i pj' where c: "(case order_by_exchange_update upd pj of
      Some i \<Rightarrow> (i, pj) | None \<Rightarrow> create_order (exchange_update_action_id r upd) OLS_PENDING pj) = (i, pj')"
    by force
  have "orders_ok pj' \<and> i < length (pj_orders pj') \<and> beside_orders pj' = beside_orders pj"
    using c assms create_order_ok [OF assms] order_lookup_valid(2) [OF assms]
    by (auto simp: order_by_exchange_update_def order_closed_def split: option.splits)
  then show "orders_ok (apply_exchange_order_update r upd pj)"
    and "beside_orders (apply_exchange_order_update r upd pj) = beside_orders pj"
    unfolding apply_exchange_order_update_def c by (simp_all add: update_index_ok)
qed

subsection \<open>Fills\<close>

lemma apply_fill_to_order_Inr:
  assumes "apply_fill_to_order fill o1 = Inr o2"
  shows "ord_action_id o2 = ord_action_id o1" and "ord_lifecycle_status o2 = ord_lifecycle_status o1"
    and "ord_terminal_sequence o2 = ord_terminal_sequence o1"
    and "ord_exchange_order_id o2 = ord_exchange_order_id o1"
    and "ord_fill_ids o2 = add_new (fill_fill_id fill) (ord_fill_ids o1)"
  using assms
  by (auto simp: apply_fill_to_order_def add_new_def res_bind_Inr Let_def split: if_splits option.splits)

lemma apply_fill_to_position_orders:
  assumes "apply_fill_to_position fill pj = Inr pj'"
  shows "\<exists>positions. pj' = pj\<lparr>pj_positions_by_product_id := positions\<rparr>"
proof (cases "pj' = pj")
  case True
  then show ?thesis by (intro exI [of _ "pj_positions_by_product_id pj"]) simp
next
  case False
  with assms show ?thesis
    by (auto simp: apply_fill_to_position_def Let_def res_bind_Inr split: option.splits prod.splits)
qed

text \<open>A recorded fill: the fill is stored, its order's cell lists it, a position may change.\<close>

lemma apply_exchange_fill_new:
  assumes "apply_exchange_fill r pj = Inr pj'"
    and "string_or_none (jget (payload_dict (rec_payload r)) ''fill_id'') = Some fill_id"
    and "\<not> dict_has (pj_fills_by_id pj) fill_id"
  obtains fill pj1 by_order positions where
    "fill_fill_id fill = fill_id"
    "pj1 = pj\<lparr>pj_fills_by_id := dict_set fill_id fill (pj_fills_by_id pj), pj_fills_by_order_id := by_order\<rparr>"
    "pj' = pj1\<lparr>pj_positions_by_product_id := positions\<rparr> \<or>
     (\<exists>i o1 x. dict_get (pj_orders_by_exchange_order_id pj) x = Some i \<and>
        apply_fill_to_order fill (order_at pj i) = Inr o1 \<and>
        pj' = (update_order i (\<lambda>_. o1) pj1)\<lparr>pj_positions_by_product_id := positions\<rparr>)"
proof -
  let ?p = "payload_dict (rec_payload r)"
  let ?oid = "string_or_none (jget ?p ''order_id'')"
  let ?oi = "Option.bind ?oid (dict_get (pj_orders_by_exchange_order_id pj))"
  define fill where "fill = fill_of_payload r ?p fill_id (map_option (order_at pj) ?oi)"
  define pj1 where "pj1 = pj\<lparr>pj_fills_by_id := dict_set fill_id fill (pj_fills_by_id pj),
      pj_fills_by_order_id := (case ?oid of None \<Rightarrow> pj_fills_by_order_id pj
                               | Some oid \<Rightarrow> dict_append oid fill (pj_fills_by_order_id pj))\<rparr>"
  have at: "order_at pj1 i = order_at pj i" for i by (simp add: pj1_def order_at_def)
  have id: "fill_fill_id fill = fill_id" by (simp add: fill_def fill_of_payload_def)
  have "apply_exchange_fill r pj =
      res_bind (case ?oi of None \<Rightarrow> Inr pj1
                | Some i \<Rightarrow> res_bind (apply_fill_to_order fill (order_at pj1 i))
                             (\<lambda>o1. Inr (update_order i (\<lambda>_. o1) pj1)))
        (apply_fill_to_position fill)"
    using assms(2,3) by (simp only: apply_exchange_fill_def Let_def option.case if_False fill_def pj1_def)
  with assms(1) obtain pj2 where
    pj2: "(case ?oi of None \<Rightarrow> Inr pj1
           | Some i \<Rightarrow> res_bind (apply_fill_to_order fill (order_at pj1 i))
                        (\<lambda>o1. Inr (update_order i (\<lambda>_. o1) pj1))) = (Inr pj2 :: projection res)"
    and pos: "apply_fill_to_position fill pj2 = Inr pj'"
    by (auto simp: res_bind_Inr)
  obtain positions where pj': "pj' = pj2\<lparr>pj_positions_by_product_id := positions\<rparr>"
    using apply_fill_to_position_orders [OF pos] by blast
  show thesis
  proof (cases ?oi)
    case None
    with pj2 pj' show ?thesis by (intro that [where positions = positions, OF id pj1_def]) simp
  next
    case (Some i)
    then obtain x where x: "dict_get (pj_orders_by_exchange_order_id pj) x = Some i"
      by (auto simp: bind_eq_Some_conv)
    from pj2 Some obtain o1 where "apply_fill_to_order fill (order_at pj i) = Inr o1"
      and "pj2 = update_order i (\<lambda>_. o1) pj1"
      by (auto simp: res_bind_Inr at)
    with pj' x show ?thesis by (intro that [OF id pj1_def]) blast
  qed
qed

lemma cell_ok_more_fills: "cell_ok fills o1 \<Longrightarrow> cell_ok (dict_set k f fills) o1"
  by (auto simp: cell_ok_def)

lemma store_fill_ok:
  "orders_ok pj \<Longrightarrow>
   orders_ok (pj\<lparr>pj_fills_by_id := dict_set k f (pj_fills_by_id pj), pj_fills_by_order_id := b\<rparr>)"
  by (simp add: orders_ok_def order_at_def cell_ok_more_fills)

lemma filled_cell_ok:
  assumes "orders_ok pj" and "i < length (pj_orders pj)"
    and "apply_fill_to_order fill (order_at pj i) = Inr o1" and "dict_has (pj_fills_by_id pj) (fill_fill_id fill)"
  shows "orders_ok (update_order i (\<lambda>_. o1) pj)"
proof -
  note same = apply_fill_to_order_Inr [OF assms(3)]
  have "cell_ok (pj_fills_by_id pj) o1"
    using assms(1,2,4) same by (auto simp: orders_ok_def cell_ok_def add_new_def)
  with assms(1,2) same show ?thesis
    by (simp add: orders_ok_def order_at_update)
qed

lemma positions_view [simp]:
  "order_view (pj\<lparr>pj_positions_by_product_id := x\<rparr>) = order_view pj"
  by (simp add: order_view_def)

lemma apply_exchange_fill_ok:
  assumes "apply_exchange_fill r pj = Inr pj'" and "orders_ok pj"
  shows "orders_ok pj'"
proof (cases "string_or_none (jget (payload_dict (rec_payload r)) ''fill_id'')")
  case None
  with assms have "order_view pj' = order_view pj"
    by (auto simp: apply_exchange_fill_def error_sequence_def order_view_def)
  from order_view_ok [OF this assms(2)] show ?thesis .
next
  case (Some fill_id)
  show ?thesis
  proof (cases "dict_has (pj_fills_by_id pj) fill_id")
    case True
    with Some assms show ?thesis by (simp add: apply_exchange_fill_def)
  next
    case False
    from assms(1) Some False show ?thesis
    proof (rule apply_exchange_fill_new)
      fix fill pj1 by_order positions
      assume id: "fill_fill_id fill = fill_id"
        and pj1: "pj1 = pj\<lparr>pj_fills_by_id := dict_set fill_id fill (pj_fills_by_id pj),
                         pj_fills_by_order_id := by_order\<rparr>"
        and "pj' = pj1\<lparr>pj_positions_by_product_id := positions\<rparr> \<or>
          (\<exists>i o1 x. dict_get (pj_orders_by_exchange_order_id pj) x = Some i \<and>
            apply_fill_to_order fill (order_at pj i) = Inr o1 \<and>
            pj' = (update_order i (\<lambda>_. o1) pj1)\<lparr>pj_positions_by_product_id := positions\<rparr>)"
      then consider "pj' = pj1\<lparr>pj_positions_by_product_id := positions\<rparr>"
        | i o1 x where "dict_get (pj_orders_by_exchange_order_id pj) x = Some i"
          "apply_fill_to_order fill (order_at pj i) = Inr o1"
          "pj' = (update_order i (\<lambda>_. o1) pj1)\<lparr>pj_positions_by_product_id := positions\<rparr>" by blast
      note cases = this
      have ok1: "orders_ok pj1" unfolding pj1 using assms(2) by (rule store_fill_ok)
      from cases show "orders_ok pj'"
      proof cases
        case 1
        with ok1 show ?thesis by (metis order_view_ok positions_view)
      next
        case 2
        have "i < length (pj_orders pj1)" using 2(1) assms(2) by (auto simp: orders_ok_def pj1)
        moreover have "apply_fill_to_order fill (order_at pj1 i) = Inr o1"
          using 2(2) by (simp add: pj1 order_at_def)
        moreover have "dict_has (pj_fills_by_id pj1) (fill_fill_id fill)" by (simp add: pj1 id)
        ultimately have "orders_ok (update_order i (\<lambda>_. o1) pj1)" by (rule filled_cell_ok [OF ok1])
        with 2(3) show ?thesis by (metis order_view_ok positions_view)
      qed
    qed
  qed
qed

text \<open>A fill is counted once: a record with a fill id that is known changes nothing.\<close>

lemma known_fill_ignored:
  assumes "string_or_none (jget (payload_dict (rec_payload r)) ''fill_id'') = Some fill_id"
    and "dict_has (pj_fills_by_id pj) fill_id"
  shows "apply_exchange_fill r pj = Inr pj"
  using assms by (simp add: apply_exchange_fill_def)

lemma fill_becomes_known:
  assumes "apply_exchange_fill r pj = Inr pj'"
    and "string_or_none (jget (payload_dict (rec_payload r)) ''fill_id'') = Some fill_id"
  shows "dict_has (pj_fills_by_id pj') fill_id"
proof (cases "dict_has (pj_fills_by_id pj) fill_id")
  case True
  with known_fill_ignored [OF assms(2) True] assms(1) show ?thesis by simp
next
  case False
  from assms(1,2) False show ?thesis by (rule apply_exchange_fill_new) auto
qed

subsection \<open>Placements and releases\<close>

definition placement_view :: "projection \<Rightarrow> _" where
  "placement_view pj = (pj_placements_by_id pj, pj_placement_ids_by_action_id pj,
     pj_placements_by_logical_order_id pj, pj_release_placement_id_by_staged_placement_id pj)"

definition releases :: "order_placement_snapshot \<Rightarrow> string \<Rightarrow> bool" where
  "releases plc staged_id \<longleftrightarrow> plc_placement_kind plc = OPK_RELEASE \<and>
     plc_release_of_placement_id plc = Some staged_id"

text \<open>
  The indices list exactly the recorded placements, and the release map names, for every placement
  some recorded release refers to, one such release.
\<close>

definition placement_keys_ok :: "(string, order_placement_snapshot) dict \<Rightarrow> bool" where
  "placement_keys_ok d \<longleftrightarrow> distinct (dict_keys d)"

definition placements_ok :: "projection \<Rightarrow> bool" where
  "placements_ok pj \<longleftrightarrow> placement_keys_ok (pj_placements_by_id pj) \<and>
     (\<forall>i plc. dict_get (pj_placements_by_id pj) i = Some plc \<longrightarrow> plc_placement_id plc = i) \<and>
     (\<forall>l plc. plc \<in> set (dict_get_or (pj_placements_by_logical_order_id pj) l []) \<longleftrightarrow>
        dict_get (pj_placements_by_id pj) (plc_placement_id plc) = Some plc \<and> plc_logical_order_id plc = l) \<and>
     (\<forall>a i. i \<in> set (dict_get_or (pj_placement_ids_by_action_id pj) a []) \<longleftrightarrow>
        (\<exists>plc. dict_get (pj_placements_by_id pj) i = Some plc \<and> plc_action_id plc = Some a)) \<and>
     (\<forall>k i. dict_get (pj_release_placement_id_by_staged_placement_id pj) k = Some i \<longrightarrow>
        (\<exists>plc. dict_get (pj_placements_by_id pj) i = Some plc \<and> releases plc k)) \<and>
     (\<forall>i plc k. dict_get (pj_placements_by_id pj) i = Some plc \<longrightarrow> releases plc k \<longrightarrow>
        dict_has (pj_release_placement_id_by_staged_placement_id pj) k)"

lemma placement_view_ok: "placement_view pj' = placement_view pj \<Longrightarrow> placements_ok pj \<Longrightarrow> placements_ok pj'"
  by (simp add: placement_view_def placements_ok_def)

lemma store_placement_ok:
  assumes "placements_ok pj" and "\<not> dict_has (pj_placements_by_id pj) (plc_placement_id plc)"
  shows "placements_ok (store_placement plc pj)"
proof -
  let ?pj = "store_placement plc pj"
  have new: "dict_get (pj_placements_by_id pj) (plc_placement_id plc) = None"
    using assms(2) by (simp add: dict_has_def)
  have by_id: "dict_get (pj_placements_by_id ?pj) i =
      (if i = plc_placement_id plc then Some plc else dict_get (pj_placements_by_id pj) i)" for i
    by (simp add: store_placement_def)
  have by_logical: "dict_get_or (pj_placements_by_logical_order_id ?pj) l [] =
      dict_get_or (pj_placements_by_logical_order_id pj) l [] @
      (if l = plc_logical_order_id plc then [plc] else [])" for l
    by (simp add: store_placement_def)
  have by_action: "dict_get_or (pj_placement_ids_by_action_id ?pj) a [] =
      dict_get_or (pj_placement_ids_by_action_id pj) a [] @
      (if plc_action_id plc = Some a then [plc_placement_id plc] else [])" for a
    by (auto simp: store_placement_def split: option.splits)
  have rel: "dict_get (pj_release_placement_id_by_staged_placement_id ?pj) k =
      (if releases plc k \<and> \<not> dict_has (pj_release_placement_id_by_staged_placement_id pj) k
       then Some (plc_placement_id plc)
       else dict_get (pj_release_placement_id_by_staged_placement_id pj) k)" for k
    by (auto simp: store_placement_def releases_def setdefault_opt_def split: option.splits)
  have ids: "plc_placement_id q = i" if "dict_get (pj_placements_by_id pj) i = Some q" for i q
    using assms(1) that by (simp add: placements_ok_def)
  have logical: "q \<in> set (dict_get_or (pj_placements_by_logical_order_id pj) l []) \<longleftrightarrow>
      dict_get (pj_placements_by_id pj) (plc_placement_id q) = Some q \<and> plc_logical_order_id q = l" for l q
    using assms(1) by (simp add: placements_ok_def)
  have actions: "i \<in> set (dict_get_or (pj_placement_ids_by_action_id pj) a []) \<longleftrightarrow>
      (\<exists>q. dict_get (pj_placements_by_id pj) i = Some q \<and> plc_action_id q = Some a)" for a i
    using assms(1) by (simp add: placements_ok_def)
  have released: "\<exists>q. dict_get (pj_placements_by_id pj) i = Some q \<and> releases q k"
    if "dict_get (pj_release_placement_id_by_staged_placement_id pj) k = Some i" for k i
    using assms(1) that by (simp add: placements_ok_def)
  have noted: "dict_has (pj_release_placement_id_by_staged_placement_id pj) k"
    if "dict_get (pj_placements_by_id pj) i = Some q" "releases q k" for i q k
    using assms(1) that by (auto simp: placements_ok_def)
  show ?thesis
    unfolding placements_ok_def
  proof (intro conjI allI impI)
    show "placement_keys_ok (pj_placements_by_id ?pj)"
      using assms(1) by (simp add: placements_ok_def store_placement_def placement_keys_ok_def)
    show "plc_placement_id q = i" if "dict_get (pj_placements_by_id ?pj) i = Some q" for i q
      using that ids by (auto simp: by_id split: if_splits)
    show "q \<in> set (dict_get_or (pj_placements_by_logical_order_id ?pj) l []) \<longleftrightarrow>
        dict_get (pj_placements_by_id ?pj) (plc_placement_id q) = Some q \<and> plc_logical_order_id q = l" for l q
      using logical new by (auto simp: by_id by_logical)
    show "i \<in> set (dict_get_or (pj_placement_ids_by_action_id ?pj) a []) \<longleftrightarrow>
        (\<exists>q. dict_get (pj_placements_by_id ?pj) i = Some q \<and> plc_action_id q = Some a)" for a i
      using actions new by (auto simp: by_id by_action)
    show "\<exists>q. dict_get (pj_placements_by_id ?pj) i = Some q \<and> releases q k"
      if "dict_get (pj_release_placement_id_by_staged_placement_id ?pj) k = Some i" for k i
    proof (cases "i = plc_placement_id plc")
      case True
      with that released [of k i] new show ?thesis by (auto simp: by_id rel split: if_splits)
    next
      case False
      with that released [of k i] show ?thesis by (auto simp: by_id rel split: if_splits)
    qed
    show "dict_has (pj_release_placement_id_by_staged_placement_id ?pj) k"
      if "dict_get (pj_placements_by_id ?pj) i = Some q" "releases q k" for i q k
      using that noted by (auto simp: by_id rel dict_has_def split: if_splits)
  qed
qed

lemma apply_order_placement_recorded_cases:
  "apply_order_placement_recorded r pj = pj \<or> apply_order_placement_recorded r pj = error_sequence r pj \<or>
   (\<exists>plc. apply_order_placement_recorded r pj = store_placement plc pj \<and>
      \<not> dict_has (pj_placements_by_id pj) (plc_placement_id plc))"
  by (simp add: apply_order_placement_recorded_def Let_def split: option.splits)
    (metis order_placement_snapshot.select_convs(1))

lemma error_sequence_views [simp]:
  "placement_view (error_sequence r pj) = placement_view pj"
  "order_view (error_sequence r pj) = order_view pj"
  by (simp_all add: error_sequence_def placement_view_def order_view_def)

lemma apply_order_placement_recorded_ok:
  assumes "placements_ok pj"
  shows "placements_ok (apply_order_placement_recorded r pj)"
  using apply_order_placement_recorded_cases [of r pj] assms store_placement_ok [OF assms]
    placement_view_ok [OF error_sequence_views(1) assms]
  by auto

lemma store_placement_order_view [simp]: "order_view (store_placement plc pj) = order_view pj"
  by (simp add: store_placement_def order_view_def)

text \<open>A release, once recorded, stays the release of its placement.\<close>

lemma release_stays:
  assumes "dict_get (pj_release_placement_id_by_staged_placement_id pj) k = Some i"
  shows "dict_get (pj_release_placement_id_by_staged_placement_id (apply_order_placement_recorded r pj)) k = Some i"
  using apply_order_placement_recorded_cases [of r pj] assms
  by (auto simp: store_placement_def setdefault_opt_def error_sequence_def dict_has_def split: option.splits)

end
