(* ===== verification/Facts.thy ===== *)
theory Facts
  imports Market Orders
begin

text \<open>
  The remaining handlers of \<^verbatim>\<open>projections/state.py\<close>: audit anchors, archives and checkpoints, operator
  and health results, strategy evaluations, feed sources, errors, reconciliation, exchange snapshots
  and request retries. A record without the fields its snapshot needs adds its sequence to
  \<open>pj_error_sequences\<close>.
\<close>

abbreviation record_payload :: "audit_record \<Rightarrow> payload" where
  "record_payload r \<equiv> payload_dict (rec_payload r)"

subsection \<open>Audit\<close>

definition apply_audit_anchor :: "audit_record \<Rightarrow> projection \<Rightarrow> projection" where
  "apply_audit_anchor r pj =
     (let p = record_payload r in
      case (string_or_none (jget p ''artifact_uri''), string_or_none (jget p ''checkpoint_hash''),
            int_or_none (jget p ''checkpoint_through_sequence'')) of
        (Some uri, Some hash, Some through) \<Rightarrow>
          pj\<lparr>pj_audit_anchors := pj_audit_anchors pj @
               [\<lparr>anchor_sequence = rec_sequence r, anchor_artifact_uri = uri, anchor_checkpoint_hash = hash,
                 anchor_checkpoint_through_sequence = through,
                 anchor_immutability_mode =
                   enum_or_none anchor_immutability_mode_of (jget p ''immutability_mode''),
                 anchor_payload = p, anchor_retention_until = string_or_none (jget p ''retention_until''),
                 anchor_store_metadata = payload_dict (jget p ''store_metadata''),
                 anchor_store_type = enum_or_none anchor_store_type_of (jget p ''store_type''),
                 anchor_version_id = string_or_none (jget p ''version_id'')\<rparr>]\<rparr>
      | _ \<Rightarrow> error_sequence r pj)"

definition apply_audit_archive :: "audit_record \<Rightarrow> projection \<Rightarrow> projection" where
  "apply_audit_archive r pj =
     (let p = record_payload r in
      case (string_or_none (jget p ''artifact_uri''), int_or_none (jget p ''record_count''),
            string_or_none (jget p ''through_hash''), int_or_none (jget p ''through_sequence'')) of
        (Some uri, Some n, Some hash, Some through) \<Rightarrow>
          pj\<lparr>pj_audit_archives := pj_audit_archives pj @
               [\<lparr>arch_sequence = rec_sequence r, arch_artifact_uri = uri, arch_record_count = n,
                 arch_through_hash = hash, arch_through_sequence = through,
                 arch_immutability_mode =
                   enum_or_none anchor_immutability_mode_of (jget p ''immutability_mode''),
                 arch_payload = p, arch_retention_until = string_or_none (jget p ''retention_until''),
                 arch_store_metadata = payload_dict (jget p ''store_metadata''),
                 arch_store_type = enum_or_none anchor_store_type_of (jget p ''store_type''),
                 arch_version_id = string_or_none (jget p ''version_id'')\<rparr>]\<rparr>
      | _ \<Rightarrow> error_sequence r pj)"

definition apply_audit_checkpoint :: "audit_record \<Rightarrow> projection \<Rightarrow> projection" where
  "apply_audit_checkpoint r pj =
     (let p = record_payload r in
      case string_or_none (jget p ''checkpoint_hash'') of
        None \<Rightarrow> error_sequence r pj
      | Some hash \<Rightarrow>
          pj\<lparr>pj_audit_checkpoints := pj_audit_checkpoints pj @
               [\<lparr>chk_sequence = rec_sequence r, chk_checkpoint_hash = hash,
                 chk_created_at = string_or_none (jget p ''created_at''),
                 chk_digest_algorithm = enum_or_none digest_algorithm_of (jget p ''digest_algorithm''),
                 chk_ledger_path = string_or_none (jget p ''ledger_path''), chk_payload = p,
                 chk_record_count = int_or_none (jget p ''record_count''),
                 chk_records_digest = string_or_none (jget p ''records_digest''),
                 chk_through_hash = string_or_none (jget p ''through_hash''),
                 chk_through_sequence = int_or_none (jget p ''through_sequence'')\<rparr>]\<rparr>)"

subsection \<open>Operator and health results\<close>

definition apply_live_preflight_result :: "audit_record \<Rightarrow> projection \<Rightarrow> projection" where
  "apply_live_preflight_result r pj =
     (let p = record_payload r in
      pj\<lparr>pj_live_preflight_results := pj_live_preflight_results pj @
           [\<lparr>lpf_sequence = rec_sequence r,
             lpf_status = enum_or_none readiness_status_of (jget p ''status''),
             lpf_completed_step_names = string_tuple (jget p ''completed_step_names''),
             lpf_config_fingerprint = string_or_none (jget p ''config_fingerprint''),
             lpf_payload = p\<rparr>]\<rparr>)"

definition apply_ledger_health_acknowledgement :: "audit_record \<Rightarrow> projection \<Rightarrow> projection" where
  "apply_ledger_health_acknowledgement r pj =
     (let p = record_payload r in
      pj\<lparr>pj_ledger_health_acknowledgements := pj_ledger_health_acknowledgements pj @
           [\<lparr>ack_sequence = rec_sequence r,
             ack_acknowledged_by = string_or_none (jget p ''acknowledged_by''),
             ack_acknowledged_health_status =
               enum_or_none ledger_health_status_of (jget p ''acknowledged_health_status''),
             ack_acknowledged_through_hash = string_or_none (jget p ''acknowledged_through_hash''),
             ack_acknowledged_through_sequence = int_or_none (jget p ''acknowledged_through_sequence''),
             ack_attention_check_count = int_or_none (jget p ''attention_check_count''),
             ack_ledger_health_attention_digest = string_or_none (jget p ''ledger_health_attention_digest''),
             ack_payload = p, ack_reason = string_or_none (jget p ''reason'')\<rparr>]\<rparr>)"

definition apply_operator_canary_evidence_result :: "audit_record \<Rightarrow> projection \<Rightarrow> projection" where
  "apply_operator_canary_evidence_result r pj =
     (let p = record_payload r in
      pj\<lparr>pj_operator_canary_evidence_results := pj_operator_canary_evidence_results pj @
           [\<lparr>canary_sequence = rec_sequence r,
             canary_status = enum_or_none readiness_status_of (jget p ''status''),
             canary_action_id = string_or_none (jget p ''action_id''),
             canary_exchange_order_id = string_or_none (jget p ''exchange_order_id''),
             canary_issue_count = int_or_zero (jget p ''issue_count''),
             canary_issue_names = string_tuple (jget p ''issue_names''), canary_payload = p,
             canary_product_id = string_or_none (jget p ''product_id'')\<rparr>]\<rparr>)"

definition apply_runtime_health_check_result :: "audit_record \<Rightarrow> projection \<Rightarrow> projection" where
  "apply_runtime_health_check_result r pj =
     (let p = record_payload r in
      pj\<lparr>pj_runtime_health_check_results := pj_runtime_health_check_results pj @
           [\<lparr>rhc_sequence = rec_sequence r,
             rhc_checked_health_status =
               enum_or_none ledger_health_status_of (jget p ''checked_health_status''),
             rhc_checked_through_sequence = int_or_none (jget p ''checked_through_sequence''),
             rhc_attention_check_count = int_or_none (jget p ''attention_check_count''),
             rhc_attention_checks = string_tuple (jget p ''attention_checks''), rhc_payload = p,
             rhc_record_count = int_or_none (jget p ''record_count'')\<rparr>]\<rparr>)"

definition apply_strategy_simulation_result :: "audit_record \<Rightarrow> projection \<Rightarrow> projection" where
  "apply_strategy_simulation_result r pj =
     (let p = record_payload r in
      pj\<lparr>pj_strategy_simulation_results := pj_strategy_simulation_results pj @
           [\<lparr>sim_sequence = rec_sequence r,
             sim_status = enum_or_none strategy_simulation_status_of (jget p ''status''),
             sim_accepted_action_count = int_or_zero (jget p ''accepted_action_count''),
             sim_config_fingerprint = string_or_none (jget p ''config_fingerprint''),
             sim_failed_count = int_or_zero (jget p ''failed_count''),
             sim_rejected_action_count = int_or_zero (jget p ''rejected_action_count''),
             sim_strategy_ids = string_tuple (jget p ''strategy_ids''), sim_payload = p\<rparr>]\<rparr>)"

subsection \<open>Runtime and strategies\<close>

definition new_runtime_task :: "runtime_task \<Rightarrow> runtime_task_snapshot" where
  "new_runtime_task t =
     \<lparr>task_task_id = t, task_completed_count = 0, task_last_completed_sequence = None,
      task_last_error_sequence = None, task_last_result = JObj [], task_last_started_sequence = None,
      task_started_count = 0\<rparr>"

definition runtime_task_of_projection :: "projection \<Rightarrow> runtime_task \<Rightarrow> runtime_task_snapshot" where
  "runtime_task_of_projection pj t =
     (case dict_get (pj_runtime_tasks pj) t of Some s \<Rightarrow> s | None \<Rightarrow> new_runtime_task t)"

definition set_runtime_task :: "runtime_task \<Rightarrow> runtime_task_snapshot \<Rightarrow> projection \<Rightarrow> projection" where
  "set_runtime_task t s pj = pj\<lparr>pj_runtime_tasks := dict_set t s (pj_runtime_tasks pj)\<rparr>"

definition apply_runtime_task :: "audit_record \<Rightarrow> projection \<Rightarrow> projection" where
  "apply_runtime_task r pj =
     (let p = record_payload r in
      case enum_or_none runtime_task_of (jget p ''task_id'') of
        None \<Rightarrow> error_sequence r pj
      | Some t \<Rightarrow>
          (let s = runtime_task_of_projection pj t in
           set_runtime_task t
             (if rec_event_type r = ET_RUNTIME_TASK_STARTED then
                s\<lparr>task_started_count := task_started_count s + 1,
                  task_last_started_sequence := Some (rec_sequence r)\<rparr>
              else if rec_event_type r = ET_RUNTIME_TASK_COMPLETED then
                s\<lparr>task_completed_count := task_completed_count s + 1,
                  task_last_completed_sequence := Some (rec_sequence r),
                  task_last_result := jget p ''result''\<rparr>
              else s) pj))"

definition apply_runtime_task_error :: "audit_record \<Rightarrow> projection \<Rightarrow> projection" where
  "apply_runtime_task_error r pj =
     (case enum_or_none runtime_task_of (jget (record_payload r) ''task_id'') of
        None \<Rightarrow> pj
      | Some t \<Rightarrow>
          set_runtime_task t
            ((runtime_task_of_projection pj t)\<lparr>task_last_error_sequence := Some (rec_sequence r)\<rparr>) pj)"

definition strategy_action_ids :: "json \<Rightarrow> string list" where
  "strategy_action_ids j =
     List.map_filter (\<lambda>receipt. string_or_none (jget receipt ''action_id'')) (payload_dicts j)"

definition closed_evaluation ::
  "audit_record \<Rightarrow> payload \<Rightarrow> strategy_evaluation_snapshot \<Rightarrow> strategy_evaluation_snapshot" where
  "closed_evaluation r p s =
     (let ids = strategy_action_ids (jget p ''action_receipts'') in
      s\<lparr>seval_action_ids := ids,
        seval_as_of_sequence := int_or (int_or_none (jget p ''as_of_sequence'')) (seval_as_of_sequence s),
        seval_closed_sequence := Some (rec_sequence r),
        seval_error_sequence := int_or_none (jget p ''error_sequence''),
        seval_intent_count := (case int_or_none (jget p ''intent_count'') of Some n \<Rightarrow> n | None \<Rightarrow> 0),
        seval_payload := p,
        seval_status :=
          (case enum_or_none strategy_evaluation_status_of (jget p ''status'') of
             Some st \<Rightarrow> st
           | None \<Rightarrow> if rec_event_type r = ET_STRATEGY_EVALUATION_FAILED then SES_FAILED else SES_COMPLETED),
        seval_submitted_action_count :=
          (case int_or (int_or_none (jget p ''submitted_action_count'')) None of
             Some n \<Rightarrow> n | None \<Rightarrow> int (length ids))\<rparr>)"

definition apply_strategy_evaluation :: "audit_record \<Rightarrow> projection \<Rightarrow> projection" where
  "apply_strategy_evaluation r pj =
     (let p = record_payload r in
      case string_or_none (jget p ''strategy_id'') of
        None \<Rightarrow> error_sequence r pj
      | Some strategy_id \<Rightarrow>
          if rec_event_type r = ET_STRATEGY_EVALUATION_STARTED then
            pj\<lparr>pj_strategy_evaluations := pj_strategy_evaluations pj @
                 [\<lparr>seval_strategy_id = strategy_id, seval_status = SES_STARTED,
                   seval_started_sequence = rec_sequence r, seval_action_ids = [],
                   seval_as_of_sequence = int_or_none (jget p ''as_of_sequence''),
                   seval_closed_sequence = None, seval_error_sequence = None, seval_intent_count = 0,
                   seval_payload = p, seval_submitted_action_count = 0\<rparr>],
               pj_strategy_evaluations_by_started_sequence :=
                 dict_set (rec_sequence r) (length (pj_strategy_evaluations pj))
                   (pj_strategy_evaluations_by_started_sequence pj)\<rparr>
          else
            (case Option.bind (int_or_none (jget p ''started_sequence''))
                    (dict_get (pj_strategy_evaluations_by_started_sequence pj)) of
               None \<Rightarrow> error_sequence r pj
             | Some i \<Rightarrow>
                 pj\<lparr>pj_strategy_evaluations :=
                      (pj_strategy_evaluations pj)
                        [i := closed_evaluation r p (pj_strategy_evaluations pj ! i)]\<rparr>))"

definition apply_system_started :: "audit_record \<Rightarrow> projection \<Rightarrow> projection" where
  "apply_system_started r pj =
     (let p = record_payload r in
      pj\<lparr>pj_system_starts := pj_system_starts pj @
           [\<lparr>start_sequence = rec_sequence r,
             start_component = enum_or_none runtime_component_of (jget p ''component''),
             start_startup_metadata = payload_dict (jget p ''startup_metadata''), start_payload = p\<rparr>]\<rparr>)"

definition apply_system_stopped :: "audit_record \<Rightarrow> projection \<Rightarrow> projection" where
  "apply_system_stopped r pj =
     (let p = record_payload r in
      pj\<lparr>pj_system_stops := pj_system_stops pj @
           [\<lparr>stop_sequence = rec_sequence r,
             stop_component = enum_or_none runtime_component_of (jget p ''component''),
             stop_completed_cycles = int_or_none (jget p ''completed_cycles''), stop_payload = p,
             stop_reason = enum_or_none runtime_stop_reason_of (jget p ''reason''),
             stop_stopped_at = string_or_none (jget p ''stopped_at'')\<rparr>]\<rparr>)"

definition apply_trigger_fired :: "audit_record \<Rightarrow> projection \<Rightarrow> projection" where
  "apply_trigger_fired r pj =
     (let p = record_payload r in
      case string_or_none (jget p ''trigger_id'') of
        None \<Rightarrow> error_sequence r pj
      | Some trigger_id \<Rightarrow>
          pj\<lparr>pj_trigger_firings := pj_trigger_firings pj @
               [\<lparr>trig_sequence = rec_sequence r, trig_trigger_id = trigger_id,
                 trig_matched_event_type = enum_or_none event_type_of (jget p ''matched_event_type''),
                 trig_matched_sequence = int_or_none (jget p ''matched_sequence''), trig_payload = p,
                 trig_relation = enum_or_none trigger_relation_of (jget p ''relation''),
                 trig_target_time = string_or_none (jget p ''target_time'')\<rparr>]\<rparr>)"

subsection \<open>Feeds and errors\<close>

definition new_feed_source :: "string \<Rightarrow> feed_source_snapshot" where
  "new_feed_source source_id =
     \<lparr>src_source_id = source_id, src_status = FS_DISCONNECTED, src_last_seen = None,
      src_connected_count = 0, src_disconnected_count = 0, src_last_disconnect_reason = None,
      src_last_reconnect_attempt = None, src_last_reconnect_delay_seconds = None,
      src_last_reconnect_scheduled_sequence = None, src_reconnect_scheduled_count = 0\<rparr>"

definition feed_event :: "audit_record \<Rightarrow> payload \<Rightarrow> feed_source_snapshot \<Rightarrow> feed_source_snapshot res" where
  "feed_event r p s =
     (case rec_event_type r of
        ET_FEED_CONNECTED \<Rightarrow>
          Inr (s\<lparr>src_status := FS_CONNECTED, src_connected_count := src_connected_count s + 1\<rparr>)
      | ET_FEED_DISCONNECTED \<Rightarrow>
          Inr (s\<lparr>src_status := FS_DISCONNECTED, src_disconnected_count := src_disconnected_count s + 1,
                 src_last_disconnect_reason := string_or_none (jget p ''reason'')\<rparr>)
      | ET_FEED_HEARTBEAT \<Rightarrow>
          Inr (s\<lparr>src_status := FS_CONNECTED, src_last_seen := string_or_none (jget p ''received_at'')\<rparr>)
      | ET_FEED_RECONNECT_SCHEDULED \<Rightarrow>
          res_bind (float_or_none (jget p ''delay_seconds'')) (\<lambda>delay.
          Inr (s\<lparr>src_reconnect_scheduled_count := src_reconnect_scheduled_count s + 1,
                 src_last_reconnect_attempt := int_or_none (jget p ''attempt''),
                 src_last_reconnect_delay_seconds := delay,
                 src_last_reconnect_scheduled_sequence := Some (rec_sequence r)\<rparr>))
      | _ \<Rightarrow> Inr s)"

definition apply_feed :: "audit_record \<Rightarrow> projection \<Rightarrow> projection res" where
  "apply_feed r pj =
     (let p = record_payload r in
      case string_or_none (jget p ''source_id'') of
        None \<Rightarrow> Inr pj
      | Some source_id \<Rightarrow>
          res_bind (feed_event r p
              (case dict_get (pj_feed_sources pj) source_id of
                 Some s \<Rightarrow> s | None \<Rightarrow> new_feed_source source_id))
            (\<lambda>s. Inr (pj\<lparr>pj_feed_sources := dict_set source_id s (pj_feed_sources pj)\<rparr>)))"

definition apply_feed_degraded :: "audit_record \<Rightarrow> projection \<Rightarrow> projection" where
  "apply_feed_degraded r pj =
     (let p = record_payload r in
      pj\<lparr>pj_feed_degradations := pj_feed_degradations pj @
           [\<lparr>deg_sequence = rec_sequence r,
             deg_connected_sources = string_tuple (jget p ''connected_sources''),
             deg_disconnected_sources = string_tuple (jget p ''disconnected_sources''),
             deg_live_count = int_or_none (jget p ''live_count''),
             deg_min_live_sources = int_or_none (jget p ''min_live_sources''), deg_payload = p,
             deg_stale_sources = string_tuple (jget p ''stale_sources'')\<rparr>]\<rparr>)"

definition apply_error :: "audit_record \<Rightarrow> projection \<Rightarrow> projection" where
  "apply_error r pj =
     (let p = record_payload r; e = payload_dict (jget p ''error'') in
      pj\<lparr>pj_errors := pj_errors pj @
           [\<lparr>err_sequence = rec_sequence r,
             err_category = or_else (enum_or_none error_category_of (jget p ''error_category''))
                              (enum_or_none error_category_of (jget e ''category'')),
             err_code = or_else (enum_or_none error_code_of (jget p ''error_code''))
                          (enum_or_none error_code_of (jget e ''code'')),
             err_exception_type = or_else (string_or_none (jget p ''exception_type''))
                                    (string_or_none (jget e ''exception_type'')),
             err_message = or_else (string_or_none (jget p ''message'')) (string_or_none (jget e ''message'')),
             err_payload = p,
             err_retryable = first_bool (jget p ''retryable'') (jget e ''retryable'')\<rparr>]\<rparr>)"

subsection \<open>Reconciliation\<close>

definition apply_reconciliation_mismatch :: "audit_record \<Rightarrow> projection \<Rightarrow> projection" where
  "apply_reconciliation_mismatch r pj =
     (let p = record_payload r in
      case (string_or_none (jget p ''action_id''), enum_or_none reconciliation_issue_of (jget p ''reason'')) of
        (Some action_id, Some reason) \<Rightarrow>
          pj\<lparr>pj_reconciliation_mismatches :=
               dict_set (action_id, reason)
                 \<lparr>mis_action_id = action_id, mis_reason = reason, mis_sequence = rec_sequence r,
                  mis_payload = p\<rparr> (pj_reconciliation_mismatches pj)\<rparr>
      | _ \<Rightarrow> error_sequence r pj)"

text \<open>\<^verbatim>\<open>if order_update: self._apply_exchange_order_update(...)\<close>\<close>

definition apply_order_update_in :: "audit_record \<Rightarrow> json \<Rightarrow> projection \<Rightarrow> projection" where
  "apply_order_update_in r j pj =
     (let upd = payload_dict j in if upd = [] then pj else apply_exchange_order_update r upd pj)"

definition apply_reconciliation_recovery :: "audit_record \<Rightarrow> projection \<Rightarrow> projection" where
  "apply_reconciliation_recovery r pj =
     (let p = record_payload r in
      case (string_or_none (jget p ''action_id''), enum_or_none reconciliation_issue_of (jget p ''reason''),
            enum_or_none exchange_lookup_status_of (jget p ''lookup_status'')) of
        (Some action_id, Some reason, Some status) \<Rightarrow>
          apply_order_update_in r (jget p ''order_update'')
            (pj\<lparr>pj_reconciliation_recoveries :=
                  dict_set (action_id, reason)
                    \<lparr>recv_action_id = action_id, recv_reason = reason, recv_lookup_status = status,
                     recv_sequence = rec_sequence r, recv_payload = p\<rparr>
                    (pj_reconciliation_recoveries pj)\<rparr>)
      | _ \<Rightarrow> error_sequence r pj)"

definition apply_direct_exchange_order_update :: "audit_record \<Rightarrow> projection \<Rightarrow> projection" where
  "apply_direct_exchange_order_update r pj =
     apply_order_update_in r (jget (record_payload r) ''order_update'') pj"

definition apply_reconciliation_drift :: "audit_record \<Rightarrow> projection \<Rightarrow> projection" where
  "apply_reconciliation_drift r pj =
     (let p = record_payload r in
      case (string_or_none (jget p ''drift_key''), enum_or_none reconciliation_issue_of (jget p ''issue''),
            string_or_none (jget p ''product_id'')) of
        (Some key, Some issue, Some product_id) \<Rightarrow>
          pj\<lparr>pj_reconciliation_drifts :=
               dict_set key
                 \<lparr>drift_drift_key = key, drift_issue = issue, drift_product_id = product_id,
                  drift_sequence = rec_sequence r,
                  drift_venue = enum_or_none product_venue_of (jget p ''venue''), drift_payload = p\<rparr>
                 (pj_reconciliation_drifts pj)\<rparr>
      | _ \<Rightarrow> error_sequence r pj)"

subsection \<open>Exchange snapshots\<close>

definition apply_exchange_balance_snapshot :: "audit_record \<Rightarrow> projection \<Rightarrow> projection" where
  "apply_exchange_balance_snapshot r pj =
     (let p = record_payload r in
      case string_or_none (jget p ''account_id'') of
        None \<Rightarrow> error_sequence r pj
      | Some account_id \<Rightarrow>
          pj\<lparr>pj_exchange_balances_by_account_id :=
               dict_set account_id
                 \<lparr>bal_account_id = account_id, bal_currency = string_or_none (jget p ''currency''),
                  bal_sequence = rec_sequence r, bal_available = string_or_none (jget p ''available''),
                  bal_hold = string_or_none (jget p ''hold''),
                  bal_venue = enum_or_none product_venue_of (jget p ''venue''), bal_payload = p\<rparr>
                 (pj_exchange_balances_by_account_id pj)\<rparr>)"

definition apply_exchange_position_snapshot :: "audit_record \<Rightarrow> projection \<Rightarrow> projection" where
  "apply_exchange_position_snapshot r pj =
     (let p = record_payload r in
      case (string_or_none (jget p ''product_id''), enum_or_none product_venue_of (jget p ''venue'')) of
        (Some product_id, Some venue) \<Rightarrow>
          pj\<lparr>pj_exchange_positions_by_venue_product :=
               dict_set (venue, product_id)
                 \<lparr>xpos_product_id = product_id, xpos_venue = venue, xpos_sequence = rec_sequence r,
                  xpos_net_size = string_or_none (jget p ''net_size''),
                  xpos_side = string_or_none (jget p ''side''),
                  xpos_average_entry_price = string_or_none (jget p ''average_entry_price''),
                  xpos_current_price = string_or_none (jget p ''current_price''), xpos_payload = p\<rparr>
                 (pj_exchange_positions_by_venue_product pj)\<rparr>
      | _ \<Rightarrow> error_sequence r pj)"

definition apply_product :: "audit_record \<Rightarrow> payload \<Rightarrow> projection \<Rightarrow> projection" where
  "apply_product r q pj =
     (case (string_or_none (jget q ''product_id''), enum_or_none product_type_of (jget q ''product_type'')) of
        (Some product_id, Some product_type) \<Rightarrow>
          pj\<lparr>pj_exchange_products_by_product_id :=
               dict_set product_id
                 \<lparr>xprod_product_id = product_id, xprod_product_type = product_type,
                  xprod_product_venue =
                    (case enum_or_none product_venue_of (jget q ''product_venue'') of
                       Some v \<Rightarrow> v | None \<Rightarrow> PV_UNKNOWN),
                  xprod_sequence = rec_sequence r,
                  xprod_cancel_only = bool_or_none (jget q ''cancel_only''),
                  xprod_is_disabled = bool_or_none (jget q ''is_disabled''),
                  xprod_limit_only = bool_or_none (jget q ''limit_only''), xprod_payload = q,
                  xprod_post_only = bool_or_none (jget q ''post_only''),
                  xprod_trading_disabled = bool_or_none (jget q ''trading_disabled''),
                  xprod_tradable_for_new_orders = bool_or_none (jget q ''tradable_for_new_orders''),
                  xprod_view_only = bool_or_none (jget q ''view_only'')\<rparr>
                 (pj_exchange_products_by_product_id pj)\<rparr>
      | _ \<Rightarrow> error_sequence r pj)"

definition apply_exchange_product_snapshot :: "audit_record \<Rightarrow> projection \<Rightarrow> projection" where
  "apply_exchange_product_snapshot r pj =
     (case payload_dict_tuple (jget (record_payload r) ''products'') of
        None \<Rightarrow> error_sequence r pj
      | Some products \<Rightarrow>
          fold (apply_product r) products
            (pj\<lparr>pj_exchange_product_snapshot_sequences :=
                  pj_exchange_product_snapshot_sequences pj @ [rec_sequence r]\<rparr>))"

definition apply_exchange_request_retry :: "audit_record \<Rightarrow> projection \<Rightarrow> projection res" where
  "apply_exchange_request_retry r pj =
     (let p = record_payload r in
      res_bind (float_or_none (jget p ''delay_seconds'')) (\<lambda>delay.
      case (enum_or_none http_method_of (jget p ''method''), int_or_none (jget p ''attempt''),
            int_or_none (jget p ''next_attempt''), int_or_none (jget p ''max_attempts''), delay) of
        (Some verb, Some attempt, Some next_attempt, Some max_attempts, Some delay) \<Rightarrow>
          Inr (pj\<lparr>pj_exchange_request_retries := pj_exchange_request_retries pj @
                    [\<lparr>retry_sequence = rec_sequence r, retry_method = verb, retry_attempt = attempt,
                      retry_next_attempt = next_attempt, retry_max_attempts = max_attempts,
                      retry_delay_seconds = delay,
                      retry_error_category = enum_or_none error_category_of (jget p ''error_category''),
                      retry_error_code = string_or_none (jget p ''error_code''), retry_payload = p,
                      retry_status_code = int_or_none (jget p ''status_code''),
                      retry_url = string_or_none (jget p ''url'')\<rparr>]\<rparr>)
      | _ \<Rightarrow> Inr (error_sequence r pj)))"

end
