(* ===== verification/Projection.thy ===== *)
theory Projection
  imports Facts
begin

text \<open>
  \<^verbatim>\<open>SourceOfTruthProjection.apply\<close> and the queries of \<^verbatim>\<open>projections/state.py\<close>: the state rebuilt
  from the ledger. \<open>project_records\<close> folds \<open>apply_record\<close> over the records and is an exception when
  one of them raises.
\<close>

subsection \<open>Data messages\<close>

definition new_data_message :: "string \<Rightarrow> data_message_snapshot" where
  "new_data_message key =
     \<lparr>msg_message_key = key, msg_source_id = None, msg_message_event_type = None,
      msg_received_sequences = [], msg_accepted_sequence = None, msg_duplicate_sequences = []\<rparr>"

definition should_record_unique_sequence_anomaly ::
  "data_message_snapshot \<Rightarrow> event_type option \<Rightarrow> bool" where
  "should_record_unique_sequence_anomaly m et \<longleftrightarrow>
     (et = Some ET_DATA_SEQUENCE_GAP \<or> et = Some ET_DATA_OUT_OF_ORDER) \<and>
     msg_received_sequences m = [] \<and> msg_accepted_sequence m = None"

definition record_sequence_anomaly :: "audit_record \<Rightarrow> event_type option \<Rightarrow> projection \<Rightarrow> projection" where
  "record_sequence_anomaly r et pj =
     (if et = Some ET_DATA_SEQUENCE_GAP
      then pj\<lparr>pj_sequence_gap_sequences := pj_sequence_gap_sequences pj @ [rec_sequence r]\<rparr>
      else if et = Some ET_DATA_OUT_OF_ORDER
      then pj\<lparr>pj_out_of_order_sequences := pj_out_of_order_sequences pj @ [rec_sequence r]\<rparr>
      else pj)"

definition apply_accepted_feed_payload :: "audit_record \<Rightarrow> payload \<Rightarrow> projection \<Rightarrow> projection res" where
  "apply_accepted_feed_payload r p pj =
     (case Option.bind (int_or_none (jget p ''received_sequence''))
             (dict_get (pj_received_data_payloads_by_sequence pj)) of
        None \<Rightarrow> Inr pj
      | Some received \<Rightarrow>
          if enum_or_none event_type_of (jget p ''message_event_type'') \<noteq> Some ET_EXCHANGE_ORDER_UPDATE
          then apply_accepted_market_data r p received pj
          else Inr (apply_order_update_in r (jget (payload_dict (jget received ''payload'')) ''order'') pj))"

definition message_of_projection :: "projection \<Rightarrow> string \<Rightarrow> data_message_snapshot" where
  "message_of_projection pj key =
     (case dict_get (pj_data_messages pj) key of Some m \<Rightarrow> m | None \<Rightarrow> new_data_message key)"

definition stamp_message ::
  "string option \<Rightarrow> event_type option \<Rightarrow> data_message_snapshot \<Rightarrow> data_message_snapshot" where
  "stamp_message source_id et m =
     m\<lparr>msg_source_id := or_else source_id (msg_source_id m),
       msg_message_event_type := or_else et (msg_message_event_type m)\<rparr>"

definition set_message :: "string \<Rightarrow> data_message_snapshot \<Rightarrow> projection \<Rightarrow> projection" where
  "set_message key m pj = pj\<lparr>pj_data_messages := dict_set key m (pj_data_messages pj)\<rparr>"

definition apply_data :: "audit_record \<Rightarrow> projection \<Rightarrow> projection res" where
  "apply_data r pj =
     (let p = record_payload r in
      case string_or_none (jget p ''message_key'') of
        None \<Rightarrow> Inr (error_sequence r pj)
      | Some key \<Rightarrow>
          (let et = enum_or_none event_type_of (jget p ''message_event_type'');
               m = stamp_message (string_or_none (jget p ''source_id'')) et (message_of_projection pj key);
               anomaly = (\<lambda>pj. if should_record_unique_sequence_anomaly m et
                               then record_sequence_anomaly r et pj else pj)
           in if rec_event_type r = ET_DATA_RECEIVED then
                Inr (anomaly (set_message key
                      (m\<lparr>msg_received_sequences := msg_received_sequences m @ [rec_sequence r]\<rparr>) pj)
                     \<lparr>pj_received_data_payloads_by_sequence :=
                        dict_set (rec_sequence r) p (pj_received_data_payloads_by_sequence pj)\<rparr>)
              else if rec_event_type r = ET_DATA_ACCEPTED then
                apply_accepted_feed_payload r p
                  (anomaly (set_message key (m\<lparr>msg_accepted_sequence := Some (rec_sequence r)\<rparr>) pj))
              else if rec_event_type r = ET_DATA_DUPLICATE then
                Inr (set_message key
                      (m\<lparr>msg_duplicate_sequences := msg_duplicate_sequences m @ [rec_sequence r]\<rparr>) pj)
              else Inr (set_message key m pj)))"

subsection \<open>One record\<close>

definition note_record :: "audit_record \<Rightarrow> projection \<Rightarrow> projection" where
  "note_record r pj =
     pj\<lparr>pj_last_sequence := rec_sequence r, pj_last_record_hash := Some (rec_hash r),
        pj_record_occurred_at_by_sequence :=
          dict_set (rec_sequence r) (rec_occurred_at r) (pj_record_occurred_at_by_sequence pj)\<rparr>"

definition apply_event :: "audit_record \<Rightarrow> projection \<Rightarrow> projection res" where
  "apply_event r pj =
     (case rec_event_type r of
        ET_ACTION_ACCEPTED \<Rightarrow> Inr (apply_action r pj)
      | ET_ACTION_EXECUTION_FAILED \<Rightarrow> Inr (apply_action r pj)
      | ET_ACTION_EXECUTION_STARTED \<Rightarrow> Inr (apply_action r pj)
      | ET_ACTION_EXECUTED \<Rightarrow> Inr (apply_action r pj)
      | ET_ACTION_REJECTED \<Rightarrow> Inr (apply_action r pj)
      | ET_ACTION_REQUESTED \<Rightarrow> Inr (apply_action r pj)
      | ET_AUDIT_ANCHOR_PUBLISHED \<Rightarrow> Inr (apply_audit_anchor r pj)
      | ET_AUDIT_LEDGER_ARCHIVED \<Rightarrow> Inr (apply_audit_archive r pj)
      | ET_AUDIT_CHECKPOINT \<Rightarrow> Inr (apply_audit_checkpoint r pj)
      | ET_DATA_RECEIVED \<Rightarrow> apply_data r pj
      | ET_DATA_ACCEPTED \<Rightarrow> apply_data r pj
      | ET_DATA_DUPLICATE \<Rightarrow> apply_data r pj
      | ET_FEED_CONNECTED \<Rightarrow> apply_feed r pj
      | ET_FEED_DISCONNECTED \<Rightarrow> apply_feed r pj
      | ET_FEED_HEARTBEAT \<Rightarrow> apply_feed r pj
      | ET_FEED_RECONNECT_SCHEDULED \<Rightarrow> apply_feed r pj
      | ET_FEED_DEGRADED \<Rightarrow>
          Inr (apply_feed_degraded r
                (pj\<lparr>pj_feed_degraded_sequences := pj_feed_degraded_sequences pj @ [rec_sequence r]\<rparr>))
      | ET_ERROR \<Rightarrow> Inr (apply_runtime_task_error r (apply_error r (error_sequence r pj)))
      | ET_EXCHANGE_BALANCE_SNAPSHOT \<Rightarrow> Inr (apply_exchange_balance_snapshot r pj)
      | ET_EXCHANGE_FILL \<Rightarrow> apply_exchange_fill r pj
      | ET_EXCHANGE_POSITION_SNAPSHOT \<Rightarrow> Inr (apply_exchange_position_snapshot r pj)
      | ET_EXCHANGE_PRODUCT_SNAPSHOT \<Rightarrow> Inr (apply_exchange_product_snapshot r pj)
      | ET_EXCHANGE_ORDER_UPDATE \<Rightarrow> Inr (apply_direct_exchange_order_update r pj)
      | ET_EXCHANGE_REQUEST_RETRY \<Rightarrow> apply_exchange_request_retry r pj
      | ET_OPERATOR_LEDGER_HEALTH_ACKNOWLEDGED \<Rightarrow> Inr (apply_ledger_health_acknowledgement r pj)
      | ET_LIVE_PREFLIGHT_RESULT \<Rightarrow> Inr (apply_live_preflight_result r pj)
      | ET_OPERATOR_CANARY_EVIDENCE_RESULT \<Rightarrow> Inr (apply_operator_canary_evidence_result r pj)
      | ET_RUNTIME_HEALTH_CHECK_RESULT \<Rightarrow> Inr (apply_runtime_health_check_result r pj)
      | ET_STRATEGY_SIMULATION_RESULT \<Rightarrow> Inr (apply_strategy_simulation_result r pj)
      | ET_ORDER_LOGICAL_CREATED \<Rightarrow> Inr (apply_logical_order_created r pj)
      | ET_ORDER_PLACEMENT_RECORDED \<Rightarrow> Inr (apply_order_placement_recorded r pj)
      | ET_RECONCILIATION_DRIFT \<Rightarrow> Inr (apply_reconciliation_drift r pj)
      | ET_RECONCILIATION_MISMATCH \<Rightarrow> Inr (apply_reconciliation_mismatch r pj)
      | ET_RECONCILIATION_RECOVERY \<Rightarrow> Inr (apply_reconciliation_recovery r pj)
      | ET_RUNTIME_TASK_COMPLETED \<Rightarrow> Inr (apply_runtime_task r pj)
      | ET_RUNTIME_TASK_STARTED \<Rightarrow> Inr (apply_runtime_task r pj)
      | ET_STRATEGY_EVALUATION_COMPLETED \<Rightarrow> Inr (apply_strategy_evaluation r pj)
      | ET_STRATEGY_EVALUATION_FAILED \<Rightarrow> Inr (apply_strategy_evaluation r pj)
      | ET_STRATEGY_EVALUATION_STARTED \<Rightarrow> Inr (apply_strategy_evaluation r pj)
      | ET_SYSTEM_STARTED \<Rightarrow> Inr (apply_system_started r pj)
      | ET_SYSTEM_STOPPED \<Rightarrow> Inr (apply_system_stopped r pj)
      | ET_TRIGGER_FIRED \<Rightarrow>
          Inr (apply_trigger_fired r
                (pj\<lparr>pj_trigger_sequences := pj_trigger_sequences pj @ [rec_sequence r]\<rparr>))
      | _ \<Rightarrow> Inr pj)"

definition apply_record :: "audit_record \<Rightarrow> projection \<Rightarrow> projection res" where
  "apply_record r pj = apply_event r (note_record r pj)"

text \<open>\<^verbatim>\<open>from_records\<close> and \<^verbatim>\<open>from_ledger\<close>\<close>

definition project_records ::
  "int option \<Rightarrow> int option \<Rightarrow> int \<Rightarrow> string list \<Rightarrow> audit_record list \<Rightarrow> projection res" where
  "project_records max_trades max_depth max_samples scope rs =
     res_bind (init_projection max_trades max_depth max_samples scope) (res_fold apply_record rs)"

definition project_ledger ::
  "digest \<Rightarrow> int option \<Rightarrow> int option \<Rightarrow> int \<Rightarrow> string list \<Rightarrow> ledger \<Rightarrow> projection res" where
  "project_ledger sha max_trades max_depth max_samples scope led =
     res_bind (init_projection max_trades max_depth max_samples scope) (\<lambda>pj.
     res_bind (iter_records sha led) (\<lambda>rs. res_fold apply_record rs pj))"

subsection \<open>Queries\<close>

definition accepted_data_count :: "projection \<Rightarrow> nat" where
  "accepted_data_count pj =
     length (filter (\<lambda>m. msg_accepted_sequence m \<noteq> None) (dict_values (pj_data_messages pj)))"

definition duplicate_data_count :: "projection \<Rightarrow> nat" where
  "duplicate_data_count pj =
     sum_list (map (\<lambda>m. length (msg_duplicate_sequences m)) (dict_values (pj_data_messages pj)))"

definition error_count :: "projection \<Rightarrow> nat" where
  "error_count pj = length (pj_error_sequences pj)"

definition open_orders :: "projection \<Rightarrow> order_snapshot list" where
  "open_orders pj =
     filter (\<lambda>o1. ord_lifecycle_status o1 = OLS_OPEN)
       (map (order_at pj) (dict_values (pj_orders_by_action_id pj)))"

definition placements_by_status :: "order_placement_status \<Rightarrow> projection \<Rightarrow> order_placement_snapshot list" where
  "placements_by_status status pj =
     filter (\<lambda>plc. plc_placement_status plc = status) (dict_values (pj_placements_by_id pj))"

definition staged_order_placements :: "projection \<Rightarrow> order_placement_snapshot list" where
  "staged_order_placements = placements_by_status OPS_STAGED"

definition unreleased_staged_order_placements :: "projection \<Rightarrow> order_placement_snapshot list" where
  "unreleased_staged_order_placements pj =
     filter (\<lambda>plc. \<not> dict_has (pj_release_placement_id_by_staged_placement_id pj) (plc_placement_id plc))
       (staged_order_placements pj)"

definition passive_market_making_metadata :: "payload \<Rightarrow> payload option" where
  "passive_market_making_metadata p =
     (let m = payload_dict (jget (payload_dict (jget p ''metadata'')) ''passive_market_making'')
      in if m = [] then None else Some m)"

definition passive_quote ::
  "projection \<Rightarrow> order_placement_snapshot \<Rightarrow> passive_market_making_quote_snapshot option" where
  "passive_quote pj plc =
     (if plc_placement_kind plc \<noteq> OPK_STAGED_RELEASE then None
      else map_option (\<lambda>m.
        let release = dict_get (pj_release_placement_id_by_staged_placement_id pj) (plc_placement_id plc) in
        \<lparr>quote_placement_id = plc_placement_id plc, quote_logical_order_id = plc_logical_order_id plc,
         quote_product_id = plc_product_id plc, quote_side = plc_side plc, quote_size = plc_size plc,
         quote_sequence = plc_sequence plc, quote_action_id = plc_action_id plc,
         quote_ask_price = string_or_none (jget m ''ask_price''),
         quote_bid_price = string_or_none (jget m ''bid_price''),
         quote_half_spread_bps = string_or_none (jget m ''half_spread_bps''),
         quote_limit_price = plc_limit_price plc,
         quote_midpoint = string_or_none (jget m ''midpoint''),
         quote_released = (release \<noteq> None), quote_release_placement_id = release\<rparr>)
        (passive_market_making_metadata (plc_payload plc)))"

definition passive_market_making_quotes :: "projection \<Rightarrow> passive_market_making_quote_snapshot list" where
  "passive_market_making_quotes pj = List.map_filter (passive_quote pj) (staged_order_placements pj)"

definition unreleased_passive_market_making_quotes ::
  "projection \<Rightarrow> passive_market_making_quote_snapshot list" where
  "unreleased_passive_market_making_quotes pj =
     filter (\<lambda>q. \<not> quote_released q) (passive_market_making_quotes pj)"

definition market_trades_for_product :: "string \<Rightarrow> projection \<Rightarrow> market_trade_snapshot list" where
  "market_trades_for_product product_id pj =
     List.map_filter (dict_get (pj_market_trades_by_id pj)) (trade_ids pj product_id)"

definition market_trade_retention_dropped_count :: "projection \<Rightarrow> int" where
  "market_trade_retention_dropped_count pj =
     sum_list (dict_values (pj_market_trade_retention_dropped_by_product_id pj))"

definition placements_for_action :: "string \<Rightarrow> projection \<Rightarrow> order_placement_snapshot list" where
  "placements_for_action action_id pj =
     List.map_filter (dict_get (pj_placements_by_id pj))
       (dict_get_or (pj_placement_ids_by_action_id pj) action_id [])"

definition placements_for_logical_order :: "string \<Rightarrow> projection \<Rightarrow> order_placement_snapshot list" where
  "placements_for_logical_order l pj = dict_get_or (pj_placements_by_logical_order_id pj) l []"

text \<open>\<^verbatim>\<open>max(placements, key=sequence)\<close>: the first of the placements with the highest sequence\<close>

definition latest_placement_for_logical_order :: "string \<Rightarrow> projection \<Rightarrow> order_placement_snapshot option" where
  "latest_placement_for_logical_order l pj =
     (case placements_for_logical_order l pj of
        [] \<Rightarrow> None
      | x # xs \<Rightarrow> Some (fold (\<lambda>y best. if plc_sequence y > plc_sequence best then y else best) xs x))"

definition release_placement_for_staged_placement :: "string \<Rightarrow> projection \<Rightarrow> order_placement_snapshot option" where
  "release_placement_for_staged_placement k pj =
     Option.bind (dict_get (pj_release_placement_id_by_staged_placement_id pj) k)
       (dict_get (pj_placements_by_id pj))"

definition has_reconciliation_mismatch :: "string \<Rightarrow> reconciliation_issue \<Rightarrow> projection \<Rightarrow> bool" where
  "has_reconciliation_mismatch a reason pj = dict_has (pj_reconciliation_mismatches pj) (a, reason)"

definition has_reconciliation_recovery :: "string \<Rightarrow> reconciliation_issue \<Rightarrow> projection \<Rightarrow> bool" where
  "has_reconciliation_recovery a reason pj = dict_has (pj_reconciliation_recoveries pj) (a, reason)"

definition has_fill :: "string \<Rightarrow> projection \<Rightarrow> bool" where
  "has_fill f pj = dict_has (pj_fills_by_id pj) f"

subsection \<open>What the handlers leave alone\<close>

text \<open>
  The part of the state the invariants of the market data, the orders and the placements are about;
  the other handlers do not touch it.
\<close>

definition core_view :: "projection \<Rightarrow> _" where
  "core_view pj = (market_view pj, order_view pj, placement_view pj)"

lemma core_view_fields [simp]:
  "core_view (pj\<lparr>pj_actions := x0\<rparr>) = core_view pj"
  "core_view (pj\<lparr>pj_audit_anchors := x1\<rparr>) = core_view pj"
  "core_view (pj\<lparr>pj_audit_archives := x2\<rparr>) = core_view pj"
  "core_view (pj\<lparr>pj_audit_checkpoints := x3\<rparr>) = core_view pj"
  "core_view (pj\<lparr>pj_live_preflight_results := x4\<rparr>) = core_view pj"
  "core_view (pj\<lparr>pj_ledger_health_acknowledgements := x5\<rparr>) = core_view pj"
  "core_view (pj\<lparr>pj_operator_canary_evidence_results := x6\<rparr>) = core_view pj"
  "core_view (pj\<lparr>pj_runtime_health_check_results := x7\<rparr>) = core_view pj"
  "core_view (pj\<lparr>pj_strategy_simulation_results := x8\<rparr>) = core_view pj"
  "core_view (pj\<lparr>pj_data_messages := x9\<rparr>) = core_view pj"
  "core_view (pj\<lparr>pj_feed_degradations := x10\<rparr>) = core_view pj"
  "core_view (pj\<lparr>pj_feed_sources := x11\<rparr>) = core_view pj"
  "core_view (pj\<lparr>pj_latest_tickers_by_product_id := x12\<rparr>) = core_view pj"
  "core_view (pj\<lparr>pj_order_book_sample_retention_dropped_by_product_id := x13\<rparr>) = core_view pj"
  "core_view (pj\<lparr>pj_order_book_sample_scope_skipped_by_product_id := x14\<rparr>) = core_view pj"
  "core_view (pj\<lparr>pj_order_book_sample_product_ids := x15\<rparr>) = core_view pj"
  "core_view (pj\<lparr>pj_market_trade_retention_dropped_by_product_id := x16\<rparr>) = core_view pj"
  "core_view (pj\<lparr>pj_logical_order_id_by_action_id := x17\<rparr>) = core_view pj"
  "core_view (pj\<lparr>pj_logical_orders_by_id := x18\<rparr>) = core_view pj"
  "core_view (pj\<lparr>pj_fills_by_order_id := x19\<rparr>) = core_view pj"
  "core_view (pj\<lparr>pj_positions_by_product_id := x20\<rparr>) = core_view pj"
  "core_view (pj\<lparr>pj_exchange_balances_by_account_id := x21\<rparr>) = core_view pj"
  "core_view (pj\<lparr>pj_exchange_positions_by_venue_product := x22\<rparr>) = core_view pj"
  "core_view (pj\<lparr>pj_exchange_products_by_product_id := x23\<rparr>) = core_view pj"
  "core_view (pj\<lparr>pj_exchange_product_snapshot_sequences := x24\<rparr>) = core_view pj"
  "core_view (pj\<lparr>pj_exchange_request_retries := x25\<rparr>) = core_view pj"
  "core_view (pj\<lparr>pj_errors := x26\<rparr>) = core_view pj"
  "core_view (pj\<lparr>pj_reconciliation_drifts := x27\<rparr>) = core_view pj"
  "core_view (pj\<lparr>pj_reconciliation_mismatches := x28\<rparr>) = core_view pj"
  "core_view (pj\<lparr>pj_reconciliation_recoveries := x29\<rparr>) = core_view pj"
  "core_view (pj\<lparr>pj_runtime_tasks := x30\<rparr>) = core_view pj"
  "core_view (pj\<lparr>pj_strategy_evaluations := x31\<rparr>) = core_view pj"
  "core_view (pj\<lparr>pj_strategy_evaluations_by_started_sequence := x32\<rparr>) = core_view pj"
  "core_view (pj\<lparr>pj_system_starts := x33\<rparr>) = core_view pj"
  "core_view (pj\<lparr>pj_system_stops := x34\<rparr>) = core_view pj"
  "core_view (pj\<lparr>pj_trigger_firings := x35\<rparr>) = core_view pj"
  "core_view (pj\<lparr>pj_record_occurred_at_by_sequence := x36\<rparr>) = core_view pj"
  "core_view (pj\<lparr>pj_received_data_payloads_by_sequence := x37\<rparr>) = core_view pj"
  "core_view (pj\<lparr>pj_error_sequences := x38\<rparr>) = core_view pj"
  "core_view (pj\<lparr>pj_feed_degraded_sequences := x39\<rparr>) = core_view pj"
  "core_view (pj\<lparr>pj_trigger_sequences := x40\<rparr>) = core_view pj"
  "core_view (pj\<lparr>pj_sequence_gap_sequences := x41\<rparr>) = core_view pj"
  "core_view (pj\<lparr>pj_out_of_order_sequences := x42\<rparr>) = core_view pj"
  "core_view (pj\<lparr>pj_last_sequence := x43\<rparr>) = core_view pj"
  "core_view (pj\<lparr>pj_last_record_hash := x44\<rparr>) = core_view pj"
  by (simp_all add: core_view_def market_view_def order_view_def placement_view_def)

lemma core_view_steps [simp]:
  "core_view (error_sequence r pj) = core_view pj"
  "core_view (note_record r pj) = core_view pj"
  "core_view (set_message key m pj) = core_view pj"
  "core_view (set_runtime_task t st pj) = core_view pj"
  "core_view (record_sequence_anomaly r et pj) = core_view pj"
  by (simp_all add: error_sequence_def note_record_def set_message_def set_runtime_task_def
      record_sequence_anomaly_def)

lemma apply_audit_anchor_view [simp]: "core_view (apply_audit_anchor r pj) = core_view pj"
  by (simp add: apply_audit_anchor_def Let_def split: option.split)

lemma apply_audit_archive_view [simp]: "core_view (apply_audit_archive r pj) = core_view pj"
  by (simp add: apply_audit_archive_def Let_def split: option.split)

lemma apply_audit_checkpoint_view [simp]: "core_view (apply_audit_checkpoint r pj) = core_view pj"
  by (simp add: apply_audit_checkpoint_def Let_def split: option.split)

lemma apply_live_preflight_result_view [simp]: "core_view (apply_live_preflight_result r pj) = core_view pj"
  by (simp add: apply_live_preflight_result_def Let_def split: option.split)

lemma apply_ledger_health_acknowledgement_view [simp]: "core_view (apply_ledger_health_acknowledgement r pj) = core_view pj"
  by (simp add: apply_ledger_health_acknowledgement_def Let_def split: option.split)

lemma apply_operator_canary_evidence_result_view [simp]: "core_view (apply_operator_canary_evidence_result r pj) = core_view pj"
  by (simp add: apply_operator_canary_evidence_result_def Let_def split: option.split)

lemma apply_runtime_health_check_result_view [simp]: "core_view (apply_runtime_health_check_result r pj) = core_view pj"
  by (simp add: apply_runtime_health_check_result_def Let_def split: option.split)

lemma apply_strategy_simulation_result_view [simp]: "core_view (apply_strategy_simulation_result r pj) = core_view pj"
  by (simp add: apply_strategy_simulation_result_def Let_def split: option.split)

lemma apply_runtime_task_view [simp]: "core_view (apply_runtime_task r pj) = core_view pj"
  by (simp add: apply_runtime_task_def Let_def split: option.split)

lemma apply_runtime_task_error_view [simp]: "core_view (apply_runtime_task_error r pj) = core_view pj"
  by (simp add: apply_runtime_task_error_def Let_def split: option.split)

lemma apply_strategy_evaluation_view [simp]: "core_view (apply_strategy_evaluation r pj) = core_view pj"
  by (simp add: apply_strategy_evaluation_def Let_def split: option.split)

lemma apply_system_started_view [simp]: "core_view (apply_system_started r pj) = core_view pj"
  by (simp add: apply_system_started_def Let_def split: option.split)

lemma apply_system_stopped_view [simp]: "core_view (apply_system_stopped r pj) = core_view pj"
  by (simp add: apply_system_stopped_def Let_def split: option.split)

lemma apply_trigger_fired_view [simp]: "core_view (apply_trigger_fired r pj) = core_view pj"
  by (simp add: apply_trigger_fired_def Let_def split: option.split)

lemma apply_feed_degraded_view [simp]: "core_view (apply_feed_degraded r pj) = core_view pj"
  by (simp add: apply_feed_degraded_def Let_def split: option.split)

lemma apply_error_view [simp]: "core_view (apply_error r pj) = core_view pj"
  by (simp add: apply_error_def Let_def split: option.split)

lemma apply_reconciliation_mismatch_view [simp]: "core_view (apply_reconciliation_mismatch r pj) = core_view pj"
  by (simp add: apply_reconciliation_mismatch_def Let_def split: option.split)

lemma apply_reconciliation_drift_view [simp]: "core_view (apply_reconciliation_drift r pj) = core_view pj"
  by (simp add: apply_reconciliation_drift_def Let_def split: option.split)

lemma apply_exchange_balance_snapshot_view [simp]: "core_view (apply_exchange_balance_snapshot r pj) = core_view pj"
  by (simp add: apply_exchange_balance_snapshot_def Let_def split: option.split)

lemma apply_exchange_position_snapshot_view [simp]: "core_view (apply_exchange_position_snapshot r pj) = core_view pj"
  by (simp add: apply_exchange_position_snapshot_def Let_def split: option.split)

lemma apply_product_view [simp]: "core_view (apply_product r q pj) = core_view pj"
  by (simp add: apply_product_def split: option.split)

lemma apply_products_view [simp]: "core_view (fold (apply_product r) qs pj) = core_view pj"
  by (induction qs arbitrary: pj) simp_all

lemma apply_exchange_product_snapshot_view [simp]:
  "core_view (apply_exchange_product_snapshot r pj) = core_view pj"
  by (simp add: apply_exchange_product_snapshot_def split: option.split)

lemma apply_exchange_request_retry_view:
  "apply_exchange_request_retry r pj = Inr pj' \<Longrightarrow> core_view pj' = core_view pj"
  by (cases "float_or_none (jget (record_payload r) ''delay_seconds'')")
    (auto simp: apply_exchange_request_retry_def Let_def split: option.splits)

lemma apply_feed_view: "apply_feed r pj = Inr pj' \<Longrightarrow> core_view pj' = core_view pj"
  by (auto simp: apply_feed_def Let_def res_bind_Inr split: option.splits)

subsection \<open>The invariant of the projection\<close>

definition projection_ok :: "projection \<Rightarrow> bool" where
  "projection_ok pj \<longleftrightarrow> market_ok pj \<and> orders_ok pj \<and> placements_ok pj"

lemma core_view_ok: "core_view pj' = core_view pj \<Longrightarrow> projection_ok pj \<Longrightarrow> projection_ok pj'"
  using market_view_ok order_view_ok placement_view_ok by (simp add: core_view_def projection_ok_def)

text \<open>Operations that change the orders only.\<close>

lemma beside_orders_views:
  assumes "beside_orders pj' = beside_orders pj"
  shows "market_view pj' = market_view pj" and "placement_view pj' = placement_view pj"
proof -
  have "market_view (beside_orders q) = market_view q" "placement_view (beside_orders q) = placement_view q" for q
    by (simp_all add: beside_orders_def market_view_def placement_view_def)
  with assms show "market_view pj' = market_view pj" and "placement_view pj' = placement_view pj" by metis+
qed

lemma order_step_ok:
  assumes "projection_ok pj" and "orders_ok pj'" and "beside_orders pj' = beside_orders pj"
  shows "projection_ok pj'"
  using assms beside_orders_views [OF assms(3)] market_view_ok placement_view_ok
  by (auto simp: projection_ok_def)

lemma action_order_event_ok:
  assumes "projection_ok pj"
  shows "projection_ok (action_order_event r p pj)"
proof -
  from assms have ok: "orders_ok pj" by (simp add: projection_ok_def)
  have "orders_ok (action_order_event r p pj) \<and>
      beside_orders (action_order_event r p pj) = beside_orders pj"
    using apply_order_requested_ok [OF ok] apply_order_accepted_ok apply_order_execution_started_ok
      apply_order_execution_failed_ok apply_order_rejected_ok apply_order_executed_ok [OF ok] ok
    by (simp add: action_order_event_def split: event_type.split)
  then show ?thesis using order_step_ok [OF assms] by blast
qed

lemma apply_action_ok:
  assumes "projection_ok pj"
  shows "projection_ok (apply_action r pj)"
proof (cases "payload_action_id (record_payload r)")
  case None
  then show ?thesis using core_view_ok [OF core_view_steps(1) assms] by (simp add: apply_action_def)
next
  case (Some a)
  have "projection_ok (pj\<lparr>pj_actions := d\<rparr>)" for d
    using core_view_ok [OF core_view_fields(1) assms] .
  with Some show ?thesis by (simp add: apply_action_def Let_def action_order_event_ok)
qed

lemma apply_exchange_order_update_proj:
  "projection_ok pj \<Longrightarrow> projection_ok (apply_exchange_order_update r upd pj)"
  by (rule order_step_ok) (simp_all add: projection_ok_def apply_exchange_order_update_ok)

lemma apply_order_update_in_ok: "projection_ok pj \<Longrightarrow> projection_ok (apply_order_update_in r j pj)"
  by (simp add: apply_order_update_in_def Let_def apply_exchange_order_update_proj)

lemma apply_reconciliation_recovery_ok:
  assumes "projection_ok pj"
  shows "projection_ok (apply_reconciliation_recovery r pj)"
proof -
  have "projection_ok (pj\<lparr>pj_reconciliation_recoveries := d\<rparr>)" for d
    by (rule core_view_ok [OF _ assms]) simp
  moreover have "projection_ok (error_sequence r pj)" by (rule core_view_ok [OF _ assms]) simp
  ultimately show ?thesis
    by (simp add: apply_reconciliation_recovery_def Let_def apply_order_update_in_ok split: option.split)
qed

text \<open>Market data, fills and placements.\<close>

definition beside_market :: "projection \<Rightarrow> _" where
  "beside_market pj = (order_view pj, placement_view pj)"

lemma beside_market_steps [simp]:
  "beside_market (enforce_market_trade_retention p pj) = beside_market pj"
  "beside_market (apply_market_trade ctx it pj) = beside_market pj"
  by (auto simp: beside_market_def order_view_def placement_view_def enforce_market_trade_retention_def
      apply_market_trade_def Let_def split: option.splits prod.splits)

lemma beside_market_tickers [simp]: "beside_market (apply_ticker_payloads raw ctx pj) = beside_market pj"
proof -
  have "beside_market (fold (\<lambda>t pj. case string_or_none (jget t ''product_id'') of
             None \<Rightarrow> pj
           | Some product_id \<Rightarrow>
               pj\<lparr>pj_latest_tickers_by_product_id :=
                    dict_set product_id (ticker_snapshot ctx product_id t)
                      (pj_latest_tickers_by_product_id pj)\<rparr>) ts pj) = beside_market pj" for ts
    by (induction ts arbitrary: pj) (auto simp: beside_market_def order_view_def placement_view_def
        split: option.splits)
  then show ?thesis by (simp add: apply_ticker_payloads_def)
qed

lemma beside_market_trades [simp]: "beside_market (apply_market_trade_payloads raw ctx pj) = beside_market pj"
proof -
  have "beside_market (fold (apply_market_trade ctx) its pj) = beside_market pj" for its
    by (induction its arbitrary: pj) simp_all
  then show ?thesis by (simp add: apply_market_trade_payloads_def)
qed

lemma append_sample_beside:
  "append_order_book_sample p b pj = Inr pj' \<Longrightarrow> beside_market pj' = beside_market pj"
  by (cases "copy_order_book_snapshot (pj_max_order_book_sample_depth_per_side pj) b")
    (auto simp: append_order_book_sample_def beside_market_def order_view_def placement_view_def Let_def
      split: if_splits prod.splits)

lemma sample_book_beside: "sample_book p pj = Inr pj' \<Longrightarrow> beside_market pj' = beside_market pj"
  by (auto simp: sample_book_def split: option.splits dest: append_sample_beside)

lemma apply_book_update_beside:
  assumes "apply_book_update ctx event upd st = Inr st'"
  shows "beside_market (fst st') = beside_market (fst st)"
proof -
  have store: "beside_market (pj\<lparr>pj_order_books_by_product_id := d\<rparr>) = beside_market pj" for pj d
    by (simp add: beside_market_def order_view_def placement_view_def)
  have bind: "res_bind x (\<lambda>b. Inr (pj\<lparr>pj_order_books_by_product_id := f b\<rparr>, y, z)) = Inr st' \<Longrightarrow>
      beside_market (fst st') = beside_market pj" for x f pj y z
    by (cases x) (auto simp: store)
  show ?thesis
    using assms
    by (cases st) (auto simp: apply_book_update_def Let_def split: option.splits dest: bind)
qed

lemma apply_book_event_beside:
  assumes "apply_book_event ctx event st = Inr st'"
  shows "beside_market (fst st') = beside_market (fst st)"
  using assms unfolding apply_book_event_def
  by (rule res_fold_keeps [where P = "\<lambda>s. beside_market (fst s) = beside_market (fst st)", rotated])
    (auto dest: apply_book_update_beside)

lemma apply_order_book_payloads_beside:
  assumes "apply_order_book_payloads raw ctx pj = Inr pj'"
  shows "beside_market pj' = beside_market pj"
proof -
  from assms obtain pj1 resets updated where
    events: "res_fold (apply_book_event ctx) (payload_dicts (jget raw ''events'')) (pj, [], [])
      = Inr (pj1, resets, updated)"
    and samples: "res_fold sample_book (sort updated) pj1 = Inr pj'"
    by (auto simp: apply_order_book_payloads_def res_bind_Inr)
  from events have "beside_market (fst (pj1, resets, updated)) = beside_market pj"
    by (rule res_fold_keeps [where P = "\<lambda>s. beside_market (fst s) = beside_market pj", rotated])
      (auto dest: apply_book_event_beside)
  moreover from samples have "beside_market pj' = beside_market pj1"
    by (rule res_fold_keeps [where P = "\<lambda>s. beside_market s = beside_market pj1", rotated])
      (auto dest: sample_book_beside)
  ultimately show ?thesis by simp
qed

lemma market_data_step_ok:
  assumes "apply_accepted_market_data r accepted received pj = Inr pj'" and "projection_ok pj"
  shows "projection_ok pj'"
proof -
  have "beside_market pj' = beside_market pj"
    using assms(1) apply_order_book_payloads_beside
    by (auto simp: apply_accepted_market_data_def Let_def split: option.splits if_splits)
  then have "order_view pj' = order_view pj" "placement_view pj' = placement_view pj"
    by (simp_all add: beside_market_def)
  with assms(2) apply_accepted_market_data_ok [OF assms(1)] order_view_ok placement_view_ok
  show ?thesis by (auto simp: projection_ok_def)
qed

lemma fill_views:
  assumes "apply_exchange_fill r pj = Inr pj'"
  shows "market_view pj' = market_view pj" and "placement_view pj' = placement_view pj"
proof -
  have same: "market_view (q\<lparr>pj_positions_by_product_id := x\<rparr>) = market_view q"
    "placement_view (q\<lparr>pj_positions_by_product_id := x\<rparr>) = placement_view q"
    "market_view (update_order i f q) = market_view q" "placement_view (update_order i f q) = placement_view q"
    "market_view (q\<lparr>pj_fills_by_id := y, pj_fills_by_order_id := z\<rparr>) = market_view q"
    "placement_view (q\<lparr>pj_fills_by_id := y, pj_fills_by_order_id := z\<rparr>) = placement_view q"
    for q x y z i f
    by (simp_all add: market_view_def placement_view_def update_order_def)
  have "market_view pj' = market_view pj \<and> placement_view pj' = placement_view pj"
  proof (cases "string_or_none (jget (record_payload r) ''fill_id'')")
    case None
    with assms show ?thesis
      by (auto simp: apply_exchange_fill_def error_sequence_def market_view_def placement_view_def)
  next
    case (Some fill_id)
    show ?thesis
    proof (cases "dict_has (pj_fills_by_id pj) fill_id")
      case True
      with known_fill_ignored [OF Some True] assms show ?thesis by simp
    next
      case False
      from assms Some False show ?thesis by (rule apply_exchange_fill_new) (auto simp: same)
    qed
  qed
  then show "market_view pj' = market_view pj" and "placement_view pj' = placement_view pj" by simp_all
qed

lemma apply_exchange_fill_proj:
  assumes "apply_exchange_fill r pj = Inr pj'" and "projection_ok pj"
  shows "projection_ok pj'"
  using assms(2) fill_views [OF assms(1)] apply_exchange_fill_ok [OF assms(1)] market_view_ok placement_view_ok
  by (auto simp: projection_ok_def)

lemma placement_step_ok:
  assumes "projection_ok pj"
  shows "projection_ok (apply_order_placement_recorded r pj)"
proof -
  have "market_view (store_placement plc pj) = market_view pj" for plc
    by (simp add: store_placement_def market_view_def)
  moreover have "market_view (error_sequence r pj) = market_view pj"
    by (simp add: error_sequence_def market_view_def)
  ultimately have "market_view (apply_order_placement_recorded r pj) = market_view pj"
    "order_view (apply_order_placement_recorded r pj) = order_view pj"
    using apply_order_placement_recorded_cases [of r pj] by auto
  with assms apply_order_placement_recorded_ok market_view_ok order_view_ok show ?thesis
    by (auto simp: projection_ok_def)
qed

lemma apply_logical_order_view [simp]: "core_view (apply_logical_order_created r pj) = core_view pj"
  by (simp add: apply_logical_order_created_def Let_def split: option.split)

lemma apply_data_ok:
  assumes "apply_data r pj = Inr pj'" and "projection_ok pj"
  shows "projection_ok pj'"
proof -
  have frame: "projection_ok q" if "core_view q = core_view pj" for q
    using core_view_ok [OF that assms(2)] .
  have accepted: "projection_ok pj'"
    if "apply_accepted_feed_payload r p q = Inr pj'" "core_view q = core_view pj" for p q
    using that(1) frame [OF that(2)]
    by (auto simp: apply_accepted_feed_payload_def apply_order_update_in_ok split: option.splits if_splits
        dest: market_data_step_ok)
  show ?thesis
    using assms(1)
    by (auto simp: apply_data_def Let_def split: option.splits if_splits intro!: frame
        elim!: accepted)
qed

lemma apply_event_ok:
  assumes "apply_event r pj = Inr pj'" and "projection_ok pj"
  shows "projection_ok pj'"
proof -
  have frame: "projection_ok q" if "core_view q = core_view pj" for q
    using core_view_ok [OF that assms(2)] .
  note retry = core_view_ok [OF apply_exchange_request_retry_view] and feed = core_view_ok [OF apply_feed_view]
  show ?thesis
  proof (cases "rec_event_type r")
    case ET_EXCHANGE_REQUEST_RETRY
    with assms retry show ?thesis by (auto simp: apply_event_def)
  next
    case ET_EXCHANGE_FILL
    with assms apply_exchange_fill_proj show ?thesis by (simp add: apply_event_def)
  qed (use assms in \<open>auto simp: apply_event_def apply_action_ok placement_step_ok
        apply_direct_exchange_order_update_def apply_order_update_in_ok apply_reconciliation_recovery_ok
        dest: apply_data_ok feed\<close>, (rule frame, simp)+)
qed

lemma apply_record_ok: "apply_record r pj = Inr pj' \<Longrightarrow> projection_ok pj \<Longrightarrow> projection_ok pj'"
  unfolding apply_record_def by (erule apply_event_ok) (rule core_view_ok [OF core_view_steps(2)])

lemma init_projection_ok: "init_projection t d n scope = Inr pj \<Longrightarrow> projection_ok pj"
  using init_market_ok [of t d n scope pj]
  by (auto simp: projection_ok_def init_projection_def res_bind_Inr empty_projection_def orders_ok_def
      placements_ok_def placement_keys_ok_def dict_get_or_def)

lemma project_records_ok:
  assumes "project_records t d n scope rs = Inr pj"
  shows "projection_ok pj"
proof -
  from assms obtain pj0 where init: "init_projection t d n scope = Inr pj0"
    and run: "res_fold apply_record rs pj0 = Inr pj"
    by (auto simp: project_records_def res_bind_Inr)
  from run show ?thesis
    by (rule res_fold_keeps [where P = projection_ok, rotated])
      (use init_projection_ok [OF init] apply_record_ok in blast)+
qed

subsection \<open>Theorems\<close>

lemma project_records_append:
  "project_records t d n scope (rs @ rs') =
     res_bind (project_records t d n scope rs) (res_fold apply_record rs')"
  by (cases "init_projection t d n scope") (simp_all add: project_records_def res_fold_append)

text \<open>A small ledger to evaluate the theorems on.\<close>

definition sample_record :: "int \<Rightarrow> event_type \<Rightarrow> payload \<Rightarrow> audit_record" where
  "sample_record n et p =
     \<lparr>rec_sequence = n, rec_id = ''id'', rec_occurred_at = 0, rec_event_type = et, rec_payload = JObj p,
      rec_previous_hash = [], rec_payload_hash = [], rec_hash = [], rec_schema_version = 1\<rparr>"

lemma init_projection_none [simp]:
  "init_projection None None 1 [] = Inr (empty_projection None None 1 [])"
  by (simp add: init_projection_def validate_optional_positive_int_def validate_positive_int_def
      validate_string_scope_def)

definition order_records :: "audit_record list" where
  "order_records =
     [sample_record 1 ET_ACTION_REQUESTED
        [(''action_id'', JStr ''a''), (''action_type'', JStr ''order.place''),
         (''payload'', JObj [(''product_id'', JStr ''BTC-USD''), (''side'', JStr ''buy'')])],
      sample_record 2 ET_ACTION_ACCEPTED
        [(''action_id'', JStr ''a''), (''action_type'', JStr ''order.place'')],
      sample_record 3 ET_EXCHANGE_ORDER_UPDATE
        [(''order_update'', JObj [(''client_order_id'', JStr ''a''), (''order_id'', JStr ''x''),
           (''status'', JStr ''FILLED'')])]]"

definition trade_records :: "audit_record list" where
  "trade_records =
     [sample_record 1 ET_DATA_RECEIVED
        [(''message_key'', JStr ''k''),
         (''payload'', JObj [(''channel'', JStr ''market_trades''), (''events'', JList [JObj
            [(''trades'', JList [JObj [(''product_id'', JStr ''P''), (''trade_id'', JStr ''t1'')],
                               JObj [(''product_id'', JStr ''P''), (''trade_id'', JStr ''t2'')]])]])])],
      sample_record 2 ET_DATA_ACCEPTED [(''message_key'', JStr ''k''), (''received_sequence'', JInt 1)]]"

definition book_records :: "string \<Rightarrow> audit_record list" where
  "book_records price =
     [sample_record 1 ET_DATA_RECEIVED
        [(''message_key'', JStr ''k''),
         (''payload'', JObj [(''channel'', JStr ''level2''), (''events'', JList [JObj
            [(''product_id'', JStr ''P''), (''updates'', JList
               [JObj [(''side'', JStr ''bid''), (''price'', JStr ''9''), (''size'', JStr ''1'')],
                JObj [(''side'', JStr ''offer''), (''price'', JStr ''12''), (''size'', JStr ''1'')],
                JObj [(''side'', JStr ''bid''), (''price'', JStr price), (''size'', JStr ''1'')]])]])])],
      sample_record 2 ET_DATA_ACCEPTED [(''message_key'', JStr ''k''), (''received_sequence'', JInt 1)]]"

definition placement_record :: "int \<Rightarrow> string \<Rightarrow> string \<Rightarrow> string \<Rightarrow> payload \<Rightarrow> audit_record" where
  "placement_record n i kind status metadata =
     sample_record n ET_ORDER_PLACEMENT_RECORDED
       [(''placement_id'', JStr i), (''logical_order_id'', JStr ''l''), (''placement_kind'', JStr kind),
        (''placement_status'', JStr status), (''product_id'', JStr ''P''), (''side'', JStr ''buy''),
        (''size'', JStr ''1''), (''metadata'', JObj metadata)]"

definition release_records :: "audit_record list" where
  "release_records =
     [placement_record 1 ''s1'' ''staged_release'' ''staged'' [],
      placement_record 2 ''s2'' ''staged_release'' ''staged'' [],
      placement_record 3 ''r1'' ''release'' ''submitted''
        [(''staged_release'', JObj [(''release_of_placement_id'', JStr ''s1'')])]]"

definition projects_to :: "projection res \<Rightarrow> (projection \<Rightarrow> bool) \<Rightarrow> bool" where
  "projects_to r P = (case r of Inl _ \<Rightarrow> False | Inr pj \<Rightarrow> P pj)"

lemma projects_toE:
  assumes "projects_to r P" obtains pj where "r = Inr pj" and "P pj"
  using assms by (auto simp: projects_to_def split: sum.splits)



text \<open>
  C23. Retention: the trades and the order book samples kept for a product never exceed the limits given
  to the projection, and the trade index lists exactly the trades that are kept.
\<close>

theorem projection_market_bounded:
  assumes "project_records t d n scope rs = Inr pj"
  shows "(\<forall>m. pj_max_market_trades_per_product pj = Some m \<longrightarrow> int (length (trade_ids pj p)) \<le> m) \<and>
     int (length (order_book_samples pj p)) \<le> pj_max_order_book_samples_per_product pj \<and>
     length (market_trades_for_product p pj) = length (trade_ids pj p) \<and>
     (\<forall>tr. dict_has (pj_market_trades_by_id pj) tr \<longleftrightarrow> (\<exists>q. tr \<in> set (trade_ids pj q)))"
proof -
  from project_records_ok [OF assms] have ok: "trades_ok pj" "books_ok pj"
    by (simp_all add: projection_ok_def market_ok_def)
  have "length (List.map_filter f xs) = length xs" if "\<And>x. x \<in> set xs \<Longrightarrow> f x \<noteq> None"
    for f :: "string \<Rightarrow> market_trade_snapshot option" and xs
    using that by (induction xs) (auto simp: List.map_filter_def)
  moreover have "dict_get (pj_market_trades_by_id pj) tr \<noteq> None" if "tr \<in> set (trade_ids pj p)" for tr
    using ok(1) that unfolding trades_ok_def dict_has_def by blast
  ultimately have "length (market_trades_for_product p pj) = length (trade_ids pj p)"
    by (simp add: market_trades_for_product_def)
  with ok show ?thesis by (simp add: trades_ok_def books_ok_def)
qed

theorem projection_market_bounded_witness:
  "\<exists>pj. project_records (Some 1) None 1 [] trade_records = Inr pj \<and>
     trade_ids pj ''P'' = [''t2''] \<and> \<not> dict_has (pj_market_trades_by_id pj) ''t1'' \<and>
     length (market_trades_for_product ''P'' pj) = 1"
proof -
  have "projects_to (project_records (Some 1) None 1 [] trade_records)
      (\<lambda>pj. trade_ids pj ''P'' = [''t2''] \<and> \<not> dict_has (pj_market_trades_by_id pj) ''t1'')"
    by code_simp
  then obtain pj where pj: "project_records (Some 1) None 1 [] trade_records = Inr pj"
    "trade_ids pj ''P'' = [''t2'']" "\<not> dict_has (pj_market_trades_by_id pj) ''t1''"
    by (auto elim: projects_toE)
  from projection_market_bounded [OF pj(1), of "''P''"] pj show ?thesis by simp
qed



lemma best_side:
  assumes "best_price side levels = Inr best"
    and "\<And>q e. (q, e) \<in> set (parsed_prices levels) \<Longrightarrow> is_finite e" and "parsed_prices levels \<noteq> []"
  shows "\<exists>x d. best = Some x \<and> (x, d) \<in> set (parsed_prices levels) \<and>
           (\<forall>q e. (q, e) \<in> set (parsed_prices levels) \<longrightarrow> at_least_as_good side d e)"
  using best_price_finite [of levels side] assms by simp



text \<open>
  A bid level whose price is the text \<open>NaN\<close>, beside another bid level, makes every projection of the
  ledger that holds it raise, however the ledger goes on: the comparison of \<^verbatim>\<open>_best_price\<close> signals.
\<close>

theorem nan_price_stops_projection:
  "\<exists>e. project_records None None 1 [] (book_records ''NaN'' @ rs) = Inl e"
proof -
  have "\<not> projects_to (project_records None None 1 [] (book_records ''NaN'')) (\<lambda>pj. True)"
    by code_simp
  then obtain e where "project_records None None 1 [] (book_records ''NaN'') = Inl e"
    by (auto simp: projects_to_def split: sum.splits)
  then show ?thesis by (simp add: project_records_append)
qed

text \<open>
  C25. A fill is counted once: after a fill record was applied, another record of the same fill changes
  nothing.
\<close>

theorem fill_counted_once:
  assumes "apply_exchange_fill r pj = Inr pj'"
    and "string_or_none (jget (record_payload r) ''fill_id'') = Some fill_id"
    and "string_or_none (jget (record_payload r') ''fill_id'') = Some fill_id"
  shows "apply_exchange_fill r' pj' = Inr pj'"
  using known_fill_ignored [OF assms(3)] fill_becomes_known [OF assms(1,2)] by blast

theorem fill_counted_once_witness:
  "\<exists>pj'. apply_exchange_fill (sample_record 1 ET_EXCHANGE_FILL [(''fill_id'', JStr ''f'')])
       (empty_projection None None 1 []) = Inr pj' \<and>
     apply_exchange_fill (sample_record 2 ET_EXCHANGE_FILL [(''fill_id'', JStr ''f''), (''size'', JStr ''1'')]) pj'
       = Inr pj'"
proof -
  let ?r = "sample_record 1 ET_EXCHANGE_FILL [(''fill_id'', JStr ''f'')]"
  let ?r' = "sample_record 2 ET_EXCHANGE_FILL [(''fill_id'', JStr ''f''), (''size'', JStr ''1'')]"
  have "projects_to (apply_exchange_fill ?r (empty_projection None None 1 [])) (\<lambda>pj. True)"
    by code_simp
  then obtain pj' where pj': "apply_exchange_fill ?r (empty_projection None None 1 []) = Inr pj'"
    by (auto elim: projects_toE)
  have "string_or_none (jget (record_payload ?r) ''fill_id'') = Some ''f''"
    and "string_or_none (jget (record_payload ?r') ''fill_id'') = Some ''f''"
    by (simp_all add: sample_record_def payload_dict_def jget_def string_or_none_def)
  from fill_counted_once [OF pj' this] pj' show ?thesis by blast
qed

text \<open>
  The projection can be kept up to date: the projection of a longer ledger is the one of its prefix
  with the new records applied, and an exception while replaying a prefix is an exception for every
  longer ledger.
\<close>

theorem projection_incremental:
  "project_records t d n scope (rs @ rs') =
     res_bind (project_records t d n scope rs) (res_fold apply_record rs')"
  by (rule project_records_append)

end
