(* ===== verification/Decimal_Text.thy ===== *)
theory Decimal_Text
  imports Decimal
begin

text \<open>
  Decimal values as texts and as multiples: \<^verbatim>\<open>Decimal(str(value))\<close> gives the value back, digit for
  digit, and \<^verbatim>\<open>value % increment == 0\<close> says that the number is an integer multiple.
\<close>

subsection \<open>Reading the digits of a text\<close>

definition stops :: "string \<Rightarrow> bool" where
  "stops r = (case r of [] \<Rightarrow> True | c # q \<Rightarrow> \<not> is_digit c)"

lemma stops_simps [simp]: "stops []" "stops (c # q) \<longleftrightarrow> \<not> is_digit c"
  by (simp_all add: stops_def)

lemma span_digits_append:
  "list_all is_digit ds \<Longrightarrow> stops r \<Longrightarrow> span_digits (ds @ r) = (ds, r)"
  by (induction ds) (auto simp: span_digits_def stops_def split: list.splits)

lemma digits_value_append_digit:
  "digits_value (xs @ ys) = digits_value xs * 10 ^ length ys + digits_value ys"
proof (induction ys rule: rev_induct)
  case Nil
  show ?case by (simp add: digits_value_def)
next
  case (snoc y ys)
  have "digits_value (xs @ ys @ [y]) = 10 * digits_value (xs @ ys) + char_digit y"
    using digits_value_snoc [of "xs @ ys" y] by simp
  with snoc show ?case by (simp add: digits_value_snoc algebra_simps)
qed

lemma digits_value_zeros [simp]: "digits_value (zeros k) = 0"
proof -
  have "digits_value (replicate n (CHR ''0'')) = 0" for n
    by (induction n) (simp_all add: digits_value_def replicate_append_same [symmetric] char_digit_def)
  then show ?thesis by (simp add: zeros_def)
qed

lemma zeros_digits [simp]: "list_all is_digit (zeros k)"
  by (simp add: zeros_def list_all_iff is_digit_def)

lemma length_zeros [simp]: "length (zeros k) = nat k"
  by (simp add: zeros_def)

lemma zeros_zero [simp]: "zeros 0 = []"
  by (simp add: zeros_def)

subsection \<open>The shape of a decimal text\<close>

definition exponent_text :: "int \<Rightarrow> string" where
  "exponent_text k =
     (if k = 0 then [] else CHR ''E'' # (if k < 0 then CHR ''-'' else CHR ''+'') # nat_to_str (nat (abs k)))"

definition shape :: "string \<Rightarrow> string \<Rightarrow> int \<Rightarrow> string" where
  "shape ip fp k = ip @ (if fp = [] then [] else CHR ''.'' # fp) @ exponent_text k"

definition lower_shape :: "string \<Rightarrow> string \<Rightarrow> int \<Rightarrow> string" where
  "lower_shape ip fp k = ip @ (if fp = [] then [] else CHR ''.'' # fp) @ str_lower (exponent_text k)"

lemma lower_digit: "is_digit c \<Longrightarrow> lower_char c = c"
  by (auto simp: lower_char_def is_digit_def Let_def)

lemma lower_digits: "list_all is_digit ds \<Longrightarrow> str_lower ds = ds"
  by (induction ds) (auto simp: str_lower_def lower_digit)

lemma lower_exponent_text:
  "str_lower (exponent_text k) =
     (if k = 0 then [] else CHR ''e'' # (if k < 0 then CHR ''-'' else CHR ''+'') # nat_to_str (nat (abs k)))"
proof -
  have "map lower_char (nat_to_str n) = nat_to_str n" for n
    using lower_digits [OF nat_to_str_digits] by (simp add: str_lower_def)
  moreover have "lower_char (CHR ''E'') = CHR ''e''" "lower_char (CHR ''-'') = CHR ''-''"
    "lower_char (CHR ''+'') = CHR ''+''"
    by code_simp+
  ultimately show ?thesis by (simp add: exponent_text_def str_lower_def)
qed

lemma str_lower_append: "str_lower (xs @ ys) = str_lower xs @ str_lower ys"
  by (simp add: str_lower_def)

lemma str_lower_shape:
  assumes "list_all is_digit ip" and "list_all is_digit fp"
  shows "str_lower (shape ip fp k) = lower_shape ip fp k"
proof -
  have "lower_char (CHR ''.'') = CHR ''.''" by (simp add: lower_char_def)
  then have "str_lower (CHR ''.'' # fp) = CHR ''.'' # fp"
    using lower_digits [OF assms(2)] by (simp add: str_lower_def)
  then show ?thesis
    using lower_digits [OF assms(1)] by (simp add: shape_def lower_shape_def str_lower_append)
       (simp add: str_lower_def)
qed

lemma parse_exponent_text:
  "k \<noteq> 0 \<Longrightarrow> parse_exponent ((if k < 0 then CHR ''-'' else CHR ''+'') # nat_to_str (nat (abs k))) = Some k"
  by (simp add: parse_exponent_def nat_to_str_digits)

text \<open>The bounds beyond which \<^verbatim>\<open>Decimal(text)\<close> does not convert\<close>

definition convertible :: "nat \<Rightarrow> int \<Rightarrow> bool" where
  "convertible c e \<longleftrightarrow> adjusted c e \<le> 999999999999999999 \<and> - 1999999999999999997 \<le> e"

lemma parse_number_shape:
  assumes "list_all is_digit ip" and "ip \<noteq> []" and "list_all is_digit fp"
    and "digits_value (ip @ fp) = c" and "k - int (length fp) = e" and "convertible c e"
  shows "parse_number neg (lower_shape ip fp k) = Some (DFin neg c e)"
proof -
  let ?ex = "str_lower (exponent_text k)"
  have ex: "stops ?ex" "k \<noteq> 0 \<Longrightarrow> \<exists>q. ?ex = CHR ''e'' # q \<and> parse_exponent q = Some k" "k = 0 \<Longrightarrow> ?ex = []"
    by (auto simp: lower_exponent_text is_digit_def parse_exponent_text)
  have nodot: "(case ?ex of c # q \<Rightarrow> if c = CHR ''.'' then span_digits q else ([], ?ex) | [] \<Rightarrow> ([], ?ex)) = ([], ?ex)"
    using ex(2,3) by (cases "k = 0") auto
  have "span_digits (lower_shape ip fp k) = (ip, (if fp = [] then [] else CHR ''.'' # fp) @ ?ex)"
    using assms(1) ex(1) by (auto simp: lower_shape_def is_digit_def intro!: span_digits_append)
  moreover have "(case (if fp = [] then [] else CHR ''.'' # fp) @ ?ex of
       c # q \<Rightarrow> if c = CHR ''.'' then span_digits q else ([], (if fp = [] then [] else CHR ''.'' # fp) @ ?ex)
     | [] \<Rightarrow> ([], (if fp = [] then [] else CHR ''.'' # fp) @ ?ex)) = (fp, ?ex)"
  proof (cases "fp = []")
    case True
    then show ?thesis using nodot by (simp only: simp_thms if_True append_Nil)
  next
    case False
    then show ?thesis using span_digits_append [OF assms(3) ex(1)] by simp
  qed
  moreover have "(case ?ex of [] \<Rightarrow> Some 0 | c # q \<Rightarrow> if c = CHR ''e'' then parse_exponent q else None) = Some k"
    using ex(2,3) by (cases "k = 0") auto
  ultimately show ?thesis
    using assms(2,4,5,6) by (simp add: parse_number_def convertible_def not_less)
qed

subsection \<open>The text of a value\<close>

definition str_signed :: "bool \<Rightarrow> string \<Rightarrow> string" where
  "str_signed s t = (if s then CHR ''-'' # t else t)"

definition numeral_char :: "char \<Rightarrow> bool" where
  "numeral_char c \<longleftrightarrow> is_digit c \<or> c \<in> {CHR ''.'', CHR ''E'', CHR ''+'', CHR ''-''}"

lemma numeral_char_plain:
  assumes "numeral_char c"
  shows "\<not> is_space c" and "c \<noteq> CHR ''_''"
  using assms by (auto simp: numeral_char_def is_digit_def is_space_def Let_def)

lemma str_strip_plain: "list_all (\<lambda>c. \<not> is_space c) t \<Longrightarrow> str_strip t = t"
proof -
  have "list_all (\<lambda>c. \<not> is_space c) t \<Longrightarrow> dropWhile is_space t = t" for t
    by (cases t) auto
  moreover assume "list_all (\<lambda>c. \<not> is_space c) t"
  ultimately show ?thesis by (simp add: str_strip_def)
qed

lemma shape_chars:
  assumes "list_all is_digit ip" and "list_all is_digit fp"
  shows "list_all numeral_char (shape ip fp k)"
proof -
  have "list_all numeral_char ds" if "list_all is_digit ds" for ds
    using that by (auto simp: list_all_iff numeral_char_def)
  with assms nat_to_str_digits [of "nat (abs k)"] show ?thesis
    by (auto simp: shape_def exponent_text_def numeral_char_def)
qed

lemma dec_parse_shape:
  assumes "list_all is_digit ip" and "ip \<noteq> []" and "list_all is_digit fp"
    and "digits_value (ip @ fp) = c" and "k - int (length fp) = e" and "convertible c e"
  shows "dec_parse (str_signed s (shape ip fp k)) = Some (DFin s c e)"
proof -
  let ?t = "str_signed s (shape ip fp k)"
  have "list_all numeral_char ?t"
    using shape_chars [OF assms(1,3), of k] by (auto simp: str_signed_def numeral_char_def)
  then have t: "str_strip ?t = ?t" "filter (\<lambda>c. c \<noteq> CHR ''_'') ?t = ?t"
    using numeral_char_plain by (auto simp: list_all_iff intro: str_strip_plain filter_True)
  obtain d ds where ip: "ip = d # ds" and d: "is_digit d" using assms(1,2) by (cases ip) auto
  have low: "str_lower ?t = str_signed s (lower_shape ip fp k)"
    using str_lower_shape [OF assms(1,3), of k] by (auto simp: str_signed_def str_lower_def lower_char_def)
  obtain q where q: "lower_shape ip fp k = d # q" by (simp add: lower_shape_def ip)
  have nd: "d \<noteq> CHR ''-''" "d \<noteq> CHR ''+''" "d \<noteq> CHR ''i''" "d \<noteq> CHR ''n''" "d \<noteq> CHR ''s''"
    using d by (auto simp: is_digit_def)
  have "dec_parse ?t = parse_number s (d # q)"
    using nd by (simp add: dec_parse_def t low q) (simp add: str_signed_def numeral_3_eq_3 numeral_nat)
  then show ?thesis using parse_number_shape [OF assms, of s] by (simp add: q)
qed

lemma dec_str_shape:
  obtains ip fp k where "dec_str (DFin s c e) = str_signed s (shape ip fp k)"
    and "list_all is_digit ip" and "ip \<noteq> []" and "list_all is_digit fp"
    and "digits_value (ip @ fp) = c" and "k - int (length fp) = e"
proof -
  let ?ds = "nat_to_str c"
  let ?n = "int (length ?ds)"
  let ?left = "e + ?n"
  let ?dot = "if e \<le> 0 \<and> ?left > - 6 then ?left else 1"
  have ds: "list_all is_digit ?ds" "?n > 0" by (simp_all add: nat_to_str_digits)
  have ex: "(if ?left = ?dot then []
      else ''E'' @ (if ?left - ?dot < 0 then ''-'' else ''+'') @ int_to_str (abs (?left - ?dot)))
      = exponent_text (?left - ?dot)"
    by (auto simp: exponent_text_def int_to_str_def)
  consider (small) "?dot \<le> 0" | (whole) "0 < ?dot" "?n \<le> ?dot" | (inner) "0 < ?dot" "?dot < ?n" by linarith
  then show thesis
  proof cases
    case small
    then have dot: "?dot = ?left" by (auto split: if_splits)
    show thesis
    proof (rule that [of "''0''" "zeros (- ?left) @ ?ds" 0])
      show "dec_str (DFin s c e) = str_signed s (shape ''0'' (zeros (- ?left) @ ?ds) 0)"
        using small dot by (auto simp: Let_def str_signed_def shape_def exponent_text_def)
      show "digits_value (''0'' @ zeros (- ?left) @ ?ds) = c"
        by (simp only: digits_value_append_digit digits_value_zeros digits_value_nat_to_str)
           (simp add: digits_value_def char_digit_def)
      show "0 - int (length (zeros (- ?left) @ ?ds)) = e" using small dot by (auto split: if_splits)
    qed (use ds in \<open>auto simp: is_digit_def\<close>)
  next
    case whole
    have "length ?ds \<ge> Suc 0" using ds(2) by linarith
    with whole have n: "?n = ?dot" by (auto split: if_splits)
    show thesis
    proof (rule that [of ?ds "[]" "?left - ?dot"])
      show "dec_str (DFin s c e) = str_signed s (shape ?ds [] (?left - ?dot))"
        using whole n ex by (simp add: Let_def str_signed_def shape_def del: int_to_str_def)
      show "?left - ?dot - int (length []) = e" using n by simp
    qed (use ds in auto)
  next
    case inner
    show thesis
    proof (rule that [of "take (nat ?dot) ?ds" "drop (nat ?dot) ?ds" "?left - ?dot"])
      show "dec_str (DFin s c e) =
          str_signed s (shape (take (nat ?dot) ?ds) (drop (nat ?dot) ?ds) (?left - ?dot))"
        using inner ex by (simp add: Let_def str_signed_def shape_def)
      show "take (nat ?dot) ?ds \<noteq> []" using inner by auto
      show "?left - ?dot - int (length (drop (nat ?dot) ?ds)) = e" using inner by auto
    qed (use ds in \<open>auto simp: list_all_iff dest: in_set_takeD in_set_dropD\<close>)
  qed
qed

lemma dec_parse_str:
  "convertible c e \<Longrightarrow> dec_parse (dec_str (DFin s c e)) = Some (DFin s c e)"
  by (rule dec_str_shape [of s c e]) (simp add: dec_parse_shape)

subsection \<open>Magnitudes\<close>

lemma num_digits_pos [simp]: "0 < num_digits n"
  by (simp add: num_digits_def)

lemma num_digits_upper: "n < 10 ^ num_digits n"
proof (induction n rule: nat_to_str.induct)
  case (1 n)
  show ?case
  proof (cases "n < 10")
    case True
    then show ?thesis by (simp add: num_digits_def nat_to_str.simps [of n])
  next
    case False
    with 1 have "n div 10 < 10 ^ num_digits (n div 10)" by blast
    then have "n < 10 * 10 ^ num_digits (n div 10)" by simp
    with False show ?thesis by (simp add: num_digits_def nat_to_str.simps [of n])
  qed
qed

lemma num_digits_lower: "0 < n \<Longrightarrow> 10 ^ (num_digits n - 1) \<le> n"
proof (induction n rule: nat_to_str.induct)
  case (1 n)
  show ?case
  proof (cases "n < 10")
    case True
    with 1 show ?thesis by (simp add: num_digits_def nat_to_str.simps [of n])
  next
    case False
    then have "0 < n div 10" by auto
    with False 1 have "10 ^ (num_digits (n div 10) - 1) \<le> n div 10" by blast
    then have "10 * 10 ^ (num_digits (n div 10) - 1) \<le> n" by simp
    moreover have "num_digits n - 1 = Suc (num_digits (n div 10) - 1)"
      using False num_digits_pos [of "n div 10"]
      by (simp add: num_digits_def nat_to_str.simps [of n] del: num_digits_pos)
    ultimately show ?thesis by (simp only: power_Suc)
  qed
qed

lemma num_digits_le_iff: "num_digits n \<le> k \<longleftrightarrow> n < 10 ^ k" if "0 < k"
proof
  assume "num_digits n \<le> k"
  then have "(10 :: nat) ^ num_digits n \<le> 10 ^ k" by (simp add: power_increasing)
  with num_digits_upper [of n] show "n < 10 ^ k" by linarith
next
  assume n: "n < 10 ^ k"
  show "num_digits n \<le> k"
  proof (rule ccontr)
    assume a: "\<not> num_digits n \<le> k"
    show False
    proof (cases "n = 0")
      case True
      with a that show False by (simp add: num_digits_def nat_to_str.simps [of 0])
    next
      case False
      with num_digits_lower [of n] have "10 ^ (num_digits n - 1) \<le> n" by simp
      moreover from a have "(10 :: nat) ^ k \<le> 10 ^ (num_digits n - 1)" by (intro power_increasing) auto
      ultimately show False using n by linarith
    qed
  qed
qed

text \<open>A coefficient above the precision loses digits, never all of them.\<close>

lemma div_half_even_lower: "n div d \<le> div_half_even n d"
  by (simp add: div_half_even_def Let_def)

lemma div_half_even_upper: "div_half_even n d \<le> n div d + 1"
  by (simp add: div_half_even_def Let_def)

lemma dec_fix_cases:
  assumes "dec_fix s c e = Inr r" and "dec_etiny \<le> e"
  obtains (zero) e' where "c = 0" and "r = DFin s 0 e'"
  | (exact) "c \<noteq> 0" and "num_digits c \<le> dec_prec" and "r = DFin s c e"
  | (rounded) c' e' where "dec_prec < num_digits c" and "r = DFin s c' e'" and "e < e'"
      and "num_digits c' = dec_prec"
proof (cases "c = 0")
  case True
  with assms show thesis by (auto simp: dec_fix_def intro: that(1))
next
  case False
  show thesis
  proof (cases "num_digits c \<le> dec_prec")
    case True
    with False assms have "r = DFin s c e" by (auto simp: dec_fix_def Let_def split: if_splits)
    with False True show thesis by (rule that(2))
  next
    case big: False
    let ?k = "num_digits c - dec_prec"
    let ?q = "div_half_even c (10 ^ ?k)"
    have k: "max (int (num_digits c) + e - int dec_prec) dec_etiny = e + int ?k"
      "nat (int (num_digits c) + e - int dec_prec - e) = ?k"
      using big assms(2) by auto
    have "10 ^ (num_digits c - 1) \<le> c" using num_digits_lower False by simp
    moreover have "num_digits c - 1 = (dec_prec - 1) + ?k" using big by (simp add: dec_prec_def)
    ultimately have "10 ^ (dec_prec - 1) \<le> c div 10 ^ ?k"
      by (simp add: less_eq_div_iff_mult_less_eq power_add [symmetric])
    then have low: "10 ^ (dec_prec - 1) \<le> ?q" using div_half_even_lower le_trans by blast
    have "c < 10 ^ dec_prec * 10 ^ ?k"
      using num_digits_upper [of c] big by (simp add: power_add [symmetric] del: power_add)
    then have "c div 10 ^ ?k < 10 ^ dec_prec" by (simp add: div_less_iff_less_mult)
    then have high: "?q \<le> 10 ^ dec_prec" using div_half_even_upper [of c "10 ^ ?k"] by linarith
    have run: "dec_fix s c e =
      (if int (num_digits c) + e - int dec_prec > dec_etop then Inl decimal_overflow
       else if num_digits ?q > dec_prec
         then (if e + int ?k + 1 > dec_etop then Inl decimal_overflow
               else Inr (DFin s (?q div 10) (e + int ?k + 1)))
       else Inr (DFin s ?q (e + int ?k)))"
      using False big k by (simp add: dec_fix_def Let_def)
    have exactly: "num_digits n = dec_prec" if "10 ^ (dec_prec - 1) \<le> n" "n < 10 ^ dec_prec" for n
    proof -
      have "num_digits n \<le> dec_prec" using that by (subst num_digits_le_iff) (simp_all add: dec_prec_def)
      moreover have "\<not> num_digits n \<le> dec_prec - 1" using that
        by (subst num_digits_le_iff) (simp_all add: dec_prec_def)
      ultimately show ?thesis by simp
    qed
    show thesis
    proof (cases "?q < 10 ^ dec_prec")
      case True
      with exactly low have "num_digits ?q = dec_prec" by blast
      with run assms(1) have "r = DFin s ?q (e + int ?k)" by (auto split: if_splits)
      with big \<open>num_digits ?q = dec_prec\<close> show thesis by (intro that(3)) auto
    next
      case False
      with high have q: "?q = 10 ^ dec_prec" by simp
      then have "\<not> num_digits ?q \<le> dec_prec" by (subst num_digits_le_iff) (simp_all add: dec_prec_def)
      with run assms(1) have "r = DFin s (?q div 10) (e + int ?k + 1)" by (auto split: if_splits)
      moreover have "num_digits (?q div 10) = dec_prec" by (rule exactly; simp only: q; simp add: dec_prec_def)
      ultimately show thesis using big by (intro that(3)) auto
    qed
  qed
qed

lemma dec_rat_zero_iff: "dec_rat (DFin s c e) = 0 \<longleftrightarrow> c = 0"
  by (simp add: signed_def)

lemma num_digits_zero: "num_digits 0 = 1"
  by (simp add: num_digits_def nat_to_str.simps [of 0])

lemma dec_fix_zero_iff:
  assumes "dec_fix s c e = Inr r" and "dec_etiny \<le> e"
  shows "is_finite r" and "dec_rat r = 0 \<longleftrightarrow> c = 0"
  using assms num_digits_zero
  by (auto elim!: dec_fix_cases simp: dec_rat_zero_iff dec_prec_def simp del: dec_rat.simps)

subsection \<open>Multiples\<close>

text \<open>The coefficients of two values at their common exponent\<close>

lemma dec_rat_common:
  assumes "m \<le> e"
  shows "dec_rat (DFin s c e) = of_int (signed s (c * 10 ^ nat (e - m))) * power_int 10 m"
proof -
  have "signed s (c * 10 ^ nat (e - m)) = aligned m s c e" by (simp add: aligned_def signed_def)
  then show ?thesis by (simp only: aligned_rat [OF assms])
qed

lemma multiple_iff_dvd:
  assumes "d \<noteq> 0"
  shows "(\<exists>k :: int. dec_rat (DFin s c e) = of_int k * dec_rat (DFin t d f)) \<longleftrightarrow>
    d * 10 ^ nat (f - min e f) dvd c * 10 ^ nat (e - min e f)"
proof -
  let ?X = "c * 10 ^ nat (e - min e f)" and ?D = "d * 10 ^ nat (f - min e f)"
  have p: "power_int 10 (min e f) \<noteq> (0 :: rat)" by simp
  have "(\<exists>k :: int. dec_rat (DFin s c e) = of_int k * dec_rat (DFin t d f)) \<longleftrightarrow>
      (\<exists>k :: int. (of_int (signed s ?X) :: rat) = of_int (k * signed t ?D))"
    using p dec_rat_common [of "min e f" e s c] dec_rat_common [of "min e f" f t d]
    by (simp del: dec_rat.simps)
  also have "\<dots> \<longleftrightarrow> signed t ?D dvd signed s ?X"
    by (simp only: of_int_eq_iff dvd_def mult.commute)
  also have "\<dots> \<longleftrightarrow> ?D dvd ?X"
    by (simp add: signed_def int_dvd_int_iff [symmetric])
  finally show ?thesis .
qed

lemma aligned_small:
  assumes "adjusted c e - adjusted d f \<le> - 2" and "0 < d"
  shows "c * 10 ^ nat (e - min e f) < d * 10 ^ nat (f - min e f)"
proof -
  let ?i = "nat (e - min e f)" and ?j = "nat (f - min e f)"
  have "c * 10 ^ ?i < 10 ^ num_digits c * 10 ^ ?i"
    using num_digits_upper [of c] by simp
  also have "\<dots> = 10 ^ (num_digits c + ?i)" by (simp add: power_add)
  also have "\<dots> \<le> 10 ^ ((num_digits d - 1) + ?j)"
    using assms(1) num_digits_pos [of d] by (intro power_increasing) (auto simp: adjusted_def)
  also have "\<dots> = 10 ^ (num_digits d - 1) * 10 ^ ?j" by (simp add: power_add)
  also have "\<dots> \<le> d * 10 ^ ?j" using num_digits_lower [OF assms(2)] by simp
  finally show ?thesis .
qed

lemma int_divide_cases:
  assumes "int_divide s c e t d f = Inr (q, r)" and "0 < d"
  defines "m \<equiv> min e f"
  shows "q = DFin (s \<noteq> t) (c * 10 ^ nat (e - m) div (d * 10 ^ nat (f - m))) 0"
    and "r = DFin s (c * 10 ^ nat (e - m) mod (d * 10 ^ nat (f - m))) m"
proof -
  show "q = DFin (s \<noteq> t) (c * 10 ^ nat (e - m) div (d * 10 ^ nat (f - m))) 0"
    "r = DFin s (c * 10 ^ nat (e - m) mod (d * 10 ^ nat (f - m))) m"
  proof (atomize (full), cases "c = 0 \<or> adjusted c e - adjusted d f \<le> - 2")
    case True
    then have "c * 10 ^ nat (e - m) < d * 10 ^ nat (f - m)"
      using aligned_small [of c e d f] assms(2) by (auto simp: m_def)
    with True assms(1) show "q = DFin (s \<noteq> t) (c * 10 ^ nat (e - m) div (d * 10 ^ nat (f - m))) 0 \<and>
      r = DFin s (c * 10 ^ nat (e - m) mod (d * 10 ^ nat (f - m))) m"
      by (auto simp: int_divide_def Let_def m_def rescale_def)
  next
    case False
    with assms(1) show "q = DFin (s \<noteq> t) (c * 10 ^ nat (e - m) div (d * 10 ^ nat (f - m))) 0 \<and>
      r = DFin s (c * 10 ^ nat (e - m) mod (d * 10 ^ nat (f - m))) m"
      by (auto simp: int_divide_def Let_def m_def split: if_splits)
  qed
qed

text \<open>The remainder is zero exactly for the multiples.\<close>

lemma dec_mod_zero_iff:
  assumes "dec_mod (DFin s c e) (DFin t d f) = Inr r" and "0 < d" and "dec_etiny \<le> e" and "dec_etiny \<le> f"
  shows "is_finite r"
    and "dec_rat r = 0 \<longleftrightarrow> (\<exists>k :: int. dec_rat (DFin s c e) = of_int k * dec_rat (DFin t d f))"
proof -
  let ?m = "min e f"
  from assms(1,2) obtain q u where qu: "int_divide s c e t d f = Inr (q, u)"
    and fixed: "(case u of DFin rs rc re \<Rightarrow> dec_fix rs rc re | _ \<Rightarrow> Inr u) = Inr r"
    by (auto simp: dec_mod_def with_numbers_def nan_operand_def res_bind_Inr)
  from int_divide_cases [OF qu assms(2)] fixed
  have "dec_fix s (c * 10 ^ nat (e - ?m) mod (d * 10 ^ nat (f - ?m))) ?m = Inr r" by simp
  from dec_fix_zero_iff [OF this] assms(3,4)
  have "is_finite r" and z: "dec_rat r = 0 \<longleftrightarrow> c * 10 ^ nat (e - ?m) mod (d * 10 ^ nat (f - ?m)) = 0"
    by auto
  then show "is_finite r" by simp
  show "dec_rat r = 0 \<longleftrightarrow> (\<exists>k :: int. dec_rat (DFin s c e) = of_int k * dec_rat (DFin t d f))"
    using z multiple_iff_dvd [of d s c e t f] assms(2) by (simp only: dvd_eq_mod_eq_0)
qed

end
