(* ===== verification/Products.thy ===== *)
theory Products
  imports Decimal_Text Payloads "HOL-Library.Code_Target_Nat"
begin

text \<open>
  \<^verbatim>\<open>products/catalog.py\<close>: the trading rules of a product, read from an exchange payload or from the
  ledger, and the catalogue of products. A comparison of decimals may raise (a NaN), so the checks
  return a result or an exception.
\<close>

subsection \<open>Parsing\<close>

text \<open>\<^verbatim>\<open>_decimal_or_none(value)\<close>: \<^verbatim>\<open>Decimal(str(value))\<close> when it is a finite number\<close>

definition finite_decimal :: "string \<Rightarrow> pydec option" where
  "finite_decimal s =
     (case dec_parse s of Some d \<Rightarrow> if is_finite d then Some d else None | None \<Rightarrow> None)"

definition json_decimal :: "json \<Rightarrow> pydec option" where
  "json_decimal j =
     (case j of
        JStr s \<Rightarrow> finite_decimal s
      | JInt i \<Rightarrow> if length (nat_to_str (nat (abs i))) \<le> 4300 then finite_decimal (int_to_str i) else None
      | JFloat f \<Rightarrow> finite_decimal (float_repr f)
      | _ \<Rightarrow> None)"

text \<open>\<^verbatim>\<open>bool(value)\<close>\<close>

definition json_truth :: "json \<Rightarrow> bool" where
  "json_truth j =
     (case j of JNull \<Rightarrow> False | JBool b \<Rightarrow> b | JInt i \<Rightarrow> i \<noteq> 0 | JFloat f \<Rightarrow> float_digits f \<noteq> 0
      | JStr s \<Rightarrow> s \<noteq> [] | JList xs \<Rightarrow> xs \<noteq> [] | JObj kvs \<Rightarrow> kvs \<noteq> [])"

definition required_string :: "payload \<Rightarrow> string \<Rightarrow> string res" where
  "required_string p k =
     (case string_or_none (jget p k) of
        None \<Rightarrow> Inl (value_error (k @ '' is required''))
      | Some s \<Rightarrow> Inr s)"

definition product_type_or_unknown :: "json \<Rightarrow> product_type" where
  "product_type_or_unknown j =
     (case enum_or_none product_type_of j of None \<Rightarrow> PT_UNKNOWN | Some t \<Rightarrow> t)"

definition product_venue_or_unknown :: "json \<Rightarrow> product_venue" where
  "product_venue_or_unknown j =
     (case enum_or_none product_venue_of j of None \<Rightarrow> PV_UNKNOWN | Some v \<Rightarrow> v)"

subsection \<open>The metadata of a product\<close>

record product_metadata =
  prd_product_id :: string
  prd_product_type :: product_type
  prd_product_venue :: product_venue
  prd_contract_size :: "pydec option"
  prd_base_increment :: "pydec option"
  prd_quote_increment :: "pydec option"
  prd_price_increment :: "pydec option"
  prd_base_min_size :: "pydec option"
  prd_base_max_size :: "pydec option"
  prd_quote_min_size :: "pydec option"
  prd_quote_max_size :: "pydec option"
  prd_trading_disabled :: bool
  prd_cancel_only :: bool
  prd_limit_only :: bool
  prd_post_only :: bool
  prd_view_only :: bool
  prd_is_disabled :: bool
  prd_raw :: payload

definition contract_size_of :: "payload \<Rightarrow> payload \<Rightarrow> pydec option" where
  "contract_size_of p raw =
     (case json_decimal (jget p ''contract_size'') of
        Some d \<Rightarrow> Some d
      | None \<Rightarrow>
          (case jget raw ''future_product_details'' of
             JObj details \<Rightarrow> json_decimal (jget details ''contract_size'')
           | _ \<Rightarrow> None))"

definition metadata_from_payload :: "payload \<Rightarrow> payload \<Rightarrow> product_metadata res" where
  "metadata_from_payload p raw =
     res_bind (required_string p ''product_id'') (\<lambda>product_id. Inr
       \<lparr>prd_product_id = product_id,
        prd_product_type = product_type_or_unknown (jget p ''product_type''),
        prd_product_venue = product_venue_or_unknown (jget p ''product_venue''),
        prd_contract_size = contract_size_of p raw,
        prd_base_increment = json_decimal (jget p ''base_increment''),
        prd_quote_increment = json_decimal (jget p ''quote_increment''),
        prd_price_increment = json_decimal (jget p ''price_increment''),
        prd_base_min_size = json_decimal (jget p ''base_min_size''),
        prd_base_max_size = json_decimal (jget p ''base_max_size''),
        prd_quote_min_size = json_decimal (jget p ''quote_min_size''),
        prd_quote_max_size = json_decimal (jget p ''quote_max_size''),
        prd_trading_disabled = json_truth (jget p ''trading_disabled''),
        prd_cancel_only = json_truth (jget p ''cancel_only''),
        prd_limit_only = json_truth (jget p ''limit_only''),
        prd_post_only = json_truth (jget p ''post_only''),
        prd_view_only = json_truth (jget p ''view_only''),
        prd_is_disabled = json_truth (jget p ''is_disabled''),
        prd_raw = raw\<rparr>)"

definition product_from_coinbase_payload :: "payload \<Rightarrow> product_metadata res" where
  "product_from_coinbase_payload p = metadata_from_payload p p"

definition product_from_audit_payload :: "payload \<Rightarrow> product_metadata res" where
  "product_from_audit_payload p =
     metadata_from_payload p (case jget p ''raw'' of JObj raw \<Rightarrow> raw | _ \<Rightarrow> p)"

definition tradable_for_new_orders :: "product_metadata \<Rightarrow> bool" where
  "tradable_for_new_orders m \<longleftrightarrow>
     \<not> (prd_trading_disabled m \<or> prd_cancel_only m \<or> prd_view_only m \<or> prd_is_disabled m)"

definition allows_order_type :: "product_metadata \<Rightarrow> order_type option \<Rightarrow> bool" where
  "allows_order_type m t =
     (case t of None \<Rightarrow> False | Some ot \<Rightarrow> \<not> (prd_limit_only m \<and> ot \<noteq> OT_LIMIT))"

definition decimal_payload :: "pydec option \<Rightarrow> json" where
  "decimal_payload d = jopt (map_option dec_str d)"

definition product_payload :: "product_metadata \<Rightarrow> payload" where
  "product_payload m =
     [(''base_increment'', decimal_payload (prd_base_increment m)),
      (''base_max_size'', decimal_payload (prd_base_max_size m)),
      (''base_min_size'', decimal_payload (prd_base_min_size m)),
      (''cancel_only'', JBool (prd_cancel_only m)),
      (''contract_size'', decimal_payload (prd_contract_size m)),
      (''is_disabled'', JBool (prd_is_disabled m)),
      (''limit_only'', JBool (prd_limit_only m)),
      (''post_only'', JBool (prd_post_only m)),
      (''price_increment'', decimal_payload (prd_price_increment m)),
      (''product_id'', JStr (prd_product_id m)),
      (''product_type'', JStr (product_type_value (prd_product_type m))),
      (''product_venue'', JStr (product_venue_value (prd_product_venue m))),
      (''quote_increment'', decimal_payload (prd_quote_increment m)),
      (''quote_max_size'', decimal_payload (prd_quote_max_size m)),
      (''quote_min_size'', decimal_payload (prd_quote_min_size m)),
      (''raw'', JObj (prd_raw m)),
      (''trading_disabled'', JBool (prd_trading_disabled m)),
      (''tradable_for_new_orders'', JBool (tradable_for_new_orders m)),
      (''view_only'', JBool (prd_view_only m))]"

subsection \<open>Sizes, prices, notionals\<close>

text \<open>\<^verbatim>\<open>limit is not None and test(limit)\<close>\<close>

definition when_set :: "('a \<Rightarrow> bool res) \<Rightarrow> 'a option \<Rightarrow> bool res" where
  "when_set test l = (case l of None \<Rightarrow> Inr False | Some x \<Rightarrow> test x)"

definition res_if :: "bool res \<Rightarrow> 'a res \<Rightarrow> 'a res \<Rightarrow> 'a res" where
  "res_if c a b = res_bind c (\<lambda>x. if x then a else b)"

definition res_not :: "bool res \<Rightarrow> bool res" where
  "res_not c = res_bind c (\<lambda>x. Inr (\<not> x))"

definition is_multiple :: "pydec \<Rightarrow> pydec \<Rightarrow> bool res" where
  "is_multiple v inc =
     res_if (dec_le inc dec_zero) (Inr True)
       (res_bind (dec_mod v inc) (\<lambda>r. dec_eq r dec_zero))"

definition size_is_valid :: "product_metadata \<Rightarrow> pydec option \<Rightarrow> bool res" where
  "size_is_valid m sz =
     (case sz of
        None \<Rightarrow> Inr False
      | Some s \<Rightarrow>
          res_if (when_set (\<lambda>b. dec_lt s b) (prd_base_min_size m)) (Inr False)
         (res_if (when_set (\<lambda>b. dec_lt b s) (prd_base_max_size m)) (Inr False)
         (res_if (when_set (\<lambda>i. res_not (is_multiple s i)) (prd_base_increment m)) (Inr False)
            (Inr True))))"

definition price_is_valid :: "product_metadata \<Rightarrow> pydec option \<Rightarrow> bool res" where
  "price_is_valid m price =
     (case price of
        None \<Rightarrow> Inr False
      | Some p \<Rightarrow> res_if (when_set (\<lambda>i. res_not (is_multiple p i)) (prd_price_increment m)) (Inr False) (Inr True))"

definition notional_multiplier :: "product_metadata \<Rightarrow> pydec res" where
  "notional_multiplier m =
     (case prd_contract_size m of
        None \<Rightarrow> Inr dec_one
      | Some c \<Rightarrow> if prd_product_type m \<noteq> PT_FUTURE then Inr dec_one
                  else res_if (dec_lt dec_zero c) (Inr c) (Inr dec_one))"

definition product_notional :: "product_metadata \<Rightarrow> pydec option \<Rightarrow> pydec option \<Rightarrow> pydec option res" where
  "product_notional m sz price =
     (case (sz, price) of
        (Some s, Some p) \<Rightarrow>
          res_bind (dec_mul s p) (\<lambda>sp. res_bind (notional_multiplier m) (\<lambda>k.
          res_bind (dec_mul sp k) (\<lambda>n. Inr (Some n))))
      | _ \<Rightarrow> Inr None)"

definition notional_is_valid :: "product_metadata \<Rightarrow> pydec option \<Rightarrow> pydec option \<Rightarrow> bool res" where
  "notional_is_valid m sz price =
     (if prd_quote_min_size m = None \<and> prd_quote_max_size m = None then Inr True
      else res_bind (product_notional m sz price) (\<lambda>notional. case notional of
          None \<Rightarrow> Inr False
        | Some n \<Rightarrow>
            res_if (when_set (\<lambda>b. dec_lt n b) (prd_quote_min_size m)) (Inr False)
           (res_if (when_set (\<lambda>b. dec_lt b n) (prd_quote_max_size m)) (Inr False) (Inr True))))"

definition ceil_to_increment :: "pydec \<Rightarrow> pydec option \<Rightarrow> pydec res" where
  "ceil_to_increment v inc =
     (case inc of
        None \<Rightarrow> Inr v
      | Some i \<Rightarrow>
          res_if (dec_le i dec_zero) (Inr v)
         (res_if (res_if (dec_eq v dec_zero) (Inr True)
                    (res_bind (dec_mod v i) (\<lambda>r. dec_eq r dec_zero)))
            (dec_quantize v i)
            (res_bind (dec_floordiv v i) (\<lambda>q. res_bind (dec_add q dec_one) (\<lambda>q1.
             res_bind (dec_mul q1 i) (\<lambda>n. dec_quantize n i))))))"

definition minimum_valid_size :: "product_metadata \<Rightarrow> pydec \<Rightarrow> pydec option res" where
  "minimum_valid_size m reference_price =
     res_if (dec_le reference_price dec_zero) (Inr None)
       (res_bind (case prd_base_min_size m of None \<Rightarrow> Inr dec_zero | Some b \<Rightarrow> dec_max dec_zero b) (\<lambda>m1.
        res_bind (case prd_quote_min_size m of
                    None \<Rightarrow> Inr m1
                  | Some q \<Rightarrow>
                      res_bind (notional_multiplier m) (\<lambda>k. res_bind (dec_mul reference_price k) (\<lambda>pk.
                      res_bind (dec_div q pk) (\<lambda>s. dec_max m1 s)))) (\<lambda>m2.
        res_if (dec_le m2 dec_zero) (Inr None)
          (res_bind (ceil_to_increment m2 (prd_base_increment m)) (\<lambda>s. Inr (Some s))))))"

subsection \<open>The catalogue\<close>

type_synonym product_catalog = "(string, product_metadata) dict"

definition catalog_of :: "product_metadata list \<Rightarrow> product_catalog" where
  "catalog_of ps = fold (\<lambda>p. dict_set (prd_product_id p) p) ps []"

definition catalog_from_coinbase_payloads :: "payload list \<Rightarrow> product_catalog res" where
  "catalog_from_coinbase_payloads ps =
     res_bind (res_map product_from_coinbase_payload ps) (\<lambda>ms. Inr (catalog_of ms))"

definition catalog_add :: "product_metadata \<Rightarrow> product_catalog \<Rightarrow> product_catalog" where
  "catalog_add p cat = dict_set (prd_product_id p) p cat"

definition catalog_get :: "product_catalog \<Rightarrow> string option \<Rightarrow> product_metadata option" where
  "catalog_get cat product_id = Option.bind product_id (dict_get cat)"

text \<open>The text of a \<^verbatim>\<open>KeyError\<close> is the key in quotes, for a key without quotes and escapes.\<close>

definition catalog_require :: "product_catalog \<Rightarrow> string \<Rightarrow> product_metadata res" where
  "catalog_require cat product_id =
     (case catalog_get cat (Some product_id) of None \<Rightarrow> Inl (key_error (CHR 0x27 # product_id @ [CHR 0x27])) | Some p \<Rightarrow> Inr p)"

definition catalog_values :: "product_catalog \<Rightarrow> product_metadata list" where
  "catalog_values cat = dict_values cat"

definition catalog_update :: "product_metadata list \<Rightarrow> product_catalog \<Rightarrow> product_catalog" where
  "catalog_update ps cat = fold catalog_add ps cat"

subsection \<open>What the checks decide\<close>

text \<open>Finite, with an exponent that is not below the subnormal ones\<close>

fun dec_regular :: "pydec \<Rightarrow> bool" where
  "dec_regular (DFin s c e) = (dec_etiny \<le> e)"
| "dec_regular _ = False"

lemma dec_regular_finite [simp]: "dec_regular d \<Longrightarrow> is_finite d"
  by (cases d) auto

lemma res_if_Inr:
  "res_if c a b = Inr x \<longleftrightarrow> (c = Inr True \<and> a = Inr x) \<or> (c = Inr False \<and> b = Inr x)"
  by (auto simp: res_if_def res_bind_Inr)

lemma dec_zero_simps [simp]: "is_finite dec_zero" "dec_rat dec_zero = 0" "dec_regular dec_zero"
  by (simp_all add: dec_zero_def signed_def dec_etiny_def dec_emin_def dec_prec_def)

lemma dec_one_simps [simp]: "is_finite dec_one" "dec_rat dec_one = 1" "dec_regular dec_one"
  by (simp_all add: dec_one_def signed_def dec_etiny_def dec_emin_def dec_prec_def)

lemma positive_value:
  assumes "0 < dec_rat d"
  obtains c e where "d = DFin False c e" and "0 < c"
proof (cases d)
  case (DFin s c e)
  have "(0 :: rat) < power_int 10 e" by (simp add: zero_less_power_int)
  with assms DFin have "0 < signed s c" by (simp add: zero_less_mult_iff)
  then have "\<not> s" "0 < c" by (auto simp: signed_def split: if_splits)
  with DFin that show thesis by simp
qed (use assms in auto)

lemma is_multiple_iff:
  assumes "is_multiple v inc = Inr b" and "dec_regular v" and "dec_regular inc"
  shows "b \<longleftrightarrow> dec_rat inc \<le> 0 \<or> (\<exists>k :: int. dec_rat v = of_int k * dec_rat inc)"
proof (cases "dec_rat inc \<le> 0")
  case True
  with assms show ?thesis by (simp add: is_multiple_def res_if_Inr)
next
  case False
  then obtain d f where inc: "inc = DFin False d f" "0 < d" using positive_value [of inc] by (auto simp: not_le)
  obtain s c e where v: "v = DFin s c e" using assms(2) by (cases v) auto
  from False assms(1,3) obtain r where r: "dec_mod v inc = Inr r" and b: "dec_eq r dec_zero = Inr b"
    by (auto simp: is_multiple_def res_if_Inr res_bind_Inr)
  note z = dec_mod_zero_iff [OF r [unfolded v inc(1)] inc(2)]
  have "is_finite r" "dec_rat r = 0 \<longleftrightarrow> (\<exists>k :: int. dec_rat v = of_int k * dec_rat inc)"
    using z assms(2,3) by (simp_all add: v inc del: dec_rat.simps)
  with b False show ?thesis by auto
qed

definition size_rules_regular :: "product_metadata \<Rightarrow> bool" where
  "size_rules_regular m \<longleftrightarrow>
     (\<forall>d. prd_base_min_size m = Some d \<or> prd_base_max_size m = Some d \<or> prd_base_increment m = Some d
        \<longrightarrow> dec_regular d)"

text \<open>
  C33. The size check of a product accepts exactly the sizes between the minimum and the maximum that are
  integer multiples of the increment, for numbers that are not below the smallest decimal exponent.
\<close>

theorem size_check_exact:
  assumes "size_is_valid m (Some s) = Inr ok" and "dec_regular s" and "size_rules_regular m"
  shows "ok \<longleftrightarrow>
    (\<forall>lo. prd_base_min_size m = Some lo \<longrightarrow> dec_rat lo \<le> dec_rat s) \<and>
    (\<forall>hi. prd_base_max_size m = Some hi \<longrightarrow> dec_rat s \<le> dec_rat hi) \<and>
    (\<forall>i. prd_base_increment m = Some i \<longrightarrow>
       dec_rat i \<le> 0 \<or> (\<exists>k :: int. dec_rat s = of_int k * dec_rat i))"
proof -
  have lo: "when_set (\<lambda>b. dec_lt s b) (prd_base_min_size m)
      = Inr (\<exists>lo. prd_base_min_size m = Some lo \<and> dec_rat s < dec_rat lo)"
    using assms(2,3) by (auto simp: when_set_def size_rules_regular_def split: option.splits)
  have hi: "when_set (\<lambda>b. dec_lt b s) (prd_base_max_size m)
      = Inr (\<exists>hi. prd_base_max_size m = Some hi \<and> dec_rat hi < dec_rat s)"
    using assms(2,3) by (auto simp: when_set_def size_rules_regular_def split: option.splits)
  have mult: "b \<longleftrightarrow> (\<exists>i. prd_base_increment m = Some i \<and>
      \<not> (dec_rat i \<le> 0 \<or> (\<exists>k :: int. dec_rat s = of_int k * dec_rat i)))"
    if "when_set (\<lambda>i. res_not (is_multiple s i)) (prd_base_increment m) = Inr b" for b
    using that assms(2,3) is_multiple_iff [of s]
    by (auto simp: when_set_def res_not_def res_bind_Inr size_rules_regular_def split: option.splits)
  show ?thesis
    using assms(1) mult [of True] mult [of False]
    by (auto simp: size_is_valid_def res_if_Inr lo hi not_less)
qed

definition spot_product :: product_metadata where
  "spot_product =
     \<lparr>prd_product_id = ''BTC-USD'', prd_product_type = PT_SPOT, prd_product_venue = PV_CBE,
      prd_contract_size = None, prd_base_increment = dec_parse ''0.001'', prd_quote_increment = None,
      prd_price_increment = dec_parse ''0.01'', prd_base_min_size = dec_parse ''0.01'',
      prd_base_max_size = dec_parse ''100'', prd_quote_min_size = dec_parse ''1'', prd_quote_max_size = None,
      prd_trading_disabled = False, prd_cancel_only = False, prd_limit_only = False,
      prd_post_only = False, prd_view_only = False, prd_is_disabled = False, prd_raw = []\<rparr>"

lemma spot_product_rules:
  "size_rules_regular spot_product" "dec_regular (DFin False 25 (-3))"
  "size_is_valid spot_product (Some (DFin False 25 (-3))) = Inr True"
proof -
  have "prd_base_min_size spot_product = Some (DFin False 1 (-2))"
    "prd_base_max_size spot_product = Some (DFin False 100 0)"
    "prd_base_increment spot_product = Some (DFin False 1 (-3))"
    by code_simp+
  then show "size_rules_regular spot_product"
    by (auto simp: size_rules_regular_def dec_etiny_def dec_emin_def dec_prec_def)
  show "size_is_valid spot_product (Some (DFin False 25 (-3))) = Inr True" by code_simp
qed (simp add: dec_etiny_def dec_emin_def dec_prec_def)

theorem size_check_exact_witness:
  "\<exists>k :: int. dec_rat (DFin False 25 (-3)) = of_int k * dec_rat (DFin False 1 (-3))"
proof -
  have "prd_base_increment spot_product = Some (DFin False 1 (-3))" by code_simp
  with size_check_exact [OF spot_product_rules(3,2,1)] show ?thesis by (simp add: signed_def)
qed

subsection \<open>Reading a product back from the ledger\<close>

lemma dec_parse_convertible: "dec_parse t = Some (DFin s c e) \<Longrightarrow> convertible c e"
proof -
  have "parse_number neg u = Some (DFin s c e) \<Longrightarrow> convertible c e" for neg u
    by (auto simp: parse_number_def convertible_def Let_def split: prod.splits option.splits if_splits)
  then show "dec_parse t = Some (DFin s c e) \<Longrightarrow> convertible c e"
    by (auto simp: dec_parse_def Let_def split: prod.splits if_splits)
qed

lemma finite_decimal_str: "finite_decimal t = Some d \<Longrightarrow> finite_decimal (dec_str d) = Some d"
  using dec_parse_convertible dec_parse_str
  by (cases d) (auto simp: finite_decimal_def simp del: dec_str.simps split: option.splits if_splits)

lemma json_decimal_payload: "json_decimal j = Some d \<Longrightarrow> json_decimal (decimal_payload (Some d)) = Some d"
  using finite_decimal_str
  by (auto simp: json_decimal_def decimal_payload_def jopt_def split: json.splits if_splits)

lemma json_decimal_roundtrip [simp]: "json_decimal (decimal_payload (json_decimal j)) = json_decimal j"
  using json_decimal_payload [of j]
  by (cases "json_decimal j") (auto simp: decimal_payload_def jopt_def json_decimal_def)

lemma json_decimal_absent: "json_decimal (decimal_payload None) = None"
  by (simp add: decimal_payload_def jopt_def json_decimal_def)

lemma contract_size_roundtrip:
  assumes "jget q ''contract_size'' = decimal_payload (contract_size_of p raw)"
  shows "contract_size_of q raw = contract_size_of p raw"
proof (cases "contract_size_of p raw")
  case None
  then have "json_decimal (jget q ''contract_size'') = None" using assms json_decimal_absent by simp
  with None show ?thesis by (auto simp: contract_size_of_def split: option.splits)
next
  case (Some d)
  then obtain j where "json_decimal j = Some d"
    by (auto simp: contract_size_of_def split: option.splits json.splits)
  with assms Some json_decimal_payload show ?thesis by (simp add: contract_size_of_def)
qed

lemma product_payload_get:
  "jget (product_payload m) ''product_id'' = JStr (prd_product_id m)"
  "jget (product_payload m) ''product_type'' = JStr (product_type_value (prd_product_type m))"
  "jget (product_payload m) ''product_venue'' = JStr (product_venue_value (prd_product_venue m))"
  "jget (product_payload m) ''contract_size'' = decimal_payload (prd_contract_size m)"
  "jget (product_payload m) ''base_increment'' = decimal_payload (prd_base_increment m)"
  "jget (product_payload m) ''quote_increment'' = decimal_payload (prd_quote_increment m)"
  "jget (product_payload m) ''price_increment'' = decimal_payload (prd_price_increment m)"
  "jget (product_payload m) ''base_min_size'' = decimal_payload (prd_base_min_size m)"
  "jget (product_payload m) ''base_max_size'' = decimal_payload (prd_base_max_size m)"
  "jget (product_payload m) ''quote_min_size'' = decimal_payload (prd_quote_min_size m)"
  "jget (product_payload m) ''quote_max_size'' = decimal_payload (prd_quote_max_size m)"
  "jget (product_payload m) ''trading_disabled'' = JBool (prd_trading_disabled m)"
  "jget (product_payload m) ''cancel_only'' = JBool (prd_cancel_only m)"
  "jget (product_payload m) ''limit_only'' = JBool (prd_limit_only m)"
  "jget (product_payload m) ''post_only'' = JBool (prd_post_only m)"
  "jget (product_payload m) ''view_only'' = JBool (prd_view_only m)"
  "jget (product_payload m) ''is_disabled'' = JBool (prd_is_disabled m)"
  "jget (product_payload m) ''raw'' = JObj (prd_raw m)"
  by (simp_all add: jget_def product_payload_def)

text \<open>
  C35. A product read from an exchange payload and written to the ledger is read back from the ledger
  unchanged: every decimal, digit for digit, every flag and the raw payload.
\<close>

theorem product_audit_roundtrip:
  assumes "product_from_coinbase_payload p = Inr m"
  shows "product_from_audit_payload (product_payload m) = Inr m"
proof -
  from assms have m: "metadata_from_payload p p = Inr m" by (simp add: product_from_coinbase_payload_def)
  then have raw: "prd_raw m = p" and c: "prd_contract_size m = contract_size_of p p"
    and pid: "prd_product_id m \<noteq> []"
    by (auto simp: metadata_from_payload_def res_bind_Inr required_string_def string_or_none_Some split: option.splits)
  have "contract_size_of (product_payload m) p = prd_contract_size m"
    using contract_size_roundtrip c by (simp add: product_payload_get)
  moreover have "required_string (product_payload m) ''product_id'' = Inr (prd_product_id m)"
    using pid by (simp add: required_string_def product_payload_get string_or_none_def)
  ultimately have "product_from_audit_payload (product_payload m) = Inr
      \<lparr>prd_product_id = prd_product_id m, prd_product_type = prd_product_type m,
       prd_product_venue = prd_product_venue m, prd_contract_size = prd_contract_size m,
       prd_base_increment = json_decimal (decimal_payload (prd_base_increment m)),
       prd_quote_increment = json_decimal (decimal_payload (prd_quote_increment m)),
       prd_price_increment = json_decimal (decimal_payload (prd_price_increment m)),
       prd_base_min_size = json_decimal (decimal_payload (prd_base_min_size m)),
       prd_base_max_size = json_decimal (decimal_payload (prd_base_max_size m)),
       prd_quote_min_size = json_decimal (decimal_payload (prd_quote_min_size m)),
       prd_quote_max_size = json_decimal (decimal_payload (prd_quote_max_size m)),
       prd_trading_disabled = prd_trading_disabled m, prd_cancel_only = prd_cancel_only m,
       prd_limit_only = prd_limit_only m, prd_post_only = prd_post_only m,
       prd_view_only = prd_view_only m, prd_is_disabled = prd_is_disabled m, prd_raw = prd_raw m\<rparr>"
    by (simp add: product_from_audit_payload_def product_payload_get raw metadata_from_payload_def
        json_truth_def product_type_or_unknown_def product_venue_or_unknown_def enum_or_none_def)
  also have "\<dots> = Inr m"
    using m by (auto simp: metadata_from_payload_def res_bind_Inr)
  finally show ?thesis .
qed

definition coinbase_product :: payload where
  "coinbase_product =
     [(''product_id'', JStr ''BTC-PERP''), (''product_type'', JStr ''FUTURE''),
      (''base_increment'', JStr ''1E-8''), (''base_min_size'', JStr ''0.0100''),
      (''quote_min_size'', JInt 1), (''price_increment'', JFloat (PyFloat False 5 (-1))),
      (''limit_only'', JBool True),
      (''future_product_details'', JObj [(''contract_size'', JStr ''10000'')])]"

theorem product_audit_roundtrip_witness:
  "\<exists>m. product_from_coinbase_payload coinbase_product = Inr m \<and>
       prd_contract_size m = Some (DFin False 10000 0) \<and>
       product_from_audit_payload (product_payload m) = Inr m"
proof -
  have "case product_from_coinbase_payload coinbase_product of
      Inl _ \<Rightarrow> False | Inr m \<Rightarrow> prd_contract_size m = Some (DFin False 10000 0)"
    by code_simp
  then obtain m where m: "product_from_coinbase_payload coinbase_product = Inr m"
    and "prd_contract_size m = Some (DFin False 10000 0)"
    by (auto split: sum.splits)
  with product_audit_roundtrip [OF m] show ?thesis by blast
qed

lemma num_digits_eqI: "10 ^ (k - 1) \<le> n \<Longrightarrow> n < 10 ^ k \<Longrightarrow> 1 < k \<Longrightarrow> num_digits n = k"
  using num_digits_le_iff [of k n] num_digits_le_iff [of "k - 1" n] by linarith

lemma one_digit: "n < 10 \<Longrightarrow> num_digits n = 1"
  by (simp add: num_digits_def nat_to_str.simps [of n])

lemmas context_bounds = dec_prec_def dec_etop_def dec_etiny_def dec_emax_def dec_emin_def

lemma dec_mul_one: "dec_mul (DFin s c e) dec_one = dec_fix s c e"
  by (simp add: dec_mul_def with_numbers_def nan_operand_def dec_one_def)

lemma one_third: "dec_div dec_one (DFin False 3 0) = Inr (DFin False 3333333333333333333333333333 (- 28))"
proof -
  have "num_digits 33333333333333333333333333333 = 29" "num_digits 3333333333333333333333333333 = 28"
    by (rule num_digits_eqI; simp)+
  then show ?thesis
    by (simp add: dec_div_def with_numbers_def nan_operand_def dec_one_def dec_fix_def Let_def context_bounds
        one_digit div_half_even_def)
qed

lemma three_thirds:
  "dec_mul (DFin False 3333333333333333333333333333 (- 28)) (DFin False 3 0)
   = Inr (DFin False 9999999999999999999999999999 (- 28))"
  "dec_mul (DFin False 9999999999999999999999999999 (- 28)) dec_one
   = Inr (DFin False 9999999999999999999999999999 (- 28))"
proof -
  have "num_digits 9999999999999999999999999999 = 28" by (rule num_digits_eqI; simp)
  then show "dec_mul (DFin False 3333333333333333333333333333 (- 28)) (DFin False 3 0)
      = Inr (DFin False 9999999999999999999999999999 (- 28))"
    "dec_mul (DFin False 9999999999999999999999999999 (- 28)) dec_one
      = Inr (DFin False 9999999999999999999999999999 (- 28))"
    by (simp_all add: dec_mul_def with_numbers_def nan_operand_def dec_one_def dec_fix_exact context_bounds)
qed

definition quote_minimum_product :: product_metadata where
  "quote_minimum_product =
     spot_product\<lparr>prd_base_min_size := None, prd_base_increment := None, prd_quote_min_size := Some dec_one\<rparr>"

lemma quote_minimum_product_fields [simp]:
  "prd_base_min_size quote_minimum_product = None" "prd_base_increment quote_minimum_product = None"
  "prd_quote_min_size quote_minimum_product = Some dec_one" "prd_contract_size quote_minimum_product = None"
  "prd_quote_max_size quote_minimum_product = None"
  by (simp_all add: quote_minimum_product_def spot_product_def)

text \<open>
  The smallest order the catalogue proposes for a product with a quote minimum and no base increment
  may be refused by its own notional check: the quotient is rounded down to 28 digits.
\<close>

theorem minimum_size_below_quote_minimum:
  "\<exists>s. minimum_valid_size quote_minimum_product (DFin False 3 0) = Inr (Some s) \<and>
       notional_is_valid quote_minimum_product (Some s) (Some (DFin False 3 0)) = Inr False"
proof (intro exI conjI)
  let ?s = "DFin False 3333333333333333333333333333 (- 28)"
  have "dec_mul (DFin False 3 0) dec_one = Inr (DFin False 3 0)"
    by (simp add: dec_mul_one dec_fix_exact one_digit context_bounds)
  moreover have "dec_max dec_zero ?s = Inr ?s"
    by (simp add: dec_max_def zero_less_power_int signed_def zero_less_mult_iff)
  moreover have "(0 :: rat) < 10 powi (- 28)" by (simp add: zero_less_power_int)
  ultimately show "minimum_valid_size quote_minimum_product (DFin False 3 0) = Inr (Some ?s)"
    by (simp add: minimum_valid_size_def res_if_def notional_multiplier_def one_third
        ceil_to_increment_def signed_def not_le zero_less_mult_iff del: power_int_minus)
  have "dec_lt (DFin False 9999999999999999999999999999 (- 28)) dec_one = Inr True"
    by (simp add: dec_lt_def dec_one_def aligned_def signed_def)
  then show "notional_is_valid quote_minimum_product (Some ?s) (Some (DFin False 3 0)) = Inr False"
    by (simp add: notional_is_valid_def product_notional_def notional_multiplier_def three_thirds res_if_def
        when_set_def)
qed

end
