(* ===== verification/Lineage.thy ===== *)
theory Lineage
  imports Products Projection
begin

text \<open>
  \<^verbatim>\<open>orders/lineage.py\<close>: the validated records of a logical order, of one of its placements and of an
  operator's approval, and the payloads they are written as. The checks run in the order of the
  constructors; the static types take the place of the \<^verbatim>\<open>isinstance\<close> checks on enumerations.
\<close>

definition order_lineage_schema_version :: int where "order_lineage_schema_version = 1"
definition order_placement_schema_version :: int where "order_placement_schema_version = 1"

subsection \<open>Checks\<close>

definition require :: "bool \<Rightarrow> pyexc \<Rightarrow> unit res" where
  "require b e = (if b then Inr () else Inl e)"

definition require_non_empty :: "string \<Rightarrow> string option \<Rightarrow> unit res" where
  "require_non_empty name v =
     require (v \<noteq> None \<and> v \<noteq> Some []) (value_error (name @ '' is required''))"

definition validate_optional_non_empty :: "string \<Rightarrow> string option \<Rightarrow> unit res" where
  "validate_optional_non_empty name v =
     require (v \<noteq> Some []) (value_error (name @ '' must be non-empty when provided''))"

definition validate_source_order_ids :: "string list \<Rightarrow> unit res" where
  "validate_source_order_ids ids =
     (if [] \<in> set ids then Inl (value_error ''source_order_ids must contain only non-empty strings'')
      else require (distinct ids) (value_error ''source_order_ids must be unique''))"

text \<open>\<^verbatim>\<open>decimal.is_finite() and decimal > 0\<close>\<close>

definition positive_decimal :: "pydec \<Rightarrow> bool" where
  "positive_decimal d = (is_finite d \<and> dec_le d dec_zero = Inr False)"

definition require_positive_decimal :: "string \<Rightarrow> string \<Rightarrow> unit res" where
  "require_positive_decimal name v =
     res_bind (require_non_empty name (Some v)) (\<lambda>_.
       case dec_parse v of
         None \<Rightarrow> Inl (value_error (name @ '' must be decimal''))
       | Some d \<Rightarrow> require (positive_decimal d) (value_error (name @ '' must be positive'')))"

definition validate_manual_association_approval :: "payload \<Rightarrow> unit res" where
  "validate_manual_association_approval md =
     (case jget md ''manual_association_approval'' of
        JObj approval \<Rightarrow>
          res_bind (require_non_empty ''approved_at'' (string_or_none (jget approval ''approved_at''))) (\<lambda>_.
          res_bind (require_non_empty ''approved_by'' (string_or_none (jget approval ''approved_by''))) (\<lambda>_.
          require_non_empty ''reason'' (string_or_none (jget approval ''reason''))))
      | _ \<Rightarrow> Inl (value_error ''manual_association requires operator approval metadata''))"

text \<open>\<^verbatim>\<open>normalize_json(metadata)\<close>, which must be an object\<close>

definition normalized_object :: "string \<Rightarrow> pyval \<Rightarrow> payload res" where
  "normalized_object message v =
     res_bind (normalize_json v) (\<lambda>j. case j of JObj kvs \<Rightarrow> Inr kvs | _ \<Rightarrow> Inl (type_error message))"

subsection \<open>Approvals\<close>

record manual_association_approval =
  maa_approved_by :: string
  maa_reason :: string
  maa_approved_at :: datetime

definition check_manual_association_approval :: "manual_association_approval \<Rightarrow> unit res" where
  "check_manual_association_approval a =
     res_bind (require_non_empty ''approved_by'' (Some (maa_approved_by a))) (\<lambda>_.
       require_non_empty ''reason'' (Some (maa_reason a)))"

definition manual_association_approval_payload :: "manual_association_approval \<Rightarrow> payload" where
  "manual_association_approval_payload a =
     [(''approved_at'', JStr (isoformat (maa_approved_at a))),
      (''approved_by'', JStr (maa_approved_by a)),
      (''reason'', JStr (maa_reason a))]"

definition manual_association_metadata :: "manual_association_approval \<Rightarrow> payload" where
  "manual_association_metadata a =
     [(''manual_association_approval'', JObj (manual_association_approval_payload a))]"

subsection \<open>Logical orders\<close>

record logical_order_record =
  lor_logical_order_id :: string
  lor_product_id :: string
  lor_side :: order_side
  lor_size :: string
  lor_lineage_relation :: order_lineage_relation
  lor_root_order_id :: "string option"
  lor_parent_order_id :: "string option"
  lor_source_order_ids :: "string list"
  lor_limit_price :: "string option"
  lor_created_by_action_id :: "string option"
  lor_metadata :: pyval

definition check_relation :: "logical_order_record \<Rightarrow> unit res" where
  "check_relation r =
     (case lor_lineage_relation r of
        OLR_ROOT \<Rightarrow>
          if lor_root_order_id r \<notin> {None, Some (lor_logical_order_id r)}
          then Inl (value_error ''root logical orders must use their own logical_order_id as root_order_id'')
          else if lor_parent_order_id r \<noteq> None
          then Inl (value_error ''root logical orders must not have parent_order_id'')
          else require (lor_source_order_ids r = [])
                 (value_error ''root logical orders must not have source_order_ids'')
      | OLR_EXTERNAL_IMPORT \<Rightarrow>
          require (lor_parent_order_id r = None)
            (value_error ''external imports must not have parent_order_id'')
      | OLR_CONSOLIDATION \<Rightarrow>
          require (2 \<le> length (lor_source_order_ids r))
            (value_error ''consolidation requires at least two source_order_ids'')
      | OLR_MANUAL_ASSOCIATION \<Rightarrow>
          require (lor_source_order_ids r \<noteq> [])
            (value_error ''manual_association requires source_order_ids'')
      | relation \<Rightarrow>
          res_bind (require_non_empty ''root_order_id'' (lor_root_order_id r)) (\<lambda>_.
          res_bind (require_non_empty ''parent_order_id'' (lor_parent_order_id r)) (\<lambda>_.
          require (lor_source_order_ids r \<noteq> [])
            (value_error (order_lineage_relation_value relation @ '' requires source_order_ids'')))))"

text \<open>\<^verbatim>\<open>LogicalOrderRecord.__post_init__\<close>: the record with its metadata normalised\<close>

definition new_logical_order :: "logical_order_record \<Rightarrow> logical_order_record res" where
  "new_logical_order r =
     res_bind (require_non_empty ''logical_order_id'' (Some (lor_logical_order_id r))) (\<lambda>_.
     res_bind (require_non_empty ''product_id'' (Some (lor_product_id r))) (\<lambda>_.
     res_bind (require_positive_decimal ''size'' (lor_size r)) (\<lambda>_.
     res_bind (validate_optional_non_empty ''root_order_id'' (lor_root_order_id r)) (\<lambda>_.
     res_bind (validate_optional_non_empty ''parent_order_id'' (lor_parent_order_id r)) (\<lambda>_.
     res_bind (validate_optional_non_empty ''limit_price'' (lor_limit_price r)) (\<lambda>_.
     res_bind (validate_optional_non_empty ''created_by_action_id'' (lor_created_by_action_id r)) (\<lambda>_.
     res_bind (validate_source_order_ids (lor_source_order_ids r)) (\<lambda>_.
     res_bind (check_relation r) (\<lambda>_.
     res_bind (normalized_object ''metadata must normalize to a JSON object'' (lor_metadata r)) (\<lambda>md.
     res_bind (if lor_lineage_relation r = OLR_MANUAL_ASSOCIATION
               then validate_manual_association_approval md else Inr ()) (\<lambda>_.
     Inr (r\<lparr>lor_metadata := PvJson (JObj md)\<rparr>))))))))))))"

definition logical_order_payload :: "logical_order_record \<Rightarrow> payload res" where
  "logical_order_payload r =
     normalized_object ''Logical order payload must normalize to a JSON object''
       (PvMapping
         [(''created_by_action_id'', PvJson (jopt (lor_created_by_action_id r))),
          (''lineage_relation'', PvStr (order_lineage_relation_value (lor_lineage_relation r))),
          (''limit_price'', PvJson (jopt (lor_limit_price r))),
          (''logical_order_id'', PvStr (lor_logical_order_id r)),
          (''metadata'', lor_metadata r),
          (''parent_order_id'', PvJson (jopt (lor_parent_order_id r))),
          (''product_id'', PvStr (lor_product_id r)),
          (''root_order_id'',
             PvStr (case lor_root_order_id r of
                      None \<Rightarrow> lor_logical_order_id r
                    | Some q \<Rightarrow> if q = [] then lor_logical_order_id r else q)),
          (''schema_version'', PvInt order_lineage_schema_version),
          (''side'', PvStr (order_side_value (lor_side r))),
          (''size'', PvStr (lor_size r)),
          (''source_order_ids'', PvSequence (map PvStr (lor_source_order_ids r)))])"

subsection \<open>Placements\<close>

record order_placement_record =
  opr_placement_id :: string
  opr_logical_order_id :: string
  opr_placement_kind :: order_placement_kind
  opr_placement_status :: order_placement_status
  opr_product_id :: string
  opr_side :: order_side
  opr_size :: string
  opr_limit_price :: "string option"
  opr_action_id :: "string option"
  opr_venue_client_order_id :: "string option"
  opr_exchange_order_id :: "string option"
  opr_metadata :: pyval

text \<open>\<^verbatim>\<open>a or b\<close> on optional texts, as a condition\<close>

definition text_present :: "string option \<Rightarrow> bool" where
  "text_present t = (t \<noteq> None \<and> t \<noteq> Some [])"

definition new_order_placement :: "order_placement_record \<Rightarrow> order_placement_record res" where
  "new_order_placement r =
     res_bind (require_non_empty ''placement_id'' (Some (opr_placement_id r))) (\<lambda>_.
     res_bind (require_non_empty ''logical_order_id'' (Some (opr_logical_order_id r))) (\<lambda>_.
     res_bind (require_non_empty ''product_id'' (Some (opr_product_id r))) (\<lambda>_.
     res_bind (require_positive_decimal ''size'' (opr_size r)) (\<lambda>_.
     res_bind (validate_optional_non_empty ''limit_price'' (opr_limit_price r)) (\<lambda>_.
     res_bind (validate_optional_non_empty ''action_id'' (opr_action_id r)) (\<lambda>_.
     res_bind (validate_optional_non_empty ''venue_client_order_id'' (opr_venue_client_order_id r)) (\<lambda>_.
     res_bind (validate_optional_non_empty ''exchange_order_id'' (opr_exchange_order_id r)) (\<lambda>_.
     res_bind (require
        (opr_placement_status r = OPS_STAGED \<or> text_present (opr_venue_client_order_id r)
           \<or> text_present (opr_exchange_order_id r))
        (value_error ''non-staged placements require venue_client_order_id or exchange_order_id'')) (\<lambda>_.
     res_bind (normalized_object ''metadata must normalize to a JSON object'' (opr_metadata r)) (\<lambda>md.
     Inr (r\<lparr>opr_metadata := PvJson (JObj md)\<rparr>)))))))))))"

definition order_placement_payload :: "order_placement_record \<Rightarrow> payload res" where
  "order_placement_payload r =
     normalized_object ''Order placement payload must normalize to a JSON object''
       (PvMapping
         [(''action_id'', PvJson (jopt (opr_action_id r))),
          (''exchange_order_id'', PvJson (jopt (opr_exchange_order_id r))),
          (''limit_price'', PvJson (jopt (opr_limit_price r))),
          (''logical_order_id'', PvStr (opr_logical_order_id r)),
          (''metadata'', opr_metadata r),
          (''placement_id'', PvStr (opr_placement_id r)),
          (''placement_kind'', PvStr (order_placement_kind_value (opr_placement_kind r))),
          (''placement_status'', PvStr (order_placement_status_value (opr_placement_status r))),
          (''product_id'', PvStr (opr_product_id r)),
          (''schema_version'', PvInt order_placement_schema_version),
          (''side'', PvStr (order_side_value (opr_side r))),
          (''size'', PvStr (opr_size r)),
          (''venue_client_order_id'', PvJson (jopt (opr_venue_client_order_id r)))])"

subsection \<open>Validated records and the projection\<close>

lemma require_Inr [simp]: "require b e = Inr u \<longleftrightarrow> b"
  by (simp add: require_def)

lemma require_non_empty_Inr [simp]: "require_non_empty n v = Inr u \<longleftrightarrow> v \<noteq> None \<and> v \<noteq> Some []"
  by (simp add: require_non_empty_def)

lemma validate_optional_Inr [simp]: "validate_optional_non_empty n v = Inr u \<longleftrightarrow> v \<noteq> Some []"
  by (simp add: validate_optional_non_empty_def)

lemma validate_source_order_ids_Inr [simp]:
  "validate_source_order_ids ids = Inr u \<longleftrightarrow> [] \<notin> set ids \<and> distinct ids"
  by (simp add: validate_source_order_ids_def)

lemma require_positive_decimal_Inr:
  "require_positive_decimal n v = Inr u \<longleftrightarrow>
     v \<noteq> [] \<and> (\<exists>d. dec_parse v = Some d \<and> positive_decimal d)"
  by (auto simp: require_positive_decimal_def res_bind_Inr split: option.splits)

lemma positive_decimal_rat: "positive_decimal d \<longleftrightarrow> is_finite d \<and> 0 < dec_rat d"
  by (auto simp: positive_decimal_def)

definition logical_order_valid :: "logical_order_record \<Rightarrow> bool" where
  "logical_order_valid r \<longleftrightarrow>
     lor_logical_order_id r \<noteq> [] \<and> lor_product_id r \<noteq> [] \<and> lor_size r \<noteq> [] \<and>
     lor_root_order_id r \<noteq> Some [] \<and> lor_parent_order_id r \<noteq> Some [] \<and> lor_limit_price r \<noteq> Some [] \<and>
     lor_created_by_action_id r \<noteq> Some [] \<and> [] \<notin> set (lor_source_order_ids r) \<and>
     (\<exists>md. lor_metadata r = PvJson (JObj md))"

lemma new_logical_order_Inr:
  assumes "new_logical_order r = Inr r'"
  shows "logical_order_valid r'" and "\<exists>md. r' = r\<lparr>lor_metadata := PvJson (JObj md)\<rparr>"
proof -
  from assms obtain md where "r' = r\<lparr>lor_metadata := PvJson (JObj md)\<rparr>"
    by (auto simp: new_logical_order_def res_bind_Inr)
  then show "\<exists>md. r' = r\<lparr>lor_metadata := PvJson (JObj md)\<rparr>" by blast
  with assms show "logical_order_valid r'"
    by (auto simp: new_logical_order_def res_bind_Inr require_positive_decimal_Inr logical_order_valid_def)
qed

lemma collect_list_texts: "collect_list (map (\<lambda>x. Inr (JStr x)) xs) = Inr (map JStr xs)"
  by (induction xs) auto

lemma logical_order_payload_eq:
  assumes "lor_metadata r = PvJson (JObj md)"
  shows "logical_order_payload r = Inr
     [(''created_by_action_id'', jopt (lor_created_by_action_id r)),
      (''lineage_relation'', JStr (order_lineage_relation_value (lor_lineage_relation r))),
      (''limit_price'', jopt (lor_limit_price r)),
      (''logical_order_id'', JStr (lor_logical_order_id r)),
      (''metadata'', JObj md),
      (''parent_order_id'', jopt (lor_parent_order_id r)),
      (''product_id'', JStr (lor_product_id r)),
      (''root_order_id'',
         JStr (case lor_root_order_id r of
                 None \<Rightarrow> lor_logical_order_id r
               | Some q \<Rightarrow> if q = [] then lor_logical_order_id r else q)),
      (''schema_version'', JInt order_lineage_schema_version),
      (''side'', JStr (order_side_value (lor_side r))),
      (''size'', JStr (lor_size r)),
      (''source_order_ids'', JList (map JStr (lor_source_order_ids r)))]"
  using assms
  by (simp add: logical_order_payload_def normalized_object_def dict_of_items_def comp_def collect_list_texts)

lemma order_placement_payload_eq:
  assumes "opr_metadata r = PvJson (JObj md)"
  shows "order_placement_payload r = Inr
     [(''action_id'', jopt (opr_action_id r)),
      (''exchange_order_id'', jopt (opr_exchange_order_id r)),
      (''limit_price'', jopt (opr_limit_price r)),
      (''logical_order_id'', JStr (opr_logical_order_id r)),
      (''metadata'', JObj md),
      (''placement_id'', JStr (opr_placement_id r)),
      (''placement_kind'', JStr (order_placement_kind_value (opr_placement_kind r))),
      (''placement_status'', JStr (order_placement_status_value (opr_placement_status r))),
      (''product_id'', JStr (opr_product_id r)),
      (''schema_version'', JInt order_placement_schema_version),
      (''side'', JStr (order_side_value (opr_side r))),
      (''size'', JStr (opr_size r)),
      (''venue_client_order_id'', jopt (opr_venue_client_order_id r))]"
  using assms by (simp add: order_placement_payload_def normalized_object_def dict_of_items_def)

lemma string_or_none_jopt [simp]:
  "string_or_none (jopt t) = (if t = Some [] then None else t)"
  by (auto simp: string_or_none_def jopt_def split: option.splits)

lemma string_or_none_text [simp]: "s \<noteq> [] \<Longrightarrow> string_or_none (JStr s) = Some s"
  by (simp add: string_or_none_def)

lemma map_filter_texts: "[] \<notin> set xs \<Longrightarrow> List.map_filter string_or_none (map JStr xs) = xs"
  by (induction xs) (auto simp: List.map_filter_simps string_or_none_def)

lemma dict_get_add_child:
  "dict_get (add_child q child d) k =
     (case dict_get d k of
        None \<Rightarrow> None
      | Some lo \<Rightarrow> Some (if q = Some k then lo\<lparr>lo_child_order_ids := add_new child (lo_child_order_ids lo)\<rparr> else lo))"
proof (cases q)
  case None
  then show ?thesis by (simp add: add_child_def split: option.splits)
next
  case (Some q')
  then show ?thesis by (cases "dict_get d q'") (auto simp: add_child_def split: option.splits)
qed

definition sample_logical_order :: logical_order_record where
  "sample_logical_order =
     \<lparr>lor_logical_order_id = ''L2'', lor_product_id = ''BTC-USD'', lor_side = OS_SELL, lor_size = ''0.5'',
      lor_lineage_relation = OLR_SPLIT_CHILD, lor_root_order_id = Some ''L0'',
      lor_parent_order_id = Some ''L1'', lor_source_order_ids = [''L1''], lor_limit_price = None,
      lor_created_by_action_id = Some ''A7'', lor_metadata = PvMapping []\<rparr>"

definition sample_placement :: order_placement_record where
  "sample_placement =
     \<lparr>opr_placement_id = ''A7'', opr_logical_order_id = ''L2'', opr_placement_kind = OPK_INITIAL,
      opr_placement_status = OPS_ACCEPTED, opr_product_id = ''BTC-USD'', opr_side = OS_SELL,
      opr_size = ''0.5'', opr_limit_price = Some ''101'', opr_action_id = Some ''A7'',
      opr_venue_client_order_id = None, opr_exchange_order_id = Some ''X1'', opr_metadata = PvMapping []\<rparr>"



text \<open>
  A validated placement that is written to the ledger is found in the rebuilt state under its id with
  every field it was made with, and in the list of its logical order.
\<close>

theorem placement_read_back:
  assumes "new_order_placement r = Inr r'" and "order_placement_payload r' = Inr p"
    and "rec_payload rec = JObj p" and "\<not> dict_has (pj_placements_by_id pj) (opr_placement_id r)"
  shows "\<exists>plc. dict_get (pj_placements_by_id (apply_order_placement_recorded rec pj)) (opr_placement_id r) = Some plc \<and>
     plc_logical_order_id plc = opr_logical_order_id r \<and> plc_placement_kind plc = opr_placement_kind r \<and>
     plc_placement_status plc = opr_placement_status r \<and> plc_product_id plc = opr_product_id r \<and>
     plc_side plc = opr_side r \<and> plc_size plc = opr_size r \<and> plc_limit_price plc = opr_limit_price r \<and>
     plc_action_id plc = opr_action_id r \<and> plc_exchange_order_id plc = opr_exchange_order_id r \<and>
     plc_venue_client_order_id plc = opr_venue_client_order_id r \<and>
     dict_get_or (pj_placements_by_logical_order_id (apply_order_placement_recorded rec pj)) (opr_logical_order_id r) []
       = dict_get_or (pj_placements_by_logical_order_id pj) (opr_logical_order_id r) [] @ [plc]"
proof -
  from assms(1) obtain md where r': "r' = r\<lparr>opr_metadata := PvJson (JObj md)\<rparr>"
    by (auto simp: new_order_placement_def res_bind_Inr)
  have v: "opr_placement_id r \<noteq> []" "opr_logical_order_id r \<noteq> []" "opr_product_id r \<noteq> []" "opr_size r \<noteq> []"
    "opr_limit_price r \<noteq> Some []" "opr_action_id r \<noteq> Some []" "opr_exchange_order_id r \<noteq> Some []"
    "opr_venue_client_order_id r \<noteq> Some []"
    using assms(1) by (auto simp: new_order_placement_def res_bind_Inr require_positive_decimal_Inr)
  have p: "p = the_payload" if "order_placement_payload r' = Inr the_payload" for the_payload
    using that assms(2) by simp
  note p = p [OF order_placement_payload_eq [of r' md]]
  have get: "jget p ''placement_id'' = JStr (opr_placement_id r)"
    "jget p ''logical_order_id'' = JStr (opr_logical_order_id r)"
    "jget p ''placement_kind'' = JStr (order_placement_kind_value (opr_placement_kind r))"
    "jget p ''placement_status'' = JStr (order_placement_status_value (opr_placement_status r))"
    "jget p ''product_id'' = JStr (opr_product_id r)" "jget p ''side'' = JStr (order_side_value (opr_side r))"
    "jget p ''size'' = JStr (opr_size r)" "jget p ''limit_price'' = jopt (opr_limit_price r)"
    "jget p ''action_id'' = jopt (opr_action_id r)"
    "jget p ''exchange_order_id'' = jopt (opr_exchange_order_id r)"
    "jget p ''venue_client_order_id'' = jopt (opr_venue_client_order_id r)"
    by (simp_all add: p r' jget_def)
  show ?thesis
    using v assms(3,4)
    by (simp add: apply_order_placement_recorded_def payload_dict_def get enum_or_none_def Let_def
        store_placement_def)
qed

theorem placement_read_back_witness:
  "\<exists>p plc. order_placement_payload (sample_placement\<lparr>opr_metadata := PvJson (JObj [])\<rparr>) = Inr p \<and>
     dict_get (pj_placements_by_id
       (apply_order_placement_recorded (sample_record 5 ET_ORDER_PLACEMENT_RECORDED p) (empty_projection None None 1 [])))
       ''A7'' = Some plc \<and> plc_exchange_order_id plc = Some ''X1'' \<and> plc_size plc = ''0.5''"
proof -
  let ?r = "sample_placement\<lparr>opr_metadata := PvJson (JObj [])\<rparr>"
  have new: "new_order_placement sample_placement = Inr ?r" by code_simp
  obtain p where p: "order_placement_payload ?r = Inr p" using order_placement_payload_eq [of ?r "[]"] by simp
  have rec: "rec_payload (sample_record 5 ET_ORDER_PLACEMENT_RECORDED p) = JObj p" by (simp add: sample_record_def)
  have fresh: "\<not> dict_has (pj_placements_by_id (empty_projection None None 1 [])) (opr_placement_id sample_placement)"
    by (simp add: empty_projection_def dict_has_def)
  from placement_read_back [OF new p rec fresh] p show ?thesis
    by (auto simp: sample_placement_def)
qed

end
