(* ===== verification/Commands.thy ===== *)
theory Commands
  imports Lineage
begin

text \<open>
  The commands and intents of \<^verbatim>\<open>actions/gateway.py\<close>: what a strategy asks for, validated and written
  as the payload that is requested, checked and executed. Typed fields take the place of the
  \<^verbatim>\<open>isinstance\<close> checks on enumerations, booleans and tuples.
\<close>

subsection \<open>Commands\<close>

record action_command =
  cmd_action_id :: string
  cmd_action_type :: action_type
  cmd_payload :: pyval
  cmd_requested_by :: string
  cmd_idempotency_key :: "string option"

text \<open>\<^verbatim>\<open>ActionCommand.__post_init__\<close>\<close>

definition new_command :: "action_command \<Rightarrow> action_command res" where
  "new_command c =
     (if cmd_action_id c = [] then Inl (value_error ''action_id is required'')
      else if cmd_requested_by c = [] then Inl (value_error ''requested_by is required'')
      else Inr c)"

text \<open>\<^verbatim>\<open>command.to_payload()["payload"]\<close>\<close>

definition command_inner_payload :: "action_command \<Rightarrow> payload res" where
  "command_inner_payload c = normalized_object ''Action payload must normalize to a JSON object'' (cmd_payload c)"

definition command_payload :: "action_command \<Rightarrow> payload res" where
  "command_payload c =
     res_bind (command_inner_payload c) (\<lambda>p. Inr
       [(''action_id'', JStr (cmd_action_id c)),
        (''action_type'', JStr (action_type_value (cmd_action_type c))),
        (''idempotency_key'', jopt (cmd_idempotency_key c)),
        (''payload'', JObj p),
        (''requested_by'', JStr (cmd_requested_by c))])"

subsection \<open>Orders to place\<close>

record place_order_intent =
  poi_action_id :: string
  poi_product_id :: string
  poi_side :: order_side
  poi_order_type :: order_type
  poi_size :: string
  poi_limit_price :: "string option"
  poi_leverage :: "string option"
  poi_margin_type :: "margin_type option"
  poi_time_in_force :: time_in_force
  poi_post_only :: bool
  poi_reduce_only :: bool
  poi_logical_order_id :: "string option"
  poi_lineage_relation :: "order_lineage_relation option"
  poi_root_order_id :: "string option"
  poi_parent_order_id :: "string option"
  poi_source_order_ids :: "string list"
  poi_placement_kind :: "order_placement_kind option"
  poi_requested_by :: string
  poi_idempotency_key :: "string option"
  poi_metadata :: pyval

definition optional_not_empty :: "string \<Rightarrow> string option \<Rightarrow> unit res" where
  "optional_not_empty name v = require (v \<noteq> Some []) (value_error (name @ '' cannot be empty''))"

text \<open>\<^verbatim>\<open>PlaceOrderIntent.__post_init__\<close>\<close>

definition new_place_order_intent :: "place_order_intent \<Rightarrow> place_order_intent res" where
  "new_place_order_intent i =
     res_bind (require (poi_product_id i \<noteq> []) (value_error ''product_id is required'')) (\<lambda>_.
     res_bind (require (poi_size i \<noteq> []) (value_error ''size is required'')) (\<lambda>_.
     res_bind (require (\<not> (poi_order_type i = OT_LIMIT \<and> \<not> text_present (poi_limit_price i)))
        (value_error ''limit_price is required for limit orders'')) (\<lambda>_.
     res_bind (optional_not_empty ''logical_order_id'' (poi_logical_order_id i)) (\<lambda>_.
     res_bind (optional_not_empty ''root_order_id'' (poi_root_order_id i)) (\<lambda>_.
     res_bind (optional_not_empty ''parent_order_id'' (poi_parent_order_id i)) (\<lambda>_.
     res_bind (require ([] \<notin> set (poi_source_order_ids i))
        (value_error ''source_order_ids must contain non-empty strings'')) (\<lambda>_.
     res_bind (normalized_object ''metadata must normalize to a JSON object'' (poi_metadata i)) (\<lambda>md.
     Inr (i\<lparr>poi_metadata := PvJson (JObj md)\<rparr>)))))))))"

definition as_staged_release :: "place_order_intent \<Rightarrow> place_order_intent res" where
  "as_staged_release i = new_place_order_intent (i\<lparr>poi_placement_kind := Some OPK_STAGED_RELEASE\<rparr>)"

definition optional_field :: "string \<Rightarrow> 'a option \<Rightarrow> ('a \<Rightarrow> pyval) \<Rightarrow> (string \<times> pyval) list" where
  "optional_field k v f = (case v of None \<Rightarrow> [] | Some x \<Rightarrow> [(k, f x)])"

definition pv_opt :: "string option \<Rightarrow> pyval" where
  "pv_opt v = (case v of None \<Rightarrow> PvNone | Some s \<Rightarrow> PvStr s)"

text \<open>\<^verbatim>\<open>if self.metadata\<close>: the normalised metadata is not empty\<close>

definition metadata_present :: "pyval \<Rightarrow> bool" where
  "metadata_present v = (case v of PvJson (JObj kvs) \<Rightarrow> kvs \<noteq> [] | PvMapping kvs \<Rightarrow> kvs \<noteq> [] | _ \<Rightarrow> True)"

definition place_order_command :: "place_order_intent \<Rightarrow> action_command res" where
  "place_order_command i =
     new_command
       \<lparr>cmd_action_id = poi_action_id i, cmd_action_type = AT_PLACE_ORDER,
        cmd_payload = PvMapping
          ([(''limit_price'', pv_opt (poi_limit_price i)),
            (''leverage'', pv_opt (poi_leverage i)),
            (''margin_type'', pv_opt (map_option margin_type_value (poi_margin_type i))),
            (''order_type'', PvStr (order_type_value (poi_order_type i))),
            (''post_only'', PvBool (poi_post_only i)),
            (''product_id'', PvStr (poi_product_id i)),
            (''reduce_only'', PvBool (poi_reduce_only i)),
            (''side'', PvStr (order_side_value (poi_side i))),
            (''size'', PvStr (poi_size i)),
            (''time_in_force'', PvStr (time_in_force_value (poi_time_in_force i)))]
           @ optional_field ''logical_order_id'' (poi_logical_order_id i) PvStr
           @ optional_field ''lineage_relation'' (poi_lineage_relation i) (\<lambda>r. PvStr (order_lineage_relation_value r))
           @ optional_field ''root_order_id'' (poi_root_order_id i) PvStr
           @ optional_field ''parent_order_id'' (poi_parent_order_id i) PvStr
           @ (if poi_source_order_ids i = [] then []
              else [(''source_order_ids'', PvSequence (map PvStr (poi_source_order_ids i)))])
           @ optional_field ''placement_kind'' (poi_placement_kind i) (\<lambda>k. PvStr (order_placement_kind_value k))
           @ (if metadata_present (poi_metadata i) then [(''metadata'', poi_metadata i)] else [])),
        cmd_requested_by = poi_requested_by i, cmd_idempotency_key = poi_idempotency_key i\<rparr>"

subsection \<open>Orders to cancel\<close>

record cancel_order_intent =
  coi_action_id :: string
  coi_exchange_order_id :: "string option"
  coi_client_order_id :: "string option"
  coi_requested_by :: string
  coi_idempotency_key :: "string option"

definition new_cancel_order_intent :: "cancel_order_intent \<Rightarrow> cancel_order_intent res" where
  "new_cancel_order_intent i =
     (if \<not> text_present (coi_exchange_order_id i) \<and> \<not> text_present (coi_client_order_id i)
      then Inl (value_error ''exchange_order_id or client_order_id is required'') else Inr i)"

definition cancel_order_command :: "cancel_order_intent \<Rightarrow> action_command res" where
  "cancel_order_command i =
     new_command
       \<lparr>cmd_action_id = coi_action_id i, cmd_action_type = AT_CANCEL_ORDER,
        cmd_payload = PvMapping [(''client_order_id'', pv_opt (coi_client_order_id i)),
                                 (''exchange_order_id'', pv_opt (coi_exchange_order_id i))],
        cmd_requested_by = coi_requested_by i, cmd_idempotency_key = coi_idempotency_key i\<rparr>"

end
