(* ===== verification/Risk.thy ===== *)
theory Risk
  imports Commands
begin

text \<open>
  \<^verbatim>\<open>risk/gate.py\<close>: the policy and its checks, in the order of \<^verbatim>\<open>RiskGate.evaluate\<close>. The comparison of
  decimals and their sums may raise, so every check is a result or an exception. The
  frozen sets of the policy are lists; the fallback clock reading is an argument.
\<close>

subsection \<open>Policies and results\<close>

record risk_policy =
  rp_allowed_products :: "string list option"
  rp_allowed_order_types :: "order_type list option"
  rp_allowed_sides :: "order_side list option"
  rp_allowed_time_in_force :: "time_in_force list option"
  rp_allowed_lineage_relations :: "order_lineage_relation list option"
  rp_allowed_placement_kinds :: "order_placement_kind list option"
  rp_product_catalog :: "product_catalog option"
  rp_max_order_size :: "pydec option"
  rp_max_order_notional :: "pydec option"
  rp_max_daily_notional :: "pydec option"
  rp_max_open_orders :: "int option"
  rp_max_leverage :: "pydec option"
  rp_max_visible_notional :: "pydec option"
  rp_max_order_replacements :: "int option"
  rp_require_reduce_only :: bool
  rp_require_post_only :: bool
  rp_require_staged_release_above_visible_limit :: bool
  rp_kill_switch_enabled :: bool

record risk_check_result =
  rcr_rule :: risk_rule
  rcr_status :: risk_check_status
  rcr_message :: string
  rcr_observed :: "string option"
  rcr_limit :: "string option"

definition risk_check_payload :: "risk_check_result \<Rightarrow> payload" where
  "risk_check_payload r =
     [(''limit'', jopt (rcr_limit r)), (''message'', JStr (rcr_message r)),
      (''observed'', jopt (rcr_observed r)), (''rule'', JStr (risk_rule_value (rcr_rule r))),
      (''status'', JStr (risk_check_status_value (rcr_status r)))]"

record risk_evaluation =
  rev_status :: risk_check_status
  rev_checks :: "risk_check_result list"

definition risk_passed :: "risk_evaluation \<Rightarrow> bool" where
  "risk_passed e = (rev_status e = RCS_PASS)"

definition failure_messages :: "risk_evaluation \<Rightarrow> string list" where
  "failure_messages e = map rcr_message (filter (\<lambda>r. rcr_status r = RCS_FAIL) (rev_checks e))"

definition risk_evaluation_payload :: "risk_evaluation \<Rightarrow> payload" where
  "risk_evaluation_payload e =
     [(''checks'', JList (map (\<lambda>r. JObj (risk_check_payload r)) (rev_checks e))),
      (''status'', JStr (risk_check_status_value (rev_status e)))]"

definition risk_pass :: "risk_rule \<Rightarrow> string \<Rightarrow> string option \<Rightarrow> string option \<Rightarrow> risk_check_result" where
  "risk_pass rule message observed limit =
     \<lparr>rcr_rule = rule, rcr_status = RCS_PASS, rcr_message = message, rcr_observed = observed, rcr_limit = limit\<rparr>"

definition risk_fail :: "risk_rule \<Rightarrow> string \<Rightarrow> string option \<Rightarrow> string option \<Rightarrow> risk_check_result" where
  "risk_fail rule message observed limit =
     \<lparr>rcr_rule = rule, rcr_status = RCS_FAIL, rcr_message = message, rcr_observed = observed, rcr_limit = limit\<rparr>"

text \<open>\<^verbatim>\<open>",".join(sorted(values))\<close> of a set of texts\<close>

definition joined_set :: "string list \<Rightarrow> string" where
  "joined_set xs = str_join '','' (sort (remdups xs))"

subsection \<open>Allow lists\<close>

definition check_kill_switch :: "risk_policy \<Rightarrow> risk_check_result" where
  "check_kill_switch rp =
     (if rp_kill_switch_enabled rp then risk_fail RR_KILL_SWITCH ''kill switch is enabled'' None None
      else risk_pass RR_KILL_SWITCH ''kill switch is disabled'' None None)"

definition check_allowed_product :: "risk_policy \<Rightarrow> payload \<Rightarrow> risk_check_result" where
  "check_allowed_product rp p =
     (let product_id = string_or_none (jget p ''product_id'') in
      case rp_allowed_products rp of
        None \<Rightarrow> risk_pass RR_ALLOWED_PRODUCT ''product allowlist is not configured'' product_id None
      | Some allowed \<Rightarrow>
          if product_id \<in> Some ` set allowed
          then risk_pass RR_ALLOWED_PRODUCT ''product is allowed'' product_id None
          else risk_fail RR_ALLOWED_PRODUCT ''product is not allowed'' product_id (Some (joined_set allowed)))"

definition check_allowed_order_type :: "risk_policy \<Rightarrow> payload \<Rightarrow> risk_check_result" where
  "check_allowed_order_type rp p =
     (let ot = enum_or_none order_type_of (jget p ''order_type'') in
      case rp_allowed_order_types rp of
        None \<Rightarrow> risk_pass RR_ALLOWED_ORDER_TYPE ''order type allowlist is not configured''
                  (map_option order_type_value ot) None
      | Some allowed \<Rightarrow>
          if ot \<in> Some ` set allowed
          then risk_pass RR_ALLOWED_ORDER_TYPE ''order type is allowed'' (map_option order_type_value ot) None
          else risk_fail RR_ALLOWED_ORDER_TYPE ''order type is not allowed''
                 (or_else (map_option order_type_value ot) (string_or_none (jget p ''order_type'')))
                 (Some (joined_set (map order_type_value allowed))))"

definition check_allowed_side :: "risk_policy \<Rightarrow> payload \<Rightarrow> risk_check_result option" where
  "check_allowed_side rp p =
     (case rp_allowed_sides rp of
        None \<Rightarrow> None
      | Some allowed \<Rightarrow>
          let side = enum_or_none order_side_of (jget p ''side'') in
          Some (if side \<in> Some ` set allowed
                then risk_pass RR_ALLOWED_SIDE ''side is allowed'' (map_option order_side_value side) None
                else risk_fail RR_ALLOWED_SIDE ''side is not allowed''
                       (or_else (map_option order_side_value side) (string_or_none (jget p ''side'')))
                       (Some (joined_set (map order_side_value allowed)))))"

definition check_allowed_time_in_force :: "risk_policy \<Rightarrow> payload \<Rightarrow> risk_check_result option" where
  "check_allowed_time_in_force rp p =
     (case rp_allowed_time_in_force rp of
        None \<Rightarrow> None
      | Some allowed \<Rightarrow>
          let tif = enum_or_none time_in_force_of (jget p ''time_in_force'') in
          Some (if tif \<in> Some ` set allowed
                then risk_pass RR_ALLOWED_TIME_IN_FORCE ''time_in_force is allowed''
                       (map_option time_in_force_value tif) None
                else risk_fail RR_ALLOWED_TIME_IN_FORCE ''time_in_force is not allowed''
                       (or_else (map_option time_in_force_value tif) (string_or_none (jget p ''time_in_force'')))
                       (Some (joined_set (map time_in_force_value allowed)))))"

definition payload_lineage_relation :: "payload \<Rightarrow> order_lineage_relation" where
  "payload_lineage_relation p =
     (case enum_or_none order_lineage_relation_of (jget p ''lineage_relation'') of
        None \<Rightarrow> OLR_ROOT | Some r \<Rightarrow> r)"

definition payload_placement_kind :: "payload \<Rightarrow> order_placement_kind" where
  "payload_placement_kind p =
     (case enum_or_none order_placement_kind_of (jget p ''placement_kind'') of
        None \<Rightarrow> OPK_INITIAL | Some k \<Rightarrow> k)"

definition check_lineage_relation :: "risk_policy \<Rightarrow> payload \<Rightarrow> risk_check_result option" where
  "check_lineage_relation rp p =
     (case rp_allowed_lineage_relations rp of
        None \<Rightarrow> None
      | Some allowed \<Rightarrow>
          let relation = payload_lineage_relation p in
          Some (if relation \<in> set allowed
                then risk_pass RR_LINEAGE_RELATION_ALLOWED ''lineage relation is allowed''
                       (Some (order_lineage_relation_value relation)) None
                else risk_fail RR_LINEAGE_RELATION_ALLOWED ''lineage relation is not allowed''
                       (Some (order_lineage_relation_value relation))
                       (Some (joined_set (map order_lineage_relation_value allowed)))))"

definition check_placement_kind :: "risk_policy \<Rightarrow> payload \<Rightarrow> risk_check_result option" where
  "check_placement_kind rp p =
     (case rp_allowed_placement_kinds rp of
        None \<Rightarrow> None
      | Some allowed \<Rightarrow>
          let kind = payload_placement_kind p in
          Some (if kind \<in> set allowed
                then risk_pass RR_PLACEMENT_KIND_ALLOWED ''placement kind is allowed''
                       (Some (order_placement_kind_value kind)) None
                else risk_fail RR_PLACEMENT_KIND_ALLOWED ''placement kind is not allowed''
                       (Some (order_placement_kind_value kind))
                       (Some (joined_set (map order_placement_kind_value allowed)))))"

subsection \<open>Notionals\<close>

text \<open>\<^verbatim>\<open>_order_notional\<close> on the parsed size and price\<close>

definition order_notional :: "pydec option \<Rightarrow> pydec option \<Rightarrow> product_metadata option \<Rightarrow> pydec option res" where
  "order_notional sz price product =
     (case (sz, price) of
        (Some s, Some p) \<Rightarrow>
          (case product of
             Some m \<Rightarrow> product_notional m (Some s) (Some p)
           | None \<Rightarrow> res_bind (dec_mul s p) (\<lambda>n. Inr (Some n)))
      | _ \<Rightarrow> Inr None)"

definition payload_notional :: "payload \<Rightarrow> product_metadata option \<Rightarrow> pydec option res" where
  "payload_notional p product =
     order_notional (json_decimal (jget p ''size'')) (json_decimal (jget p ''limit_price'')) product"

text \<open>\<^verbatim>\<open>order_notional_value(order.size, order.limit_price, product)\<close>\<close>

definition order_notional_value :: "string option \<Rightarrow> string option \<Rightarrow> product_metadata option \<Rightarrow> pydec option res" where
  "order_notional_value sz price product =
     order_notional (Option.bind sz finite_decimal) (Option.bind price finite_decimal) product"

definition product_for_payload :: "risk_policy \<Rightarrow> payload \<Rightarrow> product_metadata option" where
  "product_for_payload rp p =
     (case rp_product_catalog rp of
        None \<Rightarrow> None | Some cat \<Rightarrow> catalog_get cat (string_or_none (jget p ''product_id'')))"

definition is_staged_release_payload :: "payload \<Rightarrow> bool" where
  "is_staged_release_payload p =
     (enum_or_none order_placement_kind_of (jget p ''placement_kind'') = Some OPK_STAGED_RELEASE)"

definition is_existing_logical_placement :: "payload \<Rightarrow> bool" where
  "is_existing_logical_placement p =
     (enum_or_none order_placement_kind_of (jget p ''placement_kind'') \<in> {Some OPK_AMEND, Some OPK_CANCEL_REPLACE})"

subsection \<open>The product's own rules\<close>

definition bound_texts :: "(string \<times> pydec option) list \<Rightarrow> string option" where
  "bound_texts bs =
     (let parts = List.map_filter (\<lambda>(name, d). map_option (\<lambda>d. name @ ''='' @ dec_str d) d) bs
      in if parts = [] then None else Some (str_join '','' parts))"

definition product_size_limit :: "product_metadata \<Rightarrow> string option" where
  "product_size_limit m =
     bound_texts [(''min'', prd_base_min_size m), (''max'', prd_base_max_size m), (''increment'', prd_base_increment m)]"

definition product_quote_limit :: "product_metadata \<Rightarrow> string option" where
  "product_quote_limit m = bound_texts [(''min'', prd_quote_min_size m), (''max'', prd_quote_max_size m)]"

definition check_product_tradable :: "product_metadata \<Rightarrow> order_type option \<Rightarrow> risk_check_result" where
  "check_product_tradable m ot =
     (if \<not> tradable_for_new_orders m
      then risk_fail RR_PRODUCT_TRADABLE ''product is not tradable for new orders'' (Some (prd_product_id m)) None
      else if \<not> allows_order_type m ot
      then risk_fail RR_PRODUCT_TRADABLE ''product does not allow this order type'' (map_option order_type_value ot) None
      else risk_pass RR_PRODUCT_TRADABLE ''product is tradable'' (Some (prd_product_id m)) None)"

definition check_product_base_size :: "product_metadata \<Rightarrow> pydec option \<Rightarrow> risk_check_result res" where
  "check_product_base_size m sz =
     res_if (size_is_valid m sz)
       (Inr (risk_pass RR_PRODUCT_BASE_SIZE ''size satisfies product base size rules''
               (map_option dec_str sz) (product_size_limit m)))
       (Inr (risk_fail RR_PRODUCT_BASE_SIZE ''size violates product base size rules''
               (map_option dec_str sz) (product_size_limit m)))"

definition check_product_price_increment :: "product_metadata \<Rightarrow> pydec option \<Rightarrow> risk_check_result res" where
  "check_product_price_increment m price =
     res_if (price_is_valid m price)
       (Inr (risk_pass RR_PRODUCT_PRICE_INCREMENT ''price satisfies product price increment''
               (map_option dec_str price) (map_option dec_str (prd_price_increment m))))
       (Inr (risk_fail RR_PRODUCT_PRICE_INCREMENT ''price violates product price increment''
               (map_option dec_str price) (map_option dec_str (prd_price_increment m))))"

definition check_product_quote_notional ::
  "product_metadata \<Rightarrow> pydec option \<Rightarrow> pydec option \<Rightarrow> risk_check_result res" where
  "check_product_quote_notional m sz price =
     res_if (notional_is_valid m sz price)
       (res_bind (order_notional sz price (Some m)) (\<lambda>n. Inr
         (risk_pass RR_PRODUCT_QUOTE_NOTIONAL ''notional satisfies product quote size rules''
            (map_option dec_str n) (product_quote_limit m))))
       (res_bind (order_notional sz price (Some m)) (\<lambda>n. Inr
         (risk_fail RR_PRODUCT_QUOTE_NOTIONAL ''notional violates product quote size rules''
            (map_option dec_str n) (product_quote_limit m))))"

text \<open>Checks that may raise, one after the other\<close>

fun res_concat :: "'a list res list \<Rightarrow> 'a list res" where
  "res_concat [] = Inr []"
| "res_concat (r # rs) = res_bind r (\<lambda>xs. res_bind (res_concat rs) (\<lambda>ys. Inr (xs @ ys)))"

definition one_check :: "risk_check_result res \<Rightarrow> risk_check_result list res" where
  "one_check r = res_bind r (\<lambda>c. Inr [c])"

definition optional_check :: "risk_check_result option res \<Rightarrow> risk_check_result list res" where
  "optional_check r = res_bind r (\<lambda>c. Inr (optional_list c))"

definition check_product_metadata :: "risk_policy \<Rightarrow> payload \<Rightarrow> risk_check_result list res" where
  "check_product_metadata rp p =
     (case rp_product_catalog rp of
        None \<Rightarrow> Inr []
      | Some cat \<Rightarrow>
          let product_id = string_or_none (jget p ''product_id'');
              ot = enum_or_none order_type_of (jget p ''order_type'');
              sz = json_decimal (jget p ''size'');
              price = json_decimal (jget p ''limit_price'') in
          (case catalog_get cat product_id of
             None \<Rightarrow> Inr [risk_fail RR_PRODUCT_TRADABLE ''product metadata is missing'' product_id None]
           | Some m \<Rightarrow>
               res_concat
                 [one_check (Inr (check_product_tradable m ot)),
                  one_check (check_product_base_size m sz),
                  if ot = Some OT_LIMIT then one_check (check_product_price_increment m price) else Inr [],
                  one_check (check_product_quote_notional m sz price)]))"

subsection \<open>Limits of one order\<close>

text \<open>\<^verbatim>\<open>value <= limit\<close> as a passed or failed check that shows both\<close>

definition within_limit :: "risk_rule \<Rightarrow> string \<Rightarrow> string \<Rightarrow> pydec \<Rightarrow> pydec \<Rightarrow> risk_check_result res" where
  "within_limit rule passed failed v l =
     res_if (dec_le v l)
       (Inr (risk_pass rule passed (Some (dec_str v)) (Some (dec_str l))))
       (Inr (risk_fail rule failed (Some (dec_str v)) (Some (dec_str l))))"

definition check_size :: "risk_policy \<Rightarrow> payload \<Rightarrow> risk_check_result res" where
  "check_size rp p =
     (case rp_max_order_size rp of
        None \<Rightarrow> Inr (risk_pass RR_MAX_ORDER_SIZE ''max order size is not configured'' None None)
      | Some l \<Rightarrow>
          (case json_decimal (jget p ''size'') of
             None \<Rightarrow> Inr (risk_fail RR_MAX_ORDER_SIZE ''size must be decimal'' None (Some (dec_str l)))
           | Some s \<Rightarrow> within_limit RR_MAX_ORDER_SIZE ''size is within limit'' ''size exceeds limit'' s l))"

definition check_notional :: "risk_policy \<Rightarrow> payload \<Rightarrow> risk_check_result res" where
  "check_notional rp p =
     (case rp_max_order_notional rp of
        None \<Rightarrow> Inr (risk_pass RR_MAX_ORDER_NOTIONAL ''max order notional is not configured'' None None)
      | Some l \<Rightarrow>
          if json_decimal (jget p ''size'') = None
          then Inr (risk_fail RR_MAX_ORDER_NOTIONAL ''size must be decimal before notional can be checked''
                      None (Some (dec_str l)))
          else if json_decimal (jget p ''limit_price'') = None
          then Inr (risk_fail RR_MAX_ORDER_NOTIONAL ''limit_price is required when max notional is configured''
                      None (Some (dec_str l)))
          else
            res_bind (payload_notional p (product_for_payload rp p)) (\<lambda>notional. case notional of
               None \<Rightarrow> Inr (risk_fail RR_MAX_ORDER_NOTIONAL
                          ''size and limit_price are required when max notional is configured''
                          None (Some (dec_str l)))
             | Some n \<Rightarrow> within_limit RR_MAX_ORDER_NOTIONAL ''notional is within limit'' ''notional exceeds limit'' n l))"

definition check_leverage :: "risk_policy \<Rightarrow> payload \<Rightarrow> risk_check_result res" where
  "check_leverage rp p =
     (case rp_max_leverage rp of
        None \<Rightarrow> Inr (risk_pass RR_MAX_LEVERAGE ''max leverage is not configured'' None None)
      | Some l \<Rightarrow>
          (case json_decimal (jget p ''leverage'') of
             None \<Rightarrow> Inr (risk_fail RR_MAX_LEVERAGE ''leverage is required'' None (Some (dec_str l)))
           | Some v \<Rightarrow> within_limit RR_MAX_LEVERAGE ''leverage is within limit'' ''leverage exceeds limit'' v l))"

definition check_visible_notional :: "risk_policy \<Rightarrow> payload \<Rightarrow> risk_check_result option res" where
  "check_visible_notional rp p =
     (if \<not> rp_require_staged_release_above_visible_limit rp then Inr None
      else case rp_max_visible_notional rp of
        None \<Rightarrow> Inr None
      | Some l \<Rightarrow>
          res_bind (payload_notional p (product_for_payload rp p)) (\<lambda>notional. case notional of
             None \<Rightarrow> Inr (Some (risk_fail RR_MAX_VISIBLE_NOTIONAL
                        ''size and limit_price are required when max visible notional is configured''
                        None (Some (dec_str l))))
           | Some n \<Rightarrow>
               res_if (dec_le n l)
                 (Inr (Some (risk_pass RR_MAX_VISIBLE_NOTIONAL ''visible notional is within limit''
                               (Some (dec_str n)) (Some (dec_str l)))))
                 (Inr (Some
                   (if is_staged_release_payload p
                    then risk_pass RR_MAX_VISIBLE_NOTIONAL ''oversized order is staged instead of visible''
                           (Some (dec_str n)) (Some (dec_str l))
                    else risk_fail RR_MAX_VISIBLE_NOTIONAL ''visible notional exceeds limit and must be staged''
                           (Some (dec_str n)) (Some (dec_str l)))))))"

definition check_post_only :: "risk_policy \<Rightarrow> payload \<Rightarrow> risk_check_result option" where
  "check_post_only rp p =
     (if \<not> rp_require_post_only rp then None
      else if jget p ''post_only'' = JBool True
      then Some (risk_pass RR_POST_ONLY_REQUIRED ''order is post-only'' None None)
      else Some (risk_fail RR_POST_ONLY_REQUIRED ''post-only mode is required'' None None))"

definition check_reduce_only :: "risk_policy \<Rightarrow> payload \<Rightarrow> risk_check_result" where
  "check_reduce_only rp p =
     (if \<not> rp_require_reduce_only rp
      then risk_pass RR_REDUCE_ONLY_REQUIRED ''reduce-only mode is not required'' None None
      else if jget p ''reduce_only'' = JBool True
      then risk_pass RR_REDUCE_ONLY_REQUIRED ''order is reduce-only'' None None
      else risk_fail RR_REDUCE_ONLY_REQUIRED ''reduce-only mode is required'' None None)"

subsection \<open>Orders of the ledger\<close>

definition action_has_staged_placement :: "string \<Rightarrow> projection \<Rightarrow> bool" where
  "action_has_staged_placement action_id pj =
     list_ex (\<lambda>i. case dict_get (pj_placements_by_id pj) i of
                None \<Rightarrow> False | Some plc \<Rightarrow> plc_placement_kind plc = OPK_STAGED_RELEASE)
       (dict_get_or (pj_placement_ids_by_action_id pj) action_id [])"

definition orders_of_actions :: "projection \<Rightarrow> order_snapshot list" where
  "orders_of_actions pj = map (order_at pj) (dict_values (pj_orders_by_action_id pj))"

definition is_live_open_order :: "order_snapshot \<Rightarrow> projection \<Rightarrow> bool" where
  "is_live_open_order o1 pj \<longleftrightarrow>
     \<not> action_has_staged_placement (ord_action_id o1) pj \<and>
     ord_lifecycle_status o1 \<in> {OLS_ACCEPTED, OLS_CANCEL_QUEUED, OLS_EXECUTION_UNKNOWN, OLS_OPEN,
                                OLS_PENDING, OLS_REQUESTED}"

definition live_open_orders :: "string option \<Rightarrow> order_side option \<Rightarrow> projection \<Rightarrow> order_snapshot list" where
  "live_open_orders product_id side pj =
     filter (\<lambda>o1. is_live_open_order o1 pj
               \<and> (product_id = None \<or> ord_product_id o1 = product_id)
               \<and> (side = None \<or> ord_side o1 = side)) (orders_of_actions pj)"

definition order_counts_toward_daily_notional :: "order_snapshot \<Rightarrow> bool" where
  "order_counts_toward_daily_notional o1 \<longleftrightarrow>
     ord_lifecycle_status o1 \<in> {OLS_ACCEPTED, OLS_CANCEL_QUEUED, OLS_EXECUTION_UNKNOWN, OLS_FILLED,
                                OLS_OPEN, OLS_PENDING}"

record daily_notional_usage =
  dnu_notional :: pydec
  dnu_unverifiable_action_ids :: "string list"

text \<open>The orders whose acceptance on the day counts\<close>

definition counts_today :: "datetime \<Rightarrow> string option \<Rightarrow> projection \<Rightarrow> order_snapshot \<Rightarrow> bool" where
  "counts_today t product_id pj o1 \<longleftrightarrow>
     \<not> action_has_staged_placement (ord_action_id o1) pj \<and>
     order_counts_toward_daily_notional o1 \<and>
     (product_id = None \<or> ord_product_id o1 = product_id) \<and>
     (case ord_accepted_sequence o1 of
        None \<Rightarrow> False
      | Some n \<Rightarrow>
          (case dict_get (pj_record_occurred_at_by_sequence pj) n of
             None \<Rightarrow> False | Some accepted_at \<Rightarrow> utc_date accepted_at = utc_date t))"

definition add_order_notional ::
  "product_catalog option \<Rightarrow> order_snapshot \<Rightarrow> daily_notional_usage \<Rightarrow> daily_notional_usage res" where
  "add_order_notional cat o1 u =
     res_bind (order_notional_value (ord_size o1) (ord_limit_price o1)
                 (Option.bind cat (\<lambda>c. catalog_get c (ord_product_id o1)))) (\<lambda>notional. case notional of
        None \<Rightarrow> Inr (u\<lparr>dnu_unverifiable_action_ids := dnu_unverifiable_action_ids u @ [ord_action_id o1]\<rparr>)
      | Some n \<Rightarrow> res_bind (dec_add (dnu_notional u) n) (\<lambda>total. Inr (u\<lparr>dnu_notional := total\<rparr>)))"

definition latest_projection_time :: "projection \<Rightarrow> datetime option" where
  "latest_projection_time pj =
     (if pj_last_sequence pj \<le> 0 then None
      else dict_get (pj_record_occurred_at_by_sequence pj) (pj_last_sequence pj))"

text \<open>\<open>now\<close> is the caller's time, \<open>clock\<close> the reading used when the ledger is empty too.\<close>

definition evaluation_time :: "datetime option \<Rightarrow> datetime \<Rightarrow> projection \<Rightarrow> datetime" where
  "evaluation_time now clock pj =
     (case or_else now (latest_projection_time pj) of None \<Rightarrow> clock | Some t \<Rightarrow> t)"

definition daily_notional_usage_of ::
  "datetime option \<Rightarrow> datetime \<Rightarrow> product_catalog option \<Rightarrow> string option \<Rightarrow> projection \<Rightarrow> daily_notional_usage res" where
  "daily_notional_usage_of now clock cat product_id pj =
     res_bind (res_fold (add_order_notional cat)
                 (filter (counts_today (evaluation_time now clock pj) product_id pj) (orders_of_actions pj))
                 \<lparr>dnu_notional = dec_zero, dnu_unverifiable_action_ids = []\<rparr>)
       (\<lambda>u. Inr (u\<lparr>dnu_unverifiable_action_ids := sort (dnu_unverifiable_action_ids u)\<rparr>))"

definition check_daily_notional ::
  "risk_policy \<Rightarrow> payload \<Rightarrow> projection \<Rightarrow> datetime option \<Rightarrow> datetime \<Rightarrow> risk_check_result option res" where
  "check_daily_notional rp p pj now clock =
     (case rp_max_daily_notional rp of
        None \<Rightarrow> Inr None
      | Some l \<Rightarrow>
          if is_staged_release_payload p
          then Inr (Some (risk_pass RR_MAX_DAILY_NOTIONAL
                      ''staged order does not consume daily live-order notional'' None (Some (dec_str l))))
          else
            res_bind (payload_notional p (product_for_payload rp p)) (\<lambda>current. case current of
               None \<Rightarrow> Inr (Some (risk_fail RR_MAX_DAILY_NOTIONAL
                          ''size and limit_price are required when max daily notional is configured''
                          None (Some (dec_str l))))
             | Some n \<Rightarrow>
                 res_bind (daily_notional_usage_of now clock (rp_product_catalog rp) None pj) (\<lambda>u.
                   if dnu_unverifiable_action_ids u \<noteq> []
                   then Inr (Some (risk_fail RR_MAX_DAILY_NOTIONAL ''accepted order notional cannot be verified''
                               (Some (str_join '','' (dnu_unverifiable_action_ids u))) (Some (dec_str l))))
                   else
                     res_bind (dec_add (dnu_notional u) n) (\<lambda>proposed.
                     res_bind (within_limit RR_MAX_DAILY_NOTIONAL ''daily notional is within limit''
                                 ''daily notional exceeds limit'' proposed l) (\<lambda>c. Inr (Some c))))))"

definition check_open_orders :: "risk_policy \<Rightarrow> payload \<Rightarrow> projection \<Rightarrow> risk_check_result option" where
  "check_open_orders rp p pj =
     (case rp_max_open_orders rp of
        None \<Rightarrow> None
      | Some l \<Rightarrow>
          let proposed = int (length (live_open_orders None None pj))
                + (if is_existing_logical_placement p \<or> is_staged_release_payload p then 0 else 1) in
          Some (if proposed \<le> l
                then risk_pass RR_MAX_OPEN_ORDERS ''open order count is within limit''
                       (Some (int_to_str proposed)) (Some (int_to_str l))
                else risk_fail RR_MAX_OPEN_ORDERS ''open order count exceeds limit''
                       (Some (int_to_str proposed)) (Some (int_to_str l))))"

definition is_replacement :: "order_placement_kind \<Rightarrow> bool" where
  "is_replacement k = (k = OPK_AMEND \<or> k = OPK_CANCEL_REPLACE)"

definition check_order_replacements :: "risk_policy \<Rightarrow> payload \<Rightarrow> projection \<Rightarrow> risk_check_result option" where
  "check_order_replacements rp p pj =
     (case rp_max_order_replacements rp of
        None \<Rightarrow> None
      | Some l \<Rightarrow>
          if \<not> is_replacement (payload_placement_kind p)
          then Some (risk_pass RR_MAX_ORDER_REPLACEMENTS ''command is not an order replacement'' None (Some (int_to_str l)))
          else
            let existing = (case string_or_none (jget p ''logical_order_id'') of
                    None \<Rightarrow> 0
                  | Some i \<Rightarrow> length (filter (\<lambda>plc. is_replacement (plc_placement_kind plc))
                                      (dict_get_or (pj_placements_by_logical_order_id pj) i [])));
                proposed = int existing + 1 in
            Some (if proposed \<le> l
                  then risk_pass RR_MAX_ORDER_REPLACEMENTS ''order replacement count is within limit''
                         (Some (int_to_str proposed)) (Some (int_to_str l))
                  else risk_fail RR_MAX_ORDER_REPLACEMENTS ''order replacement count exceeds limit''
                         (Some (int_to_str proposed)) (Some (int_to_str l))))"

subsection \<open>The evaluation\<close>

definition risk_checks ::
  "risk_policy \<Rightarrow> payload \<Rightarrow> projection \<Rightarrow> datetime option \<Rightarrow> datetime \<Rightarrow> risk_check_result list res" where
  "risk_checks rp p pj now clock =
     res_concat
       [Inr [check_kill_switch rp],
        Inr [check_allowed_product rp p],
        Inr [check_allowed_order_type rp p],
        Inr (optional_list (check_allowed_side rp p)),
        Inr (optional_list (check_allowed_time_in_force rp p)),
        Inr (optional_list (check_lineage_relation rp p)),
        Inr (optional_list (check_placement_kind rp p)),
        check_product_metadata rp p,
        one_check (check_size rp p),
        one_check (check_notional rp p),
        optional_check (check_daily_notional rp p pj now clock),
        Inr (optional_list (check_open_orders rp p pj)),
        one_check (check_leverage rp p),
        optional_check (check_visible_notional rp p),
        Inr (optional_list (check_order_replacements rp p pj)),
        Inr (optional_list (check_post_only rp p)),
        Inr [check_reduce_only rp p]]"

definition risk_evaluate ::
  "risk_policy \<Rightarrow> action_command \<Rightarrow> projection \<Rightarrow> datetime option \<Rightarrow> datetime \<Rightarrow> risk_evaluation res" where
  "risk_evaluate rp c pj now clock =
     (if cmd_action_type c \<noteq> AT_PLACE_ORDER
      then Inr \<lparr>rev_status = RCS_PASS,
                rev_checks = [risk_pass RR_KILL_SWITCH ''risk gate does not block non-order-placement actions'' None None]\<rparr>
      else
        res_bind (command_inner_payload c) (\<lambda>p.
        res_bind (risk_checks rp p pj now clock) (\<lambda>checks.
        Inr \<lparr>rev_status = (if list_all (\<lambda>r. rcr_status r = RCS_PASS) checks then RCS_PASS else RCS_FAIL),
             rev_checks = checks\<rparr>)))"

subsection \<open>What an accepted order satisfies\<close>

lemma res_concat_Inr_Cons [simp]:
  "res_concat (r # rs) = Inr zs \<longleftrightarrow> (\<exists>xs ys. r = Inr xs \<and> res_concat rs = Inr ys \<and> zs = xs @ ys)"
  by (auto simp: res_bind_Inr)

declare res_concat.simps(2) [simp del]

lemma one_check_Inr [simp]: "one_check r = Inr xs \<longleftrightarrow> (\<exists>c. r = Inr c \<and> xs = [c])"
  by (auto simp: one_check_def res_bind_Inr)

lemma optional_check_Inr [simp]: "optional_check r = Inr xs \<longleftrightarrow> (\<exists>c. r = Inr c \<and> xs = optional_list c)"
  by (auto simp: optional_check_def res_bind_Inr)

lemma pass_fail_status [simp]:
  "rcr_status (risk_pass rule m obs l) = RCS_PASS" "rcr_status (risk_fail rule m obs l) = RCS_FAIL"
  by (simp_all add: risk_pass_def risk_fail_def)

lemma risk_passed_checks:
  assumes "risk_evaluate rp c pj now clock = Inr e" and "risk_passed e" and "cmd_action_type c = AT_PLACE_ORDER"
  obtains p checks where "command_inner_payload c = Inr p" and "risk_checks rp p pj now clock = Inr checks"
    and "list_all (\<lambda>r. rcr_status r = RCS_PASS) checks" and "rev_checks e = checks"
  using assms by (auto simp: risk_evaluate_def res_bind_Inr risk_passed_def split: if_splits)

text \<open>The passed checks of a placed order, one by one\<close>

lemma risk_checks_pass:
  assumes "risk_checks rp p pj now clock = Inr checks" and "list_all (\<lambda>r. rcr_status r = RCS_PASS) checks"
  shows "rcr_status (check_kill_switch rp) = RCS_PASS" and "rcr_status (check_allowed_product rp p) = RCS_PASS"
    and "rcr_status (check_allowed_order_type rp p) = RCS_PASS"
    and "list_all (\<lambda>r. rcr_status r = RCS_PASS) (optional_list (check_allowed_side rp p))"
    and "list_all (\<lambda>r. rcr_status r = RCS_PASS) (optional_list (check_placement_kind rp p))"
    and "\<exists>cs. check_product_metadata rp p = Inr cs \<and> list_all (\<lambda>r. rcr_status r = RCS_PASS) cs"
    and "\<exists>c1. check_size rp p = Inr c1 \<and> rcr_status c1 = RCS_PASS"
    and "\<exists>c1. check_notional rp p = Inr c1 \<and> rcr_status c1 = RCS_PASS"
    and "\<exists>c1. check_daily_notional rp p pj now clock = Inr c1 \<and> list_all (\<lambda>r. rcr_status r = RCS_PASS) (optional_list c1)"
    and "list_all (\<lambda>r. rcr_status r = RCS_PASS) (optional_list (check_open_orders rp p pj))"
    and "\<exists>c1. check_leverage rp p = Inr c1 \<and> rcr_status c1 = RCS_PASS"
    and "\<exists>c1. check_visible_notional rp p = Inr c1 \<and> list_all (\<lambda>r. rcr_status r = RCS_PASS) (optional_list c1)"
    and "list_all (\<lambda>r. rcr_status r = RCS_PASS) (optional_list (check_order_replacements rp p pj))"
    and "list_all (\<lambda>r. rcr_status r = RCS_PASS) (optional_list (check_post_only rp p))"
    and "rcr_status (check_reduce_only rp p) = RCS_PASS"
  using assms by (auto simp: risk_checks_def)

lemma within_limit_pass [simp]:
  "(\<exists>c. within_limit rule yes no v l = Inr c \<and> rcr_status c = RCS_PASS) \<longleftrightarrow> dec_le v l = Inr True"
  by (auto simp: within_limit_def res_if_Inr)

lemma passed_kill_switch: "rcr_status (check_kill_switch rp) = RCS_PASS \<longleftrightarrow> \<not> rp_kill_switch_enabled rp"
  by (simp add: check_kill_switch_def)

lemma passed_allowed_product:
  "rcr_status (check_allowed_product rp p) = RCS_PASS \<longleftrightarrow>
   (\<forall>allowed. rp_allowed_products rp = Some allowed \<longrightarrow>
      (\<exists>i \<in> set allowed. string_or_none (jget p ''product_id'') = Some i))"
  by (auto simp: check_allowed_product_def Let_def split: option.splits)

lemma passed_size:
  assumes "check_size rp p = Inr c" and "rcr_status c = RCS_PASS" and "rp_max_order_size rp = Some l"
  shows "\<exists>s. json_decimal (jget p ''size'') = Some s \<and> dec_le s l = Inr True"
  using assms by (auto simp: check_size_def within_limit_def res_if_Inr split: option.splits)

lemma passed_notional:
  assumes "check_notional rp p = Inr c" and "rcr_status c = RCS_PASS" and "rp_max_order_notional rp = Some l"
  shows "\<exists>n. payload_notional p (product_for_payload rp p) = Inr (Some n) \<and> dec_le n l = Inr True"
  using assms
  by (auto simp: check_notional_def within_limit_def res_if_Inr res_bind_Inr split: option.splits if_splits)

lemma passed_leverage:
  assumes "check_leverage rp p = Inr c" and "rcr_status c = RCS_PASS" and "rp_max_leverage rp = Some l"
  shows "\<exists>v. json_decimal (jget p ''leverage'') = Some v \<and> dec_le v l = Inr True"
  using assms by (auto simp: check_leverage_def within_limit_def res_if_Inr split: option.splits)

lemma passed_daily_notional:
  assumes "check_daily_notional rp p pj now clock = Inr c"
    and "list_all (\<lambda>r. rcr_status r = RCS_PASS) (optional_list c)"
    and "rp_max_daily_notional rp = Some l" and "\<not> is_staged_release_payload p"
  shows "\<exists>n u total. payload_notional p (product_for_payload rp p) = Inr (Some n) \<and>
     daily_notional_usage_of now clock (rp_product_catalog rp) None pj = Inr u \<and>
     dnu_unverifiable_action_ids u = [] \<and> dec_add (dnu_notional u) n = Inr total \<and> dec_le total l = Inr True"
  using assms
  by (auto simp: check_daily_notional_def within_limit_def res_if_Inr res_bind_Inr split: option.splits if_splits)

lemma passed_open_orders:
  assumes "list_all (\<lambda>r. rcr_status r = RCS_PASS) (optional_list (check_open_orders rp p pj))"
    and "rp_max_open_orders rp = Some l"
  shows "int (length (live_open_orders None None pj))
      + (if is_existing_logical_placement p \<or> is_staged_release_payload p then 0 else 1) \<le> l"
  using assms by (auto simp: check_open_orders_def Let_def split: if_splits)

lemma passed_product:
  assumes "check_product_metadata rp p = Inr cs" and "list_all (\<lambda>r. rcr_status r = RCS_PASS) cs"
    and "rp_product_catalog rp = Some cat"
  shows "\<exists>m. catalog_get cat (string_or_none (jget p ''product_id'')) = Some m \<and> tradable_for_new_orders m \<and>
     allows_order_type m (enum_or_none order_type_of (jget p ''order_type'')) \<and>
     size_is_valid m (json_decimal (jget p ''size'')) = Inr True"
  using assms
  by (auto simp: check_product_metadata_def Let_def check_product_tradable_def check_product_base_size_def
      res_if_Inr split: option.splits if_splits)


text \<open>
  An evaluation that does not pass names a failed check, and one that passes names none.
\<close>

theorem risk_refusal_explained:
  assumes "risk_evaluate rp c pj now clock = Inr e"
  shows "risk_passed e \<longleftrightarrow> failure_messages e = []"
proof -
  have status: "rcr_status r = RCS_PASS \<longleftrightarrow> rcr_status r \<noteq> RCS_FAIL" for r
    by (cases "rcr_status r") auto
  show ?thesis using assms
    by (auto simp: risk_evaluate_def res_bind_Inr risk_passed_def failure_messages_def list_all_iff
        filter_empty_conv status split: if_splits)
qed

subsection \<open>Examples\<close>

definition open_policy :: risk_policy where
  "open_policy =
     \<lparr>rp_allowed_products = None, rp_allowed_order_types = None, rp_allowed_sides = None,
      rp_allowed_time_in_force = None, rp_allowed_lineage_relations = None, rp_allowed_placement_kinds = None,
      rp_product_catalog = None, rp_max_order_size = None, rp_max_order_notional = None,
      rp_max_daily_notional = None, rp_max_open_orders = None, rp_max_leverage = None,
      rp_max_visible_notional = None, rp_max_order_replacements = None, rp_require_reduce_only = False,
      rp_require_post_only = False, rp_require_staged_release_above_visible_limit = False,
      rp_kill_switch_enabled = False\<rparr>"

definition sample_order_command :: "string \<Rightarrow> string \<Rightarrow> action_command" where
  "sample_order_command action_id sz =
     \<lparr>cmd_action_id = action_id, cmd_action_type = AT_PLACE_ORDER,
      cmd_payload = PvMapping
        [(''limit_price'', PvStr ''100.5''), (''order_type'', PvStr ''limit''), (''post_only'', PvBool True),
         (''product_id'', PvStr ''BTC-USD''), (''side'', PvStr ''buy''), (''size'', PvStr sz),
         (''time_in_force'', PvStr ''good_until_cancelled'')],
      cmd_requested_by = ''strategy'', cmd_idempotency_key = None\<rparr>"

definition limited_policy :: risk_policy where
  "limited_policy = open_policy
     \<lparr>rp_allowed_products := Some [''ETH-USD'', ''BTC-USD''], rp_max_order_size := Some (dec_of_int 5),
      rp_max_order_notional := Some (dec_of_int 300), rp_max_daily_notional := Some (dec_of_int 1000),
      rp_max_open_orders := Some 1, rp_require_post_only := True\<rparr>"

lemma limited_policy_passes:
  "case risk_evaluate limited_policy (sample_order_command ''a1'' ''2'') (empty_projection None None 1 []) None 0 of
     Inr e \<Rightarrow> risk_passed e | Inl _ \<Rightarrow> False"
  by code_simp


theorem risk_refusal_explained_witness:
  "\<exists>e. risk_evaluate limited_policy (sample_order_command ''a1'' ''9'') (empty_projection None None 1 []) None 0 = Inr e \<and>
     \<not> risk_passed e \<and> failure_messages e \<noteq> []"
proof -
  have "case risk_evaluate limited_policy (sample_order_command ''a1'' ''9'') (empty_projection None None 1 []) None 0 of
     Inr e \<Rightarrow> \<not> risk_passed e | Inl _ \<Rightarrow> False"
    by code_simp
  then obtain e where "risk_evaluate limited_policy (sample_order_command ''a1'' ''9'')
      (empty_projection None None 1 []) None 0 = Inr e" "\<not> risk_passed e"
    by (auto split: sum.splits)
  with risk_refusal_explained show ?thesis by blast
qed

text \<open>
  A size that is huge for the product's increment makes the evaluation raise instead of failing the
  size check: the remainder is not computed when the quotient needs more than 28 digits.
\<close>

theorem huge_size_raises:
  "risk_evaluate (open_policy\<lparr>rp_product_catalog := Some [(''BTC-USD'', spot_product\<lparr>prd_base_max_size := None\<rparr>)]\<rparr>)
     (sample_order_command ''a1'' ''1e30'') pj now clock = Inl division_impossible"
proof -
  let ?m = "spot_product\<lparr>prd_base_max_size := None\<rparr>"
  let ?rp = "open_policy\<lparr>rp_product_catalog := Some [(''BTC-USD'', ?m)]\<rparr>"
  obtain p where p: "command_inner_payload (sample_order_command ''a1'' ''1e30'') = Inr p"
    and get: "jget p ''size'' = JStr ''1e30''" "jget p ''product_id'' = JStr ''BTC-USD''"
    by (simp add: command_inner_payload_def sample_order_command_def normalized_object_def dict_of_items_def jget_def)
  have "check_product_base_size ?m (json_decimal (JStr ''1e30'')) = Inl division_impossible" by code_simp
  then have "check_product_metadata ?rp p = Inl division_impossible"
    by (simp add: check_product_metadata_def catalog_get_def get Let_def res_concat.simps one_check_def)
  then have "risk_checks ?rp p pj now clock = Inl division_impossible"
    by (simp add: risk_checks_def res_concat.simps)
  then show ?thesis using p by (simp add: risk_evaluate_def) (simp add: sample_order_command_def)
qed

end
