(* ===== verification/Execution.thy ===== *)
theory Execution
  imports Commands
begin

text \<open>
  \<^verbatim>\<open>actions/execution.py\<close>, \<^verbatim>\<open>actions/dry_run.py\<close> and \<^verbatim>\<open>actions/venue_guard.py\<close>: the result of an executor,
  the executor that simulates, and the guard that lets a command reach an executor only for the
  venues it is enabled for. An executor acts on an outside world \<open>'w\<close>; it may raise and it may return
  something that is not a result.
\<close>

record execution_result =
  xr_action_id :: string
  xr_action_type :: action_type
  xr_status :: execution_status
  xr_mode :: execution_mode
  xr_client_order_id :: "string option"
  xr_exchange_order_id :: "string option"
  xr_raw_response :: pyval
  xr_error_category :: "error_category option"
  xr_error_code :: "string option"
  xr_error_message :: "string option"
  xr_retryable :: bool

text \<open>\<^verbatim>\<open>ExecutionResult.__post_init__\<close>; an error code is given by its text\<close>

definition new_execution_result :: "execution_result \<Rightarrow> execution_result res" where
  "new_execution_result x =
     (if xr_action_id x = [] then Inl (value_error ''action_id is required'')
      else if (xr_status x = ES_FAILED \<or> xr_status x = ES_REJECTED) \<and> \<not> text_present (xr_error_message x)
      then Inl (value_error ''error_message is required for failed or rejected execution results'')
      else if xr_error_code x = Some [] then Inl (type_error ''error_code must be an ErrorCode or non-empty string'')
      else Inr x)"

definition execution_result_payload :: "execution_result \<Rightarrow> payload res" where
  "execution_result_payload x =
     res_bind (normalized_object ''raw_response must normalize to a JSON object'' (xr_raw_response x)) (\<lambda>raw. Inr
       [(''action_id'', JStr (xr_action_id x)),
        (''action_type'', JStr (action_type_value (xr_action_type x))),
        (''client_order_id'', jopt (xr_client_order_id x)),
        (''error_category'', jopt (map_option error_category_value (xr_error_category x))),
        (''error_code'', jopt (xr_error_code x)),
        (''error_message'', jopt (xr_error_message x)),
        (''exchange_order_id'', jopt (xr_exchange_order_id x)),
        (''mode'', JStr (execution_mode_value (xr_mode x))),
        (''raw_response'', JObj raw),
        (''retryable'', JBool (xr_retryable x)),
        (''status'', JStr (execution_status_value (xr_status x)))])"

fun valid_execution_statuses :: "action_type \<Rightarrow> execution_status list" where
  "valid_execution_statuses AT_CANCEL_ORDER = [ES_CANCELLED, ES_REJECTED, ES_FAILED]"
| "valid_execution_statuses AT_PLACE_ORDER = [ES_ACCEPTED, ES_REJECTED, ES_FAILED]"

text \<open>\<open>None\<close> stands for a returned object that is not an \<^verbatim>\<open>ExecutionResult\<close>.\<close>

type_synonym 'w executor = "action_command \<Rightarrow> 'w \<Rightarrow> execution_result option res \<times> 'w"

subsection \<open>The simulating executor\<close>

text \<open>\<^verbatim>\<open>command.idempotency_key or command.action_id\<close>\<close>

definition client_order_id_of :: "action_command \<Rightarrow> string" where
  "client_order_id_of c =
     (case cmd_idempotency_key c of None \<Rightarrow> cmd_action_id c
      | Some k \<Rightarrow> if k = [] then cmd_action_id c else k)"

definition stable_suffix :: "digest \<Rightarrow> action_command \<Rightarrow> string res" where
  "stable_suffix sha c =
     res_bind (command_payload c) (\<lambda>p. Inr (take 16 (sha (canonical_json (JObj p)))))"

definition dry_run_place_order :: "digest \<Rightarrow> action_command \<Rightarrow> execution_result res" where
  "dry_run_place_order sha c =
     res_bind (stable_suffix sha c) (\<lambda>suffix.
       let client = client_order_id_of c; exchange = ''dry-run-'' @ suffix in
       new_execution_result
         \<lparr>xr_action_id = cmd_action_id c, xr_action_type = cmd_action_type c, xr_status = ES_ACCEPTED,
          xr_mode = EM_DRY_RUN, xr_client_order_id = Some client, xr_exchange_order_id = Some exchange,
          xr_raw_response = PvMapping
            [(''accepted'', PvBool True), (''client_order_id'', PvStr client),
             (''exchange_order_id'', PvStr exchange), (''simulated'', PvBool True)],
          xr_error_category = None, xr_error_code = None, xr_error_message = None, xr_retryable = False\<rparr>)"

definition dry_run_cancel_order :: "action_command \<Rightarrow> execution_result res" where
  "dry_run_cancel_order c =
     res_bind (command_inner_payload c) (\<lambda>p.
       let client = string_or_none (jget p ''client_order_id'');
           exchange = string_or_none (jget p ''exchange_order_id'') in
       new_execution_result
         \<lparr>xr_action_id = cmd_action_id c, xr_action_type = cmd_action_type c, xr_status = ES_CANCELLED,
          xr_mode = EM_DRY_RUN, xr_client_order_id = client, xr_exchange_order_id = exchange,
          xr_raw_response = PvMapping
            [(''cancelled'', PvBool True), (''client_order_id'', pv_opt client),
             (''exchange_order_id'', pv_opt exchange), (''simulated'', PvBool True)],
          xr_error_category = None, xr_error_code = None, xr_error_message = None, xr_retryable = False\<rparr>)"

definition dry_run_executor :: "digest \<Rightarrow> 'w executor" where
  "dry_run_executor sha c w =
     (res_bind (case cmd_action_type c of
                  AT_PLACE_ORDER \<Rightarrow> dry_run_place_order sha c
                | AT_CANCEL_ORDER \<Rightarrow> dry_run_cancel_order c) (\<lambda>x. Inr (Some x)), w)"

subsection \<open>The venue guard\<close>

text \<open>\<^verbatim>\<open>command.payload.get(key)\<close> when it is a text that is not empty; an enumeration member is a text\<close>

definition pyval_text :: "pyval \<Rightarrow> string \<Rightarrow> string option" where
  "pyval_text v k =
     (case v of
        PvMapping kvs \<Rightarrow>
          (case map_of (rev kvs) k of
             Some (PvStr s) \<Rightarrow> if s = [] then None else Some s
           | Some (PvEnum s) \<Rightarrow> if s = [] then None else Some s
           | Some (PvJson j) \<Rightarrow> string_or_none j
           | _ \<Rightarrow> None)
      | PvJson (JObj kvs) \<Rightarrow> string_or_none (jget kvs k)
      | _ \<Rightarrow> None)"

record venue_guard =
  vg_allowed_venues :: "product_venue list"
  vg_mode :: execution_mode
  vg_product_catalog :: product_catalog

definition new_venue_guard :: "venue_guard \<Rightarrow> venue_guard res" where
  "new_venue_guard g =
     (if vg_allowed_venues g = [] then Inl (value_error ''allowed_venues must not be empty'') else Inr g)"

definition guard_rejection ::
  "venue_guard \<Rightarrow> action_command \<Rightarrow> error_code \<Rightarrow> string \<Rightarrow> string option \<Rightarrow> product_venue option \<Rightarrow>
   execution_result res" where
  "guard_rejection g c code message product_id venue =
     new_execution_result
       \<lparr>xr_action_id = cmd_action_id c, xr_action_type = cmd_action_type c, xr_status = ES_REJECTED,
        xr_mode = vg_mode g, xr_client_order_id = None, xr_exchange_order_id = None,
        xr_raw_response = PvMapping
          [(''allowed_product_venues'', PvSequence (map (\<lambda>v. PvStr (product_venue_value v)) (vg_allowed_venues g))),
           (''product_id'', pv_opt product_id),
           (''product_venue'', pv_opt (map_option product_venue_value venue))],
        xr_error_category = Some EC_ACTION_EXECUTOR, xr_error_code = Some (error_code_value code),
        xr_error_message = Some message, xr_retryable = False\<rparr>"

definition rejected_by_guard :: "execution_result res \<Rightarrow> 'w \<Rightarrow> execution_result option res \<times> 'w" where
  "rejected_by_guard r w = (res_bind r (\<lambda>x. Inr (Some x)), w)"

definition guarded_executor :: "venue_guard \<Rightarrow> 'w executor \<Rightarrow> 'w executor" where
  "guarded_executor g ex c w =
     (if cmd_action_type c \<noteq> AT_PLACE_ORDER then ex c w
      else case pyval_text (cmd_payload c) ''product_id'' of
        None \<Rightarrow>
          rejected_by_guard
            (guard_rejection g c ER_PRODUCT_ID_MISSING
               ''product_id is required before venue restriction checks'' None None) w
      | Some product_id \<Rightarrow>
          (case catalog_get (vg_product_catalog g) (Some product_id) of
             None \<Rightarrow>
               rejected_by_guard
                 (guard_rejection g c ER_PRODUCT_METADATA_MISSING
                    ''product metadata is required before live execution'' (Some product_id) None) w
           | Some m \<Rightarrow>
               if prd_product_venue m \<notin> set (vg_allowed_venues g)
               then rejected_by_guard
                      (guard_rejection g c ER_UNSUPPORTED_PRODUCT_VENUE
                         (''live execution is not enabled for product venue ''
                            @ product_venue_value (prd_product_venue m))
                         (Some product_id) (Some (prd_product_venue m))) w
               else ex c w))"

text \<open>The venue a guarded order would trade on, when the guard lets it through\<close>

definition guard_admits :: "venue_guard \<Rightarrow> action_command \<Rightarrow> bool" where
  "guard_admits g c \<longleftrightarrow>
     (\<exists>product_id m. pyval_text (cmd_payload c) ''product_id'' = Some product_id \<and>
        dict_get (vg_product_catalog g) product_id = Some m \<and>
        prd_product_venue m \<in> set (vg_allowed_venues g))"

lemma guarded_admitted:
  "cmd_action_type c = AT_PLACE_ORDER \<Longrightarrow> guard_admits g c \<Longrightarrow> guarded_executor g ex c w = ex c w"
  by (auto simp: guard_admits_def guarded_executor_def catalog_get_def)

lemma guarded_refused:
  assumes "cmd_action_type c = AT_PLACE_ORDER" and "\<not> guard_admits g c" and "cmd_action_id c \<noteq> []"
  shows "\<exists>x. guarded_executor g ex c w = (Inr (Some x), w) \<and> xr_status x = ES_REJECTED \<and>
     xr_action_id x = cmd_action_id c \<and> xr_error_category x = Some EC_ACTION_EXECUTOR"
proof -
  have "\<exists>x. rejected_by_guard (guard_rejection g c code message i v) w = (Inr (Some x), w) \<and>
      xr_status x = ES_REJECTED \<and> xr_action_id x = cmd_action_id c \<and> xr_error_category x = Some EC_ACTION_EXECUTOR"
    if "message \<noteq> []" for code message i v
  proof -
    have "error_code_value code \<noteq> []" by (cases code) auto
    then show ?thesis using that assms(3)
      by (simp add: rejected_by_guard_def guard_rejection_def new_execution_result_def text_present_def)
  qed
  then show ?thesis using assms(1,2)
    by (auto simp: guard_admits_def guarded_executor_def catalog_get_def split: option.splits)
qed

text \<open>
  C26. The venue guard lets an order reach the executor only for a product of the catalogue on an enabled
  venue; it refuses any other order itself, with a rejected result and without touching the world.
\<close>

theorem venue_guard_contains:
  assumes "cmd_action_type c = AT_PLACE_ORDER" and "cmd_action_id c \<noteq> []"
  shows "if guard_admits g c then guarded_executor g ex c w = ex c w
    else \<exists>x. guarded_executor g ex c w = (Inr (Some x), w) \<and> xr_status x = ES_REJECTED \<and>
           xr_action_id x = cmd_action_id c \<and> xr_error_category x = Some EC_ACTION_EXECUTOR"
  using assms by (simp add: guarded_admitted guarded_refused)

definition sample_guard :: venue_guard where
  "sample_guard = \<lparr>vg_allowed_venues = [PV_CBE], vg_mode = EM_LIVE,
                   vg_product_catalog = [(''ETH-PERP'', spot_product\<lparr>prd_product_venue := PV_INTX\<rparr>)]\<rparr>"

definition sample_place :: "string \<Rightarrow> action_command" where
  "sample_place product_id =
     \<lparr>cmd_action_id = ''a1'', cmd_action_type = AT_PLACE_ORDER,
      cmd_payload = PvMapping [(''product_id'', PvStr product_id)], cmd_requested_by = ''strategy'',
      cmd_idempotency_key = None\<rparr>"

theorem venue_guard_contains_witness:
  "\<exists>x. guarded_executor sample_guard (\<lambda>c w. (Inr None, w + 1)) (sample_place ''ETH-PERP'') (0 :: int)
     = (Inr (Some x), 0) \<and> xr_status x = ES_REJECTED"
proof -
  have "\<not> guard_admits sample_guard (sample_place ''ETH-PERP'')"
    by (simp add: guard_admits_def sample_guard_def sample_place_def pyval_text_def spot_product_def)
  with venue_guard_contains [of "sample_place ''ETH-PERP''" sample_guard "\<lambda>c w. (Inr None, w + 1)" "0 :: int"]
  show ?thesis by (auto simp: sample_place_def)
qed

end
