(* ===== verification/Exceptions.thy ===== *)
theory Exceptions
  imports Projection
begin

text \<open>
  Every exception the rebuilding of the state raises has a class name, so the gateway can always
  write it to the ledger: the error envelope falls back on the class name when the text is empty.
\<close>

named_theorems named_intros \<open>results whose exceptions have a class name\<close>

definition named :: "'a res \<Rightarrow> bool" where
  "named r \<longleftrightarrow> (\<forall>e. r = Inl e \<longrightarrow> exc_class e \<noteq> [])"

lemma named_basic [named_intros, simp]:
  "named (Inr x)" "exc_class e \<noteq> [] \<Longrightarrow> named (Inl e)"
  by (simp_all add: named_def)

lemma named_bind [named_intros]: "named r \<Longrightarrow> (\<And>x. named (f x)) \<Longrightarrow> named (res_bind r f)"
  by (cases r) (simp_all add: named_def)

lemma named_fold [named_intros]: "(\<And>x s. named (f x s)) \<Longrightarrow> named (res_fold f xs s)"
  by (induction xs arbitrary: s) (simp_all add: named_bind)

lemma named_control [named_intros]:
  "(b \<Longrightarrow> named r) \<Longrightarrow> (\<not> b \<Longrightarrow> named r') \<Longrightarrow> named (if b then r else r')"
  "(x = None \<Longrightarrow> named s) \<Longrightarrow> (\<And>y. named (f y)) \<Longrightarrow> named (case x of None \<Rightarrow> s | Some y \<Rightarrow> f y)"
  "(\<And>a b. named (g a b)) \<Longrightarrow> named (case p of (a, b) \<Rightarrow> g a b)"
  "(\<And>a. named (h a)) \<Longrightarrow> named (Let v h)"
  by (auto split: option.splits prod.splits)

subsection \<open>Decimals\<close>

lemma named_dec_fix [named_intros]: "named (dec_fix s c e)"
  by (simp add: dec_fix_def Let_def)

lemma named_compare [named_intros]: "named (dec_lt x y)" "named (dec_eq x y)"
  by (simp_all add: dec_lt_def dec_eq_def split: option.splits)

lemma named_with_numbers [named_intros]: "(\<And>x y. named (f x y)) \<Longrightarrow> named (with_numbers f x y)"
  by (simp add: with_numbers_def nan_operand_def)

lemma named_numbers [named_intros]:
  "named (mul_numbers x y)" "named (add_numbers x y)" "named (div_numbers x y)"
proof -
  show "named (mul_numbers x y)" by (cases "(x, y)" rule: mul_numbers.cases) (simp_all add: named_dec_fix)
  show "named (add_numbers x y)"
    by (cases "(x, y)" rule: add_numbers.cases) (simp_all add: named_dec_fix Let_def)
  show "named (div_numbers x y)"
    by (cases "(x, y)" rule: div_numbers.cases) (simp_all add: named_dec_fix Let_def split: prod.splits)
qed

lemma named_arithmetic [named_intros]:
  "named (dec_mul x y)" "named (dec_add x y)" "named (dec_sub x y)" "named (dec_div x y)"
  by (simp_all add: dec_mul_def dec_add_def dec_sub_def dec_div_def named_with_numbers named_numbers)

lemma named_decimal_string [named_intros]: "named (decimal_string d)"
proof -
  have "named (dec_normalize d)"
    by (cases d) (auto intro!: named_bind named_dec_fix split: pydec.splits prod.splits)
  then show ?thesis by (simp add: decimal_string_def named_bind)
qed

subsection \<open>Handlers\<close>

lemma named_float_or_none [named_intros]: "named (float_or_none j)"
  by (auto simp: float_or_none_def overflow_error_def split: json.splits pyreal.splits)

lemma named_best_price [named_intros]: "named (best_price side levels)"
proof -
  have "named (keep_better side x b)" for x b
    by (cases side) (auto simp: keep_better_def better_def intro!: named_intros)
  then show ?thesis by (auto simp: best_price_def intro!: named_intros split: list.splits)
qed

lemma named_sync [named_intros]: "named (sync_order_book_top b)"
  unfolding sync_order_book_top_def by (intro named_intros)

lemma named_update_level [named_intros]: "named (update_order_book_level side p q b)"
  unfolding update_order_book_level_def is_zero_quantity_def by (intro named_intros)

lemma named_copy_book [named_intros]: "named (copy_order_book_snapshot n b)"
proof -
  have "named (sort_levels side xs)" for side xs
    unfolding sort_levels_def by (intro named_intros) simp
  then have "named (retained_order_book_levels n side levels)" for side levels
    unfolding retained_order_book_levels_def by (intro named_intros)
  then show ?thesis unfolding copy_order_book_snapshot_def by (intro named_intros)
qed

lemma named_sample_book [named_intros]: "named (sample_book product_id pj)"
  unfolding sample_book_def append_order_book_sample_def by (intro named_intros)

lemma named_update_book [named_intros]: "named (update_book ctx event upd reset side price q b)"
  unfolding update_book_def reset_order_book_levels_def by (intro named_intros)

lemma named_book_update [named_intros]: "named (apply_book_update ctx event upd st)"
  unfolding apply_book_update_def by (intro named_intros)

lemma named_order_book [named_intros]: "named (apply_order_book_payloads raw ctx pj)"
  unfolding apply_order_book_payloads_def apply_book_event_def by (intro named_intros)

lemma named_market_data [named_intros]: "named (apply_accepted_market_data r p q pj)"
  unfolding apply_accepted_market_data_def by (intro named_intros)

lemma named_data [named_intros]: "named (apply_data r pj)"
  unfolding apply_data_def apply_accepted_feed_payload_def by (intro named_intros)

lemma named_fill_to_order [named_intros]: "named (apply_fill_to_order fill o1)"
  unfolding apply_fill_to_order_def fill_average_def by (intro named_intros)

lemma named_fill_position [named_intros]: "named (fill_position side sz n comm pos)"
  unfolding fill_position_def add_text_def sub_text_def
  by (cases side) (simp_all, (intro named_intros)+)

lemma named_fill_to_position [named_intros]: "named (apply_fill_to_position fill pj)"
  unfolding apply_fill_to_position_def
  by (auto intro!: named_intros split: option.splits)

lemma named_exchange_fill [named_intros]: "named (apply_exchange_fill r pj)"
  unfolding apply_exchange_fill_def by (intro named_intros)

lemma named_feed [named_intros]: "named (apply_feed r pj)"
proof -
  have "named (feed_event r p s)" for p s
    by (cases "rec_event_type r") (auto simp: feed_event_def intro!: named_intros)
  then show ?thesis unfolding apply_feed_def by (intro named_intros)
qed

lemma named_retry [named_intros]: "named (apply_exchange_request_retry r pj)"
  unfolding apply_exchange_request_retry_def
  by (auto simp: Let_def intro!: named_intros split: option.splits)

lemma named_apply_record: "named (apply_record r pj)"
  by (cases "rec_event_type r") (simp_all add: apply_record_def apply_event_def named_intros)

lemma named_verify: "named (verify_audit_records sha rs)"
proof -
  have "named (verify_audit_record sha r n line prev)" for r n line prev
    by (simp add: verify_audit_record_def ledger_corruption_def audit_integrity_error_def)
  then have "named (verify_from sha rs n prev)" for n prev
    by (induction rs arbitrary: n prev) (auto intro!: named_intros)
  then show ?thesis by (simp add: verify_audit_records_def)
qed

lemma named_projection: "named (project_ledger sha max_trades max_depth max_samples scope led)"
proof -
  have "named (iter_records sha led)"
    unfolding iter_records_def ledger_snapshot_def
    by (intro named_intros named_verify) (simp add: ledger_lock_error_def audit_integrity_error_def)
  moreover have "named (init_projection max_trades max_depth max_samples scope)"
    unfolding init_projection_def validate_optional_positive_int_def validate_positive_int_def validate_string_scope_def
    by (intro named_intros) simp_all
  ultimately show ?thesis unfolding project_ledger_def by (intro named_bind named_fold named_apply_record)
qed

end
