(* ===== verification/Judgements.thy ===== *)
theory Judgements
  imports Exceptions Engine
begin

text \<open>
  How the components that write to the ledger are reasoned about: a program of the audit core writes a list
  of events and returns, or raises after writing them; the same for programs of a component that holds
  the core beside a state of its own.
\<close>

subsection \<open>Emitting an object\<close>

definition emit_object :: "event_type \<Rightarrow> payload \<Rightarrow> (core, audit_record) prog" where
  "emit_object et p = core_emit et (PvJson (JObj p))"

text \<open>A step on the ledger, beside the state of a component or of the outside world\<close>

definition on_core :: "(core, 'a) prog \<Rightarrow> (core \<times> 'w, 'a) prog" where
  "on_core m s = (case m (fst s) of (r, c) \<Rightarrow> (r, (c, snd s)))"

lemma on_core_world: "on_core m (c, w) = (x, (c', w')) \<longleftrightarrow> m c = (x, c') \<and> w' = w"
  by (auto simp: on_core_def split: prod.splits)

subsection \<open>What a program writes\<close>

text \<open>
  The program returns \<open>x\<close>, keeps the core usable and writes exactly the events \<open>es\<close>, among records of
  hooks and triggers.
\<close>

definition writes :: "(core, 'a) prog \<Rightarrow> core \<Rightarrow> 'a \<Rightarrow> (event_type \<times> payload) list \<Rightarrow> core \<Rightarrow> bool" where
  "writes m c x es c' \<longleftrightarrow> m c = (Inr x, c') \<and> core_ok c' \<and>
     (\<exists>new. core_records c' = core_records c @ new \<and> event_sink.facts es new)"

lemma writes_return: "core_ok c \<Longrightarrow> writes (prog_return x) c x [] c"
  by (auto simp: writes_def prog_return_def intro: event_sink.facts.facts_nil [OF core_sink.event_sink_axioms])

lemma writes_bind:
  assumes "writes m c x es c1" and "writes (f x) c1 y es' c2"
  shows "writes (prog_bind m f) c y (es @ es') c2"
proof -
  from assms obtain new new' where "core_records c1 = core_records c @ new" "event_sink.facts es new"
    "core_records c2 = core_records c1 @ new'" "event_sink.facts es' new'"
    by (auto simp: writes_def)
  then have "core_records c2 = core_records c @ new @ new'" "event_sink.facts (es @ es') (new @ new')"
    by (simp_all add: core_sink.facts_append)
  with assms show ?thesis unfolding writes_def by (auto simp: prog_bind_def)
qed

lemma writes_bind_lift: "r = Inr x \<Longrightarrow> writes (f x) c y es c' \<Longrightarrow> writes (prog_bind (prog_lift r) f) c y es c'"
  by (simp add: writes_def prog_bind_def prog_lift_def)

lemma writes_bind_state:
  "(\<lambda>c. (g c, c)) c = (Inr x, c) \<Longrightarrow> writes (f x) c y es c' \<Longrightarrow> writes (prog_bind (\<lambda>c. (g c, c)) f) c y es c'"
  by (simp add: writes_def prog_bind_def)

lemma emit_object_writes:
  assumes "core_ok c"
  obtains r c' where "writes (emit_object et p) c r [(et, p)] c'" and "rec_event_type r = et"
    and "rec_payload r = JObj p"
proof -
  have "normalize_json (PvJson (JObj p)) = Inr (JObj p)" by simp
  from core_sink.emit_fact [OF assms this, of et] that show thesis
    by (auto simp: writes_def emit_object_def)
qed

lemma writes_ok: "writes m c x es c' \<Longrightarrow> core_ok c'"
  by (simp add: writes_def)

text \<open>An emission followed by a program that ends in every usable core\<close>

lemma emit_then_writes:
  assumes "core_ok c"
    and "\<And>r c1. core_ok c1 \<Longrightarrow> rec_payload r = JObj p \<Longrightarrow> \<exists>x c'. writes (f r) c1 x es c' \<and> P x"
  shows "\<exists>x c'. writes (prog_bind (emit_object et p) f) c x ((et, p) # es) c' \<and> P x"
proof -
  obtain r c1 where r: "writes (emit_object et p) c r [(et, p)] c1" "rec_payload r = JObj p"
    using emit_object_writes [OF assms(1)] by blast
  then obtain x c' where "writes (f r) c1 x es c'" "P x"
    using assms(2) [OF writes_ok [OF r(1)] r(2)] by blast
  with writes_bind [where f = f, OF r(1) this(1)] show ?thesis by auto
qed

subsection \<open>Programs that end by returning or by raising\<close>

definition raises :: "(core, 'a) prog \<Rightarrow> core \<Rightarrow> pyexc \<Rightarrow> (event_type \<times> payload) list \<Rightarrow> core \<Rightarrow> bool" where
  "raises m c e es c' \<longleftrightarrow> m c = (Inl e, c') \<and> core_ok c' \<and> exc_class e \<noteq> [] \<and>
     (\<exists>new. core_records c' = core_records c @ new \<and> event_sink.facts es new)"

definition settles ::
  "(core, 'a) prog \<Rightarrow> core \<Rightarrow> ('a \<Rightarrow> event_type list \<Rightarrow> bool) \<Rightarrow> (event_type list \<Rightarrow> bool) \<Rightarrow> bool" where
  "settles m c P Q \<longleftrightarrow>
     (\<exists>x es c'. writes m c x es c' \<and> P x (map fst es)) \<or> (\<exists>e es c'. raises m c e es c' \<and> Q (map fst es))"

lemma settles_return: "core_ok c \<Longrightarrow> P x [] \<Longrightarrow> settles (prog_return x) c P Q"
  unfolding settles_def by (rule disjI1) (intro exI conjI, erule writes_return, simp)

lemma settles_raise: "core_ok c \<Longrightarrow> Q [] \<Longrightarrow> exc_class e \<noteq> [] \<Longrightarrow> settles (prog_raise e) c P Q"
  unfolding settles_def raises_def prog_raise_def
  by (rule disjI2, rule exI [of _ e], rule exI [of _ "[]"], rule exI [of _ c])
    (auto intro: event_sink.facts.facts_nil [OF core_sink.event_sink_axioms])

lemma settles_lift:
  assumes "core_ok c" and "named r" and "Q []" and "\<And>x. r = Inr x \<Longrightarrow> settles (f x) c P Q"
  shows "settles (prog_bind (prog_lift r) f) c P Q"
proof (cases r)
  case (Inl e)
  then have "settles (prog_raise e :: (core, 'b) prog) c P Q"
    using assms(2) by (intro settles_raise assms(1,3)) (auto simp: named_def)
  then show ?thesis by (simp add: settles_def writes_def raises_def prog_bind_def prog_lift_def prog_raise_def Inl)
next
  case (Inr x)
  with assms(4) show ?thesis by (simp add: settles_def writes_def raises_def prog_bind_def prog_lift_def)
qed

lemma settles_read:
  assumes "core_ok c" and "named (g c)" and "Q []" and "\<And>x. g c = Inr x \<Longrightarrow> settles (f x) c P Q"
  shows "settles (prog_bind (\<lambda>c. (g c, c)) f) c P Q"
  using settles_lift [where r = "g c" and f = f and P = P and Q = Q, OF assms]
  by (simp add: settles_def writes_def raises_def prog_bind_def prog_lift_def)

lemma settles_bind:
  assumes "writes m c x es c1" and "settles (f x) c1 (\<lambda>y es'. P y (map fst es @ es')) (\<lambda>es'. Q (map fst es @ es'))"
  shows "settles (prog_bind m f) c P Q"
  using assms(2) unfolding settles_def
proof (elim disjE exE conjE)
  fix y es' c2
  assume w: "writes (f x) c1 y es' c2" and "P y (map fst es @ map fst es')"
  then show "(\<exists>x es c'. writes (prog_bind m f) c x es c' \<and> P x (map fst es)) \<or>
      (\<exists>e es c'. raises (prog_bind m f) c e es c' \<and> Q (map fst es))"
    using writes_bind [where f = f, OF assms(1) w] by (metis map_append)
next
  fix e es' c2
  assume w: "raises (f x) c1 e es' c2" and q: "Q (map fst es @ map fst es')"
  from w assms(1) obtain new new' where "core_records c1 = core_records c @ new" "event_sink.facts es new"
    "core_records c2 = core_records c1 @ new'" "event_sink.facts es' new'"
    by (auto simp: writes_def raises_def)
  then have "core_records c2 = core_records c @ new @ new'" "event_sink.facts (es @ es') (new @ new')"
    by (simp_all add: core_sink.facts_append)
  with w assms(1) have "raises (prog_bind m f) c e (es @ es') c2"
    unfolding raises_def writes_def by (auto simp: prog_bind_def)
  with q show "(\<exists>x es c'. writes (prog_bind m f) c x es c' \<and> P x (map fst es)) \<or>
      (\<exists>e es c'. raises (prog_bind m f) c e es c' \<and> Q (map fst es))"
    by (metis map_append)
qed

lemma settles_emit:
  assumes "core_ok c"
    and "\<And>r c1. core_ok c1 \<Longrightarrow> settles (f r) c1 (\<lambda>y es. P y (et # es)) (\<lambda>es. Q (et # es))"
  shows "settles (prog_bind (emit_object et p) f) c P Q"
proof -
  obtain r c1 where r: "writes (emit_object et p) c r [(et, p)] c1" using emit_object_writes [OF assms(1)] by blast
  from assms(2) [OF writes_ok [OF r]] show ?thesis by (intro settles_bind [OF r]) simp
qed

lemma settles_mono:
  "settles m c P Q \<Longrightarrow> (\<And>x es. P x es \<Longrightarrow> P' x es) \<Longrightarrow> (\<And>es. Q es \<Longrightarrow> Q' es) \<Longrightarrow> settles m c P' Q'"
  unfolding settles_def by blast

text \<open>A sequence whose first part returns nothing of interest\<close>

lemma settles_then:
  assumes "settles m c (\<lambda>_. P1) Q" and "\<And>c1 x es. core_ok c1 \<Longrightarrow> P1 es \<Longrightarrow>
      settles (f x) c1 (\<lambda>y es'. P y (es @ es')) (\<lambda>es'. Q (es @ es'))"
  shows "settles (prog_bind m f) c P Q"
  using assms(1) unfolding settles_def [of m]
proof (elim disjE exE conjE)
  fix x es c1 assume w: "writes m c x es c1" and "P1 (map fst es)"
  with assms(2) [OF writes_ok [OF w]] show ?thesis by (intro settles_bind [OF w])
next
  fix e es c1 assume "raises m c e es c1" and "Q (map fst es)"
  moreover from this have "raises (prog_bind m f) c e es c1" by (simp add: raises_def prog_bind_def)
  ultimately show ?thesis unfolding settles_def by blast
qed

definition extends_ledger :: "core \<Rightarrow> (event_type \<times> payload) list \<Rightarrow> core \<Rightarrow> bool" where
  "extends_ledger c es c' \<longleftrightarrow> core_ok c' \<and>
     (\<exists>new. core_records c' = core_records c @ new \<and> event_sink.facts es new)"

lemma writes_extends: "writes m c x es c' \<longleftrightarrow> m c = (Inr x, c') \<and> extends_ledger c es c'"
  by (simp add: writes_def extends_ledger_def)

lemma raises_extends: "raises m c e es c' \<longleftrightarrow> m c = (Inl e, c') \<and> exc_class e \<noteq> [] \<and> extends_ledger c es c'"
  by (auto simp: raises_def extends_ledger_def)

lemma extends_ledger_trans:
  assumes "extends_ledger c es c1" and "extends_ledger c1 es' c2"
  shows "extends_ledger c (es @ es') c2"
proof -
  from assms obtain new new' where "core_records c1 = core_records c @ new" "event_sink.facts es new"
    "core_records c2 = core_records c1 @ new'" "event_sink.facts es' new'"
    by (auto simp: extends_ledger_def)
  then have "core_records c2 = core_records c @ new @ new'" "event_sink.facts (es @ es') (new @ new')"
    by (simp_all add: core_sink.facts_append)
  with assms(2) show ?thesis unfolding extends_ledger_def by blast
qed

subsection \<open>Names of the exceptions of JSON\<close>

lemma named_normalize [named_intros]: "named (normalize_json v)"
proof -
  have items: "named (collect_items rs)" if "\<forall>r \<in> snd ` set rs. named r" for rs
    using that by (induction rs rule: collect_items.induct) (auto intro!: named_bind)
  have texts: "named (collect_list rs)" if "\<forall>r \<in> set rs. named r" for rs
    using that by (induction rs rule: collect_list.induct) (auto intro!: named_bind)
  show ?thesis by (induction v) (auto intro!: named_bind items texts)
qed

subsection \<open>A sample\<close>

text \<open>A core with an empty ledger and the least digest, to evaluate the theorems on\<close>

definition sample_core :: core where
  "sample_core = (empty_core (\<lambda>_. []) None)
     \<lparr>core_env := \<lparr>env_digest = (\<lambda>s. []), env_clock = int, env_reads = 0, env_uuid = nat_to_str, env_uuids = 0\<rparr>\<rparr>"

lemma sample_core_ok: "core_ok sample_core"
  by (simp add: sample_core_def core_ok_def empty_core_def)

end
