(* ===== verification/Gateway.thy ===== *)
theory Gateway
  imports Risk Execution Judgements
begin

text \<open>
  \<^verbatim>\<open>actions/gateway.py\<close>: every command is written to the ledger when it is requested, validated
  against the state rebuilt from the ledger, checked by the risk gate, and written as accepted or
  rejected; only an accepted command that is not staged reaches the executor, and its outcome is
  written too. The wall clock the risk gate falls back to is an argument.
\<close>

subsection \<open>Validation of a command\<close>

definition non_empty_string :: "json \<Rightarrow> bool" where
  "non_empty_string j = (string_or_none j \<noteq> None)"

definition missing_fields :: "payload \<Rightarrow> string list" where
  "missing_fields p =
     map (\<lambda>k. k @ '' is required'')
       (filter (\<lambda>k. \<not> non_empty_string (jget p k)) [''product_id'', ''side'', ''order_type'', ''size''])"

definition is_bool_or_absent :: "json \<Rightarrow> bool" where
  "is_bool_or_absent j = (case j of JNull \<Rightarrow> True | JBool b \<Rightarrow> True | _ \<Rightarrow> False)"

definition error_when :: "bool \<Rightarrow> string \<Rightarrow> string list" where
  "error_when b message = (if b then [message] else [])"

definition validate_place_order_payload :: "payload \<Rightarrow> string list" where
  "validate_place_order_payload p =
     (let ot = enum_or_none order_type_of (jget p ''order_type'') in
      missing_fields p
      @ error_when (enum_or_none order_side_of (jget p ''side'') = None) ''side is invalid''
      @ error_when (ot = None) ''order_type is invalid''
      @ error_when (ot = Some OT_LIMIT \<and> \<not> non_empty_string (jget p ''limit_price''))
          ''limit_price is required for limit orders''
      @ error_when (enum_or_none time_in_force_of (jget p ''time_in_force'') = None) ''time_in_force is invalid''
      @ error_when (case jget p ''metadata'' of JNull \<Rightarrow> False | JObj kvs \<Rightarrow> False | _ \<Rightarrow> True)
          ''metadata must be a JSON object''
      @ error_when (jget p ''margin_type'' \<noteq> JNull \<and> enum_or_none margin_type_of (jget p ''margin_type'') = None)
          ''margin_type is invalid''
      @ error_when (\<not> is_bool_or_absent (jget p ''post_only'')) ''post_only must be a bool''
      @ error_when (\<not> is_bool_or_absent (jget p ''reduce_only'')) ''reduce_only must be a bool'')"

definition positive_decimal_string :: "json \<Rightarrow> bool" where
  "positive_decimal_string j =
     (case string_or_none j of
        None \<Rightarrow> False
      | Some s \<Rightarrow> (case dec_parse s of None \<Rightarrow> False | Some d \<Rightarrow> positive_decimal d))"

definition optional_string_is_invalid :: "json \<Rightarrow> bool" where
  "optional_string_is_invalid j = (j \<noteq> JNull \<and> \<not> non_empty_string j)"

definition source_order_ids_or_none :: "json \<Rightarrow> string list option" where
  "source_order_ids_or_none j =
     (case j of
        JNull \<Rightarrow> Some []
      | JList js \<Rightarrow>
          let ids = List.map_filter string_or_none js in
          if length ids = length js \<and> distinct ids then Some ids else None
      | _ \<Rightarrow> None)"

definition source_order_ids :: "payload \<Rightarrow> string list" where
  "source_order_ids p = (case source_order_ids_or_none (jget p ''source_order_ids'') of None \<Rightarrow> [] | Some ids \<Rightarrow> ids)"

definition logical_order_id_of :: "action_command \<Rightarrow> payload \<Rightarrow> string" where
  "logical_order_id_of c p =
     (case string_or_none (jget p ''logical_order_id'') of None \<Rightarrow> cmd_action_id c | Some i \<Rightarrow> i)"

text \<open>
  \<^verbatim>\<open>str(payload[key])\<close>. A validated payload holds a text there; of the other values only the simple ones
  have their text here.
\<close>

definition payload_str :: "payload \<Rightarrow> string \<Rightarrow> string res" where
  "payload_str p k =
     (case dict_get p k of
        None \<Rightarrow> Inl (key_error (CHR 0x27 # k @ [CHR 0x27]))
      | Some j \<Rightarrow> Inr (case j of JStr s \<Rightarrow> s | JNull \<Rightarrow> ''None'' | JBool b \<Rightarrow> if b then ''True'' else ''False''
                            | JInt i \<Rightarrow> int_to_str i | JFloat f \<Rightarrow> float_repr f | _ \<Rightarrow> []))"

definition order_side_value_of :: "string \<Rightarrow> order_side res" where
  "order_side_value_of s =
     (case order_side_of s of
        None \<Rightarrow> Inl (value_error (CHR 0x27 # s @ CHR 0x27 # '' is not a valid OrderSide''))
      | Some side \<Rightarrow> Inr side)"

definition logical_order_of_command ::
  "action_command \<Rightarrow> payload \<Rightarrow> pyval \<Rightarrow> logical_order_record res" where
  "logical_order_of_command c p md =
     res_bind (payload_str p ''product_id'') (\<lambda>product_id.
     res_bind (res_bind (payload_str p ''side'') order_side_value_of) (\<lambda>side.
     res_bind (payload_str p ''size'') (\<lambda>sz.
     new_logical_order
       \<lparr>lor_logical_order_id = logical_order_id_of c p, lor_product_id = product_id, lor_side = side,
        lor_size = sz, lor_lineage_relation = payload_lineage_relation p,
        lor_root_order_id = string_or_none (jget p ''root_order_id''),
        lor_parent_order_id = string_or_none (jget p ''parent_order_id''),
        lor_source_order_ids = source_order_ids p,
        lor_limit_price = string_or_none (jget p ''limit_price''),
        lor_created_by_action_id = Some (cmd_action_id c), lor_metadata = md\<rparr>)))"

text \<open>\<^verbatim>\<open>except (TypeError, ValueError) as exc\<close>\<close>

definition is_type_or_value_error :: "pyexc \<Rightarrow> bool" where
  "is_type_or_value_error e = (exc_class e = ''TypeError'' \<or> exc_class e = ''ValueError'')"

definition field_errors :: "payload \<Rightarrow> string list" where
  "field_errors p =
     error_when (\<not> positive_decimal_string (jget p ''size'')) ''size must be a positive decimal string''
     @ error_when (jget p ''limit_price'' \<noteq> JNull \<and> \<not> positive_decimal_string (jget p ''limit_price''))
         ''limit_price must be a positive decimal string''
     @ error_when (optional_string_is_invalid (jget p ''logical_order_id''))
         ''logical_order_id must be a non-empty string''
     @ error_when (optional_string_is_invalid (jget p ''root_order_id''))
         ''root_order_id must be a non-empty string''
     @ error_when (optional_string_is_invalid (jget p ''parent_order_id''))
         ''parent_order_id must be a non-empty string''
     @ error_when (jget p ''lineage_relation'' \<noteq> JNull
           \<and> enum_or_none order_lineage_relation_of (jget p ''lineage_relation'') = None)
         ''lineage_relation is invalid''
     @ error_when (jget p ''placement_kind'' \<noteq> JNull
           \<and> enum_or_none order_placement_kind_of (jget p ''placement_kind'') = None)
         ''placement_kind is invalid''
     @ error_when (source_order_ids_or_none (jget p ''source_order_ids'') = None)
         ''source_order_ids must be a list of unique non-empty strings''"

definition existing_order_errors :: "payload \<Rightarrow> logical_order_snapshot \<Rightarrow> string list" where
  "existing_order_errors p lo =
     error_when (payload_placement_kind p \<notin> {OPK_AMEND, OPK_CANCEL_REPLACE, OPK_RELEASE, OPK_STAGED_RELEASE})
       ''existing logical_order_id requires amend, cancel_replace, release, or staged_release placement_kind''
     @ error_when (jget p ''product_id'' \<noteq> JStr (lo_product_id lo)) ''product_id must match existing logical_order_id''
     @ error_when (jget p ''side'' \<noteq> JStr (order_side_value (lo_side lo))) ''side must match existing logical_order_id''"

definition child_order_errors :: "payload \<Rightarrow> projection \<Rightarrow> string list" where
  "child_order_errors p pj =
     (let orders = pj_logical_orders_by_id pj;
          relation = payload_lineage_relation p;
          parent = dict_get orders (case string_or_none (jget p ''parent_order_id'') of None \<Rightarrow> [] | Some i \<Rightarrow> i) in
      error_when (parent = None) ''parent_order_id must reference an existing logical order''
      @ error_when (case string_or_none (jget p ''root_order_id'') of None \<Rightarrow> True | Some i \<Rightarrow> \<not> dict_has orders i)
          ''root_order_id must reference an existing logical order''
      @ error_when (list_ex (\<lambda>i. \<not> dict_has orders i) (source_order_ids p))
          ''source_order_ids must reference existing logical orders''
      @ (case parent of
           None \<Rightarrow> []
         | Some lo \<Rightarrow>
             error_when (jget p ''product_id'' \<noteq> JStr (lo_product_id lo)) ''product_id must match parent_order_id''
             @ error_when (relation = OLR_FOLLOWUP_AFTER_FILL \<and> jget p ''side'' = JStr (order_side_value (lo_side lo)))
                 ''followup_after_fill side must be opposite parent side''
             @ error_when (relation = OLR_SPLIT_CHILD \<and> jget p ''side'' \<noteq> JStr (order_side_value (lo_side lo)))
                 ''split_child side must match parent side''))"

definition consolidation_errors :: "payload \<Rightarrow> projection \<Rightarrow> string list" where
  "consolidation_errors p pj =
     (let orders = pj_logical_orders_by_id pj in
      error_when (list_ex (\<lambda>i. \<not> dict_has orders i) (source_order_ids p))
        ''source_order_ids must reference existing logical orders''
      @ concat (map (\<lambda>i. case dict_get orders i of
            None \<Rightarrow> []
          | Some lo \<Rightarrow>
              error_when (jget p ''product_id'' \<noteq> JStr (lo_product_id lo)) ''product_id must match source_order_ids''
              @ error_when (jget p ''side'' \<noteq> JStr (order_side_value (lo_side lo))) ''side must match source_order_ids'')
          (source_order_ids p)))"

definition validate_place_order_lineage ::
  "action_command \<Rightarrow> payload \<Rightarrow> projection \<Rightarrow> string list res" where
  "validate_place_order_lineage c p pj =
     (if field_errors p \<noteq> [] then Inr (field_errors p)
      else case dict_get (pj_logical_orders_by_id pj) (logical_order_id_of c p) of
        Some lo \<Rightarrow> Inr (existing_order_errors p lo)
      | None \<Rightarrow>
          let errors = error_when (payload_placement_kind p \<in> {OPK_AMEND, OPK_CANCEL_REPLACE, OPK_RELEASE})
                ''amend, cancel_replace, and release placement_kind require an existing logical_order_id'' in
          (case logical_order_of_command c p (PvMapping []) of
             Inl e \<Rightarrow> if is_type_or_value_error e then Inr (errors @ [exc_message e]) else Inl e
           | Inr lo \<Rightarrow>
               let relation = payload_lineage_relation p in
               Inr (errors
                    @ (if relation = OLR_FOLLOWUP_AFTER_FILL \<or> relation = OLR_SPLIT_CHILD
                       then child_order_errors p pj else [])
                    @ (if relation = OLR_CONSOLIDATION then consolidation_errors p pj else []))))"

definition validate_cancel_order_payload :: "payload \<Rightarrow> (action_rejection_reason \<times> string list) option" where
  "validate_cancel_order_payload p =
     (if non_empty_string (jget p ''exchange_order_id'') \<or> non_empty_string (jget p ''client_order_id'') then None
      else Some (ARR_VALIDATION_FAILED, [''exchange_order_id or client_order_id is required'']))"

definition owner_of_order :: "projection \<Rightarrow> nat option \<Rightarrow> string option" where
  "owner_of_order pj oi = map_option (\<lambda>i. ord_action_id (order_at pj i)) oi"

text \<open>\<^verbatim>\<open>ActionGateway._validate\<close>: \<open>None\<close> when the command is valid\<close>

definition gateway_validate ::
  "action_command \<Rightarrow> projection \<Rightarrow> (action_rejection_reason \<times> string list) option res" where
  "gateway_validate c pj =
     (if dict_has (pj_actions pj) (cmd_action_id c)
      then Inr (Some (ARR_DUPLICATE_ACTION_ID, [''action_id already exists'']))
      else
        res_bind (command_inner_payload c) (\<lambda>p. case cmd_action_type c of
          AT_CANCEL_ORDER \<Rightarrow> Inr (validate_cancel_order_payload p)
        | AT_PLACE_ORDER \<Rightarrow>
            if validate_place_order_payload p \<noteq> []
            then Inr (Some (ARR_VALIDATION_FAILED, validate_place_order_payload p))
            else
              res_bind (validate_place_order_lineage c p pj) (\<lambda>errors.
                if errors \<noteq> [] then Inr (Some (ARR_VALIDATION_FAILED, errors))
                else
                  (case owner_of_order pj (dict_get (pj_orders_by_client_order_id pj) (client_order_id_of c)) of
                     None \<Rightarrow> Inr None
                   | Some owner \<Rightarrow>
                       if owner = cmd_action_id c then Inr None
                       else Inr (Some (ARR_DUPLICATE_ORDER_IDENTITY,
                              [''client_order_id already belongs to action_id '' @ owner]))))))"

subsection \<open>Decisions\<close>

record action_receipt =
  rcp_action_id :: string
  rcp_action_type :: action_type
  rcp_status :: action_status
  rcp_requested_sequence :: int
  rcp_decision_sequence :: int
  rcp_failure_reason :: "action_failure_reason option"
  rcp_rejection_reason :: "action_rejection_reason option"
  rcp_message :: "string option"

record action_preview =
  prv_action_id :: string
  prv_action_type :: action_type
  prv_status :: action_status
  prv_rejection_reason :: "action_rejection_reason option"
  prv_validation_errors :: "string list"
  prv_risk_evaluation :: "risk_evaluation option"

definition evaluate_risk ::
  "risk_policy option \<Rightarrow> action_command \<Rightarrow> projection \<Rightarrow> datetime \<Rightarrow> risk_evaluation res" where
  "evaluate_risk policy c pj wall =
     (case policy of
        None \<Rightarrow> Inr \<lparr>rev_status = RCS_PASS, rev_checks = []\<rparr>
      | Some rp \<Rightarrow> risk_evaluate rp c pj None wall)"

definition gateway_projection :: "core \<Rightarrow> projection res" where
  "gateway_projection c = project_ledger (core_digest c) None None 1 [] (core_ledger c)"

text \<open>\<^verbatim>\<open>ActionGateway.preview\<close>: the decision without writing anything\<close>

definition gateway_preview ::
  "risk_policy option \<Rightarrow> datetime \<Rightarrow> projection option \<Rightarrow> action_command \<Rightarrow> core \<Rightarrow> action_preview res" where
  "gateway_preview policy wall given cmd c =
     res_bind (case given of None \<Rightarrow> gateway_projection c | Some pj \<Rightarrow> Inr pj) (\<lambda>pj.
     res_bind (gateway_validate cmd pj) (\<lambda>verdict. case verdict of
        Some (reason, errors) \<Rightarrow> Inr
          \<lparr>prv_action_id = cmd_action_id cmd, prv_action_type = cmd_action_type cmd, prv_status = AS_REJECTED,
           prv_rejection_reason = Some reason, prv_validation_errors = errors, prv_risk_evaluation = None\<rparr>
      | None \<Rightarrow>
          res_bind (evaluate_risk policy cmd pj wall) (\<lambda>e.
            if \<not> risk_passed e
            then Inr \<lparr>prv_action_id = cmd_action_id cmd, prv_action_type = cmd_action_type cmd,
                      prv_status = AS_REJECTED, prv_rejection_reason = Some ARR_RISK_CHECK_FAILED,
                      prv_validation_errors = failure_messages e, prv_risk_evaluation = Some e\<rparr>
            else Inr \<lparr>prv_action_id = cmd_action_id cmd, prv_action_type = cmd_action_type cmd,
                      prv_status = AS_ACCEPTED, prv_rejection_reason = None, prv_validation_errors = [],
                      prv_risk_evaluation = Some e\<rparr>)))"

subsection \<open>Submission\<close>

definition rejection_payload ::
  "action_command \<Rightarrow> int \<Rightarrow> action_rejection_reason \<Rightarrow> string list \<Rightarrow> risk_evaluation option \<Rightarrow> payload" where
  "rejection_payload cmd requested reason errors risk =
     [(''action_id'', JStr (cmd_action_id cmd)),
      (''action_type'', JStr (action_type_value (cmd_action_type cmd))),
      (''rejection_reason'', JStr (action_rejection_reason_value reason)),
      (''requested_sequence'', JInt requested),
      (''risk_evaluation'', case risk of None \<Rightarrow> JNull | Some e \<Rightarrow> JObj (risk_evaluation_payload e)),
      (''validation_errors'', JList (map JStr errors))]"

definition gateway_reject ::
  "action_command \<Rightarrow> int \<Rightarrow> action_rejection_reason \<Rightarrow> string list \<Rightarrow> risk_evaluation option \<Rightarrow>
   (core, action_receipt) prog" where
  "gateway_reject cmd requested reason errors risk =
     prog_bind (emit_object ET_ACTION_REJECTED (rejection_payload cmd requested reason errors risk))
       (\<lambda>r. prog_return
         \<lparr>rcp_action_id = cmd_action_id cmd, rcp_action_type = cmd_action_type cmd, rcp_status = AS_REJECTED,
          rcp_requested_sequence = requested, rcp_decision_sequence = rec_sequence r,
          rcp_failure_reason = None, rcp_rejection_reason = Some reason,
          rcp_message = (if errors = [] then None else Some (str_join ''; '' errors))\<rparr>)"

definition payload_metadata :: "payload \<Rightarrow> pyval" where
  "payload_metadata p = PvJson (JObj (payload_dict (jget p ''metadata'')))"

definition emit_logical_order_created :: "action_command \<Rightarrow> projection \<Rightarrow> (core, unit) prog" where
  "emit_logical_order_created cmd pj =
     (if cmd_action_type cmd \<noteq> AT_PLACE_ORDER then prog_return ()
      else
        prog_bind (prog_lift (command_inner_payload cmd)) (\<lambda>p.
          if dict_has (pj_logical_orders_by_id pj) (logical_order_id_of cmd p) then prog_return ()
          else
            prog_bind (prog_lift (res_bind (logical_order_of_command cmd p (payload_metadata p))
                                    logical_order_payload)) (\<lambda>lop.
            prog_bind (emit_object ET_ORDER_LOGICAL_CREATED lop) (\<lambda>_. prog_return ()))))"

definition placement_of_command ::
  "action_command \<Rightarrow> payload \<Rightarrow> order_placement_kind \<Rightarrow> order_placement_status \<Rightarrow> string option \<Rightarrow>
   string option \<Rightarrow> order_placement_record res" where
  "placement_of_command cmd p kind status client exchange =
     res_bind (payload_str p ''product_id'') (\<lambda>product_id.
     res_bind (res_bind (payload_str p ''side'') order_side_value_of) (\<lambda>side.
     res_bind (payload_str p ''size'') (\<lambda>sz.
     new_order_placement
       \<lparr>opr_placement_id = cmd_action_id cmd, opr_logical_order_id = logical_order_id_of cmd p,
        opr_placement_kind = kind, opr_placement_status = status, opr_product_id = product_id,
        opr_side = side, opr_size = sz, opr_limit_price = string_or_none (jget p ''limit_price''),
        opr_action_id = Some (cmd_action_id cmd), opr_venue_client_order_id = client,
        opr_exchange_order_id = exchange, opr_metadata = payload_metadata p\<rparr>)))"

definition emit_placement :: "order_placement_record res \<Rightarrow> (core, unit) prog" where
  "emit_placement plc =
     prog_bind (prog_lift (res_bind plc order_placement_payload)) (\<lambda>pp.
     prog_bind (emit_object ET_ORDER_PLACEMENT_RECORDED pp) (\<lambda>_. prog_return ()))"

definition is_staged_release :: "action_command \<Rightarrow> bool res" where
  "is_staged_release cmd =
     (if cmd_action_type cmd \<noteq> AT_PLACE_ORDER then Inr False
      else res_bind (command_inner_payload cmd) (\<lambda>p. Inr (payload_placement_kind p = OPK_STAGED_RELEASE)))"

definition emit_staged_order_placement_recorded :: "action_command \<Rightarrow> (core, unit) prog" where
  "emit_staged_order_placement_recorded cmd =
     prog_bind (prog_lift (is_staged_release cmd)) (\<lambda>staged.
       if \<not> staged then prog_return ()
       else
         prog_bind (prog_lift (command_inner_payload cmd)) (\<lambda>p.
           emit_placement (placement_of_command cmd p OPK_STAGED_RELEASE OPS_STAGED None None)))"

definition emit_order_placement_recorded :: "action_command \<Rightarrow> execution_result \<Rightarrow> (core, unit) prog" where
  "emit_order_placement_recorded cmd x =
     (if cmd_action_type cmd \<noteq> AT_PLACE_ORDER \<or> xr_status x \<noteq> ES_ACCEPTED then prog_return ()
      else
        prog_bind (prog_lift (command_inner_payload cmd)) (\<lambda>p.
          emit_placement (placement_of_command cmd p (payload_placement_kind p) OPS_ACCEPTED
                            (xr_client_order_id x) (xr_exchange_order_id x))))"

definition acceptance_payload :: "action_command \<Rightarrow> int \<Rightarrow> risk_evaluation \<Rightarrow> payload" where
  "acceptance_payload cmd requested e =
     [(''action_id'', JStr (cmd_action_id cmd)),
      (''action_type'', JStr (action_type_value (cmd_action_type cmd))),
      (''requested_sequence'', JInt requested),
      (''risk_evaluation'', JObj (risk_evaluation_payload e))]"

definition gateway_accept ::
  "action_command \<Rightarrow> projection \<Rightarrow> int \<Rightarrow> risk_evaluation \<Rightarrow> (core, action_receipt) prog" where
  "gateway_accept cmd pj requested e =
     prog_bind (emit_object ET_ACTION_ACCEPTED (acceptance_payload cmd requested e)) (\<lambda>r.
     prog_bind (emit_logical_order_created cmd pj) (\<lambda>_.
     prog_bind (emit_staged_order_placement_recorded cmd) (\<lambda>_.
     prog_return
       \<lparr>rcp_action_id = cmd_action_id cmd, rcp_action_type = cmd_action_type cmd, rcp_status = AS_ACCEPTED,
        rcp_requested_sequence = requested, rcp_decision_sequence = rec_sequence r,
        rcp_failure_reason = None, rcp_rejection_reason = None, rcp_message = None\<rparr>)))"

text \<open>\<^verbatim>\<open>ActionGateway.submit\<close>; \<open>gateway_decide\<close> is its part after the validation.\<close>

definition gateway_decide ::
  "risk_policy option \<Rightarrow> datetime \<Rightarrow> action_command \<Rightarrow> projection \<Rightarrow> int \<Rightarrow>
   (action_rejection_reason \<times> string list) option \<Rightarrow> (core, action_receipt) prog" where
  "gateway_decide policy wall cmd pj requested verdict =
     (case verdict of
        Some (reason, errors) \<Rightarrow> gateway_reject cmd requested reason errors None
      | None \<Rightarrow>
          prog_bind (prog_lift (evaluate_risk policy cmd pj wall)) (\<lambda>e.
            if \<not> risk_passed e
            then gateway_reject cmd requested ARR_RISK_CHECK_FAILED (failure_messages e) (Some e)
            else gateway_accept cmd pj requested e))"

definition gateway_submit ::
  "risk_policy option \<Rightarrow> datetime \<Rightarrow> action_command \<Rightarrow> (core, action_receipt) prog" where
  "gateway_submit policy wall cmd =
     prog_bind (\<lambda>c. (gateway_projection c, c)) (\<lambda>pj.
     prog_bind (prog_lift (command_payload cmd)) (\<lambda>request.
     prog_bind (emit_object ET_ACTION_REQUESTED request) (\<lambda>req.
     prog_bind (prog_lift (gateway_validate cmd pj)) (\<lambda>verdict.
     gateway_decide policy wall cmd pj (rec_sequence req) verdict))))"

subsection \<open>Execution\<close>

definition assert_order_identifier_is_available ::
  "string \<Rightarrow> string option \<Rightarrow> string \<Rightarrow> projection \<Rightarrow> (string, nat) dict \<Rightarrow> unit res" where
  "assert_order_identifier_is_available action_id identifier kind pj index =
     (case identifier of
        None \<Rightarrow> Inr ()
      | Some i \<Rightarrow>
          (case owner_of_order pj (dict_get index i) of
             None \<Rightarrow> Inr ()
           | Some owner \<Rightarrow>
               if owner = action_id then Inr ()
               else Inl (action_executor_contract_error
                 (''executor returned duplicate '' @ kind @ '': '' @ i @ '' already belongs to action_id '' @ owner)
                 [(''conflicting_action_id'', JStr owner), (''identifier'', JStr i),
                  (''identifier_type'', JStr kind), (''observed_action_id'', JStr action_id)])))"

definition validate_execution_result ::
  "action_command \<Rightarrow> execution_result \<Rightarrow> projection \<Rightarrow> unit res" where
  "validate_execution_result cmd x pj =
     (let ctype = cmd_action_type cmd in
      if xr_action_id x \<noteq> cmd_action_id cmd
      then Inl (action_executor_contract_error
        (''executor returned mismatched action_id: expected '' @ cmd_action_id cmd
           @ '', observed '' @ xr_action_id x)
        [(''expected_action_id'', JStr (cmd_action_id cmd)), (''observed_action_id'', JStr (xr_action_id x))])
      else if xr_action_type x \<noteq> ctype
      then Inl (action_executor_contract_error
        (''executor returned mismatched action_type: expected '' @ action_type_value ctype
           @ '', observed '' @ action_type_value (xr_action_type x))
        [(''expected_action_type'', JStr (action_type_value ctype)),
         (''observed_action_type'', JStr (action_type_value (xr_action_type x)))])
      else if xr_status x \<notin> set (valid_execution_statuses ctype)
      then Inl (action_executor_contract_error
        (''executor returned invalid status for action_type: action_type '' @ action_type_value ctype
           @ '', observed status '' @ execution_status_value (xr_status x))
        [(''action_type'', JStr (action_type_value ctype)),
         (''allowed_statuses'', JList (map (\<lambda>st. JStr (execution_status_value st)) (valid_execution_statuses ctype))),
         (''observed_status'', JStr (execution_status_value (xr_status x)))])
      else if ctype = AT_PLACE_ORDER \<and> xr_status x = ES_ACCEPTED \<and> xr_client_order_id x = None
              \<and> xr_exchange_order_id x = None
      then Inl (action_executor_contract_error
        ''executor accepted place order without a venue order identifier''
        [(''action_id'', JStr (cmd_action_id cmd)), (''action_type'', JStr (action_type_value ctype)),
         (''execution_status'', JStr (execution_status_value (xr_status x)))])
      else if ctype = AT_PLACE_ORDER \<and> xr_client_order_id x \<notin> {None, Some (client_order_id_of cmd)}
      then Inl (action_executor_contract_error
        (''executor returned mismatched client_order_id: expected '' @ client_order_id_of cmd
           @ '', observed '' @ (case xr_client_order_id x of None \<Rightarrow> ''None'' | Some i \<Rightarrow> i))
        [(''expected_client_order_id'', JStr (client_order_id_of cmd)),
         (''observed_client_order_id'', jopt (xr_client_order_id x))])
      else if ctype = AT_PLACE_ORDER
      then res_bind (assert_order_identifier_is_available (cmd_action_id cmd) (xr_client_order_id x)
              ''client_order_id'' pj (pj_orders_by_client_order_id pj)) (\<lambda>_.
            assert_order_identifier_is_available (cmd_action_id cmd) (xr_exchange_order_id x)
              ''exchange_order_id'' pj (pj_orders_by_exchange_order_id pj))
      else Inr ())"

definition execution_failure_reason :: "execution_result \<Rightarrow> action_failure_reason option" where
  "execution_failure_reason x =
     (case xr_status x of ES_REJECTED \<Rightarrow> Some AFR_EXECUTION_REJECTED | ES_FAILED \<Rightarrow> Some AFR_EXECUTION_FAILED
      | _ \<Rightarrow> None)"

definition execution_failure_message :: "execution_result \<Rightarrow> string" where
  "execution_failure_message x =
     (if text_present (xr_error_message x) then (case xr_error_message x of Some m \<Rightarrow> m | None \<Rightarrow> [])
      else ''executor returned '' @ execution_status_value (xr_status x)
             @ (case xr_error_code x of None \<Rightarrow> [] | Some code \<Rightarrow> '': '' @ code))"

definition fail_execution ::
  "action_command \<Rightarrow> action_receipt \<Rightarrow> int option \<Rightarrow> int \<Rightarrow> action_failure_reason \<Rightarrow> string \<Rightarrow>
   execution_result option \<Rightarrow> (core, action_receipt) prog" where
  "fail_execution cmd receipt error_seq started reason message x =
     prog_bind (prog_lift (case x of
                  None \<Rightarrow> Inr []
                | Some x \<Rightarrow> res_bind (execution_result_payload x) (\<lambda>xp. Inr [(''execution_result'', JObj xp)]))) (\<lambda>extra.
     prog_bind (emit_object ET_ACTION_EXECUTION_FAILED
        ([(''accepted_sequence'', JInt (rcp_decision_sequence receipt)),
          (''action_id'', JStr (cmd_action_id cmd)),
          (''action_type'', JStr (action_type_value (cmd_action_type cmd))),
          (''error_sequence'', jopt_int error_seq),
          (''execution_started_sequence'', JInt started),
          (''failure_reason'', JStr (action_failure_reason_value reason)),
          (''message'', JStr message),
          (''requested_sequence'', JInt (rcp_requested_sequence receipt))] @ extra)) (\<lambda>r.
     prog_return
       \<lparr>rcp_action_id = cmd_action_id cmd, rcp_action_type = cmd_action_type cmd, rcp_status = AS_FAILED,
        rcp_requested_sequence = rcp_requested_sequence receipt, rcp_decision_sequence = rec_sequence r,
        rcp_failure_reason = Some reason, rcp_rejection_reason = None, rcp_message = Some message\<rparr>))"

text \<open>The body of the \<^verbatim>\<open>try\<close> after \<^verbatim>\<open>executor.execute\<close> returned\<close>

definition record_execution ::
  "action_command \<Rightarrow> action_receipt \<Rightarrow> int \<Rightarrow> execution_result option \<Rightarrow> (core, action_receipt) prog" where
  "record_execution cmd receipt started outcome =
     (case outcome of
        None \<Rightarrow> prog_raise (type_error ''executor must return an ExecutionResult'')
      | Some x \<Rightarrow>
          prog_bind (\<lambda>c. (gateway_projection c, c)) (\<lambda>pj.
          prog_bind (prog_lift (validate_execution_result cmd x pj)) (\<lambda>_.
          case execution_failure_reason x of
            Some reason \<Rightarrow>
              fail_execution cmd receipt None started reason (execution_failure_message x) (Some x)
          | None \<Rightarrow>
              prog_bind (prog_lift (execution_result_payload x)) (\<lambda>xp.
              prog_bind (emit_object ET_ACTION_EXECUTED
                 [(''action_id'', JStr (cmd_action_id cmd)),
                  (''action_type'', JStr (action_type_value (cmd_action_type cmd))),
                  (''execution_started_sequence'', JInt started),
                  (''execution_result'', JObj xp),
                  (''requested_sequence'', JInt (rcp_requested_sequence receipt))]) (\<lambda>r.
              prog_bind (emit_order_placement_recorded cmd x) (\<lambda>_.
              prog_return
                \<lparr>rcp_action_id = cmd_action_id cmd, rcp_action_type = cmd_action_type cmd,
                 rcp_status = AS_EXECUTED, rcp_requested_sequence = rcp_requested_sequence receipt,
                 rcp_decision_sequence = rec_sequence r, rcp_failure_reason = None,
                 rcp_rejection_reason = None, rcp_message = None\<rparr>))))))"

definition record_executor_error ::
  "action_command \<Rightarrow> action_receipt \<Rightarrow> int \<Rightarrow> pyexc \<Rightarrow> (core, action_receipt) prog" where
  "record_executor_error cmd receipt started exc =
     prog_bind (prog_lift (exception_to_error_payload exc EC_ACTION_EXECUTOR
        [(''action_id'', JStr (cmd_action_id cmd)),
         (''action_type'', JStr (action_type_value (cmd_action_type cmd))),
         (''execution_started_sequence'', JInt started)] None None)) (\<lambda>ep.
     prog_bind (emit_object ET_ERROR ep) (\<lambda>er.
     fail_execution cmd receipt (Some (rec_sequence er)) started AFR_EXECUTOR_ERROR
       (''executor failed at sequence '' @ int_to_str (rec_sequence er) @ '': '' @ exc_message exc) None))"

text \<open>The call of the executor on the outside world\<close>

definition call_executor :: "'w executor \<Rightarrow> action_command \<Rightarrow> (core \<times> 'w, execution_result option) prog" where
  "call_executor ex cmd s = (case ex cmd (snd s) of (r, w) \<Rightarrow> (r, (fst s, w)))"

text \<open>\<^verbatim>\<open>ActionGateway.submit_and_execute\<close>\<close>

definition submit_and_execute ::
  "risk_policy option \<Rightarrow> datetime \<Rightarrow> action_command \<Rightarrow> 'w executor \<Rightarrow> (core \<times> 'w, action_receipt) prog" where
  "submit_and_execute policy wall cmd ex =
     prog_bind (on_core (gateway_submit policy wall cmd)) (\<lambda>receipt.
       if rcp_status receipt \<noteq> AS_ACCEPTED then prog_return receipt
       else
         prog_bind (prog_lift (is_staged_release cmd)) (\<lambda>staged.
         if staged then prog_return receipt
         else
           prog_bind (on_core (emit_object ET_ACTION_EXECUTION_STARTED
              [(''accepted_sequence'', JInt (rcp_decision_sequence receipt)),
               (''action_id'', JStr (cmd_action_id cmd)),
               (''action_type'', JStr (action_type_value (cmd_action_type cmd))),
               (''requested_sequence'', JInt (rcp_requested_sequence receipt))])) (\<lambda>started.
           prog_try
             (prog_bind (call_executor ex cmd) (\<lambda>outcome.
                on_core (record_execution cmd receipt (rec_sequence started) outcome)))
             (\<lambda>exc. on_core (record_executor_error cmd receipt (rec_sequence started) exc)))))"

lemma gateway_reject_writes:
  assumes "core_ok c"
  shows "\<exists>rcp c'. writes (gateway_reject cmd requested reason errors risk) c rcp
      [(ET_ACTION_REJECTED, rejection_payload cmd requested reason errors risk)] c' \<and>
      (rcp_status rcp = AS_REJECTED \<and> rcp_rejection_reason rcp = Some reason)"
  unfolding gateway_reject_def
  by (rule emit_then_writes [OF assms]) (intro exI conjI, erule writes_return, simp_all)

subsection \<open>A validated order can be recorded\<close>

lemma validated_place_fields:
  assumes "gateway_validate cmd pj = Inr None" and "cmd_action_type cmd = AT_PLACE_ORDER"
    and "command_inner_payload cmd = Inr p"
  shows "validate_place_order_payload p = []" and "validate_place_order_lineage cmd p pj = Inr []"
  using assms
  by (auto simp: gateway_validate_def res_bind_Inr split: if_splits option.splits)

lemma no_error [simp]: "error_when b m = [] \<longleftrightarrow> \<not> b"
  by (simp add: error_when_def)

lemma no_missing_fields:
  "missing_fields p = [] \<Longrightarrow> k \<in> {''product_id'', ''side'', ''order_type'', ''size''} \<Longrightarrow>
   \<exists>s. jget p k = JStr s \<and> s \<noteq> []"
  by (auto simp: missing_fields_def non_empty_string_def string_or_none_Some split: if_splits)

lemma payload_str_text: "jget p k = JStr s \<Longrightarrow> payload_str p k = Inr s"
  by (auto simp: jget_def payload_str_def split: option.splits)

lemma validated_place_texts:
  assumes "validate_place_order_payload p = []"
  obtains product_id side sz where "payload_str p ''product_id'' = Inr product_id" and "product_id \<noteq> []"
    and "res_bind (payload_str p ''side'') order_side_value_of = Inr side"
    and "payload_str p ''size'' = Inr sz" and "sz \<noteq> []" and "jget p ''size'' = JStr sz"
proof -
  from assms have m: "missing_fields p = []" and side: "enum_or_none order_side_of (jget p ''side'') \<noteq> None"
    by (auto simp: validate_place_order_payload_def Let_def)
  obtain product_id where 1: "jget p ''product_id'' = JStr product_id" "product_id \<noteq> []"
    using no_missing_fields [OF m, of "''product_id''"] by auto
  obtain sz where 2: "jget p ''size'' = JStr sz" "sz \<noteq> []"
    using no_missing_fields [OF m, of "''size''"] by auto
  obtain t where 3: "jget p ''side'' = JStr t" using no_missing_fields [OF m, of "''side''"] by auto
  with side obtain sd where "order_side_of t = Some sd" by (auto simp: enum_or_none_def)
  with 3 have "res_bind (payload_str p ''side'') order_side_value_of = Inr sd"
    by (simp add: payload_str_text order_side_value_of_def)
  with 1 2 that show thesis by (simp add: payload_str_text)
qed

lemma new_logical_order_with_metadata:
  assumes "new_logical_order (r\<lparr>lor_metadata := PvMapping []\<rparr>) = Inr r0"
  shows "new_logical_order (r\<lparr>lor_metadata := PvJson (JObj md)\<rparr>) = Inr (r\<lparr>lor_metadata := PvJson (JObj md)\<rparr>)"
    and "lor_lineage_relation r \<noteq> OLR_MANUAL_ASSOCIATION"
proof -
  have "validate_manual_association_approval [] \<noteq> Inr ()"
    by (simp add: validate_manual_association_approval_def jget_def)
  moreover have "check_relation (r\<lparr>lor_metadata := m\<rparr>) = check_relation r" for m
    by (cases "lor_lineage_relation r") (simp_all add: check_relation_def)
  ultimately show "new_logical_order (r\<lparr>lor_metadata := PvJson (JObj md)\<rparr>) = Inr (r\<lparr>lor_metadata := PvJson (JObj md)\<rparr>)"
    "lor_lineage_relation r \<noteq> OLR_MANUAL_ASSOCIATION"
    using assms
    by (auto simp: new_logical_order_def res_bind_Inr normalized_object_def dict_of_items_def split: if_splits)
qed

lemma logical_order_with_metadata:
  assumes "logical_order_of_command cmd p (PvMapping []) = Inr r0"
  obtains r where "logical_order_of_command cmd p (PvJson (JObj md)) = Inr r" and "lor_metadata r = PvJson (JObj md)"
    and "payload_lineage_relation p \<noteq> OLR_MANUAL_ASSOCIATION"
proof -
  from assms obtain product_id side sz where
    texts: "payload_str p ''product_id'' = Inr product_id"
      "res_bind (payload_str p ''side'') order_side_value_of = Inr side" "payload_str p ''size'' = Inr sz"
    by (auto simp: logical_order_of_command_def res_bind_Inr)
  define r where "r = \<lparr>lor_logical_order_id = logical_order_id_of cmd p, lor_product_id = product_id, lor_side = side,
        lor_size = sz, lor_lineage_relation = payload_lineage_relation p,
        lor_root_order_id = string_or_none (jget p ''root_order_id''),
        lor_parent_order_id = string_or_none (jget p ''parent_order_id''),
        lor_source_order_ids = source_order_ids p,
        lor_limit_price = string_or_none (jget p ''limit_price''),
        lor_created_by_action_id = Some (cmd_action_id cmd), lor_metadata = PvNone\<rparr>"
  have cmd: "logical_order_of_command cmd p m = new_logical_order (r\<lparr>lor_metadata := m\<rparr>)" for m
    unfolding logical_order_of_command_def by (simp only: texts res_bind.simps) (simp add: r_def)
  note new = new_logical_order_with_metadata [OF assms [unfolded cmd]]
  from new(1) [of md] new(2) show thesis by (intro that [of "r\<lparr>lor_metadata := PvJson (JObj md)\<rparr>"]) (simp_all add: cmd, simp add: r_def)
qed

definition creates_logical_order :: "action_command \<Rightarrow> payload \<Rightarrow> projection \<Rightarrow> bool" where
  "creates_logical_order cmd p pj \<longleftrightarrow> cmd_action_type cmd = AT_PLACE_ORDER \<and>
     \<not> dict_has (pj_logical_orders_by_id pj) (logical_order_id_of cmd p)"

lemma validated_logical_order:
  assumes "gateway_validate cmd pj = Inr None" and "command_inner_payload cmd = Inr p"
    and "creates_logical_order cmd p pj"
  obtains r0 where "logical_order_of_command cmd p (PvMapping []) = Inr r0"
proof -
  have "validate_place_order_lineage cmd p pj = Inr []"
    using validated_place_fields [OF assms(1) _ assms(2)] assms(3) by (simp add: creates_logical_order_def)
  moreover have "dict_get (pj_logical_orders_by_id pj) (logical_order_id_of cmd p) = None"
    using assms(3) by (simp add: creates_logical_order_def dict_has_def)
  ultimately show thesis using that
    by (auto simp: validate_place_order_lineage_def Let_def split: if_splits sum.splits)
qed

lemma emit_logical_order_created_writes:
  assumes "core_ok c" and "gateway_validate cmd pj = Inr None" and "command_inner_payload cmd = Inr p"
  shows "\<exists>es c'. writes (emit_logical_order_created cmd pj) c () es c' \<and>
    map fst es = (if creates_logical_order cmd p pj then [ET_ORDER_LOGICAL_CREATED] else [])"
proof (cases "creates_logical_order cmd p pj")
  case False
  then have "emit_logical_order_created cmd pj c = prog_return () c"
    using assms(3) by (auto simp: emit_logical_order_created_def creates_logical_order_def prog_bind_def prog_lift_def)
  with writes_return [OF assms(1), of "()"] False show ?thesis by (auto simp: writes_def)
next
  case True
  from validated_logical_order [OF assms(2,3) True] obtain r0
    where "logical_order_of_command cmd p (PvMapping []) = Inr r0" .
  then obtain r where r: "logical_order_of_command cmd p (payload_metadata p) = Inr r"
    "\<exists>md. lor_metadata r = PvJson (JObj md)"
    unfolding payload_metadata_def by (rule logical_order_with_metadata [of cmd p r0 "payload_dict (jget p ''metadata'')"]) blast
  then obtain lop where lop: "logical_order_payload r = Inr lop" using logical_order_payload_eq by blast
  have "\<exists>x c'. writes (prog_bind (emit_object ET_ORDER_LOGICAL_CREATED lop) (\<lambda>_. prog_return ())) c x
      ((ET_ORDER_LOGICAL_CREATED, lop) # []) c' \<and> True"
    by (rule emit_then_writes [OF assms(1)]) (blast intro: writes_return)
  then obtain c' where "writes (prog_bind (emit_object ET_ORDER_LOGICAL_CREATED lop) (\<lambda>_. prog_return ())) c ()
      [(ET_ORDER_LOGICAL_CREATED, lop)] c'"
    by auto
  moreover have "emit_logical_order_created cmd pj c =
      prog_bind (emit_object ET_ORDER_LOGICAL_CREATED lop) (\<lambda>_. prog_return ()) c"
    using True assms(3) r lop
    by (simp add: emit_logical_order_created_def creates_logical_order_def prog_bind_def prog_lift_def)
  ultimately show ?thesis using True by (auto simp: writes_def intro!: exI [of _ "[(ET_ORDER_LOGICAL_CREATED, lop)]"])
qed

lemma logical_order_id_of_nonempty: "cmd_action_id cmd \<noteq> [] \<Longrightarrow> logical_order_id_of cmd p \<noteq> []"
  by (auto simp: logical_order_id_of_def string_or_none_Some split: option.splits)

lemma validated_size:
  assumes "gateway_validate cmd pj = Inr None" and "cmd_action_type cmd = AT_PLACE_ORDER"
    and "command_inner_payload cmd = Inr p" and "jget p ''size'' = JStr sz"
  shows "\<exists>d. dec_parse sz = Some d \<and> positive_decimal d"
proof -
  have "field_errors p = []"
    using validated_place_fields(2) [OF assms(1-3)] by (auto simp: validate_place_order_lineage_def split: if_splits)
  then have "positive_decimal_string (jget p ''size'')" by (simp add: field_errors_def)
  with assms(4) show ?thesis
    by (auto simp: positive_decimal_string_def string_or_none_def split: option.splits if_splits)
qed

text \<open>A validated order has a placement record, whatever its kind, once it has an identifier.\<close>

lemma placement_of_validated:
  assumes "gateway_validate cmd pj = Inr None" and "cmd_action_type cmd = AT_PLACE_ORDER"
    and "command_inner_payload cmd = Inr p" and "cmd_action_id cmd \<noteq> []"
    and "client \<noteq> Some []" and "exchange \<noteq> Some []"
    and "status = OPS_STAGED \<or> client \<noteq> None \<or> exchange \<noteq> None"
  obtains pp where "res_bind (placement_of_command cmd p kind status client exchange) order_placement_payload = Inr pp"
proof -
  obtain product_id side sz where t: "payload_str p ''product_id'' = Inr product_id" "product_id \<noteq> []"
    "res_bind (payload_str p ''side'') order_side_value_of = Inr side"
    "payload_str p ''size'' = Inr sz" "sz \<noteq> []" "jget p ''size'' = JStr sz"
    using validated_place_texts [OF validated_place_fields(1) [OF assms(1-3)]] by blast
  have "require_positive_decimal ''size'' sz = Inr ()"
    using validated_size [OF assms(1-3) t(6)] t(5) by (simp add: require_positive_decimal_Inr)
  moreover have "string_or_none (jget p ''limit_price'') \<noteq> Some []" by (simp add: string_or_none_Some)
  ultimately have "\<exists>r md. placement_of_command cmd p kind status client exchange = Inr r \<and> opr_metadata r = PvJson (JObj md)"
    unfolding placement_of_command_def using t assms(4-7) logical_order_id_of_nonempty [OF assms(4)]
    by (simp add: new_order_placement_def require_def require_non_empty_def validate_optional_non_empty_def
        text_present_def normalized_object_def payload_metadata_def)
  with order_placement_payload_eq that show thesis by fastforce
qed

lemma emit_placement_writes:
  assumes "core_ok c" and "res_bind plc order_placement_payload = Inr pp"
  shows "\<exists>c'. writes (emit_placement plc) c () [(ET_ORDER_PLACEMENT_RECORDED, pp)] c'"
proof -
  have "\<exists>x c'. writes (prog_bind (emit_object ET_ORDER_PLACEMENT_RECORDED pp) (\<lambda>_. prog_return ())) c x
      ((ET_ORDER_PLACEMENT_RECORDED, pp) # []) c' \<and> True"
    by (rule emit_then_writes [OF assms(1)]) (blast intro: writes_return)
  then show ?thesis unfolding emit_placement_def by (auto intro: writes_bind_lift [OF assms(2)])
qed

lemma emit_staged_writes:
  assumes "core_ok c" and "gateway_validate cmd pj = Inr None" and "command_inner_payload cmd = Inr p"
    and "cmd_action_id cmd \<noteq> []" and "is_staged_release cmd = Inr staged"
  shows "\<exists>es c'. writes (emit_staged_order_placement_recorded cmd) c () es c' \<and>
    map fst es = (if staged then [ET_ORDER_PLACEMENT_RECORDED] else [])"
proof (cases staged)
  case False
  then have "emit_staged_order_placement_recorded cmd c = prog_return () c"
    using assms(5) by (simp add: emit_staged_order_placement_recorded_def prog_bind_def prog_lift_def)
  with writes_return [OF assms(1), of "()"] False show ?thesis by (auto simp: writes_def)
next
  case True
  then have "cmd_action_type cmd = AT_PLACE_ORDER"
    using assms(5) by (auto simp: is_staged_release_def split: if_splits)
  from placement_of_validated [OF assms(2) this assms(3,4), where status = OPS_STAGED and client = None and exchange = None]
  obtain pp where pp: "res_bind (placement_of_command cmd p OPK_STAGED_RELEASE OPS_STAGED None None) order_placement_payload = Inr pp"
    by auto
  from emit_placement_writes [OF assms(1) pp] obtain c' where
    "writes (emit_placement (placement_of_command cmd p OPK_STAGED_RELEASE OPS_STAGED None None)) c ()
       [(ET_ORDER_PLACEMENT_RECORDED, pp)] c'" by blast
  moreover have "emit_staged_order_placement_recorded cmd c =
      emit_placement (placement_of_command cmd p OPK_STAGED_RELEASE OPS_STAGED None None) c"
    using assms(3,5) True by (simp add: emit_staged_order_placement_recorded_def prog_bind_def prog_lift_def)
  ultimately show ?thesis using True
    by (auto simp: writes_def intro!: exI [of _ "[(ET_ORDER_PLACEMENT_RECORDED, pp)]"])
qed

text \<open>The events of an acceptance\<close>

definition acceptance_events :: "action_command \<Rightarrow> payload \<Rightarrow> projection \<Rightarrow> event_type list" where
  "acceptance_events cmd p pj =
     [ET_ACTION_ACCEPTED]
     @ (if creates_logical_order cmd p pj then [ET_ORDER_LOGICAL_CREATED] else [])
     @ (if is_staged_release cmd = Inr True then [ET_ORDER_PLACEMENT_RECORDED] else [])"

lemma is_staged_release_total:
  "command_inner_payload cmd = Inr p \<Longrightarrow> \<exists>b. is_staged_release cmd = Inr b"
  by (cases "cmd_action_type cmd = AT_PLACE_ORDER") (auto simp: is_staged_release_def)

lemma gateway_accept_writes:
  assumes "core_ok c" and "gateway_validate cmd pj = Inr None" and "command_inner_payload cmd = Inr p"
    and "cmd_action_id cmd \<noteq> []"
  shows "\<exists>rcp es c'. writes (gateway_accept cmd pj requested e) c rcp es c' \<and>
    map fst es = acceptance_events cmd p pj \<and> rcp_status rcp = AS_ACCEPTED \<and> rcp_rejection_reason rcp = None \<and>
    rcp_action_id rcp = cmd_action_id cmd \<and> rcp_requested_sequence rcp = requested"
proof -
  obtain r c1 where r: "writes (emit_object ET_ACTION_ACCEPTED (acceptance_payload cmd requested e)) c r
      [(ET_ACTION_ACCEPTED, acceptance_payload cmd requested e)] c1"
    using emit_object_writes [OF assms(1)] by blast
  obtain es1 c2 where 1: "writes (emit_logical_order_created cmd pj) c1 () es1 c2"
    "map fst es1 = (if creates_logical_order cmd p pj then [ET_ORDER_LOGICAL_CREATED] else [])"
    using emit_logical_order_created_writes [OF writes_ok [OF r] assms(2,3)] by blast
  obtain staged where staged: "is_staged_release cmd = Inr staged" using is_staged_release_total [OF assms(3)] by blast
  obtain es2 c3 where 2: "writes (emit_staged_order_placement_recorded cmd) c2 () es2 c3"
    "map fst es2 = (if staged then [ET_ORDER_PLACEMENT_RECORDED] else [])"
    using emit_staged_writes [OF writes_ok [OF 1(1)] assms(2-4) staged] by blast
  note run = writes_bind [OF r writes_bind [OF 1(1) writes_bind [OF 2(1) writes_return [OF writes_ok [OF 2(1)]]]]]
  show ?thesis
    unfolding gateway_accept_def
    by (rule exI, rule exI, rule exI, rule conjI, rule run)
      (use 1(2) 2(2) staged in \<open>auto simp: acceptance_events_def\<close>)
qed

subsection \<open>Submissions\<close>

lemma submission_writes:
  assumes "core_ok c" and "cmd_action_id cmd \<noteq> []" and "gateway_projection c = Inr pj"
    and "command_inner_payload cmd = Inr p" and "command_payload cmd = Inr request"
    and "gateway_preview policy wall None cmd c = Inr pv"
  shows "\<exists>rcp es c'. writes (gateway_submit policy wall cmd) c rcp ((ET_ACTION_REQUESTED, request) # es) c' \<and>
    rcp_status rcp = prv_status pv \<and> rcp_rejection_reason rcp = prv_rejection_reason pv \<and>
    map fst es = (if prv_status pv = AS_ACCEPTED then acceptance_events cmd p pj else [ET_ACTION_REJECTED])"
proof -
  obtain r c1 where r: "writes (emit_object ET_ACTION_REQUESTED request) c r [(ET_ACTION_REQUESTED, request)] c1"
    using emit_object_writes [OF assms(1)] by blast
  note ok = writes_ok [OF r]
  from assms(3,6) obtain verdict where v: "gateway_validate cmd pj = Inr verdict"
    by (auto simp: gateway_preview_def res_bind_Inr)
  have rest: "\<exists>rcp es c'. writes (gateway_decide policy wall cmd pj (rec_sequence r) verdict) c1 rcp es c' \<and>
    rcp_status rcp = prv_status pv \<and> rcp_rejection_reason rcp = prv_rejection_reason pv \<and>
    map fst es = (if prv_status pv = AS_ACCEPTED then acceptance_events cmd p pj else [ET_ACTION_REJECTED])"
  proof (cases verdict)
    case (Some re)
    obtain reason errors where re: "re = (reason, errors)" by force
    from gateway_reject_writes [OF ok, of cmd "rec_sequence r" reason errors None] assms(3,6) v Some re
    show ?thesis by (fastforce simp: gateway_preview_def gateway_decide_def)
  next
    case None
    then obtain e where e: "evaluate_risk policy cmd pj wall = Inr e" using assms(3,6) v
      by (auto simp: gateway_preview_def res_bind_Inr)
    show ?thesis
    proof (cases "risk_passed e")
      case False
      from gateway_reject_writes [OF ok, of cmd "rec_sequence r" ARR_RISK_CHECK_FAILED "failure_messages e" "Some e"]
      obtain rcp c' where w: "writes (gateway_reject cmd (rec_sequence r) ARR_RISK_CHECK_FAILED (failure_messages e) (Some e))
          c1 rcp [(ET_ACTION_REJECTED, rejection_payload cmd (rec_sequence r) ARR_RISK_CHECK_FAILED (failure_messages e) (Some e))] c'"
        "rcp_status rcp = AS_REJECTED" "rcp_rejection_reason rcp = Some ARR_RISK_CHECK_FAILED" by blast
      have "prv_status pv = AS_REJECTED" "prv_rejection_reason pv = Some ARR_RISK_CHECK_FAILED"
        using assms(3,6) v None e False by (auto simp: gateway_preview_def)
      with w None e False show ?thesis
        unfolding gateway_decide_def by (intro exI conjI, simp, intro writes_bind_lift) auto
    next
      case True
      from None v have "gateway_validate cmd pj = Inr None" by simp
      from gateway_accept_writes [OF ok this assms(4,2)] obtain rcp es c' where
        w: "writes (gateway_accept cmd pj (rec_sequence r) e) c1 rcp es c'" "map fst es = acceptance_events cmd p pj"
          "rcp_status rcp = AS_ACCEPTED" "rcp_rejection_reason rcp = None" by blast
      have "prv_status pv = AS_ACCEPTED" "prv_rejection_reason pv = None"
        using assms(3,6) v None e True by (auto simp: gateway_preview_def)
      with w None e True show ?thesis
        unfolding gateway_decide_def by (intro exI conjI, simp, intro writes_bind_lift) auto
    qed
  qed
  then obtain rcp es c' where w: "writes (gateway_decide policy wall cmd pj (rec_sequence r) verdict) c1 rcp es c'"
    and fin: "rcp_status rcp = prv_status pv" "rcp_rejection_reason rcp = prv_rejection_reason pv"
      "map fst es = (if prv_status pv = AS_ACCEPTED then acceptance_events cmd p pj else [ET_ACTION_REJECTED])"
    by blast
  have "writes (gateway_submit policy wall cmd) c rcp ([(ET_ACTION_REQUESTED, request)] @ es) c'"
    unfolding gateway_submit_def
    by (rule writes_bind_state [where x = pj], simp add: assms(3), rule writes_bind_lift [OF assms(5)],
        rule writes_bind [OF r], rule writes_bind_lift [OF v], rule w)
  with fin show ?thesis by (intro exI [of _ rcp] exI [of _ es] exI [of _ c'] conjI; simp)
qed

subsection \<open>The executor is reached only by accepted commands\<close>

lemma gateway_submit_accepted:
  assumes "gateway_submit policy wall cmd c = (Inr rcp, c')" and "rcp_status rcp = AS_ACCEPTED"
  shows "\<exists>pj e. gateway_projection c = Inr pj \<and> gateway_validate cmd pj = Inr None \<and>
    evaluate_risk policy cmd pj wall = Inr e \<and> risk_passed e"
proof -
  have rej: "rcp_status rcp \<noteq> AS_ACCEPTED" if "gateway_reject cmd n reason errors risk c1 = (Inr rcp, c')"
    for n reason errors risk c1
    using that by (auto simp: gateway_reject_def prog_bind_Inr prog_return_def)
  from assms(1) obtain pj requested t verdict where v: "gateway_projection c = Inr pj" "gateway_validate cmd pj = Inr verdict"
    and rest: "gateway_decide policy wall cmd pj requested verdict t = (Inr rcp, c')"
    unfolding gateway_submit_def prog_bind_Inr prog_lift_def by auto
  show ?thesis
  proof (cases verdict)
    case None
    with rest obtain e where e: "evaluate_risk policy cmd pj wall = Inr e" and "(if \<not> risk_passed e
           then gateway_reject cmd requested ARR_RISK_CHECK_FAILED (failure_messages e) (Some e)
           else gateway_accept cmd pj requested e) t = (Inr rcp, c')"
      by (auto simp: gateway_decide_def prog_bind_Inr prog_lift_def)
    with rej assms(2) have "risk_passed e" by (auto split: if_splits)
    with v e None show ?thesis by blast
  next
    case (Some re)
    obtain reason errors where "re = (reason, errors)" by force
    with rest Some have "gateway_reject cmd requested reason errors None t = (Inr rcp, c')"
      by (simp add: gateway_decide_def)
    from rej [OF this] assms(2) show ?thesis by simp
  qed
qed

lemma executor_reached:
  assumes "submit_and_execute policy wall cmd ex (c, w) = (res, (c', w'))"
  shows "w' = w \<or> (w' = snd (ex cmd w) \<and> is_staged_release cmd = Inr False \<and>
    (\<exists>pj e. gateway_projection c = Inr pj \<and> gateway_validate cmd pj = Inr None \<and>
       evaluate_risk policy cmd pj wall = Inr e \<and> risk_passed e))"
proof -
  have body: "w2 = snd (ex cmd w1)"
    if "prog_try (prog_bind (call_executor ex cmd) (\<lambda>outcome. on_core (f outcome))) (\<lambda>exc. on_core (g exc)) (c1, w1)
      = (res, (c2, w2))" for f g c1 w1 c2 w2
    using that
    by (auto simp: prog_try_def prog_bind_def call_executor_def on_core_def split: prod.splits sum.splits)
  show ?thesis
    using assms unfolding submit_and_execute_def
  proof (elim prog_bind_cases)
    fix receipt t
    assume s: "on_core (gateway_submit policy wall cmd) (c, w) = (Inr receipt, t)"
      and rest: "(if rcp_status receipt \<noteq> AS_ACCEPTED then prog_return receipt
       else prog_bind (prog_lift (is_staged_release cmd)) (\<lambda>staged.
         if staged then prog_return receipt
         else
           prog_bind (on_core (emit_object ET_ACTION_EXECUTION_STARTED
              [(''accepted_sequence'', JInt (rcp_decision_sequence receipt)),
               (''action_id'', JStr (cmd_action_id cmd)),
               (''action_type'', JStr (action_type_value (cmd_action_type cmd))),
               (''requested_sequence'', JInt (rcp_requested_sequence receipt))])) (\<lambda>started.
           prog_try
             (prog_bind (call_executor ex cmd) (\<lambda>outcome.
                on_core (record_execution cmd receipt (rec_sequence started) outcome)))
             (\<lambda>exc. on_core (record_executor_error cmd receipt (rec_sequence started) exc))))) t
        = (res, (c', w'))"
    obtain c1 where t: "t = (c1, w)" and sub: "gateway_submit policy wall cmd c = (Inr receipt, c1)"
      using s by (cases t) (auto simp: on_core_world)
    show ?thesis
    proof (cases "rcp_status receipt = AS_ACCEPTED")
      case False
      with rest t show ?thesis by (simp add: prog_return_def)
    next
      case True
      note acc = gateway_submit_accepted [OF sub True]
      show ?thesis
      proof (cases "is_staged_release cmd = Inr False")
        case False
        with rest t True show ?thesis
          by (auto simp: prog_bind_def prog_lift_def prog_return_def split: sum.splits if_splits)
      next
        case staged: True
        from rest [unfolded t] True staged have
          "prog_bind (on_core (emit_object ET_ACTION_EXECUTION_STARTED
              [(''accepted_sequence'', JInt (rcp_decision_sequence receipt)),
               (''action_id'', JStr (cmd_action_id cmd)),
               (''action_type'', JStr (action_type_value (cmd_action_type cmd))),
               (''requested_sequence'', JInt (rcp_requested_sequence receipt))])) (\<lambda>started.
           prog_try
             (prog_bind (call_executor ex cmd) (\<lambda>outcome.
                on_core (record_execution cmd receipt (rec_sequence started) outcome)))
             (\<lambda>exc. on_core (record_executor_error cmd receipt (rec_sequence started) exc))) (c1, w) = (res, (c', w'))"
          by (simp add: prog_bind_def prog_lift_def)
        then show ?thesis
        proof (rule prog_bind_cases)
          fix started t2
          assume "on_core (emit_object ET_ACTION_EXECUTION_STARTED
              [(''accepted_sequence'', JInt (rcp_decision_sequence receipt)),
               (''action_id'', JStr (cmd_action_id cmd)),
               (''action_type'', JStr (action_type_value (cmd_action_type cmd))),
               (''requested_sequence'', JInt (rcp_requested_sequence receipt))]) (c1, w) = (Inr started, t2)"
            and run: "prog_try
             (prog_bind (call_executor ex cmd) (\<lambda>outcome.
                on_core (record_execution cmd receipt (rec_sequence started) outcome)))
             (\<lambda>exc. on_core (record_executor_error cmd receipt (rec_sequence started) exc)) t2 = (res, (c', w'))"
          then have "snd t2 = w" by (cases t2) (simp add: on_core_world)
          with body [of _ _ "fst t2" "snd t2"] run have "w' = snd (ex cmd w)" by (cases t2) auto
          with staged acc show ?thesis by blast
        qed (auto simp: on_core_world)
      qed
    qed
  qed (auto simp: on_core_world)
qed

end
