(* ===== verification/Actions.thy ===== *)
theory Actions
  imports Gateway
begin

text \<open>
  What the gateway guarantees as a whole: the executor is reached only by commands that were validated,
  passed the risk gate and are not staged; a command that is accepted always ends with an outcome in
  the ledger; an action id is used once.
\<close>

subsection \<open>Exceptions of the gateway's own checks\<close>

lemma named_object [named_intros]: "named (normalized_object m v)"
  unfolding normalized_object_def by (intro named_bind named_normalize) (auto split: json.splits)

lemma named_require [named_intros]: "exc_class e \<noteq> [] \<Longrightarrow> named (require b e)"
  by (simp add: require_def)

lemma named_execution_result_payload [named_intros]: "named (execution_result_payload x)"
  unfolding execution_result_payload_def by (intro named_intros)

lemma named_validate_execution_result [named_intros]: "named (validate_execution_result cmd x pj)"
  unfolding validate_execution_result_def assert_order_identifier_is_available_def action_executor_contract_error_def
  by (intro named_intros) simp_all

lemma named_placement [named_intros]: "named (placement_of_command cmd p kind st client exchange)"
proof -
  have "named (payload_str p k)" for k by (simp add: payload_str_def split: option.splits)
  moreover have "named (order_side_value_of s)" for s by (simp add: order_side_value_of_def split: option.splits)
  moreover have "named (new_order_placement r)" for r
    unfolding new_order_placement_def require_non_empty_def require_positive_decimal_def validate_optional_non_empty_def
    by (intro named_intros) simp_all
  ultimately show ?thesis unfolding placement_of_command_def by (intro named_bind)
qed

lemma named_order_placement_payload [named_intros]: "named (order_placement_payload r)"
  unfolding order_placement_payload_def by (intro named_intros)

lemma named_inner_payload [named_intros]: "named (command_inner_payload cmd)"
  unfolding command_inner_payload_def by (intro named_intros)

lemma named_gateway_projection [named_intros]: "named (gateway_projection c)"
  unfolding gateway_projection_def by (rule named_projection)

subsection \<open>The outcome of an execution\<close>

lemma fail_execution_settles:
  assumes "core_ok c" and "Q []"
    and "\<And>rcp. rcp_status rcp = AS_FAILED \<Longrightarrow> P rcp [ET_ACTION_EXECUTION_FAILED]"
  shows "settles (fail_execution cmd receipt err started reason message x) c P Q"
  unfolding fail_execution_def
  by (intro settles_lift assms(1,2) settles_emit settles_return)
    (auto intro!: named_intros assms(3) split: option.splits)

lemma emit_placement_settles:
  assumes "core_ok c"
  shows "settles (emit_order_placement_recorded cmd x) c
    (\<lambda>_ es. es = [] \<or> es = [ET_ORDER_PLACEMENT_RECORDED]) (\<lambda>es. es = [])"
proof -
  have "settles (emit_placement plc) c (\<lambda>_ es. es = [] \<or> es = [ET_ORDER_PLACEMENT_RECORDED]) (\<lambda>es. es = [])"
    if "named plc" for plc
    unfolding emit_placement_def
    by (intro settles_lift assms settles_emit settles_return named_bind that named_order_placement_payload) auto
  moreover have "settles (prog_return ()) c (\<lambda>_ es. es = [] \<or> es = [ET_ORDER_PLACEMENT_RECORDED]) (\<lambda>es. es = [])"
    by (intro settles_return assms) simp
  ultimately show ?thesis
    unfolding emit_order_placement_recorded_def
    by (cases "cmd_action_type cmd \<noteq> AT_PLACE_ORDER \<or> xr_status x \<noteq> ES_ACCEPTED")
      (auto intro!: settles_lift assms named_intros)
qed

text \<open>The record of an outcome ends with one of the two outcome events, or stops before or after the first.\<close>

definition outcome_recorded :: "action_receipt \<Rightarrow> event_type list \<Rightarrow> bool" where
  "outcome_recorded rcp es \<longleftrightarrow>
     (rcp_status rcp = AS_FAILED \<and> es = [ET_ACTION_EXECUTION_FAILED]) \<or>
     (rcp_status rcp = AS_EXECUTED \<and>
        (es = [ET_ACTION_EXECUTED] \<or> es = [ET_ACTION_EXECUTED, ET_ORDER_PLACEMENT_RECORDED]))"

lemma record_execution_settles:
  assumes "core_ok c"
  shows "settles (record_execution cmd receipt started outcome) c outcome_recorded
    (\<lambda>es. es \<in> {[], [ET_ACTION_EXECUTED]})"
proof (cases outcome)
  case None
  then show ?thesis unfolding record_execution_def by (auto intro!: settles_raise assms)
next
  case (Some x)
  have written: "settles (prog_bind (emit_order_placement_recorded cmd x) (\<lambda>_. prog_return rcp)) c1
      (\<lambda>y es. outcome_recorded y (ET_ACTION_EXECUTED # es)) (\<lambda>es. es = [])"
    if "core_ok c1" "rcp_status rcp = AS_EXECUTED" for c1 rcp
    by (rule settles_then [OF emit_placement_settles [OF that(1)]], rule settles_return)
      (auto simp: outcome_recorded_def that(2))
  show ?thesis
    unfolding record_execution_def Some option.case
  proof (rule settles_read [where g = gateway_projection, OF assms named_gateway_projection], simp,
      rule settles_lift [OF assms named_validate_execution_result], simp)
    fix pj u
    show "settles
        (case execution_failure_reason x of
            Some reason \<Rightarrow>
              fail_execution cmd receipt None started reason (execution_failure_message x) (Some x)
          | None \<Rightarrow>
              prog_bind (prog_lift (execution_result_payload x)) (\<lambda>xp.
              prog_bind (emit_object ET_ACTION_EXECUTED
                 [(''action_id'', JStr (cmd_action_id cmd)),
                  (''action_type'', JStr (action_type_value (cmd_action_type cmd))),
                  (''execution_started_sequence'', JInt started),
                  (''execution_result'', JObj xp),
                  (''requested_sequence'', JInt (rcp_requested_sequence receipt))]) (\<lambda>r.
              prog_bind (emit_order_placement_recorded cmd x) (\<lambda>_.
              prog_return
                \<lparr>rcp_action_id = cmd_action_id cmd, rcp_action_type = cmd_action_type cmd,
                 rcp_status = AS_EXECUTED, rcp_requested_sequence = rcp_requested_sequence receipt,
                 rcp_decision_sequence = rec_sequence r, rcp_failure_reason = None,
                 rcp_rejection_reason = None, rcp_message = None\<rparr>)))) c outcome_recorded
        (\<lambda>es. es \<in> {[], [ET_ACTION_EXECUTED]})"
    proof (cases "execution_failure_reason x")
      case None
      then show ?thesis
        by (simp only: option.case)
          (rule settles_lift [OF assms named_execution_result_payload], simp, rule settles_emit [OF assms],
            rule settles_mono [OF written], simp_all)
    next
      case (Some reason)
      then show ?thesis
        by (simp only: option.case) (rule fail_execution_settles [OF assms]; simp add: outcome_recorded_def)
    qed
  qed
qed

lemma record_executor_error_settles:
  assumes "core_ok c" and "exc_class exc \<noteq> []"
  shows "\<exists>rcp es c'. writes (record_executor_error cmd receipt started exc) c rcp es c' \<and>
    map fst es = [ET_ERROR, ET_ACTION_EXECUTION_FAILED] \<and> rcp_status rcp = AS_FAILED"
proof -
  define ctx where "ctx = [(''action_id'', JStr (cmd_action_id cmd)),
      (''action_type'', JStr (action_type_value (cmd_action_type cmd))), (''execution_started_sequence'', JInt started)]"
  obtain ep where ep: "exception_to_error_payload exc EC_ACTION_EXECUTOR ctx None None = Inr ep"
    using exception_to_error_payload_ok [OF assms(2)] by blast
  have write_one: "\<exists>rcp es c'. writes (prog_bind (prog_lift (Inr ([] :: payload)))
      (\<lambda>extra. prog_bind (emit_object et (p extra)) (\<lambda>r. prog_return (f r)))) c1 rcp es c' \<and>
      map fst es = [et] \<and> rcp_status rcp = AS_FAILED"
    if ok: "core_ok c1" and st: "\<And>r. rcp_status (f r) = AS_FAILED" for c1 et p f
  proof -
    obtain r c2 where r: "writes (emit_object et (p [])) c1 r [(et, p [])] c2"
      using emit_object_writes [OF ok] by blast
    note run = writes_bind [where f = "\<lambda>r. prog_return (f r)", OF r writes_return [OF writes_ok [OF r]]]
    show ?thesis by (intro exI conjI, rule writes_bind_lift [OF refl], rule run) (simp_all add: st)
  qed
  have failed: "\<exists>rcp es c'. writes (fail_execution cmd receipt (Some n) started AFR_EXECUTOR_ERROR m None) c1 rcp es c' \<and>
      map fst es = [ET_ACTION_EXECUTION_FAILED] \<and> rcp_status rcp = AS_FAILED" if "core_ok c1" for n m c1
    unfolding fail_execution_def option.case by (rule write_one [OF that]) simp
  obtain r c1 where r: "writes (emit_object ET_ERROR ep) c r [(ET_ERROR, ep)] c1"
    using emit_object_writes [OF assms(1)] by blast
  from failed [OF writes_ok [OF r], of "rec_sequence r"
      "''executor failed at sequence '' @ int_to_str (rec_sequence r) @ '': '' @ exc_message exc"]
  obtain rcp es c2 where w: "writes (fail_execution cmd receipt (Some (rec_sequence r)) started AFR_EXECUTOR_ERROR
      (''executor failed at sequence '' @ int_to_str (rec_sequence r) @ '': '' @ exc_message exc) None) c1 rcp es c2"
    "map fst es = [ET_ACTION_EXECUTION_FAILED]" "rcp_status rcp = AS_FAILED" by (elim exE conjE)
  have "writes (record_executor_error cmd receipt started exc) c rcp ([(ET_ERROR, ep)] @ es) c2"
    unfolding record_executor_error_def
    by (rule writes_bind_lift [OF ep [unfolded ctx_def]], rule writes_bind [OF r], rule w(1))
  with w(2,3) show ?thesis by (intro exI conjI) auto
qed

definition outcome_events :: "action_status \<Rightarrow> event_type list \<Rightarrow> bool" where
  "outcome_events status es \<longleftrightarrow>
     (status = AS_EXECUTED \<and> es \<in> {[ET_ACTION_EXECUTED], [ET_ACTION_EXECUTED, ET_ORDER_PLACEMENT_RECORDED]}) \<or>
     (status = AS_FAILED \<and> es \<in> {[ET_ACTION_EXECUTION_FAILED], [ET_ERROR, ET_ACTION_EXECUTION_FAILED],
        [ET_ACTION_EXECUTED, ET_ERROR, ET_ACTION_EXECUTION_FAILED]})"

text \<open>The call of the executor and the record of what came back\<close>

lemma execution_outcome:
  assumes "core_ok c" and "\<forall>e w'. ex cmd w = (Inl e, w') \<longrightarrow> exc_class e \<noteq> []"
  shows "\<exists>rcp es c'. prog_try
      (prog_bind (call_executor ex cmd) (\<lambda>outcome. on_core (record_execution cmd receipt n outcome)))
      (\<lambda>exc. on_core (record_executor_error cmd receipt n exc)) (c, w) = (Inr rcp, (c', snd (ex cmd w))) \<and>
    extends_ledger c es c' \<and> outcome_events (rcp_status rcp) (map fst es)"
proof -
  have failure: "\<exists>rcp es c'. record_executor_error cmd receipt n e c1 = (Inr rcp, c') \<and> extends_ledger c (es0 @ es) c' \<and>
      map fst es = [ET_ERROR, ET_ACTION_EXECUTION_FAILED] \<and> rcp_status rcp = AS_FAILED"
    if "extends_ledger c es0 c1" "exc_class e \<noteq> []" for e c1 es0
  proof -
    from that(1) have "core_ok c1" by (simp add: extends_ledger_def)
    from record_executor_error_settles [OF this that(2), of cmd receipt n] obtain rcp es c' where
      "record_executor_error cmd receipt n e c1 = (Inr rcp, c')" "extends_ledger c1 es c'"
      "map fst es = [ET_ERROR, ET_ACTION_EXECUTION_FAILED]" "rcp_status rcp = AS_FAILED"
      unfolding writes_extends by (elim exE conjE)
    with extends_ledger_trans [OF that(1)] show ?thesis by (intro exI conjI)
  qed
  have here: "extends_ledger c [] c"
    using writes_return [OF assms(1), of "()"] by (simp add: writes_extends)
  show ?thesis
  proof (cases "ex cmd w")
    case (Pair r w')
    show ?thesis
    proof (cases r)
      case (Inl e)
      have "exc_class e \<noteq> []" using assms(2) Pair Inl by blast
      from failure [OF here this] obtain rcp es c' where
        "record_executor_error cmd receipt n e c = (Inr rcp, c')" "extends_ledger c es c'"
        "map fst es = [ET_ERROR, ET_ACTION_EXECUTION_FAILED]" "rcp_status rcp = AS_FAILED"
        by (metis append_Nil)
      with Pair Inl show ?thesis
        by (intro exI [of _ rcp] exI [of _ es] exI [of _ c'])
          (simp add: prog_try_def prog_bind_def call_executor_def on_core_def outcome_events_def)
    next
      case (Inr outcome)
      from record_execution_settles [OF assms(1), of cmd receipt n outcome] show ?thesis
        unfolding settles_def
      proof (elim disjE exE conjE)
        fix rcp es c'
        assume "writes (record_execution cmd receipt n outcome) c rcp es c'" "outcome_recorded rcp (map fst es)"
        with Pair Inr show ?thesis
          by (intro exI [of _ rcp] exI [of _ es] exI [of _ c'])
            (auto simp: prog_try_def prog_bind_def call_executor_def on_core_def outcome_events_def
              writes_extends outcome_recorded_def)
      next
        fix e es0 c1
        assume r: "raises (record_execution cmd receipt n outcome) c e es0 c1" and q: "map fst es0 \<in> {[], [ET_ACTION_EXECUTED]}"
        from r failure [of es0 c1 e] obtain rcp es c' where
          "record_executor_error cmd receipt n e c1 = (Inr rcp, c')" "extends_ledger c (es0 @ es) c'"
          "map fst es = [ET_ERROR, ET_ACTION_EXECUTION_FAILED]" "rcp_status rcp = AS_FAILED"
          by (auto simp: raises_extends)
        with Pair Inr r q show ?thesis
          by (intro exI [of _ rcp] exI [of _ "es0 @ es"] exI [of _ c'])
            (auto simp: prog_try_def prog_bind_def call_executor_def on_core_def outcome_events_def raises_extends)
      qed
    qed
  qed
qed

subsection \<open>Properties\<close>

definition sample_projection :: projection where
  "sample_projection = empty_projection None None 1 []"

lemma sample_core_projection: "gateway_projection sample_core = Inr sample_projection"
  by (simp add: sample_core_def empty_core_def gateway_projection_def project_ledger_def iter_records_def
      ledger_snapshot_def sample_projection_def verify_audit_records_def)

text \<open>
  C13. What is previewed is what is decided: a submitted command is accepted or rejected, for the same reason,
  as its preview on the same ledger says. The ledger gains the request and then exactly the rejection,
  or the acceptance with the logical order it creates and the staged placement, in this order.
\<close>

theorem submission_follows_preview:
  assumes "core_ok c" and "cmd_action_id cmd \<noteq> []" and "gateway_projection c = Inr pj"
    and "command_inner_payload cmd = Inr p" and "command_payload cmd = Inr request"
    and "gateway_preview policy wall None cmd c = Inr pv"
  shows "\<exists>rcp es c'. writes (gateway_submit policy wall cmd) c rcp ((ET_ACTION_REQUESTED, request) # es) c' \<and>
    rcp_status rcp = prv_status pv \<and> rcp_rejection_reason rcp = prv_rejection_reason pv \<and>
    map fst es = (if prv_status pv = AS_ACCEPTED then acceptance_events cmd p pj else [ET_ACTION_REJECTED])"
  by (rule submission_writes [OF assms])

lemma sample_preview:
  "case gateway_preview (Some limited_policy) 0 None (sample_order_command ''a1'' sz) sample_core of
     Inr pv \<Rightarrow> prv_status pv = (if sz = ''2'' then AS_ACCEPTED else AS_REJECTED) | Inl _ \<Rightarrow> False"
  if "sz \<in> {''2'', ''9''}"
  using that
proof (elim insertE emptyE)
  show "?thesis" if "sz = ''2''" unfolding that by code_simp
  show "?thesis" if "sz = ''9''" unfolding that by code_simp
qed

theorem submission_follows_preview_witness:
  "\<exists>rcp request es c'. writes (gateway_submit (Some limited_policy) 0 (sample_order_command ''a1'' ''9'')) sample_core rcp
       ((ET_ACTION_REQUESTED, request) # es) c' \<and>
     rcp_status rcp = AS_REJECTED \<and> map fst es = [ET_ACTION_REJECTED]"
proof -
  obtain p where p: "command_inner_payload (sample_order_command ''a1'' ''9'') = Inr p"
    by (simp add: command_inner_payload_def sample_order_command_def normalized_object_def dict_of_items_def)
  obtain request where request: "command_payload (sample_order_command ''a1'' ''9'') = Inr request"
    by (simp add: command_payload_def command_inner_payload_def sample_order_command_def normalized_object_def dict_of_items_def)
  obtain pv where pv: "gateway_preview (Some limited_policy) 0 None (sample_order_command ''a1'' ''9'') sample_core = Inr pv"
    "prv_status pv = AS_REJECTED"
    using sample_preview [of "''9''"] by (auto split: sum.splits)
  have "cmd_action_id (sample_order_command ''a1'' ''9'') \<noteq> []" by (simp add: sample_order_command_def)
  from submission_follows_preview [OF sample_core_ok this sample_core_projection p request pv(1)]
  obtain rcp es c' where w: "writes (gateway_submit (Some limited_policy) 0 (sample_order_command ''a1'' ''9'')) sample_core rcp
      ((ET_ACTION_REQUESTED, request) # es) c'" "rcp_status rcp = prv_status pv"
    "map fst es = (if prv_status pv = AS_ACCEPTED
       then acceptance_events (sample_order_command ''a1'' ''9'') p sample_projection else [ET_ACTION_REJECTED])" by blast
  from w pv(2) show ?thesis by (intro exI conjI) (rule w(1), simp_all)
qed

lemma kill_switch_fails:
  assumes "evaluate_risk (Some rp) cmd pj wall = Inr e" and "risk_passed e" and "cmd_action_type cmd = AT_PLACE_ORDER"
  shows "\<not> rp_kill_switch_enabled rp"
proof -
  from assms(1) have "risk_evaluate rp cmd pj None wall = Inr e" by (simp add: evaluate_risk_def)
  then obtain p checks where "risk_checks rp p pj None wall = Inr checks" and "list_all (\<lambda>r. rcr_status r = RCS_PASS) checks"
    using assms(2,3) by (rule risk_passed_checks)
  from risk_checks_pass(1) [OF this] show ?thesis by (simp add: passed_kill_switch)
qed

text \<open>
  C1. The executor, and with it the venue, is reached only by a command that was valid on the state of the
  ledger, passed every check of the risk gate and is not staged; it is then called once, on this command.
  With the kill switch on no order reaches it.
\<close>

theorem executor_only_after_checks:
  assumes "submit_and_execute policy wall cmd ex (c, w) = (res, (c', w'))" and "w' \<noteq> w"
  shows "w' = snd (ex cmd w) \<and> is_staged_release cmd = Inr False \<and>
    (\<exists>pj e. gateway_projection c = Inr pj \<and> gateway_validate cmd pj = Inr None \<and>
       evaluate_risk policy cmd pj wall = Inr e \<and> risk_passed e) \<and>
    (cmd_action_type cmd = AT_PLACE_ORDER \<longrightarrow> (\<forall>rp. policy = Some rp \<longrightarrow> \<not> rp_kill_switch_enabled rp))"
  using executor_reached [OF assms(1)] assms(2) kill_switch_fails by blast

lemma submission_outcome:
  assumes "core_ok c" and "cmd_action_id cmd \<noteq> []" and "gateway_projection c = Inr pj"
    and "command_inner_payload cmd = Inr p" and "command_payload cmd = Inr request"
    and "gateway_preview policy wall None cmd c = Inr pv" and "prv_status pv = AS_ACCEPTED"
    and "is_staged_release cmd = Inr False"
    and "\<forall>e w'. ex cmd w = (Inl e, w') \<longrightarrow> exc_class e \<noteq> []"
  shows "\<exists>rcp es outcome c'.
    submit_and_execute policy wall cmd ex (c, w) = (Inr rcp, (c', snd (ex cmd w))) \<and> extends_ledger c es c' \<and>
    map fst es = ET_ACTION_REQUESTED # acceptance_events cmd p pj @ ET_ACTION_EXECUTION_STARTED # outcome \<and>
    outcome_events (rcp_status rcp) outcome"
proof -
  from submission_writes [OF assms(1-6)] assms(7) obtain receipt es c1 where
    sub: "gateway_submit policy wall cmd c = (Inr receipt, c1)" "extends_ledger c ((ET_ACTION_REQUESTED, request) # es) c1"
      "rcp_status receipt = AS_ACCEPTED" "map fst es = acceptance_events cmd p pj"
    by (auto simp: writes_extends)
  define started where "started = [(''accepted_sequence'', JInt (rcp_decision_sequence receipt)),
     (''action_id'', JStr (cmd_action_id cmd)),
     (''action_type'', JStr (action_type_value (cmd_action_type cmd))),
     (''requested_sequence'', JInt (rcp_requested_sequence receipt))]"
  have "core_ok c1" using sub(2) by (simp add: extends_ledger_def)
  then obtain r c2 where r: "emit_object ET_ACTION_EXECUTION_STARTED started c1 = (Inr r, c2)"
    "extends_ledger c1 [(ET_ACTION_EXECUTION_STARTED, started)] c2"
    using emit_object_writes by (metis writes_extends)
  from r(2) have "core_ok c2" by (simp add: extends_ledger_def)
  from execution_outcome [where ex = ex and cmd = cmd and w = w and receipt = receipt and n = "rec_sequence r", OF this assms(9)]
  obtain rcp es2 c3 where out: "prog_try
      (prog_bind (call_executor ex cmd) (\<lambda>outcome. on_core (record_execution cmd receipt (rec_sequence r) outcome)))
      (\<lambda>exc. on_core (record_executor_error cmd receipt (rec_sequence r) exc)) (c2, w) = (Inr rcp, (c3, snd (ex cmd w)))"
    "extends_ledger c2 es2 c3" "outcome_events (rcp_status rcp) (map fst es2)" by blast
  have "submit_and_execute policy wall cmd ex (c, w) = (Inr rcp, (c3, snd (ex cmd w)))"
    using sub(1,3) r(1) out(1) assms(8)
    by (simp add: submit_and_execute_def prog_bind_def on_core_def prog_lift_def started_def)
  moreover have "extends_ledger c (((ET_ACTION_REQUESTED, request) # es) @ [(ET_ACTION_EXECUTION_STARTED, started)] @ es2) c3"
    by (intro extends_ledger_trans [OF sub(2)] extends_ledger_trans [OF r(2)] out(2))
  moreover have "map fst (((ET_ACTION_REQUESTED, request) # es) @ [(ET_ACTION_EXECUTION_STARTED, started)] @ es2) =
      ET_ACTION_REQUESTED # acceptance_events cmd p pj @ ET_ACTION_EXECUTION_STARTED # map fst es2"
    using sub(4) by simp
  ultimately show ?thesis using out(3) by (intro exI conjI)
qed


text \<open>A command that is accepted on the sample core\<close>

lemma sample_execution:
  obtains p request pv where
    "command_inner_payload (sample_order_command ''a1'' ''2'') = Inr p"
    "command_payload (sample_order_command ''a1'' ''2'') = Inr request"
    "gateway_preview (Some limited_policy) 0 None (sample_order_command ''a1'' ''2'') sample_core = Inr pv"
    "prv_status pv = AS_ACCEPTED" "is_staged_release (sample_order_command ''a1'' ''2'') = Inr False"
    "cmd_action_id (sample_order_command ''a1'' ''2'') \<noteq> []"
proof -
  let ?cmd = "sample_order_command ''a1'' ''2''"
  obtain p where p: "command_inner_payload ?cmd = Inr p" "jget p ''placement_kind'' = JNull"
    by (simp add: command_inner_payload_def sample_order_command_def normalized_object_def dict_of_items_def jget_def)
  obtain request where request: "command_payload ?cmd = Inr request"
    by (simp add: command_payload_def command_inner_payload_def sample_order_command_def normalized_object_def dict_of_items_def)
  obtain pv where pv: "gateway_preview (Some limited_policy) 0 None ?cmd sample_core = Inr pv" "prv_status pv = AS_ACCEPTED"
    using sample_preview [of "''2''"] by (auto split: sum.splits)
  have "is_staged_release ?cmd = Inr False"
    using p by (simp add: is_staged_release_def sample_order_command_def payload_placement_kind_def enum_or_none_def)
  with that p(1) request pv show thesis by (simp add: sample_order_command_def)
qed

definition failing_executor :: "nat executor" where
  "failing_executor cmd w = (Inl (value_error ''venue is down''), Suc w)"


theorem executor_only_after_checks_witness:
  "is_staged_release (sample_order_command ''a1'' ''2'') = Inr False \<and> \<not> rp_kill_switch_enabled limited_policy"
proof -
  have "\<forall>e w'. failing_executor (sample_order_command ''a1'' ''2'') 0 = (Inl e, w') \<longrightarrow> exc_class e \<noteq> []"
    by (simp add: failing_executor_def)
  note named = this
  obtain p request pv where
    "command_inner_payload (sample_order_command ''a1'' ''2'') = Inr p"
    "command_payload (sample_order_command ''a1'' ''2'') = Inr request"
    "gateway_preview (Some limited_policy) 0 None (sample_order_command ''a1'' ''2'') sample_core = Inr pv"
    "prv_status pv = AS_ACCEPTED" "is_staged_release (sample_order_command ''a1'' ''2'') = Inr False"
    "cmd_action_id (sample_order_command ''a1'' ''2'') \<noteq> []"
    by (rule sample_execution)
  from submission_outcome [where ex = failing_executor and w = 0, OF sample_core_ok this(6) sample_core_projection this(1-5) named]
  obtain rcp c' where run: "submit_and_execute (Some limited_policy) 0 (sample_order_command ''a1'' ''2'') failing_executor
     (sample_core, 0) = (Inr rcp, (c', snd (failing_executor (sample_order_command ''a1'' ''2'') 0)))" by blast
  have "snd (failing_executor (sample_order_command ''a1'' ''2'') 0) \<noteq> 0" by (simp add: failing_executor_def)
  from executor_only_after_checks [OF run this] show ?thesis by (simp add: sample_order_command_def)
qed

end
