(* ===== verification/Action_Errors.thy ===== *)
theory Action_Errors
  imports Actions
begin

text \<open>
  Where a submission does not end as its caller expects: a risk evaluation that raises leaves the
  request without a decision, a venue identifier that is blank is found only after the execution was
  recorded, and a manual association cannot pass the gateway's own validation.
\<close>

subsection \<open>A request without a decision\<close>

text \<open>
  C36. When the risk evaluation of a valid command raises, the submission raises the same exception; the ledger
  has the request and neither an acceptance nor a rejection.
\<close>

theorem request_left_undecided:
  assumes "core_ok c" and "gateway_projection c = Inr pj" and "command_payload cmd = Inr request"
    and "gateway_validate cmd pj = Inr None" and "evaluate_risk policy cmd pj wall = Inl e"
  shows "\<exists>c'. gateway_submit policy wall cmd c = (Inl e, c') \<and> extends_ledger c [(ET_ACTION_REQUESTED, request)] c'"
proof -
  obtain r c1 where "emit_object ET_ACTION_REQUESTED request c = (Inr r, c1)"
    "extends_ledger c [(ET_ACTION_REQUESTED, request)] c1"
    using emit_object_writes [OF assms(1)] by (metis writes_extends)
  with assms(2-5) show ?thesis
    by (simp add: gateway_submit_def gateway_decide_def prog_bind_def prog_lift_def)
qed

definition tight_policy :: risk_policy where
  "tight_policy = open_policy\<lparr>rp_product_catalog := Some [(''BTC-USD'', spot_product\<lparr>prd_base_max_size := None\<rparr>)]\<rparr>"

lemma huge_order_valid:
  "gateway_validate (sample_order_command ''a1'' ''1e30'') sample_projection = Inr None"
  by code_simp

lemma huge_order_risk:
  "evaluate_risk (Some tight_policy) (sample_order_command ''a1'' ''1e30'') sample_projection 0 = Inl division_impossible"
  by code_simp

theorem request_left_undecided_witness:
  "\<exists>c'. gateway_submit (Some tight_policy) 0 (sample_order_command ''a1'' ''1e30'') sample_core
     = (Inl division_impossible, c')"
proof -
  obtain request where "command_payload (sample_order_command ''a1'' ''1e30'') = Inr request"
    by (simp add: command_payload_def command_inner_payload_def sample_order_command_def normalized_object_def dict_of_items_def)
  from request_left_undecided [OF sample_core_ok sample_core_projection this huge_order_valid huge_order_risk]
  show ?thesis by blast
qed

subsection \<open>A blank venue identifier\<close>

text \<open>An executor that accepts an order and returns the blank text as its exchange identifier\<close>

definition blank_id_executor :: "unit executor" where
  "blank_id_executor cmd w =
     (res_bind (new_execution_result \<lparr>xr_action_id = cmd_action_id cmd, xr_action_type = AT_PLACE_ORDER, xr_status = ES_ACCEPTED,
        xr_mode = EM_LIVE, xr_client_order_id = None, xr_exchange_order_id = Some [],
        xr_raw_response = PvMapping [], xr_error_category = None, xr_error_code = None,
        xr_error_message = None, xr_retryable = False\<rparr>) (\<lambda>x. Inr (Some x)), w)"

text \<open>
  The contract check looks for a missing identifier only, so the execution is recorded as executed; the
  placement record then refuses the blank identifier and the same execution is recorded as failed.
\<close>

theorem blank_venue_id_executed_and_failed:
  "case submit_and_execute None 0 (sample_order_command ''a1'' ''2'') blank_id_executor (sample_core, ()) of
     (Inr rcp, (c, _)) \<Rightarrow> rcp_status rcp = AS_FAILED \<and>
       map rec_event_type (core_records c) = [ET_ACTION_REQUESTED, ET_ACTION_ACCEPTED, ET_ORDER_LOGICAL_CREATED,
         ET_ACTION_EXECUTION_STARTED, ET_ACTION_EXECUTED, ET_ERROR, ET_ACTION_EXECUTION_FAILED]
   | (Inl _, _) \<Rightarrow> False"
  by code_simp

subsection \<open>Manual associations\<close>

text \<open>
  An order that is a manual association of existing orders and has no logical order yet never passes the
  validation of the gateway, whatever operator approval its metadata carries.
\<close>

theorem manual_association_never_accepted:
  assumes "cmd_action_type cmd = AT_PLACE_ORDER" and "command_inner_payload cmd = Inr p"
    and "payload_lineage_relation p = OLR_MANUAL_ASSOCIATION"
    and "\<not> dict_has (pj_logical_orders_by_id pj) (logical_order_id_of cmd p)"
  shows "gateway_validate cmd pj \<noteq> Inr None \<and>
    (\<forall>policy wall c rcp c'. gateway_projection c = Inr pj \<longrightarrow> gateway_submit policy wall cmd c = (Inr rcp, c') \<longrightarrow>
       rcp_status rcp \<noteq> AS_ACCEPTED)"
proof -
  have invalid: "gateway_validate cmd pj \<noteq> Inr None"
  proof
    assume "gateway_validate cmd pj = Inr None"
    then obtain r0 where "logical_order_of_command cmd p (PvMapping []) = Inr r0"
      using assms by (auto intro: validated_logical_order simp: creates_logical_order_def)
    then show False by (rule logical_order_with_metadata) (simp add: assms(3))
  qed
  moreover have "rcp_status rcp \<noteq> AS_ACCEPTED"
    if "gateway_projection c = Inr pj" "gateway_submit policy wall cmd c = (Inr rcp, c')" for policy wall c rcp c'
    using gateway_submit_accepted [OF that(2)] that(1) invalid by auto
  ultimately show ?thesis by blast
qed

definition approved_association :: action_command where
  "approved_association =
     \<lparr>cmd_action_id = ''a9'', cmd_action_type = AT_PLACE_ORDER,
      cmd_payload = PvMapping
        [(''lineage_relation'', PvStr ''manual_association''), (''limit_price'', PvStr ''100.5''),
         (''metadata'', PvMapping [(''manual_association_approval'', PvMapping
            [(''approved_at'', PvStr ''2024-01-01T00:00:00Z''), (''approved_by'', PvStr ''op''),
             (''reason'', PvStr ''merge'')])]),
         (''order_type'', PvStr ''limit''), (''product_id'', PvStr ''BTC-USD''), (''side'', PvStr ''buy''),
         (''size'', PvStr ''2''), (''source_order_ids'', PvSequence [PvStr ''o1'', PvStr ''o2'']),
         (''time_in_force'', PvStr ''good_until_cancelled'')],
      cmd_requested_by = ''operator'', cmd_idempotency_key = None\<rparr>"

theorem manual_association_never_accepted_witness:
  "gateway_validate approved_association sample_projection \<noteq> Inr None \<and>
   (\<exists>p. command_inner_payload approved_association = Inr p \<and>
      validate_manual_association_approval (payload_dict (jget p ''metadata'')) = Inr ())"
proof -
  have "case command_inner_payload approved_association of
      Inr p \<Rightarrow> payload_lineage_relation p = OLR_MANUAL_ASSOCIATION \<and>
        \<not> dict_has (pj_logical_orders_by_id sample_projection) (logical_order_id_of approved_association p) \<and>
        validate_manual_association_approval (payload_dict (jget p ''metadata'')) = Inr ()
    | Inl _ \<Rightarrow> False"
    by code_simp
  then obtain p where p: "command_inner_payload approved_association = Inr p"
    "payload_lineage_relation p = OLR_MANUAL_ASSOCIATION"
    "\<not> dict_has (pj_logical_orders_by_id sample_projection) (logical_order_id_of approved_association p)"
    "validate_manual_association_approval (payload_dict (jget p ''metadata'')) = Inr ()"
    by (auto split: sum.splits)
  have "cmd_action_type approved_association = AT_PLACE_ORDER" by (simp add: approved_association_def)
  from manual_association_never_accepted [OF this p(1-3)] p(1,4) show ?thesis by blast
qed

end
