(* ===== verification/Components.thy ===== *)
theory Components
  imports Judgements
begin

text \<open>
  Programs of a component that holds the audit core beside a state of its own, and the rules for reasoning
  about them.
  \<open>concludes m s P\<close>: the program ends, by returning or by an exception with a class name; it keeps the core
  usable and adds a list of events to the ledger, and \<open>P\<close> holds of the result, the events and the
  state reached.
\<close>

type_synonym event = "event_type \<times> payload"

definition concludes ::
  "(core \<times> 'w, 'a) prog \<Rightarrow> core \<times> 'w \<Rightarrow> ('a res \<Rightarrow> event list \<Rightarrow> core \<times> 'w \<Rightarrow> bool) \<Rightarrow> bool" where
  "concludes m s P \<longleftrightarrow> (\<exists>x es s'. m s = (x, s') \<and> named x \<and> extends_ledger (fst s) es (fst s') \<and> P x es s')"

definition on_local :: "('w, 'a) prog \<Rightarrow> (core \<times> 'w, 'a) prog" where
  "on_local m s = (case m (snd s) of (r, w) \<Rightarrow> (r, (fst s, w)))"

definition local_state :: "(core \<times> 'w, 'w) prog" where
  "local_state s = (Inr (snd s), s)"

lemma extends_ledger_refl: "core_ok c \<Longrightarrow> extends_ledger c [] c"
  using writes_return [of c "()"] by (simp add: writes_extends)

lemma facts_record: "event_sink.facts es rs \<Longrightarrow> (et, p) \<in> set es \<Longrightarrow>
    \<exists>r \<in> set rs. rec_event_type r = et \<and> rec_payload r = JObj p"
  by (induction rule: core_sink.facts.induct) auto

lemma extends_ledger_ok: "extends_ledger c es c' \<Longrightarrow> core_ok c'"
  by (simp add: extends_ledger_def)

lemma concludes_return: "core_ok (fst s) \<Longrightarrow> P (Inr x) [] s \<Longrightarrow> concludes (prog_return x) s P"
  unfolding concludes_def prog_return_def
  by (intro exI conjI, rule refl, simp add: named_def, erule extends_ledger_refl, assumption)

lemma concludes_raise:
  "core_ok (fst s) \<Longrightarrow> exc_class e \<noteq> [] \<Longrightarrow> P (Inl e) [] s \<Longrightarrow> concludes (prog_raise e) s P"
  unfolding concludes_def prog_raise_def
  by (intro exI conjI, rule refl, simp add: named_def, erule extends_ledger_refl, assumption)

lemma concludes_mono:
  "concludes m s P \<Longrightarrow> (\<And>x es s'. extends_ledger (fst s) es (fst s') \<Longrightarrow> P x es s' \<Longrightarrow> Q x es s') \<Longrightarrow>
   concludes m s Q"
  unfolding concludes_def by meson

lemma concludes_if:
  "(b s \<Longrightarrow> concludes m s P) \<Longrightarrow> (\<not> b s \<Longrightarrow> concludes n s P) \<Longrightarrow> concludes (\<lambda>s. if b s then m s else n s) s P"
  by (simp add: concludes_def)

lemma concludesE:
  assumes "concludes m s P"
  obtains x es s' where "m s = (x, s')" and "extends_ledger (fst s) es (fst s')" and "P x es s'" and "core_ok (fst s')"
  using assms extends_ledger_ok unfolding concludes_def by blast

lemma on_local_run: "m (snd s) = (x, w) \<Longrightarrow> on_local m s = (x, (fst s, w))"
  by (simp add: on_local_def)

lemma concludes_bind:
  assumes "concludes m s Q"
    and "\<And>e es s'. core_ok (fst s') \<Longrightarrow> Q (Inl e) es s' \<Longrightarrow> P (Inl e) es s'"
    and "\<And>x es s'. core_ok (fst s') \<Longrightarrow> Q (Inr x) es s' \<Longrightarrow> concludes (f x) s' (\<lambda>y es'. P y (es @ es'))"
  shows "concludes (prog_bind m f) s P"
proof -
  from assms(1) obtain x es s1 where m: "m s = (x, s1)" "named x" "extends_ledger (fst s) es (fst s1)" "Q x es s1"
    by (auto simp: concludes_def)
  note ok = extends_ledger_ok [OF m(3)]
  show ?thesis
  proof (cases x)
    case (Inl e)
    with m assms(2) [OF ok] have "prog_bind m f s = (Inl e, s1)" "named (Inl e :: 'c res)" "P (Inl e) es s1"
      by (auto simp: prog_bind_def named_def)
    with m(3) show ?thesis unfolding concludes_def by blast
  next
    case (Inr y)
    with assms(3) [OF ok] m(4) obtain z es' s2 where "f y s1 = (z, s2)" "named z"
      "extends_ledger (fst s1) es' (fst s2)" "P z (es @ es') s2" unfolding concludes_def by blast
    moreover from this m Inr have "prog_bind m f s = (z, s2)" by (simp add: prog_bind_def)
    ultimately show ?thesis unfolding concludes_def using extends_ledger_trans [OF m(3)] by blast
  qed
qed

lemma concludes_try:
  assumes "concludes m s Q" and "\<And>x es s'. Q (Inr x) es s' \<Longrightarrow> P (Inr x) es s'"
    and "\<And>e es s'. core_ok (fst s') \<Longrightarrow> exc_class e \<noteq> [] \<Longrightarrow> Q (Inl e) es s' \<Longrightarrow>
      concludes (h e) s' (\<lambda>y es'. P y (es @ es'))"
  shows "concludes (prog_try m h) s P"
proof -
  from assms(1) obtain x es s1 where m: "m s = (x, s1)" "named x" "extends_ledger (fst s) es (fst s1)" "Q x es s1"
    by (auto simp: concludes_def)
  show ?thesis
  proof (cases x)
    case (Inr y)
    with m have "prog_try m h s = (x, s1)" "P x es s1" by (auto simp: prog_try_def intro: assms(2))
    with m show ?thesis unfolding concludes_def by blast
  next
    case (Inl e)
    with assms(3) [OF extends_ledger_ok [OF m(3)]] m(2,4) obtain z es' s2 where "h e s1 = (z, s2)" "named z"
      "extends_ledger (fst s1) es' (fst s2)" "P z (es @ es') s2" unfolding concludes_def named_def by blast
    moreover from this m Inl have "prog_try m h s = (z, s2)" by (simp add: prog_try_def)
    ultimately show ?thesis unfolding concludes_def using extends_ledger_trans [OF m(3)] by blast
  qed
qed

lemma concludes_lift:
  assumes "core_ok (fst s)" and "named r" and "\<And>e. r = Inl e \<Longrightarrow> P (Inl e) [] s" and "\<And>x. r = Inr x \<Longrightarrow> P (Inr x) [] s"
  shows "concludes (prog_lift r) s P"
  using assms(2-) extends_ledger_refl [OF assms(1)] unfolding concludes_def prog_lift_def by (cases r) auto

lemma concludes_bind_lift:
  assumes "core_ok (fst s)" and "named r" and "\<And>e. r = Inl e \<Longrightarrow> P (Inl e) [] s"
    and "\<And>x. r = Inr x \<Longrightarrow> concludes (f x) s P"
  shows "concludes (prog_bind (prog_lift r) f) s P"
  by (rule concludes_bind [where Q = "\<lambda>x es s'. x = r \<and> es = [] \<and> s' = s"], rule concludes_lift [OF assms(1,2)])
    (use assms(3,4) in auto)

lemma concludes_state:
  assumes "m s = (Inr x, s')" and "fst s' = fst s" and "concludes (f x) s' P"
  shows "concludes (prog_bind m f) s P"
  using assms by (simp add: concludes_def prog_bind_def)

lemma concludes_local_state: "concludes (f (snd s)) s P \<Longrightarrow> concludes (prog_bind local_state f) s P"
  by (rule concludes_state) (simp_all add: local_state_def)

lemma concludes_emit:
  assumes "core_ok (fst s)"
    and "\<And>r c'. core_ok c' \<Longrightarrow> rec_event_type r = et \<Longrightarrow> rec_payload r = JObj p \<Longrightarrow>
      concludes (f r) (c', snd s) (\<lambda>y es. P y ((et, p) # es))"
  shows "concludes (prog_bind (on_core (emit_object et p)) f) s P"
proof -
  obtain r c' where r: "writes (emit_object et p) (fst s) r [(et, p)] c'" "rec_event_type r = et" "rec_payload r = JObj p"
    using emit_object_writes [OF assms(1)] by metis
  then have "on_core (emit_object et p) s = (Inr r, (c', snd s))" and led: "extends_ledger (fst s) [(et, p)] c'"
    by (simp_all add: writes_extends on_core_def)
  moreover obtain y es s'' where "f r (c', snd s) = (y, s'')" "named y" "extends_ledger c' es (fst s'')" "P y ((et, p) # es) s''"
    using assms(2) [OF extends_ledger_ok [OF led] r(2,3)] unfolding concludes_def fst_conv by blast
  ultimately show ?thesis
    unfolding concludes_def using extends_ledger_trans [OF led] by (force simp: prog_bind_def)
qed

lemma concludes_emit_last:
  assumes "core_ok (fst s)" and "\<And>r c'. core_ok c' \<Longrightarrow> P (Inr r) [(et, p)] (c', snd s)"
  shows "concludes (on_core (emit_object et p)) s P"
proof -
  obtain r c' where r: "writes (emit_object et p) (fst s) r [(et, p)] c'"
    using emit_object_writes [OF assms(1)] by metis
  with assms(2) [OF writes_ok [OF r]] show ?thesis
    unfolding concludes_def by (force simp: writes_extends on_core_def named_def)
qed

lemma named_exception_payload [named_intros]: "named (exception_to_error_payload e cat ctx code retry)"
  by (simp add: exception_to_error_payload_def Let_def error_event_payload_def named_def split: option.splits)

lemma named_error_event_payload [named_intros]: "named (error_event_payload cat ctx code exc msg retry)"
  by (simp add: error_event_payload_def Let_def named_def)

subsection \<open>The state rebuilt from the ledger\<close>

text \<open>\<^verbatim>\<open>SourceOfTruthProjection.from_ledger(self._core.ledger)\<close>\<close>

definition core_projection :: "core \<Rightarrow> projection res" where
  "core_projection c = project_ledger (core_digest c) None None 1 [] (core_ledger c)"

lemma named_core_projection [named_intros]: "named (core_projection c)"
  unfolding core_projection_def by (rule named_projection)

end
