(* ===== verification/Memory.thy ===== *)
theory Memory
  imports Components
begin

text \<open>
  The state rebuilt from the ledger never forgets: the actions, accepted messages, fills, mismatches,
  recoveries and drifts a prefix of the ledger shows are there whatever records follow. The idempotency of
  the gateway, the feeds and the reconciliation rests on this.
\<close>

subsection \<open>What is remembered\<close>

definition memory :: "projection \<Rightarrow> _" where
  "memory pj = (pj_actions pj, pj_data_messages pj, pj_fills_by_id pj, pj_reconciliation_mismatches pj,
     pj_reconciliation_recoveries pj, pj_reconciliation_drifts pj)"

definition message_accepted :: "projection \<Rightarrow> string \<Rightarrow> bool" where
  "message_accepted pj k \<longleftrightarrow>
     (\<exists>m. dict_get (pj_data_messages pj) k = Some m \<and> msg_message_key m = k \<and> msg_accepted_sequence m \<noteq> None)"

definition remembers :: "projection \<Rightarrow> projection \<Rightarrow> bool" where
  "remembers pj pj' \<longleftrightarrow>
     (\<forall>i. dict_has (pj_actions pj) i \<longrightarrow> dict_has (pj_actions pj') i) \<and>
     (\<forall>k. message_accepted pj k \<longrightarrow> message_accepted pj' k) \<and>
     (\<forall>i. dict_has (pj_fills_by_id pj) i \<longrightarrow> dict_has (pj_fills_by_id pj') i) \<and>
     (\<forall>k. dict_has (pj_reconciliation_mismatches pj) k \<longrightarrow> dict_has (pj_reconciliation_mismatches pj') k) \<and>
     (\<forall>k. dict_has (pj_reconciliation_recoveries pj) k \<longrightarrow> dict_has (pj_reconciliation_recoveries pj') k) \<and>
     (\<forall>k. dict_has (pj_reconciliation_drifts pj) k \<longrightarrow> dict_has (pj_reconciliation_drifts pj') k)"

text \<open>Every message is stored under its own key.\<close>

definition keys_consistent :: "projection \<Rightarrow> bool" where
  "keys_consistent pj \<longleftrightarrow> (\<forall>k m. dict_get (pj_data_messages pj) k = Some m \<longrightarrow> msg_message_key m = k)"

lemma remembers_trans: "remembers pj pj1 \<Longrightarrow> remembers pj1 pj2 \<Longrightarrow> remembers pj pj2"
  by (simp add: remembers_def)

definition grows :: "projection \<Rightarrow> projection \<Rightarrow> bool" where
  "grows pj pj' \<longleftrightarrow> remembers pj pj' \<and> (keys_consistent pj \<longrightarrow> keys_consistent pj')"

lemma grows_trans: "grows pj pj1 \<Longrightarrow> grows pj1 pj2 \<Longrightarrow> grows pj pj2"
  by (auto simp: grows_def intro: remembers_trans)

lemma same_memory_grows: "memory pj' = memory pj \<Longrightarrow> grows pj pj'"
  by (simp add: grows_def remembers_def memory_def message_accepted_def keys_consistent_def)

lemma memory_update [simp]:
  "memory (pj\<lparr>pj_audit_anchors := x0\<rparr>) = memory pj"
  "memory (pj\<lparr>pj_audit_archives := x1\<rparr>) = memory pj"
  "memory (pj\<lparr>pj_audit_checkpoints := x2\<rparr>) = memory pj"
  "memory (pj\<lparr>pj_live_preflight_results := x3\<rparr>) = memory pj"
  "memory (pj\<lparr>pj_ledger_health_acknowledgements := x4\<rparr>) = memory pj"
  "memory (pj\<lparr>pj_operator_canary_evidence_results := x5\<rparr>) = memory pj"
  "memory (pj\<lparr>pj_runtime_health_check_results := x6\<rparr>) = memory pj"
  "memory (pj\<lparr>pj_strategy_simulation_results := x7\<rparr>) = memory pj"
  "memory (pj\<lparr>pj_feed_degradations := x8\<rparr>) = memory pj"
  "memory (pj\<lparr>pj_feed_sources := x9\<rparr>) = memory pj"
  "memory (pj\<lparr>pj_latest_tickers_by_product_id := x10\<rparr>) = memory pj"
  "memory (pj\<lparr>pj_order_books_by_product_id := x11\<rparr>) = memory pj"
  "memory (pj\<lparr>pj_order_book_samples_by_product_id := x12\<rparr>) = memory pj"
  "memory (pj\<lparr>pj_order_book_sample_retention_dropped_by_product_id := x13\<rparr>) = memory pj"
  "memory (pj\<lparr>pj_order_book_sample_scope_skipped_by_product_id := x14\<rparr>) = memory pj"
  "memory (pj\<lparr>pj_max_order_book_sample_depth_per_side := x15\<rparr>) = memory pj"
  "memory (pj\<lparr>pj_max_order_book_samples_per_product := x16\<rparr>) = memory pj"
  "memory (pj\<lparr>pj_order_book_sample_product_ids := x17\<rparr>) = memory pj"
  "memory (pj\<lparr>pj_market_trades_by_id := x18\<rparr>) = memory pj"
  "memory (pj\<lparr>pj_market_trade_ids_by_product_id := x19\<rparr>) = memory pj"
  "memory (pj\<lparr>pj_market_trade_retention_dropped_by_product_id := x20\<rparr>) = memory pj"
  "memory (pj\<lparr>pj_max_market_trades_per_product := x21\<rparr>) = memory pj"
  "memory (pj\<lparr>pj_orders := x22\<rparr>) = memory pj"
  "memory (pj\<lparr>pj_orders_by_action_id := x23\<rparr>) = memory pj"
  "memory (pj\<lparr>pj_orders_by_client_order_id := x24\<rparr>) = memory pj"
  "memory (pj\<lparr>pj_orders_by_exchange_order_id := x25\<rparr>) = memory pj"
  "memory (pj\<lparr>pj_logical_order_id_by_action_id := x26\<rparr>) = memory pj"
  "memory (pj\<lparr>pj_logical_orders_by_id := x27\<rparr>) = memory pj"
  "memory (pj\<lparr>pj_placement_ids_by_action_id := x28\<rparr>) = memory pj"
  "memory (pj\<lparr>pj_placements_by_id := x29\<rparr>) = memory pj"
  "memory (pj\<lparr>pj_placements_by_logical_order_id := x30\<rparr>) = memory pj"
  "memory (pj\<lparr>pj_release_placement_id_by_staged_placement_id := x31\<rparr>) = memory pj"
  "memory (pj\<lparr>pj_fills_by_order_id := x32\<rparr>) = memory pj"
  "memory (pj\<lparr>pj_positions_by_product_id := x33\<rparr>) = memory pj"
  "memory (pj\<lparr>pj_exchange_balances_by_account_id := x34\<rparr>) = memory pj"
  "memory (pj\<lparr>pj_exchange_positions_by_venue_product := x35\<rparr>) = memory pj"
  "memory (pj\<lparr>pj_exchange_products_by_product_id := x36\<rparr>) = memory pj"
  "memory (pj\<lparr>pj_exchange_product_snapshot_sequences := x37\<rparr>) = memory pj"
  "memory (pj\<lparr>pj_exchange_request_retries := x38\<rparr>) = memory pj"
  "memory (pj\<lparr>pj_errors := x39\<rparr>) = memory pj"
  "memory (pj\<lparr>pj_runtime_tasks := x40\<rparr>) = memory pj"
  "memory (pj\<lparr>pj_strategy_evaluations := x41\<rparr>) = memory pj"
  "memory (pj\<lparr>pj_strategy_evaluations_by_started_sequence := x42\<rparr>) = memory pj"
  "memory (pj\<lparr>pj_system_starts := x43\<rparr>) = memory pj"
  "memory (pj\<lparr>pj_system_stops := x44\<rparr>) = memory pj"
  "memory (pj\<lparr>pj_trigger_firings := x45\<rparr>) = memory pj"
  "memory (pj\<lparr>pj_record_occurred_at_by_sequence := x46\<rparr>) = memory pj"
  "memory (pj\<lparr>pj_received_data_payloads_by_sequence := x47\<rparr>) = memory pj"
  "memory (pj\<lparr>pj_error_sequences := x48\<rparr>) = memory pj"
  "memory (pj\<lparr>pj_feed_degraded_sequences := x49\<rparr>) = memory pj"
  "memory (pj\<lparr>pj_trigger_sequences := x50\<rparr>) = memory pj"
  "memory (pj\<lparr>pj_sequence_gap_sequences := x51\<rparr>) = memory pj"
  "memory (pj\<lparr>pj_out_of_order_sequences := x52\<rparr>) = memory pj"
  "memory (pj\<lparr>pj_last_sequence := x53\<rparr>) = memory pj"
  "memory (pj\<lparr>pj_last_record_hash := x54\<rparr>) = memory pj"
  by (simp_all add: memory_def)

subsection \<open>Handlers that leave the memory alone\<close>

lemma facts_keep_memory [simp]:
  "memory (error_sequence r pj) = memory pj"
  "memory (note_record r pj) = memory pj"
  "memory (set_runtime_task t st pj) = memory pj"
  "memory (record_sequence_anomaly r et pj) = memory pj"
  "memory (apply_audit_anchor r pj) = memory pj"
  "memory (apply_audit_archive r pj) = memory pj"
  "memory (apply_audit_checkpoint r pj) = memory pj"
  "memory (apply_live_preflight_result r pj) = memory pj"
  "memory (apply_ledger_health_acknowledgement r pj) = memory pj"
  "memory (apply_operator_canary_evidence_result r pj) = memory pj"
  "memory (apply_runtime_health_check_result r pj) = memory pj"
  "memory (apply_strategy_simulation_result r pj) = memory pj"
  "memory (apply_runtime_task r pj) = memory pj"
  "memory (apply_runtime_task_error r pj) = memory pj"
  "memory (apply_strategy_evaluation r pj) = memory pj"
  "memory (apply_system_started r pj) = memory pj"
  "memory (apply_system_stopped r pj) = memory pj"
  "memory (apply_trigger_fired r pj) = memory pj"
  "memory (apply_feed_degraded r pj) = memory pj"
  "memory (apply_error r pj) = memory pj"
  "memory (apply_exchange_balance_snapshot r pj) = memory pj"
  "memory (apply_exchange_position_snapshot r pj) = memory pj"
  "memory (apply_product r q pj) = memory pj"
  "memory (apply_logical_order_created r pj) = memory pj"
  by (simp_all add: error_sequence_def note_record_def set_runtime_task_def
      record_sequence_anomaly_def apply_audit_anchor_def apply_audit_archive_def apply_audit_checkpoint_def
      apply_live_preflight_result_def apply_ledger_health_acknowledgement_def
      apply_operator_canary_evidence_result_def apply_runtime_health_check_result_def
      apply_strategy_simulation_result_def apply_runtime_task_def apply_runtime_task_error_def
      apply_strategy_evaluation_def apply_system_started_def apply_system_stopped_def apply_trigger_fired_def
      apply_feed_degraded_def apply_error_def
      apply_exchange_balance_snapshot_def apply_exchange_position_snapshot_def apply_product_def
      apply_logical_order_created_def Let_def split: option.split)

lemma products_keep_memory [simp]: "memory (apply_exchange_product_snapshot r pj) = memory pj"
proof -
  have "memory (fold (apply_product r) qs pj) = memory pj" for qs pj by (induction qs arbitrary: pj) simp_all
  then show ?thesis by (simp add: apply_exchange_product_snapshot_def split: option.split)
qed

lemma orders_keep_memory [simp]:
  "memory (update_order i f pj) = memory pj"
  "memory (index_order i pj) = memory pj"
  "memory (snd (create_order a s pj)) = memory pj"
  by (simp_all add: update_order_def index_order_def create_order_def Let_def split: option.split)

lemma order_events_keep_memory [simp]:
  "memory (place_order_at r p result i pj) = memory pj"
  "memory (action_order_event r p pj) = memory pj"
  "memory (apply_exchange_order_update r upd pj) = memory pj"
  "memory (apply_order_update_in r j pj) = memory pj"
  "memory (apply_direct_exchange_order_update r pj) = memory pj"
  "memory (apply_order_placement_recorded r pj) = memory pj"
proof -
  have created: "memory pj2 = memory pj1" if "create_order a s pj1 = (i, pj2)" for a s i pj1 pj2
    using that orders_keep_memory(3) [of a s pj1] by simp
  show place: "memory (place_order_at r p result i pj) = memory pj" for r p result i pj
    by (simp add: place_order_at_def Let_def)
  show update: "memory (apply_exchange_order_update r upd pj) = memory pj" for r upd pj
    by (auto simp: apply_exchange_order_update_def split: option.splits prod.splits dest: created)
  show within: "memory (apply_order_update_in r j pj) = memory pj" for r j pj
    by (simp add: apply_order_update_in_def Let_def update)
  have "memory (apply_order_executed r p pj) = memory pj"
    by (auto simp: apply_order_executed_def apply_place_order_execution_def apply_cancel_order_execution_def place Let_def
        split: option.splits action_type.splits prod.splits dest: created)
  then show "memory (action_order_event r p pj) = memory pj"
    by (auto simp: action_order_event_def apply_order_requested_def apply_order_accepted_def
        apply_order_execution_started_def apply_order_execution_failed_def apply_order_rejected_def Let_def
        split: event_type.split option.split prod.splits dest: created)
  show "memory (apply_direct_exchange_order_update r pj) = memory pj"
    by (simp add: apply_direct_exchange_order_update_def within)
  show "memory (apply_order_placement_recorded r pj) = memory pj"
    by (simp add: apply_order_placement_recorded_def store_placement_def Let_def split: option.split)
qed

subsection \<open>Market data and fills\<close>

lemma market_steps_keep_memory [simp]:
  "memory (enforce_market_trade_retention p pj) = memory pj"
  "memory (apply_market_trade ctx it pj) = memory pj"
  "memory (apply_ticker_payloads raw ctx pj) = memory pj"
  "memory (apply_market_trade_payloads raw ctx pj) = memory pj"
proof -
  show trades: "memory (enforce_market_trade_retention p pj) = memory pj"
    "memory (apply_market_trade ctx it pj) = memory pj" for p ctx it pj
    by (auto simp: enforce_market_trade_retention_def apply_market_trade_def Let_def split: option.splits prod.splits)
  have "memory (fold (\<lambda>t pj. case string_or_none (jget t ''product_id'') of
             None \<Rightarrow> pj
           | Some product_id \<Rightarrow>
               pj\<lparr>pj_latest_tickers_by_product_id :=
                    dict_set product_id (ticker_snapshot ctx product_id t)
                      (pj_latest_tickers_by_product_id pj)\<rparr>) ts pj) = memory pj" for ts
    by (induction ts arbitrary: pj) (auto split: option.splits)
  then show "memory (apply_ticker_payloads raw ctx pj) = memory pj" by (simp add: apply_ticker_payloads_def)
  have "memory (fold (apply_market_trade ctx) its pj) = memory pj" for its
    by (induction its arbitrary: pj) (simp_all add: trades)
  then show "memory (apply_market_trade_payloads raw ctx pj) = memory pj"
    by (simp add: apply_market_trade_payloads_def)
qed

lemma sample_book_keeps_memory: "sample_book p pj = Inr pj' \<Longrightarrow> memory pj' = memory pj"
proof -
  have "append_order_book_sample p b q = Inr q' \<Longrightarrow> memory q' = memory q" for b q q'
    by (cases "copy_order_book_snapshot (pj_max_order_book_sample_depth_per_side q) b")
      (auto simp: append_order_book_sample_def Let_def split: if_splits prod.splits)
  then show "sample_book p pj = Inr pj' \<Longrightarrow> memory pj' = memory pj"
    by (auto simp: sample_book_def split: option.splits)
qed

lemma book_event_keeps_memory:
  assumes "apply_book_event ctx event st = Inr st'"
  shows "memory (fst st') = memory (fst st)"
proof -
  have bind: "res_bind x (\<lambda>b. Inr (pj\<lparr>pj_order_books_by_product_id := f b\<rparr>, y, z)) = Inr s' \<Longrightarrow>
      memory (fst s') = memory pj" for x f pj y z s'
    by (cases x) auto
  have step: "apply_book_update ctx event upd s = Inr s' \<Longrightarrow> memory (fst s') = memory (fst s)" for upd s s'
    by (cases s) (auto simp: apply_book_update_def Let_def split: option.splits dest: bind)
  show ?thesis
    using assms unfolding apply_book_event_def
    by (rule res_fold_keeps [where P = "\<lambda>s. memory (fst s) = memory (fst st)", rotated]) (auto dest: step)
qed

lemma order_books_keep_memory:
  assumes "apply_order_book_payloads raw ctx pj = Inr pj'"
  shows "memory pj' = memory pj"
proof -
  from assms obtain pj1 resets updated where
    events: "res_fold (apply_book_event ctx) (payload_dicts (jget raw ''events'')) (pj, [], [])
      = Inr (pj1, resets, updated)"
    and samples: "res_fold sample_book (sort updated) pj1 = Inr pj'"
    by (auto simp: apply_order_book_payloads_def res_bind_Inr)
  from events have "memory (fst (pj1, resets, updated)) = memory pj"
    by (rule res_fold_keeps [where P = "\<lambda>s. memory (fst s) = memory pj", rotated])
      (auto dest: book_event_keeps_memory)
  moreover from samples have "memory pj' = memory pj1"
    by (rule res_fold_keeps [where P = "\<lambda>s. memory s = memory pj1", rotated])
      (auto dest: sample_book_keeps_memory)
  ultimately show ?thesis by simp
qed


lemma same_memory_parts:
  assumes "memory pj' = memory pj"
  shows "pj_actions pj' = pj_actions pj" and "pj_data_messages pj' = pj_data_messages pj"
    and "pj_fills_by_id pj' = pj_fills_by_id pj"
    and "pj_reconciliation_mismatches pj' = pj_reconciliation_mismatches pj"
    and "pj_reconciliation_recoveries pj' = pj_reconciliation_recoveries pj"
    and "pj_reconciliation_drifts pj' = pj_reconciliation_drifts pj"
  using assms by (simp_all add: memory_def)

lemmas order_events_parts [simp] =
  order_events_keep_memory(2) [THEN same_memory_parts(1)]
  order_events_keep_memory(4) [THEN same_memory_parts(5)]

subsection \<open>Handlers that add to the memory\<close>

lemma message_kept:
  assumes "msg_message_key m' = msg_message_key (message_of_projection pj key)"
    and "msg_accepted_sequence (message_of_projection pj key) \<noteq> None \<longrightarrow> msg_accepted_sequence m' \<noteq> None"
    and "memory pj' = memory (set_message key m' pj)"
  shows "grows pj pj'"
proof -
  have "grows pj (set_message key m' pj)"
    using assms(1,2)
    by (auto simp: grows_def remembers_def message_accepted_def keys_consistent_def set_message_def
        message_of_projection_def new_data_message_def split: option.splits)
  then show ?thesis using assms(3) grows_trans same_memory_grows by blast
qed

lemma stamp_message_keeps [simp]:
  "msg_message_key (stamp_message sid et m) = msg_message_key m"
  "msg_accepted_sequence (stamp_message sid et m) = msg_accepted_sequence m"
  by (simp_all add: stamp_message_def)

lemma feed_payload_keeps_memory:
  "apply_accepted_feed_payload r p pj = Inr pj' \<Longrightarrow> memory pj' = memory pj"
proof -
  have "apply_accepted_market_data r p received q = Inr q' \<Longrightarrow> memory q' = memory q" for received q q'
    using order_books_keep_memory
    by (auto simp: apply_accepted_market_data_def Let_def split: option.splits if_splits)
  then show "apply_accepted_feed_payload r p pj = Inr pj' \<Longrightarrow> memory pj' = memory pj"
    by (auto simp: apply_accepted_feed_payload_def split: option.splits if_splits)
qed

definition message_after :: "audit_record \<Rightarrow> string \<Rightarrow> projection \<Rightarrow> data_message_snapshot" where
  "message_after r key pj =
     (let m = stamp_message (string_or_none (jget (record_payload r) ''source_id''))
                (enum_or_none event_type_of (jget (record_payload r) ''message_event_type''))
                (message_of_projection pj key) in
      if rec_event_type r = ET_DATA_RECEIVED
      then m\<lparr>msg_received_sequences := msg_received_sequences m @ [rec_sequence r]\<rparr>
      else if rec_event_type r = ET_DATA_ACCEPTED then m\<lparr>msg_accepted_sequence := Some (rec_sequence r)\<rparr>
      else if rec_event_type r = ET_DATA_DUPLICATE
      then m\<lparr>msg_duplicate_sequences := msg_duplicate_sequences m @ [rec_sequence r]\<rparr> else m)"

lemma apply_data_memory:
  assumes "apply_data r pj = Inr pj'" and "string_or_none (jget (record_payload r) ''message_key'') = Some key"
  shows "memory pj' = memory (set_message key (message_after r key pj) pj)"
  using assms unfolding apply_data_def message_after_def Let_def
  by (auto split: if_splits dest!: feed_payload_keeps_memory)

lemma data_grows: "apply_data r pj = Inr pj' \<Longrightarrow> grows pj pj'"
proof (cases "string_or_none (jget (record_payload r) ''message_key'')")
  case None
  then show "apply_data r pj = Inr pj' \<Longrightarrow> grows pj pj'"
    by (auto simp: apply_data_def Let_def intro: same_memory_grows)
next
  case (Some key)
  then show "apply_data r pj = Inr pj' \<Longrightarrow> grows pj pj'"
    by (intro message_kept [OF _ _ apply_data_memory]) (auto simp: message_after_def Let_def)
qed

lemma fills_grow: "apply_exchange_fill r pj = Inr pj' \<Longrightarrow> grows pj pj'"
proof (cases "string_or_none (jget (record_payload r) ''fill_id'')")
  case None
  then show "apply_exchange_fill r pj = Inr pj' \<Longrightarrow> grows pj pj'"
    by (auto simp: apply_exchange_fill_def intro: same_memory_grows)
next
  case (Some fill_id)
  assume fill: "apply_exchange_fill r pj = Inr pj'"
  show "grows pj pj'"
  proof (cases "dict_has (pj_fills_by_id pj) fill_id")
    case True
    with known_fill_ignored [OF Some True] fill show ?thesis by (simp add: same_memory_grows)
  next
    case False
    from fill Some False show ?thesis
      by (rule apply_exchange_fill_new)
        (auto simp: grows_def remembers_def message_accepted_def keys_consistent_def update_order_def)
  qed
qed

lemma order_update_grows:
  "grows pj q \<Longrightarrow> grows pj (apply_order_update_in r j q)" "grows pj q \<Longrightarrow> grows pj (action_order_event r p q)"
  by (rule grows_trans [OF _ same_memory_grows], simp_all)+

lemma findings_grow:
  "grows pj (apply_reconciliation_mismatch r pj)"
  "grows pj (apply_reconciliation_drift r pj)"
  "grows pj (apply_reconciliation_recovery r pj)"
  "grows pj (apply_action r pj)"
proof -
  show "grows pj (apply_reconciliation_mismatch r pj)"
    by (auto simp: apply_reconciliation_mismatch_def Let_def grows_def remembers_def message_accepted_def
        keys_consistent_def error_sequence_def split: option.splits)
  show "grows pj (apply_reconciliation_drift r pj)"
    by (auto simp: apply_reconciliation_drift_def Let_def grows_def remembers_def message_accepted_def
        keys_consistent_def error_sequence_def split: option.splits)
  have "grows pj (pj\<lparr>pj_reconciliation_recoveries := dict_set k x (pj_reconciliation_recoveries pj)\<rparr>)" for k x
    by (auto simp: grows_def remembers_def message_accepted_def keys_consistent_def)
  then show "grows pj (apply_reconciliation_recovery r pj)"
    by (auto simp: apply_reconciliation_recovery_def Let_def split: option.splits
        intro: same_memory_grows intro!: order_update_grows)
  have "grows pj (pj\<lparr>pj_actions := dict_set k x (pj_actions pj)\<rparr>)" for k x
    by (auto simp: grows_def remembers_def message_accepted_def keys_consistent_def)
  then show "grows pj (apply_action r pj)"
    by (auto simp: apply_action_def Let_def split: option.splits
        intro: same_memory_grows intro!: order_update_grows)
qed

lemma apply_record_grows:
  assumes "apply_record r pj = Inr pj'"
  shows "grows pj pj'"
proof -
  have retry: "apply_exchange_request_retry r q = Inr q' \<Longrightarrow> memory q' = memory q" for q q'
    by (cases "float_or_none (jget (record_payload r) ''delay_seconds'')")
      (auto simp: apply_exchange_request_retry_def Let_def split: option.splits)
  have feed: "apply_feed r q = Inr q' \<Longrightarrow> memory q' = memory q" for q q'
    by (auto simp: apply_feed_def Let_def res_bind_Inr split: option.splits)
  have "grows (note_record r pj) pj'"
    using assms retry feed unfolding apply_record_def
    by (cases "rec_event_type r")
      (auto simp: apply_event_def intro: data_grows fills_grow findings_grow same_memory_grows)
  then show ?thesis using grows_trans [OF same_memory_grows] by (metis facts_keep_memory(2))
qed

lemma records_grow: "res_fold apply_record rs pj = Inr pj' \<Longrightarrow> grows pj pj'"
  by (induction rs arbitrary: pj) (auto simp: res_bind_Inr same_memory_grows intro: grows_trans dest: apply_record_grows)

end
