(* ===== verification/Idempotency.thy ===== *)
theory Idempotency
  imports Actions Memory
begin

text \<open>
  An action id is used once: the state rebuilt from the ledger never forgets an action, so a command whose
  id is in the ledger is rejected as a duplicate.
\<close>

subsection \<open>Actions are never forgotten\<close>

definition known_action :: "projection \<Rightarrow> string \<Rightarrow> bool" where
  "known_action pj i = dict_has (pj_actions pj) i"

lemma apply_record_keeps: "apply_record r pj = Inr pj' \<Longrightarrow> known_action pj i \<Longrightarrow> known_action pj' i"
  using apply_record_grows by (auto simp: grows_def remembers_def known_action_def)

lemma request_adds_action:
  assumes "apply_record r pj = Inr pj'" and "rec_event_type r = ET_ACTION_REQUESTED"
    and "payload_action_id (record_payload r) = Some i"
  shows "known_action pj' i"
  using assms
  by (auto simp: apply_record_def apply_event_def apply_action_def Let_def known_action_def dict_has_def)

lemma fold_knows_action:
  assumes "res_fold apply_record rs pj = Inr pj'" and "r \<in> set rs" and "rec_event_type r = ET_ACTION_REQUESTED"
    and "payload_action_id (record_payload r) = Some i"
  shows "known_action pj' i"
proof -
  from assms(2) obtain pre post where rs: "rs = pre @ r # post" by (meson split_list)
  with assms(1) obtain pj1 pj2 where "apply_record r pj1 = Inr pj2" and run: "res_fold apply_record post pj2 = Inr pj'"
    by (auto simp: res_fold_append res_bind_Inr)
  then have "known_action pj2 i" using request_adds_action assms(3,4) by blast
  with run show ?thesis by (rule res_fold_keeps [rotated]) (rule apply_record_keeps)
qed

subsection \<open>Properties\<close>

lemma gateway_projection_knows:
  assumes "gateway_projection c = Inr pj" and "r \<in> set (core_records c)"
    and "rec_event_type r = ET_ACTION_REQUESTED" and "jget (record_payload r) ''action_id'' = JStr i" and "i \<noteq> []"
  shows "known_action pj i"
proof -
  from assms(1) obtain pj0 rs where "iter_records (core_digest c) (core_ledger c) = Inr rs"
    and run: "res_fold apply_record rs pj0 = Inr pj"
    by (auto simp: gateway_projection_def project_ledger_def res_bind_Inr)
  then have "rs = core_records c"
    by (auto simp: iter_records_def ledger_snapshot_def res_bind_Inr split: if_splits)
  moreover have "payload_action_id (record_payload r) = Some i"
    using assms(4,5) by (simp add: payload_action_id_def string_or_none_def)
  ultimately show ?thesis using fold_knows_action [OF run] assms(2,3) by blast
qed

text \<open>
  C7. A command whose action id was requested before, in this run or an earlier one, is rejected as a
  duplicate whatever it asks for: the ledger gains the request and the rejection and nothing else.
\<close>

theorem action_id_used_once:
  assumes "core_ok c" and "gateway_projection c = Inr pj" and "command_payload cmd = Inr request"
    and "r \<in> set (core_records c)" and "rec_event_type r = ET_ACTION_REQUESTED"
    and "jget (record_payload r) ''action_id'' = JStr (cmd_action_id cmd)" and "cmd_action_id cmd \<noteq> []"
  shows "\<exists>rcp n c'. writes (gateway_submit policy wall cmd) c rcp
      [(ET_ACTION_REQUESTED, request),
       (ET_ACTION_REJECTED, rejection_payload cmd n ARR_DUPLICATE_ACTION_ID [''action_id already exists''] None)] c' \<and>
    rcp_status rcp = AS_REJECTED \<and> rcp_rejection_reason rcp = Some ARR_DUPLICATE_ACTION_ID"
proof -
  have v: "gateway_validate cmd pj = Inr (Some (ARR_DUPLICATE_ACTION_ID, [''action_id already exists'']))"
    using gateway_projection_knows [OF assms(2,4-7)] by (simp add: gateway_validate_def known_action_def)
  obtain q c1 where q: "writes (emit_object ET_ACTION_REQUESTED request) c q [(ET_ACTION_REQUESTED, request)] c1"
    using emit_object_writes [OF assms(1)] by blast
  from gateway_reject_writes [OF writes_ok [OF q], of cmd "rec_sequence q" ARR_DUPLICATE_ACTION_ID
      "[''action_id already exists'']" None]
  obtain rcp c2 where rej: "writes (gateway_reject cmd (rec_sequence q) ARR_DUPLICATE_ACTION_ID [''action_id already exists''] None)
      c1 rcp [(ET_ACTION_REJECTED, rejection_payload cmd (rec_sequence q) ARR_DUPLICATE_ACTION_ID
        [''action_id already exists''] None)] c2"
    "rcp_status rcp = AS_REJECTED" "rcp_rejection_reason rcp = Some ARR_DUPLICATE_ACTION_ID" by blast
  have "writes (gateway_submit policy wall cmd) c rcp ([(ET_ACTION_REQUESTED, request)] @
      [(ET_ACTION_REJECTED, rejection_payload cmd (rec_sequence q) ARR_DUPLICATE_ACTION_ID
        [''action_id already exists''] None)]) c2"
    unfolding gateway_submit_def
    by (rule writes_bind_state [where x = pj], simp add: assms(2), rule writes_bind_lift [OF assms(3)],
        rule writes_bind [OF q], rule writes_bind_lift [OF v]) (simp add: gateway_decide_def rej(1))
  with rej(2,3) show ?thesis by (intro exI conjI) auto
qed

text \<open>The ledger after a first request with the same id\<close>

definition requested_core :: core where
  "requested_core = snd (emit_object ET_ACTION_REQUESTED [(''action_id'', JStr ''a1'')] sample_core)"

lemma requested_core_run:
  "case gateway_projection requested_core of Inr pj \<Rightarrow> True | Inl _ \<Rightarrow> False"
  by code_simp

theorem action_id_used_once_witness:
  "\<exists>rcp c'. gateway_submit None 0 (sample_order_command ''a1'' ''5'') requested_core = (Inr rcp, c') \<and>
     rcp_rejection_reason rcp = Some ARR_DUPLICATE_ACTION_ID"
proof -
  let ?cmd = "sample_order_command ''a1'' ''5''"
  obtain q c1 where q: "writes (emit_object ET_ACTION_REQUESTED [(''action_id'', JStr ''a1'')]) sample_core q
      [(ET_ACTION_REQUESTED, [(''action_id'', JStr ''a1'')])] c1"
    using emit_object_writes [OF sample_core_ok] by blast
  then have c1: "c1 = requested_core" by (simp add: requested_core_def writes_def)
  from q c1 obtain new where new: "core_records requested_core = core_records sample_core @ new"
    "event_sink.facts [(ET_ACTION_REQUESTED, [(''action_id'', JStr ''a1'')])] new"
    by (auto simp: writes_def)
  from facts_record [OF new(2), of ET_ACTION_REQUESTED "[(''action_id'', JStr ''a1'')]"] new(1)
  obtain r :: audit_record where r: "r \<in> set (core_records requested_core)" "rec_event_type r = ET_ACTION_REQUESTED"
    "rec_payload r = JObj [(''action_id'', JStr ''a1'')]"
    by auto
  have "case command_payload ?cmd of Inr _ \<Rightarrow> True | Inl _ \<Rightarrow> False" by code_simp
  then obtain request where request: "command_payload ?cmd = Inr request" by (auto split: sum.splits)
  obtain pj where pj: "gateway_projection requested_core = Inr pj"
    using requested_core_run by (auto split: sum.splits)
  have named: "cmd_action_id ?cmd = ''a1''" by (simp add: sample_order_command_def)
  have id: "jget (record_payload r) ''action_id'' = JStr (cmd_action_id ?cmd)" using r(3) named by (simp add: jget_def payload_dict_def)
  from writes_ok [OF q] c1 have ok: "core_ok requested_core" by simp
  have "cmd_action_id ?cmd \<noteq> []" by (simp add: named)
  from action_id_used_once [OF ok pj request r(1,2) id this] show ?thesis unfolding writes_def by blast
qed

end
