(* ===== verification/Sizing.thy ===== *)
theory Sizing
  imports Commands "HOL-Library.While_Combinator"
begin

text \<open>
  \<^verbatim>\<open>orders/sizing.py\<close>: the sizes of follow-up, split, consolidated and staged orders, checked against the
  rules of their product, and \<^verbatim>\<open>PlaceOrderIntent.with_sizing_decision\<close>, which gives an intent its size.
\<close>

text \<open>The digits of a coefficient counted without writing them\<close>

lemma num_digits_code [code]: "num_digits n = (if n < 10 then 1 else num_digits (n div 10) + 1)"
  by (simp add: num_digits_def nat_to_str.simps [of n])

subsection \<open>Amounts\<close>

datatype amount = AmDecimal pydec | AmText string | AmInt int

fun amount_text :: "amount \<Rightarrow> string" where
  "amount_text (AmDecimal d) = dec_str d"
| "amount_text (AmText s) = s"
| "amount_text (AmInt i) = int_to_str i"

definition amount_decimal :: "amount \<Rightarrow> string \<Rightarrow> pydec res" where
  "amount_decimal a name =
     (case dec_parse (amount_text a) of
        None \<Rightarrow> Inl (value_error (name @ '' must be decimal-compatible''))
      | Some d \<Rightarrow> if is_finite d then Inr d else Inl (value_error (name @ '' must be finite'')))"

definition positive_amount :: "amount \<Rightarrow> string \<Rightarrow> pydec res" where
  "positive_amount a name =
     res_bind (amount_decimal a name) (\<lambda>d.
       res_if (dec_le d dec_zero) (Inl (value_error (name @ '' must be positive''))) (Inr d))"

definition optional_amount :: "amount option \<Rightarrow> string \<Rightarrow> pydec option res" where
  "optional_amount a name =
     (case a of None \<Rightarrow> Inr None | Some x \<Rightarrow> res_bind (amount_decimal x name) (\<lambda>d. Inr (Some d)))"

subsection \<open>Decisions\<close>

record sizing_decision =
  szd_status :: order_sizing_decision_status
  szd_lineage_relation :: order_lineage_relation
  szd_product_id :: string
  szd_requested_sizes :: "pydec list"
  szd_output_sizes :: "pydec list"
  szd_limit_price :: "pydec option"
  szd_reasons :: "string list"

definition new_sizing_decision :: "sizing_decision \<Rightarrow> sizing_decision res" where
  "new_sizing_decision d =
     (if szd_product_id d = [] then Inl (value_error ''product_id is required'')
      else if [] \<in> set (szd_reasons d) then Inl (value_error ''reasons must be a tuple of non-empty strings'')
      else Inr d)"

definition sizing_accepted :: "sizing_decision \<Rightarrow> bool" where
  "sizing_accepted d = (szd_status d = OSD_ACCEPTED)"

definition single_output_size :: "sizing_decision \<Rightarrow> string res" where
  "single_output_size d =
     (if \<not> sizing_accepted d then Inl (value_error ''accepted sizing decision required'')
      else case szd_output_sizes d of
        [s] \<Rightarrow> Inr (dec_str s)
      | _ \<Rightarrow> Inl (value_error ''sizing decision must have exactly one output size''))"

definition sizing_decision_payload :: "sizing_decision \<Rightarrow> payload" where
  "sizing_decision_payload d =
     [(''limit_price'', decimal_payload (szd_limit_price d)),
      (''lineage_relation'', JStr (order_lineage_relation_value (szd_lineage_relation d))),
      (''output_sizes'', JList (map (\<lambda>s. decimal_payload (Some s)) (szd_output_sizes d))),
      (''product_id'', JStr (szd_product_id d)),
      (''reasons'', JList (map JStr (szd_reasons d))),
      (''requested_sizes'', JList (map (\<lambda>s. decimal_payload (Some s)) (szd_requested_sizes d))),
      (''status'', JStr (order_sizing_decision_status_value (szd_status d)))]"

subsection \<open>The policy\<close>

record sizing_policy =
  szp_product :: product_metadata
  szp_allow_partial_followup :: bool
  szp_partial_followup_min_size :: "pydec option"
  szp_partial_followup_min_fraction :: "pydec option"

definition validate_optional_positive_decimal :: "string \<Rightarrow> pydec option \<Rightarrow> unit res" where
  "validate_optional_positive_decimal name v =
     res_if (when_set (\<lambda>d. dec_le d dec_zero) v) (Inl (value_error (name @ '' must be positive''))) (Inr ())"

definition validate_optional_fraction :: "string \<Rightarrow> pydec option \<Rightarrow> unit res" where
  "validate_optional_fraction name v =
     res_if (when_set (\<lambda>d. res_if (dec_le d dec_zero) (Inr True) (dec_lt dec_one d)) v)
       (Inl (value_error (name @ '' must be greater than 0 and less than or equal to 1''))) (Inr ())"

definition new_sizing_policy :: "sizing_policy \<Rightarrow> sizing_policy res" where
  "new_sizing_policy p =
     res_bind (validate_optional_positive_decimal ''partial_followup_min_size'' (szp_partial_followup_min_size p)) (\<lambda>_.
     res_bind (validate_optional_fraction ''partial_followup_min_fraction'' (szp_partial_followup_min_fraction p)) (\<lambda>_.
     Inr p))"

definition sizing_policy_from_values ::
  "product_metadata \<Rightarrow> bool \<Rightarrow> amount option \<Rightarrow> amount option \<Rightarrow> sizing_policy res" where
  "sizing_policy_from_values m allow min_size min_fraction =
     res_bind (optional_amount min_size ''partial_followup_min_size'') (\<lambda>s.
     res_bind (optional_amount min_fraction ''partial_followup_min_fraction'') (\<lambda>f.
     new_sizing_policy
       \<lparr>szp_product = m, szp_allow_partial_followup = allow, szp_partial_followup_min_size = s,
        szp_partial_followup_min_fraction = f\<rparr>))"

definition quote_rules_required :: "product_metadata \<Rightarrow> bool" where
  "quote_rules_required m = (prd_quote_min_size m \<noteq> None \<or> prd_quote_max_size m \<noteq> None)"

definition sizing_rejected ::
  "sizing_policy \<Rightarrow> order_lineage_relation \<Rightarrow> pydec list \<Rightarrow> pydec option \<Rightarrow> string list \<Rightarrow> sizing_decision res" where
  "sizing_rejected p relation requested price reasons =
     new_sizing_decision
       \<lparr>szd_status = OSD_REJECTED, szd_lineage_relation = relation, szd_product_id = prd_product_id (szp_product p),
        szd_requested_sizes = requested, szd_output_sizes = [], szd_limit_price = price, szd_reasons = reasons\<rparr>"

text \<open>The reasons one output size adds\<close>

definition output_size_reasons :: "product_metadata \<Rightarrow> pydec option \<Rightarrow> pydec \<Rightarrow> string list res" where
  "output_size_reasons m price s =
     res_bind (size_is_valid m (Some s)) (\<lambda>valid.
     res_bind
       (if quote_rules_required m \<and> price = None
        then Inr [''limit_price is required to evaluate product quote size rules'']
        else res_bind (notional_is_valid m (Some s) price) (\<lambda>ok.
               Inr (if ok then [] else [''output notional violates product quote size rules'']))) (\<lambda>rest.
     Inr ((if valid then [] else [''output size violates product base size rules'']) @ rest)))"

text \<open>\<^verbatim>\<open>tuple(dict.fromkeys(reasons))\<close>\<close>

definition unique_reasons :: "string list \<Rightarrow> string list" where
  "unique_reasons rs = rev (remdups (rev rs))"

definition price_reasons :: "product_metadata \<Rightarrow> pydec option \<Rightarrow> string list res" where
  "price_reasons m price =
     (case price of
        None \<Rightarrow> Inr []
      | Some _ \<Rightarrow> res_bind (price_is_valid m price) (\<lambda>ok.
          Inr (if ok then [] else [''limit_price violates product price increment''])))"

definition evaluate_output_sizes ::
  "sizing_policy \<Rightarrow> order_lineage_relation \<Rightarrow> pydec list \<Rightarrow> pydec list \<Rightarrow> pydec option \<Rightarrow> sizing_decision res" where
  "evaluate_output_sizes p relation requested outputs price =
     (let m = szp_product p in
      res_bind (price_reasons m price) (\<lambda>first.
      res_bind (res_map (output_size_reasons m price) outputs) (\<lambda>rest.
      let reasons = first @ concat rest in
      if reasons \<noteq> [] then sizing_rejected p relation requested price (unique_reasons reasons)
      else new_sizing_decision
        \<lparr>szd_status = OSD_ACCEPTED, szd_lineage_relation = relation, szd_product_id = prd_product_id m,
         szd_requested_sizes = requested, szd_output_sizes = outputs, szd_limit_price = price,
         szd_reasons = []\<rparr>)))"

subsection \<open>Follow-up, split and consolidated orders\<close>

definition reason_when :: "bool res \<Rightarrow> string \<Rightarrow> string list res" where
  "reason_when b reason = res_bind b (\<lambda>x. Inr (if x then [reason] else []))"

definition followup_size :: "sizing_policy \<Rightarrow> amount \<Rightarrow> amount \<Rightarrow> amount option \<Rightarrow> sizing_decision res" where
  "followup_size p parent_size filled_size limit_price =
     res_bind (positive_amount parent_size ''parent_size'') (\<lambda>parent.
     res_bind (positive_amount filled_size ''filled_size'') (\<lambda>filled.
     res_bind (optional_amount limit_price ''limit_price'') (\<lambda>price.
     res_bind (reason_when (dec_lt parent filled) ''filled_size cannot exceed parent_size'') (\<lambda>r1.
     res_bind (reason_when (if szp_allow_partial_followup p then Inr False else res_not (dec_eq filled parent))
        ''partial followup orders are disabled'') (\<lambda>r2.
     res_bind (reason_when (when_set (\<lambda>d. dec_lt filled d) (szp_partial_followup_min_size p))
        ''filled_size is below configured partial followup minimum size'') (\<lambda>r3.
     res_bind (reason_when
        (when_set (\<lambda>f. res_bind (dec_div filled parent) (\<lambda>q. dec_lt q f)) (szp_partial_followup_min_fraction p))
        ''filled_size is below configured partial followup minimum fraction'') (\<lambda>r4.
     let reasons = r1 @ r2 @ r3 @ r4 in
     if reasons \<noteq> [] then sizing_rejected p OLR_FOLLOWUP_AFTER_FILL [filled] price reasons
     else evaluate_output_sizes p OLR_FOLLOWUP_AFTER_FILL [filled] [filled] price)))))))"

definition split_sizes :: "sizing_policy \<Rightarrow> amount \<Rightarrow> int \<Rightarrow> amount option \<Rightarrow> sizing_decision res" where
  "split_sizes p total_size child_count limit_price =
     res_bind (positive_amount total_size ''total_size'') (\<lambda>total.
     res_bind (optional_amount limit_price ''limit_price'') (\<lambda>price.
     if child_count < 2
     then sizing_rejected p OLR_SPLIT_CHILD [total] price [''child_count must be at least 2'']
     else
       res_bind (dec_div total (dec_of_int child_count)) (\<lambda>child.
       res_bind (dec_mul child (dec_of_int child_count)) (\<lambda>whole.
       res_bind (dec_eq whole total) (\<lambda>even.
       if \<not> even
       then sizing_rejected p OLR_SPLIT_CHILD [total] price
              [''total_size cannot be split evenly without changing total exposure'']
       else evaluate_output_sizes p OLR_SPLIT_CHILD [total] (replicate (nat child_count) child) price)))))"

definition consolidated_size :: "sizing_policy \<Rightarrow> amount list \<Rightarrow> amount option \<Rightarrow> sizing_decision res" where
  "consolidated_size p source_sizes limit_price =
     res_bind (res_map (\<lambda>a. positive_amount a ''source_size'') source_sizes) (\<lambda>sizes.
     res_bind (optional_amount limit_price ''limit_price'') (\<lambda>price.
     if length sizes < 2
     then sizing_rejected p OLR_CONSOLIDATION sizes price [''consolidation requires at least two source sizes'']
     else res_bind (res_fold (\<lambda>s total. dec_add total s) sizes dec_zero) (\<lambda>total.
          evaluate_output_sizes p OLR_CONSOLIDATION sizes [total] price)))"

subsection \<open>Staged releases\<close>

definition floor_size :: "pydec \<Rightarrow> pydec option \<Rightarrow> pydec res" where
  "floor_size v inc =
     (case inc of
        None \<Rightarrow> Inr v
      | Some i \<Rightarrow> res_if (dec_le i dec_zero) (Inr v) (res_bind (dec_floordiv v i) (\<lambda>q. dec_mul q i)))"

definition ceil_size :: "pydec \<Rightarrow> pydec option \<Rightarrow> pydec res" where
  "ceil_size v inc =
     (case inc of
        None \<Rightarrow> Inr v
      | Some i \<Rightarrow>
          res_if (dec_le i dec_zero) (Inr v)
         (res_if (res_if (dec_eq v dec_zero) (Inr True) (res_bind (dec_mod v i) (\<lambda>r. dec_eq r dec_zero)))
            (Inr v)
            (res_bind (dec_floordiv v i) (\<lambda>q. res_bind (dec_add q dec_one) (\<lambda>q1. dec_mul q1 i)))))"

definition unit_notional :: "product_metadata \<Rightarrow> pydec \<Rightarrow> pydec res" where
  "unit_notional m price = res_bind (notional_multiplier m) (dec_mul price)"

definition maximum_release_size :: "product_metadata \<Rightarrow> pydec \<Rightarrow> pydec \<Rightarrow> pydec option res" where
  "maximum_release_size m price cap =
     res_bind (unit_notional m price) (\<lambda>u.
     res_bind (dec_div cap u) (\<lambda>visible.
     res_bind (case prd_base_max_size m of None \<Rightarrow> Inr visible | Some b \<Rightarrow> dec_min visible b) (\<lambda>visible.
     res_bind (floor_size visible (prd_base_increment m)) (\<lambda>floored.
     res_if (dec_le floored dec_zero) (Inr None) (Inr (Some floored))))))"

definition minimum_release_size :: "product_metadata \<Rightarrow> pydec \<Rightarrow> pydec res" where
  "minimum_release_size m price =
     res_bind (case prd_base_min_size m of None \<Rightarrow> Inr dec_zero | Some b \<Rightarrow> dec_max dec_zero b) (\<lambda>m1.
     res_bind (case prd_quote_min_size m of
                 None \<Rightarrow> Inr m1
               | Some q \<Rightarrow> res_bind (unit_notional m price) (\<lambda>u. res_bind (dec_div q u) (dec_max m1))) (\<lambda>m2.
     ceil_size m2 (prd_base_increment m)))"

text \<open>\<^verbatim>\<open>self.product.notional(size, price) or Decimal("0")\<close>\<close>

definition notional_or_zero :: "product_metadata \<Rightarrow> pydec \<Rightarrow> pydec \<Rightarrow> pydec res" where
  "notional_or_zero m s price =
     res_bind (product_notional m (Some s) (Some price)) (\<lambda>n. Inr (case n of
        None \<Rightarrow> dec_zero | Some d \<Rightarrow> if dec_bool d then d else dec_zero))"

definition release_size_is_valid :: "product_metadata \<Rightarrow> pydec \<Rightarrow> pydec \<Rightarrow> pydec \<Rightarrow> bool res" where
  "release_size_is_valid m s price cap =
     res_if (size_is_valid m (Some s))
       (res_if (notional_is_valid m (Some s) (Some price))
          (res_bind (notional_or_zero m s price) (\<lambda>n. dec_le n cap)) (Inr False)) (Inr False)"

definition rebalance_final_release ::
  "product_metadata \<Rightarrow> pydec list \<Rightarrow> pydec \<Rightarrow> pydec \<Rightarrow> pydec \<Rightarrow> pydec \<Rightarrow> pydec list option res" where
  "rebalance_final_release m outputs remaining price min_size cap =
     (if outputs = [] then Inr None
      else
        res_bind (res_bind (dec_max remaining min_size) (\<lambda>s. ceil_size s (prd_base_increment m))) (\<lambda>final.
        res_bind (dec_sub final remaining) (\<lambda>borrow.
        res_if (dec_le borrow dec_zero) (Inr None)
          (res_bind (dec_sub (last outputs) borrow) (\<lambda>previous.
           res_if (res_not (release_size_is_valid m previous price cap)) (Inr None)
          (res_if (res_not (release_size_is_valid m final price cap)) (Inr None)
             (Inr (Some (butlast outputs @ [previous, final])))))))))"

text \<open>
  \<^verbatim>\<open>while remaining > max_release_size\<close>: the outputs so far and what remains, or what the comparison or the
  subtraction raised. The loop is \<open>while_option\<close>: \<open>None\<close> when it does not end.
\<close>

type_synonym release_state = "(pydec list \<times> pydec) res"

definition release_more :: "pydec \<Rightarrow> release_state \<Rightarrow> bool" where
  "release_more max_size st = (case st of Inl e \<Rightarrow> False | Inr (outputs, remaining) \<Rightarrow> dec_lt max_size remaining \<noteq> Inr False)"

definition release_step :: "pydec \<Rightarrow> release_state \<Rightarrow> release_state" where
  "release_step max_size st =
     res_bind st (\<lambda>(outputs, remaining).
     res_bind (dec_lt max_size remaining) (\<lambda>_.
     res_bind (dec_sub remaining max_size) (\<lambda>rest. Inr (outputs @ [max_size], rest))))"

definition release_loop :: "pydec \<Rightarrow> pydec \<Rightarrow> release_state option" where
  "release_loop max_size amount = while_option (release_more max_size) (release_step max_size) (Inr ([], amount))"

definition staged_release_outputs ::
  "product_metadata \<Rightarrow> pydec \<Rightarrow> pydec \<Rightarrow> pydec \<Rightarrow> pydec \<Rightarrow> pydec \<Rightarrow> pydec list option res option" where
  "staged_release_outputs m amount price max_size min_size cap =
     (case dec_le amount max_size of
        Inl e \<Rightarrow> Some (Inl e)
      | Inr True \<Rightarrow> Some (Inr (Some [amount]))
      | Inr False \<Rightarrow>
          map_option (\<lambda>st. res_bind st (\<lambda>(outputs, remaining).
            res_if (dec_eq remaining dec_zero) (Inr (Some outputs))
           (res_if (release_size_is_valid m remaining price cap) (Inr (Some (outputs @ [remaining])))
              (rebalance_final_release m outputs remaining price min_size cap))))
            (release_loop max_size amount))"

definition staged_release_decision ::
  "sizing_policy \<Rightarrow> pydec \<Rightarrow> pydec \<Rightarrow> pydec \<Rightarrow> int option \<Rightarrow> pydec list option \<Rightarrow> sizing_decision res" where
  "staged_release_decision p amount price cap max_count outputs =
     (let reject = (\<lambda>reason. sizing_rejected p OLR_ROOT [amount] (Some price) [reason]) in
      case outputs of
        None \<Rightarrow> reject ''total_size cannot be split into valid staged releases''
      | Some outs \<Rightarrow>
          if (case max_count of None \<Rightarrow> False | Some n \<Rightarrow> n < int (length outs))
          then reject ''staged release count exceeds configured maximum''
          else
            res_bind (res_map (\<lambda>s. res_bind (notional_or_zero (szp_product p) s price) (\<lambda>n. dec_lt cap n)) outs) (\<lambda>breaches.
            if list_ex (\<lambda>b. b) breaches then reject ''output notional exceeds max_visible_notional''
            else evaluate_output_sizes p OLR_ROOT [amount] outs (Some price)))"

text \<open>The checked arguments of a staged release, with the largest size of a release when there is one\<close>

definition release_inputs ::
  "product_metadata \<Rightarrow> amount \<Rightarrow> amount \<Rightarrow> amount \<Rightarrow> int option \<Rightarrow> (pydec \<times> pydec \<times> pydec \<times> pydec option \<times> pydec) res" where
  "release_inputs m total_size limit_price max_visible_notional max_count =
     res_bind (positive_amount total_size ''total_size'') (\<lambda>amount.
     res_bind (positive_amount limit_price ''limit_price'') (\<lambda>price.
     res_bind (positive_amount max_visible_notional ''max_visible_notional'') (\<lambda>cap.
     if (case max_count of None \<Rightarrow> False | Some n \<Rightarrow> n \<le> 0)
     then Inl (value_error ''max_release_count must be positive when provided'')
     else
       res_bind (maximum_release_size m price cap) (\<lambda>max_size.
       res_bind (minimum_release_size m price) (\<lambda>min_size.
       res_bind (case max_size of None \<Rightarrow> Inr True | Some s \<Rightarrow> dec_lt s min_size) (\<lambda>low.
       Inr (amount, price, cap, (if low then None else max_size), min_size)))))))"

text \<open>\<^verbatim>\<open>LineageSizingPolicy.staged_release_sizes\<close>; \<open>None\<close> when it does not return\<close>

definition staged_release_sizes ::
  "sizing_policy \<Rightarrow> amount \<Rightarrow> amount \<Rightarrow> amount \<Rightarrow> int option \<Rightarrow> sizing_decision res option" where
  "staged_release_sizes p total_size limit_price max_visible_notional max_count =
     (case release_inputs (szp_product p) total_size limit_price max_visible_notional max_count of
        Inl e \<Rightarrow> Some (Inl e)
      | Inr (amount, price, cap, None, min_size) \<Rightarrow>
          Some (sizing_rejected p OLR_ROOT [amount] (Some price)
                  [''max_visible_notional is below minimum valid release size''])
      | Inr (amount, price, cap, Some max_size, min_size) \<Rightarrow>
          map_option (\<lambda>r. res_bind r (staged_release_decision p amount price cap max_count))
            (staged_release_outputs (szp_product p) amount price max_size min_size cap))"

subsection \<open>The size of an intent\<close>

definition decimal_strings_equal :: "string \<Rightarrow> string \<Rightarrow> bool" where
  "decimal_strings_equal l r =
     (case (dec_parse l, dec_parse r) of (Some x, Some y) \<Rightarrow> dec_eq x y = Inr True | _ \<Rightarrow> False)"

definition with_sizing_decision :: "place_order_intent \<Rightarrow> sizing_decision \<Rightarrow> place_order_intent res" where
  "with_sizing_decision i d =
     (if szd_product_id d \<noteq> poi_product_id i
      then Inl (value_error ''sizing decision product_id must match intent product_id'')
      else
        let price = map_option dec_str (szd_limit_price d) in
        if (case (price, poi_limit_price i) of (Some t, Some u) \<Rightarrow> \<not> decimal_strings_equal u t | _ \<Rightarrow> False)
        then Inl (value_error ''sizing decision limit_price must match intent limit_price'')
        else
          res_bind (single_output_size d) (\<lambda>s.
          new_place_order_intent
            (i\<lparr>poi_size := s, poi_limit_price := (case price of None \<Rightarrow> poi_limit_price i | Some t \<Rightarrow> Some t)\<rparr>)))"

subsection \<open>Exact arithmetic at a scale\<close>

text \<open>
  \<open>fits m x\<close>: a multiple of \<open>10 ^ m\<close> with fewer than 28 digits above it. Differences of such values are
  exact.
\<close>

fun fits :: "int \<Rightarrow> pydec \<Rightarrow> bool" where
  "fits m (DFin s c e) = (m \<le> e \<and> c * 10 ^ nat (e - m) < 10 ^ dec_prec)"
| "fits m _ = False"

definition scale_ok :: "int \<Rightarrow> bool" where
  "scale_ok m \<longleftrightarrow> dec_etiny \<le> m \<and> m \<le> 0"

lemma fits_finite: "fits m x \<Longrightarrow> is_finite x"
  by (cases x) auto

lemma fix_fits:
  assumes "scale_ok m" and "m \<le> k" and "c * 10 ^ nat (k - m) < 10 ^ dec_prec"
  shows "\<exists>z. dec_fix s c k = Inr z \<and> fits m z \<and> dec_rat z = dec_rat (DFin s c k)"
proof (cases "c = 0")
  case True
  with assms show ?thesis
    by (auto simp: dec_fix_def scale_ok_def dec_emax_def signed_def)
next
  case False
  then have "(10 :: nat) ^ nat (k - m) \<le> c * 10 ^ nat (k - m)" by simp
  with assms(3) have "(10 :: nat) ^ nat (k - m) < 10 ^ dec_prec" by linarith
  then have "nat (k - m) < dec_prec" by simp
  then have "k - m < 28" by (simp add: dec_prec_def nat_less_iff)
  then have "k \<le> dec_etop" using assms(1) by (simp add: scale_ok_def dec_prec_def dec_etop_def dec_emax_def)
  moreover have "c \<le> c * 10 ^ nat (k - m)" by simp
  then have "c < 10 ^ dec_prec" using assms(3) by linarith
  then have "num_digits c \<le> dec_prec" by (subst num_digits_le_iff) (simp_all add: dec_prec_def)
  moreover have "dec_etiny \<le> k" using assms(1,2) by (simp add: scale_ok_def)
  ultimately show ?thesis using assms(2,3) by (simp add: dec_fix_exact)
qed

lemma fits_sub:
  assumes "scale_ok m" and "fits m x" and "fits m y" and "0 \<le> dec_rat x" and "0 \<le> dec_rat y"
  obtains z where "dec_sub x y = Inr z" and "fits m z" and "dec_rat z = dec_rat x - dec_rat y"
proof -
  obtain s c e where x: "x = DFin s c e" using assms(2) by (cases x) auto
  obtain t d f where y: "y = DFin t d f" using assms(3) by (cases y) auto
  define k where "k = min e f"
  have mk: "m \<le> k" using assms(2,3) by (simp add: x y k_def)
  define a where "a = aligned k s c e"
  define b where "b = aligned k t d f"
  have p: "(0 :: rat) < power_int 10 k" by (simp add: zero_less_power_int)
  have ra: "of_int a * power_int 10 k = dec_rat x" and rb: "of_int b * power_int 10 k = dec_rat y"
    using aligned_rat [of k e s c] aligned_rat [of k f t d] by (simp_all add: a_def b_def x y k_def)
  have "0 \<le> a" "0 \<le> b" using assms(4,5) p unfolding ra [symmetric] rb [symmetric]
    by (simp_all add: zero_le_mult_iff)
  have abs_a: "nat (abs a) = c * 10 ^ nat (e - k)" and abs_b: "nat (abs b) = d * 10 ^ nat (f - k)"
    by (simp_all add: a_def b_def aligned_def signed_def abs_mult nat_mult_distrib nat_power_eq)
  have join: "c' * 10 ^ nat (e' - k) * 10 ^ nat (k - m) = c' * 10 ^ nat (e' - m)" if "k \<le> e'" for c' :: nat and e'
  proof -
    have "nat (e' - k) + nat (k - m) = nat (e' - m)" using that mk by simp
    then show ?thesis by (simp add: power_add [symmetric] mult.assoc del: power_add)
  qed
  have la: "nat (abs a) * 10 ^ nat (k - m) < 10 ^ dec_prec" and lb: "nat (abs b) * 10 ^ nat (k - m) < 10 ^ dec_prec"
    unfolding abs_a abs_b using assms(2,3) join [of e c] join [of f d] by (simp_all only: x y fits.simps k_def)
  have "nat (abs (a - b)) \<le> max (nat (abs a)) (nat (abs b))" using \<open>0 \<le> a\<close> \<open>0 \<le> b\<close> by auto
  then have "nat (abs (a - b)) * 10 ^ nat (k - m) \<le> max (nat (abs a)) (nat (abs b)) * 10 ^ nat (k - m)" by simp
  also have "\<dots> < 10 ^ dec_prec" using la lb by (simp add: max_def)
  finally have small: "nat (abs (a - b)) * 10 ^ nat (k - m) < 10 ^ dec_prec" .
  have neg: "aligned k (\<not> t) d f = - b" by (simp add: b_def aligned_def signed_def)
  define sg where "sg = (if a - b = 0 then c = 0 \<and> d = 0 \<and> s \<and> \<not> t else a - b < 0)"
  have run: "dec_sub x y = dec_fix sg (nat (abs (a - b))) k"
    by (auto simp: dec_sub_def dec_add_def with_numbers_def nan_operand_def x y Let_def sg_def
        k_def [symmetric] a_def [symmetric] neg)
  from fix_fits [OF assms(1) mk small, of sg] obtain z where
    z: "dec_fix sg (nat (abs (a - b))) k = Inr z" "fits m z" "dec_rat z = dec_rat (DFin sg (nat (abs (a - b))) k)" by blast
  have "signed sg (nat (abs (a - b))) = a - b" by (cases "a - b = 0") (auto simp: signed_def sg_def)
  then have "dec_rat z = of_int (a - b) * power_int 10 k" using z(3) by simp
  then have "dec_rat z = dec_rat x - dec_rat y" by (simp add: ra [symmetric] rb [symmetric] algebra_simps)
  with run z(1,2) that show thesis by simp
qed

subsection \<open>The loop of the staged releases\<close>

definition release_inv :: "int \<Rightarrow> pydec \<Rightarrow> pydec \<Rightarrow> release_state \<Rightarrow> bool" where
  "release_inv m max_size whole st \<longleftrightarrow>
     (\<exists>n rest. st = Inr (replicate n max_size, rest) \<and> fits m rest \<and> 0 < dec_rat rest \<and>
        dec_rat rest + of_nat n * dec_rat max_size = dec_rat whole)"

definition release_measure :: "pydec \<Rightarrow> release_state \<Rightarrow> nat" where
  "release_measure max_size st =
     (case st of Inl e \<Rightarrow> 0 | Inr (outputs, rest) \<Rightarrow> nat \<lceil>dec_rat rest / dec_rat max_size\<rceil>)"

lemma release_step_inv:
  assumes "scale_ok m" and "fits m max_size" and "0 < dec_rat max_size"
    and "release_inv m max_size whole st" and "release_more max_size st"
  shows "release_inv m max_size whole (release_step max_size st)"
    and "release_measure max_size (release_step max_size st) < release_measure max_size st"
proof -
  from assms(4) obtain n rest where st: "st = Inr (replicate n max_size, rest)" and rest: "fits m rest" "0 < dec_rat rest"
    and whole: "dec_rat rest + of_nat n * dec_rat max_size = dec_rat whole"
    by (auto simp: release_inv_def)
  note fin = fits_finite [OF assms(2)] fits_finite [OF rest(1)]
  from assms(5) have more: "dec_rat max_size < dec_rat rest" by (auto simp: release_more_def st fin)
  have "0 \<le> dec_rat rest" "0 \<le> dec_rat max_size" using rest(2) assms(3) by simp_all
  from fits_sub [OF assms(1) rest(1) assms(2) this]
  obtain z where z: "dec_sub rest max_size = Inr z" "fits m z" "dec_rat z = dec_rat rest - dec_rat max_size" .
  have step: "release_step max_size st = Inr (replicate (Suc n) max_size, z)"
    by (simp add: release_step_def st fin z(1) replicate_append_same)
  show "release_inv m max_size whole (release_step max_size st)"
    unfolding step release_inv_def using z(2,3) more whole
    by (intro exI [of _ "Suc n"] exI [of _ z]) (simp add: algebra_simps)
  have "dec_rat z / dec_rat max_size = dec_rat rest / dec_rat max_size - 1"
    using assms(3) z(3) by (simp add: diff_divide_distrib)
  moreover have "0 < \<lceil>dec_rat rest / dec_rat max_size\<rceil>" using rest(2) assms(3) by simp
  ultimately show "release_measure max_size (release_step max_size st) < release_measure max_size st"
    unfolding step by (simp add: release_measure_def st)
qed

lemma release_loop_exact:
  assumes "scale_ok m" and "fits m max_size" and "0 < dec_rat max_size" and "fits m whole" and "0 < dec_rat whole"
  obtains n rest where "release_loop max_size whole = Some (Inr (replicate n max_size, rest))"
    and "fits m rest" and "0 < dec_rat rest" and "dec_rat rest \<le> dec_rat max_size"
    and "dec_rat rest + of_nat n * dec_rat max_size = dec_rat whole"
proof -
  let ?P = "release_inv m max_size whole"
  have init: "?P (Inr ([], whole))"
    unfolding release_inv_def using assms(4,5) by (intro exI [of _ 0] exI [of _ whole]) simp
  obtain st where run: "release_loop max_size whole = Some st"
    using measure_while_option_Some [where P = ?P and b = "release_more max_size" and c = "release_step max_size"
        and f = "release_measure max_size" and s = "Inr ([], whole)"] release_step_inv [OF assms(1-3)] init
    unfolding release_loop_def by blast
  from run have "?P st"
    unfolding release_loop_def
    by (rule while_option_rule [rotated]) (use init release_step_inv [OF assms(1-3)] in blast)+
  moreover from run have "\<not> release_more max_size st"
    unfolding release_loop_def by (rule while_option_stop)
  ultimately obtain n rest where st: "st = Inr (replicate n max_size, rest)" "fits m rest" "0 < dec_rat rest"
    "dec_rat rest + of_nat n * dec_rat max_size = dec_rat whole" and stop: "\<not> release_more max_size st"
    by (auto simp: release_inv_def)
  have "dec_rat rest \<le> dec_rat max_size"
    using stop fits_finite [OF st(2)] fits_finite [OF assms(2)] by (simp add: release_more_def st(1) not_less)
  with run st that show thesis by blast
qed

text \<open>
  The loop of the staged releases ends when the whole size and the release size are multiples of a common
  power of ten with fewer than 28 digits above it: after full releases of the size, a rest that is
  positive and at most one release, and nothing is lost on the way.
\<close>

theorem staged_loop_terminates:
  assumes "scale_ok m" and "fits m max_size" and "0 < dec_rat max_size" and "fits m whole" and "0 < dec_rat whole"
  shows "\<exists>n rest. release_loop max_size whole = Some (Inr (replicate n max_size, rest)) \<and> 0 < dec_rat rest \<and>
    dec_rat rest \<le> dec_rat max_size \<and> dec_rat rest + of_nat n * dec_rat max_size = dec_rat whole"
  using release_loop_exact [OF assms] by metis

theorem staged_loop_terminates_witness:
  "\<exists>n rest. release_loop (DFin False 4 (-1)) (DFin False 105 (-2)) = Some (Inr (replicate n (DFin False 4 (-1)), rest)) \<and>
     dec_rat rest + of_nat n * (4 / 10) = 105 / 100"
proof -
  have "scale_ok (-2)" "fits (-2) (DFin False 4 (-1))" "fits (-2) (DFin False 105 (-2))"
    "0 < dec_rat (DFin False 4 (-1))" "0 < dec_rat (DFin False 105 (-2))"
    by (simp_all add: scale_ok_def dec_etiny_def dec_emin_def dec_prec_def signed_def)
  from staged_loop_terminates [OF this(1,2,4,3,5)] show ?thesis
    by (simp add: signed_def power_int_minus) (metis (no_types))
qed

text \<open>
  When the size of a release is lost in the rounding of what remains, the loop never ends: it appends the
  same release for ever.
\<close>

lemma release_loop_stuck:
  assumes "is_finite max_size" and "is_finite whole" and "dec_rat max_size < dec_rat rest" and "is_finite rest"
    and "dec_rat max_size < dec_rat whole" and "dec_sub whole max_size = Inr rest" and "dec_sub rest max_size = Inr rest"
  shows "release_loop max_size whole = None"
proof (rule ccontr)
  assume "release_loop max_size whole \<noteq> None"
  then obtain st where run: "while_option (release_more max_size) (release_step max_size) (Inr ([], whole)) = Some st"
    by (auto simp: release_loop_def)
  have "\<exists>outs r. st = Inr (outs, r) \<and> r \<in> {whole, rest}"
    by (rule while_option_rule [OF _ run]) (use assms in \<open>auto simp: release_step_def\<close>)
  moreover have "\<not> release_more max_size st" using run by (rule while_option_stop)
  ultimately show False using assms by (auto simp: release_more_def)
qed

end
