(* ===== verification/Sized_Orders.thy ===== *)
theory Sized_Orders
  imports Sizing
begin

text \<open>
  What an accepted sizing decision promises: sizes within the rules of the product and the visible
  notional, and the same exposure as the order they replace, as long as the arithmetic is exact.
\<close>

subsection \<open>Acceptance\<close>

lemma res_map_each: "res_map f xs = Inr ys \<Longrightarrow> x \<in> set xs \<Longrightarrow> \<exists>y \<in> set ys. f x = Inr y"
  by (induction xs arbitrary: ys) (auto simp: res_bind_Inr)

lemma sizing_rejected_not_accepted: "sizing_rejected p r q price reasons = Inr d \<Longrightarrow> \<not> sizing_accepted d \<and> szd_output_sizes d = []"
  by (auto simp: sizing_rejected_def new_sizing_decision_def sizing_accepted_def split: if_splits)

lemma evaluate_output_sizes_accepted:
  assumes "evaluate_output_sizes p relation requested outputs price = Inr d" and "sizing_accepted d"
  shows "szd_output_sizes d = outputs" and "szd_requested_sizes d = requested" and "szd_limit_price d = price"
    and "s \<in> set outputs \<Longrightarrow> size_is_valid (szp_product p) (Some s) = Inr True"
    and "s \<in> set outputs \<Longrightarrow> price \<noteq> None \<Longrightarrow> notional_is_valid (szp_product p) (Some s) price = Inr True"
    and "price \<noteq> None \<Longrightarrow> price_is_valid (szp_product p) price = Inr True"
proof -
  from assms(1) obtain first rest where
    first: "price_reasons (szp_product p) price = Inr first"
    and rest: "res_map (output_size_reasons (szp_product p) price) outputs = Inr rest"
    and fin: "(if first @ concat rest \<noteq> [] then sizing_rejected p relation requested price (unique_reasons (first @ concat rest))
      else new_sizing_decision
        \<lparr>szd_status = OSD_ACCEPTED, szd_lineage_relation = relation, szd_product_id = prd_product_id (szp_product p),
         szd_requested_sizes = requested, szd_output_sizes = outputs, szd_limit_price = price,
         szd_reasons = []\<rparr>) = Inr d"
    unfolding evaluate_output_sizes_def Let_def res_bind_Inr by (elim exE conjE)
  from fin assms(2) sizing_rejected_not_accepted have none: "first @ concat rest = []"
    and d: "new_sizing_decision
        \<lparr>szd_status = OSD_ACCEPTED, szd_lineage_relation = relation, szd_product_id = prd_product_id (szp_product p),
         szd_requested_sizes = requested, szd_output_sizes = outputs, szd_limit_price = price,
         szd_reasons = []\<rparr> = Inr d"
    by (auto split: if_splits)
  show "szd_output_sizes d = outputs" "szd_requested_sizes d = requested" "szd_limit_price d = price"
    using d by (auto simp: new_sizing_decision_def split: if_splits)
  show "price \<noteq> None \<Longrightarrow> price_is_valid (szp_product p) price = Inr True"
    using first none by (auto simp: price_reasons_def res_bind_Inr split: if_splits)
  assume s: "s \<in> set outputs"
  from res_map_each [OF rest s] none have "output_size_reasons (szp_product p) price s = Inr []" by auto
  then show "size_is_valid (szp_product p) (Some s) = Inr True"
    "price \<noteq> None \<Longrightarrow> notional_is_valid (szp_product p) (Some s) price = Inr True"
    by (auto simp: output_size_reasons_def res_bind_Inr split: if_splits)
qed

text \<open>What a decision on staged releases rests on\<close>

lemma staged_release_accepted:
  assumes "staged_release_sizes p whole price cap limit = Some (Inr d)" and "sizing_accepted d"
  obtains w pr c max_size min_size outs where
    "positive_amount whole ''total_size'' = Inr w" and "positive_amount price ''limit_price'' = Inr pr"
    and "positive_amount cap ''max_visible_notional'' = Inr c"
    and "maximum_release_size (szp_product p) pr c = Inr (Some max_size)"
    and "minimum_release_size (szp_product p) pr = Inr min_size"
    and "staged_release_outputs (szp_product p) w pr max_size min_size c = Some (Inr (Some outs))"
    and "\<forall>n. limit = Some n \<longrightarrow> int (length outs) \<le> n"
    and "\<forall>s \<in> set outs. \<exists>n. notional_or_zero (szp_product p) s pr = Inr n \<and> dec_lt c n = Inr False"
    and "evaluate_output_sizes p OLR_ROOT [w] outs (Some pr) = Inr d"
proof -
  have rej: "sizing_rejected p r q x reasons \<noteq> Inr d" for r q x reasons
    using sizing_rejected_not_accepted assms(2) by blast
  from assms obtain w pr c s min_size where
    inputs: "release_inputs (szp_product p) whole price cap limit = Inr (w, pr, c, Some s, min_size)"
    and out: "map_option (\<lambda>r. res_bind r (staged_release_decision p w pr c limit))
               (staged_release_outputs (szp_product p) w pr s min_size c) = Some (Inr d)"
    by (auto simp: staged_release_sizes_def rej split: sum.splits option.splits)
  from inputs have 1: "positive_amount whole ''total_size'' = Inr w" "positive_amount price ''limit_price'' = Inr pr"
      "positive_amount cap ''max_visible_notional'' = Inr c"
      "maximum_release_size (szp_product p) pr c = Inr (Some s)"
      "minimum_release_size (szp_product p) pr = Inr min_size"
    by (auto simp: release_inputs_def res_bind_Inr split: if_splits)
  from out obtain o1 where o1: "staged_release_outputs (szp_product p) w pr s min_size c = Some (Inr o1)"
    and dec: "staged_release_decision p w pr c limit o1 = Inr d"
    by (auto simp: res_bind_Inr)
  from dec obtain outs breaches where outs: "o1 = Some outs" "\<forall>n. limit = Some n \<longrightarrow> int (length outs) \<le> n"
    and br: "res_map (\<lambda>s. res_bind (notional_or_zero (szp_product p) s pr) (\<lambda>n. dec_lt c n)) outs = Inr breaches"
      "\<not> list_ex (\<lambda>b. b) breaches" and ev: "evaluate_output_sizes p OLR_ROOT [w] outs (Some pr) = Inr d"
    by (auto simp: staged_release_decision_def Let_def rej res_bind_Inr not_less split: option.splits if_splits)
  have "\<exists>n. notional_or_zero (szp_product p) s pr = Inr n \<and> dec_lt c n = Inr False" if "s \<in> set outs" for s
    using res_map_each [OF br(1) that] br(2) by (auto simp: res_bind_Inr list_ex_iff)
  with that 1 o1 outs ev show thesis by blast
qed

text \<open>
  C32. Accepted staged releases stay within every limit: each size obeys the base size and quote rules of
  the product and its notional is at most the visible notional, and there are at most as many releases
  as allowed.
\<close>

theorem staged_releases_within_limits:
  assumes "staged_release_sizes p whole price cap limit = Some (Inr d)" and "sizing_accepted d"
  shows "\<exists>pr c. positive_amount price ''limit_price'' = Inr pr \<and> positive_amount cap ''max_visible_notional'' = Inr c \<and>
    (\<forall>s \<in> set (szd_output_sizes d). size_is_valid (szp_product p) (Some s) = Inr True \<and>
       notional_is_valid (szp_product p) (Some s) (Some pr) = Inr True \<and>
       (\<exists>n. notional_or_zero (szp_product p) s pr = Inr n \<and> dec_lt c n = Inr False)) \<and>
    (\<forall>n. limit = Some n \<longrightarrow> int (length (szd_output_sizes d)) \<le> n)"
proof -
  from assms obtain w pr c max_size min_size outs where
    in_: "positive_amount price ''limit_price'' = Inr pr" "positive_amount cap ''max_visible_notional'' = Inr c"
    and limit: "\<forall>n. limit = Some n \<longrightarrow> int (length outs) \<le> n"
    and vis: "\<forall>s \<in> set outs. \<exists>n. notional_or_zero (szp_product p) s pr = Inr n \<and> dec_lt c n = Inr False"
    and ev: "evaluate_output_sizes p OLR_ROOT [w] outs (Some pr) = Inr d"
    by (rule staged_release_accepted)
  note acc = evaluate_output_sizes_accepted [OF ev assms(2)]
  from in_ limit vis acc(1,4,5) show ?thesis by auto
qed

definition plain_product :: product_metadata where
  "plain_product = spot_product\<lparr>prd_quote_min_size := None\<rparr>"

definition spot_policy :: sizing_policy where
  "spot_policy =
     \<lparr>szp_product = plain_product, szp_allow_partial_followup = True, szp_partial_followup_min_size = None,
      szp_partial_followup_min_fraction = None\<rparr>"

lemma forty_thirds: "dec_div (DFin False 40 0) (DFin False 3 0) = Inr (DFin False 1333333333333333333333333333 (- 26))"
proof -
  have "num_digits 133333333333333333333333333333 = 30" "num_digits 1333333333333333333333333333 = 28"
    "num_digits 40 = 2"
    by (rule num_digits_eqI; simp)+
  then show ?thesis
    by (simp add: dec_div_def with_numbers_def nan_operand_def dec_fix_def Let_def context_bounds
        one_digit div_half_even_def)
qed

lemma spot_fields:
  "prd_base_increment plain_product = Some (DFin False 1 (-3))" "prd_base_max_size plain_product = Some (DFin False 100 0)"
  by code_simp+

lemma spot_maximum_release:
  "maximum_release_size plain_product (DFin False 3 0) (DFin False 40 0) = Inr (Some (DFin False 13333 (-3)))"
proof -
  have "unit_notional plain_product (DFin False 3 0) = Inr (DFin False 3 0)" by code_simp
  moreover have "dec_min (DFin False 1333333333333333333333333333 (- 26)) (DFin False 100 0) =
      Inr (DFin False 1333333333333333333333333333 (- 26))" by code_simp
  moreover have "floor_size (DFin False 1333333333333333333333333333 (- 26)) (Some (DFin False 1 (-3))) =
      Inr (DFin False 13333 (-3))" by code_simp
  moreover have "dec_le (DFin False 13333 (-3)) dec_zero = Inr False" by code_simp
  ultimately show ?thesis
    by (simp only: maximum_release_size_def forty_thirds spot_fields res_bind.simps option.case res_if_def if_False)
qed

lemma spot_minimum_release: "minimum_release_size plain_product (DFin False 3 0) = Inr (DFin False 1 (-2))"
  by code_simp

lemma staged_inputs:
  "release_inputs plain_product (AmInt 30) (AmInt 3) (AmInt 40) (Some 3) =
     Inr (DFin False 30 0, DFin False 3 0, DFin False 40 0, Some (DFin False 13333 (-3)), DFin False 1 (-2))"
proof -
  have "positive_amount (AmInt 30) ''total_size'' = Inr (DFin False 30 0)"
    "positive_amount (AmInt 3) ''limit_price'' = Inr (DFin False 3 0)"
    "positive_amount (AmInt 40) ''max_visible_notional'' = Inr (DFin False 40 0)"
    "dec_lt (DFin False 13333 (-3)) (DFin False 1 (-2)) = Inr False"
    by code_simp+
  then show ?thesis
    by (simp only: release_inputs_def spot_maximum_release spot_minimum_release res_bind.simps option.case if_False)
      simp
qed

lemma staged_sample:
  "\<exists>d. staged_release_sizes spot_policy (AmInt 30) (AmInt 3) (AmInt 40) (Some 3) = Some (Inr d) \<and> sizing_accepted d \<and>
     szd_output_sizes d = [DFin False 13333 (-3), DFin False 13333 (-3), DFin False 3334 (-3)]"
proof -
  let ?outs = "[DFin False 13333 (-3), DFin False 13333 (-3), DFin False 3334 (-3)]"
  have "staged_release_outputs plain_product (DFin False 30 0) (DFin False 3 0) (DFin False 13333 (-3))
      (DFin False 1 (-2)) (DFin False 40 0) = Some (Inr (Some ?outs))" by code_simp
  moreover have "case staged_release_decision spot_policy (DFin False 30 0) (DFin False 3 0) (DFin False 40 0) (Some 3)
      (Some ?outs) of Inr d \<Rightarrow> sizing_accepted d \<and> szd_output_sizes d = ?outs | Inl _ \<Rightarrow> False" by code_simp
  then obtain d where "staged_release_decision spot_policy (DFin False 30 0) (DFin False 3 0) (DFin False 40 0) (Some 3)
      (Some ?outs) = Inr d" "sizing_accepted d" "szd_output_sizes d = ?outs" by (auto split: sum.splits)
  moreover have "szp_product spot_policy = plain_product" by (simp add: spot_policy_def)
  ultimately show ?thesis by (simp add: staged_release_sizes_def staged_inputs)
qed

theorem staged_releases_within_limits_witness:
  "\<exists>d. staged_release_sizes spot_policy (AmInt 30) (AmInt 3) (AmInt 40) (Some 3) = Some (Inr d) \<and>
     sizing_accepted d \<and> length (szd_output_sizes d) \<le> 3"
proof -
  from staged_sample obtain d where d: "staged_release_sizes spot_policy (AmInt 30) (AmInt 3) (AmInt 40) (Some 3)
      = Some (Inr d)" "sizing_accepted d" by blast
  from staged_releases_within_limits [OF d] d show ?thesis by auto
qed

subsection \<open>Staged releases keep the exposure\<close>

lemma staged_outputs_conserve:
  assumes "staged_release_outputs p whole pr max_size min_size cap = Some (Inr (Some outs))"
    and "scale_ok m" and "fits m whole" and "0 < dec_rat whole" and "fits m max_size" and "0 < dec_rat max_size"
    and "\<forall>s \<in> set outs. fits m s \<and> 0 \<le> dec_rat s"
  shows "sum_list (map dec_rat outs) = dec_rat whole"
proof (cases "dec_rat whole \<le> dec_rat max_size")
  case True
  with assms(1) fits_finite [OF assms(3)] fits_finite [OF assms(5)] show ?thesis
    by (auto simp: staged_release_outputs_def)
next
  case False
  obtain n rest where loop: "release_loop max_size whole = Some (Inr (replicate n max_size, rest))" and rest: "fits m rest"
    "0 < dec_rat rest" and eq: "dec_rat rest + of_nat n * dec_rat max_size = dec_rat whole"
    by (rule release_loop_exact [OF assms(2,5,6,3,4)])
  have "res_if (dec_eq rest dec_zero) (Inr (Some (replicate n max_size)))
      (res_if (release_size_is_valid p rest pr cap) (Inr (Some (replicate n max_size @ [rest])))
        (rebalance_final_release p (replicate n max_size) rest pr min_size cap)) = Inr (Some outs)"
    using assms(1) False fits_finite [OF assms(3)] fits_finite [OF assms(5)]
    by (simp add: staged_release_outputs_def loop)
  then have "outs = replicate n max_size @ [rest] \<or>
      rebalance_final_release p (replicate n max_size) rest pr min_size cap = Inr (Some outs)"
    using rest(2) fits_finite [OF rest(1)] by (auto simp: res_if_Inr)
  then show ?thesis
  proof
    assume "outs = replicate n max_size @ [rest]"
    then show ?thesis using eq by (simp add: sum_list_replicate)
  next
    assume "rebalance_final_release p (replicate n max_size) rest pr min_size cap = Inr (Some outs)"
    note re = this
    then have n: "n \<noteq> 0" by (cases n) (simp_all add: rebalance_final_release_def)
    then have ends: "replicate n max_size \<noteq> []" "last (replicate n max_size) = max_size"
      "butlast (replicate n max_size) = replicate (n - 1) max_size"
      by (simp_all add: butlast_conv_take)
    from re obtain final borrow previous where borrow: "dec_sub final rest = Inr borrow"
      and previous: "dec_sub max_size borrow = Inr previous" and pos: "dec_le borrow dec_zero = Inr False"
      and outs: "outs = replicate (n - 1) max_size @ [previous, final]"
      unfolding rebalance_final_release_def ends using n by (auto simp: res_if_Inr res_bind_Inr)
    from outs assms(7) have final: "fits m final" "0 \<le> dec_rat final" by auto
    have nonneg: "0 \<le> dec_rat rest" "0 \<le> dec_rat max_size" using rest(2) assms(6) by simp_all
    obtain z where z: "dec_sub final rest = Inr z" "fits m z" "dec_rat z = dec_rat final - dec_rat rest"
      by (rule fits_sub [OF assms(2) final(1) rest(1) final(2) nonneg(1)])
    from z(1) borrow have "z = borrow" by (metis sum.inject(2))
    note b = z(2,3) [unfolded this]
    from pos fits_finite [OF b(1)] have "0 \<le> dec_rat borrow" by simp
    then obtain z' where z': "dec_sub max_size borrow = Inr z'" "dec_rat z' = dec_rat max_size - dec_rat borrow"
      using fits_sub [OF assms(2,5) b(1) nonneg(2)] by metis
    from z'(1) previous have "z' = previous" by (metis sum.inject(2))
    note previous_rat = z'(2) [unfolded this]
    have "sum_list (map dec_rat outs) = of_nat (n - 1) * dec_rat max_size + (dec_rat previous + dec_rat final)"
      by (simp only: outs map_append map_replicate sum_list.append sum_list_replicate list.map sum_list_simps add_0_right)
    moreover have "of_nat n * dec_rat max_size = of_nat (n - 1) * dec_rat max_size + dec_rat max_size"
    proof -
      obtain k where "n = Suc k" using n by (cases n) auto
      then show ?thesis by (simp only: diff_Suc_1 of_nat_Suc distrib_right mult_1 add.commute)
    qed
    ultimately show ?thesis using eq previous_rat b(2) by linarith
  qed
qed

text \<open>
  C31. Accepted staged releases add up to the size they replace, exactly, also when the last two releases are
  rebalanced, as long as the sizes are multiples of a common power of ten with fewer than 28 digits.
\<close>

theorem staged_releases_conserve:
  assumes "staged_release_sizes p whole price cap limit = Some (Inr d)" and "sizing_accepted d"
    and "positive_amount whole ''total_size'' = Inr w" and "positive_amount price ''limit_price'' = Inr pr"
    and "positive_amount cap ''max_visible_notional'' = Inr c"
    and "maximum_release_size (szp_product p) pr c = Inr (Some max_size)"
    and "scale_ok m" and "fits m w" and "fits m max_size"
    and "\<forall>s \<in> set (szd_output_sizes d). fits m s \<and> 0 \<le> dec_rat s"
  shows "sum_list (map dec_rat (szd_output_sizes d)) = dec_rat w"
proof -
  from assms(1,2) obtain min_size outs where
    outs: "staged_release_outputs (szp_product p) w pr max_size min_size c = Some (Inr (Some outs))"
    and ev: "evaluate_output_sizes p OLR_ROOT [w] outs (Some pr) = Inr d"
    by (rule staged_release_accepted) (use assms(3-6) in auto)
  have "0 < dec_rat w" using assms(3) by (auto simp: positive_amount_def amount_decimal_def res_bind_Inr res_if_Inr
        split: option.splits if_splits)
  moreover have "0 < dec_rat max_size"
    using assms(6) fits_finite [OF assms(9)] by (auto simp: maximum_release_size_def res_bind_Inr res_if_Inr)
  ultimately show ?thesis
    using staged_outputs_conserve [OF outs assms(7,8) _ assms(9)] evaluate_output_sizes_accepted(1) [OF ev assms(2)] assms(10)
    by simp
qed

theorem staged_releases_conserve_witness:
  "\<exists>d. staged_release_sizes spot_policy (AmInt 30) (AmInt 3) (AmInt 40) (Some 3) = Some (Inr d) \<and>
     length (szd_output_sizes d) = 3 \<and> sum_list (map dec_rat (szd_output_sizes d)) = 30"
proof -
  from staged_sample obtain d where d: "staged_release_sizes spot_policy (AmInt 30) (AmInt 3) (AmInt 40) (Some 3)
      = Some (Inr d)" "sizing_accepted d"
    and outs: "szd_output_sizes d = [DFin False 13333 (-3), DFin False 13333 (-3), DFin False 3334 (-3)]" by blast
  have in_: "positive_amount (AmInt 30) ''total_size'' = Inr (DFin False 30 0)"
    "positive_amount (AmInt 3) ''limit_price'' = Inr (DFin False 3 0)"
    "positive_amount (AmInt 40) ''max_visible_notional'' = Inr (DFin False 40 0)"
    by code_simp+
  have p: "szp_product spot_policy = plain_product" by (simp add: spot_policy_def)
  have scale: "scale_ok (-3)" "fits (-3) (DFin False 30 0)" "fits (-3) (DFin False 13333 (-3))"
    by (simp_all add: scale_ok_def context_bounds)
  have fit: "\<forall>s \<in> set (szd_output_sizes d). fits (-3) s \<and> 0 \<le> dec_rat s"
    by (simp add: outs context_bounds signed_def)
  from staged_releases_conserve [OF d in_ _ scale fit] d outs show ?thesis
    by (simp add: p spot_maximum_release signed_def) 
qed

subsection \<open>Where rounding shows\<close>

text \<open>
  C40. A total so large that a release is lost in its 28 digits makes the loop append releases for ever:
  the call does not return.
\<close>

theorem staged_releases_never_return:
  "staged_release_sizes spot_policy (AmText ''1e40'') (AmInt 3) (AmInt 40) None = None"
proof -
  let ?max = "DFin False 13333 (-3)" and ?whole = "DFin False 1 40" and ?rest = "DFin False 1000000000000000000000000000 13"
  have in_: "positive_amount (AmText ''1e40'') ''total_size'' = Inr ?whole"
    "positive_amount (AmInt 3) ''limit_price'' = Inr (DFin False 3 0)"
    "positive_amount (AmInt 40) ''max_visible_notional'' = Inr (DFin False 40 0)"
    "dec_lt ?max (DFin False 1 (-2)) = Inr False"
    by code_simp+
  then have inputs: "release_inputs plain_product (AmText ''1e40'') (AmInt 3) (AmInt 40) None =
      Inr (?whole, DFin False 3 0, DFin False 40 0, Some ?max, DFin False 1 (-2))"
    by (simp only: release_inputs_def spot_maximum_release spot_minimum_release res_bind.simps option.case if_False)
  have "num_digits (10 ^ 43 - 13333) = 43" "num_digits (10 ^ 28) = 29"
    by (rule num_digits_eqI; simp)+
  then have step: "dec_sub ?whole ?max = Inr ?rest" "dec_sub ?rest ?max = Inr ?rest"
    by (simp_all add: dec_sub_def dec_add_def with_numbers_def nan_operand_def Let_def aligned_def signed_def
        dec_fix_def div_half_even_def context_bounds)
  have more: "dec_lt ?max ?whole = Inr True" "dec_lt ?max ?rest = Inr True" by code_simp+
  then have "dec_rat ?max < dec_rat ?whole" "dec_rat ?max < dec_rat ?rest" by (simp_all del: dec_rat.simps)
  note less = this
  have fin: "is_finite ?max" "is_finite ?whole" "is_finite ?rest" by simp_all
  note loop = release_loop_stuck [OF fin(1,2) less(2) fin(3) less(1) step]
  have "dec_le ?whole ?max = Inr False" by code_simp
  then have "staged_release_outputs plain_product ?whole (DFin False 3 0) ?max (DFin False 1 (-2)) (DFin False 40 0) = None"
    by (simp only: staged_release_outputs_def loop sum.case bool.case option.map)
  moreover have "szp_product spot_policy = plain_product" by (simp add: spot_policy_def)
  ultimately show ?thesis
    by (simp only: staged_release_sizes_def inputs sum.case prod.case option.case option.map)
qed

definition free_policy :: sizing_policy where
  "free_policy = spot_policy\<lparr>szp_product := plain_product\<lparr>prd_base_increment := None\<rparr>\<rparr>"

lemma two_thirds: "dec_div (DFin False 2 0) (DFin False 3 0) = Inr (DFin False 6666666666666666666666666667 (- 28))"
proof -
  have "num_digits 66666666666666666666666666666 = 29" "num_digits 6666666666666666666666666667 = 28"
    by (rule num_digits_eqI; simp)+
  then show ?thesis
    by (simp add: dec_div_def with_numbers_def nan_operand_def dec_fix_def Let_def context_bounds
        one_digit div_half_even_def)
qed

text \<open>
  The test that a split does not change the exposure compares the total with a product that is rounded
  to 28 digits: two coins are split into three children whose sizes add up to more than two.
\<close>

theorem split_changes_exposure:
  "\<exists>d. split_sizes free_policy (AmInt 2) 3 None = Inr d \<and> sizing_accepted d \<and>
     length (szd_output_sizes d) = 3 \<and> 2 < sum_list (map dec_rat (szd_output_sizes d))"
proof -
  let ?child = "DFin False 6666666666666666666666666667 (- 28)"
  have in_: "positive_amount (AmInt 2) ''total_size'' = Inr (DFin False 2 0)" by code_simp
  have three: "dec_of_int 3 = DFin False 3 0" by (simp add: dec_of_int_def)
  have "num_digits 20000000000000000000000000001 = 29" "num_digits 2000000000000000000000000000 = 28"
    by (rule num_digits_eqI; simp)+
  then have whole: "dec_mul ?child (DFin False 3 0) = Inr (DFin False 2000000000000000000000000000 (- 27))"
    by (simp add: dec_mul_def with_numbers_def nan_operand_def dec_fix_def Let_def context_bounds div_half_even_def)
  have same: "dec_eq (DFin False 2000000000000000000000000000 (- 27)) (DFin False 2 0) = Inr True"
    by (simp add: signed_def power_int_minus)
  have "case evaluate_output_sizes free_policy OLR_SPLIT_CHILD [DFin False 2 0] [?child, ?child, ?child] None of
      Inr d \<Rightarrow> sizing_accepted d \<and> szd_output_sizes d = [?child, ?child, ?child] | Inl _ \<Rightarrow> False" by code_simp
  then obtain d where d: "evaluate_output_sizes free_policy OLR_SPLIT_CHILD [DFin False 2 0] [?child, ?child, ?child] None = Inr d"
    "sizing_accepted d" "szd_output_sizes d = [?child, ?child, ?child]" by (auto split: sum.splits)
  have "replicate (nat 3) ?child = [?child, ?child, ?child]" by (simp add: numeral_3_eq_3)
  then have "split_sizes free_policy (AmInt 2) 3 None = Inr d"
    by (simp add: split_sizes_def in_ optional_amount_def three two_thirds whole same d(1))
  with d(2,3) show ?thesis by (intro exI [of _ d]) (simp add: signed_def power_int_minus)
qed

end
