(* ===== verification/Feeds.thy ===== *)
theory Feeds
  imports Memory
begin

text \<open>
  \<^verbatim>\<open>feeds/router.py\<close> and \<^verbatim>\<open>core/order_update_contract.py\<close>: several sources deliver the same messages; the
  router writes each receipt to the ledger, accepts the first message with a key and marks the others
  as duplicates, and watches how many sources are live. The state of the router stands beside the
  core; its clock is a sequence of readings.
\<close>

subsection \<open>The contract of an exchange order update\<close>

record order_update_contract =
  ouc_missing_fields :: "string list"
  ouc_invalid_fields :: "string list"

definition contract_valid :: "order_update_contract \<Rightarrow> bool" where
  "contract_valid r = (ouc_missing_fields r = [] \<and> ouc_invalid_fields r = [])"

definition update_status_or_none :: "string \<Rightarrow> exchange_order_status option" where
  "update_status_or_none s =
     (case exchange_order_status_of s of Some EOS_UNKNOWN \<Rightarrow> None | r \<Rightarrow> r)"

definition validate_exchange_order_update :: "payload \<Rightarrow> order_update_contract" where
  "validate_exchange_order_update p =
     (let status = string_or_none (jget p ''status'') in
      \<lparr>ouc_missing_fields =
         (if string_or_none (jget p ''order_id'') = None \<and> string_or_none (jget p ''client_order_id'') = None
          then [''order_id_or_client_order_id''] else [])
         @ (if string_or_none (jget p ''product_id'') = None then [''product_id''] else [])
         @ (if status = None then [''status''] else []),
       ouc_invalid_fields =
         (case status of None \<Rightarrow> []
          | Some s \<Rightarrow> if update_status_or_none s = None then [''status''] else [])\<rparr>)"

subsection \<open>Messages and sources\<close>

record feed_message =
  fm_source_id :: string
  fm_message_key :: string
  fm_event_type :: event_type
  fm_payload :: pyval
  fm_received_at :: "datetime option"

definition is_mapping :: "pyval \<Rightarrow> bool" where
  "is_mapping v = (case v of PvMapping _ \<Rightarrow> True | PvJson (JObj _) \<Rightarrow> True | _ \<Rightarrow> False)"

definition new_feed_message :: "feed_message \<Rightarrow> feed_message res" where
  "new_feed_message m =
     (if fm_source_id m = [] then Inl (value_error ''source_id is required'')
      else if fm_message_key m = [] then Inl (value_error ''message_key is required'')
      else if \<not> is_mapping (fm_payload m) then Inl (type_error ''payload must be a mapping'')
      else Inr m)"

record feed_source_state =
  fss_source_id :: string
  fss_status :: feed_status
  fss_last_seen :: "datetime option"

subsection \<open>The deduplicator\<close>

text \<open>An \<^verbatim>\<open>OrderedDict\<close> of keys, the one seen longest ago first\<close>

record deduplicator =
  ded_max_entries :: int
  ded_seen :: "string list"

definition new_deduplicator :: "int \<Rightarrow> deduplicator res" where
  "new_deduplicator n =
     (if n \<le> 0 then Inl (value_error ''max_entries must be positive'')
      else Inr \<lparr>ded_max_entries = n, ded_seen = []\<rparr>)"

definition move_to_end :: "'a \<Rightarrow> 'a list \<Rightarrow> 'a list" where
  "move_to_end k ks = remove1 k ks @ [k]"

definition pop_oldest_key :: "deduplicator \<Rightarrow> deduplicator" where
  "pop_oldest_key d =
     (if ded_max_entries d < int (length (ded_seen d)) then d\<lparr>ded_seen := tl (ded_seen d)\<rparr> else d)"

definition mark_seen :: "string \<Rightarrow> deduplicator \<Rightarrow> bool \<times> deduplicator" where
  "mark_seen k d =
     (if k \<in> set (ded_seen d) then (True, d\<lparr>ded_seen := move_to_end k (ded_seen d)\<rparr>)
      else (False, pop_oldest_key (d\<lparr>ded_seen := ded_seen d @ [k]\<rparr>)))"

definition seed_key :: "string \<Rightarrow> deduplicator \<Rightarrow> deduplicator" where
  "seed_key k d =
     (if k \<in> set (ded_seen d) then d\<lparr>ded_seen := move_to_end k (ded_seen d)\<rparr>
      else pop_oldest_key (d\<lparr>ded_seen := ded_seen d @ [k]\<rparr>))"

definition seed_seen :: "string list \<Rightarrow> deduplicator \<Rightarrow> deduplicator" where
  "seed_seen = fold seed_key"

definition seen_count :: "deduplicator \<Rightarrow> nat" where
  "seen_count d = length (ded_seen d)"

subsection \<open>The router\<close>

record feed_router =
  rtr_stale_after :: timedelta
  rtr_min_live_sources :: int
  rtr_deduplicator :: deduplicator
  rtr_expected_source_ids :: "string list"
  rtr_sources :: "(string, feed_source_state) dict"
  rtr_clock :: "nat \<Rightarrow> datetime"
  rtr_reads :: nat

type_synonym 'a routing = "(core \<times> feed_router, 'a) prog"

definition new_router ::
  "(nat \<Rightarrow> datetime) \<Rightarrow> timedelta \<Rightarrow> int \<Rightarrow> deduplicator \<Rightarrow> string list \<Rightarrow> feed_router res" where
  "new_router clock stale_after min_live_sources dedup expected =
     (if min_live_sources \<le> 0 then Inl (value_error ''min_live_sources must be positive'')
      else if stale_after \<le> 0 then Inl (value_error ''stale_after must be positive'')
      else if \<not> distinct expected then Inl (value_error ''expected_source_ids must be unique'')
      else Inr \<lparr>rtr_stale_after = stale_after, rtr_min_live_sources = min_live_sources, rtr_deduplicator = dedup,
                rtr_expected_source_ids = expected,
                rtr_sources = map (\<lambda>i. (i, \<lparr>fss_source_id = i, fss_status = FS_DISCONNECTED,
                                            fss_last_seen = None\<rparr>)) expected,
                rtr_clock = clock, rtr_reads = 0\<rparr>)"

text \<open>\<^verbatim>\<open>RedundantFeedRouter.from_ledger\<close>: the keys of the accepted messages, in the order of their first receipt\<close>

definition accepted_message_keys :: "projection \<Rightarrow> string list" where
  "accepted_message_keys pj =
     map msg_message_key (filter (\<lambda>m. msg_accepted_sequence m \<noteq> None) (dict_values (pj_data_messages pj)))"

definition router_from_ledger ::
  "core \<Rightarrow> (nat \<Rightarrow> datetime) \<Rightarrow> timedelta \<Rightarrow> int \<Rightarrow> int \<Rightarrow> string list \<Rightarrow> feed_router res" where
  "router_from_ledger c clock stale_after min_live_sources max_entries expected =
     res_bind (core_projection c) (\<lambda>pj.
     res_bind (new_deduplicator max_entries) (\<lambda>d.
     new_router clock stale_after min_live_sources (seed_seen (accepted_message_keys pj) d) expected))"

definition router_now :: "(feed_router, datetime) prog" where
  "router_now r = (Inr (rtr_clock r (rtr_reads r)), r\<lparr>rtr_reads := Suc (rtr_reads r)\<rparr>)"

definition allows_source :: "feed_router \<Rightarrow> string \<Rightarrow> bool" where
  "allows_source r i = (rtr_expected_source_ids r = [] \<or> i \<in> set (rtr_expected_source_ids r))"

definition assert_source_allowed :: "string \<Rightarrow> (feed_router, unit) prog" where
  "assert_source_allowed i r =
     (if allows_source r i then (Inr (), r) else (Inl (value_error (''source_id is not expected: '' @ i)), r))"

definition set_source :: "string \<Rightarrow> feed_status \<Rightarrow> datetime option \<Rightarrow> (feed_router, unit) prog" where
  "set_source i status last_seen r =
     (Inr (), r\<lparr>rtr_sources := dict_set i \<lparr>fss_source_id = i, fss_status = status, fss_last_seen = last_seen\<rparr>
                               (rtr_sources r)\<rparr>)"

definition mark_connected :: "string \<Rightarrow> datetime option \<Rightarrow> (feed_router, unit) prog" where
  "mark_connected i seen_at =
     prog_bind (assert_source_allowed i) (\<lambda>_.
     prog_bind (case seen_at of Some t \<Rightarrow> prog_return t | None \<Rightarrow> router_now) (\<lambda>t.
     set_source i FS_CONNECTED (Some t)))"

definition register_source :: "string \<Rightarrow> (feed_router, unit) prog" where
  "register_source i =
     prog_bind (assert_source_allowed i) (\<lambda>_ r.
       if dict_has (rtr_sources r) i then (Inr (), r) else set_source i FS_DISCONNECTED None r)"

definition mark_disconnected :: "string \<Rightarrow> (feed_router, unit) prog" where
  "mark_disconnected i =
     prog_bind (assert_source_allowed i) (\<lambda>_ r.
       set_source i FS_DISCONNECTED
         (Option.bind (dict_get (rtr_sources r) i) fss_last_seen) r)"

definition source_status :: "timedelta \<Rightarrow> datetime \<Rightarrow> feed_source_state \<Rightarrow> feed_status" where
  "source_status stale_after now s =
     (if fss_status s = FS_DISCONNECTED then FS_DISCONNECTED
      else case fss_last_seen s of
        None \<Rightarrow> FS_DISCONNECTED
      | Some t \<Rightarrow> if stale_after < now - t then FS_STALE else FS_CONNECTED)"

definition states_at :: "feed_router \<Rightarrow> datetime \<Rightarrow> feed_source_state list" where
  "states_at r now =
     map (\<lambda>(i, s). \<lparr>fss_source_id = i, fss_status = source_status (rtr_stale_after r) now s,
                   fss_last_seen = fss_last_seen s\<rparr>) (rtr_sources r)"

definition source_states :: "(feed_router, feed_source_state list) prog" where
  "source_states =
     prog_bind router_now (\<lambda>now r.
       (Inr (states_at r now), r))"

definition sources_in :: "feed_status \<Rightarrow> feed_source_state list \<Rightarrow> string list" where
  "sources_in status states = map fss_source_id (filter (\<lambda>s. fss_status s = status) states)"

definition degraded_payload :: "int \<Rightarrow> feed_source_state list \<Rightarrow> payload" where
  "degraded_payload min_live states =
     [(''connected_sources'', JList (map JStr (sources_in FS_CONNECTED states))),
      (''disconnected_sources'', JList (map JStr (sources_in FS_DISCONNECTED states))),
      (''live_count'', JInt (int (length (sources_in FS_CONNECTED states)))),
      (''min_live_sources'', JInt min_live),
      (''stale_sources'', JList (map JStr (sources_in FS_STALE states)))]"

definition audit_health :: "feed_source_state list routing" where
  "audit_health =
     prog_bind (on_local source_states) (\<lambda>states.
     prog_bind local_state (\<lambda>r.
       if int (length (sources_in FS_CONNECTED states)) < rtr_min_live_sources r
       then prog_bind (on_core (emit_object ET_FEED_DEGRADED (degraded_payload (rtr_min_live_sources r) states)))
              (\<lambda>_. prog_return states)
       else prog_return states))"

subsection \<open>Ingesting a message\<close>

definition emit_feed_error :: "error_code \<Rightarrow> string \<Rightarrow> payload \<Rightarrow> audit_record routing" where
  "emit_feed_error code message context =
     prog_bind (prog_lift (error_event_payload EC_FEED_SOURCE context (Some (error_code_value code)) None message False))
       (\<lambda>p. on_core (emit_object ET_ERROR p))"

definition unexpected_source_context :: "feed_router \<Rightarrow> feed_message \<Rightarrow> payload" where
  "unexpected_source_context r m =
     [(''expected_source_ids'', JList (map JStr (sort (rtr_expected_source_ids r)))),
      (''message_key'', JStr (fm_message_key m)),
      (''observed_source_id'', JStr (fm_source_id m))]"

definition invalid_update_context :: "feed_message \<Rightarrow> json \<Rightarrow> order_update_contract \<Rightarrow> payload" where
  "invalid_update_context m normalized contract =
     [(''event_type'', JStr (event_type_value (fm_event_type m))),
      (''invalid_fields'', JList (map JStr (ouc_invalid_fields contract))),
      (''message_key'', JStr (fm_message_key m)),
      (''missing_fields'', JList (map JStr (ouc_missing_fields contract))),
      (''order_field_present'', JBool (case jget (payload_dict normalized) ''order'' of JObj _ \<Rightarrow> True | _ \<Rightarrow> False)),
      (''raw_payload'', normalized),
      (''source_id'', JStr (fm_source_id m))]"

definition receipt_payload :: "feed_message \<Rightarrow> json \<Rightarrow> datetime \<Rightarrow> payload" where
  "receipt_payload m normalized received_at =
     [(''message_event_type'', JStr (event_type_value (fm_event_type m))),
      (''message_key'', JStr (fm_message_key m)),
      (''payload'', normalized),
      (''received_at'', JStr (isoformat received_at)),
      (''source_id'', JStr (fm_source_id m))]"

definition mark_message :: "string \<Rightarrow> (feed_router, bool) prog" where
  "mark_message k r =
     (case mark_seen k (rtr_deduplicator r) of (seen, d) \<Rightarrow> (Inr seen, r\<lparr>rtr_deduplicator := d\<rparr>))"

definition update_of :: "json \<Rightarrow> payload" where
  "update_of normalized = payload_dict (jget (payload_dict normalized) ''order'')"

definition record_receipt :: "feed_message \<Rightarrow> json \<Rightarrow> datetime \<Rightarrow> bool routing" where
  "record_receipt m normalized received_at =
     (let receipt = receipt_payload m normalized received_at in
      if fm_event_type m = ET_FEED_HEARTBEAT then
        prog_bind (on_core (emit_object ET_FEED_HEARTBEAT receipt)) (\<lambda>_.
        prog_bind audit_health (\<lambda>_. prog_return True))
      else
        prog_bind (on_core (emit_object ET_DATA_RECEIVED receipt)) (\<lambda>received.
        prog_bind (on_local (mark_message (fm_message_key m))) (\<lambda>duplicate.
        if duplicate then
          prog_bind (on_core (emit_object ET_DATA_DUPLICATE
             [(''message_key'', JStr (fm_message_key m)),
              (''received_sequence'', JInt (rec_sequence received)),
              (''source_id'', JStr (fm_source_id m))])) (\<lambda>_. prog_return False)
        else
          prog_bind (on_core (emit_object ET_DATA_ACCEPTED
             [(''message_event_type'', JStr (event_type_value (fm_event_type m))),
              (''message_key'', JStr (fm_message_key m)),
              (''received_sequence'', JInt (rec_sequence received)),
              (''source_id'', JStr (fm_source_id m))])) (\<lambda>_.
          prog_bind audit_health (\<lambda>_. prog_return True)))))"

definition receipt_time :: "feed_message \<Rightarrow> datetime routing" where
  "receipt_time m = (case fm_received_at m of Some t \<Rightarrow> prog_return t | None \<Rightarrow> on_local router_now)"

text \<open>The message of an allowed source\<close>

definition route_message :: "feed_message \<Rightarrow> datetime \<Rightarrow> bool routing" where
  "route_message m received_at =
     prog_bind (on_local (mark_connected (fm_source_id m) (Some received_at))) (\<lambda>_.
     prog_bind (prog_lift (normalize_json (fm_payload m))) (\<lambda>normalized.
     let contract = validate_exchange_order_update (update_of normalized) in
     if fm_event_type m = ET_EXCHANGE_ORDER_UPDATE \<and> \<not> contract_valid contract then
       prog_bind (emit_feed_error ER_EXCHANGE_ORDER_UPDATE_INVALID
           ''Feed router rejected an exchange order update that failed contract validation''
           (invalid_update_context m normalized contract)) (\<lambda>_. prog_return False)
     else record_receipt m normalized received_at))"

definition ingest :: "feed_message \<Rightarrow> bool routing" where
  "ingest m =
     prog_bind (receipt_time m) (\<lambda>received_at.
     prog_bind local_state (\<lambda>r.
       if \<not> allows_source r (fm_source_id m) then
         prog_bind (emit_feed_error ER_FEED_UNEXPECTED_SOURCE
             ''Feed router received a message from an unexpected source_id''
             (unexpected_source_context r m)) (\<lambda>_. prog_return False)
       else route_message m received_at))"

subsection \<open>The deduplicator remembers the most recent keys\<close>

text \<open>The abstract cache: the last \<open>n\<close> distinct keys of a history, the most recent last\<close>

definition most_recent :: "nat \<Rightarrow> 'a list \<Rightarrow> 'a list" where
  "most_recent n ks = (let r = remdups ks in drop (length r - n) r)"

lemma remdups_snoc: "remdups (ks @ [k]) = filter (\<lambda>x. x \<noteq> k) (remdups ks) @ [k]"
  by (induction ks) auto

lemma remove_key: "distinct ks \<Longrightarrow> remove1 k ks = filter (\<lambda>x. x \<noteq> k) ks"
  by (auto simp: distinct_remove1_removeAll removeAll_filter_not_eq intro!: filter_cong)

lemma recent_window:
  assumes "distinct r" and "0 < n" and "s = drop (length r - n) r"
  shows "drop (length (filter (\<lambda>x. x \<noteq> k) r @ [k]) - n) (filter (\<lambda>x. x \<noteq> k) r @ [k]) =
    (if k \<in> set s then filter (\<lambda>x. x \<noteq> k) s @ [k]
     else if n < length (s @ [k]) then tl (s @ [k]) else s @ [k])"
proof -
  obtain a where r: "r = a @ s" and la: "length a = length r - n"
    using assms(3) by (metis append_take_drop_id length_take min.absorb2 diff_le_self)
  have ls: "length s = min n (length r)" using assms(3) by simp
  have only: "filter (\<lambda>x. x \<noteq> k) ys = ys" if "k \<notin> set ys" for ys using that by (induction ys) auto
  have once: "length (filter (\<lambda>x. x \<noteq> k) ys) = length ys - 1" if "k \<in> set ys" "distinct ys" for ys
    using that by (simp add: remove_key [symmetric] length_remove1)
  show ?thesis
  proof (cases "k \<in> set s")
    case True
    with assms(1) r have "k \<notin> set a" "distinct s" by auto
    moreover from True have "0 < length s" by (cases s) auto
    ultimately show ?thesis using True r la once [OF True] by (simp add: only)
  next
    case False
    show ?thesis
    proof (cases "k \<in> set a")
      case True
      with assms(1) r have "distinct a" by simp
      from True have "0 < length a" by (cases a) auto
      with la ls have n: "n < length r" "length s = n" by auto
      with assms(2) have "s \<noteq> []" by auto
      have "length (filter (\<lambda>x. x \<noteq> k) a) = length r - n - 1" using once [OF True \<open>distinct a\<close>] la by simp
      then have "drop (length r - n) (filter (\<lambda>x. x \<noteq> k) a @ s @ [k]) = drop 1 (s @ [k])"
        using n(1) by simp
      moreover have "filter (\<lambda>x. x \<noteq> k) r @ [k] = filter (\<lambda>x. x \<noteq> k) a @ s @ [k]" using r False by (simp add: only)
      moreover have "length (filter (\<lambda>x. x \<noteq> k) a @ s @ [k]) = length r"
        using \<open>length (filter (\<lambda>x. x \<noteq> k) a) = length r - n - 1\<close> n by simp
      ultimately show ?thesis using False n(2) \<open>s \<noteq> []\<close> assms(2) by (simp only:) (simp add: drop_Suc)
    next
      case False': False
      have all: "filter (\<lambda>x. x \<noteq> k) r = r" using False False' r by (intro only) auto
      show ?thesis
      proof (cases "n \<le> length r")
        case True
        with ls assms(2) have "s \<noteq> []" "length s = n" by auto
        have "drop (Suc (length r) - n) r = tl s"
          using True assms(3) by (simp add: Suc_diff_le drop_Suc tl_drop)
        with True \<open>s \<noteq> []\<close> \<open>length s = n\<close> False all assms(2) show ?thesis by (simp add: Suc_diff_le)
      next
        case short: False
        with assms(3) have "s = r" by simp
        with short all False show ?thesis by simp
      qed
    qed
  qed
qed

lemma most_recent_snoc:
  assumes "0 < n"
  shows "most_recent n (ks @ [k]) =
    (if k \<in> set (most_recent n ks) then filter (\<lambda>x. x \<noteq> k) (most_recent n ks) @ [k]
     else if n < length (most_recent n ks @ [k]) then tl (most_recent n ks @ [k]) else most_recent n ks @ [k])"
  using recent_window [OF distinct_remdups [of ks] assms refl, of k]
  by (simp add: most_recent_def remdups_snoc Let_def)

lemma distinct_most_recent: "distinct (most_recent n ks)"
  by (simp add: most_recent_def Let_def)

lemma mark_seen_recent:
  assumes "0 < ded_max_entries d" and "ded_seen d = most_recent (nat (ded_max_entries d)) ks"
  shows "mark_seen k d = (k \<in> set (most_recent (nat (ded_max_entries d)) ks),
    d\<lparr>ded_seen := most_recent (nat (ded_max_entries d)) (ks @ [k])\<rparr>)"
proof -
  have "0 < nat (ded_max_entries d)" using assms(1) by simp
  note snoc = most_recent_snoc [OF this, of ks k]
  show ?thesis
    using assms distinct_most_recent [of "nat (ded_max_entries d)" ks] unfolding snoc
    by (auto simp: mark_seen_def pop_oldest_key_def move_to_end_def remove_key nat_less_iff zless_nat_eq_int_zless)
qed

lemma seed_key_mark: "seed_key k d = snd (mark_seen k d)"
  by (simp add: seed_key_def mark_seen_def)

lemma seed_seen_recent:
  assumes "0 < ded_max_entries d" and "ded_seen d = most_recent (nat (ded_max_entries d)) ks"
  shows "seed_seen ks' d = d\<lparr>ded_seen := most_recent (nat (ded_max_entries d)) (ks @ ks')\<rparr>"
  using assms
proof (induction ks' arbitrary: ks d)
  case Nil
  then show ?case by (simp add: seed_seen_def)
next
  case (Cons k ks')
  let ?d = "d\<lparr>ded_seen := most_recent (nat (ded_max_entries d)) (ks @ [k])\<rparr>"
  have "seed_seen (k # ks') d = seed_seen ks' ?d"
    using mark_seen_recent [OF Cons.prems, of k] by (simp add: seed_seen_def seed_key_mark)
  also have "\<dots> = ?d\<lparr>ded_seen := most_recent (nat (ded_max_entries ?d)) ((ks @ [k]) @ ks')\<rparr>"
    using Cons.prems(1) by (intro Cons.IH) simp_all
  finally show ?case by simp
qed

subsection \<open>What the router writes\<close>

definition health_events :: "feed_router \<Rightarrow> event list" where
  "health_events r =
     (let states = states_at r (rtr_clock r (rtr_reads r)) in
      if int (length (sources_in FS_CONNECTED states)) < rtr_min_live_sources r
      then [(ET_FEED_DEGRADED, degraded_payload (rtr_min_live_sources r) states)] else [])"

lemma audit_health_concludes:
  assumes "core_ok (fst s)"
  shows "concludes audit_health s (\<lambda>x es s'. x = Inr (states_at (snd s) (rtr_clock (snd s) (rtr_reads (snd s)))) \<and>
    es = health_events (snd s) \<and> snd s' = (snd s)\<lparr>rtr_reads := Suc (rtr_reads (snd s))\<rparr>)"
  unfolding audit_health_def
proof (rule concludes_state)
  let ?r = "(snd s)\<lparr>rtr_reads := Suc (rtr_reads (snd s))\<rparr>"
  show "on_local source_states s = (Inr (states_at (snd s) (rtr_clock (snd s) (rtr_reads (snd s)))), (fst s, ?r))"
    by (rule on_local_run) (simp add: source_states_def router_now_def prog_bind_def states_at_def)
qed (auto intro!: concludes_local_state concludes_emit concludes_return assms simp: health_events_def Let_def)

lemma feed_error_written:
  assumes "core_ok (fst s)" and "message \<noteq> []"
  shows "concludes (emit_feed_error code message context) s
    (\<lambda>y es s'. (\<exists>r. y = Inr r) \<and> map fst es = [ET_ERROR] \<and> snd s' = snd s)"
proof -
  obtain p where p: "error_event_payload EC_FEED_SOURCE context (Some (error_code_value code)) None message False = Inr p"
    using error_event_payload_ok_iff assms(2) by blast
  show ?thesis
    unfolding emit_feed_error_def p
    by (rule concludes_bind_lift [OF assms(1)]) (auto simp: named_def intro: concludes_emit_last assms(1))
qed

lemma emit_feed_error_concludes:
  assumes "core_ok (fst s)" and "message \<noteq> []"
  shows "concludes (prog_bind (emit_feed_error code message context) (\<lambda>_. prog_return x)) s
    (\<lambda>y es s'. y = Inr x \<and> map fst es = [ET_ERROR] \<and> snd s' = snd s)"
  by (rule concludes_bind [OF feed_error_written [OF assms]]) (auto intro: concludes_return)

definition acceptance_of :: "feed_message \<Rightarrow> int \<Rightarrow> event" where
  "acceptance_of m n = (ET_DATA_ACCEPTED,
     [(''message_event_type'', JStr (event_type_value (fm_event_type m))), (''message_key'', JStr (fm_message_key m)),
      (''received_sequence'', JInt n), (''source_id'', JStr (fm_source_id m))])"

definition duplicate_of :: "feed_message \<Rightarrow> int \<Rightarrow> event" where
  "duplicate_of m n = (ET_DATA_DUPLICATE,
     [(''message_key'', JStr (fm_message_key m)), (''received_sequence'', JInt n), (''source_id'', JStr (fm_source_id m))])"

lemma health_events_dedup [simp]: "health_events (r\<lparr>rtr_deduplicator := d\<rparr>) = health_events r"
  by (simp add: health_events_def states_at_def Let_def)

text \<open>The events of a message whose key is or is not known, from a router that has seen its source\<close>

definition routed_events :: "bool \<Rightarrow> feed_message \<Rightarrow> json \<Rightarrow> datetime \<Rightarrow> int \<Rightarrow> feed_router \<Rightarrow> event list" where
  "routed_events known m n t k r =
     (ET_DATA_RECEIVED, receipt_payload m n t) #
     (if known then [duplicate_of m k] else acceptance_of m k # health_events r)"

definition knows_key :: "feed_router \<Rightarrow> feed_message \<Rightarrow> bool" where
  "knows_key r m \<longleftrightarrow> fm_message_key m \<in> set (ded_seen (rtr_deduplicator r))"

lemma record_receipt_concludes:
  assumes "core_ok (fst s)" and "fm_event_type m \<noteq> ET_FEED_HEARTBEAT"
  shows "concludes (record_receipt m n t) s (\<lambda>x es s'.
    x = Inr (\<not> knows_key (snd s) m) \<and>
    rtr_deduplicator (snd s') = snd (mark_seen (fm_message_key m) (rtr_deduplicator (snd s))) \<and>
    rtr_expected_source_ids (snd s') = rtr_expected_source_ids (snd s) \<and>
    (\<exists>k. es = routed_events (knows_key (snd s) m) m n t k (snd s)))"
proof -
  define d where "d = rtr_deduplicator (snd s)"
  have seen: "fst (mark_seen (fm_message_key m) d) = (fm_message_key m \<in> set (ded_seen d))"
    by (simp add: mark_seen_def)
  have "concludes (if fm_message_key m \<in> set (ded_seen d) then
          prog_bind (on_core (emit_object ET_DATA_DUPLICATE
             [(''message_key'', JStr (fm_message_key m)), (''received_sequence'', JInt k),
              (''source_id'', JStr (fm_source_id m))])) (\<lambda>_. prog_return False)
        else
          prog_bind (on_core (emit_object ET_DATA_ACCEPTED
             [(''message_event_type'', JStr (event_type_value (fm_event_type m))),
              (''message_key'', JStr (fm_message_key m)), (''received_sequence'', JInt k),
              (''source_id'', JStr (fm_source_id m))])) (\<lambda>_.
          prog_bind audit_health (\<lambda>_. prog_return True)))
      (c, (snd s)\<lparr>rtr_deduplicator := snd (mark_seen (fm_message_key m) d)\<rparr>)
      (\<lambda>x es s'. x = Inr (fm_message_key m \<notin> set (ded_seen d)) \<and>
         rtr_deduplicator (snd s') = snd (mark_seen (fm_message_key m) d) \<and>
         rtr_expected_source_ids (snd s') = rtr_expected_source_ids (snd s) \<and>
         es = (if fm_message_key m \<in> set (ded_seen d) then [duplicate_of m k]
               else acceptance_of m k # health_events (snd s)))" if "core_ok c" for c k
  proof (cases "fm_message_key m \<in> set (ded_seen d)")
    case True
    then show ?thesis using that by (auto intro!: concludes_emit concludes_return simp: duplicate_of_def)
  next
    case False
    then show ?thesis
      using that by (auto intro!: concludes_emit concludes_bind [OF audit_health_concludes] concludes_return
          simp: acceptance_of_def)
  qed
  note decide = this
  have run: "on_local (mark_message (fm_message_key m)) (c, snd s) = (Inr (fm_message_key m \<in> set (ded_seen d)),
      (c, (snd s)\<lparr>rtr_deduplicator := snd (mark_seen (fm_message_key m) d)\<rparr>))" for c
    using seen by (simp add: on_local_def mark_message_def d_def split_beta)
  show ?thesis
    unfolding record_receipt_def Let_def if_not_P [OF assms(2)] d_def [symmetric] routed_events_def knows_key_def
  proof (rule concludes_emit [OF assms(1)], rule concludes_state, rule run)
    fix r c' assume "core_ok c'"
    from decide [OF this, of "rec_sequence r"] show "concludes
        (if fm_message_key m \<in> set (ded_seen d) then
          prog_bind (on_core (emit_object ET_DATA_DUPLICATE
             [(''message_key'', JStr (fm_message_key m)), (''received_sequence'', JInt (rec_sequence r)),
              (''source_id'', JStr (fm_source_id m))])) (\<lambda>_. prog_return False)
        else
          prog_bind (on_core (emit_object ET_DATA_ACCEPTED
             [(''message_event_type'', JStr (event_type_value (fm_event_type m))),
              (''message_key'', JStr (fm_message_key m)), (''received_sequence'', JInt (rec_sequence r)),
              (''source_id'', JStr (fm_source_id m))])) (\<lambda>_.
          prog_bind audit_health (\<lambda>_. prog_return True)))
      (c', (snd s)\<lparr>rtr_deduplicator := snd (mark_seen (fm_message_key m) d)\<rparr>)
      (\<lambda>x es s'. x = Inr (fm_message_key m \<notin> set (ded_seen d)) \<and>
         rtr_deduplicator (snd s') = snd (mark_seen (fm_message_key m) d) \<and>
         rtr_expected_source_ids (snd s') = rtr_expected_source_ids (snd s) \<and>
         (\<exists>k. (ET_DATA_RECEIVED, receipt_payload m n t) # es = (ET_DATA_RECEIVED, receipt_payload m n t) #
            (if fm_message_key m \<in> set (ded_seen d) then [duplicate_of m k]
             else acceptance_of m k # health_events (snd s))))"
      by (rule concludes_mono) auto
  qed simp
qed

lemma receipt_time_run:
  obtains t k where "receipt_time m (c, r) = (Inr t, (c, r\<lparr>rtr_reads := k\<rparr>))"
proof (cases "fm_received_at m")
  case None
  then show ?thesis
    by (intro that [of "rtr_clock r (rtr_reads r)" "Suc (rtr_reads r)"])
      (simp add: receipt_time_def on_local_def router_now_def)
next
  case (Some t)
  then show ?thesis by (intro that [of t "rtr_reads r"]) (simp add: receipt_time_def prog_return_def)
qed

lemma allows_source_frame [simp]:
  "allows_source (r\<lparr>rtr_reads := k\<rparr>) = allows_source r"
  "allows_source (r\<lparr>rtr_sources := x\<rparr>) = allows_source r"
  "allows_source (r\<lparr>rtr_deduplicator := d\<rparr>) = allows_source r"
  by (simp_all add: allows_source_def fun_eq_iff)

definition source_seen :: "string \<Rightarrow> datetime \<Rightarrow> feed_router \<Rightarrow> feed_router" where
  "source_seen i t r = r\<lparr>rtr_sources := dict_set i \<lparr>fss_source_id = i, fss_status = FS_CONNECTED,
     fss_last_seen = Some t\<rparr> (rtr_sources r)\<rparr>"

lemma mark_connected_run:
  "allows_source r i \<Longrightarrow> on_local (mark_connected i (Some t)) (c, r) = (Inr (), (c, source_seen i t r))"
  by (simp add: on_local_def mark_connected_def assert_source_allowed_def prog_bind_def prog_return_def
      set_source_def source_seen_def)

lemma source_seen_frame [simp]:
  "rtr_deduplicator (source_seen i t r) = rtr_deduplicator r"
  "rtr_expected_source_ids (source_seen i t r) = rtr_expected_source_ids r"
  "knows_key (source_seen i t r) m = knows_key r m"
  "knows_key (r\<lparr>rtr_reads := k\<rparr>) m = knows_key r m"
  by (simp_all add: source_seen_def knows_key_def)

text \<open>A message of an allowed source that normalises and meets its contract\<close>

definition admissible :: "feed_router \<Rightarrow> feed_message \<Rightarrow> json \<Rightarrow> bool" where
  "admissible r m n \<longleftrightarrow> allows_source r (fm_source_id m) \<and> normalize_json (fm_payload m) = Inr n \<and>
     (fm_event_type m = ET_EXCHANGE_ORDER_UPDATE \<longrightarrow> contract_valid (validate_exchange_order_update (update_of n)))"

lemma route_message_concludes:
  assumes "core_ok c" and "admissible r m n" and "fm_event_type m \<noteq> ET_FEED_HEARTBEAT"
  shows "concludes (route_message m t) (c, r) (\<lambda>x es s'.
    x = Inr (\<not> knows_key r m) \<and>
    rtr_deduplicator (snd s') = snd (mark_seen (fm_message_key m) (rtr_deduplicator r)) \<and>
    (\<exists>k. es = routed_events (knows_key r m) m n t k (source_seen (fm_source_id m) t r)))"
proof -
  let ?s = "(c, source_seen (fm_source_id m) t r)"
  have ok: "core_ok (fst ?s)" using assms(1) by simp
  from assms(2) have n: "normalize_json (fm_payload m) = Inr n" and allowed: "allows_source r (fm_source_id m)"
    and valid: "(fm_event_type m = ET_EXCHANGE_ORDER_UPDATE
      \<and> \<not> contract_valid (validate_exchange_order_update (update_of n))) = False" by (auto simp: admissible_def)
  show ?thesis
    unfolding route_message_def n
    by (rule concludes_state, rule mark_connected_run [OF allowed], simp, rule concludes_bind_lift [OF ok])
      (use concludes_mono [OF record_receipt_concludes [OF ok assms(3), of n t]] in \<open>simp_all add: named_def valid Let_def\<close>)
qed

lemma ingest_concludes:
  assumes "core_ok c" and "admissible r m n" and "fm_event_type m \<noteq> ET_FEED_HEARTBEAT"
  shows "concludes (ingest m) (c, r) (\<lambda>x es s'.
    x = Inr (\<not> knows_key r m) \<and>
    rtr_deduplicator (snd s') = snd (mark_seen (fm_message_key m) (rtr_deduplicator r)) \<and>
    (\<exists>t k j. es = routed_events (knows_key r m) m n t k (source_seen (fm_source_id m) t (r\<lparr>rtr_reads := j\<rparr>))))"
proof -
  obtain t j where t: "receipt_time m (c, r) = (Inr t, (c, r\<lparr>rtr_reads := j\<rparr>))" by (rule receipt_time_run)
  let ?r = "r\<lparr>rtr_reads := j\<rparr>"
  from assms(2) have adm: "admissible ?r m n" by (simp add: admissible_def)
  then have "allows_source ?r (fm_source_id m)" by (simp add: admissible_def)
  then show ?thesis
    unfolding ingest_def
    by (intro concludes_state [where m = "receipt_time m", OF t] concludes_local_state)
      (simp_all, rule concludes_mono [OF route_message_concludes [OF assms(1) adm assms(3), of t]], auto)
qed

subsection \<open>A router rebuilt from the ledger\<close>

lemma accepted_record_known:
  assumes "res_fold apply_record rs pj0 = Inr pj" and "keys_consistent pj0" and "r \<in> set rs"
    and "rec_event_type r = ET_DATA_ACCEPTED" and "string_or_none (jget (record_payload r) ''message_key'') = Some k"
  shows "message_accepted pj k"
proof -
  from assms(3) obtain pre post where rs: "rs = pre @ r # post" by (meson split_list)
  with assms(1) obtain pj1 pj2 where pre: "res_fold apply_record pre pj0 = Inr pj1"
    and step: "apply_record r pj1 = Inr pj2" and post: "res_fold apply_record post pj2 = Inr pj"
    by (auto simp: res_fold_append res_bind_Inr)
  have "keys_consistent (note_record r pj1)"
    using records_grow [OF pre] assms(2) same_memory_grows [of "note_record r pj1" pj1] by (auto simp: grows_def)
  moreover from step assms(4) have "apply_data r (note_record r pj1) = Inr pj2"
    by (simp add: apply_record_def apply_event_def)
  note same_memory_parts(2) [OF apply_data_memory [OF this assms(5)]]
  ultimately have "message_accepted pj2 k"
    using assms(4) by (auto simp: message_accepted_def keys_consistent_def set_message_def message_after_def Let_def
        message_of_projection_def new_data_message_def split: option.splits)
  with records_grow [OF post] show ?thesis by (simp add: grows_def remembers_def)
qed

lemma core_projection_knows:
  assumes "core_projection c = Inr pj" and "r \<in> set (core_records c)" and "rec_event_type r = ET_DATA_ACCEPTED"
    and "string_or_none (jget (record_payload r) ''message_key'') = Some k"
  shows "k \<in> set (accepted_message_keys pj)"
proof -
  from assms(1) obtain pj0 rs where init: "init_projection None None 1 [] = Inr pj0"
    and rs: "iter_records (core_digest c) (core_ledger c) = Inr rs" and run: "res_fold apply_record rs pj0 = Inr pj"
    by (auto simp: core_projection_def project_ledger_def res_bind_Inr)
  from rs have "rs = core_records c"
    by (auto simp: iter_records_def ledger_snapshot_def res_bind_Inr split: if_splits)
  moreover from init have "keys_consistent pj0"
    by (auto simp: init_projection_def res_bind_Inr empty_projection_def keys_consistent_def)
  ultimately have "message_accepted pj k" using accepted_record_known [OF run] assms(2-4) by blast
  then show ?thesis
    by (force simp: message_accepted_def accepted_message_keys_def dest: map_of_SomeD)
qed

lemma restarted_router_knows:
  assumes "router_from_ledger c clock stale live entries expected = Inr r" and "core_projection c = Inr pj"
    and "length (accepted_message_keys pj) \<le> nat entries" and "k \<in> set (accepted_message_keys pj)"
  shows "k \<in> set (ded_seen (rtr_deduplicator r))"
proof -
  from assms(1,2) obtain d where d: "new_deduplicator entries = Inr d"
    and r: "rtr_deduplicator r = seed_seen (accepted_message_keys pj) d"
    by (auto simp: router_from_ledger_def res_bind_Inr new_router_def split: if_splits)
  from d have "0 < ded_max_entries d" "ded_max_entries d = entries" "ded_seen d = most_recent (nat (ded_max_entries d)) []"
    by (auto simp: new_deduplicator_def most_recent_def split: if_splits)
  with seed_seen_recent [OF this(1,3), of "accepted_message_keys pj"] r
  have "ded_seen (rtr_deduplicator r) = most_recent (nat entries) (accepted_message_keys pj)" by simp
  moreover have "length (remdups (accepted_message_keys pj)) \<le> nat entries"
    using length_remdups_leq assms(3) by (rule order_trans)
  ultimately show ?thesis using assms(4) by (simp add: most_recent_def Let_def)
qed

subsection \<open>Properties\<close>

text \<open>
  C20. The deduplicator refines a memory of the last \<open>n\<close> distinct keys: after any history it holds exactly those, in the
  order of their last sight, and it calls a message a duplicate exactly when its key is among them.
\<close>

theorem deduplicator_remembers_recent:
  assumes "new_deduplicator n = Inr d" and "d' = fold (\<lambda>k d. snd (mark_seen k d)) ks d"
  shows "ded_seen d' = most_recent (nat n) ks \<and> (fst (mark_seen k d') \<longleftrightarrow> k \<in> set (most_recent (nat n) ks))"
proof -
  have d: "d' = seed_seen ks d" unfolding assms(2) seed_seen_def
    by (rule fold_cong) (simp_all add: seed_key_mark fun_eq_iff)
  from assms(1) have "0 < ded_max_entries d" "ded_max_entries d = n" "ded_seen d = most_recent (nat (ded_max_entries d)) []"
    by (auto simp: new_deduplicator_def most_recent_def split: if_splits)
  with seed_seen_recent [OF this(1,3), of ks] d have "ded_seen d' = most_recent (nat n) ks" by simp
  then show ?thesis by (simp add: mark_seen_def)
qed

theorem deduplicator_remembers_recent_witness:
  "ded_seen (fold (\<lambda>k d. snd (mark_seen k d)) [''a'', ''b'', ''a'', ''c''] \<lparr>ded_max_entries = 2, ded_seen = []\<rparr>)
     = [''a'', ''c'']"
  using deduplicator_remembers_recent [of 2 "\<lparr>ded_max_entries = 2, ded_seen = []\<rparr>", OF _ refl, of "[''a'', ''b'', ''a'', ''c'']"]
  by (simp add: new_deduplicator_def most_recent_def)

lemma ingest_outcome:
  assumes "core_ok c" and "admissible r m n" and "fm_event_type m \<noteq> ET_FEED_HEARTBEAT"
  shows "\<exists>c' r' t k j. ingest m (c, r) = (Inr (\<not> knows_key r m), (c', r')) \<and>
    extends_ledger c (routed_events (knows_key r m) m n t k (source_seen (fm_source_id m) t (r\<lparr>rtr_reads := j\<rparr>))) c' \<and>
    rtr_deduplicator r' = snd (mark_seen (fm_message_key m) (rtr_deduplicator r))"
  by (rule concludesE [OF ingest_concludes [OF assms]], elim conjE exE, intro exI conjI)
    (auto simp: prod_eq_iff)

text \<open>
  C27. A message of an expected source that normalises and meets its contract is written as received and then, in the same
  call, as accepted when its key is not remembered and as a duplicate when it is; the answer says which, and
  only an acceptance is followed by a health record.
\<close>

theorem message_received_then_decided:
  assumes "core_ok c" and "admissible r m n" and "fm_event_type m \<noteq> ET_FEED_HEARTBEAT"
  shows "\<exists>c' r' t k j. ingest m (c, r) = (Inr (\<not> knows_key r m), (c', r')) \<and>
    extends_ledger c (routed_events (knows_key r m) m n t k (source_seen (fm_source_id m) t (r\<lparr>rtr_reads := j\<rparr>))) c' \<and>
    rtr_deduplicator r' = snd (mark_seen (fm_message_key m) (rtr_deduplicator r))"
  by (rule ingest_outcome [OF assms])

text \<open>
  C8. A message accepted once is refused ever after, across restarts: whatever is written after the acceptance, a router
  rebuilt from the ledger whose capacity holds the accepted messages writes a message with the same key as
  received and duplicate, and nothing else.
\<close>

theorem accepted_messages_survive_restart:
  assumes "core_ok c" and "admissible r m n" and "fm_event_type m \<noteq> ET_FEED_HEARTBEAT" and "fm_message_key m \<noteq> []"
    and "ingest m (c, r) = (Inr True, (c1, r1))" and "extends_ledger c1 es c2"
    and "router_from_ledger c2 clock stale live entries expected = Inr r2" and "core_projection c2 = Inr pj"
    and "length (accepted_message_keys pj) \<le> nat entries"
    and "admissible r2 m2 n2" and "fm_event_type m2 \<noteq> ET_FEED_HEARTBEAT" and "fm_message_key m2 = fm_message_key m"
  shows "\<exists>c3 r3 t k. ingest m2 (c2, r2) = (Inr False, (c3, r3)) \<and>
    extends_ledger c2 [(ET_DATA_RECEIVED, receipt_payload m2 n2 t), duplicate_of m2 k] c3"
proof -
  obtain x es1 s' where "ingest m (c, r) = (x, s')" and led: "extends_ledger c es1 (fst s')"
    and post: "x = Inr (\<not> knows_key r m)" "\<exists>t k j. es1 = routed_events (knows_key r m) m n t k
      (source_seen (fm_source_id m) t (r\<lparr>rtr_reads := j\<rparr>))"
    using concludesE [OF ingest_concludes [OF assms(1-3)]] by (metis fst_conv)
  with assms(5) have s': "fst s' = c1" and new: "\<not> knows_key r m" by auto
  from post(2) new obtain k where acc: "acceptance_of m k \<in> set es1"
    by (elim exE) (simp add: routed_events_def, metis list.set_intros)
  from led s' assms(6) have "extends_ledger c (es1 @ es) c2" using extends_ledger_trans by blast
  then obtain rs where rs: "core_records c2 = core_records c @ rs" "event_sink.facts (es1 @ es) rs" and ok: "core_ok c2"
    by (auto simp: extends_ledger_def)
  have "acceptance_of m k \<in> set (es1 @ es)" using acc by simp
  from facts_record [OF rs(2) this [unfolded acceptance_of_def]] obtain q :: audit_record where
    "q \<in> set rs" and "rec_event_type q = ET_DATA_ACCEPTED" and p: "rec_payload q = JObj (snd (acceptance_of m k))"
    by (auto simp: acceptance_of_def)
  moreover from p have "jget (record_payload q) ''message_key'' = JStr (fm_message_key m)"
    by (simp add: jget_def payload_dict_def acceptance_of_def)
  ultimately have q: "q \<in> set (core_records c2)" "rec_event_type q = ET_DATA_ACCEPTED"
    "jget (record_payload q) ''message_key'' = JStr (fm_message_key m)" using rs(1) by auto
  from q(3) assms(4) have "string_or_none (jget (record_payload q) ''message_key'') = Some (fm_message_key m)"
    by (simp add: string_or_none_def)
  from core_projection_knows [OF assms(8) q(1,2) this] restarted_router_knows [OF assms(7-9)] assms(12)
  have "knows_key r2 m2" by (simp add: knows_key_def)
  then show ?thesis
    using ingest_outcome [OF ok assms(10,11)] by (auto simp: routed_events_def)
qed

definition sample_router :: feed_router where
  "sample_router =
     \<lparr>rtr_stale_after = seconds 30, rtr_min_live_sources = 1,
      rtr_deduplicator = \<lparr>ded_max_entries = 5, ded_seen = []\<rparr>, rtr_expected_source_ids = [], rtr_sources = [],
      rtr_clock = int, rtr_reads = 0\<rparr>"

definition sample_message :: "string \<Rightarrow> feed_message" where
  "sample_message source =
     \<lparr>fm_source_id = source, fm_message_key = ''k1'', fm_event_type = ET_DATA_RECEIVED, fm_payload = PvMapping [],
      fm_received_at = Some 0\<rparr>"

lemma sample_admissible: "rtr_expected_source_ids r = [] \<Longrightarrow> admissible r (sample_message i) (JObj [])"
  by (simp add: admissible_def sample_message_def allows_source_def dict_of_items_def)

theorem message_received_then_decided_witness:
  "\<exists>c' r'. ingest (sample_message ''s1'') (sample_core, sample_router) = (Inr True, (c', r')) \<and>
     ded_seen (rtr_deduplicator r') = [''k1'']"
  using message_received_then_decided [OF sample_core_ok sample_admissible, of sample_router "''s1''"]
  by (fastforce simp: knows_key_def sample_router_def sample_message_def mark_seen_def pop_oldest_key_def)

definition restart_run :: "bool res \<times> core \<times> feed_router" where
  "restart_run = ingest (sample_message ''s1'') (sample_core, sample_router)"

lemma restart_run_projects:
  "case core_projection (fst (snd restart_run)) of Inr pj \<Rightarrow> length (accepted_message_keys pj) = 1 | Inl e \<Rightarrow> False"
  by code_simp

theorem accepted_messages_survive_restart_witness:
  "\<exists>c1 r1 r2 c3 r3. ingest (sample_message ''s1'') (sample_core, sample_router) = (Inr True, (c1, r1)) \<and>
     router_from_ledger c1 int (seconds 30) 1 3 [] = Inr r2 \<and>
     ingest (sample_message ''s2'') (c1, r2) = (Inr False, (c3, r3))"
proof -
  have key: "fm_message_key (sample_message i) = ''k1''" "fm_event_type (sample_message i) \<noteq> ET_FEED_HEARTBEAT" for i
    by (simp_all add: sample_message_def)
  have a1: "admissible sample_router (sample_message ''s1'') (JObj [])"
    by (rule sample_admissible) (simp add: sample_router_def)
  from ingest_outcome [OF sample_core_ok this key(2)] obtain c1 r1 es where
    first: "ingest (sample_message ''s1'') (sample_core, sample_router) = (Inr True, (c1, r1))"
    and led: "extends_ledger sample_core es c1"
    by (auto simp: knows_key_def sample_router_def)
  from restart_run_projects first obtain pj where pj: "core_projection c1 = Inr pj" "length (accepted_message_keys pj) = 1"
    by (auto simp: restart_run_def split: sum.splits)
  then obtain r2 where r2: "router_from_ledger c1 int (seconds 30) 1 3 [] = Inr r2" "rtr_expected_source_ids r2 = []"
    by (auto simp: router_from_ledger_def new_deduplicator_def new_router_def seconds_def)
  have "fm_message_key (sample_message ''s1'') \<noteq> []" "length (accepted_message_keys pj) \<le> nat 3"
    "fm_message_key (sample_message ''s2'') = fm_message_key (sample_message ''s1'')" by (simp_all add: key pj(2))
  from accepted_messages_survive_restart [OF sample_core_ok a1 key(2) this(1) first
      extends_ledger_refl [OF extends_ledger_ok [OF led]] r2(1) pj(1) this(2) sample_admissible [OF r2(2), of "''s2''"] key(2) this(3)]
  first r2(1) show ?thesis by blast
qed

text \<open>A source that is live: not disconnected, and seen no longer ago than the limit\<close>

definition live_source :: "feed_router \<Rightarrow> datetime \<Rightarrow> string \<Rightarrow> bool" where
  "live_source r now i \<longleftrightarrow> (\<exists>s t. dict_get (rtr_sources r) i = Some s \<and> fss_status s \<noteq> FS_DISCONNECTED \<and>
     fss_last_seen s = Some t \<and> now - t \<le> rtr_stale_after r)"

lemma source_connected_iff:
  "source_status limit now s = FS_CONNECTED \<longleftrightarrow>
     fss_status s \<noteq> FS_DISCONNECTED \<and> (\<exists>t. fss_last_seen s = Some t \<and> now - t \<le> limit)"
  by (cases "fss_last_seen s") (auto simp: source_status_def)

lemma live_sources_count:
  assumes "distinct (dict_keys (rtr_sources r))"
  shows "length (sources_in FS_CONNECTED (states_at r now)) = card {i. live_source r now i}"
proof -
  have eq: "sources_in FS_CONNECTED (states_at r now)
    = map fst (filter (\<lambda>(i, s). source_status (rtr_stale_after r) now s = FS_CONNECTED) (rtr_sources r))"
    by (simp add: sources_in_def states_at_def filter_map comp_def case_prod_unfold)
  have "distinct (sources_in FS_CONNECTED (states_at r now))"
    unfolding eq using assms by (rule distinct_map_filter)
  moreover have "set (sources_in FS_CONNECTED (states_at r now)) = {i. live_source r now i}"
    unfolding eq using assms
    by (force simp: live_source_def source_connected_iff Some_eq_map_of_iff eq_commute [of "map_of _ _"]
        dest: map_of_SomeD)
  ultimately show ?thesis using distinct_card by fastforce
qed

text \<open>
  The health audit writes a degradation exactly when fewer sources than required are live at the reading of the clock it
  takes, and nothing otherwise; it answers with the state of every source.
\<close>

theorem degraded_iff_too_few_live:
  assumes "core_ok c" and "distinct (dict_keys (rtr_sources r))"
  shows "\<exists>c' r'. audit_health (c, r) = (Inr (states_at r (rtr_clock r (rtr_reads r))), (c', r')) \<and>
    extends_ledger c
      (if int (card {i. live_source r (rtr_clock r (rtr_reads r)) i}) < rtr_min_live_sources r
       then [(ET_FEED_DEGRADED, degraded_payload (rtr_min_live_sources r) (states_at r (rtr_clock r (rtr_reads r))))]
       else []) c'"
proof -
  have ok: "core_ok (fst (c, r))" using assms(1) by simp
  show ?thesis
    by (rule concludesE [OF audit_health_concludes [OF ok]])
      (auto simp: health_events_def Let_def live_sources_count [OF assms(2)] prod_eq_iff)
qed

theorem degraded_iff_too_few_live_witness:
  "\<exists>c' r'. audit_health (sample_core, sample_router) = (Inr [], (c', r')) \<and>
     extends_ledger sample_core [(ET_FEED_DEGRADED, degraded_payload 1 [])] c'"
proof -
  have "distinct (dict_keys (rtr_sources sample_router))" "{i. live_source sample_router 0 i} = {}"
    "rtr_clock sample_router (rtr_reads sample_router) = 0" "states_at sample_router 0 = []"
    "rtr_min_live_sources sample_router = 1"
    by (simp_all add: sample_router_def live_source_def states_at_def)
  with degraded_iff_too_few_live [OF sample_core_ok this(1)] show ?thesis by simp
qed

text \<open>
  A restart loses the order of use: the keys are seeded in the order of their first receipt, so with a capacity below the
  number of accepted messages a key seen again just before the restart is forgotten, though the router that was running
  would have refused it.
\<close>

theorem restart_forgets_recent_key:
  "''a'' \<in> set (ded_seen (fold (\<lambda>k d. snd (mark_seen k d)) [''a'', ''b'', ''a'', ''c''] \<lparr>ded_max_entries = 2, ded_seen = []\<rparr>)) \<and>
   (case project_records None None 1 []
      [sample_record 1 ET_DATA_ACCEPTED [(''message_key'', JStr ''a'')],
       sample_record 2 ET_DATA_ACCEPTED [(''message_key'', JStr ''b'')],
       sample_record 3 ET_DATA_DUPLICATE [(''message_key'', JStr ''a'')],
       sample_record 4 ET_DATA_ACCEPTED [(''message_key'', JStr ''c'')]] of
      Inr pj \<Rightarrow> ''a'' \<notin> set (ded_seen (seed_seen (accepted_message_keys pj) \<lparr>ded_max_entries = 2, ded_seen = []\<rparr>))
    | Inl e \<Rightarrow> False)"
  by code_simp

end
