(* ===== verification/Floats.thy ===== *)
theory Floats
  imports Sizing
begin

text \<open>
  The floats the sources compute with: delays and elapsed seconds. A finite float is a rational, rounded to
  the nearest binary64 number after each operation, and written with the shortest decimal text that
  reads back as it.
\<close>

definition round_float :: "rat \<Rightarrow> pyreal" where
  "round_float q = (case quotient_of q of (n, d) \<Rightarrow> binary64 (n < 0) (nat \<bar>n\<bar>) (nat d))"

text \<open>The exponent of the first digit of \<open>n / d\<close>\<close>

definition leading_exponent :: "nat \<Rightarrow> nat \<Rightarrow> int" where
  "leading_exponent n d =
     (let e = int (num_digits n) - int (num_digits d) in
      if n * 10 ^ nat (- e) < d * 10 ^ nat e then e - 1 else e)"

definition decimal_candidate :: "nat \<Rightarrow> nat \<Rightarrow> nat \<Rightarrow> nat \<times> int" where
  "decimal_candidate n d k =
     (let e = leading_exponent n d - int k + 1 in
      (div_half_even (n * 10 ^ nat (- e)) (d * 10 ^ nat e), e))"

definition reads_back :: "rat \<Rightarrow> nat \<times> int \<Rightarrow> bool" where
  "reads_back q = (\<lambda>(c, e). case scaled c e of (n, d) \<Rightarrow> binary64 False n d = RFin q)"

definition shortest_float :: "rat \<Rightarrow> pyfloat" where
  "shortest_float q =
     (case quotient_of \<bar>q\<bar> of (n, d) \<Rightarrow>
        if n = 0 then PyFloat False 0 0
        else case List.find (reads_back \<bar>q\<bar>) (map (decimal_candidate (nat n) (nat d)) [1..<18]) of
          Some (c, e) \<Rightarrow> PyFloat (q < 0) c e
        | None \<Rightarrow> (case decimal_candidate (nat n) (nat d) 17 of (c, e) \<Rightarrow> PyFloat (q < 0) c e))"

definition float_json :: "rat \<Rightarrow> json" where
  "float_json q = JFloat (shortest_float q)"

text \<open>\<^verbatim>\<open>timedelta.total_seconds()\<close>\<close>

definition total_seconds :: "timedelta \<Rightarrow> json" where
  "total_seconds d =
     (case round_float (of_int d / 1000000) of RFin q \<Rightarrow> float_json q | _ \<Rightarrow> float_json 0)"

definition float_overflow :: pyexc where
  "float_overflow = PyExc ''OverflowError'' ''(34, 'Numerical result out of range')'' None"

text \<open>
  \<^verbatim>\<open>x ** n\<close> is the nearest float of the exact power and raises when that is infinite; the powers of two
  below are exact.
\<close>

definition float_pow :: "rat \<Rightarrow> nat \<Rightarrow> rat res" where
  "float_pow x n = (case round_float (x ^ n) of RFin q \<Rightarrow> Inr q | _ \<Rightarrow> Inl float_overflow)"

subsection \<open>Powers of two\<close>

lemma bit_size_pow: "bit_size (2 ^ n) = Suc n"
proof (induction n)
  case 0
  show ?case by (simp add: bit_size.simps [of "Suc 0"] bit_size.simps [of 0])
next
  case (Suc n)
  have "bit_size (2 ^ Suc n) = Suc (bit_size (2 ^ Suc n div 2))" by (subst bit_size.simps) simp
  then show ?case by (simp add: Suc)
qed

lemma binary64_pow: "binary64 False (2 ^ n) 1 = (if n < 1024 then RFin (2 ^ n) else RInf False)"
proof -
  have one: "bit_size 1 = 1" using bit_size_pow [of 0] by simp
  have m: "div_half_even (2 ^ n * 2 ^ nat (- (int n - 52))) (1 * 2 ^ nat (int n - 52)) = 2 ^ 52"
  proof (cases "n \<le> 52")
    case True
    then have "nat (- (int n - 52)) = 52 - n" "nat (int n - 52) = 0" by simp_all
    with True show ?thesis by (simp add: div_half_even_def power_add [symmetric])
  next
    case False
    then have "nat (- (int n - 52)) = 0" "nat (int n - 52) = n - 52" by simp_all
    moreover from False have "(2 :: nat) ^ n = 2 ^ 52 * 2 ^ (n - 52)"
      by (metis le_add_diff_inverse linear power_add)
    ultimately show ?thesis by (simp add: div_half_even_def)
  qed
  have exact: "of_nat (2 ^ 52) * power_int 2 (int n - 52) = (2 :: rat) ^ n"
    by (simp add: power_int_diff)
  have "bit_size (2 ^ 52) = 53" using bit_size_pow [of 52] by simp
  moreover have "max (int n - 52) (- 1074) = int n - 52" by simp
  moreover have "int (bit_size (2 ^ n)) - int (bit_size 1) = int n" by (simp only: one bit_size_pow)
  moreover have "\<not> 2 ^ n * 2 ^ nat (- int n) < 1 * (2 :: nat) ^ nat (int n)" by simp
  ultimately show ?thesis
    unfolding binary64_def Let_def by (simp only: m exact if_False) auto
qed

lemma round_float_pow: "round_float (2 ^ n) = (if n < 1024 then RFin (2 ^ n) else RInf False)"
proof -
  have "(2 :: rat) ^ n = of_int (2 ^ n)" by simp
  then have "quotient_of (2 ^ n) = (2 ^ n, 1)" using quotient_of_int [of "2 ^ n"] by (simp add: Rat.of_int_def)
  then show ?thesis using binary64_pow [of n] by (simp add: round_float_def nat_power_eq)
qed

lemma float_pow_two: "float_pow 2 n = (if n < 1024 then Inr (2 ^ n) else Inl float_overflow)"
  by (simp add: float_pow_def round_float_pow)

end
