(* ===== verification/Supervisor.thy ===== *)
theory Supervisor
  imports Feeds Floats
begin

text \<open>
  \<^verbatim>\<open>feeds/supervisor.py\<close>: one source is connected, its messages are routed, the end of its stream is
  written, and it is connected again after a delay. What the source delivers, attempt by attempt, and what
  happens while the task sleeps are arguments; a call of \<^verbatim>\<open>stop\<close> is an item of either script.
\<close>

subsection \<open>The reconnect policy\<close>

record reconnect_policy =
  rcp_initial_delay_seconds :: rat
  rcp_max_delay_seconds :: rat
  rcp_multiplier :: rat

definition new_reconnect_policy :: "reconnect_policy \<Rightarrow> reconnect_policy res" where
  "new_reconnect_policy p =
     (if rcp_initial_delay_seconds p < 0 then Inl (value_error ''initial_delay_seconds must not be negative'')
      else if rcp_max_delay_seconds p < 0 then Inl (value_error ''max_delay_seconds must not be negative'')
      else if rcp_multiplier p < 1 then Inl (value_error ''multiplier must be at least 1'')
      else Inr p)"

definition default_reconnect_policy :: reconnect_policy where
  "default_reconnect_policy =
     \<lparr>rcp_initial_delay_seconds = 1, rcp_max_delay_seconds = 30, rcp_multiplier = 2\<rparr>"

text \<open>\<^verbatim>\<open>min(delay, max_delay_seconds)\<close> of a product that may be infinite\<close>

definition delay_for_attempt :: "reconnect_policy \<Rightarrow> nat \<Rightarrow> rat res" where
  "delay_for_attempt p completed_attempts =
     res_bind (float_pow (rcp_multiplier p) (completed_attempts - 1)) (\<lambda>factor.
     Inr (case round_float (rcp_initial_delay_seconds p * factor) of
            RFin delay \<Rightarrow> if rcp_max_delay_seconds p < delay then rcp_max_delay_seconds p else delay
          | _ \<Rightarrow> rcp_max_delay_seconds p))"

subsection \<open>The scripts of a source\<close>

datatype stream_item =
    Item feed_message
  | StreamFails pyexc
  | StreamCancelled
  | StopCalled

datatype sleep_outcome = Slept | StoppedAsleep | CancelledAsleep

text \<open>The router and the supervisor's stop flag stand beside the core.\<close>

type_synonym supervised = "feed_router \<times> bool"

definition on_router :: "'a routing \<Rightarrow> (core \<times> supervised, 'a) prog" where
  "on_router m s = (case m (fst s, fst (snd s)) of (x, (c, r)) \<Rightarrow> (x, (c, (r, snd (snd s)))))"

definition stop_requested :: "(core \<times> supervised, bool) prog" where
  "stop_requested s = (Inr (snd (snd s)), s)"

definition request_stop :: "(core \<times> supervised, unit) prog" where
  "request_stop s = (Inr (), (fst s, (fst (snd s), True)))"

definition cancelled_error :: pyexc where
  "cancelled_error = PyExc ''CancelledError'' [] None"

definition sequence_anomaly_event :: "event_type \<Rightarrow> bool" where
  "sequence_anomaly_event et = (et = ET_DATA_OUT_OF_ORDER \<or> et = ET_DATA_SEQUENCE_GAP)"

subsection \<open>One connection\<close>

definition mismatch_context :: "string \<Rightarrow> feed_message \<Rightarrow> payload" where
  "mismatch_context source m =
     [(''expected_source_id'', JStr source),
      (''message_key'', JStr (fm_message_key m)),
      (''observed_source_id'', JStr (fm_source_id m)),
      (''reason'', JStr (feed_stop_reason_value FSR_SOURCE_MISMATCH))]"

text \<open>The \<^verbatim>\<open>async for\<close> over the stream, with the reason it ends\<close>

fun consume_stream :: "string \<Rightarrow> stream_item list \<Rightarrow> (core \<times> supervised, feed_stop_reason) prog" where
  "consume_stream source [] = prog_return FSR_STREAM_ENDED"
| "consume_stream source (StopCalled # items) = prog_bind request_stop (\<lambda>_. consume_stream source items)"
| "consume_stream source (StreamFails e # items) = prog_raise e"
| "consume_stream source (StreamCancelled # items) = prog_return FSR_CANCELLED"
| "consume_stream source (Item m # items) =
     prog_bind stop_requested (\<lambda>stop.
     if stop then prog_return FSR_STOP_REQUESTED
     else if fm_source_id m \<noteq> source then
       prog_bind (on_router (emit_feed_error ER_FEED_SOURCE_MISMATCH
           ''Feed source emitted a message with a mismatched source_id'' (mismatch_context source m))) (\<lambda>_.
       prog_return FSR_SOURCE_MISMATCH)
     else
       prog_bind (on_router (ingest m)) (\<lambda>_.
       if sequence_anomaly_event (fm_event_type m) then prog_return FSR_SEQUENCE_ANOMALY
       else consume_stream source items))"

definition audit_disconnected :: "string \<Rightarrow> nat \<Rightarrow> feed_stop_reason \<Rightarrow> (core \<times> supervised, unit) prog" where
  "audit_disconnected source attempt reason =
     prog_bind (on_router (on_local (mark_disconnected source))) (\<lambda>_.
     prog_bind (on_core (emit_object ET_FEED_DISCONNECTED
        [(''attempt'', JInt (int attempt)),
         (''reason'', JStr (feed_stop_reason_value reason)),
         (''source_id'', JStr source)])) (\<lambda>_. prog_return ()))"

definition stream_error :: "string \<Rightarrow> nat \<Rightarrow> pyexc \<Rightarrow> (core \<times> supervised, unit) prog" where
  "stream_error source attempt e =
     prog_bind (prog_lift (exception_to_error_payload e EC_FEED_SOURCE
        [(''attempt'', JInt (int attempt)), (''source_id'', JStr source)] None (Some True))) (\<lambda>p.
     prog_bind (on_core (emit_object ET_ERROR p)) (\<lambda>_. prog_return ()))"

text \<open>\<^verbatim>\<open>finally\<close>: the second program runs whether the first returns or raises\<close>

definition prog_finally :: "('s, 'a) prog \<Rightarrow> ('s, unit) prog \<Rightarrow> ('s, 'a) prog" where
  "prog_finally m h s =
     (case m s of (x, t) \<Rightarrow> (case h t of (Inl e, u) \<Rightarrow> (Inl e, u) | (Inr _, u) \<Rightarrow> (x, u)))"

definition close_stream :: "string \<Rightarrow> nat \<Rightarrow> feed_stop_reason res \<Rightarrow> (core \<times> supervised, unit) prog" where
  "close_stream source attempt outcome =
     (case outcome of
        Inl e \<Rightarrow> prog_finally (stream_error source attempt e) (audit_disconnected source attempt FSR_ERROR)
      | Inr reason \<Rightarrow>
          prog_bind (audit_disconnected source attempt reason) (\<lambda>_.
          if reason = FSR_CANCELLED then prog_raise cancelled_error else prog_return ()))"

definition run_attempt :: "string \<Rightarrow> stream_item list \<Rightarrow> nat \<Rightarrow> (core \<times> supervised, unit) prog" where
  "run_attempt source items attempt =
     prog_bind (on_router (on_local (mark_connected source None))) (\<lambda>_.
     prog_bind (on_core (emit_object ET_FEED_CONNECTED
        [(''attempt'', JInt (int attempt)), (''source_id'', JStr source)])) (\<lambda>_ s.
     case consume_stream source items s of (outcome, t) \<Rightarrow> close_stream source attempt outcome t))"

subsection \<open>The loop of a source\<close>

text \<open>
  \<^verbatim>\<open>_run_source\<close>, for at most \<open>fuel\<close> further attempts; the answer is whether it ended. \<open>attempts\<close> are the
  attempts made so far.
\<close>

definition reached :: "nat option \<Rightarrow> nat \<Rightarrow> bool" where
  "reached max_attempts attempts = (case max_attempts of None \<Rightarrow> False | Some n \<Rightarrow> n \<le> attempts)"

definition wait_to_reconnect ::
  "reconnect_policy \<Rightarrow> string \<Rightarrow> sleep_outcome \<Rightarrow> nat \<Rightarrow> (core \<times> supervised, unit) prog" where
  "wait_to_reconnect policy source outcome attempts =
     prog_bind (on_router audit_health) (\<lambda>_.
     prog_bind (prog_lift (delay_for_attempt policy attempts)) (\<lambda>delay.
     prog_bind (on_core (emit_object ET_FEED_RECONNECT_SCHEDULED
        [(''attempt'', JInt (int attempts + 1)), (''delay_seconds'', float_json delay), (''source_id'', JStr source)])) (\<lambda>_.
     case outcome of
       Slept \<Rightarrow> prog_return ()
     | StoppedAsleep \<Rightarrow> request_stop
     | CancelledAsleep \<Rightarrow> prog_raise cancelled_error)))"

fun run_source ::
  "nat \<Rightarrow> reconnect_policy \<Rightarrow> string \<Rightarrow> (nat \<Rightarrow> stream_item list) \<Rightarrow> (nat \<Rightarrow> sleep_outcome) \<Rightarrow> nat option \<Rightarrow> nat \<Rightarrow>
     (core \<times> supervised, bool) prog" where
  "run_source 0 policy source streams sleeps max_attempts attempts = prog_return False"
| "run_source (Suc fuel) policy source streams sleeps max_attempts attempts =
     prog_bind stop_requested (\<lambda>stop.
     if stop \<or> reached max_attempts attempts then prog_return True
     else
       prog_bind (run_attempt source (streams (Suc attempts)) (Suc attempts)) (\<lambda>_.
       prog_bind stop_requested (\<lambda>stop.
       if stop \<or> reached max_attempts (Suc attempts) then prog_return True
       else
         prog_bind (wait_to_reconnect policy source (sleeps (Suc attempts)) (Suc attempts)) (\<lambda>_.
         run_source fuel policy source streams sleeps max_attempts (Suc attempts)))))"

subsection \<open>The supervisor\<close>

record feed_supervisor =
  sup_source_ids :: "string list"
  sup_policy :: reconnect_policy

definition register_sources :: "string list \<Rightarrow> (feed_router, unit list) prog" where
  "register_sources = prog_each register_source"

definition new_supervisor :: "string list \<Rightarrow> reconnect_policy option \<Rightarrow> (feed_router, feed_supervisor) prog" where
  "new_supervisor ids policy =
     (if ids = [] then prog_raise (value_error ''At least one feed source is required'')
      else if \<not> distinct ids then prog_raise (value_error ''Feed source ids must be unique'')
      else prog_bind (register_sources ids) (\<lambda>_.
        prog_return \<lparr>sup_source_ids = ids,
                     sup_policy = (case policy of None \<Rightarrow> default_reconnect_policy | Some p \<Rightarrow> p)\<rparr>))"

subsection \<open>Every message ends in the ledger\<close>

definition message_events :: "event_type set" where
  "message_events = {ET_ERROR, ET_FEED_HEARTBEAT, ET_DATA_RECEIVED, ET_DATA_DUPLICATE, ET_DATA_ACCEPTED, ET_FEED_DEGRADED}"

definition same_expectations :: "feed_router \<Rightarrow> feed_router \<Rightarrow> bool" where
  "same_expectations r r' \<longleftrightarrow> rtr_expected_source_ids r' = rtr_expected_source_ids r"

lemma same_expectations_frame [simp]:
  "same_expectations r r" "same_expectations r (source_seen i t r') = same_expectations r r'"
  "same_expectations r (r'\<lparr>rtr_reads := k\<rparr>) = same_expectations r r'"
  "same_expectations (source_seen i t r') r = same_expectations r' r"
  "same_expectations (r'\<lparr>rtr_reads := k\<rparr>) r = same_expectations r' r"
  by (simp_all add: same_expectations_def)

lemma allows_expected: "same_expectations r r' \<Longrightarrow> allows_source r' i = allows_source r i"
  by (simp add: same_expectations_def allows_source_def)

definition routes_message :: "feed_router \<Rightarrow> event list \<Rightarrow> feed_router \<Rightarrow> bool" where
  "routes_message r es r' \<longleftrightarrow> set (map fst es) \<subseteq> message_events \<and> same_expectations r r'"

lemma routes_message_frame [simp]:
  "routes_message (source_seen i t r) es r' = routes_message r es r'"
  "routes_message (r\<lparr>rtr_reads := k\<rparr>) es r' = routes_message r es r'"
  by (simp_all add: routes_message_def)

lemma routes_append: "routes_message r es r1 \<Longrightarrow> routes_message r1 es' r2 \<Longrightarrow> routes_message r (es @ es') r2"
  by (simp add: routes_message_def same_expectations_def)

lemma health_events_types: "set (map fst (health_events r)) \<subseteq> {ET_FEED_DEGRADED}"
  by (auto simp: health_events_def Let_def)

lemma audit_health_routes:
  assumes "core_ok c"
  shows "concludes audit_health (c, r) (\<lambda>x es s'. routes_message r es (snd s') \<and> (\<exists>y. x = Inr y))"
proof -
  have ok: "core_ok (fst (c, r))" using assms by simp
  show ?thesis
    by (rule concludes_mono [OF audit_health_concludes [OF ok]])
      (use health_events_types in \<open>auto simp: routes_message_def message_events_def\<close>)
qed

lemma record_receipt_routes:
  assumes "core_ok c"
  shows "concludes (record_receipt m n t) (c, r) (\<lambda>x es s'. routes_message r es (snd s'))"
proof (cases "fm_event_type m = ET_FEED_HEARTBEAT")
  case True
  have step: "concludes (prog_bind audit_health (\<lambda>_. prog_return True)) (c', r)
      (\<lambda>x es s'. routes_message r ((ET_FEED_HEARTBEAT, p) # es) (snd s'))" if "core_ok c'" for c' p
    by (rule concludes_bind [OF audit_health_routes [OF that]])
      (auto intro!: concludes_return simp: routes_message_def message_events_def)
  show ?thesis
    unfolding record_receipt_def Let_def if_P [OF True]
    by (rule concludes_emit) (use assms step in auto)
next
  case False
  have ok: "core_ok (fst (c, r))" using assms by simp
  show ?thesis
    by (rule concludes_mono [OF record_receipt_concludes [OF ok False]])
      (use health_events_types in \<open>auto simp: routes_message_def same_expectations_def routed_events_def
         message_events_def acceptance_of_def duplicate_of_def health_events_def Let_def split: if_splits\<close>)
qed

lemma feed_error_routes:
  assumes "core_ok c" and "message \<noteq> []"
  shows "concludes (prog_bind (emit_feed_error code message context) (\<lambda>_. prog_return x)) (c, r)
    (\<lambda>y es s'. routes_message r es (snd s'))"
proof -
  have ok: "core_ok (fst (c, r))" using assms(1) by simp
  show ?thesis
    by (rule concludes_mono [OF emit_feed_error_concludes [OF ok assms(2)]])
      (auto simp: routes_message_def message_events_def)
qed

lemma ingest_routes:
  assumes "core_ok c"
  shows "concludes (ingest m) (c, r) (\<lambda>x es s'. routes_message r es (snd s'))"
proof -
  obtain t j where t: "receipt_time m (c, r) = (Inr t, (c, r\<lparr>rtr_reads := j\<rparr>))" by (rule receipt_time_run)
  let ?r = "r\<lparr>rtr_reads := j\<rparr>" and ?c1 = "(c, source_seen (fm_source_id m) t (r\<lparr>rtr_reads := j\<rparr>))"
  have ok: "core_ok (fst ?c1)" using assms by simp
  have route: "concludes (route_message m t) (c, ?r) (\<lambda>x es s'. routes_message r es (snd s'))"
    if "allows_source ?r (fm_source_id m)"
    unfolding route_message_def
  proof (rule concludes_state, rule mark_connected_run [OF that], simp, rule concludes_bind_lift [OF ok named_normalize])
    show "routes_message r [] (snd ?c1)" by (simp add: routes_message_def)
    fix n
    show "concludes
        (let contract = validate_exchange_order_update (update_of n) in
         if fm_event_type m = ET_EXCHANGE_ORDER_UPDATE \<and> \<not> contract_valid contract then
           prog_bind (emit_feed_error ER_EXCHANGE_ORDER_UPDATE_INVALID
               ''Feed router rejected an exchange order update that failed contract validation''
               (invalid_update_context m n contract)) (\<lambda>_. prog_return False)
         else record_receipt m n t) ?c1 (\<lambda>x es s'. routes_message r es (snd s'))"
      unfolding Let_def using assms
      by (auto intro!: concludes_mono [OF feed_error_routes] concludes_mono [OF record_receipt_routes])
  qed
  show ?thesis
    unfolding ingest_def
    by (rule concludes_state, rule t, simp, rule concludes_local_state)
      (use route assms in \<open>auto intro!: concludes_mono [OF feed_error_routes]\<close>)
qed

subsection \<open>Every connection is closed\<close>

lemma concludes_on_router:
  "concludes m (c, r) Q \<Longrightarrow>
   concludes (on_router m) (c, (r, stop)) (\<lambda>x es s'. Q x es (fst s', fst (snd s')) \<and> snd (snd s') = stop)"
  unfolding concludes_def on_router_def by (force split: prod.splits)

lemma concludes_flag:
  "concludes (f ()) (c, (r, True)) P \<Longrightarrow> concludes (prog_bind request_stop f) (c, (r, stop)) P"
  "concludes (g stop) (c, (r, stop)) Q \<Longrightarrow> concludes (prog_bind stop_requested g) (c, (r, stop)) Q"
  by (rule concludes_state [where m = request_stop], simp_all add: request_stop_def)
    (rule concludes_state [where m = stop_requested], simp_all add: stop_requested_def)

definition script_ok :: "stream_item list \<Rightarrow> bool" where
  "script_ok items \<longleftrightarrow> (\<forall>e. StreamFails e \<in> set items \<longrightarrow> exc_class e \<noteq> [])"

lemma stream_ends:
  assumes "core_ok c" and "script_ok items"
  shows "concludes (consume_stream source items) (c, (r, stop)) (\<lambda>x es s'. routes_message r es (fst (snd s')) \<and>
    (StopCalled \<notin> set items \<longrightarrow> snd (snd s') = stop) \<and>
    (StreamCancelled \<notin> set items \<longrightarrow> x \<noteq> Inr FSR_CANCELLED))"
  using assms
proof (induction items arbitrary: c r stop)
  case Nil
  then show ?case by (auto intro!: concludes_return simp: routes_message_def)
next
  case (Cons item items)
  then have ok: "core_ok (fst (c, (r, stop)))" and rest: "script_ok items" by (auto simp: script_ok_def)
  note later = Cons.IH [OF _ rest]
  show ?case
  proof (cases item)
    case StopCalled
    show ?thesis
      unfolding StopCalled consume_stream.simps
      by (rule concludes_flag, rule concludes_mono [OF later]) (use Cons.prems in auto)
  next
    case (StreamFails e)
    with Cons.prems show ?thesis
      by (auto intro!: concludes_raise simp: routes_message_def script_ok_def)
  next
    case StreamCancelled
    with Cons.prems show ?thesis by (auto intro!: concludes_return simp: routes_message_def)
  next
    case (Item m)
    have body: "concludes
       (if stop then prog_return FSR_STOP_REQUESTED
        else if fm_source_id m \<noteq> source then
          prog_bind (on_router (emit_feed_error ER_FEED_SOURCE_MISMATCH
              ''Feed source emitted a message with a mismatched source_id'' (mismatch_context source m))) (\<lambda>_.
          prog_return FSR_SOURCE_MISMATCH)
        else
          prog_bind (on_router (ingest m)) (\<lambda>_.
          if sequence_anomaly_event (fm_event_type m) then prog_return FSR_SEQUENCE_ANOMALY
          else consume_stream source items)) (c, (r, stop)) (\<lambda>x es s'. routes_message r es (fst (snd s')) \<and>
            (StopCalled \<notin> set (item # items) \<longrightarrow> snd (snd s') = stop) \<and>
            (StreamCancelled \<notin> set (item # items) \<longrightarrow> x \<noteq> Inr FSR_CANCELLED))"
    proof (cases "stop \<or> fm_source_id m \<noteq> source")
      case True
      have "concludes (prog_bind (on_router (emit_feed_error ER_FEED_SOURCE_MISMATCH
              ''Feed source emitted a message with a mismatched source_id'' (mismatch_context source m))) (\<lambda>_.
          prog_return FSR_SOURCE_MISMATCH)) (c, (r, stop)) (\<lambda>x es s'. routes_message r es (fst (snd s')) \<and>
            snd (snd s') = stop \<and> x \<noteq> Inr FSR_CANCELLED)"
        by (rule concludes_bind [OF concludes_on_router [OF feed_error_written]])
          (use Cons.prems in \<open>auto intro!: concludes_return simp: routes_message_def message_events_def\<close>)
      with True Cons.prems(1) show ?thesis
        by (cases stop) (auto intro!: concludes_return elim: concludes_mono simp: routes_message_def)
    next
      case False
      have next_items: "concludes (if sequence_anomaly_event (fm_event_type m) then prog_return FSR_SEQUENCE_ANOMALY
            else consume_stream source items) (c1, (r1, stop)) (\<lambda>x es' s'. routes_message r (es @ es') (fst (snd s')) \<and>
          (StopCalled \<notin> set (item # items) \<longrightarrow> snd (snd s') = stop) \<and>
          (StreamCancelled \<notin> set (item # items) \<longrightarrow> x \<noteq> Inr FSR_CANCELLED))"
        if "core_ok c1" and "routes_message r es r1" for c1 r1 es
      proof (cases "sequence_anomaly_event (fm_event_type m)")
        case True
        with that show ?thesis by (auto intro!: concludes_return)
      next
        case False
        then show ?thesis
          unfolding if_not_P [OF False] using that
          by (intro concludes_mono [OF later [OF that(1)]]) (auto intro: routes_append)
      qed
      from False have go: "stop = False" "(fm_source_id m \<noteq> source) = False" by auto
      show ?thesis
        unfolding go if_False
      proof (rule concludes_bind [OF concludes_on_router [OF ingest_routes [OF Cons.prems(1)]]])
        fix x es s'
        assume "core_ok (fst s')" "routes_message r es (snd (fst s', fst (snd s'))) \<and> snd (snd s') = False"
        with next_items [of "fst s'" es "fst (snd s')"] go show "concludes
            (if sequence_anomaly_event (fm_event_type m) then prog_return FSR_SEQUENCE_ANOMALY
             else consume_stream source items) s' (\<lambda>y es'. \<lambda>s'. routes_message r (es @ es') (fst (snd s')) \<and>
            (StopCalled \<notin> set (item # items) \<longrightarrow> snd (snd s') = False) \<and>
            (StreamCancelled \<notin> set (item # items) \<longrightarrow> y \<noteq> Inr FSR_CANCELLED))"
          by (cases s') auto
      qed simp
    qed
    show ?thesis
      unfolding Item consume_stream.simps
      by (rule concludes_flag) (use body Item in simp)
  qed
qed

lemma source_step_run:
  assumes "allows_source r i" and "m = mark_connected i None \<or> m = mark_disconnected i"
  obtains r' where "on_router (on_local m) (c, (r, stop)) = (Inr (), (c, (r', stop)))" and "same_expectations r r'"
  using assms
  by (auto simp: on_router_def on_local_def mark_connected_def mark_disconnected_def assert_source_allowed_def prog_bind_def
      router_now_def set_source_def same_expectations_def)

definition disconnection :: "string \<Rightarrow> nat \<Rightarrow> feed_stop_reason \<Rightarrow> event" where
  "disconnection source attempt reason = (ET_FEED_DISCONNECTED,
     [(''attempt'', JInt (int attempt)), (''reason'', JStr (feed_stop_reason_value reason)), (''source_id'', JStr source)])"

definition connection :: "string \<Rightarrow> nat \<Rightarrow> event" where
  "connection source attempt =
     (ET_FEED_CONNECTED, [(''attempt'', JInt (int attempt)), (''source_id'', JStr source)])"

definition keeps :: "feed_router \<Rightarrow> bool \<Rightarrow> core \<times> supervised \<Rightarrow> bool" where
  "keeps r stop s \<longleftrightarrow> same_expectations r (fst (snd s)) \<and> snd (snd s) = stop"

lemma disconnection_written:
  assumes "core_ok c" and "allows_source r source"
  shows "concludes (audit_disconnected source attempt reason) (c, (r, stop))
    (\<lambda>x es s'. x = Inr () \<and> es = [disconnection source attempt reason] \<and> keeps r stop s')"
proof -
  obtain r' where r': "on_router (on_local (mark_disconnected source)) (c, (r, stop)) = (Inr (), (c, (r', stop)))"
    "same_expectations r r'"
    by (rule source_step_run [OF assms(2), of "mark_disconnected source"]) auto
  show ?thesis
    unfolding audit_disconnected_def
    by (rule concludes_state, rule r'(1), simp)
      (use assms(1) r'(2) in \<open>auto intro!: concludes_emit concludes_return simp: keeps_def disconnection_def\<close>)
qed

lemma concludes_finally:
  assumes "concludes m s Q" and "\<And>x es s'. core_ok (fst s') \<Longrightarrow> Q x es s' \<Longrightarrow>
      concludes h s' (\<lambda>y es' s''. y = Inr () \<and> P x (es @ es') s'')"
  shows "concludes (prog_finally m h) s P"
proof -
  from assms(1) obtain x es s1 where m: "m s = (x, s1)" "named x" "extends_ledger (fst s) es (fst s1)" "Q x es s1"
    by (auto simp: concludes_def)
  from assms(2) [OF extends_ledger_ok [OF m(3)] m(4)] obtain es' s2 where h: "h s1 = (Inr (), s2)"
    "extends_ledger (fst s1) es' (fst s2)" "P x (es @ es') s2" unfolding concludes_def by blast
  with m have "prog_finally m h s = (x, s2)" by (simp add: prog_finally_def)
  with m(2) h(3) extends_ledger_trans [OF m(3) h(2)] show ?thesis unfolding concludes_def by blast
qed

lemma stream_error_written:
  assumes "core_ok c" and "exc_class e \<noteq> []"
  shows "concludes (stream_error source attempt e) (c, (r, stop))
    (\<lambda>x es s'. x = Inr () \<and> map fst es = [ET_ERROR] \<and> snd s' = (r, stop))"
proof -
  obtain p where p: "exception_to_error_payload e EC_FEED_SOURCE
      [(''attempt'', JInt (int attempt)), (''source_id'', JStr source)] None (Some True) = Inr p"
    using exception_to_error_payload_ok [OF assms(2)] by blast
  have ok: "core_ok (fst (c, (r, stop)))" using assms(1) by simp
  show ?thesis
    unfolding stream_error_def p
    by (rule concludes_bind_lift [OF ok]) (auto intro!: concludes_emit concludes_return assms(1) simp: named_def)
qed

lemma stream_closed:
  assumes "core_ok c" and "allows_source r source" and "named outcome"
  shows "concludes (close_stream source attempt outcome) (c, (r, stop)) (\<lambda>x es s'.
    (\<exists>errs reason. es = errs @ [disconnection source attempt reason] \<and> set (map fst errs) \<subseteq> {ET_ERROR}) \<and>
    keeps r stop s' \<and> (outcome \<noteq> Inr FSR_CANCELLED \<longrightarrow> x = Inr ()))"
proof (cases outcome)
  case (Inl e)
  then have "exc_class e \<noteq> []" using assms(3) by (simp add: named_def)
  note written = stream_error_written [OF assms(1) this, of source attempt r stop]
  have closing: "concludes (audit_disconnected source attempt FSR_ERROR) s' (\<lambda>y es' s''. y = Inr () \<and>
      ((\<exists>errs reason. es @ es' = errs @ [disconnection source attempt reason] \<and> set (map fst errs) \<subseteq> {ET_ERROR}) \<and>
       keeps r stop s'' \<and> (outcome \<noteq> Inr FSR_CANCELLED \<longrightarrow> x = Inr ())))"
    if "core_ok (fst s')" "x = Inr () \<and> map fst es = [ET_ERROR] \<and> snd s' = (r, stop)" for x es s'
  proof -
    from that have s': "s' = (fst s', (r, stop))" by (metis prod.collapse)
    have errs: "set (map fst es) \<subseteq> {ET_ERROR}" using that(2) by simp
    show ?thesis
      by (subst s', rule concludes_mono [OF disconnection_written [OF that(1) assms(2)]]) (use that(2) errs in auto)
  qed
  show ?thesis
    unfolding close_stream_def Inl sum.case
    by (rule concludes_mono [OF concludes_finally [OF written closing]]) (use Inl in auto)
next
  case (Inr reason)
  have "concludes (if reason = FSR_CANCELLED then prog_raise cancelled_error else prog_return ()) s' (\<lambda>y es s''.
      es = [] \<and> s'' = s' \<and> (outcome \<noteq> Inr FSR_CANCELLED \<longrightarrow> y = Inr ()))" if "core_ok (fst s')" for s'
    using that Inr by (auto intro!: concludes_raise concludes_return simp: cancelled_error_def)
  note last = this
  show ?thesis
    unfolding close_stream_def Inr sum.case
    by (rule concludes_bind [OF disconnection_written [OF assms(1,2)]], simp)
      (rule concludes_mono [OF last], use Inr in auto)
qed

definition closed_connection :: "string \<Rightarrow> nat \<Rightarrow> event list \<Rightarrow> bool" where
  "closed_connection source attempt es \<longleftrightarrow>
     (\<exists>mid reason. es = connection source attempt # mid @ [disconnection source attempt reason] \<and>
        set (map fst mid) \<subseteq> message_events)"

lemma attempt_closed:
  assumes "core_ok c" and "allows_source r source" and "script_ok items"
  shows "concludes (run_attempt source items attempt) (c, (r, stop)) (\<lambda>x es s'.
    closed_connection source attempt es \<and> same_expectations r (fst (snd s')) \<and>
    (StopCalled \<notin> set items \<longrightarrow> snd (snd s') = stop) \<and> (StreamCancelled \<notin> set items \<longrightarrow> x = Inr ()))"
proof -
  obtain r1 where r1: "on_router (on_local (mark_connected source None)) (c, (r, stop)) = (Inr (), (c, (r1, stop)))"
    "same_expectations r r1"
    by (rule source_step_run [OF assms(2), of "mark_connected source None"]) auto
  note allowed = allows_expected [OF r1(2), THEN iffD2, OF assms(2)]
  have stream: "concludes (\<lambda>s. case consume_stream source items s of (outcome, t) \<Rightarrow> close_stream source attempt outcome t)
      (c1, (r1, stop)) (\<lambda>x es s'. closed_connection source attempt (connection source attempt # es) \<and>
        same_expectations r (fst (snd s')) \<and>
        (StopCalled \<notin> set items \<longrightarrow> snd (snd s') = stop) \<and> (StreamCancelled \<notin> set items \<longrightarrow> x = Inr ()))"
    if "core_ok c1" for c1
  proof -
    from stream_ends [OF that assms(3), of source r1 stop] obtain x es s1 where
      x: "consume_stream source items (c1, (r1, stop)) = (x, s1)" "named x" "extends_ledger c1 es (fst s1)"
      "routes_message r1 es (fst (snd s1))" "StopCalled \<notin> set items \<longrightarrow> snd (snd s1) = stop"
      "StreamCancelled \<notin> set items \<longrightarrow> x \<noteq> Inr FSR_CANCELLED"
      unfolding concludes_def fst_conv by blast
    obtain c2 r2 stop2 where s1: "s1 = (c2, (r2, stop2))" by (metis prod.collapse)
    with x(4) have same: "same_expectations r1 r2" by (simp add: routes_message_def)
    from x(3) s1 have ok: "core_ok c2" using extends_ledger_ok by simp
    from stream_closed [OF ok allows_expected [OF same, THEN iffD2, OF allowed] x(2), of attempt stop2]
    obtain y es' s2 where y: "close_stream source attempt x s1 = (y, s2)" "named y" "extends_ledger c2 es' (fst s2)"
      "\<exists>errs reason. es' = errs @ [disconnection source attempt reason] \<and> set (map fst errs) \<subseteq> {ET_ERROR}"
      "keeps r2 stop2 s2" "x \<noteq> Inr FSR_CANCELLED \<longrightarrow> y = Inr ()"
      unfolding concludes_def fst_conv s1 by blast
    from y(4) obtain errs reason where es': "es' = errs @ [disconnection source attempt reason]"
      and errs: "set (map fst errs) \<subseteq> {ET_ERROR}" by blast
    have "set (map fst (es @ errs)) \<subseteq> message_events"
      using x(4) errs by (auto simp: routes_message_def message_events_def)
    then have "closed_connection source attempt (connection source attempt # es @ es')"
      unfolding closed_connection_def es' by (intro exI [of _ "es @ errs"] exI [of _ reason]) simp
    moreover have "same_expectations r (fst (snd s2))"
      using r1(2) same y(5) by (simp add: keeps_def same_expectations_def)
    moreover have "extends_ledger c1 (es @ es') (fst s2)"
      using extends_ledger_trans [OF x(3)] y(3) s1 by simp
    ultimately show ?thesis
      unfolding concludes_def using x(1,5,6) y(1,2,5,6) s1
      by (intro exI [of _ y] exI [of _ "es @ es'"] exI [of _ s2]) (auto simp: keeps_def)
  qed
  show ?thesis
    unfolding run_attempt_def
    by (rule concludes_state, rule r1(1), simp, rule concludes_emit)
      (use assms(1) stream in \<open>auto simp: connection_def\<close>)
qed

subsection \<open>The loop\<close>

text \<open>The events of the attempts after the \<open>k\<close>-th up to the \<open>n\<close>-th\<close>

inductive session :: "string \<Rightarrow> nat \<Rightarrow> nat \<Rightarrow> event list \<Rightarrow> bool" for source where
  session_nil: "session source k k []"
| session_attempt: "closed_connection source (Suc k) es \<Longrightarrow>
     set (map fst between) \<subseteq> {ET_FEED_DEGRADED, ET_FEED_RECONNECT_SCHEDULED} \<Longrightarrow>
     session source (Suc k) n rest \<Longrightarrow> session source k n (es @ between @ rest)"

lemma named_delay [named_intros]: "named (delay_for_attempt p k)"
  unfolding delay_for_attempt_def float_pow_def
  by (intro named_intros) (auto simp: named_def float_overflow_def split: pyreal.splits)

lemma after_sleep:
  assumes "core_ok (fst s')"
  shows "concludes (case outcome of
       Slept \<Rightarrow> prog_return ()
     | StoppedAsleep \<Rightarrow> request_stop
     | CancelledAsleep \<Rightarrow> prog_raise cancelled_error) s' (\<lambda>x es s''. es = [] \<and> fst (snd s'') = fst (snd s') \<and>
       (outcome = Slept \<longrightarrow> snd (snd s'') = snd (snd s') \<and> x = Inr ()))"
proof (cases outcome)
  case StoppedAsleep
  have "request_stop s' = (Inr (), (fst s', (fst (snd s'), True)))" by (simp add: request_stop_def)
  with StoppedAsleep extends_ledger_refl [OF assms] show ?thesis
    unfolding concludes_def by (force simp: named_def)
qed (use assms in \<open>auto intro!: concludes_return concludes_raise simp: cancelled_error_def\<close>)

lemma wait_concludes:
  assumes "core_ok c"
  shows "concludes (wait_to_reconnect policy source outcome k) (c, (r, stop)) (\<lambda>x es s'.
    set (map fst es) \<subseteq> {ET_FEED_DEGRADED, ET_FEED_RECONNECT_SCHEDULED} \<and> same_expectations r (fst (snd s')) \<and>
    (outcome = Slept \<longrightarrow> snd (snd s') = stop \<and>
       x = (case delay_for_attempt policy k of Inl e \<Rightarrow> Inl e | Inr _ \<Rightarrow> Inr ())))"
proof -
  have health: "concludes audit_health (c, r) (\<lambda>x es s'. set (map fst es) \<subseteq> {ET_FEED_DEGRADED} \<and>
      same_expectations r (snd s') \<and> (\<exists>y. x = Inr y))"
  proof -
    have ok: "core_ok (fst (c, r))" using assms by simp
    show ?thesis
      by (rule concludes_mono [OF audit_health_concludes [OF ok]]) (use health_events_types in auto)
  qed
  have rest: "concludes (prog_bind (prog_lift (delay_for_attempt policy k)) (\<lambda>delay.
     prog_bind (on_core (emit_object ET_FEED_RECONNECT_SCHEDULED
        [(''attempt'', JInt (int k + 1)), (''delay_seconds'', float_json delay), (''source_id'', JStr source)])) (\<lambda>_.
     case outcome of
       Slept \<Rightarrow> prog_return ()
     | StoppedAsleep \<Rightarrow> request_stop
     | CancelledAsleep \<Rightarrow> prog_raise cancelled_error))) s' (\<lambda>x es s''.
       set (map fst es) \<subseteq> {ET_FEED_DEGRADED, ET_FEED_RECONNECT_SCHEDULED} \<and> fst (snd s'') = fst (snd s') \<and>
       (outcome = Slept \<longrightarrow> snd (snd s'') = snd (snd s') \<and>
         x = (case delay_for_attempt policy k of Inl e \<Rightarrow> Inl e | Inr _ \<Rightarrow> Inr ())))"
    if "core_ok (fst s')" for s'
    using that
    by (intro concludes_bind_lift named_delay concludes_emit)
      (auto intro: concludes_mono [OF after_sleep])
  show ?thesis
    unfolding wait_to_reconnect_def
  proof (rule concludes_bind [OF concludes_on_router [OF health]], blast)
    fix x and es :: "event list" and s' :: "core \<times> supervised"
    assume ok: "core_ok (fst s')"
      and q: "(set (map fst es) \<subseteq> {ET_FEED_DEGRADED} \<and> same_expectations r (snd (fst s', fst (snd s'))) \<and>
        (\<exists>y. Inr x = Inr y)) \<and> snd (snd s') = stop"
    show "concludes (prog_bind (prog_lift (delay_for_attempt policy k)) (\<lambda>delay.
     prog_bind (on_core (emit_object ET_FEED_RECONNECT_SCHEDULED
        [(''attempt'', JInt (int k + 1)), (''delay_seconds'', float_json delay), (''source_id'', JStr source)])) (\<lambda>_.
     case outcome of
       Slept \<Rightarrow> prog_return ()
     | StoppedAsleep \<Rightarrow> request_stop
     | CancelledAsleep \<Rightarrow> prog_raise cancelled_error))) s' (\<lambda>y es' s''.
       set (map fst (es @ es')) \<subseteq> {ET_FEED_DEGRADED, ET_FEED_RECONNECT_SCHEDULED} \<and>
       same_expectations r (fst (snd s'')) \<and>
       (outcome = Slept \<longrightarrow> snd (snd s'') = stop \<and>
         y = (case delay_for_attempt policy k of Inl e \<Rightarrow> Inl e | Inr _ \<Rightarrow> Inr ())))"
      by (rule concludes_mono [OF rest [OF ok]]) (use q in auto)
  qed
qed

lemma session_last:
  assumes "closed_connection source (Suc k) es"
  shows "session source k (Suc k) es"
  using session_attempt [OF assms, of "[]"] session_nil [of source "Suc k"] by fastforce

lemma session_wait:
  assumes "closed_connection source (Suc k) es" and "set (map fst between) \<subseteq> {ET_FEED_DEGRADED, ET_FEED_RECONNECT_SCHEDULED}"
  shows "session source k (Suc k) (es @ between)"
  using session_attempt [OF assms] session_nil [of source "Suc k"] by fastforce

text \<open>Scripts without a stop or a cancellation, and what the loop then answers, with the number of the last attempt\<close>

definition undisturbed :: "(nat \<Rightarrow> stream_item list) \<Rightarrow> (nat \<Rightarrow> sleep_outcome) \<Rightarrow> bool" where
  "undisturbed streams sleeps \<longleftrightarrow>
     (\<forall>k. StopCalled \<notin> set (streams k) \<and> StreamCancelled \<notin> set (streams k) \<and> sleeps k = Slept)"

fun undisturbed_run :: "nat \<Rightarrow> reconnect_policy \<Rightarrow> nat option \<Rightarrow> nat \<Rightarrow> bool res \<times> nat" where
  "undisturbed_run 0 policy max_attempts k = (Inr False, k)"
| "undisturbed_run (Suc fuel) policy max_attempts k =
     (if reached max_attempts k then (Inr True, k)
      else if reached max_attempts (Suc k) then (Inr True, Suc k)
      else case delay_for_attempt policy (Suc k) of
        Inl e \<Rightarrow> (Inl e, Suc k)
      | Inr _ \<Rightarrow> undisturbed_run fuel policy max_attempts (Suc k))"

lemma source_session:
  assumes "core_ok c" and "allows_source r source" and "\<And>k. script_ok (streams k)"
  shows "concludes (run_source fuel policy source streams sleeps max_attempts k) (c, (r, stop)) (\<lambda>x es s'.
    \<exists>n. session source k n es \<and> n \<le> k + fuel \<and> (\<forall>m. max_attempts = Some m \<longrightarrow> n \<le> max k m) \<and>
      (undisturbed streams sleeps \<and> \<not> stop \<longrightarrow> (x, n) = undisturbed_run fuel policy max_attempts k))"
  using assms(1,2)
proof (induction fuel arbitrary: c r stop k)
  case 0
  then show ?case by (auto intro!: concludes_return intro: session_nil)
next
  case (Suc fuel)
  let ?P = "\<lambda>x es. \<exists>n. session source k n es \<and> n \<le> k + Suc fuel \<and> (\<forall>m. max_attempts = Some m \<longrightarrow> n \<le> max k m) \<and>
      (undisturbed streams sleeps \<and> \<not> stop \<longrightarrow> (x, n) = undisturbed_run (Suc fuel) policy max_attempts k)"
  show ?case
  proof (cases "stop \<or> reached max_attempts k")
    case True
    then show ?thesis
      using Suc.prems
      by (auto intro!: concludes_flag concludes_return exI [of _ k] session_nil simp del: undisturbed_run.simps(1))
  next
    case False
    then have bound: "Suc k \<le> m" if "max_attempts = Some m" for m using that by (auto simp: reached_def)
    have later: "concludes (prog_bind stop_requested (\<lambda>stop.
         if stop \<or> reached max_attempts (Suc k) then prog_return True
         else prog_bind (wait_to_reconnect policy source (sleeps (Suc k)) (Suc k)) (\<lambda>_.
           run_source fuel policy source streams sleeps max_attempts (Suc k)))) s' (\<lambda>x es' s''. ?P x (es @ es'))"
      if ok: "core_ok (fst s')" and es: "closed_connection source (Suc k) es"
        and same: "same_expectations r (fst (snd s'))" and flag: "StopCalled \<notin> set (streams (Suc k)) \<longrightarrow> snd (snd s') = stop"
      for s' es
    proof -
      obtain c1 r1 stop1 where s': "s' = (c1, (r1, stop1))" by (metis prod.collapse)
      have quiet: "\<not> stop1" if "undisturbed streams sleeps" using that flag s' False by (simp add: undisturbed_def)
      have ended: "?P x es" if "stop1 \<or> reached max_attempts (Suc k)" "x = Inr True" for x
        using session_last [OF es] bound False that quiet by (auto intro!: exI [of _ "Suc k"] simp: max_def)
      have stopped: "?P x (es @ between)"
        if "set (map fst between) \<subseteq> {ET_FEED_DEGRADED, ET_FEED_RECONNECT_SCHEDULED}"
          "\<not> (stop1 \<or> reached max_attempts (Suc k))"
          "sleeps (Suc k) = Slept \<longrightarrow> (\<exists>e. delay_for_attempt policy (Suc k) = Inl e \<and> x = Inl e)" for x between
        using session_wait [OF es that(1)] bound False that(2,3)
        by (auto intro!: exI [of _ "Suc k"] simp: max_def undisturbed_def)
      have run: "concludes (run_source fuel policy source streams sleeps max_attempts (Suc k)) s2
          (\<lambda>x es' s''. ?P x ((es @ between) @ es'))"
        if "core_ok (fst s2)" "set (map fst between) \<subseteq> {ET_FEED_DEGRADED, ET_FEED_RECONNECT_SCHEDULED}"
          "same_expectations r1 (fst (snd s2))" "\<not> (stop1 \<or> reached max_attempts (Suc k))"
          "sleeps (Suc k) = Slept \<longrightarrow> snd (snd s2) = stop1 \<and> (\<exists>d. delay_for_attempt policy (Suc k) = Inr d)" for s2 between
      proof -
        obtain c2 r2 stop2 where s2: "s2 = (c2, (r2, stop2))" by (metis prod.collapse)
        have "allows_source r2 source"
          using that(3) same s' s2 Suc.prems(2) by (auto simp: same_expectations_def allows_source_def)
        moreover have "\<not> stop2" "\<exists>d. delay_for_attempt policy (Suc k) = Inr d" if "undisturbed streams sleeps"
          using \<open>sleeps (Suc k) = Slept \<longrightarrow> _\<close> quiet [OF that] that s2 by (auto simp: undisturbed_def)
        ultimately show ?thesis
          using that(1,4) s2 False
          by (simp, intro concludes_mono [OF Suc.IH])
            (use session_attempt [OF es that(2)] bound in \<open>force simp: max_def\<close>)+
      qed
      have ok1: "core_ok c1" using ok s' by simp
      have waiting: "concludes (prog_bind (wait_to_reconnect policy source (sleeps (Suc k)) (Suc k)) (\<lambda>_.
           run_source fuel policy source streams sleeps max_attempts (Suc k))) s' (\<lambda>x es' s''. ?P x (es @ es'))"
        if go: "\<not> (stop1 \<or> reached max_attempts (Suc k))"
        unfolding s'
      proof (rule concludes_bind [OF wait_concludes [OF ok1]])
        fix e and between :: "event list" and s2 :: "core \<times> supervised"
        assume "set (map fst between) \<subseteq> {ET_FEED_DEGRADED, ET_FEED_RECONNECT_SCHEDULED} \<and>
          same_expectations r1 (fst (snd s2)) \<and> (sleeps (Suc k) = Slept \<longrightarrow> snd (snd s2) = stop1 \<and>
            Inl e = (case delay_for_attempt policy (Suc k) of Inl e \<Rightarrow> Inl e | Inr _ \<Rightarrow> Inr ()))"
        with go show "?P (Inl e) (es @ between)" by (intro stopped) (auto split: sum.splits)
      next
        fix u and between :: "event list" and s2 :: "core \<times> supervised"
        assume "core_ok (fst s2)" and "set (map fst between) \<subseteq> {ET_FEED_DEGRADED, ET_FEED_RECONNECT_SCHEDULED} \<and>
          same_expectations r1 (fst (snd s2)) \<and> (sleeps (Suc k) = Slept \<longrightarrow> snd (snd s2) = stop1 \<and>
            Inr u = (case delay_for_attempt policy (Suc k) of Inl e \<Rightarrow> Inl e | Inr _ \<Rightarrow> Inr ()))"
        with go run [of s2 between] show "concludes (run_source fuel policy source streams sleeps max_attempts (Suc k)) s2
            (\<lambda>x es'. \<lambda>s''. ?P x (es @ between @ es'))"
          by (auto split: sum.splits)
      qed
      show ?thesis
        using waiting ended ok1 unfolding s'
        by (intro concludes_flag) (auto intro!: concludes_return)
    qed
    have go: "stop = False" "reached max_attempts k = False" using False by auto
    show ?thesis
      unfolding run_source.simps
    proof (rule concludes_flag, unfold go(1) go(2) simp_thms if_False,
        rule concludes_bind [OF attempt_closed [OF Suc.prems assms(3)]])
      fix e es and s' :: "core \<times> supervised"
      assume q: "closed_connection source (Suc k) es \<and> same_expectations r (fst (snd s')) \<and>
          (StopCalled \<notin> set (streams (Suc k)) \<longrightarrow> snd (snd s') = False) \<and>
          (StreamCancelled \<notin> set (streams (Suc k)) \<longrightarrow> Inl e = (Inr () :: unit res))"
      then show "\<exists>n. session source k n es \<and> n \<le> k + Suc fuel \<and> (\<forall>m. max_attempts = Some m \<longrightarrow> n \<le> max k m) \<and>
          (undisturbed streams sleeps \<longrightarrow> (Inl e, n) = undisturbed_run (Suc fuel) policy max_attempts k)"
        using session_last bound by (intro exI [of _ "Suc k"]) (auto simp: max_def undisturbed_def)
    qed (use later go in auto)
  qed
qed

subsection \<open>The delays of the default policy\<close>

lemma default_delay:
  "delay_for_attempt default_reconnect_policy k =
     (if k \<le> 1024 then Inr (if 30 < (2 :: rat) ^ (k - 1) then 30 else 2 ^ (k - 1)) else Inl float_overflow)"
  by (auto simp: delay_for_attempt_def default_reconnect_policy_def float_pow_two round_float_pow)

lemma undisturbed_run_bounded:
  assumes "\<And>j. 0 < j \<Longrightarrow> j < m \<Longrightarrow> \<exists>d. delay_for_attempt policy j = Inr d" and "k < m" and "m \<le> k + fuel"
  shows "undisturbed_run fuel policy (Some m) k = (Inr True, m)"
  using assms(2,3)
proof (induction fuel arbitrary: k)
  case 0
  then show ?case by simp
next
  case (Suc fuel)
  show ?case
  proof (cases "m = Suc k")
    case True
    then show ?thesis by (simp add: reached_def)
  next
    case False
    with Suc.prems assms(1) [of "Suc k"] obtain d where "delay_for_attempt policy (Suc k) = Inr d" by auto
    with False Suc show ?thesis by (simp add: reached_def)
  qed
qed

lemma undisturbed_run_overflow:
  assumes "k \<le> 1024" and "1025 \<le> k + fuel"
  shows "undisturbed_run fuel default_reconnect_policy None k = (Inl float_overflow, 1025)"
  using assms
proof (induction fuel arbitrary: k)
  case 0
  then show ?case by simp
next
  case (Suc fuel)
  have d: "delay_for_attempt default_reconnect_policy (Suc k) =
      (if k < 1024 then Inr (if 30 < (2 :: rat) ^ k then 30 else 2 ^ k) else Inl float_overflow)"
    by (simp add: default_delay Suc_le_eq)
  show ?case
  proof (cases "k = 1024")
    case True
    with d show ?thesis by (simp add: reached_def)
  next
    case False
    with Suc.prems have "k < 1024" by simp
    moreover have "undisturbed_run fuel default_reconnect_policy None (Suc k) = (Inl float_overflow, 1025)"
      using Suc.prems \<open>k < 1024\<close> by (intro Suc.IH) simp_all
    ultimately show ?thesis by (simp add: reached_def d del: power_Suc)
  qed
qed

subsection \<open>Properties\<close>

text \<open>
  C14. However a source behaves, every connection the supervisor writes is closed: the run of a source adds to the ledger, for
  the attempts 1, 2, ... in turn, the connection, what its messages and errors add, and the disconnection with
  the reason, and only degradations and scheduled reconnects in between; never more attempts than allowed.
\<close>

theorem connections_are_closed:
  assumes "core_ok c" and "allows_source r source" and "\<And>k. script_ok (streams k)"
  shows "\<exists>x s' es n. run_source fuel policy source streams sleeps max_attempts 0 (c, (r, stop)) = (x, s') \<and>
    extends_ledger c es (fst s') \<and> session source 0 n es \<and> (\<forall>m. max_attempts = Some m \<longrightarrow> n \<le> m)"
proof -
  note run = source_session [OF assms(1,2), where streams = streams and k = 0 and fuel = fuel and policy = policy
      and sleeps = sleeps and max_attempts = max_attempts and stop = stop, OF assms(3)]
  show ?thesis by (rule concludesE [OF run]) fastforce
qed

theorem connections_are_closed_witness:
  "\<exists>x s' es n. run_source 5 default_reconnect_policy ''s1'' (\<lambda>k. [Item (sample_message ''s2''), StreamCancelled]) (\<lambda>k. Slept)
      (Some 3) 0 (sample_core, (sample_router, False)) = (x, s') \<and>
    extends_ledger sample_core es (fst s') \<and> session ''s1'' 0 n es \<and> n \<le> 3"
proof -
  have "allows_source sample_router ''s1''" "script_ok [Item (sample_message ''s2''), StreamCancelled]"
    by (simp_all add: allows_source_def sample_router_def script_ok_def)
  from connections_are_closed [OF sample_core_ok this, where ?fuel = 5 and policy = default_reconnect_policy
      and sleeps = "\<lambda>k. Slept" and ?max_attempts = "Some 3" and stop = False]
  show ?thesis by blast
qed

text \<open>
  C29. A bounded run ends: with at most \<open>m\<close> attempts, no stop, no cancellation and delays that can be computed, the
  loop makes exactly \<open>m\<close> connections, whatever errors the streams raise, and returns.
\<close>

theorem bounded_run_returns:
  assumes "core_ok c" and "allows_source r source" and "\<And>k. script_ok (streams k)" and "undisturbed streams sleeps"
    and "\<And>j. 0 < j \<Longrightarrow> j < m \<Longrightarrow> \<exists>d. delay_for_attempt policy j = Inr d" and "0 < m" and "m \<le> fuel"
  shows "\<exists>s' es. run_source fuel policy source streams sleeps (Some m) 0 (c, (r, False)) = (Inr True, s') \<and>
    extends_ledger c es (fst s') \<and> session source 0 m es"
proof -
  note run = source_session [OF assms(1,2), where streams = streams and k = 0 and fuel = fuel and policy = policy
      and sleeps = sleeps and max_attempts = "Some m" and stop = False, OF assms(3)]
  have "undisturbed_run fuel policy (Some m) 0 = (Inr True, m)"
    using assms(6,7) by (intro undisturbed_run_bounded assms(5)) simp_all
  with concludesE [OF run] assms(4) show ?thesis by (metis (no_types, lifting) Pair_inject fst_conv)
qed

theorem bounded_run_returns_witness:
  "\<exists>s' es. run_source 3 default_reconnect_policy ''s1'' (\<lambda>k. [StreamFails (value_error [])]) (\<lambda>k. Slept) (Some 3) 0
      (sample_core, (sample_router, False)) = (Inr True, s') \<and>
    extends_ledger sample_core es (fst s') \<and> session ''s1'' 0 3 es"
  by (rule bounded_run_returns [OF sample_core_ok])
    (auto simp: allows_source_def sample_router_def script_ok_def undisturbed_def default_delay)

text \<open>
  C39. The default policy does not last: \<open>2.0 ** 1024\<close> overflows, so a source that keeps reconnecting without a stop ends its
  task with an \<^verbatim>\<open>OverflowError\<close> after the 1025th connection, instead of waiting the maximal 30 seconds again.
\<close>

theorem supervisor_overflows_after_1025_attempts:
  assumes "core_ok c" and "allows_source r source" and "\<And>k. script_ok (streams k)" and "undisturbed streams sleeps"
    and "1025 \<le> fuel"
  shows "\<exists>s' es. run_source fuel default_reconnect_policy source streams sleeps None 0 (c, (r, False))
      = (Inl float_overflow, s') \<and> extends_ledger c es (fst s') \<and> session source 0 1025 es"
proof -
  note run = source_session [OF assms(1,2), where streams = streams and k = 0 and fuel = fuel and policy = default_reconnect_policy
      and sleeps = sleeps and max_attempts = "None" and stop = False, OF assms(3)]
  have "undisturbed_run fuel default_reconnect_policy (None) 0 = (Inl float_overflow, 1025)"
    using undisturbed_run_overflow [of 0 fuel] assms(4,5) by simp
  with concludesE [OF run] assms(4) show ?thesis by (metis (no_types, lifting) Pair_inject fst_conv)
qed

theorem supervisor_overflows_after_1025_attempts_witness:
  "\<exists>s' es. run_source 2000 default_reconnect_policy ''s1'' (\<lambda>k. []) (\<lambda>k. Slept) None 0 (sample_core, (sample_router, False))
      = (Inl float_overflow, s') \<and> extends_ledger sample_core es (fst s') \<and> session ''s1'' 0 1025 es"
proof -
  have "allows_source sample_router ''s1''" "script_ok []" "undisturbed (\<lambda>k. []) (\<lambda>k. Slept)"
    by (simp_all add: allows_source_def sample_router_def script_ok_def undisturbed_def)
  from supervisor_overflows_after_1025_attempts [OF sample_core_ok this(1), where streams = "\<lambda>k. []" and fuel = 2000,
      OF this(2,3)]
  show ?thesis by simp
qed

end
