(* ===== verification/Reconciliation.thy ===== *)
theory Reconciliation
  imports Feeds Floats
begin

text \<open>
  \<^verbatim>\<open>reconciliation/\<close>: the watchdog of unconfirmed orders, the recovery of reported mismatches and the
  reconciliation of fills. The exchange is a client with a state of its own beside the core: an argument of
  the operations, which may answer or raise. The clock is a sequence of readings.
\<close>

subsection \<open>The exchange beside the core\<close>

record 'w venue =
  vn_world :: 'w
  vn_clock :: "nat \<Rightarrow> datetime"
  vn_reads :: nat

type_synonym ('w, 'a) dealing = "(core \<times> 'w venue, 'a) prog"

definition venue_now :: "('w, datetime) dealing" where
  "venue_now = on_local (\<lambda>v. (Inr (vn_clock v (vn_reads v)), v\<lparr>vn_reads := Suc (vn_reads v)\<rparr>))"

definition ask :: "('w, 'a) prog \<Rightarrow> ('w, 'a) dealing" where
  "ask m = on_local (\<lambda>v. case m (vn_world v) of (x, w) \<Rightarrow> (x, v\<lparr>vn_world := w\<rparr>))"

definition emit_reconciliation_error ::
  "string \<Rightarrow> string \<Rightarrow> payload \<Rightarrow> ('w, unit) dealing" where
  "emit_reconciliation_error code message context =
     prog_bind (prog_lift (error_event_payload EC_RECONCILIATION context (Some code) None message False)) (\<lambda>p.
     prog_bind (on_core (emit_object ET_ERROR p)) (\<lambda>_. prog_return ()))"

text \<open>\<^verbatim>\<open>x or default\<close> on an optional text\<close>

definition text_or :: "string option \<Rightarrow> string \<Rightarrow> string" where
  "text_or x d = (case x of None \<Rightarrow> d | Some s \<Rightarrow> if s = [] then d else s)"

definition jtime :: "datetime \<Rightarrow> json" where
  "jtime t = JStr (isoformat t)"

subsection \<open>The watchdog\<close>

record watchdog_policy =
  wdp_execution_result_timeout :: timedelta
  wdp_user_confirmation_timeout :: timedelta
  wdp_execution_modes :: "execution_mode list"

definition new_watchdog_policy :: "watchdog_policy \<Rightarrow> watchdog_policy res" where
  "new_watchdog_policy p =
     (if wdp_execution_result_timeout p \<le> 0 then Inl (value_error ''execution_result_timeout must be positive'')
      else if wdp_user_confirmation_timeout p \<le> 0 then Inl (value_error ''user_confirmation_timeout must be positive'')
      else if wdp_execution_modes p = [] then Inl (value_error ''execution_modes must not be empty'')
      else Inr p)"

record reconciliation_finding =
  rcf_action_id :: string
  rcf_reason :: reconciliation_issue
  rcf_observed_at :: datetime
  rcf_timeout :: timedelta
  rcf_elapsed :: timedelta
  rcf_client_order_id :: "string option"
  rcf_exchange_order_id :: "string option"
  rcf_executed_at :: "datetime option"
  rcf_executed_sequence :: "int option"
  rcf_execution_started_at :: "datetime option"
  rcf_execution_started_sequence :: "int option"
  rcf_product_id :: "string option"

definition present_field :: "string \<Rightarrow> ('a \<Rightarrow> json) \<Rightarrow> 'a option \<Rightarrow> payload" where
  "present_field k f x = (case x of None \<Rightarrow> [] | Some v \<Rightarrow> [(k, f v)])"

definition finding_payload :: "reconciliation_finding \<Rightarrow> payload" where
  "finding_payload f =
     [(''action_id'', JStr (rcf_action_id f)),
      (''client_order_id'', jopt (rcf_client_order_id f)),
      (''elapsed_seconds'', total_seconds (rcf_elapsed f)),
      (''exchange_order_id'', jopt (rcf_exchange_order_id f)),
      (''observed_at'', jtime (rcf_observed_at f)),
      (''product_id'', jopt (rcf_product_id f)),
      (''reason'', JStr (reconciliation_issue_value (rcf_reason f))),
      (''timeout_seconds'', total_seconds (rcf_timeout f))]
     @ present_field ''executed_at'' jtime (rcf_executed_at f)
     @ present_field ''executed_sequence'' JInt (rcf_executed_sequence f)
     @ present_field ''execution_started_at'' jtime (rcf_execution_started_at f)
     @ present_field ''execution_started_sequence'' JInt (rcf_execution_started_sequence f)"

definition has_reconciliation_mismatch :: "projection \<Rightarrow> string \<Rightarrow> reconciliation_issue \<Rightarrow> bool" where
  "has_reconciliation_mismatch pj i reason = dict_has (pj_reconciliation_mismatches pj) (i, reason)"

definition has_reconciliation_recovery :: "projection \<Rightarrow> string \<Rightarrow> reconciliation_issue \<Rightarrow> bool" where
  "has_reconciliation_recovery pj i reason = dict_has (pj_reconciliation_recoveries pj) (i, reason)"

definition missing_execution_result ::
  "watchdog_policy \<Rightarrow> projection \<Rightarrow> (int, datetime) dict \<Rightarrow> datetime \<Rightarrow> order_snapshot \<Rightarrow>
     reconciliation_finding option" where
  "missing_execution_result p pj stamps now od =
     (case ord_execution_started_sequence od of
        None \<Rightarrow> None
      | Some n \<Rightarrow>
          if ord_executed_sequence od \<noteq> None then None
          else if has_reconciliation_mismatch pj (ord_action_id od) RI_MISSING_EXECUTION_RESULT then None
          else (case dict_get stamps n of
            None \<Rightarrow> None
          | Some t \<Rightarrow>
              if now - t < wdp_execution_result_timeout p then None
              else Some \<lparr>rcf_action_id = ord_action_id od, rcf_reason = RI_MISSING_EXECUTION_RESULT,
                         rcf_observed_at = now, rcf_timeout = wdp_execution_result_timeout p,
                         rcf_elapsed = now - t, rcf_client_order_id = ord_client_order_id od,
                         rcf_exchange_order_id = ord_exchange_order_id od, rcf_executed_at = None,
                         rcf_executed_sequence = None, rcf_execution_started_at = Some t,
                         rcf_execution_started_sequence = Some n, rcf_product_id = ord_product_id od\<rparr>))"

definition missing_user_confirmation ::
  "watchdog_policy \<Rightarrow> projection \<Rightarrow> (int, datetime) dict \<Rightarrow> datetime \<Rightarrow> order_snapshot \<Rightarrow>
     reconciliation_finding option" where
  "missing_user_confirmation p pj stamps now od =
     (if \<not> (\<exists>mode \<in> set (wdp_execution_modes p). ord_execution_mode od = Some mode) then None
      else if ord_execution_status od \<noteq> Some ES_ACCEPTED then None
      else case ord_executed_sequence od of
        None \<Rightarrow> None
      | Some n \<Rightarrow>
          if ord_last_exchange_update od \<noteq> [] then None
          else if has_reconciliation_mismatch pj (ord_action_id od) RI_MISSING_USER_CONFIRMATION then None
          else (case dict_get stamps n of
            None \<Rightarrow> None
          | Some t \<Rightarrow>
              if now - t < wdp_user_confirmation_timeout p then None
              else Some \<lparr>rcf_action_id = ord_action_id od, rcf_reason = RI_MISSING_USER_CONFIRMATION,
                         rcf_observed_at = now, rcf_timeout = wdp_user_confirmation_timeout p,
                         rcf_elapsed = now - t, rcf_client_order_id = ord_client_order_id od,
                         rcf_exchange_order_id = ord_exchange_order_id od, rcf_executed_at = Some t,
                         rcf_executed_sequence = Some n, rcf_execution_started_at = None,
                         rcf_execution_started_sequence = None, rcf_product_id = ord_product_id od\<rparr>))"

definition orders_in_turn :: "projection \<Rightarrow> order_snapshot list" where
  "orders_in_turn pj = map (order_at pj) (dict_values (pj_orders_by_action_id pj))"

definition watchdog_findings ::
  "watchdog_policy \<Rightarrow> projection \<Rightarrow> (int, datetime) dict \<Rightarrow> datetime \<Rightarrow> reconciliation_finding list" where
  "watchdog_findings p pj stamps now =
     concat (map (\<lambda>od. optional_list (missing_execution_result p pj stamps now od)
                    @ optional_list (missing_user_confirmation p pj stamps now od)) (orders_in_turn pj))"

definition sequence_times :: "audit_record list \<Rightarrow> (int, datetime) dict" where
  "sequence_times rs = fold (\<lambda>r. dict_set (rec_sequence r) (rec_occurred_at r)) rs []"

text \<open>The records are read once; the state is rebuilt from them.\<close>

definition watchdog_audit :: "watchdog_policy \<Rightarrow> ('w, reconciliation_finding list) dealing" where
  "watchdog_audit p =
     prog_bind (on_core (\<lambda>c. (iter_records (core_digest c) (core_ledger c), c))) (\<lambda>rs.
     prog_bind (prog_lift (project_records None None 1 [] rs)) (\<lambda>pj.
     prog_bind venue_now (\<lambda>now.
     let findings = watchdog_findings p pj (sequence_times rs) now in
     prog_bind (prog_each (\<lambda>f. on_core (emit_object ET_RECONCILIATION_MISMATCH (finding_payload f))) findings)
       (\<lambda>_. prog_return findings))))"

subsection \<open>Recovery\<close>

record order_lookup =
  olk_status :: exchange_lookup_status
  olk_status_code :: int
  olk_order_update :: json
  olk_raw_response :: json
  olk_error_code :: "string option"
  olk_error_message :: "string option"

record recovery_result =
  rvr_action_id :: string
  rvr_reason :: reconciliation_issue
  rvr_lookup_status :: exchange_lookup_status
  rvr_recovery_sequence :: int
  rvr_client_order_id :: "string option"
  rvr_exchange_order_id :: "string option"
  rvr_error_code :: "string option"
  rvr_error_message :: "string option"

text \<open>What \<^verbatim>\<open>_emit_recovery\<close> is called with; an absent argument is \<open>JNull\<close> or \<open>None\<close>.\<close>

record recovery_facts =
  rvf_lookup_status :: exchange_lookup_status
  rvf_client_order_id :: "string option"
  rvf_exchange_order_id :: "string option"
  rvf_error_code :: "string option"
  rvf_error_message :: "string option"
  rvf_order_update :: json
  rvf_raw_response :: json
  rvf_status_code :: "int option"

definition recovery_payload ::
  "reconciliation_mismatch_snapshot \<Rightarrow> recovery_facts \<Rightarrow> datetime \<Rightarrow> payload" where
  "recovery_payload m f now =
     [(''action_id'', JStr (mis_action_id m)),
      (''client_order_id'', jopt (rvf_client_order_id f)),
      (''error_code'', jopt (rvf_error_code f)),
      (''error_message'', jopt (rvf_error_message f)),
      (''exchange_order_id'', jopt (rvf_exchange_order_id f)),
      (''lookup_status'', JStr (exchange_lookup_status_value (rvf_lookup_status f))),
      (''mismatch_sequence'', JInt (mis_sequence m)),
      (''observed_at'', jtime now),
      (''reason'', JStr (reconciliation_issue_value (mis_reason m))),
      (''status_code'', jopt_int (rvf_status_code f))]"

definition update_contract_context ::
  "order_update_contract \<Rightarrow> reconciliation_mismatch_snapshot \<Rightarrow> payload \<Rightarrow> payload" where
  "update_contract_context contract m upd =
     [(''action_id'', JStr (mis_action_id m)),
      (''invalid_fields'', JList (map JStr (ouc_invalid_fields contract))),
      (''missing_fields'', JList (map JStr (ouc_missing_fields contract))),
      (''raw_order_update'', JObj upd),
      (''reason'', JStr (reconciliation_issue_value (mis_reason m)))]"

definition emit_recovery ::
  "reconciliation_mismatch_snapshot \<Rightarrow> recovery_facts \<Rightarrow> ('w, recovery_result) dealing" where
  "emit_recovery m f =
     prog_bind venue_now (\<lambda>now.
     let upd = payload_dict (rvf_order_update f); contract = validate_exchange_order_update upd in
     prog_bind
       (if upd = [] then prog_return []
        else if contract_valid contract then prog_return [(''order_update'', JObj upd)]
        else prog_bind (emit_reconciliation_error (error_code_value ER_EXCHANGE_ORDER_UPDATE_INVALID)
               ''Coinbase recovery returned an order update that failed contract validation''
               (update_contract_context contract m upd)) (\<lambda>_. prog_return [])) (\<lambda>order_update.
     prog_bind (on_core (emit_object ET_RECONCILIATION_RECOVERY
        (recovery_payload m f now @ order_update
         @ (if rvf_raw_response f = JNull then [] else [(''raw_response'', rvf_raw_response f)])))) (\<lambda>r.
     prog_return
       \<lparr>rvr_action_id = mis_action_id m, rvr_reason = mis_reason m, rvr_lookup_status = rvf_lookup_status f,
        rvr_recovery_sequence = rec_sequence r, rvr_client_order_id = rvf_client_order_id f,
        rvr_exchange_order_id = rvf_exchange_order_id f, rvr_error_code = rvf_error_code f,
        rvr_error_message = rvf_error_message f\<rparr>)))"

definition lookup_context ::
  "reconciliation_mismatch_snapshot \<Rightarrow> string option \<Rightarrow> string \<Rightarrow> payload" where
  "lookup_context m client exchange =
     [(''action_id'', JStr (mis_action_id m)),
      (''client_order_id'', jopt client),
      (''exchange_order_id'', JStr exchange),
      (''reason'', JStr (reconciliation_issue_value (mis_reason m)))]"

text \<open>
  The call after an exception of the client leaves out \<^verbatim>\<open>client_order_id\<close>, a required keyword argument of
  \<^verbatim>\<open>_emit_recovery\<close>: it raises before the body runs.
\<close>

definition missing_argument_error :: pyexc where
  "missing_argument_error = type_error
     (''ReconciliationRecovery._emit_recovery() missing 1 required keyword-only argument: 'client_order_id''
      @ [CHR 0x27])"

definition recover_after_exception ::
  "reconciliation_mismatch_snapshot \<Rightarrow> string option \<Rightarrow> string \<Rightarrow> pyexc \<Rightarrow> ('w, recovery_result) dealing" where
  "recover_after_exception m client exchange e =
     prog_bind (prog_lift (exception_to_error_payload e EC_RECONCILIATION (lookup_context m client exchange)
        (Some ER_RECONCILIATION_LOOKUP_FAILED) None)) (\<lambda>p.
     prog_bind (on_core (emit_object ET_ERROR p)) (\<lambda>_.
     prog_raise missing_argument_error))"

definition report_failed_lookup ::
  "reconciliation_mismatch_snapshot \<Rightarrow> string option \<Rightarrow> string \<Rightarrow> order_lookup \<Rightarrow> ('w, unit) dealing" where
  "report_failed_lookup m client exchange lk =
     (if olk_status lk \<noteq> ELS_FAILED then prog_return ()
      else emit_reconciliation_error (text_or (olk_error_code lk) (error_code_value ER_RECONCILIATION_LOOKUP_FAILED))
        (text_or (olk_error_message lk) ''Coinbase order lookup failed during reconciliation'')
        [(''action_id'', JStr (mis_action_id m)),
         (''client_order_id'', jopt client),
         (''exchange_order_id'', JStr exchange),
         (''lookup_status'', JStr (exchange_lookup_status_value (olk_status lk))),
         (''reason'', JStr (reconciliation_issue_value (mis_reason m))),
         (''status_code'', JInt (olk_status_code lk))])"

definition recover_after_lookup ::
  "reconciliation_mismatch_snapshot \<Rightarrow> string option \<Rightarrow> string \<Rightarrow> order_lookup \<Rightarrow> ('w, recovery_result) dealing" where
  "recover_after_lookup m client exchange lk =
     prog_bind (emit_recovery m
       \<lparr>rvf_lookup_status = olk_status lk, rvf_client_order_id = client, rvf_exchange_order_id = Some exchange,
        rvf_error_code = olk_error_code lk, rvf_error_message = olk_error_message lk,
        rvf_order_update = olk_order_update lk, rvf_raw_response = olk_raw_response lk,
        rvf_status_code = Some (olk_status_code lk)\<rparr>) (\<lambda>recovery.
     prog_bind (report_failed_lookup m client exchange lk) (\<lambda>_. prog_return recovery))"

definition recover_mismatch ::
  "(string \<Rightarrow> ('w, order_lookup) prog) \<Rightarrow> reconciliation_mismatch_snapshot \<Rightarrow> ('w, recovery_result) dealing" where
  "recover_mismatch get_order m =
     (let client = string_or_none (jget (mis_payload m) ''client_order_id'') in
      case string_or_none (jget (mis_payload m) ''exchange_order_id'') of
        None \<Rightarrow> emit_recovery m
          \<lparr>rvf_lookup_status = ELS_FAILED, rvf_client_order_id = client, rvf_exchange_order_id = None,
           rvf_error_code = Some ''exchange_order_id_required'',
           rvf_error_message = Some (''Cannot recover Coinbase order status without exchange_order_id; ''
             @ ''client_order_id-only lookup is not supported by this recovery client''),
           rvf_order_update = JNull, rvf_raw_response = JNull, rvf_status_code = None\<rparr>
      | Some exchange \<Rightarrow> (\<lambda>s.
          case ask (get_order exchange) s of
            (Inl e, t) \<Rightarrow> recover_after_exception m client exchange e t
          | (Inr lk, t) \<Rightarrow> recover_after_lookup m client exchange lk t))"

definition unrecovered :: "projection \<Rightarrow> reconciliation_mismatch_snapshot list" where
  "unrecovered pj =
     filter (\<lambda>m. \<not> has_reconciliation_recovery pj (mis_action_id m) (mis_reason m))
       (dict_values (pj_reconciliation_mismatches pj))"

definition recover :: "(string \<Rightarrow> ('w, order_lookup) prog) \<Rightarrow> ('w, recovery_result list) dealing" where
  "recover get_order =
     prog_bind (on_core (\<lambda>c. (core_projection c, c))) (\<lambda>pj.
     prog_each (recover_mismatch get_order) (unrecovered pj))"

subsection \<open>Fills\<close>

record fill_policy =
  flp_execution_modes :: "execution_mode list"
  flp_limit :: int
  flp_max_pages_per_order :: int

definition new_fill_policy :: "fill_policy \<Rightarrow> fill_policy res" where
  "new_fill_policy p =
     (if flp_execution_modes p = [] then Inl (value_error ''execution_modes must not be empty'')
      else if flp_limit p \<le> 0 then Inl (value_error ''limit must be positive'')
      else if flp_max_pages_per_order p \<le> 0 then Inl (value_error ''max_pages_per_order must be positive'')
      else Inr p)"

record fills_lookup =
  flk_status :: exchange_lookup_status
  flk_status_code :: int
  flk_fills :: "json list"
  flk_cursor :: "string option"
  flk_error_code :: "string option"
  flk_error_message :: "string option"

record fill_result =
  flr_exchange_order_id :: string
  flr_emitted_fill_ids :: "string list"
  flr_lookup_status :: exchange_lookup_status
  flr_error_code :: "string option"
  flr_error_message :: "string option"

text \<open>\<^verbatim>\<open>list_fills(order_ids=(id,), cursor=cursor, limit=limit)\<close>\<close>

type_synonym 'w fill_client = "string \<Rightarrow> string option \<Rightarrow> int \<Rightarrow> ('w, fills_lookup) prog"

definition should_reconcile :: "fill_policy \<Rightarrow> order_snapshot \<Rightarrow> bool" where
  "should_reconcile p od =
     ((\<exists>mode \<in> set (flp_execution_modes p). ord_execution_mode od = Some mode) \<and> ord_exchange_order_id od \<noteq> None)"

text \<open>\<^verbatim>\<open>_string_or_none(payload.get(k)) or default\<close>, with an optional default\<close>

definition text_field :: "payload \<Rightarrow> string \<Rightarrow> string option \<Rightarrow> json" where
  "text_field p k d = jopt (or_else (string_or_none (jget p k)) d)"

definition str_upper :: "string \<Rightarrow> string" where
  "str_upper s = map (\<lambda>c. let n = (of_char c :: nat) in if 97 \<le> n \<and> n \<le> 122 then char_of (n - 32) else c) s"

definition fill_payload :: "payload \<Rightarrow> order_snapshot \<Rightarrow> datetime \<Rightarrow> payload" where
  "fill_payload fill od now =
     (let p1 = dict_set ''action_id'' (JStr (ord_action_id od)) fill;
          p2 = dict_set ''client_order_id'' (jopt (ord_client_order_id od)) p1;
          p3 = dict_set ''observed_at'' (jtime now) p2;
          p4 = dict_set ''order_id'' (text_field p3 ''order_id'' (ord_exchange_order_id od)) p3;
          p5 = dict_set ''product_id'' (text_field p4 ''product_id'' (ord_product_id od)) p4
      in case ord_side od of
           None \<Rightarrow> p5
         | Some side \<Rightarrow>
             if string_or_none (jget p5 ''side'') = None
             then dict_set ''side'' (JStr (str_upper (order_side_value side))) p5 else p5)"

definition fill_error_context :: "order_snapshot \<Rightarrow> payload \<Rightarrow> payload" where
  "fill_error_context od context =
     dict_merge
       [(''action_id'', JStr (ord_action_id od)),
        (''client_order_id'', jopt (ord_client_order_id od)),
        (''exchange_order_id'', jopt (ord_exchange_order_id od))] context"

text \<open>
  One fill of a page, with the ids emitted so far in the whole run and those of this order
\<close>

definition reconcile_fill ::
  "order_snapshot \<Rightarrow> string \<Rightarrow> json \<Rightarrow> string list \<times> string list \<Rightarrow> ('w, string list \<times> string list) dealing" where
  "reconcile_fill od exchange fill known =
     (let p = payload_dict fill in
      case string_or_none (jget p ''fill_id'') of
        None \<Rightarrow>
          prog_bind (emit_reconciliation_error (error_code_value ER_FILL_PAYLOAD_INVALID)
              ''Coinbase fill lookup returned a fill without fill_id''
              (fill_error_context od [(''field'', JStr ''fill_id''), (''raw_fill'', JObj p)])) (\<lambda>_. prog_return known)
      | Some fill_id \<Rightarrow>
          if fill_id \<in> set (fst known) then prog_return known
          else (case string_or_none (jget p ''order_id'') of
            Some other \<Rightarrow>
              if other \<noteq> exchange then
                prog_bind (emit_reconciliation_error (error_code_value ER_FILL_ORDER_MISMATCH)
                    ''Coinbase fill lookup returned a fill for a different order_id''
                    (fill_error_context od
                       [(''expected_order_id'', JStr exchange), (''fill_id'', JStr fill_id),
                        (''observed_order_id'', JStr other)])) (\<lambda>_. prog_return known)
              else
                prog_bind venue_now (\<lambda>now.
                prog_bind (on_core (emit_object ET_EXCHANGE_FILL (fill_payload p od now))) (\<lambda>_.
                prog_return (fill_id # fst known, snd known @ [fill_id])))
          | None \<Rightarrow>
              prog_bind venue_now (\<lambda>now.
              prog_bind (on_core (emit_object ET_EXCHANGE_FILL (fill_payload p od now))) (\<lambda>_.
              prog_return (fill_id # fst known, snd known @ [fill_id])))))"

fun reconcile_fills ::
  "order_snapshot \<Rightarrow> string \<Rightarrow> json list \<Rightarrow> string list \<times> string list \<Rightarrow> ('w, string list \<times> string list) dealing" where
  "reconcile_fills od exchange [] known = prog_return known"
| "reconcile_fills od exchange (fill # fills) known =
     prog_bind (reconcile_fill od exchange fill known) (reconcile_fills od exchange fills)"

definition fill_lookup_error :: "order_snapshot \<Rightarrow> fills_lookup \<Rightarrow> ('w, unit) dealing" where
  "fill_lookup_error od lk =
     emit_reconciliation_error (text_or (flk_error_code lk) (error_code_value ER_RECONCILIATION_LOOKUP_FAILED))
       (text_or (flk_error_message lk) ''Coinbase fills lookup failed during reconciliation'')
       [(''action_id'', JStr (ord_action_id od)),
        (''exchange_order_id'', jopt (ord_exchange_order_id od)),
        (''lookup_status'', JStr (exchange_lookup_status_value (flk_status lk))),
        (''status_code'', JInt (flk_status_code lk))]"

text \<open>The pages of one order: the last lookup and the ids, when the pages are not exhausted before\<close>

fun fill_pages ::
  "fill_policy \<Rightarrow> 'w fill_client \<Rightarrow> order_snapshot \<Rightarrow> string \<Rightarrow> nat \<Rightarrow> string option \<Rightarrow> fills_lookup option \<Rightarrow>
     string list \<times> string list \<Rightarrow> ('w, fills_lookup option \<times> string list \<times> string list) dealing" where
  "fill_pages p client od exchange 0 cursor last_lookup known =
     prog_bind (emit_reconciliation_error (error_code_value ER_RECONCILIATION_LOOKUP_FAILED)
        ''Coinbase fills pagination exceeded max_pages_per_order''
        [(''exchange_order_id'', JStr exchange), (''max_pages_per_order'', JInt (flp_max_pages_per_order p))])
       (\<lambda>_. prog_return (last_lookup, known))"
| "fill_pages p client od exchange (Suc pages) cursor last_lookup known =
     prog_bind (ask (client exchange cursor (flp_limit p))) (\<lambda>lk.
     if flk_status lk \<noteq> ELS_FOUND then
       prog_bind (fill_lookup_error od lk) (\<lambda>_. prog_return (Some lk, known))
     else
       prog_bind (reconcile_fills od exchange (flk_fills lk) known) (\<lambda>known'.
       case flk_cursor lk of
         None \<Rightarrow> prog_return (Some lk, known')
       | Some c \<Rightarrow> fill_pages p client od exchange pages (Some c) (Some lk) known'))"

definition reconcile_order ::
  "fill_policy \<Rightarrow> 'w fill_client \<Rightarrow> order_snapshot \<Rightarrow> string list \<Rightarrow> ('w, fill_result \<times> string list) dealing" where
  "reconcile_order p client od emitted =
     (case ord_exchange_order_id od of
        None \<Rightarrow> prog_raise (PyExc ''RuntimeError'' ''Fill reconciliation received an order without exchange_order_id'' None)
      | Some exchange \<Rightarrow>
          prog_bind (fill_pages p client od exchange (nat (flp_max_pages_per_order p)) None None (emitted, []))
            (\<lambda>(lk, known).
            prog_return
              (\<lparr>flr_exchange_order_id = exchange, flr_emitted_fill_ids = snd known,
                flr_lookup_status = (case lk of None \<Rightarrow> ELS_FOUND | Some l \<Rightarrow> flk_status l),
                flr_error_code = Option.bind lk flk_error_code,
                flr_error_message = Option.bind lk flk_error_message\<rparr>, fst known)))"

fun reconcile_orders ::
  "fill_policy \<Rightarrow> 'w fill_client \<Rightarrow> order_snapshot list \<Rightarrow> string list \<Rightarrow> ('w, fill_result list) dealing" where
  "reconcile_orders p client [] emitted = prog_return []"
| "reconcile_orders p client (od # ods) emitted =
     (if \<not> should_reconcile p od then reconcile_orders p client ods emitted
      else
        prog_bind (reconcile_order p client od emitted) (\<lambda>(result, emitted').
        prog_bind (reconcile_orders p client ods emitted') (\<lambda>results. prog_return (result # results))))"

definition reconcile :: "fill_policy \<Rightarrow> 'w fill_client \<Rightarrow> ('w, fill_result list) dealing" where
  "reconcile p client =
     prog_bind (on_core (\<lambda>c. (core_projection c, c))) (\<lambda>pj.
     reconcile_orders p client (orders_in_turn pj) (dict_keys (pj_fills_by_id pj)))"

subsection \<open>Running the steps\<close>

lemma concludes_venue_now:
  assumes "\<And>t v. concludes (f t) (fst s, v) P"
  shows "concludes (prog_bind venue_now f) s P"
  by (rule concludes_state [OF _ _ assms]) (simp_all add: venue_now_def on_local_def)

lemma concludes_ask:
  assumes "\<And>e v. core_ok (fst s) \<Longrightarrow> m (vn_world (snd s)) = (Inl e, v) \<Longrightarrow> exc_class e \<noteq> []" and "core_ok (fst s)"
    and "\<And>e v. P (Inl e) [] (fst s, v)" and "\<And>x v. concludes (f x) (fst s, v) P"
  shows "concludes (prog_bind (ask m) f) s P"
proof (cases "m (vn_world (snd s))")
  case (Pair x w)
  let ?v = "(snd s)\<lparr>vn_world := w\<rparr>"
  have run: "ask m s = (x, (fst s, ?v))" by (simp add: ask_def on_local_def Pair)
  show ?thesis
  proof (cases x)
    case (Inl e)
    with assms(1) [OF assms(2)] Pair have "prog_bind (ask m) f s = (Inl e, (fst s, ?v))" "exc_class e \<noteq> []"
      by (auto simp: prog_bind_def run)
    with assms(3) extends_ledger_refl [OF assms(2)] show ?thesis unfolding concludes_def by (force simp: named_def)
  next
    case (Inr y)
    show ?thesis by (rule concludes_state [OF _ _ assms(4)]) (simp_all add: run Inr)
  qed
qed

lemma concludes_read_core:
  assumes "core_ok (fst s)" and "named (g (fst s))" and "\<And>e. P (Inl e) [] s" and "\<And>x. g (fst s) = Inr x \<Longrightarrow> concludes (f x) s P"
  shows "concludes (prog_bind (on_core (\<lambda>c. (g c, c))) f) s P"
proof -
  have "on_core (\<lambda>c. (g c, c)) s = (g (fst s), s)" by (simp add: on_core_def)
  then have "prog_bind (on_core (\<lambda>c. (g c, c))) f s = prog_bind (prog_lift (g (fst s))) f s"
    by (simp add: prog_bind_def prog_lift_def)
  then show ?thesis
    using concludes_bind_lift [of s "g (fst s)" P f, OF assms(1,2)] assms(3,4) by (simp add: concludes_def)
qed

lemma reconciliation_error_written:
  assumes "core_ok (fst s)" and "message \<noteq> []"
  shows "concludes (emit_reconciliation_error code message context) s
    (\<lambda>x es s'. x = Inr () \<and> map fst es = [ET_ERROR] \<and> snd s' = snd s)"
proof -
  obtain p where p: "error_event_payload EC_RECONCILIATION context (Some code) None message False = Inr p"
    using error_event_payload_ok_iff assms(2) by blast
  show ?thesis
    unfolding emit_reconciliation_error_def p
    by (rule concludes_bind_lift [OF assms(1)]) (auto simp: named_def intro!: concludes_emit concludes_return assms(1))
qed

text \<open>What a record adds to the memory, the state rebuilt from any longer ledger has.\<close>

lemma record_remembered:
  assumes "core_projection c = Inr pj" and "r \<in> set (core_records c)"
    and "\<And>q q'. apply_record r q = Inr q' \<Longrightarrow> has q'" and "\<And>q q'. grows q q' \<Longrightarrow> has q \<Longrightarrow> has q'"
  shows "has pj"
proof -
  from assms(1) obtain pj0 rs where rs: "iter_records (core_digest c) (core_ledger c) = Inr rs"
    and run: "res_fold apply_record rs pj0 = Inr pj"
    by (auto simp: core_projection_def project_ledger_def res_bind_Inr)
  from rs have "rs = core_records c"
    by (auto simp: iter_records_def ledger_snapshot_def res_bind_Inr split: if_splits)
  with assms(2) obtain pre post where "rs = pre @ r # post" by (meson split_list)
  with run obtain pj1 pj2 where step: "apply_record r pj1 = Inr pj2" and post: "res_fold apply_record post pj2 = Inr pj"
    by (auto simp: res_fold_append res_bind_Inr)
  show ?thesis using assms(4) [OF records_grow [OF post] assms(3) [OF step]] .
qed

lemma event_remembered:
  assumes "core_projection c2 = Inr pj" and "extends_ledger c es c2" and "(et, p) \<in> set es"
    and "\<And>r q q'. rec_event_type r = et \<Longrightarrow> rec_payload r = JObj p \<Longrightarrow> apply_record r q = Inr q' \<Longrightarrow> has q'"
    and "\<And>q q'. grows q q' \<Longrightarrow> has q \<Longrightarrow> has q'"
  shows "has pj"
proof -
  from assms(2) obtain new where new: "core_records c2 = core_records c @ new" "event_sink.facts es new"
    unfolding extends_ledger_def by metis
  from facts_record [OF new(2) assms(3)] obtain r :: audit_record where r: "r \<in> set new"
    "rec_event_type r = et" "rec_payload r = JObj p" by metis
  from r(1) new(1) have "r \<in> set (core_records c2)" by simp
  then show ?thesis by (rule record_remembered [OF assms(1) _ assms(4) [OF r(2,3)] assms(5)])
qed

subsection \<open>The watchdog reports once\<close>

lemma emit_each_concludes:
  assumes "core_ok (fst s)"
  shows "concludes (prog_each (\<lambda>f. on_core (emit_object et (payload_of f))) fs) s
    (\<lambda>x es s'. (\<exists>y. x = Inr y) \<and> es = map (\<lambda>f. (et, payload_of f)) fs \<and> snd s' = snd s)"
  using assms
proof (induction fs arbitrary: s)
  case Nil
  then show ?case by (auto intro!: concludes_return)
next
  case (Cons f fs)
  have rest: "concludes (prog_bind (prog_each (\<lambda>f. on_core (emit_object et (payload_of f))) fs) (\<lambda>ys. prog_return (r # ys)))
      (c', snd s) (\<lambda>x es s'. (\<exists>y. x = Inr y) \<and> es = map (\<lambda>f. (et, payload_of f)) fs \<and> snd s' = snd s)"
    if "core_ok c'" for c' and r :: audit_record
    by (rule concludes_bind [OF Cons.IH]) (use that in \<open>auto intro!: concludes_return\<close>)
  show ?case
    unfolding prog_each.simps
    by (rule concludes_emit [OF Cons.prems]) (rule concludes_mono [OF rest], auto)
qed

lemma named_records [named_intros]: "named (iter_records sha led)" "named (project_records t d n scope rs)"
proof -
  show "named (iter_records sha led)"
    unfolding iter_records_def ledger_snapshot_def
    by (intro named_intros named_verify) (simp add: ledger_lock_error_def audit_integrity_error_def)
  have "named (init_projection t d n scope)"
    unfolding init_projection_def validate_optional_positive_int_def validate_positive_int_def validate_string_scope_def
    by (intro named_intros) simp_all
  then show "named (project_records t d n scope rs)"
    unfolding project_records_def by (intro named_bind named_fold named_apply_record)
qed

lemma core_projection_records:
  assumes "core_projection c = Inr pj"
  shows "iter_records (core_digest c) (core_ledger c) = Inr (core_records c)"
    and "project_records None None 1 [] (core_records c) = Inr pj"
proof -
  from assms obtain rs where rs: "iter_records (core_digest c) (core_ledger c) = Inr rs"
    and run: "project_records None None 1 [] rs = Inr pj"
    by (auto simp: core_projection_def project_ledger_def project_records_def res_bind_Inr)
  from rs have "rs = core_records c"
    by (auto simp: iter_records_def ledger_snapshot_def res_bind_Inr split: if_splits)
  with rs run show "iter_records (core_digest c) (core_ledger c) = Inr (core_records c)"
    and "project_records None None 1 [] (core_records c) = Inr pj" by simp_all
qed

definition reported :: "reconciliation_finding list \<Rightarrow> event list" where
  "reported fs = map (\<lambda>f. (ET_RECONCILIATION_MISMATCH, finding_payload f)) fs"

lemma watchdog_reports_findings:
  fixes s :: "core \<times> 'w venue"
  assumes "core_ok (fst s)"
  shows "concludes (prog_bind (prog_each (\<lambda>f. on_core (emit_object ET_RECONCILIATION_MISMATCH (finding_payload f))) fs)
      (\<lambda>_. prog_return fs)) s (\<lambda>x es s'. x = Inr fs \<and> es = reported fs)"
proof (rule concludes_bind [OF emit_each_concludes [OF assms]])
  fix x es and s' :: "core \<times> 'w venue"
  assume "core_ok (fst s')" and "(\<exists>y. Inr x = Inr y) \<and>
    es = map (\<lambda>f. (ET_RECONCILIATION_MISMATCH, finding_payload f)) fs \<and> snd s' = snd s"
  then show "concludes (prog_return fs) s' (\<lambda>y es'. \<lambda>_. y = Inr fs \<and> es @ es' = reported fs)"
    by (intro concludes_return) (simp_all add: reported_def)
qed simp

lemma watchdog_audit_concludes:
  assumes "core_ok c" and "core_projection c = Inr pj"
  shows "concludes (watchdog_audit p) (c, v) (\<lambda>x es s'.
    x = Inr (watchdog_findings p pj (sequence_times (core_records c)) (vn_clock v (vn_reads v))) \<and>
    es = reported (watchdog_findings p pj (sequence_times (core_records c)) (vn_clock v (vn_reads v))))"
  unfolding watchdog_audit_def Let_def
  by (rule concludes_state, simp add: on_core_def core_projection_records [OF assms(2)], simp,
      rule concludes_state, simp add: prog_lift_def core_projection_records [OF assms(2)], simp,
      rule concludes_state, simp add: venue_now_def on_local_def, simp, rule watchdog_reports_findings)
    (simp add: assms(1))

lemma watchdog_run_reads:
  assumes "watchdog_audit p (c, v) = (Inr fs, s)"
  obtains pj where "core_projection c = Inr pj"
proof (cases "core_projection c")
  case (Inl e)
  have "\<nexists>fs. fst (watchdog_audit p (c, v)) = Inr fs"
    using Inl unfolding core_projection_def project_ledger_def watchdog_audit_def project_records_def
    by (cases "iter_records (core_digest c) (core_ledger c)") (simp_all add: on_core_def prog_bind_def prog_lift_def)
  with assms show thesis by simp
qed (rule that)

lemma missing_result_finding:
  "missing_execution_result p pj stamps now od = Some f \<Longrightarrow>
     \<not> has_reconciliation_mismatch pj (rcf_action_id f) (rcf_reason f) \<and>
     rcf_action_id f = ord_action_id od \<and> rcf_reason f = RI_MISSING_EXECUTION_RESULT"
  unfolding missing_execution_result_def by (auto split: option.splits if_splits)

lemma missing_confirmation_finding:
  "missing_user_confirmation p pj stamps now od = Some f \<Longrightarrow>
     \<not> has_reconciliation_mismatch pj (rcf_action_id f) (rcf_reason f) \<and>
     rcf_action_id f = ord_action_id od \<and> rcf_reason f = RI_MISSING_USER_CONFIRMATION"
  unfolding missing_user_confirmation_def by (auto split: option.splits if_splits)

lemma finding_not_reported:
  assumes "f \<in> set (watchdog_findings p pj stamps now)"
  shows "\<not> has_reconciliation_mismatch pj (rcf_action_id f) (rcf_reason f)"
proof -
  from assms obtain od where "f \<in> set (optional_list (missing_execution_result p pj stamps now od)
      @ optional_list (missing_user_confirmation p pj stamps now od))"
    unfolding watchdog_findings_def by auto
  then have "missing_execution_result p pj stamps now od = Some f \<or> missing_user_confirmation p pj stamps now od = Some f"
    unfolding optional_list_def by (auto split: option.splits)
  then show ?thesis using missing_result_finding missing_confirmation_finding by blast
qed

lemma mismatch_remembered:
  assumes "core_projection c2 = Inr pj" and "extends_ledger c es c2"
    and "(ET_RECONCILIATION_MISMATCH, finding_payload f) \<in> set es" and "rcf_action_id f \<noteq> []"
  shows "has_reconciliation_mismatch pj (rcf_action_id f) (rcf_reason f)"
proof (rule event_remembered [OF assms(1-3)])
  have fields: "string_or_none (jget (finding_payload f) ''action_id'') = Some (rcf_action_id f)"
    "enum_or_none reconciliation_issue_of (jget (finding_payload f) ''reason'') = Some (rcf_reason f)"
    using assms(4) by (simp_all add: finding_payload_def jget_def string_or_none_def enum_or_none_def)
  show "has_reconciliation_mismatch q' (rcf_action_id f) (rcf_reason f)"
    if "rec_event_type r = ET_RECONCILIATION_MISMATCH" "rec_payload r = JObj (finding_payload f)" "apply_record r q = Inr q'"
    for r q q'
    using that fields
    by (auto simp: has_reconciliation_mismatch_def apply_record_def apply_event_def apply_reconciliation_mismatch_def
        payload_dict_def)
qed (simp add: has_reconciliation_mismatch_def grows_def remembers_def)

text \<open>
  C18. A watchdog run over a ledger that can be replayed returns the findings of the state it rebuilds and of its clock, and adds
  exactly their mismatches to the ledger. None of them is reported again: however the ledger has grown
  since, no later run, under any policy, returns a finding with the same action id and reason.
\<close>

theorem watchdog_reports_once:
  assumes "core_ok c" and "core_projection c = Inr pj"
  shows "\<exists>fs c1 v1. watchdog_audit p (c, v) = (Inr fs, (c1, v1)) \<and>
    fs = watchdog_findings p pj (sequence_times (core_records c)) (vn_clock v (vn_reads v)) \<and>
    extends_ledger c (map (\<lambda>f. (ET_RECONCILIATION_MISMATCH, finding_payload f)) fs) c1 \<and>
    (\<forall>f \<in> set fs. rcf_action_id f \<noteq> [] \<longrightarrow> (\<forall>es c2 p2 v2 fs2 s f2. extends_ledger c1 es c2 \<longrightarrow>
       watchdog_audit p2 (c2, v2) = (Inr fs2, s) \<longrightarrow> f2 \<in> set fs2 \<longrightarrow>
       (rcf_action_id f2, rcf_reason f2) \<noteq> (rcf_action_id f, rcf_reason f)))"
proof -
  let ?fs = "watchdog_findings p pj (sequence_times (core_records c)) (vn_clock v (vn_reads v))"
  from watchdog_audit_concludes [OF assms, of p v] obtain s' where
    run: "watchdog_audit p (c, v) = (Inr ?fs, s')" and led: "extends_ledger c (reported ?fs) (fst s')"
    by (rule concludesE) (simp only: fst_conv)
  have once: "(rcf_action_id f2, rcf_reason f2) \<noteq> (rcf_action_id f, rcf_reason f)"
    if f: "f \<in> set ?fs" "rcf_action_id f \<noteq> []" and ext: "extends_ledger (fst s') es c2"
      and later: "watchdog_audit p2 (c2, v2) = (Inr fs2, s)" "f2 \<in> set fs2" for f es c2 p2 v2 fs2 s f2
  proof -
    obtain pj2 where pj2: "core_projection c2 = Inr pj2" using watchdog_run_reads [OF later(1)] .
    from watchdog_audit_concludes [OF extends_ledger_ok [OF ext] pj2, of p2 v2]
    have "fs2 = watchdog_findings p2 pj2 (sequence_times (core_records c2)) (vn_clock v2 (vn_reads v2))"
      by (rule concludesE) (simp add: later(1))
    with later(2) finding_not_reported have "\<not> has_reconciliation_mismatch pj2 (rcf_action_id f2) (rcf_reason f2)" by blast
    moreover have "(ET_RECONCILIATION_MISMATCH, finding_payload f) \<in> set (reported ?fs @ es)"
      using f(1) by (simp add: reported_def)
    note mismatch_remembered [OF pj2 extends_ledger_trans [OF led ext] this f(2)]
    ultimately show ?thesis by (metis prod.inject)
  qed
  show ?thesis
  proof (intro exI conjI ballI allI impI)
    show "watchdog_audit p (c, v) = (Inr ?fs, (fst s', snd s'))" using run by (simp only: prod.collapse)
    show "extends_ledger c (map (\<lambda>f. (ET_RECONCILIATION_MISMATCH, finding_payload f)) ?fs) (fst s')"
      using led by (simp only: reported_def)
  qed (rule refl, erule (4) once)
qed

subsection \<open>Every fill once\<close>

text \<open>The ids of the fills among the events\<close>

definition fill_ids :: "event list \<Rightarrow> json list" where
  "fill_ids es = map (\<lambda>e. jget (snd e) ''fill_id'') (filter (\<lambda>e. fst e = ET_EXCHANGE_FILL) es)"

text \<open>The fills among the events have the ids \<open>new\<close>, each once and none of them known before.\<close>

definition fresh_fills :: "string list \<Rightarrow> event list \<Rightarrow> string list \<Rightarrow> bool" where
  "fresh_fills known es new \<longleftrightarrow>
     fill_ids es = map JStr new \<and> distinct new \<and> set new \<inter> set known = {} \<and> [] \<notin> set new"

definition fills_added :: "string list \<times> string list \<Rightarrow> event list \<Rightarrow> (string list \<times> string list) option \<Rightarrow> bool" where
  "fills_added known es reached \<longleftrightarrow> (\<exists>new. fresh_fills (fst known) es new \<and>
     (\<forall>k. reached = Some k \<longrightarrow> fst k = rev new @ fst known \<and> snd k = snd known @ new))"

lemma fill_ids_simps [simp]: "fill_ids [] = []" "fill_ids (es @ es') = fill_ids es @ fill_ids es'"
  by (simp_all add: fill_ids_def)

lemma no_fill_ids: "map fst es = [ET_ERROR] \<Longrightarrow> fill_ids es = []"
  by (auto simp: fill_ids_def filter_empty_conv dest: arg_cong [where f = set])

lemma fills_added_none: "fill_ids es = [] \<Longrightarrow> (\<And>k. reached = Some k \<Longrightarrow> k = known) \<Longrightarrow> fills_added known es reached"
  unfolding fills_added_def fresh_fills_def by (intro exI [of _ "[]"]) auto

lemma fills_added_nothing [simp]: "fills_added known [] None"
  by (rule fills_added_none) simp_all

lemma fills_added_append:
  assumes "fills_added known es (Some mid)" and "fills_added mid es' reached"
  shows "fills_added known (es @ es') reached"
proof -
  from assms(1) obtain new where "fresh_fills (fst known) es new" and mid: "fst mid = rev new @ fst known" "snd mid = snd known @ new"
    unfolding fills_added_def by blast
  moreover from assms(2) obtain new' where "fresh_fills (fst mid) es' new'"
    and "\<forall>k. reached = Some k \<longrightarrow> fst k = rev new' @ fst mid \<and> snd k = snd mid @ new'"
    unfolding fills_added_def by blast
  ultimately show ?thesis
    unfolding fills_added_def fresh_fills_def by (intro exI [of _ "new @ new'"]) auto
qed

definition reached_of :: "('a \<Rightarrow> 'b) \<Rightarrow> 'a res \<Rightarrow> 'b option" where
  "reached_of f x = (case x of Inl e \<Rightarrow> None | Inr y \<Rightarrow> Some (f y))"

lemma reached_of_simps [simp]: "reached_of f (Inl e) = None" "reached_of f (Inr y) = Some (f y)"
  by (simp_all add: reached_of_def)

text \<open>Programs that run one after the other, each adding to the fills known\<close>

lemma fills_then:
  assumes "concludes m s (\<lambda>x es s'. fills_added known es (reached_of g x))"
    and "\<And>x s'. core_ok (fst s') \<Longrightarrow> concludes (f x) s' (\<lambda>y es s''. fills_added (g x) es (reached_of h y))"
  shows "concludes (prog_bind m f) s (\<lambda>y es s'. fills_added known es (reached_of h y))"
  by (rule concludes_bind [OF assms(1)])
    (auto intro: fills_added_append concludes_mono [OF assms(2)])

lemma fills_then_last:
  assumes "concludes m s (\<lambda>x es s'. fills_added known es (reached_of g x))"
    and "\<And>x s'. core_ok (fst s') \<Longrightarrow> concludes (f x) s' (\<lambda>y es s''. fills_added (g x) es None)"
  shows "concludes (prog_bind m f) s (\<lambda>y es s'. fills_added known es None)"
  by (rule concludes_bind [OF assms(1)])
    (auto intro: fills_added_append concludes_mono [OF assms(2)])

lemma fills_return: "core_ok (fst s) \<Longrightarrow> h x = known \<Longrightarrow>
    concludes (prog_return x) s (\<lambda>y es s'. fills_added known es (reached_of h y))"
  by (rule concludes_return) (auto intro: fills_added_none)

lemma fills_error:
  assumes "core_ok (fst s)" and "message \<noteq> []" and "h x = known"
  shows "concludes (prog_bind (emit_reconciliation_error code message context) (\<lambda>_. prog_return x)) s
    (\<lambda>y es s'. fills_added known es (reached_of h y))"
  by (rule concludes_bind [OF reconciliation_error_written [OF assms(1,2)]])
    (auto intro!: concludes_return fills_added_none simp: assms(3) no_fill_ids)

lemma fill_payload_id [simp]: "jget (fill_payload p od now) ''fill_id'' = jget p ''fill_id''"
  by (simp add: fill_payload_def Let_def jget_def split: option.split)

lemma fills_emit:
  fixes s :: "core \<times> 'w venue"
  assumes "core_ok (fst s)" and "string_or_none (jget p ''fill_id'') = Some i" and "i \<notin> set (fst known)"
  shows "concludes (prog_bind venue_now (\<lambda>now.
      prog_bind (on_core (emit_object ET_EXCHANGE_FILL (fill_payload p od now))) (\<lambda>_.
      prog_return (i # fst known, snd known @ [i])))) s (\<lambda>y es s'. fills_added known es (reached_of (\<lambda>k. k) y))"
proof (rule concludes_venue_now, rule concludes_emit, simp add: assms(1), rule concludes_return, simp)
  fix t
  have "jget p ''fill_id'' = JStr i" "i \<noteq> []" using assms(2)
    by (auto simp: string_or_none_def split: json.splits if_splits)
  then show "fills_added known [(ET_EXCHANGE_FILL, fill_payload p od t)] (reached_of (\<lambda>k. k) (Inr (i # fst known, snd known @ [i])))"
    unfolding fills_added_def fresh_fills_def by (intro exI [of _ "[i]"]) (auto simp: fill_ids_def assms(3))
qed

lemma fill_step:
  assumes "core_ok (fst s)"
  shows "concludes (reconcile_fill od exchange fill known) s (\<lambda>y es s'. fills_added known es (reached_of (\<lambda>k. k) y))"
proof (cases "string_or_none (jget (payload_dict fill) ''fill_id'')")
  case None
  then show ?thesis unfolding reconcile_fill_def Let_def by (simp add: fills_error assms)
next
  case (Some i)
  note emit = fills_emit [OF assms Some]
  show ?thesis
    unfolding reconcile_fill_def Let_def Some option.case
    by (cases "i \<in> set (fst known)")
      (simp_all add: fills_return fills_error assms emit split: option.split)
qed

lemma fills_step:
  "core_ok (fst s) \<Longrightarrow>
   concludes (reconcile_fills od exchange fills known) s (\<lambda>y es s'. fills_added known es (reached_of (\<lambda>k. k) y))"
proof (induction fills arbitrary: known s)
  case Nil
  then show ?case by (simp add: fills_return)
next
  case (Cons fill fills)
  show ?case
    unfolding reconcile_fills.simps
    by (rule fills_then [OF fill_step [OF Cons.prems]]) (simp add: Cons.IH)
qed

definition honest_fill_client :: "'w fill_client \<Rightarrow> bool" where
  "honest_fill_client client \<longleftrightarrow> (\<forall>x cursor n w. named (fst (client x cursor n w)))"

lemma fills_ask:
  assumes "honest_fill_client client" and "core_ok (fst s)"
    and "\<And>lk v. concludes (f lk) (fst s, v) (\<lambda>y es s'. fills_added known es (reached_of h y))"
  shows "concludes (prog_bind (ask (client exchange cursor n)) f) s (\<lambda>y es s'. fills_added known es (reached_of h y))"
proof (rule concludes_ask [OF _ assms(2) _ assms(3)])
  show "exc_class e \<noteq> []" if "client exchange cursor n (vn_world (snd s)) = (Inl e, v)" for e v
    using assms(1) that unfolding honest_fill_client_def named_def by (metis fst_conv)
qed simp

lemma fills_lookup_failed:
  assumes "core_ok (fst s)" and "h x = known"
  shows "concludes (prog_bind (fill_lookup_error od lk) (\<lambda>_. prog_return x)) s
    (\<lambda>y es s'. fills_added known es (reached_of h y))"
  unfolding fill_lookup_error_def
  by (rule fills_error) (simp_all add: assms text_or_def split: option.split)

lemma pages_step:
  assumes "honest_fill_client client"
  shows "core_ok (fst s) \<Longrightarrow> concludes (fill_pages p client od exchange pages cursor lk known) s
    (\<lambda>y es s'. fills_added known es (reached_of snd y))"
proof (induction pages arbitrary: cursor lk known s)
  case 0
  then show ?case by (simp add: fills_error)
next
  case (Suc pages)
  have turn: "concludes (prog_bind (reconcile_fills od exchange (flk_fills l) known) (\<lambda>known'.
       case flk_cursor l of
         None \<Rightarrow> prog_return (Some l, known')
       | Some c \<Rightarrow> fill_pages p client od exchange pages (Some c) (Some l) known')) t
      (\<lambda>y es s'. fills_added known es (reached_of snd y))" if "core_ok (fst t)" for l t
    by (rule fills_then [OF fills_step [OF that]]) (simp add: Suc.IH fills_return split: option.split)
  show ?case
    unfolding fill_pages.simps
  proof (rule fills_ask [OF assms Suc.prems])
    fix l and v :: "'a venue"
    let ?t = "(fst s, v)"
    have ok: "core_ok (fst ?t)" using Suc.prems by simp
    show "concludes (if flk_status l \<noteq> ELS_FOUND then prog_bind (fill_lookup_error od l) (\<lambda>_. prog_return (Some l, known))
        else prog_bind (reconcile_fills od exchange (flk_fills l) known) (\<lambda>known'.
          case flk_cursor l of None \<Rightarrow> prog_return (Some l, known')
          | Some c \<Rightarrow> fill_pages p client od exchange pages (Some c) (Some l) known')) ?t
        (\<lambda>y es s'. fills_added known es (reached_of snd y))"
      using turn [OF ok, of l] fills_lookup_failed [OF ok, of snd "(Some l, known)"] by simp
  qed
qed

lemma order_step:
  assumes "honest_fill_client client" and "core_ok (fst s)"
  shows "concludes (reconcile_order p client od emitted) s (\<lambda>y es s'. fills_added (emitted, []) es
    (reached_of (\<lambda>r. (snd r, flr_emitted_fill_ids (fst r))) y))"
proof (cases "ord_exchange_order_id od")
  case None
  then show ?thesis
    unfolding reconcile_order_def
    by (auto intro!: concludes_raise fills_added_none simp: assms(2))
next
  case (Some exchange)
  have "concludes (case r of (lk, known) \<Rightarrow> prog_return (f lk known, fst known)) t
      (\<lambda>y es s'. fills_added (snd r) es (reached_of (\<lambda>r. (snd r, flr_emitted_fill_ids (fst r))) y))"
    if "core_ok (fst t)" and "\<And>lk known. flr_emitted_fill_ids (f lk known) = snd known" for f r and t :: "core \<times> 'a venue"
    by (cases r) (simp add: that fills_return)
  note last = this
  show ?thesis
    unfolding reconcile_order_def Some option.case
    by (rule fills_then [OF pages_step [OF assms]]) (rule last, simp_all)
qed

lemma orders_step:
  assumes "honest_fill_client client"
  shows "core_ok (fst s) \<Longrightarrow> concludes (reconcile_orders p client ods emitted) s
    (\<lambda>y es s'. fills_added (emitted, []) es None)"
proof (induction ods arbitrary: emitted s)
  case Nil
  then show ?case by (auto intro!: concludes_return fills_added_none)
next
  case (Cons od ods)
  have rest: "concludes (case r of (result, emitted') \<Rightarrow>
        prog_bind (reconcile_orders p client ods emitted') (\<lambda>results. prog_return (result # results))) t
      (\<lambda>y es s'. fills_added (snd r, flr_emitted_fill_ids (fst r)) es None)" if "core_ok (fst t)"
    for r and t :: "core \<times> 'a venue"
  proof -
    have "fills_added (a, b) es None" if "fills_added (a, []) es None" for a b and es :: "event list"
      using that by (simp add: fills_added_def)
    then show ?thesis
      by (cases r, simp) (rule concludes_bind [OF Cons.IH [OF that]], simp_all add: concludes_return)
  qed
  show ?case
  proof (cases "should_reconcile p od")
    case False
    then show ?thesis using Cons by simp
  next
    case True
    show ?thesis
      unfolding reconcile_orders.simps using True
      by simp (rule fills_then_last [OF order_step [OF assms Cons.prems]], simp add: rest)
  qed
qed

text \<open>The fill ids a ledger records, in the order of the records\<close>

definition recorded_fill_ids :: "audit_record list \<Rightarrow> json list" where
  "recorded_fill_ids rs =
     map (\<lambda>r. jget (record_payload r) ''fill_id'') (filter (\<lambda>r. rec_event_type r = ET_EXCHANGE_FILL) rs)"

lemma facts_fill_ids: "event_sink.facts es rs \<Longrightarrow> recorded_fill_ids rs = fill_ids es"
  by (induction rule: core_sink.facts.induct)
    (auto simp: recorded_fill_ids_def fill_ids_def payload_dict_def extension_record_def)

lemma fill_applied:
  assumes "apply_record r q = Inr q'" and "rec_event_type r = ET_EXCHANGE_FILL"
    and "string_or_none (jget (record_payload r) ''fill_id'') = Some i"
  shows "dict_has (pj_fills_by_id q') i"
proof -
  have fill: "apply_exchange_fill r (note_record r q) = Inr q'"
    using assms(1,2) by (simp add: apply_record_def apply_event_def)
  show ?thesis
  proof (cases "dict_has (pj_fills_by_id (note_record r q)) i")
    case True
    with known_fill_ignored [OF assms(3) True] fill show ?thesis by simp
  next
    case False
    from fill assms(3) False show ?thesis
      by (rule apply_exchange_fill_new) (auto simp: update_order_def)
  qed
qed

lemma recorded_fill_known:
  assumes "core_projection c = Inr pj" and "JStr i \<in> set (recorded_fill_ids (core_records c))" and "i \<noteq> []"
  shows "dict_has (pj_fills_by_id pj) i"
proof -
  from assms(2) obtain r where r: "r \<in> set (core_records c)" "rec_event_type r = ET_EXCHANGE_FILL"
    "jget (record_payload r) ''fill_id'' = JStr i" by (auto simp: recorded_fill_ids_def)
  then have "string_or_none (jget (record_payload r) ''fill_id'') = Some i" using assms(3) by (simp add: string_or_none_def)
  then show ?thesis
    by (intro record_remembered [OF assms(1) r(1), of "\<lambda>q. dict_has (pj_fills_by_id q) i"])
      (auto intro: fill_applied [OF _ r(2)] simp: grows_def remembers_def)
qed

text \<open>
  C9. A run of the fill reconciliation, whether it returns or a failing venue or clock ends it, records each fill at most
  once and none that the ledger already has, whatever pages the venue answers with: fill ids recorded once
  stay recorded once.
\<close>

theorem no_fill_recorded_twice:
  assumes "core_ok c" and "core_projection c = Inr pj" and "honest_fill_client client"
    and "reconcile p client (c, v) = (x, (c1, v1))"
  shows "\<exists>new. recorded_fill_ids (core_records c1) = recorded_fill_ids (core_records c) @ map JStr new \<and>
    distinct new \<and> JStr ` set new \<inter> set (recorded_fill_ids (core_records c)) = {}"
proof -
  have ok: "core_ok (fst (c, v))" using assms(1) by simp
  have "concludes (reconcile p client) (c, v) (\<lambda>y es s'. fills_added (dict_keys (pj_fills_by_id pj), []) es None)"
    unfolding reconcile_def
    by (rule concludes_read_core [OF ok named_core_projection]) (use assms(2) in \<open>simp_all add: orders_step [OF assms(3) ok]\<close>)
  from concludesE [OF this] assms(4) obtain es where "extends_ledger c es c1"
    and fills: "fills_added (dict_keys (pj_fills_by_id pj), []) es None" by (metis fst_conv prod.inject)
  then obtain rs where rs: "core_records c1 = core_records c @ rs" "event_sink.facts es rs"
    unfolding extends_ledger_def by blast
  from fills obtain new where new: "fill_ids es = map JStr new" "distinct new" "[] \<notin> set new"
    "set new \<inter> set (dict_keys (pj_fills_by_id pj)) = {}" unfolding fills_added_def fresh_fills_def by auto
  have "JStr i \<notin> set (recorded_fill_ids (core_records c))" if "i \<in> set new" for i
  proof
    assume "JStr i \<in> set (recorded_fill_ids (core_records c))"
    moreover have "i \<noteq> []" using new(3) that by blast
    ultimately have "dict_has (pj_fills_by_id pj) i" by (rule recorded_fill_known [OF assms(2)])
    with new(4) that show False by (auto simp: dict_has_iff)
  qed
  moreover have "recorded_fill_ids (core_records c1) = recorded_fill_ids (core_records c) @ map JStr new"
    using facts_fill_ids [OF rs(2)] rs(1) new(1) by (simp add: recorded_fill_ids_def)
  ultimately show ?thesis using new(2) by blast
qed

subsection \<open>One recovery for every mismatch\<close>

abbreviation mismatch_key :: "reconciliation_mismatch_snapshot \<Rightarrow> string \<times> reconciliation_issue" where
  "mismatch_key m \<equiv> (mis_action_id m, mis_reason m)"

definition recovery_for :: "reconciliation_mismatch_snapshot \<Rightarrow> event \<Rightarrow> bool" where
  "recovery_for m e \<longleftrightarrow> fst e = ET_RECONCILIATION_RECOVERY \<and> jget (snd e) ''action_id'' = JStr (mis_action_id m) \<and>
     jget (snd e) ''reason'' = JStr (reconciliation_issue_value (mis_reason m)) \<and>
     (\<exists>st. jget (snd e) ''lookup_status'' = JStr (exchange_lookup_status_value st))"

definition recovered :: "reconciliation_mismatch_snapshot \<Rightarrow> event list \<Rightarrow> recovery_result res \<Rightarrow> bool" where
  "recovered m es x \<longleftrightarrow> (\<forall>r. x = Inr r \<longrightarrow>
     (rvr_action_id r, rvr_reason r) = mismatch_key m \<and> (\<exists>e \<in> set es. recovery_for m e))"

lemma recovered_raised [simp]: "recovered m es (Inl e)"
  by (simp add: recovered_def)

lemma concludes_ask_or:
  assumes "\<And>e w. m (vn_world (snd s)) = (Inl e, w) \<Longrightarrow> concludes (h e) (fst s, (snd s)\<lparr>vn_world := w\<rparr>) P"
    and "\<And>x w. m (vn_world (snd s)) = (Inr x, w) \<Longrightarrow> concludes (f x) (fst s, (snd s)\<lparr>vn_world := w\<rparr>) P"
  shows "concludes (\<lambda>s. case ask m s of (Inl e, t) \<Rightarrow> h e t | (Inr x, t) \<Rightarrow> f x t) s P"
proof (cases "m (vn_world (snd s))")
  case (Pair x w)
  then have run: "ask m s = (x, (fst s, (snd s)\<lparr>vn_world := w\<rparr>))" by (simp add: ask_def on_local_def)
  show ?thesis
    using assms Pair by (cases x) (simp_all add: concludes_def run)
qed

lemma emit_recovery_concludes:
  assumes "core_ok (fst s)"
  shows "concludes (emit_recovery m f) s (\<lambda>x es s'. recovered m es x)"
proof -
  have last: "concludes (prog_bind (on_core (emit_object ET_RECONCILIATION_RECOVERY
        (recovery_payload m f now @ upd @ raw))) (\<lambda>r. prog_return
       \<lparr>rvr_action_id = mis_action_id m, rvr_reason = mis_reason m, rvr_lookup_status = rvf_lookup_status f,
        rvr_recovery_sequence = rec_sequence r, rvr_client_order_id = rvf_client_order_id f,
        rvr_exchange_order_id = rvf_exchange_order_id f, rvr_error_code = rvf_error_code f,
        rvr_error_message = rvf_error_message f\<rparr>)) t (\<lambda>x es s'. recovered m (pre @ es) x)"
    if "core_ok (fst t)" for now upd raw pre and t :: "core \<times> 'a venue"
  proof (rule concludes_emit [OF that], rule concludes_return, simp)
    have "recovery_for m (ET_RECONCILIATION_RECOVERY, recovery_payload m f now @ upd @ raw)"
      by (auto simp: recovery_for_def recovery_payload_def jget_def)
    then show "recovered m (pre @ (ET_RECONCILIATION_RECOVERY, recovery_payload m f now @ upd @ raw) # [])
        (Inr \<lparr>rvr_action_id = mis_action_id m, rvr_reason = mis_reason m, rvr_lookup_status = rvf_lookup_status f,
        rvr_recovery_sequence = rec_sequence r, rvr_client_order_id = rvf_client_order_id f,
        rvr_exchange_order_id = rvf_exchange_order_id f, rvr_error_code = rvf_error_code f,
        rvr_error_message = rvf_error_message f\<rparr>)" for r
      by (simp add: recovered_def)
  qed
  have upd: "concludes (if upd = [] then prog_return []
        else if contract_valid contract then prog_return [(''order_update'', JObj upd)]
        else prog_bind (emit_reconciliation_error (error_code_value ER_EXCHANGE_ORDER_UPDATE_INVALID)
               ''Coinbase recovery returned an order update that failed contract validation''
               (update_contract_context contract m upd)) (\<lambda>_. prog_return [])) t (\<lambda>x es s'. \<exists>y. x = Inr y)"
    if "core_ok (fst t)" for upd contract and t :: "core \<times> 'a venue"
    using that by (auto intro!: concludes_return concludes_bind [OF reconciliation_error_written])
  show ?thesis
    unfolding emit_recovery_def Let_def
    by (rule concludes_venue_now, rule concludes_bind [OF upd])
      (simp_all only: fst_conv assms last recovered_raised)
qed

lemma recover_mismatch_concludes:
  assumes "core_ok (fst s)" and "\<And>x w. named (fst (get_order x w))"
  shows "concludes (recover_mismatch get_order m) s (\<lambda>x es s'. recovered m es x)"
proof -
  have after: "concludes (recover_after_lookup m client ex lk) t (\<lambda>x es s'. recovered m es x)"
    if "core_ok (fst t)" for client ex lk and t :: "core \<times> 'a venue"
  proof -
    have rest: "concludes (prog_bind (report_failed_lookup m client ex lk) (\<lambda>_. prog_return r)) u
        (\<lambda>x es s'. recovered m (es0 @ es) x)" if "core_ok (fst u)" "recovered m es0 (Inr r)" for r es0 and u :: "core \<times> 'a venue"
      using that unfolding report_failed_lookup_def
      by (cases "olk_status lk = ELS_FAILED")
        (auto intro!: concludes_return concludes_bind [OF reconciliation_error_written] concludes_bind [OF concludes_return]
          simp: text_or_def recovered_def split: option.split)
    show ?thesis
      unfolding recover_after_lookup_def
      by (rule concludes_bind [OF emit_recovery_concludes [OF that]]) (simp_all add: rest)
  qed
  have failed: "concludes (recover_after_exception m client ex e) t (\<lambda>x es s'. recovered m es x)"
    if "core_ok (fst t)" for client ex e and t :: "core \<times> 'a venue"
    unfolding recover_after_exception_def
    by (rule concludes_bind_lift [OF that named_exception_payload], simp add: recovered_def,
        rule concludes_emit [OF that], rule concludes_raise)
      (simp_all add: recovered_def missing_argument_error_def)
  show ?thesis
  proof (cases "string_or_none (jget (mis_payload m) ''exchange_order_id'')")
    case None
    show ?thesis unfolding recover_mismatch_def Let_def None option.case by (rule emit_recovery_concludes [OF assms(1)])
  next
    case (Some ex)
    show ?thesis unfolding recover_mismatch_def Let_def Some option.case
      by (rule concludes_ask_or; rule failed after) (simp_all add: assms(1))
  qed
qed

lemma recover_each_concludes:
  assumes "\<And>x w. named (fst (get_order x w))"
  shows "core_ok (fst s) \<Longrightarrow> concludes (prog_each (recover_mismatch get_order) ms) s (\<lambda>x es s'. \<forall>rs. x = Inr rs \<longrightarrow>
    map (\<lambda>r. (rvr_action_id r, rvr_reason r)) rs = map mismatch_key ms \<and>
    (\<forall>m \<in> set ms. \<exists>e \<in> set es. recovery_for m e))"
proof (induction ms arbitrary: s)
  case Nil
  then show ?case by (auto intro!: concludes_return)
next
  case (Cons m ms)
  have rest: "concludes (prog_bind (prog_each (recover_mismatch get_order) ms) (\<lambda>ys. prog_return (r # ys))) t
      (\<lambda>x es s'. \<forall>rs. x = Inr rs \<longrightarrow> map (\<lambda>r. (rvr_action_id r, rvr_reason r)) rs = map mismatch_key (m # ms) \<and>
        (\<forall>m' \<in> set (m # ms). \<exists>e \<in> set (es0 @ es). recovery_for m' e))"
    if "core_ok (fst t)" and "recovered m es0 (Inr r)" for r es0 t
    by (rule concludes_bind [OF Cons.IH [OF that(1)]]) (use that(2) in \<open>auto intro!: concludes_return simp: recovered_def\<close>)
  show ?case
    unfolding prog_each.simps
    by (rule concludes_bind [OF recover_mismatch_concludes [OF Cons.prems assms]]) (simp_all only: rest, simp)
qed

lemma recovery_remembered:
  assumes "core_projection c2 = Inr pj" and "extends_ledger c es c2" and "e \<in> set es" and "recovery_for m e"
    and "mis_action_id m \<noteq> []"
  shows "has_reconciliation_recovery pj (mis_action_id m) (mis_reason m)"
proof -
  from assms(4) obtain p st where e: "e = (ET_RECONCILIATION_RECOVERY, p)" and
    fields: "string_or_none (jget p ''action_id'') = Some (mis_action_id m)"
      "enum_or_none reconciliation_issue_of (jget p ''reason'') = Some (mis_reason m)"
      "enum_or_none exchange_lookup_status_of (jget p ''lookup_status'') = Some (st :: exchange_lookup_status)"
    using assms(5) by (cases e) (auto simp: recovery_for_def string_or_none_def enum_or_none_def)
  show ?thesis
  proof (rule event_remembered [OF assms(1,2) assms(3) [unfolded e]])
    show "has_reconciliation_recovery q' (mis_action_id m) (mis_reason m)"
      if "rec_event_type r = ET_RECONCILIATION_RECOVERY" "rec_payload r = JObj p" "apply_record r q = Inr q'" for r q q'
      using that fields
      by (auto simp: has_reconciliation_recovery_def apply_record_def apply_event_def apply_reconciliation_recovery_def
          payload_dict_def)
  qed (simp add: has_reconciliation_recovery_def grows_def remembers_def)
qed

text \<open>
  C17. A recovery run that returns has a result for every mismatch that had no recovery, in their order, and settles them:
  on whatever ledger later runs read, none of them is looked up again, the ones whose lookup failed or
  was refused included.
\<close>

theorem recovery_is_final:
  assumes "core_ok c" and "core_projection c = Inr pj" and "\<And>x w. named (fst (get_order x w))"
    and "recover get_order (c, v) = (Inr results, (c1, v1))" and "\<And>m. m \<in> set (unrecovered pj) \<Longrightarrow> mis_action_id m \<noteq> []"
  shows "map (\<lambda>r. (rvr_action_id r, rvr_reason r)) results = map mismatch_key (unrecovered pj) \<and>
    core_ok c1 \<and> (\<forall>es c2 pj2. extends_ledger c1 es c2 \<longrightarrow> core_projection c2 = Inr pj2 \<longrightarrow>
      mismatch_key ` set (unrecovered pj2) \<inter> mismatch_key ` set (unrecovered pj) = {})"
proof -
  have ok: "core_ok (fst (c, v))" using assms(1) by simp
  have run: "concludes (recover get_order) (c, v) (\<lambda>x es s'. \<forall>rs. x = Inr rs \<longrightarrow>
    map (\<lambda>r. (rvr_action_id r, rvr_reason r)) rs = map mismatch_key (unrecovered pj) \<and>
    (\<forall>m \<in> set (unrecovered pj). \<exists>e \<in> set es. recovery_for m e))"
    unfolding recover_def
  proof (rule concludes_read_core [OF ok named_core_projection])
    fix pj' assume "core_projection (fst (c, v)) = Inr pj'"
    with assms(2) have "pj' = pj" by simp
    then show "concludes (prog_each (recover_mismatch get_order) (unrecovered pj')) (c, v) (\<lambda>x es s'. \<forall>rs. x = Inr rs \<longrightarrow>
      map (\<lambda>r. (rvr_action_id r, rvr_reason r)) rs = map mismatch_key (unrecovered pj) \<and>
      (\<forall>m \<in> set (unrecovered pj). \<exists>e \<in> set es. recovery_for m e))"
      by (simp only: recover_each_concludes [OF assms(3) ok])
  qed simp
  from run obtain x es1 s' where out: "recover get_order (c, v) = (x, s')" and led1: "extends_ledger (fst (c, v)) es1 (fst s')"
    and post: "\<forall>rs. x = Inr rs \<longrightarrow> map (\<lambda>r. (rvr_action_id r, rvr_reason r)) rs = map mismatch_key (unrecovered pj) \<and>
      (\<forall>m \<in> set (unrecovered pj). \<exists>e \<in> set es1. recovery_for m e)" by (rule concludesE) (rule that)
  from out assms(4) have eqs: "x = Inr results" "s' = (c1, v1)" by simp_all
  with led1 have led: "extends_ledger c es1 c1" by simp
  from post eqs(1) have res: "map (\<lambda>r. (rvr_action_id r, rvr_reason r)) results = map mismatch_key (unrecovered pj)"
    and each: "\<forall>m \<in> set (unrecovered pj). \<exists>e \<in> set es1. recovery_for m e" by blast+
  have "mismatch_key ` set (unrecovered pj2) \<inter> mismatch_key ` set (unrecovered pj) = {}"
    if ext: "extends_ledger c1 es c2" and pj2: "core_projection c2 = Inr pj2" for es c2 pj2
  proof -
    have settled: "has_reconciliation_recovery pj2 (mis_action_id m) (mis_reason m)" if m: "m \<in> set (unrecovered pj)" for m
    proof -
      from each m obtain e where "e \<in> set es1" and e: "recovery_for m e" by blast
      then have "e \<in> set (es1 @ es)" by simp
      with e recovery_remembered [OF pj2 extends_ledger_trans [OF led ext]] assms(5) [OF m] show ?thesis by blast
    qed
    have open_still: "\<not> has_reconciliation_recovery pj2 (mis_action_id m) (mis_reason m)" if "m \<in> set (unrecovered pj2)" for m
      using that unfolding unrecovered_def set_filter by blast
    have "mismatch_key m2 \<noteq> mismatch_key m" if "m2 \<in> set (unrecovered pj2)" "m \<in> set (unrecovered pj)" for m m2
      using settled [OF that(2)] open_still [OF that(1)] by (metis prod.inject)
    then show ?thesis by blast
  qed
  with res extends_ledger_ok [OF led] show ?thesis by blast
qed

text \<open>
  C38. A client that raises stops the run at the first mismatch looked up: an ERROR is written, then the call of
  \<^verbatim>\<open>_emit_recovery\<close> without its \<^verbatim>\<open>client_order_id\<close> raises a TypeError, so that no recovery is written
  for that mismatch or for any after it.
\<close>

theorem lookup_exception_stops_recovery:
  assumes "core_ok c" and "core_projection c = Inr pj" and "unrecovered pj = m # ms"
    and "string_or_none (jget (mis_payload m) ''exchange_order_id'') = Some exchange"
    and "get_order exchange (vn_world v) = (Inl e, w)" and "exc_class e \<noteq> []"
  shows "\<exists>c' p. recover get_order (c, v) = (Inl missing_argument_error, (c', v\<lparr>vn_world := w\<rparr>)) \<and>
    extends_ledger c [(ET_ERROR, p)] c'"
proof -
  obtain p where p: "exception_to_error_payload e EC_RECONCILIATION
      (lookup_context m (string_or_none (jget (mis_payload m) ''client_order_id'')) exchange)
      (Some ER_RECONCILIATION_LOOKUP_FAILED) None = Inr p" using exception_to_error_payload_ok [OF assms(6)] by blast
  obtain r c' where emit: "writes (emit_object ET_ERROR p) c r [(ET_ERROR, p)] c'"
    using emit_object_writes [OF assms(1)] by metis
  have "recover_mismatch get_order m (c, v) = (Inl missing_argument_error, (c', v\<lparr>vn_world := w\<rparr>))"
    using emit
    by (simp add: recover_mismatch_def Let_def assms(4,5) ask_def on_local_def recover_after_exception_def p writes_extends
        on_core_def prog_bind_def prog_lift_def prog_raise_def)
  then have "recover get_order (c, v) = (Inl missing_argument_error, (c', v\<lparr>vn_world := w\<rparr>))"
    by (simp add: recover_def on_core_def prog_bind_def assms(2,3))
  with emit show ?thesis by (auto simp: writes_extends)
qed

subsection \<open>Two orders without a confirmation\<close>

definition executed_event :: "string \<Rightarrow> execution_mode \<Rightarrow> payload" where
  "executed_event i mode =
     [(''action_id'', JStr i), (''action_type'', JStr (action_type_value AT_PLACE_ORDER)),
      (''execution_result'', JObj
         [(''exchange_order_id'', JStr (''x-'' @ i)), (''mode'', JStr (execution_mode_value mode)),
          (''status'', JStr (execution_status_value ES_ACCEPTED))])]"

definition orders_core :: core where
  "orders_core = snd (emit_object ET_ACTION_EXECUTED (executed_event ''a2'' EM_LIVE)
     (snd (emit_object ET_ACTION_EXECUTED (executed_event ''a1'' EM_DRY_RUN) sample_core)))"

definition sample_venue :: "'w \<Rightarrow> 'w venue" where
  "sample_venue w = \<lparr>vn_world = w, vn_clock = (\<lambda>n. seconds 100), vn_reads = 0\<rparr>"

definition policy_for :: "execution_mode list \<Rightarrow> watchdog_policy" where
  "policy_for modes = \<lparr>wdp_execution_result_timeout = seconds 30, wdp_user_confirmation_timeout = seconds 60,
     wdp_execution_modes = modes\<rparr>"

lemma emitted_core_ok: "core_ok c \<Longrightarrow> core_ok (snd (emit_object et p c))"
  using emit_object_writes writes_ok by (metis snd_conv writes_extends)

lemma orders_core_ok: "core_ok orders_core"
  unfolding orders_core_def by (intro emitted_core_ok sample_core_ok)

lemma orders_stamped: "sequence_times (core_records orders_core) = [(1, 0), (2, 1)]"
  by code_simp

lemma orders_watched:
  "case core_projection orders_core of
     Inr pj \<Rightarrow> map rcf_action_id (watchdog_findings (policy_for [EM_LIVE]) pj [(1, 0), (2, 1)] (seconds 100)) = [''a2'']
   | Inl e \<Rightarrow> False"
  by code_simp

theorem watchdog_reports_once_witness:
  "\<exists>fs c1 v1. watchdog_audit (policy_for [EM_LIVE]) (orders_core, sample_venue ()) = (Inr fs, (c1, v1)) \<and>
     map rcf_action_id fs = [''a2'']"
proof -
  from orders_watched obtain pj where pj: "core_projection orders_core = Inr pj"
    and one: "map rcf_action_id (watchdog_findings (policy_for [EM_LIVE]) pj [(1, 0), (2, 1)] (seconds 100)) = [''a2'']"
    by (cases "core_projection orders_core") simp_all
  have "vn_clock (sample_venue ()) (vn_reads (sample_venue ())) = seconds 100" by (simp add: sample_venue_def)
  then show ?thesis
    using watchdog_reports_once [OF orders_core_ok pj, of "policy_for [EM_LIVE]" "sample_venue ()"] one
    unfolding orders_stamped by metis
qed

definition mismatch_core :: core where
  "mismatch_core = snd (emit_object ET_RECONCILIATION_MISMATCH
     [(''action_id'', JStr ''a1''), (''exchange_order_id'', JStr ''x1''),
      (''reason'', JStr (reconciliation_issue_value RI_MISSING_USER_CONFIRMATION))] sample_core)"

definition no_such_order :: "string \<Rightarrow> unit \<Rightarrow> order_lookup res \<times> unit" where
  "no_such_order x w = (Inr \<lparr>olk_status = ELS_NOT_FOUND, olk_status_code = 404, olk_order_update = JNull,
     olk_raw_response = JNull, olk_error_code = None, olk_error_message = None\<rparr>, w)"

lemma mismatch_core_ok: "core_ok mismatch_core"
  unfolding mismatch_core_def by (rule emitted_core_ok [OF sample_core_ok])

lemma mismatch_unrecovered:
  "case core_projection mismatch_core of
     Inr pj \<Rightarrow> map (\<lambda>m. (mismatch_key m, string_or_none (jget (mis_payload m) ''exchange_order_id''))) (unrecovered pj)
        = [((''a1'', RI_MISSING_USER_CONFIRMATION), Some ''x1'')]
   | Inl e \<Rightarrow> False"
  by code_simp

lemma mismatch_recovered:
  "case recover no_such_order (mismatch_core, sample_venue ()) of (Inr rs, s) \<Rightarrow> True | (Inl e, s) \<Rightarrow> False"
  by code_simp

lemma mismatch_core_replayed:
  obtains pj m where "core_projection mismatch_core = Inr pj" and "unrecovered pj = [m]"
    and "mismatch_key m = (''a1'', RI_MISSING_USER_CONFIRMATION)"
    and "string_or_none (jget (mis_payload m) ''exchange_order_id'') = Some ''x1''"
  using mismatch_unrecovered by (cases "core_projection mismatch_core") (auto simp: map_eq_Cons_conv)

theorem recovery_is_final_witness:
  "\<exists>r c1 v1. recover no_such_order (mismatch_core, sample_venue ()) = (Inr [r], (c1, v1)) \<and> rvr_action_id r = ''a1''"
proof -
  obtain pj m where pj: "core_projection mismatch_core = Inr pj" and one: "unrecovered pj = [m]"
    and key: "mismatch_key m = (''a1'', RI_MISSING_USER_CONFIRMATION)" by (rule mismatch_core_replayed)
  obtain x c1 v1 where out: "recover no_such_order (mismatch_core, sample_venue ()) = (x, (c1, v1))" by (rule prod_cases3)
  with mismatch_recovered obtain rs where rs: "x = Inr rs" by (cases x) simp_all
  have named: "named (fst (no_such_order x w))" for x w by (simp add: no_such_order_def named_def)
  have ids: "mis_action_id m' \<noteq> []" if "m' \<in> set (unrecovered pj)" for m' using that one key by simp
  from recovery_is_final [OF mismatch_core_ok pj named out [unfolded rs] ids] one key
  have "map (\<lambda>r. (rvr_action_id r, rvr_reason r)) rs = [(''a1'', RI_MISSING_USER_CONFIRMATION)]" by simp
  with out rs show ?thesis by (auto simp: map_eq_Cons_conv)
qed

theorem lookup_exception_stops_recovery_witness:
  "\<exists>c' p. recover (\<lambda>x w. (Inl (value_error ''offline''), w)) (mismatch_core, sample_venue ()) =
     (Inl missing_argument_error, (c', sample_venue ())) \<and> extends_ledger mismatch_core [(ET_ERROR, p)] c'"
proof -
  obtain pj m where pj: "core_projection mismatch_core = Inr pj" and one: "unrecovered pj = [m]"
    and x: "string_or_none (jget (mis_payload m) ''exchange_order_id'') = Some ''x1''" by (rule mismatch_core_replayed)
  show ?thesis
    using lookup_exception_stops_recovery [OF mismatch_core_ok pj one x, of "\<lambda>x w. (Inl (value_error ''offline''), w)"
        "sample_venue ()" "value_error ''offline''" "()"]
    by (simp add: sample_venue_def)
qed

definition sample_fills :: "unit fill_client" where
  "sample_fills x cursor n w =
     (Inr \<lparr>flk_status = ELS_FOUND, flk_status_code = 200,
       flk_fills = [JObj [(''fill_id'', JStr (''f-'' @ x))], JObj [(''fill_id'', JStr (''f-'' @ x))]],
       flk_cursor = None, flk_error_code = None, flk_error_message = None\<rparr>, w)"

definition sample_fill_policy :: fill_policy where
  "sample_fill_policy = \<lparr>flp_execution_modes = [EM_LIVE], flp_limit = 100, flp_max_pages_per_order = 2\<rparr>"

lemma orders_filled:
  "recorded_fill_ids (core_records (fst (snd (reconcile sample_fill_policy sample_fills (orders_core, sample_venue ()))))) =
     [JStr ''f-x-a2'']"
  by code_simp

theorem no_fill_recorded_twice_witness:
  "\<exists>new. recorded_fill_ids (core_records (fst (snd (reconcile sample_fill_policy sample_fills (orders_core, sample_venue ())))))
       = recorded_fill_ids (core_records orders_core) @ map JStr new \<and> distinct new \<and> new = [''f-x-a2'']"
proof -
  from orders_watched obtain pj where pj: "core_projection orders_core = Inr pj"
    by (cases "core_projection orders_core") simp_all
  have honest: "honest_fill_client sample_fills"
    by (simp add: honest_fill_client_def sample_fills_def named_def)
  obtain x c1 v1 where out: "reconcile sample_fill_policy sample_fills (orders_core, sample_venue ()) = (x, (c1, v1))"
    by (rule prod_cases3)
  from no_fill_recorded_twice [OF orders_core_ok pj honest out] obtain new where
    new: "recorded_fill_ids (core_records c1) = recorded_fill_ids (core_records orders_core) @ map JStr new" "distinct new" by blast
  have none: "recorded_fill_ids (core_records orders_core) = []" by code_simp
  have "map JStr new = [JStr ''f-x-a2'']" using new(1) orders_filled unfolding out none by simp
  then have "new = [''f-x-a2'']" by (auto simp: map_eq_Cons_conv)
  with new out show ?thesis by auto
qed

end
