(* ===== verification/Rounding.thy ===== *)
theory Rounding
  imports Floats
begin

text \<open>
  How far the rounding to a binary64 number can be from what was rounded: a float that is not subnormal is more than
  half of it, so that a delay in seconds bounds the time it was computed from.
\<close>

lemma bit_size_bounds: "0 < n \<Longrightarrow> 2 ^ (bit_size n - 1) \<le> n \<and> n < 2 ^ bit_size n \<and> 0 < bit_size n"
proof (induction n rule: bit_size.induct)
  case (1 n)
  show ?case
  proof (cases "n div 2 = 0")
    case True
    with 1 have "n = 1" by simp
    then show ?thesis by (simp add: bit_size.simps [of "Suc 0"] bit_size.simps [of 0])
  next
    case False
    with 1 have ih: "2 ^ (bit_size (n div 2) - 1) \<le> n div 2" "n div 2 < 2 ^ bit_size (n div 2)" "0 < bit_size (n div 2)"
      by simp_all
    then obtain k where k: "bit_size (n div 2) = Suc k" by (cases "bit_size (n div 2)") auto
    have "bit_size n = Suc (Suc k)" using 1 k by (simp add: bit_size.simps [of n])
    with ih k show ?thesis by auto
  qed
qed

lemma div_half_even_half: "0 < d \<Longrightarrow> d \<le> n \<Longrightarrow> n \<le> 2 * d * div_half_even n d"
proof -
  assume d: "0 < d" "d \<le> n"
  then have one: "1 \<le> n div d" by (simp add: div_greater_zero_iff Suc_le_eq)
  have "n = n div d * d + n mod d" by simp
  also have "\<dots> \<le> n div d * d + d" using mod_less_divisor [OF d(1), of n] by linarith
  also have "\<dots> \<le> 2 * d * (n div d)" using one by (cases "n div d") auto
  also have "\<dots> \<le> 2 * d * div_half_even n d" using div_half_even_lower by simp
  finally show ?thesis .
qed

lemma fraction_le: "0 < a \<Longrightarrow> 0 < b \<Longrightarrow> c / a \<le> x / b \<longleftrightarrow> b * c \<le> x * (a :: rat)"
  by (simp add: pos_le_divide_eq pos_divide_le_eq mult.commute)

lemma power_int_nat: "power_int (2::rat) e = 2 ^ nat e / 2 ^ nat (- e)"
  by (cases "0 \<le> e") (auto simp: power_int_def field_simps)

definition leading_bit :: "nat \<Rightarrow> nat \<Rightarrow> int" where
  "leading_bit n d =
     (let b = int (bit_size n) - int (bit_size d) in if n * 2 ^ nat (- b) < d * 2 ^ nat b then b - 1 else b)"

lemma power_int_le_fraction:
  assumes "0 < d"
  shows "d * 2 ^ nat k \<le> n * 2 ^ nat (- k) \<longleftrightarrow> power_int 2 k \<le> (of_nat n / of_nat d :: rat)"
proof -
  have "d * 2 ^ nat k \<le> n * 2 ^ nat (- k) \<longleftrightarrow> (of_nat d * 2 ^ nat k :: rat) \<le> of_nat n * 2 ^ nat (- k)"
    using of_nat_le_iff [of "d * 2 ^ nat k" "n * 2 ^ nat (- k)", where ?'a = rat]
    by (simp only: of_nat_mult of_nat_power of_nat_numeral)
  also have "\<dots> \<longleftrightarrow> 2 ^ nat k / 2 ^ nat (- k) \<le> (of_nat n / of_nat d :: rat)"
    using assms by (subst fraction_le) simp_all
  finally show ?thesis by (simp only: power_int_nat)
qed

text \<open>The leading bit of \<open>n / d\<close> is the exponent of the power of two just below it.\<close>

lemma leading_bit_bounds:
  assumes "0 < n" and "0 < d"
  shows "power_int 2 (leading_bit n d) \<le> (of_nat n / of_nat d :: rat)"
    and "(of_nat n / of_nat d :: rat) < power_int 2 (leading_bit n d + 1)"
proof -
  define b where "b = int (bit_size n) - int (bit_size d)"
  obtain i j where i: "bit_size n = Suc i" "2 ^ i \<le> n" "n < 2 ^ Suc i" and j: "bit_size d = Suc j" "d < 2 ^ Suc j" "2 ^ j \<le> d"
    using bit_size_bounds [OF assms(1)] bit_size_bounds [OF assms(2)]
    by (cases "bit_size n"; cases "bit_size d") auto
  have cast: "(2::rat) ^ i \<le> of_nat n" "of_nat n < (2::rat) ^ Suc i" "of_nat d < (2::rat) ^ Suc j" "(2::rat) ^ j \<le> of_nat d"
    using of_nat_le_iff [of "2 ^ i" n, where ?'a = rat] of_nat_less_iff [of d "2 ^ Suc j", where ?'a = rat]
      of_nat_le_iff [of "2 ^ j" d, where ?'a = rat] of_nat_less_iff [of n "2 ^ Suc i", where ?'a = rat] i j
    by (simp_all only: of_nat_power of_nat_numeral)
  have "(2::rat) ^ i / 2 ^ Suc j \<le> of_nat n / of_nat d" using cast assms(2) by (intro frac_le) simp_all
  then have low: "power_int (2::rat) (b - 1) \<le> of_nat n / of_nat d"
    by (simp add: b_def i(1) j(1) power_int_diff)
  have "of_nat n / of_nat d < (2::rat) ^ Suc i / 2 ^ j"
    using cast by (intro frac_less) simp_all
  moreover have "power_int (2::rat) (b + 1) = 2 ^ Suc i / 2 ^ j"
    by (simp add: b_def i(1) j(1) power_int_diff power_int_add)
  ultimately have high: "of_nat n / of_nat d < power_int (2::rat) (b + 1)" by simp
  show "power_int 2 (leading_bit n d) \<le> (of_nat n / of_nat d :: rat)"
    using low power_int_le_fraction [OF assms(2), of b n] by (auto simp: leading_bit_def b_def [symmetric] Let_def)
  show "(of_nat n / of_nat d :: rat) < power_int 2 (leading_bit n d + 1)"
    using high power_int_le_fraction [OF assms(2), of b n] by (auto simp: leading_bit_def b_def [symmetric] Let_def)
qed

lemma leading_bit_unique:
  assumes "0 < n" and "0 < d" and "0 < n'" and "0 < d'" and "of_nat n / of_nat d = (of_nat n' / of_nat d' :: rat)"
  shows "leading_bit n d = leading_bit n' d'"
proof -
  have "power_int (2::rat) (leading_bit n d) < power_int 2 (leading_bit n' d' + 1)"
    "power_int (2::rat) (leading_bit n' d') < power_int 2 (leading_bit n d + 1)"
    using leading_bit_bounds [OF assms(1,2)] leading_bit_bounds [OF assms(3,4)] assms(5) by linarith+
  then have "leading_bit n d < leading_bit n' d' + 1" "leading_bit n' d' < leading_bit n d + 1"
    using power_int_increasing [of _ _ "2::rat"] by (meson not_le one_le_numeral)+
  then show ?thesis by simp
qed

lemma binary64_leading_bit:
  "binary64 neg n d =
     (let e = max (leading_bit n d - 52) (- 1074);
          m = div_half_even (n * 2 ^ nat (- e)) (d * 2 ^ nat e)
      in if n = 0 then RFin 0
         else if int (bit_size m) + e > 1024 then RInf neg
         else RFin ((if neg then - of_nat m else of_nat m) * power_int 2 e))"
  unfolding binary64_def leading_bit_def Let_def ..

lemma div_half_even_scale: "0 < k \<Longrightarrow> div_half_even (k * n) (k * d) = div_half_even n d"
  by (simp add: div_half_even_def Let_def mult.left_commute [of 2 k])

text \<open>The nearest float of a fraction is one of the number the fraction denotes.\<close>

lemma binary64_fraction:
  assumes "0 < d" and "0 < d'" and "n * d' = n' * d"
  shows "binary64 neg n d = binary64 neg n' d'"
proof (cases "n = 0")
  case True
  with assms show ?thesis by (simp add: binary64_def)
next
  case False
  with assms have pos: "0 < n" "0 < n'" by (metis mult_eq_0_iff neq0_conv)+
  have "of_nat n * of_nat d' = (of_nat n' * of_nat d :: rat)"
    using assms(3) by (metis of_nat_mult)
  with assms(1,2) have "of_nat n / of_nat d = (of_nat n' / of_nat d' :: rat)" by (simp add: frac_eq_eq)
  then have bit: "leading_bit n d = leading_bit n' d'"
    by (intro leading_bit_unique) (simp_all add: pos assms)
  have "div_half_even (n * x) (d * y) = div_half_even (n' * x) (d' * y)" for x y
  proof -
    have "div_half_even (n * x) (d * y) = div_half_even (d' * (n * x)) (d' * (d * y))"
      using assms(2) by (simp only: div_half_even_scale)
    also have "\<dots> = div_half_even (d * (n' * x)) (d * (d' * y))"
      using assms(3) by (simp only: mult.assoc [symmetric]) (simp add: mult.commute)
    also have "\<dots> = div_half_even (n' * x) (d' * y)" using assms(1) by (simp only: div_half_even_scale)
    finally show ?thesis .
  qed
  with pos bit show ?thesis by (simp add: binary64_leading_bit Let_def)
qed

text \<open>A float of at least the least normal number is off by less than half.\<close>

lemma binary64_half:
  assumes "binary64 False n d = RFin q" and "0 < d" and "d \<le> n * 2 ^ 1022"
  shows "of_nat n / of_nat d \<le> 2 * q"
proof -
  define lo where "lo = leading_bit n d"
  define e where "e = max (lo - 52) (- 1074)"
  define m where "m = div_half_even (n * 2 ^ nat (- e)) (d * 2 ^ nat e)"
  have n: "0 < n" using assms(2,3) by (cases n) auto
  note cmp = power_int_le_fraction [OF assms(2)]
  have below: "power_int 2 lo \<le> (of_nat n / of_nat d :: rat)"
    unfolding lo_def by (rule leading_bit_bounds(1) [OF n assms(2)])
  have "power_int 2 (lo - 52) \<le> (power_int 2 lo :: rat)" by (rule power_int_increasing) simp_all
  note low = order_trans [OF this below]
  have "power_int 2 (- 1022) \<le> (of_nat n / of_nat d :: rat)" using cmp [of "- 1022"] assms(3) by (simp del: power_int_minus)
  moreover have "power_int 2 (- 1074) \<le> (power_int 2 (- 1022) :: rat)" by (rule power_int_increasing) simp_all
  ultimately have least: "power_int 2 (- 1074) \<le> (of_nat n / of_nat d :: rat)" by (rule order_trans [rotated])
  have "power_int 2 e \<le> (of_nat n / of_nat d :: rat)"
    by (cases "lo - 52 \<le> - 1074") (simp_all only: e_def max_def if_True if_False low least)
  then have "d * 2 ^ nat e \<le> n * 2 ^ nat (- e)" using cmp by blast
  then have "n * 2 ^ nat (- e) \<le> 2 * (d * 2 ^ nat e) * m" unfolding m_def by (intro div_half_even_half) (simp_all add: assms(2))
  then have "(of_nat n * 2 ^ nat (- e) :: rat) \<le> 2 * (of_nat d * 2 ^ nat e) * of_nat m"
    using of_nat_le_iff [of "n * 2 ^ nat (- e)" "2 * (d * 2 ^ nat e) * m", where ?'a = rat]
    by (simp only: of_nat_mult of_nat_power of_nat_numeral)
  then have "of_nat n / of_nat d \<le> (2 * of_nat m * 2 ^ nat e) / (2 ^ nat (- e) :: rat)"
    using assms(2) by (subst fraction_le) (simp_all add: ac_simps)
  then have "of_nat n / of_nat d \<le> 2 * (of_nat m * power_int (2::rat) e)"
    by (simp add: power_int_nat)
  moreover have "q = of_nat m * power_int 2 e"
    using assms(1) n unfolding binary64_leading_bit lo_def [symmetric] e_def [symmetric] m_def [symmetric] Let_def
    by (simp split: if_splits)
  ultimately show ?thesis by simp
qed

lemma round_float_half:
  assumes "round_float (of_int d / 1000000) = RFin q" and "0 < d"
  shows "of_int d / 1000000 \<le> 2 * q"
proof -
  obtain n e where q: "quotient_of (of_int d / 1000000) = (n, e)" by (meson prod.exhaust)
  have e: "0 < e" using quotient_of_denom_pos [OF q] .
  have x: "of_int d / 1000000 = (of_int n / of_int e :: rat)" using quotient_of_div [OF q] .
  with assms(2) e have n: "0 < n" by (metis (no_types) of_int_0_less_iff pos_less_divide_eq mult_zero_left zero_less_numeral zero_less_divide_iff not_less_iff_gr_or_eq)
  have "(of_int d * of_int e :: rat) = of_int n * 1000000" using x e by (simp add: field_simps)
  then have "d * e = n * 1000000"
    using of_int_eq_iff [of "d * e" "n * 1000000", where ?'a = rat] by (simp only: of_int_mult of_int_numeral simp_thms)
  then have "e \<le> n * 1000000" using assms(2) e by (smt (verit) mult_le_cancel_right1)
  also have "\<dots> \<le> n * 2 ^ 1022" using n by simp
  finally have "nat e \<le> nat n * 2 ^ 1022" using n e by (simp add: nat_le_eq_zle nat_mult_distrib le_nat_iff)
  moreover have "binary64 False (nat n) (nat e) = RFin q" using assms(1) n unfolding round_float_def q by simp
  ultimately have "of_nat (nat n) / of_nat (nat e) \<le> 2 * q" using e by (intro binary64_half) simp_all
  then show ?thesis using x n e by simp
qed

end
