(* ===== verification/Runtime.thy ===== *)
theory Runtime
  imports Reconciliation Rounding
begin

text \<open>
  \<^verbatim>\<open>runtime/orchestrator.py\<close>: the scheduled tasks of a bot, run when they are due between a system start and a
  system stop in the ledger. The handlers of the tasks and the sleep between two turns are programs over
  the core and the host: the world, the clock and the stop flag. \<open>task_handler\<close> is what a handler owes
  the orchestrator; the audit of the watchdog is one.
\<close>

subsection \<open>The host\<close>

record 'w host =
  ho_venue :: "'w venue"
  ho_stop :: bool

type_synonym ('w, 'a) hosted = "(core \<times> 'w host, 'a) prog"

definition on_venue :: "('w, 'a) dealing \<Rightarrow> ('w, 'a) hosted" where
  "on_venue m s = (case m (fst s, ho_venue (snd s)) of (x, (c, v)) \<Rightarrow> (x, (c, (snd s)\<lparr>ho_venue := v\<rparr>)))"

definition host_now :: "('w, datetime) hosted" where
  "host_now = on_venue venue_now"

definition stop_host :: "('w, unit) hosted" where
  "stop_host s = (Inr (), (fst s, (snd s)\<lparr>ho_stop := True\<rparr>))"

subsection \<open>Tasks\<close>

text \<open>What a handler returns: the name of the class and the value\<close>

type_synonym task_result = "string \<times> pyval"

record 'w scheduled_task =
  stk_task_id :: runtime_task
  stk_interval :: timedelta
  stk_handler :: "('w, task_result) hosted"
  stk_run_on_start :: bool

definition new_scheduled_task :: "'w scheduled_task \<Rightarrow> 'w scheduled_task res" where
  "new_scheduled_task t =
     (if stk_interval t \<le> 0 then Inl (value_error ''interval must be positive'') else Inr t)"

text \<open>\<^verbatim>\<open>except Exception\<close> does not catch what derives from \<^verbatim>\<open>BaseException\<close> only.\<close>

definition ordinary :: "pyexc \<Rightarrow> bool" where
  "ordinary e \<longleftrightarrow>
     exc_class e \<notin> {''CancelledError'', ''KeyboardInterrupt'', ''SystemExit'', ''GeneratorExit''}"

definition try_ordinary :: "('s, 'a) prog \<Rightarrow> (pyexc \<Rightarrow> ('s, 'a) prog) \<Rightarrow> ('s, 'a) prog" where
  "try_ordinary m h = prog_try m (\<lambda>e. if ordinary e then h e else prog_raise e)"

definition result_payload :: "task_result \<Rightarrow> json" where
  "result_payload r =
     (case normalize_json (snd r) of
        Inr j \<Rightarrow> j
      | Inl e \<Rightarrow> JObj [(''result_type'', JStr (fst r))])"

definition task_started_payload :: "'w scheduled_task \<Rightarrow> datetime \<Rightarrow> payload" where
  "task_started_payload t now =
     [(''interval_seconds'', total_seconds (stk_interval t)),
      (''started_at'', jtime now),
      (''task_id'', JStr (runtime_task_value (stk_task_id t)))]"

definition task_completed_payload :: "'w scheduled_task \<Rightarrow> int \<Rightarrow> task_result \<Rightarrow> datetime \<Rightarrow> payload" where
  "task_completed_payload t started result now =
     [(''completed_at'', jtime now),
      (''result'', result_payload result),
      (''started_sequence'', JInt started),
      (''task_id'', JStr (runtime_task_value (stk_task_id t)))]"

definition task_failure_context :: "'w scheduled_task \<Rightarrow> int \<Rightarrow> payload" where
  "task_failure_context t started =
     [(''started_sequence'', JInt started), (''task_id'', JStr (runtime_task_value (stk_task_id t)))]"

definition run_task :: "'w scheduled_task \<Rightarrow> ('w, unit) hosted" where
  "run_task t =
     prog_bind host_now (\<lambda>started_at.
     prog_bind (on_core (emit_object ET_RUNTIME_TASK_STARTED (task_started_payload t started_at))) (\<lambda>started.
     try_ordinary
       (prog_bind (stk_handler t) (\<lambda>result.
        prog_bind host_now (\<lambda>now.
        prog_bind (on_core (emit_object ET_RUNTIME_TASK_COMPLETED
           (task_completed_payload t (rec_sequence started) result now))) (\<lambda>_. prog_return ()))))
       (\<lambda>e. prog_bind (prog_lift (exception_to_error_payload e EC_RUNTIME_TASK
              (task_failure_context t (rec_sequence started)) (Some ER_RUNTIME_TASK_FAILED) None)) (\<lambda>p.
            prog_bind (on_core (emit_object ET_ERROR p)) (\<lambda>_. prog_return ())))))"

subsection \<open>The orchestrator\<close>

record 'w orchestrator =
  orc_tasks :: "'w scheduled_task list"
  orc_metadata :: payload

definition metadata_payload :: "pyval option \<Rightarrow> payload res" where
  "metadata_payload v =
     (case v of
        None \<Rightarrow> Inr []
      | Some x \<Rightarrow> res_bind (normalize_json x) (\<lambda>j.
          case j of JObj kvs \<Rightarrow> Inr kvs
          | _ \<Rightarrow> Inl (type_error ''startup_metadata must normalize to a JSON object'')))"

definition new_orchestrator :: "'w scheduled_task list \<Rightarrow> pyval option \<Rightarrow> 'w orchestrator res" where
  "new_orchestrator tasks metadata =
     (if tasks = [] then Inl (value_error ''At least one runtime task is required'')
      else if \<not> distinct (map stk_task_id tasks) then Inl (value_error ''Runtime task ids must be unique'')
      else res_bind (metadata_payload metadata) (\<lambda>kvs. Inr \<lparr>orc_tasks = tasks, orc_metadata = kvs\<rparr>))"

text \<open>The local variables of \<^verbatim>\<open>run_until\<close>\<close>

record progress =
  pg_completed_cycles :: int
  pg_stop_reason :: runtime_stop_reason
  pg_next_due :: "(runtime_task, datetime) dict"
  pg_completion_counts :: "(runtime_task, int) dict"
  pg_target_reached :: bool

record run_limits =
  lim_max_cycles :: "int option"
  lim_stop_after_task :: "runtime_task option"
  lim_stop_after_task_count :: int

type_synonym ('w, 'a) orchestrated = "(core \<times> 'w host \<times> progress, 'a) prog"

definition on_host :: "('w, 'a) hosted \<Rightarrow> ('w, 'a) orchestrated" where
  "on_host m s = (case m (fst s, fst (snd s)) of (x, (c, h)) \<Rightarrow> (x, (c, (h, snd (snd s)))))"

definition set_progress :: "(progress \<Rightarrow> progress) \<Rightarrow> ('w, unit) orchestrated" where
  "set_progress f s = (Inr (), (fst s, (fst (snd s), f (snd (snd s)))))"

definition initial_due_times :: "'w scheduled_task list \<Rightarrow> datetime \<Rightarrow> (runtime_task, datetime) dict" where
  "initial_due_times tasks started_at =
     fold (\<lambda>t. dict_set (stk_task_id t) (if stk_run_on_start t then started_at else started_at + stk_interval t)) tasks []"

definition system_started_payload :: "'w orchestrator \<Rightarrow> datetime \<Rightarrow> payload" where
  "system_started_payload o1 started_at =
     [(''component'', JStr (runtime_component_value RC_ORCHESTRATOR)),
      (''started_at'', jtime started_at),
      (''task_count'', JInt (int (length (orc_tasks o1))))]
     @ (if orc_metadata o1 = [] then [] else [(''startup_metadata'', JObj (orc_metadata o1))])"

text \<open>Every task has a due time; a task without one would be a KeyError.\<close>

definition is_due :: "(runtime_task, datetime) dict \<Rightarrow> datetime \<Rightarrow> 'w scheduled_task \<Rightarrow> bool" where
  "is_due next_due now t = (case dict_get next_due (stk_task_id t) of None \<Rightarrow> False | Some due \<Rightarrow> due \<le> now)"

definition due_tasks :: "'w scheduled_task list \<Rightarrow> (runtime_task, datetime) dict \<Rightarrow> datetime \<Rightarrow> 'w scheduled_task list" where
  "due_tasks tasks next_due now = filter (is_due next_due now) tasks"

text \<open>\<^verbatim>\<open>max(0.0, delta.total_seconds())\<close>; the greatest timedelta is far below the overflow of a float.\<close>

definition delay_seconds :: "timedelta \<Rightarrow> rat" where
  "delay_seconds d = (case round_float (of_int d / 1000000) of RFin q \<Rightarrow> max 0 q | _ \<Rightarrow> max 0 (of_int d / 1000000))"

definition sleep_until_next_due ::
  "(rat \<Rightarrow> ('w, unit) hosted) \<Rightarrow> (runtime_task, datetime) dict \<Rightarrow> ('w, unit) hosted" where
  "sleep_until_next_due sleep next_due =
     prog_bind host_now (\<lambda>now. sleep (delay_seconds (Min (set (dict_values next_due)) - now)))"

definition at_max_cycles :: "run_limits \<Rightarrow> progress \<Rightarrow> bool" where
  "at_max_cycles lims pg = (case lim_max_cycles lims of None \<Rightarrow> False | Some n \<Rightarrow> n \<le> pg_completed_cycles pg)"

definition count_completion :: "'w scheduled_task \<Rightarrow> progress \<Rightarrow> progress" where
  "count_completion t pg = pg\<lparr>pg_completed_cycles := pg_completed_cycles pg + 1,
     pg_completion_counts := dict_set (stk_task_id t)
       ((case dict_get (pg_completion_counts pg) (stk_task_id t) of None \<Rightarrow> 0 | Some n \<Rightarrow> n) + 1)
       (pg_completion_counts pg)\<rparr>"

definition reschedule :: "'w scheduled_task \<Rightarrow> datetime \<Rightarrow> progress \<Rightarrow> progress" where
  "reschedule t now pg = pg\<lparr>pg_next_due := dict_set (stk_task_id t) (now + stk_interval t) (pg_next_due pg)\<rparr>"

definition target_met :: "run_limits \<Rightarrow> 'w scheduled_task \<Rightarrow> progress \<Rightarrow> bool" where
  "target_met lims t pg \<longleftrightarrow> lim_stop_after_task lims = Some (stk_task_id t) \<and>
     (case dict_get (pg_completion_counts pg) (stk_task_id t) of None \<Rightarrow> False | Some n \<Rightarrow> lim_stop_after_task_count lims \<le> n)"

definition note_target :: "progress \<Rightarrow> progress" where
  "note_target pg = pg\<lparr>pg_stop_reason := RSR_TASK_COMPLETION_TARGET, pg_target_reached := True\<rparr>"

definition note_max_cycles :: "progress \<Rightarrow> progress" where
  "note_max_cycles pg = pg\<lparr>pg_stop_reason := RSR_MAX_CYCLES\<rparr>"

text \<open>The body of the \<^verbatim>\<open>for\<close> after the task, with whether it breaks\<close>

definition after_task :: "run_limits \<Rightarrow> 'w scheduled_task \<Rightarrow> ('w, bool) orchestrated" where
  "after_task lims t =
     prog_bind (set_progress (count_completion t)) (\<lambda>_.
     prog_bind (on_host host_now) (\<lambda>now.
     prog_bind (set_progress (reschedule t now)) (\<lambda>_.
     prog_bind local_state (\<lambda>(h, pg).
     if target_met lims t pg then prog_bind (set_progress note_target) (\<lambda>_. prog_return True)
     else prog_return False))))"

fun run_due :: "run_limits \<Rightarrow> 'w scheduled_task list \<Rightarrow> ('w, unit) orchestrated" where
  "run_due lims [] = prog_return ()"
| "run_due lims (t # ts) =
     prog_bind local_state (\<lambda>(h, pg).
     if ho_stop h then prog_return ()
     else if at_max_cycles lims pg then set_progress note_max_cycles
     else
       prog_bind (on_host (run_task t)) (\<lambda>_.
       prog_bind (after_task lims t) (\<lambda>reached.
       if reached then prog_return () else run_due lims ts)))"

text \<open>
  The \<^verbatim>\<open>while\<close> for at most \<open>fuel\<close> turns; the answer is whether it ended.
\<close>

fun run_cycles ::
  "nat \<Rightarrow> 'w scheduled_task list \<Rightarrow> (rat \<Rightarrow> ('w, unit) hosted) \<Rightarrow> run_limits \<Rightarrow> ('w, bool) orchestrated" where
  "run_cycles 0 tasks sleep lims = prog_return False"
| "run_cycles (Suc fuel) tasks sleep lims =
     prog_bind local_state (\<lambda>(h, pg).
     if ho_stop h \<or> pg_target_reached pg then prog_return True
     else if at_max_cycles lims pg then prog_bind (set_progress note_max_cycles) (\<lambda>_. prog_return True)
     else
       prog_bind (on_host host_now) (\<lambda>now.
       let due = due_tasks tasks (pg_next_due pg) now in
       prog_bind (if due = [] then on_host (sleep_until_next_due sleep (pg_next_due pg)) else run_due lims due) (\<lambda>_.
       run_cycles fuel tasks sleep lims)))"

definition system_stopped_payload :: "progress \<Rightarrow> datetime \<Rightarrow> payload" where
  "system_stopped_payload pg now =
     [(''component'', JStr (runtime_component_value RC_ORCHESTRATOR)),
      (''completed_cycles'', JInt (pg_completed_cycles pg)),
      (''reason'', JStr (runtime_stop_reason_value (pg_stop_reason pg))),
      (''stopped_at'', jtime now)]"

definition emit_stopped :: "('w, unit) orchestrated" where
  "emit_stopped =
     prog_bind local_state (\<lambda>(h, pg).
     prog_bind (on_host host_now) (\<lambda>now.
     prog_bind (on_core (emit_object ET_SYSTEM_STOPPED (system_stopped_payload pg now))) (\<lambda>_. prog_return ())))"

text \<open>
  The \<^verbatim>\<open>try\<close> with its \<^verbatim>\<open>finally\<close>: \<open>None\<close> when the fuel is used up, else the completed cycles
\<close>

definition run_and_stop ::
  "nat \<Rightarrow> 'w scheduled_task list \<Rightarrow> (rat \<Rightarrow> ('w, unit) hosted) \<Rightarrow> run_limits \<Rightarrow> ('w, int option) orchestrated" where
  "run_and_stop fuel tasks sleep lims s =
     (case run_cycles fuel tasks sleep lims s of
        (Inr False, t) \<Rightarrow> (Inr None, t)
      | (Inr True, t) \<Rightarrow>
          prog_bind emit_stopped (\<lambda>_. prog_bind local_state (\<lambda>(h, pg). prog_return (Some (pg_completed_cycles pg)))) t
      | (Inl e, t) \<Rightarrow> prog_bind emit_stopped (\<lambda>_. prog_raise e) t)"

definition with_progress :: "progress \<Rightarrow> ('w, 'a) orchestrated \<Rightarrow> ('w, 'a) hosted" where
  "with_progress pg m s = (case m (fst s, (snd s, pg)) of (x, (c, (h, _))) \<Rightarrow> (x, (c, h)))"

definition check_limits :: "'w orchestrator \<Rightarrow> run_limits \<Rightarrow> unit res" where
  "check_limits o1 lims =
     (if (case lim_max_cycles lims of None \<Rightarrow> False | Some n \<Rightarrow> n \<le> 0) then Inl (value_error ''max_cycles must be positive'')
      else if lim_stop_after_task_count lims \<le> 0 then Inl (value_error ''stop_after_task_count must be positive'')
      else case lim_stop_after_task lims of
        None \<Rightarrow> Inr ()
      | Some t \<Rightarrow>
          if t \<in> set (map stk_task_id (orc_tasks o1)) then Inr ()
          else Inl (value_error (''stop_after_task is not scheduled: '' @ runtime_task_value t)))"

definition initial_progress :: "'w orchestrator \<Rightarrow> datetime \<Rightarrow> progress" where
  "initial_progress o1 started_at =
     \<lparr>pg_completed_cycles = 0, pg_stop_reason = RSR_STOP_REQUESTED,
      pg_next_due = initial_due_times (orc_tasks o1) started_at, pg_completion_counts = [], pg_target_reached = False\<rparr>"

definition run_until ::
  "nat \<Rightarrow> 'w orchestrator \<Rightarrow> (rat \<Rightarrow> ('w, unit) hosted) \<Rightarrow> run_limits \<Rightarrow> ('w, int option) hosted" where
  "run_until fuel o1 sleep lims =
     prog_bind (prog_lift (check_limits o1 lims)) (\<lambda>_.
     prog_bind host_now (\<lambda>started_at.
     prog_bind (on_core (emit_object ET_SYSTEM_STARTED (system_started_payload o1 started_at))) (\<lambda>_.
     with_progress (initial_progress o1 started_at) (run_and_stop fuel (orc_tasks o1) sleep lims))))"

text \<open>\<^verbatim>\<open>run\<close>: the cycles are the only limit.\<close>

definition run_orchestrator ::
  "nat \<Rightarrow> 'w orchestrator \<Rightarrow> (rat \<Rightarrow> ('w, unit) hosted) \<Rightarrow> int option \<Rightarrow> ('w, int option) hosted" where
  "run_orchestrator fuel o1 sleep max_cycles =
     run_until fuel o1 sleep
       \<lparr>lim_max_cycles = max_cycles, lim_stop_after_task = None, lim_stop_after_task_count = 1\<rparr>"

subsection \<open>What a handler owes\<close>

definition host_clock :: "'w host \<Rightarrow> nat \<Rightarrow> datetime" where
  "host_clock h = vn_clock (ho_venue h)"

definition host_reads :: "'w host \<Rightarrow> nat" where
  "host_reads h = vn_reads (ho_venue h)"

definition after_reading :: "'w host \<Rightarrow> 'w host" where
  "after_reading h = h\<lparr>ho_venue := (ho_venue h)\<lparr>vn_reads := Suc (vn_reads (ho_venue h))\<rparr>\<rparr>"

lemma host_now_run: "host_now (c, h) = (Inr (host_clock h (host_reads h)), (c, after_reading h))"
  by (simp add: host_now_def on_venue_def venue_now_def on_local_def host_clock_def host_reads_def after_reading_def)

lemma after_reading_simps [simp]:
  "host_clock (after_reading h) = host_clock h"
  "host_reads (after_reading h) = Suc (host_reads h)" "ho_stop (after_reading h) = ho_stop h"
  by (simp_all add: after_reading_def host_clock_def host_reads_def)

lemma concludes_host_now:
  "concludes (f (host_clock h (host_reads h))) (c, after_reading h) P \<Longrightarrow> concludes (prog_bind host_now f) (c, h) P"
  by (rule concludes_state, rule host_now_run) simp_all

text \<open>
  The events of one run of a task: its start, what the handler writes, and its completion or its error
\<close>

definition task_events :: "runtime_task \<Rightarrow> event list \<Rightarrow> bool" where
  "task_events i es \<longleftrightarrow> (\<exists>p work et q. es = (ET_RUNTIME_TASK_STARTED, p) # work @ [(et, q)] \<and>
     jget p ''task_id'' = JStr (runtime_task_value i) \<and>
     (et = ET_ERROR \<or> et = ET_RUNTIME_TASK_COMPLETED \<and> jget q ''task_id'' = JStr (runtime_task_value i)))"

lemma concludes_ordinary:
  assumes "concludes m s (\<lambda>x es s'. Q x es s' \<and> (\<forall>e. x = Inl e \<longrightarrow> ordinary e))"
    and "\<And>x es s'. Q (Inr x) es s' \<Longrightarrow> P (Inr x) es s'"
    and "\<And>e es s'. core_ok (fst s') \<Longrightarrow> exc_class e \<noteq> [] \<Longrightarrow> Q (Inl e) es s' \<Longrightarrow>
      concludes (h e) s' (\<lambda>y es'. P y (es @ es'))"
  shows "concludes (try_ordinary m h) s P"
  unfolding try_ordinary_def by (rule concludes_try [OF assms(1)]) (simp_all add: assms(2,3))

locale task_handler =
  fixes handler :: "('w, task_result) hosted"
  assumes settles: "core_ok (fst s) \<Longrightarrow> concludes handler s
    (\<lambda>x es s'. \<forall>e. x = Inl e \<longrightarrow> ordinary e)"
begin

text \<open>A task with such a handler starts, settles in the ledger and raises nothing.\<close>

lemma task_runs:
  assumes "core_ok c" and "stk_handler t = handler"
  shows "concludes (run_task t) (c, h) (\<lambda>x es s'. x = Inr () \<and> task_events (stk_task_id t) es)"
proof -
  let ?id = "JStr (runtime_task_value (stk_task_id t))"
  have report: "concludes (prog_bind (prog_lift (exception_to_error_payload e EC_RUNTIME_TASK
              (task_failure_context t n) (Some ER_RUNTIME_TASK_FAILED) None)) (\<lambda>p.
            prog_bind (on_core (emit_object ET_ERROR p)) (\<lambda>_. prog_return ()))) s
      (\<lambda>y es' s'. (y = Inr () \<and> (\<exists>work et q. es @ es' = work @ [(et, q)] \<and>
        (et = ET_ERROR \<or> et = ET_RUNTIME_TASK_COMPLETED \<and> jget q ''task_id'' = ?id))))"
    if ok: "core_ok (fst s)" and e: "exc_class e \<noteq> []" for e n es and s :: "core \<times> 'w host"
  proof -
    obtain p where p: "exception_to_error_payload e EC_RUNTIME_TASK (task_failure_context t n)
        (Some ER_RUNTIME_TASK_FAILED) None = Inr p" using exception_to_error_payload_ok [OF e] by blast
    show ?thesis
      unfolding p
      by (rule concludes_bind_lift [OF ok], simp add: named_def, simp, rule concludes_emit [OF ok], rule concludes_return)
        auto
  qed
  have complete: "concludes (prog_bind handler (\<lambda>result. prog_bind host_now (\<lambda>now.
        prog_bind (on_core (emit_object ET_RUNTIME_TASK_COMPLETED (task_completed_payload t n result now)))
          (\<lambda>_. prog_return ())))) s
      (\<lambda>x es s'. (x = Inr () \<longrightarrow> (\<exists>work et q. es = work @ [(et, q)] \<and>
        (et = ET_ERROR \<or> et = ET_RUNTIME_TASK_COMPLETED \<and> jget q ''task_id'' = ?id))) \<and>
        (\<forall>e. x = Inl e \<longrightarrow> ordinary e))" if "core_ok (fst s)" for s n
  proof (rule concludes_bind [OF settles [OF that]], simp)
    fix x :: task_result and es and s' :: "core \<times> 'w host"
    assume ok: "core_ok (fst s')"
    obtain c1 h1 where s': "s' = (c1, h1)" by force
    with ok show "concludes (prog_bind host_now (\<lambda>now.
        prog_bind (on_core (emit_object ET_RUNTIME_TASK_COMPLETED (task_completed_payload t n x now)))
          (\<lambda>_. prog_return ()))) s'
      (\<lambda>y es'. \<lambda>s''. (y = Inr () \<longrightarrow> (\<exists>work et q. es @ es' = work @ [(et, q)] \<and>
        (et = ET_ERROR \<or> et = ET_RUNTIME_TASK_COMPLETED \<and> jget q ''task_id'' = ?id))) \<and>
        (\<forall>e. y = Inl e \<longrightarrow> ordinary e))"
      unfolding s' by (intro concludes_host_now concludes_emit concludes_return)
        (auto simp: task_completed_payload_def jget_def)
  qed
  have whole: "concludes (try_ordinary (prog_bind handler (\<lambda>result. prog_bind host_now (\<lambda>now.
        prog_bind (on_core (emit_object ET_RUNTIME_TASK_COMPLETED (task_completed_payload t n result now)))
          (\<lambda>_. prog_return ()))))
       (\<lambda>e. prog_bind (prog_lift (exception_to_error_payload e EC_RUNTIME_TASK
              (task_failure_context t n) (Some ER_RUNTIME_TASK_FAILED) None)) (\<lambda>p.
            prog_bind (on_core (emit_object ET_ERROR p)) (\<lambda>_. prog_return ())))) s
      (\<lambda>x es s'. x = Inr () \<and> (\<exists>work et q. es = work @ [(et, q)] \<and>
        (et = ET_ERROR \<or> et = ET_RUNTIME_TASK_COMPLETED \<and> jget q ''task_id'' = ?id)))"
    if "core_ok (fst s)" for s n
    by (rule concludes_ordinary [OF complete [OF that]]) (simp, simp add: report)
  show ?thesis
    unfolding run_task_def assms(2)
    by (rule concludes_host_now, rule concludes_emit, simp add: assms(1), rule concludes_mono [OF whole], simp)
      (auto simp: task_events_def task_started_payload_def jget_def)
qed

end

subsection \<open>The turns of the orchestrator\<close>

lemma concludes_on_host:
  assumes "concludes m (c, h) (\<lambda>x es s'. P x es (fst s', (snd s', pg)))"
  shows "concludes (on_host m) (c, (h, pg)) P"
proof -
  from assms obtain x es s' where m: "m (c, h) = (x, s')" "named x" "extends_ledger c es (fst s')"
    "P x es (fst s', (snd s', pg))" unfolding concludes_def fst_conv by blast
  then have "on_host m (c, (h, pg)) = (x, (fst s', (snd s', pg)))" by (cases s') (simp add: on_host_def)
  with m(2-4) show ?thesis unfolding concludes_def by (metis fst_conv)
qed

lemma concludes_progress:
  "concludes (f ()) (c, (h, g pg)) P \<Longrightarrow> concludes (prog_bind (set_progress g) f) (c, (h, pg)) P"
  by (rule concludes_state [where s' = "(c, (h, g pg))"]) (simp_all add: set_progress_def)

lemma concludes_progress_last:
  "core_ok c \<Longrightarrow> P (Inr ()) [] (c, (h, g pg)) \<Longrightarrow> concludes (set_progress g) (c, (h, pg)) P"
  using extends_ledger_refl unfolding concludes_def by (force simp: set_progress_def named_def)

lemma concludes_read:
  "concludes (f (h, pg)) (c, (h, pg)) P \<Longrightarrow> concludes (prog_bind local_state f) (c, (h, pg)) P"
  by (rule concludes_state [where s' = "(c, (h, pg))"]) (simp_all add: local_state_def)

lemma concludes_hosted_now:
  "concludes (f (host_clock h (host_reads h))) (c, (after_reading h, pg)) P \<Longrightarrow>
   concludes (prog_bind (on_host host_now) f) (c, (h, pg)) P"
  by (rule concludes_state [where s' = "(c, (after_reading h, pg))"]) (simp_all add: on_host_def host_now_run)

text \<open>Runs of tasks in their order, among whatever else is written\<close>

inductive task_session :: "runtime_task list \<Rightarrow> event list \<Rightarrow> bool" where
  session_end: "task_session [] []"
| session_idle: "task_session ts es \<Longrightarrow> task_session ts (idle @ es)"
| session_task: "task_events i run \<Longrightarrow> task_session ts es \<Longrightarrow> task_session (i # ts) (run @ es)"

lemma session_append: "task_session ts es \<Longrightarrow> task_session ts' es' \<Longrightarrow> task_session (ts @ ts') (es @ es')"
  by (induction rule: task_session.induct) (auto intro: task_session.intros)

text \<open>Every task has a due time, and the cycles are within their bound.\<close>

definition progress_ok :: "'w scheduled_task list \<Rightarrow> run_limits \<Rightarrow> progress \<Rightarrow> bool" where
  "progress_ok tasks lims pg \<longleftrightarrow> distinct (dict_keys (pg_next_due pg)) \<and>
     set (dict_keys (pg_next_due pg)) = stk_task_id ` set tasks \<and>
     (\<forall>n. lim_max_cycles lims = Some n \<longrightarrow> pg_completed_cycles pg \<le> n)"

definition turn_made :: "'w scheduled_task list \<Rightarrow> run_limits \<Rightarrow> progress \<Rightarrow> runtime_task list \<Rightarrow>
    event list \<Rightarrow> progress \<Rightarrow> bool" where
  "turn_made tasks lims pg ids es pg' \<longleftrightarrow> task_session ids es \<and> progress_ok tasks lims pg' \<and>
     pg_completed_cycles pg' = pg_completed_cycles pg + int (length ids) \<and>
     set ids \<subseteq> stk_task_id ` set tasks"

lemma turn_made_trans:
  assumes "turn_made tasks lims pg ids es pg1" and "turn_made tasks lims pg1 ids' es' pg2"
  shows "turn_made tasks lims pg (ids @ ids') (es @ es') pg2"
  using assms session_append unfolding turn_made_def by auto

lemma after_task_ok:
  assumes "progress_ok tasks lims pg" and "\<not> at_max_cycles lims pg" and "t \<in> set tasks" and "core_ok c"
  shows "concludes (after_task lims t) (c, (h, pg)) (\<lambda>x es s'. es = [] \<and> (\<exists>b. x = Inr b) \<and>
    progress_ok tasks lims (snd (snd s')) \<and>
    pg_completed_cycles (snd (snd s')) = pg_completed_cycles pg + 1)"
proof -
  let ?pg = "\<lambda>now. reschedule t now (count_completion t pg)"
  have "stk_task_id t \<in> stk_task_id ` set tasks" using assms(3) by simp
  then have keys: "insert (stk_task_id t) (stk_task_id ` set tasks) = stk_task_id ` set tasks" by (rule insert_absorb)
  have done_ok: "progress_ok tasks lims (?pg now)" "pg_completed_cycles (?pg now) = pg_completed_cycles pg + 1"
    "progress_ok tasks lims (note_target (?pg now))" "pg_completed_cycles (note_target (?pg now)) = pg_completed_cycles pg + 1" for now
    using assms(1,2) keys
    by (simp_all add: progress_ok_def reschedule_def count_completion_def note_target_def at_max_cycles_def
        keys_dict_set distinct_dict_set del: set_map split: option.splits)
  show ?thesis
    unfolding after_task_def
    by (rule concludes_progress, rule concludes_hosted_now, rule concludes_progress, rule concludes_read)
      (auto intro!: concludes_progress concludes_return simp: assms(4) done_ok)
qed

lemma run_due_ok:
  assumes "\<And>t. t \<in> set ts \<Longrightarrow> task_handler (stk_handler t)"
  shows "core_ok c \<Longrightarrow> set ts \<subseteq> set tasks \<Longrightarrow> progress_ok tasks lims pg \<Longrightarrow>
    concludes (run_due lims ts) (c, (h, pg)) (\<lambda>x es s'. x = Inr () \<and> (\<exists>ids. turn_made tasks lims pg ids es (snd (snd s')) \<and>
      (ts \<noteq> [] \<longrightarrow> \<not> ho_stop h \<longrightarrow> \<not> at_max_cycles lims pg \<longrightarrow> ids \<noteq> [])))"
  using assms
proof (induction ts arbitrary: c h pg)
  case Nil
  have "turn_made tasks lims pg [] [] pg" using Nil.prems(3) by (simp add: turn_made_def session_end)
  with Nil.prems(1) show ?case by (auto intro!: concludes_return)
next
  case (Cons t ts)
  have idle: "turn_made tasks lims pg [] [] pg" "turn_made tasks lims pg [] [] (note_max_cycles pg)"
    using Cons.prems(3) by (simp_all add: turn_made_def session_end note_max_cycles_def progress_ok_def)
  have t: "t \<in> set tasks" "set ts \<subseteq> set tasks" using Cons.prems(2) by simp_all
  have handler: "task_handler (stk_handler t)" using Cons.prems(4) by simp
  let ?goal = "\<lambda>x es (s' :: core \<times> 'a host \<times> progress). x = Inr () \<and>
    (\<exists>ids. turn_made tasks lims pg ids es (snd (snd s')) \<and> ids \<noteq> [])"
  have rest: "concludes (if reached then prog_return () else run_due lims ts) (c2, (h2, pg2))
      (\<lambda>x es'. ?goal x (es @ es'))"
    if ok: "core_ok c2" and made: "turn_made tasks lims pg [stk_task_id t] es pg2" for reached es c2 h2 pg2
  proof (cases reached)
    case True
    with ok made show ?thesis by (auto intro!: concludes_return)
  next
    case False
    from made have "progress_ok tasks lims pg2" by (simp add: turn_made_def)
    note more = Cons.IH [OF ok t(2) this, of h2]
    have "concludes (run_due lims ts) (c2, (h2, pg2)) (\<lambda>x es'. ?goal x (es @ es'))"
    proof (rule concludes_mono [OF more])
      fix x es' and u :: "core \<times> 'a host \<times> progress"
      assume "x = Inr () \<and> (\<exists>ids. turn_made tasks lims pg2 ids es' (snd (snd u)) \<and>
        (ts \<noteq> [] \<longrightarrow> \<not> ho_stop h2 \<longrightarrow> \<not> at_max_cycles lims pg2 \<longrightarrow> ids \<noteq> []))"
      then obtain ids where "x = Inr ()" "turn_made tasks lims pg2 ids es' (snd (snd u))" by blast
      with turn_made_trans [OF made, of ids es' "snd (snd u)"] show "?goal x (es @ es') u" by auto
    qed (use Cons.prems(4) in simp)
    then show ?thesis using False by simp
  qed
  have main: "concludes (prog_bind (on_host (run_task t)) (\<lambda>_. prog_bind (after_task lims t) (\<lambda>reached.
      if reached then prog_return () else run_due lims ts))) (c, (h, pg)) ?goal" if go: "\<not> at_max_cycles lims pg"
  proof (rule concludes_bind [OF concludes_on_host])
    show "concludes (run_task t) (c, h) (\<lambda>x es s'. x = Inr () \<and> task_events (stk_task_id t) es \<and>
        snd (snd (fst s', (snd s', pg))) = pg)"
      using task_handler.task_runs [OF handler Cons.prems(1) refl, of h] by simp
  next
    fix x :: unit and es :: "event list" and s' :: "core \<times> 'a host \<times> progress"
    assume ok: "core_ok (fst s')" and run: "Inr x = Inr () \<and> task_events (stk_task_id t) es \<and>
      snd (snd s') = pg"
    then obtain c1 h1 where s': "s' = (c1, (h1, pg))" by (cases s') auto
    from ok s' have ok1: "core_ok c1" by simp
    show "concludes (prog_bind (after_task lims t) (\<lambda>reached. if reached then prog_return () else run_due lims ts)) s'
        (\<lambda>y es'. ?goal y (es @ es'))"
      unfolding s'
    proof (rule concludes_bind [OF after_task_ok [OF Cons.prems(3) go t(1) ok1]])
      fix b :: bool and es1 :: "event list" and u :: "core \<times> 'a host \<times> progress"
      assume ok2: "core_ok (fst u)" and after: "es1 = [] \<and> (\<exists>b'. Inr b = Inr b') \<and> progress_ok tasks lims (snd (snd u)) \<and>
        pg_completed_cycles (snd (snd u)) = pg_completed_cycles pg + 1"
      obtain c2 h2 pg2 where u: "u = (c2, (h2, pg2))" by (metis prod.collapse)
      have "task_session [stk_task_id t] (es @ [])" by (intro session_task session_end) (use run in simp)
      then have "turn_made tasks lims pg [stk_task_id t] es pg2"
        using after run t(1) unfolding turn_made_def u s' by auto
      from rest [OF _ this] ok2 after show "concludes (if b then prog_return () else run_due lims ts) u
          (\<lambda>y es'. \<lambda>s''. ?goal y (es @ es1 @ es') s'')" unfolding u by simp
    qed simp
  qed simp
  show ?case
    unfolding run_due.simps
  proof (rule concludes_read, unfold prod.case, cases "ho_stop h")
    case True
    with idle(1) Cons.prems(1) show "concludes (if ho_stop h then prog_return () else if at_max_cycles lims pg
        then set_progress note_max_cycles else prog_bind (on_host (run_task t)) (\<lambda>_. prog_bind (after_task lims t) (\<lambda>reached.
          if reached then prog_return () else run_due lims ts))) (c, h, pg)
      (\<lambda>x es s'. x = Inr () \<and> (\<exists>ids. turn_made tasks lims pg ids es (snd (snd s')) \<and>
      (t # ts \<noteq> [] \<longrightarrow> \<not> ho_stop h \<longrightarrow> \<not> at_max_cycles lims pg \<longrightarrow> ids \<noteq> [])))"
      by (auto intro!: concludes_return)
  next
    case False
    show "concludes (if ho_stop h then prog_return () else if at_max_cycles lims pg
        then set_progress note_max_cycles else prog_bind (on_host (run_task t)) (\<lambda>_. prog_bind (after_task lims t) (\<lambda>reached.
          if reached then prog_return () else run_due lims ts))) (c, h, pg)
      (\<lambda>x es s'. x = Inr () \<and> (\<exists>ids. turn_made tasks lims pg ids es (snd (snd s')) \<and>
      (t # ts \<noteq> [] \<longrightarrow> \<not> ho_stop h \<longrightarrow> \<not> at_max_cycles lims pg \<longrightarrow> ids \<noteq> [])))"
    proof (cases "at_max_cycles lims pg")
      case True
      with False idle(2) Cons.prems(1) show ?thesis by (auto intro!: concludes_progress_last)
    next
      case go: False
      with False show ?thesis by simp (rule concludes_mono [OF main [OF go]], simp)
    qed
  qed
qed

text \<open>A sleep that does not wake early: the clock read next has passed the time of the reading before by the delay.\<close>

definition wakes_in_time :: "(rat \<Rightarrow> ('w, unit) hosted) \<Rightarrow> bool" where
  "wakes_in_time sleep \<longleftrightarrow> (\<forall>d s. core_ok (fst s) \<longrightarrow> concludes (sleep (delay_seconds d)) s (\<lambda>x es s'.
     x = Inr () \<and>
     (\<forall>k. host_reads (snd s) = Suc k \<longrightarrow> host_clock (snd s) k + d \<le> host_clock (snd s') (host_reads (snd s')))))"

definition ready :: "'w scheduled_task list \<Rightarrow> 'w host \<times> progress \<Rightarrow> bool" where
  "ready tasks s \<longleftrightarrow> due_tasks tasks (pg_next_due (snd s)) (host_clock (fst s) (host_reads (fst s))) \<noteq> []"

lemma next_task_due:
  assumes "progress_ok tasks lims pg" and "tasks \<noteq> []" and "Min (set (dict_values (pg_next_due pg))) \<le> now"
  shows "due_tasks tasks (pg_next_due pg) now \<noteq> []"
proof -
  let ?nd = "pg_next_due pg"
  from assms(1) have keys: "fst ` set ?nd = stk_task_id ` set tasks" and dist: "distinct (map fst ?nd)"
    by (simp_all add: progress_ok_def)
  from keys assms(2) have "set (dict_values ?nd) \<noteq> {}" by auto
  then have "Min (set (dict_values ?nd)) \<in> set (dict_values ?nd)" by (intro Min_in) simp_all
  then obtain i where i: "(i, Min (set (dict_values ?nd))) \<in> set ?nd" by auto
  then have "i \<in> fst ` set ?nd" by force
  with keys obtain t where t: "t \<in> set tasks" "stk_task_id t = i" by auto
  from i dist have "dict_get ?nd i = Some (Min (set (dict_values ?nd)))" by (simp add: map_of_is_SomeI)
  with assms(3) t have "is_due ?nd now t" by (simp add: is_due_def)
  with t(1) show ?thesis by (auto simp: due_tasks_def filter_empty_conv)
qed

lemma turn_made_idle: "progress_ok tasks lims pg \<Longrightarrow> turn_made tasks lims pg [] es pg"
  using session_idle [OF session_end, of es] by (simp add: turn_made_def)

lemma sleep_ok:
  assumes "wakes_in_time sleep" and "core_ok c" and "progress_ok tasks lims pg" and "tasks \<noteq> []"
  shows "concludes (on_host (sleep_until_next_due sleep (pg_next_due pg))) (c, (h, pg)) (\<lambda>x es s'. x = Inr () \<and>
    turn_made tasks lims pg [] es (snd (snd s')) \<and> snd (snd s') = pg \<and> ready tasks (snd s'))"
proof (rule concludes_on_host)
  define due where "due = Min (set (dict_values (pg_next_due pg)))"
  let ?now = "host_clock h (host_reads h)"
  have slept: "concludes (sleep (delay_seconds (due - ?now))) (c, after_reading h) (\<lambda>x es s'. x = Inr () \<and>
      due \<le> host_clock (snd s') (host_reads (snd s')))"
  proof (rule concludes_mono)
    show "concludes (sleep (delay_seconds (due - ?now))) (c, after_reading h) (\<lambda>x es s'. x = Inr () \<and>
        host_clock h (host_reads h) + (due - ?now) \<le> host_clock (snd s') (host_reads (snd s')))"
      using assms(1) [unfolded wakes_in_time_def, rule_format, of "(c, after_reading h)" "due - ?now"] assms(2)
      by (auto elim: concludes_mono)
  qed simp
  show "concludes (sleep_until_next_due sleep (pg_next_due pg)) (c, h) (\<lambda>x es s'. x = Inr () \<and>
      turn_made tasks lims pg [] es (snd (snd (fst s', (snd s', pg)))) \<and> snd (snd (fst s', (snd s', pg))) = pg \<and>
      ready tasks (snd (fst s', (snd s', pg))))"
    unfolding sleep_until_next_due_def due_def [symmetric]
    by (rule concludes_host_now, rule concludes_mono [OF slept])
      (use turn_made_idle [OF assms(3)] next_task_due [OF assms(3,4)] in \<open>auto simp: ready_def due_def\<close>)
qed

lemma run_cycles_ok:
  assumes "\<And>t. t \<in> set tasks \<Longrightarrow> task_handler (stk_handler t)" and "wakes_in_time sleep" and "tasks \<noteq> []"
    and "lim_max_cycles lims = Some n"
  shows "core_ok c \<Longrightarrow> progress_ok tasks lims pg \<Longrightarrow>
    2 * nat (n - pg_completed_cycles pg) + (if ready tasks (h, pg) then 1 else 2) \<le> fuel \<Longrightarrow>
    concludes (run_cycles fuel tasks sleep lims) (c, (h, pg)) (\<lambda>x es s'. x = Inr True \<and>
      (\<exists>ids. turn_made tasks lims pg ids es (snd (snd s'))))"
proof (induction fuel arbitrary: c h pg)
  case 0
  then show ?case by (simp split: if_splits)
next
  case (Suc fuel)
  note ok = Suc.prems(1) and pg = Suc.prems(2) and fuel = Suc.prems(3)
  let ?P = "\<lambda>x es (s' :: core \<times> 'a host \<times> progress). x = Inr True \<and> (\<exists>ids. turn_made tasks lims pg ids es (snd (snd s')))"
  let ?due = "due_tasks tasks (pg_next_due pg) (host_clock h (host_reads h))"
  have again: "concludes (run_cycles fuel tasks sleep lims) s (\<lambda>x es'. ?P x (es @ es'))"
    if "core_ok (fst s)" and made: "turn_made tasks lims pg ids es (snd (snd s))"
      and "2 * nat (n - pg_completed_cycles (snd (snd s))) + (if ready tasks (snd s) then 1 else 2) \<le> fuel" for s es ids
  proof -
    obtain c1 h1 pg1 where s: "s = (c1, (h1, pg1))" by (metis prod.collapse)
    from made have "progress_ok tasks lims pg1" by (simp add: turn_made_def s)
    note more = Suc.IH [OF that(1) [unfolded s fst_conv] this, of h1]
    show ?thesis unfolding s
    proof (rule concludes_mono [OF more])
      fix x es' and u :: "core \<times> 'a host \<times> progress"
      assume "x = Inr True \<and> (\<exists>ids. turn_made tasks lims pg1 ids es' (snd (snd u)))"
      then obtain ids' where "x = Inr True" "turn_made tasks lims pg1 ids' es' (snd (snd u))" by blast
      with turn_made_trans [OF made, of ids' es' "snd (snd u)"] show "?P x (es @ es') u" by (auto simp: s)
    qed (use that(3) in \<open>simp add: s\<close>)
  qed
  have asleep: "concludes (prog_bind (on_host (sleep_until_next_due sleep (pg_next_due pg))) (\<lambda>_. run_cycles fuel tasks sleep lims))
      (c, (after_reading h, pg)) ?P" if none: "?due = []"
  proof (rule concludes_bind [OF sleep_ok [OF assms(2) ok pg assms(3)]])
    fix x :: unit and es :: "event list" and u :: "core \<times> 'a host \<times> progress"
    assume u: "core_ok (fst u)" and slept: "Inr x = Inr () \<and> turn_made tasks lims pg [] es (snd (snd u)) \<and>
      snd (snd u) = pg \<and> ready tasks (snd u)"
    show "concludes (run_cycles fuel tasks sleep lims) u (\<lambda>x es'. ?P x (es @ es'))"
      by (rule again [OF u]) (use slept fuel none in \<open>auto simp: ready_def\<close>)
  qed simp
  have working: "concludes (prog_bind (run_due lims ?due) (\<lambda>_. run_cycles fuel tasks sleep lims)) (c, (after_reading h, pg)) ?P"
    if some: "?due \<noteq> []" and go: "\<not> ho_stop h" "\<not> at_max_cycles lims pg"
  proof (rule concludes_bind [OF run_due_ok [OF _ ok _ pg]])
    fix x :: unit and es :: "event list" and u :: "core \<times> 'a host \<times> progress"
    assume u: "core_ok (fst u)" and ran: "Inr x = Inr () \<and> (\<exists>ids. turn_made tasks lims pg ids es (snd (snd u)) \<and>
      (?due \<noteq> [] \<longrightarrow> \<not> ho_stop (after_reading h) \<longrightarrow> \<not> at_max_cycles lims pg \<longrightarrow> ids \<noteq> []))"
    then obtain ids where made: "turn_made tasks lims pg ids es (snd (snd u))" and "ids \<noteq> []"
      using some go by auto
    then have "pg_completed_cycles pg + 1 \<le> pg_completed_cycles (snd (snd u))" by (cases ids) (auto simp: turn_made_def)
    moreover have "pg_completed_cycles pg < n" using go(2) by (simp add: at_max_cycles_def assms(4))
    ultimately show "concludes (run_cycles fuel tasks sleep lims) u (\<lambda>x es'. ?P x (es @ es'))"
      by (intro again [OF u made]) (use fuel some in \<open>auto simp: ready_def\<close>)
  qed (auto simp: due_tasks_def assms(1))
  have idle: "concludes (prog_return True) (c, (h, pg)) ?P"
    by (rule concludes_return) (use ok turn_made_idle [OF pg, of "[]"] in auto)
  have "progress_ok tasks lims (note_max_cycles pg)" "pg_completed_cycles (note_max_cycles pg) = pg_completed_cycles pg"
    using pg by (simp_all add: progress_ok_def note_max_cycles_def)
  then have "turn_made tasks lims pg [] [] (note_max_cycles pg)" by (simp add: turn_made_def session_end)
  then have full: "concludes (prog_bind (set_progress note_max_cycles) (\<lambda>_. prog_return True)) (c, (h, pg)) ?P"
    by (intro concludes_progress concludes_return) (use ok in auto)
  have turn: "concludes (prog_bind (on_host host_now) (\<lambda>now. let due = due_tasks tasks (pg_next_due pg) now in
       prog_bind (if due = [] then on_host (sleep_until_next_due sleep (pg_next_due pg)) else run_due lims due) (\<lambda>_.
       run_cycles fuel tasks sleep lims))) (c, (h, pg)) ?P" if "\<not> ho_stop h" "\<not> at_max_cycles lims pg"
    by (rule concludes_hosted_now) (use asleep working that in \<open>simp add: Let_def\<close>)
  show ?case
    unfolding run_cycles.simps
    by (rule concludes_read, unfold prod.case, cases "ho_stop h \<or> pg_target_reached pg", simp add: idle,
        cases "at_max_cycles lims pg", simp add: full, simp add: turn)
qed

subsection \<open>The health of the feeds as a task\<close>

text \<open>\<^verbatim>\<open>RuntimeTask.FEED_HEALTH\<close> runs \<^verbatim>\<open>feed_router.audit_health\<close>; its result is the tuple of the source states.\<close>

definition on_world :: "(core \<times> 'w, 'a) prog \<Rightarrow> ('w, 'a) hosted" where
  "on_world m s = (case m (fst s, vn_world (ho_venue (snd s))) of
     (x, (c, w)) \<Rightarrow> (x, (c, (snd s)\<lparr>ho_venue := (ho_venue (snd s))\<lparr>vn_world := w\<rparr>\<rparr>)))"

definition source_state_value :: "feed_source_state \<Rightarrow> pyval" where
  "source_state_value s = PvDataclass
     [(''source_id'', PvStr (fss_source_id s)),
      (''status'', PvEnum (feed_status_value (fss_status s))),
      (''last_seen'', (case fss_last_seen s of None \<Rightarrow> PvNone | Some t \<Rightarrow> PvDatetime t))]"

definition feed_health_handler :: "(feed_router, task_result) hosted" where
  "feed_health_handler =
     prog_bind (on_world audit_health) (\<lambda>states.
     prog_return (''tuple'', PvSequence (map source_state_value states)))"

lemma concludes_on_world:
  assumes "concludes m (fst s, vn_world (ho_venue (snd s))) (\<lambda>x es s'. P x es (fst s',
    (snd s)\<lparr>ho_venue := (ho_venue (snd s))\<lparr>vn_world := snd s'\<rparr>\<rparr>))"
  shows "concludes (on_world m) s P"
proof -
  from assms obtain x es s' where m: "m (fst s, vn_world (ho_venue (snd s))) = (x, s')" "named x" "extends_ledger (fst s) es (fst s')"
    "P x es (fst s', (snd s)\<lparr>ho_venue := (ho_venue (snd s))\<lparr>vn_world := snd s'\<rparr>\<rparr>)"
    unfolding concludes_def fst_conv by blast
  then have "on_world m s = (x, (fst s', (snd s)\<lparr>ho_venue := (ho_venue (snd s))\<lparr>vn_world := snd s'\<rparr>\<rparr>))"
    by (cases s') (simp add: on_world_def)
  with m(2-4) show ?thesis unfolding concludes_def by (metis fst_conv)
qed

interpretation feed_health: task_handler feed_health_handler
proof unfold_locales
  fix s :: "core \<times> feed_router host"
  assume ok: "core_ok (fst s)"
  have audit: "concludes (on_world audit_health) s (\<lambda>x es s'. \<exists>y. x = Inr y)"
    by (rule concludes_on_world, rule concludes_mono [OF audit_health_concludes])
      (auto simp: ok)
  show "concludes feed_health_handler s (\<lambda>x es s'. \<forall>e. x = Inl e \<longrightarrow> ordinary e)"
    unfolding feed_health_handler_def
    by (rule concludes_bind [OF audit]) (auto intro!: concludes_return)
qed

subsection \<open>Whole runs\<close>

lemma initial_progress_ok: "(\<And>n. lim_max_cycles lims = Some n \<Longrightarrow> 0 < n) \<Longrightarrow>
    progress_ok (orc_tasks o1) lims (initial_progress o1 t)"
proof -
  have keys: "distinct (map fst d) \<Longrightarrow> distinct (map fst (fold (\<lambda>t. dict_set (stk_task_id t) (f t)) ts d)) \<and>
      set (map fst (fold (\<lambda>t. dict_set (stk_task_id t) (f t)) ts d)) = set (map fst d) \<union> stk_task_id ` set ts"
    for d :: "(runtime_task, datetime) dict" and f and ts :: "'a scheduled_task list"
    by (induction ts arbitrary: d) (auto simp: keys_dict_set simp del: set_map)
  show "(\<And>n. lim_max_cycles lims = Some n \<Longrightarrow> 0 < n) \<Longrightarrow> progress_ok (orc_tasks o1) lims (initial_progress o1 t)"
    using keys [of "[]"] by (fastforce simp: progress_ok_def initial_progress_def initial_due_times_def)
qed

lemma concludes_with_progress:
  assumes "concludes m (fst s, (snd s, pg)) (\<lambda>x es s'. P x es (fst s', fst (snd s')))"
  shows "concludes (with_progress pg m) s P"
proof -
  from assms obtain x es s' where m: "m (fst s, (snd s, pg)) = (x, s')" "named x" "extends_ledger (fst s) es (fst s')"
    "P x es (fst s', fst (snd s'))" unfolding concludes_def fst_conv by blast
  then have "with_progress pg m s = (x, (fst s', fst (snd s')))" by (cases s') (auto simp: with_progress_def)
  with m(2-4) show ?thesis unfolding concludes_def by (metis fst_conv)
qed

lemma stopped_written:
  assumes "core_ok c" and "\<And>now c' h'. core_ok c' \<Longrightarrow>
    concludes (f ()) (c', (h', pg)) (\<lambda>x es s'. P x ((ET_SYSTEM_STOPPED, system_stopped_payload pg now) # es) s')"
  shows "concludes (prog_bind emit_stopped f) (c, (h, pg)) P"
proof -
  have "concludes emit_stopped (c, (h, pg)) (\<lambda>x es s'. x = Inr () \<and> snd (snd s') = pg \<and>
      (\<exists>now. es = [(ET_SYSTEM_STOPPED, system_stopped_payload pg now)]))"
    unfolding emit_stopped_def
    by (rule concludes_read, unfold prod.case, rule concludes_hosted_now, rule concludes_emit, simp add: assms(1), rule concludes_return)
      auto
  then show ?thesis
  proof (rule concludes_bind)
    fix x :: unit and es :: "event list" and u :: "core \<times> 'a host \<times> progress"
    assume "core_ok (fst u)" and u: "Inr x = Inr () \<and> snd (snd u) = pg \<and>
      (\<exists>now. es = [(ET_SYSTEM_STOPPED, system_stopped_payload pg now)])"
    moreover obtain c1 h1 pg1 where "u = (c1, (h1, pg1))" by (metis prod.collapse)
    ultimately show "concludes (f x) u (\<lambda>y es'. P y (es @ es'))" using assms(2) [of c1 h1] by auto
  qed simp
qed

lemma checked_limits: "check_limits o1 lims = Inr () \<Longrightarrow> lim_max_cycles lims = Some n \<Longrightarrow> 0 < n"
  by (auto simp: check_limits_def split: if_splits)

lemma run_until_starts:
  assumes "core_ok c" and "check_limits o1 lims = Inr ()"
    and "\<And>c' h' t. core_ok c' \<Longrightarrow> concludes (run_and_stop fuel (orc_tasks o1) sleep lims) (c', (h', initial_progress o1 t))
      (\<lambda>x es s'. P x ((ET_SYSTEM_STARTED, system_started_payload o1 t) # es) (fst s', fst (snd s')))"
  shows "concludes (run_until fuel o1 sleep lims) (c, h) P"
  unfolding run_until_def assms(2)
  by (rule concludes_bind_lift, simp add: assms(1), simp add: named_def, simp, rule concludes_host_now, rule concludes_emit,
      simp add: assms(1), rule concludes_with_progress) (simp add: assms(3))

lemma concludes_continue:
  assumes "m s = m' s1" and "extends_ledger (fst s) es (fst s1)" and "concludes m' s1 (\<lambda>x es'. P x (es @ es'))"
  shows "concludes m s P"
proof -
  from assms(3) obtain x es' s2 where "m' s1 = (x, s2)" "named x" "extends_ledger (fst s1) es' (fst s2)" "P x (es @ es') s2"
    unfolding concludes_def by blast
  with assms(1) extends_ledger_trans [OF assms(2)] show ?thesis unfolding concludes_def by auto
qed

definition settled_run :: "'w orchestrator \<Rightarrow> int \<Rightarrow> int option res \<Rightarrow> event list \<Rightarrow> bool" where
  "settled_run o1 n x es \<longleftrightarrow> (\<exists>p q work ids. x = Inr (Some (int (length ids))) \<and> int (length ids) \<le> n \<and>
    set ids \<subseteq> stk_task_id ` set (orc_tasks o1) \<and> task_session ids work \<and>
    es = (ET_SYSTEM_STARTED, p) # work @ [(ET_SYSTEM_STOPPED, q)] \<and> jget q ''completed_cycles'' = JInt (int (length ids)))"

lemma stop_settles:
  assumes "core_ok c" and "turn_made (orc_tasks o1) lims (initial_progress o1 t) ids work pg"
    and "lim_max_cycles lims = Some n"
  shows "concludes (prog_bind emit_stopped (\<lambda>_. prog_bind local_state (\<lambda>(h, pg). prog_return (Some (pg_completed_cycles pg)))))
    (c, (h, pg)) (\<lambda>x es s'. settled_run o1 n x ((ET_SYSTEM_STARTED, p) # work @ es))"
proof (rule stopped_written [OF assms(1)])
  fix now c' h' assume ok: "core_ok c'"
  from assms(2) have count: "pg_completed_cycles pg = int (length ids)" "int (length ids) \<le> n"
    "set ids \<subseteq> stk_task_id ` set (orc_tasks o1)" "task_session ids work"
    by (auto simp: turn_made_def progress_ok_def assms(3) initial_progress_def)
  have "jget (system_stopped_payload pg now) ''completed_cycles'' = JInt (int (length ids))"
    by (simp add: system_stopped_payload_def jget_def count(1))
  with count have "settled_run o1 n (Inr (Some (pg_completed_cycles pg)))
      ((ET_SYSTEM_STARTED, p) # work @ [(ET_SYSTEM_STOPPED, system_stopped_payload pg now)])"
    unfolding settled_run_def by blast
  then show "concludes (prog_bind local_state (\<lambda>(h, pg). prog_return (Some (pg_completed_cycles pg)))) (c', (h', pg))
      (\<lambda>x es s'. settled_run o1 n x ((ET_SYSTEM_STARTED, p) # work @ (ET_SYSTEM_STOPPED, system_stopped_payload pg now) # es))"
    by (intro concludes_read, unfold prod.case, intro concludes_return) (simp_all add: ok)
qed

lemma run_and_stop_settles:
  assumes "core_ok c" and "orc_tasks o1 \<noteq> []" and "\<And>t. t \<in> set (orc_tasks o1) \<Longrightarrow> task_handler (stk_handler t)"
    and "wakes_in_time sleep" and "check_limits o1 lims = Inr ()" and "lim_max_cycles lims = Some n"
    and "2 * nat n + 2 \<le> fuel"
  shows "concludes (run_and_stop fuel (orc_tasks o1) sleep lims) (c, (h, initial_progress o1 t))
    (\<lambda>x es s'. settled_run o1 n x ((ET_SYSTEM_STARTED, p) # es))"
proof -
  let ?pg = "initial_progress o1 t" and ?tasks = "orc_tasks o1"
  have pg: "progress_ok ?tasks lims ?pg" using initial_progress_ok checked_limits [OF assms(5)] by blast
  have "2 * nat (n - pg_completed_cycles ?pg) + (if ready ?tasks (h, ?pg) then 1 else 2) \<le> fuel"
    using assms(7) by (simp add: initial_progress_def)
  note cycles = run_cycles_ok [OF assms(3,4,2,6,1) pg this]
  from concludesE [OF cycles] obtain es s1 ids where run: "run_cycles fuel ?tasks sleep lims (c, (h, ?pg)) = (Inr True, s1)"
    and led: "extends_ledger c es (fst s1)" and made: "turn_made ?tasks lims ?pg ids es (snd (snd s1))" by (metis fst_conv)
  obtain c1 h1 pg1 where s1: "s1 = (c1, (h1, pg1))" by (metis prod.collapse)
  have "run_and_stop fuel ?tasks sleep lims (c, (h, ?pg)) = prog_bind emit_stopped (\<lambda>_. prog_bind local_state
      (\<lambda>(h, pg). prog_return (Some (pg_completed_cycles pg)))) (c1, (h1, pg1))" by (simp add: run_and_stop_def run s1)
  then show ?thesis
    by (rule concludes_continue [where es = es])
      (use led made s1 stop_settles [OF extends_ledger_ok [OF led]] assms(6) in simp_all)
qed


subsection \<open>A stop for every start\<close>

definition sound :: "(core \<times> 's, 'a) prog \<Rightarrow> bool" where
  "sound m \<longleftrightarrow> (\<forall>s. core_ok (fst s) \<longrightarrow> concludes m s (\<lambda>_ _ _. True))"

named_theorems sound_intros \<open>programs that end, with the core usable\<close>

lemma sound_basic [sound_intros]: "sound (prog_return x)" "sound local_state" "sound (set_progress g)" "sound host_now"
  by (auto simp: sound_def concludes_def prog_return_def local_state_def set_progress_def host_now_run named_def
      intro: extends_ledger_refl)

lemma sound_bind [sound_intros]: "sound m \<Longrightarrow> (\<And>x. sound (f x)) \<Longrightarrow> sound (prog_bind m f)"
  unfolding sound_def by (blast intro: concludes_bind)

lemma sound_if [sound_intros]: "sound m \<Longrightarrow> sound n \<Longrightarrow> sound (if b then m else n)"
  by simp

lemma sound_pair [sound_intros]: "(\<And>x y. sound (f x y)) \<Longrightarrow> sound (case p of (x, y) \<Rightarrow> f x y)"
  by (cases p) simp

lemma sound_lift [sound_intros]: "named r \<Longrightarrow> sound (prog_lift r)"
  unfolding sound_def by (blast intro: concludes_lift)

lemma sound_emit [sound_intros]: "sound (on_core (emit_object et p))"
  unfolding sound_def by (blast intro: concludes_emit_last)

lemma sound_on_host [sound_intros]:
  assumes "sound m"
  shows "sound (on_host m)"
proof -
  have "concludes (on_host m) (c, (h, pg)) (\<lambda>_ _ _. True)" if "core_ok c" for c h pg
    by (rule concludes_on_host) (use assms that in \<open>simp add: sound_def\<close>)
  then show ?thesis by (simp add: sound_def)
qed

lemma sound_try [sound_intros]:
  assumes "sound m" and "\<And>e. sound (h e)"
  shows "sound (try_ordinary m h)"
  unfolding sound_def try_ordinary_def
  by (intro allI impI, rule concludes_try [where Q = "\<lambda>_ _ _. True"])
    (use assms in \<open>auto simp: sound_def intro: concludes_raise\<close>)

lemma sound_run_task [sound_intros]: "sound (stk_handler t) \<Longrightarrow> sound (run_task t)"
  unfolding run_task_def by (intro sound_intros named_intros)

lemma sound_run_due: "(\<And>t. t \<in> set ts \<Longrightarrow> sound (stk_handler t)) \<Longrightarrow> sound (run_due lims ts)"
proof (induction ts)
  case (Cons t ts)
  then have "sound (stk_handler t)" "sound (run_due lims ts)" by simp_all
  then show ?case unfolding run_due.simps after_task_def by (intro sound_intros)
qed (simp add: sound_intros)

lemma sound_run_cycles:
  assumes "\<And>t. t \<in> set tasks \<Longrightarrow> sound (stk_handler t)" and "\<And>d. sound (sleep d)"
  shows "sound (run_cycles fuel tasks sleep lims)"
proof (induction fuel)
  case (Suc fuel)
  have "sound (run_due lims (due_tasks tasks d now))" for d now
    by (rule sound_run_due) (simp add: due_tasks_def assms(1))
  with Suc assms(2) show ?case
    unfolding run_cycles.simps Let_def sleep_until_next_due_def by (intro sound_intros)
qed (simp add: sound_intros)


subsection \<open>A run of the feed health task\<close>

text \<open>A sleep on a host whose clock stands still but for the sleeps\<close>

definition forward_sleep :: "rat \<Rightarrow> ('w, unit) hosted" where
  "forward_sleep q = (\<lambda>(c, h). (Inr (), (c, h\<lparr>ho_venue := (ho_venue h)
     \<lparr>vn_clock := (\<lambda>n. host_clock h (host_reads h - 1) + \<lceil>2 * q * 1000000\<rceil>)\<rparr>\<rparr>)))"

lemma forward_sleep_wakes: "wakes_in_time forward_sleep"
proof -
  have enough: "d \<le> \<lceil>2 * delay_seconds d * 1000000\<rceil>" for d
  proof (cases "0 < d")
    case True
    then have "of_int d / 1000000 \<le> 2 * delay_seconds d"
      by (auto simp: delay_seconds_def dest: round_float_half split: pyreal.splits)
    then have "of_int d \<le> 2 * delay_seconds d * 1000000" by simp
    then show ?thesis by (metis ceiling_mono ceiling_of_int)
  next
    case False
    have "0 \<le> 2 * delay_seconds d * 1000000" by (simp add: delay_seconds_def split: pyreal.splits)
    then have "0 \<le> \<lceil>2 * delay_seconds d * 1000000\<rceil>" by (metis ceiling_mono ceiling_zero)
    with False show ?thesis by linarith
  qed
  have "concludes (forward_sleep (delay_seconds d)) (c, h) (\<lambda>x es s'. x = Inr () \<and>
      (\<forall>k. host_reads h = Suc k \<longrightarrow> host_clock h k + d \<le> host_clock (snd s') (host_reads (snd s'))))"
    if ok: "core_ok c" for d c and h :: "'a host"
    unfolding concludes_def
    by (rule exI [of _ "Inr ()"], rule exI [of _ "[]"], rule exI [of _ "snd (forward_sleep (delay_seconds d) (c, h))"])
      (use extends_ledger_refl [OF ok] enough in \<open>simp add: forward_sleep_def named_def host_clock_def host_reads_def\<close>)
  then show ?thesis by (simp add: wakes_in_time_def)
qed

definition cancelled_sleep :: "rat \<Rightarrow> ('w, unit) hosted" where
  "cancelled_sleep q = prog_raise (PyExc ''CancelledError'' [] None)"

definition health_runtime :: "feed_router orchestrator" where
  "health_runtime = \<lparr>orc_tasks = [\<lparr>stk_task_id = RT_FEED_HEALTH, stk_interval = seconds 30, stk_handler = feed_health_handler,
     stk_run_on_start = False\<rparr>], orc_metadata = []\<rparr>"

definition health_host :: "feed_router host" where
  "health_host = \<lparr>ho_venue = sample_venue sample_router, ho_stop = False\<rparr>"

definition two_cycles :: run_limits where
  "two_cycles = \<lparr>lim_max_cycles = Some 2, lim_stop_after_task = None, lim_stop_after_task_count = 1\<rparr>"

lemma health_handlers: "t \<in> set (orc_tasks health_runtime) \<Longrightarrow> task_handler (stk_handler t)"
  by (simp add: health_runtime_def feed_health.task_handler_axioms)

lemma two_cycles_checked: "check_limits health_runtime two_cycles = Inr ()"
  by (simp add: check_limits_def two_cycles_def)


lemma cancelled_cycles:
  "\<exists>s'. run_cycles 1 (orc_tasks health_runtime) cancelled_sleep two_cycles
     (c, (after_reading health_host, initial_progress health_runtime (seconds 100))) =
     (Inl (PyExc ''CancelledError'' [] None), s') \<and> fst s' = c"
proof -
  have none: "due_tasks (orc_tasks health_runtime) (pg_next_due (initial_progress health_runtime (seconds 100))) (seconds 100) = []"
    by (simp add: due_tasks_def is_due_def initial_progress_def initial_due_times_def health_runtime_def seconds_def)
  have clock: "host_now (c, after_reading h) = (Inr (seconds 100), (c, after_reading (after_reading h)))"
    "host_now (c, after_reading (after_reading h)) = (Inr (seconds 100), (c, after_reading (after_reading (after_reading h))))"
    if "host_clock h = (\<lambda>n. seconds 100)" for c and h :: "feed_router host"
    by (simp_all add: host_now_run that)
  have "host_clock health_host = (\<lambda>n. seconds 100)" by (simp add: host_clock_def health_host_def sample_venue_def)
  then show ?thesis
    by (simp add: prog_bind_def local_state_def on_host_def clock none Let_def sleep_until_next_due_def cancelled_sleep_def
        prog_raise_def at_max_cycles_def two_cycles_def health_host_def [symmetric])
      (simp add: initial_progress_def health_host_def)
qed

lemma cancelled_run:
  "fst (run_until 1 health_runtime cancelled_sleep two_cycles (sample_core, health_host)) = Inl (PyExc ''CancelledError'' [] None)"
proof -
  have stop: "concludes (run_and_stop 1 (orc_tasks health_runtime) cancelled_sleep two_cycles)
      (c, (after_reading health_host, initial_progress health_runtime (seconds 100)))
      (\<lambda>x es s'. x = Inl (PyExc ''CancelledError'' [] None))" if ok: "core_ok c" for c
  proof -
    obtain h1 pg1 where "run_cycles 1 (orc_tasks health_runtime) cancelled_sleep two_cycles
        (c, (after_reading health_host, initial_progress health_runtime (seconds 100))) =
        (Inl (PyExc ''CancelledError'' [] None), (c, (h1, pg1)))"
      using cancelled_cycles [of c] by (metis prod.collapse)
    then have eq: "run_and_stop 1 (orc_tasks health_runtime) cancelled_sleep two_cycles
        (c, (after_reading health_host, initial_progress health_runtime (seconds 100))) =
        prog_bind emit_stopped (\<lambda>_. prog_raise (PyExc ''CancelledError'' [] None)) (c, (h1, pg1))"
      by (simp add: run_and_stop_def)
    show ?thesis
      by (rule concludes_continue [where es = "[]"], rule eq, simp add: extends_ledger_refl [OF ok],
          rule stopped_written [OF ok], rule concludes_raise) simp_all
  qed
  have now: "host_clock health_host (host_reads health_host) = seconds 100"
    by (simp add: host_clock_def health_host_def sample_venue_def)
  have "concludes (run_until 1 health_runtime cancelled_sleep two_cycles) (sample_core, health_host)
      (\<lambda>x es s'. x = Inl (PyExc ''CancelledError'' [] None))"
    unfolding run_until_def two_cycles_checked
    by (rule concludes_bind_lift, simp add: sample_core_ok, simp add: named_def, simp, rule concludes_host_now, unfold now,
        rule concludes_emit, simp add: sample_core_ok, rule concludes_with_progress) (use stop in simp)
  then show ?thesis by (rule concludesE) simp
qed


end
