(* ===== verification/Positions.thy ===== *)
theory Positions
  imports Reconciliation
begin

text \<open>
  \<^verbatim>\<open>reconciliation/positions.py\<close> and \<^verbatim>\<open>reconciliation/exchange_state_contract.py\<close>: balances and positions of the
  exchange are recorded, and the positions are compared with those the ledger's fills add up to. The
  exchange is again a client over a state of the world, an argument of the operations.
\<close>

subsection \<open>The contract of a snapshot\<close>

record snapshot_contract =
  esc_missing_fields :: "string list"
  esc_invalid_fields :: "string list"

definition snapshot_valid :: "snapshot_contract \<Rightarrow> bool" where
  "snapshot_valid c \<longleftrightarrow> esc_missing_fields c = [] \<and> esc_invalid_fields c = []"

definition add_missing :: "string \<Rightarrow> snapshot_contract \<Rightarrow> snapshot_contract" where
  "add_missing f c = c\<lparr>esc_missing_fields := esc_missing_fields c @ [f]\<rparr>"

definition add_invalid :: "string \<Rightarrow> snapshot_contract \<Rightarrow> snapshot_contract" where
  "add_invalid f c = c\<lparr>esc_invalid_fields := esc_invalid_fields c @ [f]\<rparr>"

definition require_text :: "string \<Rightarrow> payload \<Rightarrow> snapshot_contract \<Rightarrow> snapshot_contract" where
  "require_text f p c = (if string_or_none (jget p f) = None then add_missing f c else c)"

definition validate_required_venue :: "json \<Rightarrow> snapshot_contract \<Rightarrow> snapshot_contract" where
  "validate_required_venue j c =
     (case string_or_none j of
        None \<Rightarrow> add_missing ''venue'' c
      | Some venue \<Rightarrow>
          (case product_venue_of venue of
             None \<Rightarrow> add_invalid ''venue'' c
           | Some v \<Rightarrow> if v = PV_UNKNOWN then add_invalid ''venue'' c else c))"

definition no_violations :: snapshot_contract where
  "no_violations = \<lparr>esc_missing_fields = [], esc_invalid_fields = []\<rparr>"

definition validate_balance_snapshot :: "payload \<Rightarrow> snapshot_contract" where
  "validate_balance_snapshot p =
     validate_required_venue (jget p ''venue'')
       (require_text ''currency'' p (require_text ''account_id'' p no_violations))"

definition validate_net_size :: "json \<Rightarrow> snapshot_contract \<Rightarrow> snapshot_contract" where
  "validate_net_size j c =
     (case string_or_none j of
        None \<Rightarrow> add_missing ''net_size'' c
      | Some s \<Rightarrow> if dec_parse s = None then add_invalid ''net_size'' c else c)"

definition validate_position_snapshot :: "payload \<Rightarrow> snapshot_contract" where
  "validate_position_snapshot p =
     validate_net_size (jget p ''net_size'')
       (validate_required_venue (jget p ''venue'') (require_text ''product_id'' p no_violations))"

subsection \<open>Policy, clients and result\<close>

record exchange_state_policy =
  esp_account_page_limit :: int
  esp_max_account_pages :: int
  esp_position_product_ids :: "string list"
  esp_position_size_tolerance :: string
  esp_retail_portfolio_id :: "string option"
  esp_perpetual_portfolio_uuid :: "string option"

definition new_exchange_state_policy :: "exchange_state_policy \<Rightarrow> exchange_state_policy res" where
  "new_exchange_state_policy p =
     (if esp_account_page_limit p \<le> 0 then Inl (value_error ''account_page_limit must be positive'')
      else if esp_max_account_pages p \<le> 0 then Inl (value_error ''max_account_pages must be positive'')
      else if [] \<in> set (esp_position_product_ids p)
      then Inl (type_error ''position_product_ids must contain non-empty strings'')
      else if \<not> distinct (esp_position_product_ids p) then Inl (value_error ''position_product_ids must be unique'')
      else if dec_parse (esp_position_size_tolerance p) = None
      then Inl (value_error ''position_size_tolerance must be decimal-compatible'')
      else Inr p)"

record accounts_lookup =
  acl_status :: exchange_lookup_status
  acl_status_code :: int
  acl_accounts :: "json list"
  acl_cursor :: "string option"
  acl_has_next :: bool
  acl_error_code :: "string option"
  acl_error_message :: "string option"

record positions_lookup =
  pol_status :: exchange_lookup_status
  pol_status_code :: int
  pol_positions :: "json list"
  pol_error_code :: "string option"
  pol_error_message :: "string option"

type_synonym 'w account_client = "string option \<Rightarrow> int \<Rightarrow> string option \<Rightarrow> ('w, accounts_lookup) prog"

record 'w position_client =
  plc_us_futures :: "('w, positions_lookup) prog"
  plc_perpetual :: "string \<Rightarrow> ('w, positions_lookup) prog"

record exchange_state_result =
  esr_balance_snapshots :: int
  esr_drift_count :: int
  esr_error_count :: int
  esr_position_snapshots :: int
  esr_new_drift_record_count :: int

subsection \<open>Recording what the exchange reports\<close>

definition snapshot_payload :: "json \<Rightarrow> product_venue option \<Rightarrow> datetime \<Rightarrow> payload" where
  "snapshot_payload j venue now =
     (let p = dict_set ''observed_at'' (jtime now) (payload_dict j) in
      case venue of None \<Rightarrow> p | Some v \<Rightarrow> dict_set ''venue'' (JStr (product_venue_value v)) p)"

definition exchange_lookup_error ::
  "string \<Rightarrow> exchange_lookup_status \<Rightarrow> int \<Rightarrow> string option \<Rightarrow> string option \<Rightarrow> ('w, unit) dealing" where
  "exchange_lookup_error name status status_code code message =
     emit_reconciliation_error (text_or code (error_code_value ER_RECONCILIATION_LOOKUP_FAILED))
       (text_or message ''Coinbase exchange-state lookup failed'')
       [(''lookup'', JStr name),
        (''lookup_status'', JStr (exchange_lookup_status_value status)),
        (''status_code'', JInt status_code)]"

definition snapshot_contract_error :: "event_type \<Rightarrow> snapshot_contract \<Rightarrow> payload \<Rightarrow> ('w, unit) dealing" where
  "snapshot_contract_error et contract p =
     emit_reconciliation_error (error_code_value ER_EXCHANGE_STATE_SNAPSHOT_INVALID)
       (''Coinbase exchange-state snapshot failed contract validation for '' @ event_type_value et)
       [(''event_type'', JStr (event_type_value et)),
        (''invalid_fields'', JList (map JStr (esc_invalid_fields contract))),
        (''missing_fields'', JList (map JStr (esc_missing_fields contract))),
        (''raw_snapshot'', JObj p)]"

text \<open>The counts of snapshots and errors are threaded through the loops.\<close>

definition record_account :: "json \<Rightarrow> int \<times> int \<Rightarrow> ('w, int \<times> int) dealing" where
  "record_account account counts =
     prog_bind venue_now (\<lambda>now.
     let p = snapshot_payload account None now; contract = validate_balance_snapshot p in
     if \<not> snapshot_valid contract then
       prog_bind (snapshot_contract_error ET_EXCHANGE_BALANCE_SNAPSHOT contract p)
         (\<lambda>_. prog_return (fst counts, snd counts + 1))
     else
       prog_bind (on_core (emit_object ET_EXCHANGE_BALANCE_SNAPSHOT p))
         (\<lambda>_. prog_return (fst counts + 1, snd counts)))"

fun record_accounts :: "json list \<Rightarrow> int \<times> int \<Rightarrow> ('w, int \<times> int) dealing" where
  "record_accounts [] counts = prog_return counts"
| "record_accounts (a # as) counts = prog_bind (record_account a counts) (record_accounts as)"

fun account_pages ::
  "exchange_state_policy \<Rightarrow> 'w account_client \<Rightarrow> nat \<Rightarrow> string option \<Rightarrow> int \<times> int \<Rightarrow> ('w, int \<times> int) dealing" where
  "account_pages p client 0 cursor counts =
     prog_bind (emit_reconciliation_error (error_code_value ER_RECONCILIATION_LOOKUP_FAILED)
        ''Coinbase accounts pagination exceeded max_account_pages''
        [(''lookup'', JStr ''accounts''), (''max_account_pages'', JInt (esp_max_account_pages p))])
       (\<lambda>_. prog_return (fst counts, snd counts + 1))"
| "account_pages p client (Suc pages) cursor counts =
     prog_bind (ask (client cursor (esp_account_page_limit p) (esp_retail_portfolio_id p))) (\<lambda>lk.
     if acl_status lk \<noteq> ELS_FOUND then
       prog_bind (exchange_lookup_error ''accounts'' (acl_status lk) (acl_status_code lk) (acl_error_code lk)
         (acl_error_message lk)) (\<lambda>_. prog_return (fst counts, snd counts + 1))
     else
       prog_bind (record_accounts (acl_accounts lk) counts) (\<lambda>counts'.
       if \<not> acl_has_next lk then prog_return counts'
       else case acl_cursor lk of
         None \<Rightarrow>
           prog_bind (emit_reconciliation_error (error_code_value ER_RECONCILIATION_LOOKUP_FAILED)
              ''Coinbase accounts lookup indicated has_next without cursor'' [(''lookup'', JStr ''accounts'')])
             (\<lambda>_. prog_return (fst counts', snd counts' + 1))
       | Some c \<Rightarrow> account_pages p client pages (Some c) counts'))"

definition snapshot_accounts ::
  "exchange_state_policy \<Rightarrow> 'w account_client option \<Rightarrow> ('w, int \<times> int) dealing" where
  "snapshot_accounts p client =
     (case client of
        None \<Rightarrow> prog_return (0, 0)
      | Some cl \<Rightarrow> account_pages p cl (nat (esp_max_account_pages p)) None (0, 0))"

type_synonym positions = "(product_venue \<times> string, payload) dict"

definition record_position ::
  "product_venue \<Rightarrow> json \<Rightarrow> int \<times> positions \<times> int \<Rightarrow> ('w, int \<times> positions \<times> int) dealing" where
  "record_position venue position = (\<lambda>(snapshots, seen, errors).
     prog_bind venue_now (\<lambda>now.
     let p = snapshot_payload position (Some venue) now; contract = validate_position_snapshot p in
     if \<not> snapshot_valid contract then
       prog_bind (snapshot_contract_error ET_EXCHANGE_POSITION_SNAPSHOT contract p)
         (\<lambda>_. prog_return (snapshots, seen, errors + 1))
     else
       prog_bind (on_core (emit_object ET_EXCHANGE_POSITION_SNAPSHOT p)) (\<lambda>_.
         prog_return (snapshots + 1,
           (case string_or_none (jget p ''product_id'') of None \<Rightarrow> seen | Some i \<Rightarrow> dict_set (venue, i) p seen),
           errors))))"

fun record_positions ::
  "product_venue \<Rightarrow> json list \<Rightarrow> int \<times> positions \<times> int \<Rightarrow> ('w, int \<times> positions \<times> int) dealing" where
  "record_positions venue [] st = prog_return st"
| "record_positions venue (p # ps) st = prog_bind (record_position venue p st) (record_positions venue ps)"

fun record_lookups ::
  "(product_venue \<times> positions_lookup) list \<Rightarrow> int \<times> positions \<times> int \<Rightarrow> ('w, int \<times> positions \<times> int) dealing" where
  "record_lookups [] st = prog_return st"
| "record_lookups ((venue, lk) # lks) st =
     (if pol_status lk \<noteq> ELS_FOUND then
        prog_bind (exchange_lookup_error (product_venue_value venue @ ''_positions'') (pol_status lk) (pol_status_code lk)
          (pol_error_code lk) (pol_error_message lk)) (\<lambda>_.
        record_lookups lks (fst st, fst (snd st), snd (snd st) + 1))
      else prog_bind (record_positions venue (pol_positions lk) st) (record_lookups lks))"

definition position_lookups ::
  "exchange_state_policy \<Rightarrow> 'w position_client \<Rightarrow> ('w, (product_venue \<times> positions_lookup) list) dealing" where
  "position_lookups p client =
     prog_bind (ask (plc_us_futures client)) (\<lambda>us.
     case esp_perpetual_portfolio_uuid p of
       None \<Rightarrow> prog_return [(PV_FCM, us)]
     | Some uuid \<Rightarrow>
         prog_bind (ask (plc_perpetual client uuid)) (\<lambda>perp. prog_return [(PV_FCM, us), (PV_INTX, perp)]))"

definition snapshot_positions ::
  "exchange_state_policy \<Rightarrow> 'w position_client option \<Rightarrow> ('w, int \<times> positions \<times> int) dealing" where
  "snapshot_positions p client =
     (case client of
        None \<Rightarrow> prog_return (0, [], 0)
      | Some cl \<Rightarrow> prog_bind (position_lookups p cl) (\<lambda>lks. record_lookups lks (0, [], 0)))"

subsection \<open>Drifts\<close>

text \<open>\<^verbatim>\<open>abs(value)\<close> in the context\<close>

fun dec_abs :: "pydec \<Rightarrow> pydec res" where
  "dec_abs (DFin s c e) = dec_fix False c e"
| "dec_abs (DInf s) = Inr (DInf False)"
| "dec_abs (DNaN s g) = (if g then Inl invalid_operation else Inr (DNaN s g))"

definition size_text :: "string \<Rightarrow> pydec option \<Rightarrow> string res" where
  "size_text missing d = (case d of None \<Rightarrow> Inr missing | Some x \<Rightarrow> decimal_string x)"

definition venue_text :: "product_venue option \<Rightarrow> string" where
  "venue_text v = (case v of None \<Rightarrow> ''unknown_venue'' | Some x \<Rightarrow> product_venue_value x)"

record drift =
  dri_issue :: reconciliation_issue
  dri_product_id :: string
  dri_bot_size :: "pydec option"
  dri_exchange_size :: "pydec option"
  dri_venue :: "product_venue option"

definition drift_key :: "drift \<Rightarrow> string res" where
  "drift_key d =
     res_bind (size_text ''missing_bot'' (dri_bot_size d)) (\<lambda>bot_size.
     res_bind (size_text ''missing_exchange'' (dri_exchange_size d)) (\<lambda>exch.
     Inr (str_join '':'' [reconciliation_issue_value (dri_issue d), venue_text (dri_venue d), dri_product_id d, bot_size, exch])))"

definition has_reconciliation_drift :: "projection \<Rightarrow> string \<Rightarrow> bool" where
  "has_reconciliation_drift pj k = dict_has (pj_reconciliation_drifts pj) k"

definition size_json :: "pydec option \<Rightarrow> json res" where
  "size_json d = (case d of None \<Rightarrow> Inr JNull | Some x \<Rightarrow> res_bind (decimal_string x) (\<lambda>t. Inr (JStr t)))"

definition drift_payload_of :: "drift \<Rightarrow> string \<Rightarrow> json \<Rightarrow> json \<Rightarrow> datetime \<Rightarrow> payload" where
  "drift_payload_of d key bot_size exch now =
     [(''bot_net_size'', bot_size),
      (''drift_key'', JStr key),
      (''exchange_net_size'', exch),
      (''issue'', JStr (reconciliation_issue_value (dri_issue d))),
      (''observed_at'', jtime now),
      (''product_id'', JStr (dri_product_id d)),
      (''venue'', jopt (map_option product_venue_value (dri_venue d)))]"

definition emit_drift :: "projection \<Rightarrow> drift \<Rightarrow> ('w, int) dealing" where
  "emit_drift pj d =
     prog_bind (prog_lift (drift_key d)) (\<lambda>key.
     if has_reconciliation_drift pj key then prog_return 0
     else
       prog_bind (prog_lift (size_json (dri_bot_size d))) (\<lambda>bot_size.
       prog_bind (prog_lift (size_json (dri_exchange_size d))) (\<lambda>exch.
       prog_bind venue_now (\<lambda>now.
       prog_bind (on_core (emit_object ET_RECONCILIATION_DRIFT (drift_payload_of d key bot_size exch now)))
         (\<lambda>_. prog_return 1)))))"

text \<open>The positions of the bot that are not flat and in scope\<close>

definition in_scope :: "exchange_state_policy \<Rightarrow> string \<Rightarrow> bool" where
  "in_scope p i \<longleftrightarrow> esp_position_product_ids p = [] \<or> i \<in> set (esp_position_product_ids p)"

fun bot_positions ::
  "exchange_state_policy \<Rightarrow> (string, position_snapshot) dict \<Rightarrow> (string, position_snapshot) dict res" where
  "bot_positions p [] = Inr []"
| "bot_positions p ((i, pos) # ps) =
     res_bind (dec_eq (decimal_or_zero (Some (pos_net_size pos))) dec_zero) (\<lambda>flat.
     res_bind (bot_positions p ps) (\<lambda>rest.
     Inr (if \<not> flat \<and> in_scope p i then (i, pos) # rest else rest)))"

text \<open>\<^verbatim>\<open>_decimal_or_none(value)\<close>: the texts of the other values are no numbers.\<close>

definition decimal_of_json :: "json \<Rightarrow> pydec option" where
  "decimal_of_json j =
     (case j of JStr s \<Rightarrow> dec_parse s | JInt i \<Rightarrow> dec_parse (int_to_str i) | JFloat f \<Rightarrow> dec_parse (float_repr f)
      | _ \<Rightarrow> None)"

definition beyond_tolerance :: "exchange_state_policy \<Rightarrow> pydec \<Rightarrow> pydec \<Rightarrow> bool res" where
  "beyond_tolerance p bot_size actual =
     res_bind (dec_sub bot_size actual) (\<lambda>diff.
     res_bind (dec_abs diff) (dec_lt (decimal_or_zero (Some (esp_position_size_tolerance p)))))"

text \<open>The state of the audit: drifts, newly recorded drifts, matched products\<close>

type_synonym drift_tally = "int \<times> int \<times> string list"

definition count_drift :: "projection \<Rightarrow> drift \<Rightarrow> drift_tally \<Rightarrow> ('w, drift_tally) dealing" where
  "count_drift pj d = (\<lambda>(drifts, news, matched).
     prog_bind (emit_drift pj d) (\<lambda>k. prog_return (drifts + 1, news + k, matched)))"

definition audit_exchange_position ::
  "exchange_state_policy \<Rightarrow> projection \<Rightarrow> (string, position_snapshot) dict \<Rightarrow> (product_venue \<times> string) \<times> payload \<Rightarrow>
     drift_tally \<Rightarrow> ('w, drift_tally) dealing" where
  "audit_exchange_position p pj bots entry tally =
     (case entry of ((venue, i), actual) \<Rightarrow>
      if \<not> in_scope p i then prog_return tally
      else (case decimal_of_json (jget actual ''net_size'') of
        None \<Rightarrow> prog_return tally
      | Some exch \<Rightarrow>
          (case dict_get bots i of
             None \<Rightarrow>
               prog_bind (prog_lift (dec_eq exch dec_zero)) (\<lambda>flat.
               if flat then prog_return tally
               else count_drift pj \<lparr>dri_issue = RI_BOT_POSITION_MISSING, dri_product_id = i, dri_bot_size = None,
                      dri_exchange_size = Some exch, dri_venue = Some venue\<rparr> tally)
           | Some pos \<Rightarrow>
               let bot_size = decimal_or_zero (Some (pos_net_size pos));
                   matched = (fst tally, fst (snd tally), i # snd (snd tally)) in
               prog_bind (prog_lift (beyond_tolerance p bot_size exch)) (\<lambda>drifted.
               if \<not> drifted then prog_return matched
               else count_drift pj \<lparr>dri_issue = RI_POSITION_SIZE_DRIFT, dri_product_id = i, dri_bot_size = Some bot_size,
                      dri_exchange_size = Some exch, dri_venue = Some venue\<rparr> matched))))"

fun audit_exchange_positions ::
  "exchange_state_policy \<Rightarrow> projection \<Rightarrow> (string, position_snapshot) dict \<Rightarrow> positions \<Rightarrow>
     drift_tally \<Rightarrow> ('w, drift_tally) dealing" where
  "audit_exchange_positions p pj bots [] tally = prog_return tally"
| "audit_exchange_positions p pj bots (e # es) tally =
     prog_bind (audit_exchange_position p pj bots e tally) (audit_exchange_positions p pj bots es)"

definition missing_drift :: "string \<Rightarrow> position_snapshot \<Rightarrow> drift" where
  "missing_drift i pos = \<lparr>dri_issue = RI_EXCHANGE_POSITION_MISSING, dri_product_id = i,
     dri_bot_size = Some (decimal_or_zero (Some (pos_net_size pos))), dri_exchange_size = None, dri_venue = None\<rparr>"

fun audit_missing_positions ::
  "projection \<Rightarrow> (string, position_snapshot) dict \<Rightarrow> string list \<Rightarrow> drift_tally \<Rightarrow> ('w, drift_tally) dealing" where
  "audit_missing_positions pj bots [] tally = prog_return tally"
| "audit_missing_positions pj bots (i # is) tally =
     (case dict_get bots i of
        None \<Rightarrow> prog_raise (key_error i)
      | Some pos \<Rightarrow> prog_bind (count_drift pj (missing_drift i pos) tally) (audit_missing_positions pj bots is))"

definition missing_products :: "(string, position_snapshot) dict \<Rightarrow> string list \<Rightarrow> string list" where
  "missing_products bots matched = sort (remdups (filter (\<lambda>i. i \<notin> set matched) (dict_keys bots)))"

definition audit_position_drifts ::
  "exchange_state_policy \<Rightarrow> projection \<Rightarrow> positions \<Rightarrow> ('w, int \<times> int) dealing" where
  "audit_position_drifts p pj actual =
     prog_bind (prog_lift (bot_positions p (pj_positions_by_product_id pj))) (\<lambda>bots.
     prog_bind (audit_exchange_positions p pj bots actual (0, 0, [])) (\<lambda>tally.
     prog_bind (audit_missing_positions pj bots (missing_products bots (snd (snd tally))) tally) (\<lambda>tally'.
     prog_return (fst tally', fst (snd tally')))))"

definition reconcile_exchange_state ::
  "exchange_state_policy \<Rightarrow> 'w account_client option \<Rightarrow> 'w position_client option \<Rightarrow>
     ('w, exchange_state_result) dealing" where
  "reconcile_exchange_state p accounts positions =
     prog_bind (on_core (\<lambda>c. (core_projection c, c))) (\<lambda>pj.
     prog_bind (snapshot_accounts p accounts) (\<lambda>(balances, account_errors).
     prog_bind (snapshot_positions p positions) (\<lambda>(snapshots, actual, position_errors).
     prog_bind (if positions \<noteq> None \<and> position_errors = 0 then audit_position_drifts p pj actual
                else prog_return (0, 0)) (\<lambda>(drifts, news).
     prog_return
       \<lparr>esr_balance_snapshots = balances, esr_drift_count = drifts,
        esr_error_count = account_errors + position_errors, esr_position_snapshots = snapshots,
        esr_new_drift_record_count = news\<rparr>))))"

subsection \<open>The key of a drift\<close>

definition no_colon :: "string \<Rightarrow> bool" where
  "no_colon s \<longleftrightarrow> CHR '':'' \<notin> set s"

lemma no_colon_simps [simp]:
  "no_colon []" "no_colon (c # s) \<longleftrightarrow> c \<noteq> CHR '':'' \<and> no_colon s" "no_colon (s @ t) \<longleftrightarrow> no_colon s \<and> no_colon t"
  by (auto simp: no_colon_def)

lemma no_colon_part: "no_colon s \<Longrightarrow> no_colon (take n s)" "no_colon s \<Longrightarrow> no_colon (drop n s)"
  by (auto simp: no_colon_def dest: in_set_takeD in_set_dropD)

lemma digits_no_colon: "list_all is_digit s \<Longrightarrow> no_colon s"
  by (induction s) (auto simp: is_digit_def)

lemma decimal_text_no_colon:
  assumes "decimal_string d = Inr s"
  shows "no_colon s"
proof -
  have "no_colon (zeros k)" for k by (simp add: digits_no_colon)
  then have "no_colon (dec_format_f x)" for x
    by (cases x) (simp_all add: Let_def no_colon_part digits_no_colon nat_to_str_digits)
  with assms show ?thesis by (auto simp: decimal_string_def res_bind_Inr)
qed

lemma size_text_no_colon: "size_text m d = Inr s \<Longrightarrow> no_colon m \<Longrightarrow> no_colon s"
  by (auto simp: size_text_def decimal_text_no_colon split: option.splits)

lemma first_part_unique:
  "no_colon s \<Longrightarrow> no_colon t \<Longrightarrow> s @ CHR '':'' # x = t @ CHR '':'' # y \<Longrightarrow> s = t \<and> x = y"
proof (induction s arbitrary: t)
  case Nil
  then show ?case by (cases t) auto
next
  case (Cons c s)
  then show ?case by (cases t) auto
qed

lemma last_part_unique:
  assumes "no_colon s" and "no_colon t" and "x @ CHR '':'' # s = y @ CHR '':'' # t"
  shows "s = t \<and> x = y"
proof -
  have "no_colon (rev s)" "no_colon (rev t)" using assms(1,2) by (simp_all add: no_colon_def)
  moreover have "rev s @ CHR '':'' # rev x = rev t @ CHR '':'' # rev y" using arg_cong [OF assms(3), of rev] by simp
  ultimately show ?thesis using first_part_unique [of "rev s" "rev t" "rev x" "rev y"] by simp
qed

text \<open>The key names the venue and the product, whatever characters the product id has.\<close>

lemma drift_key_names:
  assumes "drift_key d = Inr k" and "drift_key d' = Inr k"
  shows "dri_venue d = dri_venue d' \<and> dri_product_id d = dri_product_id d'"
proof -
  have issue: "no_colon (reconciliation_issue_value i)" for i by (cases i) simp_all
  have venue_value: "no_colon (product_venue_value w)" for w by (cases w) simp_all
  have venue: "no_colon (venue_text v)" for v
    by (simp add: venue_text_def venue_value split: option.split)
  have same_venue: "venue_text v = venue_text w \<Longrightarrow> v = w" for v w
    by (cases v; cases w) (auto simp: venue_text_def elim!: product_venue_value.elims dest: sym)
  from assms(1) obtain b e where texts: "size_text ''missing_bot'' (dri_bot_size d) = Inr b"
    "size_text ''missing_exchange'' (dri_exchange_size d) = Inr e"
    and k: "k = reconciliation_issue_value (dri_issue d) @ '':'' @ venue_text (dri_venue d) @ '':'' @ dri_product_id d @ '':'' @ b @ '':'' @ e"
    by (auto simp: drift_key_def res_bind_Inr str_join_def)
  from assms(2) obtain b' e' where texts': "size_text ''missing_bot'' (dri_bot_size d') = Inr b'"
    "size_text ''missing_exchange'' (dri_exchange_size d') = Inr e'"
    and k': "k = reconciliation_issue_value (dri_issue d') @ '':'' @ venue_text (dri_venue d') @ '':'' @ dri_product_id d' @ '':'' @ b' @ '':'' @ e'"
    by (auto simp: drift_key_def res_bind_Inr str_join_def)
  note be = texts [THEN size_text_no_colon, simplified] and be' = texts' [THEN size_text_no_colon, simplified]
  from k k' first_part_unique [OF issue issue] have
    "venue_text (dri_venue d) @ '':'' @ dri_product_id d @ '':'' @ b @ '':'' @ e =
     venue_text (dri_venue d') @ '':'' @ dri_product_id d' @ '':'' @ b' @ '':'' @ e'" by fastforce
  with first_part_unique [OF venue venue] have v: "venue_text (dri_venue d) = venue_text (dri_venue d')"
    and rest: "dri_product_id d @ '':'' @ b @ '':'' @ e = dri_product_id d' @ '':'' @ b' @ '':'' @ e'" by fastforce+
  from rest last_part_unique [OF be(2) be'(2), of "dri_product_id d @ '':'' @ b" "dri_product_id d' @ '':'' @ b'"]
  have "dri_product_id d @ '':'' @ b = dri_product_id d' @ '':'' @ b'" by simp
  with last_part_unique [OF be(1) be'(1)] have "dri_product_id d = dri_product_id d'" by fastforce
  with same_venue [OF v] show ?thesis by simp
qed

subsection \<open>Counts\<close>

definition tally :: "event_type \<Rightarrow> event list \<Rightarrow> int" where
  "tally et es = int (count_list (map fst es) et)"

lemma tally_simps [simp]:
  "tally et [] = 0" "tally et (e # es) = (if fst e = et then 1 else 0) + tally et es"
  "tally et (es @ es') = tally et es + tally et es'"
  by (simp_all add: tally_def)

lemma tally_other: "fst ` set es \<subseteq> A \<Longrightarrow> et \<notin> A \<Longrightarrow> tally et es = 0"
  by (induction es) auto

text \<open>
  The events are of the kinds \<open>A\<close>; a returned value has \<open>I\<close>, and its counts are those before with the
  events of kind \<open>et\<close> and the errors.
\<close>

definition counted :: "event_type set \<Rightarrow> event_type \<Rightarrow> ('a \<Rightarrow> int \<times> int) \<Rightarrow> ('a \<Rightarrow> bool) \<Rightarrow> int \<times> int \<Rightarrow>
    'a res \<Rightarrow> event list \<Rightarrow> bool" where
  "counted A et f I n x es \<longleftrightarrow> fst ` set es \<subseteq> A \<and>
     (\<forall>y. x = Inr y \<longrightarrow> I y \<and> f y = (fst n + tally et es, snd n + tally ET_ERROR es))"

lemma counted_raised [simp]: "counted A et f I n (Inl e) []"
  by (simp add: counted_def)

lemma counted_return: "core_ok (fst s) \<Longrightarrow> f x = n \<Longrightarrow> I x \<Longrightarrow>
    concludes (prog_return x) s (\<lambda>y es s'. counted A et f I n y es)"
  by (rule concludes_return) (auto simp: counted_def)

lemma counted_then:
  fixes m :: "(core \<times> 'w, 'a) prog" and g :: "'a \<Rightarrow> (core \<times> 'w, 'b) prog"
  assumes "concludes m s (\<lambda>x es s'. counted A et f I n x es)"
    and "\<And>x s'. core_ok (fst s') \<Longrightarrow> I x \<Longrightarrow> concludes (g x) s' (\<lambda>y es s''. counted A et h J (f x) y es)"
  shows "concludes (prog_bind m g) s (\<lambda>y es s'. counted A et h J n y es)"
proof (rule concludes_bind [OF assms(1)])
  fix x :: 'a and es :: "event list" and s' :: "core \<times> 'w"
  assume ok: "core_ok (fst s')" and x: "counted A et f I n (Inr x) es"
  then have "I x" by (simp add: counted_def)
  from assms(2) [OF ok this] show "concludes (g x) s' (\<lambda>y es' s''. counted A et h J n y (es @ es'))"
    by (rule concludes_mono) (use x in \<open>auto simp: counted_def\<close>)
qed (simp add: counted_def)

lemma counted_event:
  assumes "core_ok (fst s)" and "et' \<in> A" and "I x"
    and "f x = (fst n + (if et' = et then 1 else 0), snd n + (if et' = ET_ERROR then 1 else 0))"
  shows "concludes (prog_bind (on_core (emit_object et' p)) (\<lambda>_. prog_return x)) s (\<lambda>y es s'. counted A et f I n y es)"
  by (rule concludes_emit [OF assms(1)]) (auto intro!: concludes_return simp: counted_def assms(2-4))

lemma counted_error:
  fixes s :: "core \<times> 'b venue"
  assumes "core_ok (fst s)" and "message \<noteq> []" and "ET_ERROR \<in> A" and "et \<noteq> ET_ERROR" and "I x"
    and "f x = (fst n, snd n + 1)"
  shows "concludes (prog_bind (emit_reconciliation_error code message context) (\<lambda>_. prog_return x)) s
    (\<lambda>y es s'. counted A et f I n y es)"
proof (rule concludes_bind [OF reconciliation_error_written [OF assms(1,2)]])
  fix z :: unit and es :: "event list" and s' :: "core \<times> 'b venue"
  assume ok: "core_ok (fst s')" and "Inr z = Inr () \<and> map fst es = [ET_ERROR] \<and> snd s' = snd s"
  then obtain q where "es = [(ET_ERROR, q)]" by (cases es) (auto simp: prod_eq_iff)
  with assms(3-6) show "concludes (prog_return x) s' (\<lambda>y es' s''. counted A et f I n y (es @ es'))"
    by (intro concludes_return [OF ok]) (auto simp: counted_def)
qed simp

subsection \<open>Recording the snapshots\<close>

lemma honest_ask:
  assumes "\<And>w. named (fst (m w))" and "core_ok (fst s)"
    and "\<And>lk v. concludes (f lk) (fst s, v) (\<lambda>y es s'. counted A et h I n y es)"
  shows "concludes (prog_bind (ask m) f) s (\<lambda>y es s'. counted A et h I n y es)"
proof (rule concludes_ask [OF _ assms(2) _ assms(3)])
  show "exc_class e \<noteq> []" if "m (vn_world (snd s)) = (Inl e, v)" for e v
    using assms(1) that unfolding named_def by (metis fst_conv)
qed simp

definition honest_account_client :: "'w account_client \<Rightarrow> bool" where
  "honest_account_client client \<longleftrightarrow> (\<forall>cursor n q w. named (fst (client cursor n q w)))"

definition honest_position_client :: "'w position_client \<Rightarrow> bool" where
  "honest_position_client client \<longleftrightarrow>
     (\<forall>w. named (fst (plc_us_futures client w))) \<and> (\<forall>u w. named (fst (plc_perpetual client u w)))"

abbreviation balance_events :: "event_type set" where
  "balance_events \<equiv> {ET_EXCHANGE_BALANCE_SNAPSHOT, ET_ERROR}"

abbreviation position_events :: "event_type set" where
  "position_events \<equiv> {ET_EXCHANGE_POSITION_SNAPSHOT, ET_ERROR}"

lemma accounts_counted:
  "core_ok (fst s) \<Longrightarrow> concludes (record_accounts as counts) s
     (\<lambda>y es s'. counted balance_events ET_EXCHANGE_BALANCE_SNAPSHOT (\<lambda>k. k) (\<lambda>_. True) counts y es)"
proof (induction as arbitrary: counts s)
  case Nil
  then show ?case by (simp add: counted_return)
next
  case (Cons a as)
  have "concludes (record_account a counts) s
     (\<lambda>y es s'. counted balance_events ET_EXCHANGE_BALANCE_SNAPSHOT (\<lambda>k. k) (\<lambda>_. True) counts y es)"
    unfolding record_account_def Let_def snapshot_contract_error_def
    by (rule concludes_venue_now) (simp add: Cons.prems counted_error counted_event)
  then show ?case unfolding record_accounts.simps by (rule counted_then) (simp add: Cons.IH)
qed

lemma account_pages_counted:
  assumes "honest_account_client client"
  shows "core_ok (fst s) \<Longrightarrow> concludes (account_pages p client pages cursor counts) s
    (\<lambda>y es s'. counted balance_events ET_EXCHANGE_BALANCE_SNAPSHOT (\<lambda>k. k) (\<lambda>_. True) counts y es)"
proof (induction pages arbitrary: cursor counts s)
  case 0
  then show ?case by (simp add: counted_error)
next
  case (Suc pages)
  have turn: "concludes (prog_bind (record_accounts (acl_accounts lk) counts) (\<lambda>counts'.
       if \<not> acl_has_next lk then prog_return counts'
       else case acl_cursor lk of
         None \<Rightarrow> prog_bind (emit_reconciliation_error code message ctx) (\<lambda>_. prog_return (fst counts', snd counts' + 1))
       | Some c \<Rightarrow> account_pages p client pages (Some c) counts')) t
      (\<lambda>y es s'. counted balance_events ET_EXCHANGE_BALANCE_SNAPSHOT (\<lambda>k. k) (\<lambda>_. True) counts y es)"
    if "core_ok (fst t)" and "message \<noteq> []" for lk t code message ctx
    by (rule counted_then [OF accounts_counted [OF that(1)]])
      (simp add: Suc.IH counted_return counted_error that(2) split: option.split)
  show ?case
    unfolding account_pages.simps
  proof (rule honest_ask)
    show "named (fst (client cursor (esp_account_page_limit p) (esp_retail_portfolio_id p) w))" for w
      using assms by (simp add: honest_account_client_def)
  next
    fix lk and v :: "'a venue"
    let ?t = "(fst s, v)"
    have ok: "core_ok (fst ?t)" using Suc.prems by simp
    then show "concludes (if acl_status lk \<noteq> ELS_FOUND then
         prog_bind (exchange_lookup_error ''accounts'' (acl_status lk) (acl_status_code lk) (acl_error_code lk)
           (acl_error_message lk)) (\<lambda>_. prog_return (fst counts, snd counts + 1))
       else prog_bind (record_accounts (acl_accounts lk) counts) (\<lambda>counts'.
         if \<not> acl_has_next lk then prog_return counts'
         else case acl_cursor lk of
           None \<Rightarrow> prog_bind (emit_reconciliation_error (error_code_value ER_RECONCILIATION_LOOKUP_FAILED)
                ''Coinbase accounts lookup indicated has_next without cursor'' [(''lookup'', JStr ''accounts'')])
               (\<lambda>_. prog_return (fst counts', snd counts' + 1))
         | Some c \<Rightarrow> account_pages p client pages (Some c) counts')) ?t
      (\<lambda>y es s'. counted balance_events ET_EXCHANGE_BALANCE_SNAPSHOT (\<lambda>k. k) (\<lambda>_. True) counts y es)"
      using turn [OF ok, of "''Coinbase accounts lookup indicated has_next without cursor''" lk
          "error_code_value ER_RECONCILIATION_LOOKUP_FAILED" "[(''lookup'', JStr ''accounts'')]"]
      by (simp add: exchange_lookup_error_def counted_error text_or_def split: option.split)
  qed (rule Suc.prems)
qed

lemma snapshot_accounts_counted:
  assumes "\<And>cl. client = Some cl \<Longrightarrow> honest_account_client cl" and "core_ok (fst s)"
  shows "concludes (snapshot_accounts p client) s
    (\<lambda>y es s'. counted balance_events ET_EXCHANGE_BALANCE_SNAPSHOT (\<lambda>k. k) (\<lambda>_. True) (0, 0) y es)"
  using assms by (simp add: snapshot_accounts_def account_pages_counted counted_return split: option.split)

text \<open>The counts of the positions; the positions seen have one entry for each venue and product.\<close>

definition position_counts :: "int \<times> positions \<times> int \<Rightarrow> int \<times> int" where
  "position_counts st = (fst st, snd (snd st))"

definition one_each :: "int \<times> positions \<times> int \<Rightarrow> bool" where
  "one_each st \<longleftrightarrow> distinct (dict_keys (fst (snd st)))"

lemma position_counted:
  "core_ok (fst s) \<Longrightarrow> one_each st \<Longrightarrow> concludes (record_position venue j st) s
     (\<lambda>y es s'. counted position_events ET_EXCHANGE_POSITION_SNAPSHOT position_counts one_each (position_counts st) y es)"
  unfolding record_position_def Let_def snapshot_contract_error_def
  by (cases st, simp only: prod.case, rule concludes_venue_now)
    (simp add: counted_error counted_event position_counts_def one_each_def split: option.split)

lemma positions_counted:
  "core_ok (fst s) \<Longrightarrow> one_each st \<Longrightarrow> concludes (record_positions venue js st) s
     (\<lambda>y es s'. counted position_events ET_EXCHANGE_POSITION_SNAPSHOT position_counts one_each (position_counts st) y es)"
proof (induction js arbitrary: st s)
  case Nil
  then show ?case by (simp add: counted_return)
next
  case (Cons j js)
  show ?case unfolding record_positions.simps
    by (rule counted_then [OF position_counted [OF Cons.prems]]) (rule Cons.IH)
qed

lemma counted_error_then:
  fixes s :: "core \<times> 'b venue"
  assumes "core_ok (fst s)" and "message \<noteq> []" and "ET_ERROR \<in> A" and "et \<noteq> ET_ERROR"
    and "\<And>s' :: core \<times> 'b venue. core_ok (fst s') \<Longrightarrow> concludes (g ()) s' (\<lambda>y es s''. counted A et f I (fst n, snd n + 1) y es)"
  shows "concludes (prog_bind (emit_reconciliation_error code message context) g) s (\<lambda>y es s'. counted A et f I n y es)"
proof (rule concludes_bind [OF reconciliation_error_written [OF assms(1,2)]])
  fix z :: unit and es :: "event list" and s' :: "core \<times> 'b venue"
  assume ok: "core_ok (fst s')" and "Inr z = Inr () \<and> map fst es = [ET_ERROR] \<and> snd s' = snd s"
  then obtain q where "es = [(ET_ERROR, q)]" by (cases es) (auto simp: prod_eq_iff)
  then show "concludes (g z) s' (\<lambda>y es' s''. counted A et f I n y (es @ es'))"
    by simp (rule concludes_mono [OF assms(5) [OF ok]], use assms(3,4) in \<open>auto simp: counted_def image_subset_iff\<close>)
qed simp

lemma lookups_counted:
  "core_ok (fst s) \<Longrightarrow> one_each st \<Longrightarrow> concludes (record_lookups lks st) s
     (\<lambda>y es s'. counted position_events ET_EXCHANGE_POSITION_SNAPSHOT position_counts one_each (position_counts st) y es)"
proof (induction lks arbitrary: st s)
  case Nil
  then show ?case by (simp add: counted_return)
next
  case (Cons e lks)
  obtain venue lk where e: "e = (venue, lk)" by force
  show ?case
  proof (cases "pol_status lk = ELS_FOUND")
    case True
    then show ?thesis by (simp add: e) (rule counted_then [OF positions_counted [OF Cons.prems]], rule Cons.IH)
  next
    case False
    have "one_each (fst st, fst (snd st), snd (snd st) + 1)" using Cons.prems(2) by (simp add: one_each_def)
    note more = Cons.IH [OF _ this]
    show ?thesis using False unfolding e record_lookups.simps exchange_lookup_error_def
      by simp (rule counted_error_then, simp_all add: Cons.prems text_or_def split: option.split,
        use more in \<open>simp add: position_counts_def\<close>)
  qed
qed

lemma prog_bind_assoc: "prog_bind (prog_bind m g) f = prog_bind m (\<lambda>x. prog_bind (g x) f)"
  by (auto simp: prog_bind_def split: prod.split sum.split)

lemma prog_bind_unit: "prog_bind (prog_return x) f = f x"
  by (auto simp: prog_bind_def prog_return_def)

lemma snapshot_positions_counted:
  assumes "\<And>cl. client = Some cl \<Longrightarrow> honest_position_client cl" and "core_ok (fst s)"
  shows "concludes (snapshot_positions p client) s
    (\<lambda>y es s'. counted position_events ET_EXCHANGE_POSITION_SNAPSHOT position_counts one_each (0, 0) y es)"
proof (cases client)
  case None
  then show ?thesis using assms(2) by (simp add: snapshot_positions_def counted_return position_counts_def one_each_def)
next
  case (Some cl)
  from assms(1) [OF Some] have honest: "named (fst (plc_us_futures cl w))" "named (fst (plc_perpetual cl u w))" for u w
    by (simp_all add: honest_position_client_def)
  have start: "one_each (0, [], 0)" "position_counts (0, [], 0) = (0, 0)" by (simp_all add: one_each_def position_counts_def)
  have lookups: "concludes (record_lookups lks (0, [], 0)) t (\<lambda>y es s'. counted position_events
      ET_EXCHANGE_POSITION_SNAPSHOT position_counts one_each (0, 0) y es)" if "core_ok (fst t)" for lks t
    using lookups_counted [OF that start(1), of lks] start(2) by simp
  show ?thesis
    unfolding snapshot_positions_def Some option.case position_lookups_def prog_bind_assoc
    by (rule honest_ask [OF honest(1) assms(2)], cases "esp_perpetual_portfolio_uuid p", simp_all add: prog_bind_unit prog_bind_assoc del: record_lookups.simps)
     (use lookups assms(2) in \<open>auto intro!: honest_ask honest simp del: record_lookups.simps\<close>)
qed

subsection \<open>Every drift once\<close>

text \<open>The key of an event that states a drift, as the rebuilt state reads it\<close>

definition event_drift_key :: "event \<Rightarrow> string option" where
  "event_drift_key e =
     (if fst e \<noteq> ET_RECONCILIATION_DRIFT then None
      else case (string_or_none (jget (snd e) ''drift_key''), enum_or_none reconciliation_issue_of (jget (snd e) ''issue''),
                 string_or_none (jget (snd e) ''product_id'')) of
        (Some k, Some issue, Some i) \<Rightarrow> Some k
      | _ \<Rightarrow> None)"

definition drift_keys :: "event list \<Rightarrow> string list" where
  "drift_keys es = List.map_filter event_drift_key es"

definition recorded_drift_keys :: "audit_record list \<Rightarrow> string list" where
  "recorded_drift_keys rs = List.map_filter (\<lambda>r. event_drift_key (rec_event_type r, record_payload r)) rs"

lemma drift_keys_simps [simp]:
  "drift_keys [] = []" "drift_keys (es @ es') = drift_keys es @ drift_keys es'"
  "drift_keys (e # es) = (case event_drift_key e of None \<Rightarrow> [] | Some k \<Rightarrow> [k]) @ drift_keys es"
  by (simp_all add: drift_keys_def map_filter_def split: option.split)

lemma no_drift_keys: "fst ` set es \<subseteq> A \<Longrightarrow> ET_RECONCILIATION_DRIFT \<notin> A \<Longrightarrow> drift_keys es = []"
  by (induction es) (auto simp: event_drift_key_def)

lemma facts_drift_keys: "event_sink.facts es rs \<Longrightarrow> recorded_drift_keys rs = drift_keys es"
  by (induction rule: core_sink.facts.induct)
    (auto simp: recorded_drift_keys_def drift_keys_def map_filter_def payload_dict_def extension_record_def event_drift_key_def)

definition drift_names :: "drift \<Rightarrow> product_venue option \<times> string" where
  "drift_names d = (dri_venue d, dri_product_id d)"

text \<open>The drifts among the events are about the things named in \<open>N\<close>, each once, and unknown to \<open>pj\<close>.\<close>

definition fresh_drifts :: "projection \<Rightarrow> (product_venue option \<times> string) set \<Rightarrow> event list \<Rightarrow> bool" where
  "fresh_drifts pj N es \<longleftrightarrow> distinct (drift_keys es) \<and>
     (\<forall>k \<in> set (drift_keys es). \<not> has_reconciliation_drift pj k \<and> (\<exists>d. drift_key d = Inr k \<and> drift_names d \<in> N))"

lemma fresh_drifts_append:
  assumes "fresh_drifts pj N es" and "fresh_drifts pj M es'" and "N \<inter> M = {}"
  shows "fresh_drifts pj (N \<union> M) (es @ es')"
proof -
  have "k \<notin> set (drift_keys es')" if "k \<in> set (drift_keys es)" for k
  proof
    assume "k \<in> set (drift_keys es')"
    with that assms(1,2) obtain d d' where "drift_key d = Inr k" "drift_names d \<in> N" "drift_key d' = Inr k" "drift_names d' \<in> M"
      unfolding fresh_drifts_def by blast
    with drift_key_names [of d k d'] assms(3) show False by (auto simp: drift_names_def)
  qed
  with assms(1,2) show ?thesis unfolding fresh_drifts_def by auto
qed

lemma fresh_drifts_none [simp]: "fresh_drifts pj N []"
  by (simp add: fresh_drifts_def)

lemma fresh_drifts_mono: "fresh_drifts pj N es \<Longrightarrow> N \<subseteq> M \<Longrightarrow> fresh_drifts pj M es"
  unfolding fresh_drifts_def by blast

text \<open>What an audit of the drifts named in \<open>N\<close> adds to the tally\<close>

definition audited :: "projection \<Rightarrow> (product_venue option \<times> string) set \<Rightarrow> ('a \<Rightarrow> int) \<Rightarrow> int \<Rightarrow> 'a res \<Rightarrow> event list \<Rightarrow> bool" where
  "audited pj N f n x es \<longleftrightarrow> fst ` set es \<subseteq> {ET_RECONCILIATION_DRIFT} \<and> fresh_drifts pj N es \<and>
     (\<forall>y. x = Inr y \<longrightarrow> f y = n + tally ET_RECONCILIATION_DRIFT es)"

lemma audited_raised [simp]: "audited pj N f n (Inl e) []"
  by (simp add: audited_def)

lemma audited_return: "core_ok (fst s) \<Longrightarrow> f x = n \<Longrightarrow> concludes (prog_return x) s (\<lambda>y es s'. audited pj N f n y es)"
  by (rule concludes_return) (auto simp: audited_def)

lemma audited_then:
  fixes m :: "(core \<times> 'w, 'a) prog" and g :: "'a \<Rightarrow> (core \<times> 'w, 'b) prog"
  assumes "concludes m s (\<lambda>x es s'. audited pj N f n x es)" and "N \<inter> M = {}"
    and "\<And>x s'. core_ok (fst s') \<Longrightarrow> concludes (g x) s' (\<lambda>y es s''. audited pj M h (f x) y es)"
  shows "concludes (prog_bind m g) s (\<lambda>y es s'. audited pj (N \<union> M) h n y es)"
proof (rule concludes_bind [OF assms(1)])
  fix x :: 'a and es :: "event list" and s' :: "core \<times> 'w"
  assume ok: "core_ok (fst s')" and x: "audited pj N f n (Inr x) es"
  from assms(3) [OF ok] show "concludes (g x) s' (\<lambda>y es' s''. audited pj (N \<union> M) h n y (es @ es'))"
    by (rule concludes_mono) (use x fresh_drifts_append [OF _ _ assms(2)] in \<open>auto simp: audited_def\<close>)
qed (auto simp: audited_def intro: fresh_drifts_mono)

lemma audited_bind_lift:
  assumes "core_ok (fst s)" and "named r" and "\<And>x. r = Inr x \<Longrightarrow> concludes (g x) s (\<lambda>y es s'. audited pj N f n y es)"
  shows "concludes (prog_bind (prog_lift r) g) s (\<lambda>y es s'. audited pj N f n y es)"
  by (rule concludes_bind_lift [OF assms(1,2)]) (simp_all add: assms(3))

lemma named_sizes [named_intros]:
  "named (dec_abs d)" "named (size_text m x)" "named (size_json x)" "named (drift_key dr)" "named (beyond_tolerance p d d')"
proof -
  show abs_named: "named (dec_abs d)" for d
    by (cases d) (auto simp: intro: named_intros)
  show parts: "named (size_text m x)" for m x unfolding size_text_def by (intro named_intros)
  show "named (size_json x)" unfolding size_json_def by (intro named_intros)
  show "named (drift_key dr)" unfolding drift_key_def by (intro named_intros parts)
  show "named (beyond_tolerance p d d')" unfolding beyond_tolerance_def by (intro named_intros abs_named)
qed

lemma named_bot_positions [named_intros]: "named (bot_positions p ps)"
proof (induction p ps rule: bot_positions.induct)
  case (2 p i pos ps)
  then show ?case unfolding bot_positions.simps by (intro named_bind named_compare) simp_all
qed simp

lemma drift_emitted:
  assumes "core_ok (fst s)"
  shows "concludes (emit_drift pj d) s (\<lambda>y es s'. audited pj {drift_names d} (\<lambda>k. k) 0 y es)"
  unfolding emit_drift_def
proof (rule audited_bind_lift [OF assms], intro named_intros)
  fix key assume key: "drift_key d = Inr key"
  have emitted: "audited pj {drift_names d} (\<lambda>k. k) 0 (Inr 1) [(ET_RECONCILIATION_DRIFT, drift_payload_of d key b e now)]"
    if "\<not> has_reconciliation_drift pj key" for b e now
  proof -
    have "drift_keys [(ET_RECONCILIATION_DRIFT, drift_payload_of d key b e now)] = [] \<or>
        drift_keys [(ET_RECONCILIATION_DRIFT, drift_payload_of d key b e now)] = [key]"
      by (auto simp: event_drift_key_def drift_payload_of_def jget_def string_or_none_def enum_or_none_def split: option.split)
    then have "fresh_drifts pj {drift_names d} [(ET_RECONCILIATION_DRIFT, drift_payload_of d key b e now)]"
      using that key unfolding fresh_drifts_def by (auto simp del: drift_keys_simps)
    then show ?thesis by (simp add: audited_def)
  qed
  show "concludes (if has_reconciliation_drift pj key then prog_return 0
     else prog_bind (prog_lift (size_json (dri_bot_size d))) (\<lambda>bot_size.
       prog_bind (prog_lift (size_json (dri_exchange_size d))) (\<lambda>exch.
       prog_bind venue_now (\<lambda>now.
       prog_bind (on_core (emit_object ET_RECONCILIATION_DRIFT (drift_payload_of d key bot_size exch now)))
         (\<lambda>_. prog_return 1))))) s (\<lambda>y es s'. audited pj {drift_names d} (\<lambda>k. k) 0 y es)"
  proof (cases "has_reconciliation_drift pj key")
    case True
    then show ?thesis by (simp add: audited_return assms)
  next
    case False
    show ?thesis
      using False by simp (intro audited_bind_lift concludes_venue_now concludes_emit concludes_return named_intros,
        simp_all add: assms emitted)
  qed
qed

lemma drift_counted:
  assumes "core_ok (fst s)"
  shows "concludes (count_drift pj d t) s (\<lambda>y es s'. audited pj {drift_names d} (\<lambda>t. fst (snd t)) (fst (snd t)) y es)"
proof -
  obtain drifts news matched where t: "t = (drifts, news, matched)" by (metis prod.collapse)
  show ?thesis
    unfolding count_drift_def t prod.case
    by (rule concludes_bind [OF drift_emitted [OF assms]]) (auto simp: audited_def intro!: concludes_return)
qed

abbreviation position_name :: "(product_venue \<times> string) \<times> payload \<Rightarrow> product_venue option \<times> string" where
  "position_name e \<equiv> (Some (fst (fst e)), snd (fst e))"

lemma exchange_position_audited:
  assumes "core_ok (fst s)"
  shows "concludes (audit_exchange_position p pj bots e t) s
    (\<lambda>y es s'. audited pj {position_name e} (\<lambda>t. fst (snd t)) (fst (snd t)) y es)"
proof -
  obtain venue i actual where e: "e = ((venue, i), actual)" by (metis prod.collapse)
  have counted: "concludes (count_drift pj d t') s (\<lambda>y es s'. audited pj {(Some venue, i)} (\<lambda>t. fst (snd t)) (fst (snd t)) y es)"
    if "drift_names d = (Some venue, i)" and "fst (snd t') = fst (snd t)" for d t'
    using drift_counted [OF assms, of pj d t'] that by simp
  show ?thesis
    unfolding audit_exchange_position_def e prod.case Let_def
    by (auto simp: audited_return assms split: option.split intro!: audited_bind_lift named_intros counted
        simp: drift_names_def)
qed

lemma exchange_positions_audited:
  "core_ok (fst s) \<Longrightarrow> distinct (dict_keys es) \<Longrightarrow> concludes (audit_exchange_positions p pj bots es t) s
    (\<lambda>y evs s'. audited pj (position_name ` set es) (\<lambda>t. fst (snd t)) (fst (snd t)) y evs)"
proof (induction es arbitrary: t s)
  case Nil
  then show ?case by (simp add: audited_return)
next
  case (Cons e es)
  have "{position_name e} \<inter> position_name ` set es = {}" using Cons.prems(2) by (auto simp: image_iff prod_eq_iff)
  from audited_then [OF exchange_position_audited [OF Cons.prems(1)] this Cons.IH] Cons.prems(2)
  show ?case by simp
qed

lemma missing_positions_audited:
  "core_ok (fst s) \<Longrightarrow> distinct is \<Longrightarrow> concludes (audit_missing_positions pj bots is t) s
    (\<lambda>y evs s'. audited pj (Pair None ` set is) (\<lambda>t. fst (snd t)) (fst (snd t)) y evs)"
proof (induction "is" arbitrary: t s)
  case Nil
  then show ?case by (simp add: audited_return)
next
  case (Cons i "is")
  show ?case
  proof (cases "dict_get bots i")
    case None
    then show ?thesis by simp (rule concludes_raise, simp_all add: Cons.prems)
  next
    case (Some pos)
    have "{drift_names (missing_drift i pos)} \<inter> Pair None ` set is = {}"
      using Cons.prems(2) by (auto simp: drift_names_def missing_drift_def)
    from audited_then [OF drift_counted [OF Cons.prems(1)] this Cons.IH] Cons.prems(2) Some
    show ?thesis by (simp add: drift_names_def missing_drift_def)
  qed
qed

lemma drifts_audited:
  assumes "core_ok (fst s)" and "distinct (dict_keys actual)"
  shows "concludes (audit_position_drifts p pj actual) s (\<lambda>y evs s'. audited pj UNIV snd 0 y evs)"
proof -
  have last: "concludes (prog_bind (audit_missing_positions pj bots (missing_products bots (snd (snd t))) t)
      (\<lambda>t'. prog_return (fst t', fst (snd t')))) s' (\<lambda>y evs s''. audited pj (range (Pair None)) snd (fst (snd t)) y evs)"
    if ok: "core_ok (fst s')" for bots t and s' :: "core \<times> 'a venue"
  proof (rule concludes_bind [OF missing_positions_audited [OF ok]])
    show "distinct (missing_products bots (snd (snd t)))" by (simp add: missing_products_def)
  qed (auto simp: audited_def intro!: concludes_return intro: fresh_drifts_mono)
  have "concludes (prog_bind (audit_exchange_positions p pj bots actual (0, 0, [])) (\<lambda>t.
       prog_bind (audit_missing_positions pj bots (missing_products bots (snd (snd t))) t)
         (\<lambda>t'. prog_return (fst t', fst (snd t'))))) s
      (\<lambda>y evs s'. audited pj (position_name ` set actual \<union> range (Pair None)) snd 0 y evs)" for bots
    by (rule audited_then [where N = "position_name ` set actual" and M = "range (Pair None)"])
      (use exchange_positions_audited [OF assms, of p pj bots "(0, 0, [])"] last in auto)
  then have "concludes (prog_bind (audit_exchange_positions p pj bots actual (0, 0, [])) (\<lambda>t.
       prog_bind (audit_missing_positions pj bots (missing_products bots (snd (snd t))) t)
         (\<lambda>t'. prog_return (fst t', fst (snd t'))))) s (\<lambda>y evs s'. audited pj UNIV snd 0 y evs)" for bots
    by (rule concludes_mono) (auto simp: audited_def intro: fresh_drifts_mono)
  then show ?thesis
    unfolding audit_position_drifts_def by (intro audited_bind_lift assms(1) named_intros)
qed

subsection \<open>A whole reconciliation\<close>

definition counts_exact :: "exchange_state_result \<Rightarrow> event list \<Rightarrow> bool" where
  "counts_exact r es \<longleftrightarrow>
     esr_balance_snapshots r = tally ET_EXCHANGE_BALANCE_SNAPSHOT es \<and>
     esr_position_snapshots r = tally ET_EXCHANGE_POSITION_SNAPSHOT es \<and>
     esr_error_count r = tally ET_ERROR es \<and>
     esr_new_drift_record_count r = tally ET_RECONCILIATION_DRIFT es"

definition state_reconciled :: "projection \<Rightarrow> exchange_state_result res \<Rightarrow> event list \<Rightarrow> bool" where
  "state_reconciled pj x es \<longleftrightarrow> distinct (drift_keys es) \<and>
     (\<forall>k \<in> set (drift_keys es). \<not> has_reconciliation_drift pj k) \<and> (\<forall>r. x = Inr r \<longrightarrow> counts_exact r es)"

lemma counted_no_drift: "counted A et f I n x es \<Longrightarrow> ET_RECONCILIATION_DRIFT \<notin> A \<Longrightarrow> drift_keys es = []"
  unfolding counted_def by (rule no_drift_keys) simp_all

lemma drifts_or_none:
  assumes "core_ok (fst s)" and "distinct (dict_keys actual)"
  shows "concludes (if b then audit_position_drifts p pj actual else prog_return (0, 0)) s
    (\<lambda>y evs s'. audited pj UNIV snd 0 y evs)"
  by (cases b) (simp_all add: drifts_audited [OF assms] audited_return [OF assms(1)])

lemma reconciliation_concludes:
  assumes "core_ok c" and "core_projection c = Inr pj"
    and "\<And>cl. accounts = Some cl \<Longrightarrow> honest_account_client cl" and "\<And>cl. positions = Some cl \<Longrightarrow> honest_position_client cl"
  shows "concludes (reconcile_exchange_state p accounts positions) (c, v) (\<lambda>x es s'. state_reconciled pj x es)"
proof -
  have quiet: "state_reconciled pj (Inl e) es" if "drift_keys es = []" for e es using that by (simp add: state_reconciled_def)
  have ok: "core_ok (fst (c, v))" using assms(1) by simp
  have main: "concludes (prog_bind (snapshot_accounts p accounts) (\<lambda>(balances, account_errors).
     prog_bind (snapshot_positions p positions) (\<lambda>(snapshots, actual, position_errors).
     prog_bind (if positions \<noteq> None \<and> position_errors = 0 then audit_position_drifts p pj actual
                else prog_return (0, 0)) (\<lambda>(drifts, news).
     prog_return
       \<lparr>esr_balance_snapshots = balances, esr_drift_count = drifts,
        esr_error_count = account_errors + position_errors, esr_position_snapshots = snapshots,
        esr_new_drift_record_count = news\<rparr>)))) (c, v)
      (\<lambda>x es s'. state_reconciled pj x es)"
  proof (rule concludes_bind [OF snapshot_accounts_counted [OF assms(3) ok]], assumption)
    fix a :: "int \<times> int" and es :: "event list" and s1 :: "core \<times> 'a venue"
    assume ok1: "core_ok (fst s1)"
      and acc: "counted balance_events ET_EXCHANGE_BALANCE_SNAPSHOT (\<lambda>k. k) (\<lambda>_. True) (0, 0) (Inr a) es"
    obtain balances account_errors where a: "a = (balances, account_errors)" by force
    show "concludes (case a of (balances, account_errors) \<Rightarrow>
        prog_bind (snapshot_positions p positions) (\<lambda>(snapshots, actual, position_errors).
        prog_bind (if positions \<noteq> None \<and> position_errors = 0 then audit_position_drifts p pj actual
                   else prog_return (0, 0)) (\<lambda>(drifts, news).
        prog_return \<lparr>esr_balance_snapshots = balances, esr_drift_count = drifts,
          esr_error_count = account_errors + position_errors, esr_position_snapshots = snapshots,
          esr_new_drift_record_count = news\<rparr>))) s1 (\<lambda>y es' s'. state_reconciled pj y (es @ es'))"
      unfolding a prod.case
    proof (rule concludes_bind [OF snapshot_positions_counted [OF assms(4) ok1]], assumption)
      fix st :: "int \<times> positions \<times> int" and es1 :: "event list" and s2 :: "core \<times> 'a venue"
      assume ok2: "core_ok (fst s2)" and pos: "counted position_events ET_EXCHANGE_POSITION_SNAPSHOT position_counts one_each
          (0, 0) (Inr st) es1"
      obtain snapshots actual position_errors where st: "st = (snapshots, actual, position_errors)" by (metis prod.collapse)
      have dist: "distinct (dict_keys actual)" using pos st by (simp add: counted_def one_each_def)
      show "concludes (case st of (snapshots, actual, position_errors) \<Rightarrow>
          prog_bind (if positions \<noteq> None \<and> position_errors = 0 then audit_position_drifts p pj actual
                     else prog_return (0, 0)) (\<lambda>(drifts, news).
          prog_return \<lparr>esr_balance_snapshots = balances, esr_drift_count = drifts,
            esr_error_count = account_errors + position_errors, esr_position_snapshots = snapshots,
            esr_new_drift_record_count = news\<rparr>)) s2 (\<lambda>y es' s'. state_reconciled pj y (es @ es1 @ es'))"
        unfolding st prod.case
      proof (rule concludes_bind [OF drifts_or_none [OF ok2 dist]])
        fix y :: "int \<times> int" and es2 :: "event list" and s3 :: "core \<times> 'a venue"
        assume ok3: "core_ok (fst s3)" and aud: "audited pj UNIV snd 0 (Inr y) es2"
        have none: "drift_keys es = []" "drift_keys es1 = []"
          by (rule counted_no_drift [OF acc], simp, rule counted_no_drift [OF pos], simp)
        have other: "tally et es = 0" if "et \<notin> balance_events" for et
          using acc that unfolding counted_def by (intro tally_other [of es balance_events]) simp_all
        have other1: "tally et es1 = 0" if "et \<notin> position_events" for et
          using pos that unfolding counted_def by (intro tally_other [of es1 position_events]) simp_all
        have other2: "tally et es2 = 0" if "et \<notin> {ET_RECONCILIATION_DRIFT}" for et
          using aud that unfolding audited_def by (intro tally_other [of es2 "{ET_RECONCILIATION_DRIFT}"]) simp_all
        show "concludes (case y of (drifts, news) \<Rightarrow> prog_return \<lparr>esr_balance_snapshots = balances, esr_drift_count = drifts,
            esr_error_count = account_errors + position_errors, esr_position_snapshots = snapshots,
            esr_new_drift_record_count = news\<rparr>) s3 (\<lambda>z es' s'. state_reconciled pj z (es @ es1 @ es2 @ es'))"
          using acc pos aud by (cases y)
            (auto intro!: concludes_return [OF ok3] simp: state_reconciled_def counts_exact_def none other other1 other2
              audited_def fresh_drifts_def counted_def a st position_counts_def)
      qed (use counted_no_drift [OF acc] counted_no_drift [OF pos] in \<open>auto simp: state_reconciled_def audited_def fresh_drifts_def\<close>)
    next
      fix e and es1 :: "event list" and s2 :: "core \<times> 'a venue"
      assume "counted position_events ET_EXCHANGE_POSITION_SNAPSHOT position_counts one_each (0, 0) (Inl e) es1"
      from counted_no_drift [OF this] counted_no_drift [OF acc]
      show "state_reconciled pj (Inl e) (es @ es1)" by (intro quiet) simp
    qed
  next
    fix e and es :: "event list" and s1 :: "core \<times> 'a venue"
    assume "counted balance_events ET_EXCHANGE_BALANCE_SNAPSHOT (\<lambda>k. k) (\<lambda>_. True) (0, 0) (Inl e) es"
    from counted_no_drift [OF this] show "state_reconciled pj (Inl e) es" by (intro quiet) simp
  qed
  show ?thesis
    unfolding reconcile_exchange_state_def
    by (rule concludes_read_core [OF ok named_core_projection], simp add: quiet) (use assms(2) main in auto)
qed


lemma drift_applied:
  assumes "apply_record r q = Inr q'" and "event_drift_key (rec_event_type r, record_payload r) = Some k"
  shows "has_reconciliation_drift q' k"
proof -
  have "rec_event_type r = ET_RECONCILIATION_DRIFT" using assms(2) by (simp add: event_drift_key_def split: if_splits)
  then have "apply_reconciliation_drift r (note_record r q) = q'"
    using assms(1) by (simp add: apply_record_def apply_event_def)
  with assms(2) show ?thesis
    by (auto simp: event_drift_key_def apply_reconciliation_drift_def Let_def has_reconciliation_drift_def
        split: option.splits if_splits)
qed


subsection \<open>What counts as a drift\<close>

text \<open>A number whose exponent is in the range of the context, and the size the bot's fills add up to\<close>

definition usable_size :: "pydec \<Rightarrow> bool" where
  "usable_size d \<longleftrightarrow> (\<exists>s c e. d = DFin s c e \<and> dec_etiny \<le> e)"

definition bot_size_of :: "projection \<Rightarrow> string \<Rightarrow> pydec" where
  "bot_size_of pj i =
     (case dict_get (pj_positions_by_product_id pj) i of
        None \<Rightarrow> dec_zero | Some pos \<Rightarrow> decimal_or_zero (Some (pos_net_size pos)))"

lemma difference_zero_iff:
  assumes "usable_size x" and "usable_size y" and "dec_sub x y = Inr r"
  shows "\<exists>s c e. r = DFin s c e \<and> (dec_rat x = dec_rat y \<longleftrightarrow> c = 0) \<and> (c \<noteq> 0 \<longrightarrow> dec_etiny \<le> e)"
proof -
  from assms(1,2) obtain s c e t d f where x: "x = DFin s c e" and y: "y = DFin t d f"
    and tiny: "dec_etiny \<le> e" "dec_etiny \<le> f" unfolding usable_size_def by blast
  let ?m = "min e f"
  let ?v = "aligned ?m s c e + aligned ?m (\<not> t) d f"
  have neg: "aligned ?m (\<not> t) d f = - aligned ?m t d f" by (simp add: aligned_def signed_def)
  have p: "(power_int 10 ?m :: rat) > 0" by (simp add: zero_less_power_int)
  have "dec_rat x = of_int (aligned ?m s c e) * power_int 10 ?m" "dec_rat y = of_int (aligned ?m t d f) * power_int 10 ?m"
    using aligned_rat [of ?m e s c] aligned_rat [of ?m f t d] by (simp_all add: x y)
  with p have same: "dec_rat x = dec_rat y \<longleftrightarrow> ?v = 0" by (simp add: neg)
  have fixed: "(if ?v = 0 then dec_fix (c = 0 \<and> d = 0 \<and> s \<and> \<not> t) 0 ?m else dec_fix (?v < 0) (nat \<bar>?v\<bar>) ?m) = Inr r"
    using assms(3) by (simp add: x y dec_sub_def dec_add_def with_numbers_def nan_operand_def Let_def)
  have m: "dec_etiny \<le> ?m" using tiny by simp
  show ?thesis
  proof (cases "?v = 0")
    case True
    with fixed have "dec_fix (c = 0 \<and> d = 0 \<and> s \<and> \<not> t) 0 ?m = Inr r" by simp
    then show ?thesis using True same by (auto simp: dec_fix_def)
  next
    case False
    with fixed have run: "dec_fix (?v < 0) (nat \<bar>?v\<bar>) ?m = Inr r" by (simp split: if_splits)
    have nz: "nat \<bar>?v\<bar> \<noteq> 0" using False by simp
    from run m show ?thesis
    proof (cases rule: dec_fix_cases)
      case zero
      with nz show ?thesis by simp
    next
      case exact
      with False same nz m show ?thesis by auto
    next
      case (rounded c' e')
      then have "num_digits c' = 28" by (simp add: dec_prec_def)
      then have "c' \<noteq> 0" using num_digits_zero by (intro notI) simp
      with rounded False same m show ?thesis by auto
    qed
  qed
qed

lemma beyond_no_tolerance:
  assumes "beyond_tolerance p x y = Inr b" and "usable_size x" and "usable_size y"
    and "decimal_or_zero (Some (esp_position_size_tolerance p)) = DFin ts 0 te"
  shows "b \<longleftrightarrow> dec_rat x \<noteq> dec_rat y"
proof -
  from assms(1) obtain r a where r: "dec_sub x y = Inr r" and a: "dec_abs r = Inr a"
    and b: "dec_lt (DFin ts 0 te) a = Inr b" by (auto simp: beyond_tolerance_def res_bind_Inr assms(4))
  from difference_zero_iff [OF assms(2,3) r] obtain s c e where rd: "r = DFin s c e"
    and zero: "dec_rat x = dec_rat y \<longleftrightarrow> c = 0" and tiny: "c \<noteq> 0 \<longrightarrow> dec_etiny \<le> e" by blast
  have fixed: "dec_fix False c e = Inr a" using a rd by simp
  then obtain c' e' where ad: "a = DFin False c' e'" by (auto simp: dec_fix_def Let_def split: if_splits)
  have "c' = 0 \<longleftrightarrow> c = 0"
  proof (cases "c = 0")
    case True
    with fixed ad show ?thesis by (auto simp: dec_fix_def)
  next
    case False
    with dec_fix_zero_iff(2) [OF fixed] tiny ad show ?thesis by (simp add: dec_rat_zero_iff del: dec_rat.simps)
  qed
  moreover have "b \<longleftrightarrow> dec_rat (DFin ts 0 te) < dec_rat a" using b ad by simp
  moreover have "dec_rat a > 0 \<longleftrightarrow> c' \<noteq> 0" by (simp add: ad signed_def zero_less_mult_iff zero_less_power_int)
  ultimately show ?thesis using zero by (simp add: signed_def)
qed

lemma bot_positions_get:
  "bot_positions p ps = Inr bots \<Longrightarrow> distinct (dict_keys ps) \<Longrightarrow> dict_get bots i =
     (case dict_get ps i of None \<Rightarrow> None
      | Some pos \<Rightarrow> if in_scope p i \<and> dec_eq (decimal_or_zero (Some (pos_net_size pos))) dec_zero = Inr False then Some pos else None)"
proof (induction ps arbitrary: bots)
  case (Cons e ps)
  obtain j pos where e: "e = (j, pos)" by force
  from Cons.prems(1) obtain flat rest where flat: "dec_eq (decimal_or_zero (Some (pos_net_size pos))) dec_zero = Inr flat"
    and rest: "bot_positions p ps = Inr rest" and bots: "bots = (if \<not> flat \<and> in_scope p j then (j, pos) # rest else rest)"
    by (auto simp: e res_bind_Inr)
  have "dict_get rest i = None" if "j = i"
  proof -
    have "dict_get ps i = None" using Cons.prems(2) that by (simp add: e map_of_eq_None_iff)
    with Cons.IH [OF rest] Cons.prems(2) show ?thesis by simp
  qed
  with Cons.IH [OF rest] Cons.prems(2) flat bots show ?case by (auto simp: e split: option.splits)
qed simp

text \<open>What one position of the exchange does to the tally\<close>

definition matched_by :: "exchange_state_policy \<Rightarrow> (string, position_snapshot) dict \<Rightarrow> (product_venue \<times> string) \<times> payload \<Rightarrow> bool" where
  "matched_by p bots e \<longleftrightarrow> in_scope p (snd (fst e)) \<and> dict_has bots (snd (fst e)) \<and>
     decimal_of_json (jget (snd e) ''net_size'') \<noteq> None"

lemma counted_run: "count_drift pj d t s = (Inr t', s') \<Longrightarrow> fst t' = fst t + 1 \<and> snd (snd t') = snd (snd t)"
  by (cases t) (auto simp: count_drift_def prog_bind_Inr prog_return_def)

text \<open>Sizes that are numbers, on both sides, and no tolerance\<close>

definition comparable :: "exchange_state_policy \<Rightarrow> projection \<Rightarrow> positions \<Rightarrow> bool" where
  "comparable p pj actual \<longleftrightarrow> (\<exists>ts te. decimal_or_zero (Some (esp_position_size_tolerance p)) = DFin ts 0 te) \<and>
     distinct (dict_keys (pj_positions_by_product_id pj)) \<and> (\<forall>i. usable_size (bot_size_of pj i)) \<and>
     (\<forall>e \<in> set actual. \<exists>d. decimal_of_json (jget (snd e) ''net_size'') = Some d \<and> usable_size d)"

definition exchange_size_of :: "payload \<Rightarrow> rat" where
  "exchange_size_of q = (case decimal_of_json (jget q ''net_size'') of None \<Rightarrow> 0 | Some d \<Rightarrow> dec_rat d)"

lemma usable_finite: "usable_size d \<Longrightarrow> is_finite d"
  by (auto simp: usable_size_def)

lemma bots_or_flat:
  assumes "bot_positions p (pj_positions_by_product_id pj) = Inr bots" and "comparable p pj actual" and "in_scope p i"
  shows "dict_get bots i = None \<Longrightarrow> dec_rat (bot_size_of pj i) = 0"
    and "dict_get bots i = Some pos \<Longrightarrow> bot_size_of pj i = decimal_or_zero (Some (pos_net_size pos)) \<and> dec_rat (bot_size_of pj i) \<noteq> 0"
proof -
  from assms(2) have dist: "distinct (dict_keys (pj_positions_by_product_id pj))" and "usable_size (bot_size_of pj i)"
    unfolding comparable_def by blast+
  then have fin: "is_finite (bot_size_of pj i)" by (simp add: usable_finite)
  have zero: "is_finite dec_zero" "dec_rat dec_zero = 0" by (simp_all add: dec_zero_def signed_def)
  note get = bot_positions_get [OF assms(1) dist, of i]
  show "dict_get bots i = None \<Longrightarrow> dec_rat (bot_size_of pj i) = 0"
    using get fin zero assms(3) by (auto simp: bot_size_of_def split: option.splits if_splits)
  show "dict_get bots i = Some pos \<Longrightarrow> bot_size_of pj i = decimal_or_zero (Some (pos_net_size pos)) \<and> dec_rat (bot_size_of pj i) \<noteq> 0"
    using get fin zero assms(3) by (auto simp: bot_size_of_def split: option.splits if_splits)
qed

lemma exchange_position_run:
  assumes "bot_positions p (pj_positions_by_product_id pj) = Inr bots" and "comparable p pj (e # es)"
    and "audit_exchange_position p pj bots e t s = (Inr t', s')"
  shows "fst t' = fst t + (if in_scope p (snd (fst e)) \<and> exchange_size_of (snd e) \<noteq> dec_rat (bot_size_of pj (snd (fst e))) then 1 else 0) \<and>
    set (snd (snd t')) = set (snd (snd t)) \<union> (if matched_by p bots e then {snd (fst e)} else {})"
proof -
  obtain venue i q where e: "e = ((venue, i), q)" by (metis prod.collapse)
  from assms(2) obtain d ts te where d: "decimal_of_json (jget q ''net_size'') = Some d" and usable: "usable_size d" "usable_size (bot_size_of pj i)"
    and tol: "decimal_or_zero (Some (esp_position_size_tolerance p)) = DFin ts 0 te"
    unfolding comparable_def e by auto
  have zero: "is_finite dec_zero" "dec_rat dec_zero = 0" by (simp_all add: dec_zero_def signed_def)
  show ?thesis
  proof (cases "in_scope p i")
    case False
    with assms(3) show ?thesis by (simp add: audit_exchange_position_def e prog_return_def matched_by_def)
  next
    case scope: True
    note bots = bots_or_flat [OF assms(1,2) scope]
    show ?thesis
    proof (cases "dict_get bots i")
      case None
      from assms(3) obtain s1 where "(if dec_rat d = 0 then prog_return t else count_drift pj \<lparr>dri_issue = RI_BOT_POSITION_MISSING,
          dri_product_id = i, dri_bot_size = None, dri_exchange_size = Some d, dri_venue = Some venue\<rparr> t) s1 = (Inr t', s')"
        using usable zero
        by (auto simp: audit_exchange_position_def e scope d None prog_bind_Inr prog_lift_def usable_finite)
      then show ?thesis using bots(1) [OF None] None
        by (auto simp: e scope d exchange_size_of_def prog_return_def matched_by_def dict_has_def dest: counted_run split: if_splits)
    next
      case (Some pos)
      have bot_size: "decimal_or_zero (Some (pos_net_size pos)) = bot_size_of pj i" using bots(2) [OF Some] by simp
      from assms(3) obtain b where b: "beyond_tolerance p (bot_size_of pj i) d = Inr b"
        and run: "(if \<not> b then prog_return (fst t, fst (snd t), i # snd (snd t)) else count_drift pj \<lparr>dri_issue = RI_POSITION_SIZE_DRIFT,
          dri_product_id = i, dri_bot_size = Some (bot_size_of pj i), dri_exchange_size = Some d, dri_venue = Some venue\<rparr>
          (fst t, fst (snd t), i # snd (snd t))) s = (Inr t', s')"
        by (auto simp: audit_exchange_position_def e scope d Some Let_def prog_bind_Inr prog_lift_def bot_size)
      have "b \<longleftrightarrow> dec_rat (bot_size_of pj i) \<noteq> dec_rat d" by (rule beyond_no_tolerance [OF b usable(2,1) tol])
      with run Some show ?thesis
        by (auto simp: e scope d exchange_size_of_def prog_return_def matched_by_def dict_has_def dest: counted_run split: if_splits)
    qed
  qed
qed

lemma exchange_positions_run:
  assumes "bot_positions p (pj_positions_by_product_id pj) = Inr bots"
  shows "comparable p pj es \<Longrightarrow> audit_exchange_positions p pj bots es t s = (Inr t', s') \<Longrightarrow> fst t \<le> fst t' \<and>
    (fst t' = fst t \<longleftrightarrow> (\<forall>e \<in> set es. in_scope p (snd (fst e)) \<longrightarrow> exchange_size_of (snd e) = dec_rat (bot_size_of pj (snd (fst e))))) \<and>
    set (snd (snd t')) = set (snd (snd t)) \<union> set (map (\<lambda>e. snd (fst e)) (filter (matched_by p bots) es))"
proof (induction es arbitrary: t s)
  case Nil
  then show ?case by (simp add: prog_return_def)
next
  case (Cons e es)
  from Cons.prems(2) obtain t1 s1 where head: "audit_exchange_position p pj bots e t s = (Inr t1, s1)"
    and rest: "audit_exchange_positions p pj bots es t1 s1 = (Inr t', s')" by (auto simp: prog_bind_Inr)
  have "comparable p pj es" using Cons.prems(1) by (simp add: comparable_def)
  note ih = Cons.IH [OF this rest]
  let ?off = "in_scope p (snd (fst e)) \<and> exchange_size_of (snd e) \<noteq> dec_rat (bot_size_of pj (snd (fst e)))"
  from exchange_position_run [OF assms Cons.prems(1) head] have step: "fst t1 = fst t + (if ?off then 1 else 0)"
    "set (snd (snd t1)) = set (snd (snd t)) \<union> (if matched_by p bots e then {snd (fst e)} else {})" by blast+
  have "set (snd (snd t')) = set (snd (snd t)) \<union> set (map (\<lambda>e. snd (fst e)) (filter (matched_by p bots) (e # es)))"
    using ih step(2) by (cases "matched_by p bots e") simp_all
  moreover have "fst t \<le> fst t'" using ih step(1) by (cases ?off) simp_all
  moreover have "fst t' = fst t \<longleftrightarrow> \<not> ?off \<and> fst t' = fst t1" using ih step(1) by (cases ?off) simp_all
  ultimately show ?case using ih by simp
qed

lemma missing_positions_run:
  "audit_missing_positions pj bots is t s = (Inr t', s') \<Longrightarrow> fst t' = fst t + int (length is)"
proof (induction "is" arbitrary: t s)
  case Nil
  then show ?case by (simp add: prog_return_def)
next
  case (Cons i "is")
  from Cons.prems obtain pos t1 s1 where head: "count_drift pj (missing_drift i pos) t s = (Inr t1, s1)"
    and rest: "audit_missing_positions pj bots is t1 s1 = (Inr t', s')"
    by (auto simp: prog_bind_Inr prog_raise_def split: option.splits)
  from Cons.IH [OF rest] counted_run [OF head] show ?case by simp
qed

text \<open>
  C19. Without a tolerance the audit of the drifts finds none exactly when, for every product in scope, every
  position the exchange reports is as large as the one the bot's fills add up to, and every position of the
  bot that is not flat is reported.
\<close>

theorem no_drift_iff_positions_agree:
  assumes "comparable p pj actual" and "audit_position_drifts p pj actual s = (Inr (drifts, news), s')"
  shows "drifts = 0 \<longleftrightarrow>
    (\<forall>e \<in> set actual. in_scope p (snd (fst e)) \<longrightarrow> exchange_size_of (snd e) = dec_rat (bot_size_of pj (snd (fst e)))) \<and>
    (\<forall>i. in_scope p i \<longrightarrow> dec_rat (bot_size_of pj i) \<noteq> 0 \<longrightarrow> i \<in> (snd \<circ> fst) ` set actual)"
proof -
  from assms(2) obtain bots t t' s1 s2 where bots: "bot_positions p (pj_positions_by_product_id pj) = Inr bots"
    and exch: "audit_exchange_positions p pj bots actual (0, 0, []) s = (Inr t, s1)"
    and miss: "audit_missing_positions pj bots (missing_products bots (snd (snd t))) t s1 = (Inr t', s2)" and d: "drifts = fst t'"
    unfolding audit_position_drifts_def by (auto simp: prog_bind_Inr prog_lift_def prog_return_def)
  let ?agree = "\<forall>e \<in> set actual. in_scope p (snd (fst e)) \<longrightarrow> exchange_size_of (snd e) = dec_rat (bot_size_of pj (snd (fst e)))"
  from exchange_positions_run [OF bots assms(1) exch] have t: "0 \<le> fst t" "fst t = 0 \<longleftrightarrow> ?agree"
    and matched: "set (snd (snd t)) = set (map (\<lambda>e. snd (fst e)) (filter (matched_by p bots) actual))" by auto
  have in_bots: "dict_has bots i \<longleftrightarrow> in_scope p i \<and> dec_rat (bot_size_of pj i) \<noteq> 0" for i
  proof (cases "in_scope p i")
    case True
    with bots_or_flat [OF bots assms(1) True] show ?thesis by (cases "dict_get bots i") (auto simp: dict_has_def)
  next
    case False
    have "distinct (dict_keys (pj_positions_by_product_id pj))" using assms(1) by (simp add: comparable_def)
    with bot_positions_get [OF bots, of i] False show ?thesis by (simp add: dict_has_def split: option.split)
  qed
  have sizes: "decimal_of_json (jget (snd e) ''net_size'') \<noteq> None" if "e \<in> set actual" for e
    using assms(1) that unfolding comparable_def by (metis option.distinct(1))
  have seen: "i \<in> set (snd (snd t)) \<longleftrightarrow> i \<in> (snd \<circ> fst) ` set actual" if "dict_has bots i" for i
  proof
    show "i \<in> set (snd (snd t)) \<Longrightarrow> i \<in> (snd \<circ> fst) ` set actual" by (force simp: matched)
    assume "i \<in> (snd \<circ> fst) ` set actual"
    then obtain e where e: "e \<in> set actual" "snd (fst e) = i" by auto
    then have "matched_by p bots e" using that in_bots sizes by (simp add: matched_by_def)
    with e show "i \<in> set (snd (snd t))" by (auto simp: matched)
  qed
  have "set (missing_products bots (snd (snd t))) = {i. dict_has bots i \<and> i \<notin> set (snd (snd t))}"
    by (auto simp: missing_products_def dict_has_iff)
  then have "missing_products bots (snd (snd t)) = [] \<longleftrightarrow> (\<forall>i. dict_has bots i \<longrightarrow> i \<in> set (snd (snd t)))"
    using set_empty [of "missing_products bots (snd (snd t))"] by auto
  also have "\<dots> \<longleftrightarrow> (\<forall>i. in_scope p i \<longrightarrow> dec_rat (bot_size_of pj i) \<noteq> 0 \<longrightarrow> i \<in> (snd \<circ> fst) ` set actual)"
    using seen in_bots by blast
  finally have none: "length (missing_products bots (snd (snd t))) = 0 \<longleftrightarrow>
      (\<forall>i. in_scope p i \<longrightarrow> dec_rat (bot_size_of pj i) \<noteq> 0 \<longrightarrow> i \<in> (snd \<circ> fst) ` set actual)" by simp
  have "drifts = fst t + int (length (missing_products bots (snd (snd t))))" using missing_positions_run [OF miss] d by simp
  with t none show ?thesis by auto
qed

subsection \<open>A size that is no number\<close>

lemma bot_in_scope: "bot_positions p ps = Inr bots \<Longrightarrow> (i, pos) \<in> set bots \<Longrightarrow> in_scope p i"
  by (induction ps arbitrary: bots) (auto simp: res_bind_Inr split: if_splits)

lemma nan_not_compared: "beyond_tolerance p x (DNaN b False) = Inl invalid_operation"
proof -
  have nan: "dec_cmp a (DNaN s g) = None" for a s g by (cases a) simp_all
  show ?thesis
    by (cases x) (auto simp: beyond_tolerance_def dec_sub_def dec_add_def with_numbers_def nan_operand_def dec_lt_def nan)
qed

lemma snapshot_fields:
  "f \<notin> {''observed_at'', ''venue''} \<Longrightarrow> jget (snapshot_payload (JObj q) venue now) f = jget q f"
  "jget (snapshot_payload j (Some v) now) ''venue'' = JStr (product_venue_value v)"
  by (auto simp: snapshot_payload_def Let_def jget_def payload_dict_def split: option.split)

text \<open>
  C37. The text NaN passes the contract of a position snapshot. When the bot holds the product, the comparison with the
  tolerance raises InvalidOperation: the reconciliation ends with the snapshot in the ledger and no drift audited, now
  and in every later run while the exchange answers so.
\<close>

theorem nan_position_stops_audit:
  assumes "core_ok c" and "core_projection c = Inr pj"
    and "bot_positions p (pj_positions_by_product_id pj) = Inr bots" and "dict_get bots i = Some pos" and "i \<noteq> []"
    and "esp_perpetual_portfolio_uuid p = None"
    and "plc_us_futures client (vn_world v) = (Inr lk, w)" and "pol_status lk = ELS_FOUND" and "pol_positions lk = [JObj q]"
    and "jget q ''product_id'' = JStr i" and "jget q ''net_size'' = JStr t" and "dec_parse t = Some (DNaN b False)"
  shows "\<exists>c' v' q'. reconcile_exchange_state p None (Some client) (c, v) = (Inl invalid_operation, (c', v')) \<and>
    extends_ledger c [(ET_EXCHANGE_POSITION_SNAPSHOT, q')] c' \<and> jget q' ''net_size'' = JStr t"
proof -
  have scope: "in_scope p i" using bot_in_scope [OF assms(3)] assms(4) by (blast dest: map_of_SomeD)
  have "dec_parse [] = None" by code_simp
  with assms(12) have t: "t \<noteq> []" by auto
  let ?snap = "\<lambda>now. snapshot_payload (JObj q) (Some PV_FCM) now"
  have fields: "string_or_none (jget (?snap now) ''product_id'') = Some i" "jget (?snap now) ''net_size'' = JStr t" for now
    by (simp_all add: snapshot_fields assms(5,10,11) string_or_none_def)
  have "product_venue_of ''FCM'' = Some PV_FCM" by (simp add: product_venue_of_def enum_lookup_def product_venue_members_def)
  with fields t assms(12) have valid: "snapshot_valid (validate_position_snapshot (?snap now))" for now
    by (simp add: validate_position_snapshot_def snapshot_valid_def require_text_def no_violations_def validate_required_venue_def
        validate_net_size_def snapshot_fields string_or_none_def)
  have audit: "audit_position_drifts p pj [((PV_FCM, i), ?snap now)] s = (Inl invalid_operation, s)" for now and s :: "core \<times> 'a venue"
    by (simp add: audit_position_drifts_def assms(3,4,12) prog_bind_def prog_lift_def audit_exchange_position_def scope fields
        decimal_of_json_def Let_def nan_not_compared)
  let ?P = "\<lambda>x es (s :: core \<times> 'a venue). x = Inl invalid_operation \<and>
    (\<exists>q'. es = [(ET_EXCHANGE_POSITION_SNAPSHOT, q')] \<and> jget q' ''net_size'' = JStr t)"
  have asked: "ask (plc_us_futures client) (c, v) = (Inr lk, (c, v\<lparr>vn_world := w\<rparr>))"
    by (simp add: ask_def on_local_def assms(7))
  have ended: "concludes (audit_position_drifts p pj [((PV_FCM, i), ?snap now)]) s (\<lambda>x es s'. x = Inl invalid_operation \<and> es = [])"
    if "core_ok (fst s)" for now and s :: "core \<times> 'a venue"
    unfolding concludes_def by (intro exI [of _ "Inl invalid_operation"] exI [of _ "[]"] exI [of _ s])
      (simp add: audit named_def extends_ledger_refl [OF that])
  have recorded: "concludes (prog_bind (record_lookups [(PV_FCM, lk)] (0, [], 0)) (\<lambda>(snapshots, actual, errors).
       prog_bind (if Some client \<noteq> None \<and> errors = 0 then audit_position_drifts p pj actual else prog_return (0, 0))
         (\<lambda>(drifts, news). prog_return (result snapshots errors drifts news)))) (c, v\<lparr>vn_world := w\<rparr>) ?P"
    for result :: "int \<Rightarrow> int \<Rightarrow> int \<Rightarrow> int \<Rightarrow> exchange_state_result"
  proof -
    have step: "record_lookups [(PV_FCM, lk)] (0, [], 0) = prog_bind venue_now (\<lambda>now.
       prog_bind (on_core (emit_object ET_EXCHANGE_POSITION_SNAPSHOT (?snap now))) (\<lambda>_.
         prog_return (1, [((PV_FCM, i), ?snap now)], 0)))"
      by (simp add: assms(8,9) record_position_def Let_def valid fields prog_bind_assoc prog_bind_unit)
    show ?thesis
      unfolding step prog_bind_assoc prog_bind_unit prod.case
      by (rule concludes_venue_now, rule concludes_emit, simp add: assms(1), rule concludes_bind,
          simp, rule ended, simp) (auto simp: fields)
  qed
  have "concludes (reconcile_exchange_state p None (Some client)) (c, v) ?P"
    unfolding reconcile_exchange_state_def snapshot_accounts_def snapshot_positions_def position_lookups_def option.case
      prog_bind_unit prod.case assms(6) prog_bind_assoc
    by (rule concludes_state [where x = pj and s' = "(c, v)"], simp add: on_core_def assms(2), simp,
        rule concludes_state, rule asked, simp, rule recorded [of "\<lambda>snapshots errors drifts news. \<lparr>esr_balance_snapshots = 0,
          esr_drift_count = drifts, esr_error_count = 0 + errors, esr_position_snapshots = snapshots,
          esr_new_drift_record_count = news\<rparr>"])
  then show ?thesis
  proof (rule concludesE)
    fix x es and s' :: "core \<times> 'a venue"
    assume "reconcile_exchange_state p None (Some client) (c, v) = (x, s')" "extends_ledger (fst (c, v)) es (fst s')" "?P x es s'"
    then show ?thesis by (cases s') auto
  qed
qed

subsection \<open>A bot with one position\<close>

definition filled_core :: core where
  "filled_core = snd (emit_object ET_EXCHANGE_FILL
     [(''fill_id'', JStr ''f1''), (''product_id'', JStr ''BTC-PERP''), (''side'', JStr ''BUY''), (''size'', JStr ''2''),
      (''price'', JStr ''10'')] sample_core)"

definition open_policy :: exchange_state_policy where
  "open_policy = \<lparr>esp_account_page_limit = 250, esp_max_account_pages = 10, esp_position_product_ids = [],
     esp_position_size_tolerance = ''0'', esp_retail_portfolio_id = None, esp_perpetual_portfolio_uuid = None\<rparr>"

definition answer_position :: "string \<Rightarrow> unit position_client" where
  "answer_position t =
     \<lparr>plc_us_futures = (\<lambda>w. (Inr \<lparr>pol_status = ELS_FOUND, pol_status_code = 200,
        pol_positions = [JObj [(''product_id'', JStr ''BTC-PERP''), (''net_size'', JStr t)]],
        pol_error_code = None, pol_error_message = None\<rparr>, w)),
      plc_perpetual = (\<lambda>u w. (Inl (value_error ''unused''), w))\<rparr>"

lemma filled_core_ok: "core_ok filled_core"
  unfolding filled_core_def by (rule emitted_core_ok [OF sample_core_ok])

lemma filled_bots:
  "case core_projection filled_core of
     Inr pj \<Rightarrow> (case bot_positions open_policy (pj_positions_by_product_id pj) of
       Inr bots \<Rightarrow> map_option pos_net_size (dict_get bots ''BTC-PERP'') = Some ''2'' \<and>
         map fst (pj_positions_by_product_id pj) = [''BTC-PERP''] | Inl e \<Rightarrow> False)
   | Inl e \<Rightarrow> False"
  by code_simp

lemma filled_replayed:
  obtains pj bots pos where "core_projection filled_core = Inr pj"
    and "bot_positions open_policy (pj_positions_by_product_id pj) = Inr bots"
    and "dict_get bots ''BTC-PERP'' = Some pos" and "pos_net_size pos = ''2''"
    and "map fst (pj_positions_by_product_id pj) = [''BTC-PERP'']"
  using filled_bots by (auto split: sum.splits)

theorem nan_position_stops_audit_witness:
  "\<exists>c' v' q'. reconcile_exchange_state open_policy None (Some (answer_position ''nan'')) (filled_core, sample_venue ()) =
      (Inl invalid_operation, (c', v')) \<and>
    extends_ledger filled_core [(ET_EXCHANGE_POSITION_SNAPSHOT, q')] c' \<and> jget q' ''net_size'' = JStr ''nan''"
proof -
  obtain pj bots pos where pj: "core_projection filled_core = Inr pj"
    and bots: "bot_positions open_policy (pj_positions_by_product_id pj) = Inr bots"
    and pos: "dict_get bots ''BTC-PERP'' = Some pos" by (rule filled_replayed)
  have nan: "dec_parse ''nan'' = Some (DNaN False False)" by code_simp
  show ?thesis
    by (rule nan_position_stops_audit [OF filled_core_ok pj bots pos _ _ _ _ _ _ _ nan,
          where q = "[(''product_id'', JStr ''BTC-PERP''), (''net_size'', JStr ''nan'')]"
            and lk = "\<lparr>pol_status = ELS_FOUND, pol_status_code = 200,
              pol_positions = [JObj [(''product_id'', JStr ''BTC-PERP''), (''net_size'', JStr ''nan'')]],
              pol_error_code = None, pol_error_message = None\<rparr>"])
      (simp_all add: open_policy_def answer_position_def jget_def)
qed

lemma answer_honest: "honest_position_client (answer_position t)"
  by (simp add: honest_position_client_def answer_position_def named_def)

lemma drift_run:
  "case reconcile_exchange_state open_policy None (Some (answer_position ''3'')) (filled_core, sample_venue ()) of
     (x, s) \<Rightarrow> (case x of Inr r \<Rightarrow> esr_drift_count r = 1 \<and> esr_new_drift_record_count r = 1 | Inl e \<Rightarrow> False) \<and>
       recorded_drift_keys (core_records (fst s)) = [''position_size_drift:FCM:BTC-PERP:2:3'']"
  by code_simp



lemma agreeing_run:
  "case core_projection filled_core of
     Inr pj \<Rightarrow> (case audit_position_drifts open_policy pj [((PV_FCM, ''BTC-PERP''), [(''net_size'', JStr ''2'')])]
         (filled_core, sample_venue ()) of (Inr y, s) \<Rightarrow> True | (Inl e, s) \<Rightarrow> False)
   | Inl e \<Rightarrow> False"
  by code_simp

theorem no_drift_iff_positions_agree_witness:
  "\<exists>pj drifts news s'. core_projection filled_core = Inr pj \<and>
     audit_position_drifts open_policy pj [((PV_FCM, ''BTC-PERP''), [(''net_size'', JStr ''2'')])] (filled_core, sample_venue ()) =
       (Inr (drifts, news), s') \<and> drifts = 0"
proof -
  obtain pj bots pos where pj: "core_projection filled_core = Inr pj"
    and bots: "bot_positions open_policy (pj_positions_by_product_id pj) = Inr bots"
    and pos: "dict_get bots ''BTC-PERP'' = Some pos" "pos_net_size pos = ''2''"
    and keys: "map fst (pj_positions_by_product_id pj) = [''BTC-PERP'']" by (rule filled_replayed)
  let ?actual = "[((PV_FCM, ''BTC-PERP''), [(''net_size'', JStr ''2'')])]"
  have two: "dec_parse ''2'' = Some (DFin False 2 0)" "dec_parse ''0'' = Some (DFin False 0 0)" by code_simp+
  have tiny: "dec_etiny \<le> 0" by (simp add: dec_etiny_def dec_emin_def dec_prec_def)
  from bot_positions_get [OF bots, of "''BTC-PERP''"] pos keys
  have get: "dict_get (pj_positions_by_product_id pj) ''BTC-PERP'' = Some pos"
    by (cases "dict_get (pj_positions_by_product_id pj) ''BTC-PERP''") (auto split: if_splits)
  have size: "bot_size_of pj i = (if i = ''BTC-PERP'' then DFin False 2 0 else dec_zero)" for i
  proof (cases "i = ''BTC-PERP''")
    case True
    with get pos(2) show ?thesis by (simp add: bot_size_of_def decimal_or_zero_def decimal_or_none_def two)
  next
    case False
    then have "dict_get (pj_positions_by_product_id pj) i = None" using keys by (simp add: map_of_eq_None_iff flip: set_map)
    with False show ?thesis by (simp add: bot_size_of_def)
  qed
  have comparable: "comparable open_policy pj ?actual"
    using keys tiny by (auto simp: comparable_def open_policy_def decimal_or_zero_def decimal_or_none_def two usable_size_def size
        dec_zero_def decimal_of_json_def jget_def)
  have "\<exists>d n s'. audit_position_drifts open_policy pj ?actual (filled_core, sample_venue ()) = (Inr (d, n), s')"
    using agreeing_run by (auto simp: pj split: sum.splits prod.splits)
  then obtain d n s' where run: "audit_position_drifts open_policy pj ?actual (filled_core, sample_venue ()) = (Inr (d, n), s')" by blast
  have "d = 0" using no_drift_iff_positions_agree [OF comparable run]
    by (auto simp: size exchange_size_of_def decimal_of_json_def jget_def two dec_zero_def signed_def)
  with pj run show ?thesis by blast
qed

end
