(* ===== verification/Json_Text.thy ===== *)
theory Json_Text
  imports Decimal_Text Floats
begin

text \<open>
  The text of JSON values read back: \<^verbatim>\<open>json.loads\<close> as \<^verbatim>\<open>audit/ledger.py\<close> applies it to a line of the
  ledger. The scanner follows the standard library's (white space, the grammar of numbers, the literals
  \<^verbatim>\<open>NaN\<close> and \<^verbatim>\<open>Infinity\<close>, the last of two equal keys). Characters are the ones below 256, so the reader
  refuses an escape of a later one, which the library accepts. The text of a decoding error is left out,
  for every caller replaces it.
\<close>

subsection \<open>What a text is read as\<close>

datatype raw =
    RNull
  | RBool bool
  | RInt int
  | RFloat pyfloat
  | RNan
  | RInfinity bool
  | RStr string
  | RList "raw list"
  | RObj "(string \<times> raw) list"

fun pyval_of_raw :: "raw \<Rightarrow> pyval" where
  "pyval_of_raw RNull = PvNone"
| "pyval_of_raw (RBool b) = PvBool b"
| "pyval_of_raw (RInt i) = PvInt i"
| "pyval_of_raw (RFloat f) = PvFloat f"
| "pyval_of_raw RNan = PvNonFinite"
| "pyval_of_raw (RInfinity s) = PvNonFinite"
| "pyval_of_raw (RStr s) = PvStr s"
| "pyval_of_raw (RList xs) = PvSequence (map pyval_of_raw xs)"
| "pyval_of_raw (RObj kvs) = PvMapping (map (\<lambda>(k, v). (k, pyval_of_raw v)) kvs)"

definition json_decode_error :: pyexc where
  "json_decode_error = PyExc ''JSONDecodeError'' [] None"

definition unread_character :: pyexc where
  "unread_character = PyExc ''UnreadCharacter'' [] None"

definition scan_exhausted :: pyexc where
  "scan_exhausted = PyExc ''RecursionError'' [] None"

subsection \<open>Strings and numbers\<close>

definition json_space :: "char \<Rightarrow> bool" where
  "json_space c \<longleftrightarrow> c \<in> {CHR '' '', CHR 0x09, CHR 0x0A, CHR 0x0D}"

definition skip_space :: "string \<Rightarrow> string" where
  "skip_space s = dropWhile json_space s"

definition hex_digit :: "char \<Rightarrow> nat option" where
  "hex_digit c = (let n = (of_char c :: nat) in
     if is_digit c then Some (n - 48)
     else if 97 \<le> n \<and> n \<le> 102 then Some (n - 87)
     else if 65 \<le> n \<and> n \<le> 70 then Some (n - 55)
     else None)"

fun hex_value :: "nat \<Rightarrow> string \<Rightarrow> nat option" where
  "hex_value acc [] = Some acc"
| "hex_value acc (c # cs) = (case hex_digit c of None \<Rightarrow> None | Some d \<Rightarrow> hex_value (16 * acc + d) cs)"

definition hex_escape :: "string \<Rightarrow> nat option" where
  "hex_escape s = (if length s < 4 then None else hex_value 0 (take 4 s))"

definition plain_escape :: "char \<Rightarrow> char option" where
  "plain_escape c =
     (if c = CHR 0x22 \<or> c = CHR 0x5C \<or> c = CHR ''/'' then Some c
      else if c = CHR ''b'' then Some (CHR 0x08)
      else if c = CHR ''f'' then Some (CHR 0x0C)
      else if c = CHR ''n'' then Some (CHR 0x0A)
      else if c = CHR ''r'' then Some (CHR 0x0D)
      else if c = CHR ''t'' then Some (CHR 0x09)
      else None)"

definition add_char :: "char \<Rightarrow> (string \<times> string) res \<Rightarrow> (string \<times> string) res" where
  "add_char c r = res_bind r (\<lambda>(t, q). Inr (c # t, q))"

text \<open>The characters after the opening quote, up to the closing one; a raw control character is refused.\<close>

fun scan_string :: "string \<Rightarrow> (string \<times> string) res" where
  "scan_string [] = Inl json_decode_error"
| "scan_string (c # r) =
     (if c = CHR 0x22 then Inr ([], r)
      else if c = CHR 0x5C then
        (case r of
           [] \<Rightarrow> Inl json_decode_error
         | e # q \<Rightarrow>
             if e = CHR ''u'' then
               (case hex_escape q of
                  None \<Rightarrow> Inl json_decode_error
                | Some n \<Rightarrow> if n < 256 then add_char (char_of n) (scan_string (drop 4 q))
                            else Inl unread_character)
             else (case plain_escape e of
                     None \<Rightarrow> Inl json_decode_error
                   | Some d \<Rightarrow> add_char d (scan_string q)))
      else if (of_char c :: nat) < 32 then Inl json_decode_error
      else add_char c (scan_string r))"

text \<open>\<^verbatim>\<open>(-?(?:0|[1-9]\d*))(\.\d+)?([eE][-+]?\d+)?\<close>\<close>

definition scan_integer_part :: "string \<Rightarrow> string \<times> string" where
  "scan_integer_part s = (if take 1 s = ''0'' then (''0'', drop 1 s) else span_digits s)"

definition scan_fraction :: "string \<Rightarrow> string \<times> string" where
  "scan_fraction s =
     (if take 1 s = ''.'' \<and> fst (span_digits (drop 1 s)) \<noteq> [] then span_digits (drop 1 s) else ([], s))"

definition scan_exponent :: "string \<Rightarrow> int option \<times> string" where
  "scan_exponent s =
     (if take 1 s = ''e'' \<or> take 1 s = ''E'' then
        (case split_sign (drop 1 s) of (neg, q) \<Rightarrow>
           (case span_digits q of (ds, r) \<Rightarrow>
              if ds = [] then (None, s)
              else (Some (if neg then - int (digits_value ds) else int (digits_value ds)), r)))
      else (None, s))"

text \<open>\<^verbatim>\<open>float(text)\<close>: the nearest binary64 number, kept by its shortest text\<close>

definition read_float :: "bool \<Rightarrow> nat \<Rightarrow> int \<Rightarrow> raw" where
  "read_float neg c e =
     (case scaled c e of (n, d) \<Rightarrow>
        (case binary64 False n d of
           RFin q \<Rightarrow> (case shortest_float q of PyFloat _ c' e' \<Rightarrow> RFloat (PyFloat neg c' e'))
         | _ \<Rightarrow> RInfinity neg))"

text \<open>The interpreter reads at most 4300 digits into an integer.\<close>

definition read_integer :: "bool \<Rightarrow> string \<Rightarrow> raw res" where
  "read_integer neg ds =
     (if 4300 < length ds
      then Inl (value_error ''Exceeds the limit (4300 digits) for integer string conversion'')
      else Inr (RInt (if neg then - int (digits_value ds) else int (digits_value ds))))"

definition scan_number :: "string \<Rightarrow> (raw \<times> string) res" where
  "scan_number s =
     (let neg = (take 1 s = ''-''); (ip, r1) = scan_integer_part (if neg then drop 1 s else s);
          (fp, r2) = scan_fraction r1; (ex, r3) = scan_exponent r2
      in if ip = [] then Inl json_decode_error
         else if fp = [] \<and> ex = None then res_bind (read_integer neg ip) (\<lambda>v. Inr (v, r3))
         else Inr (read_float neg (digits_value (ip @ fp))
                     ((case ex of None \<Rightarrow> 0 | Some e \<Rightarrow> e) - int (length fp)), r3))"

subsection \<open>Values\<close>

definition literals :: "(string \<times> raw) list" where
  "literals = [(''null'', RNull), (''true'', RBool True), (''false'', RBool False),
               (''NaN'', RNan), (''Infinity'', RInfinity False), (''-Infinity'', RInfinity True)]"

definition scan_literal :: "string \<Rightarrow> (raw \<times> string) option" where
  "scan_literal s =
     map_option (\<lambda>(t, v). (v, drop (length t) s)) (List.find (\<lambda>(t, v). take (length t) s = t) literals)"

text \<open>
  \<open>scan_members\<close> starts after the opening quote of a key, \<open>scan_elements\<close> at an element. Every call
  consumes a character first or goes to the first element of a list, so a fuel of twice the length of the
  text is enough (\<open>json_loads_not_exhausted\<close>).
\<close>

fun scan_value :: "nat \<Rightarrow> string \<Rightarrow> (raw \<times> string) res"
and scan_members :: "nat \<Rightarrow> string \<Rightarrow> ((string \<times> raw) list \<times> string) res"
and scan_elements :: "nat \<Rightarrow> string \<Rightarrow> (raw list \<times> string) res" where
  "scan_value 0 s = Inl scan_exhausted"
| "scan_value (Suc n) s =
     (case s of
        [] \<Rightarrow> Inl json_decode_error
      | c # r \<Rightarrow>
          if c = CHR 0x22 then res_bind (scan_string r) (\<lambda>(t, q). Inr (RStr t, q))
          else if c = CHR 0x7B then
            (case skip_space r of
               [] \<Rightarrow> Inl json_decode_error
             | d # q \<Rightarrow>
                 if d = CHR 0x7D then Inr (RObj [], q)
                 else if d = CHR 0x22 then
                   res_bind (scan_members n q) (\<lambda>(kvs, q'). Inr (RObj (dict_of_items kvs), q'))
                 else Inl json_decode_error)
          else if c = CHR 0x5B then
            (if take 1 (skip_space r) = [CHR 0x5D] then Inr (RList [], drop 1 (skip_space r))
             else res_bind (scan_elements n (skip_space r)) (\<lambda>(xs, q). Inr (RList xs, q)))
          else (case scan_literal s of Some vq \<Rightarrow> Inr vq | None \<Rightarrow> scan_number s))"
| "scan_members 0 s = Inl scan_exhausted"
| "scan_members (Suc n) s =
     res_bind (scan_string s) (\<lambda>(k, q).
       if take 1 (skip_space q) \<noteq> '':'' then Inl json_decode_error
       else res_bind (scan_value n (skip_space (drop 1 (skip_space q)))) (\<lambda>(v, q2).
         (case skip_space q2 of
            [] \<Rightarrow> Inl json_decode_error
          | d # q3 \<Rightarrow>
              if d = CHR 0x7D then Inr ([(k, v)], q3)
              else if d = CHR '','' \<and> take 1 (skip_space q3) = [CHR 0x22] then
                res_bind (scan_members n (drop 1 (skip_space q3))) (\<lambda>(kvs, q4). Inr ((k, v) # kvs, q4))
              else Inl json_decode_error)))"
| "scan_elements 0 s = Inl scan_exhausted"
| "scan_elements (Suc n) s =
     res_bind (scan_value n s) (\<lambda>(v, q).
       (case skip_space q of
          [] \<Rightarrow> Inl json_decode_error
        | d # q2 \<Rightarrow>
            if d = CHR 0x5D then Inr ([v], q2)
            else if d = CHR '','' then
              res_bind (scan_elements n (skip_space q2)) (\<lambda>(vs, q3). Inr (v # vs, q3))
            else Inl json_decode_error))"

definition json_loads :: "string \<Rightarrow> raw res" where
  "json_loads s =
     res_bind (scan_value (Suc (2 * length s)) (skip_space s)) (\<lambda>(v, q).
       if skip_space q = [] then Inr v else Inl json_decode_error)"


subsection \<open>Enough fuel\<close>

lemma length_dropWhile_le': "length (dropWhile P s) \<le> length s"
  by (rule length_dropWhile_le)

lemma length_skip_space: "length (skip_space s) \<le> length s"
  by (simp add: skip_space_def length_dropWhile_le)

lemma add_char_Inr: "add_char c r = Inr (t, q) \<longleftrightarrow> (\<exists>t'. r = Inr (t', q) \<and> t = c # t')"
  by (auto simp: add_char_def res_bind_Inr)

lemma add_char_Inl: "add_char c r = Inl e \<longleftrightarrow> r = Inl e"
  by (auto simp: add_char_def res_bind_Inl)

lemma scan_string_shorter: "scan_string s = Inr (t, q) \<Longrightarrow> length q < length s"
proof (induction s arbitrary: t rule: scan_string.induct)
  case (2 c r)
  then show ?case
    by (force simp: add_char_Inr split: if_splits list.splits option.splits)
qed simp

lemma scan_string_not_exhausted: "scan_string s \<noteq> Inl scan_exhausted"
proof (induction s rule: scan_string.induct)
  case (2 c r)
  then show ?case
    by (auto simp: add_char_Inl json_decode_error_def scan_exhausted_def unread_character_def
        split: list.splits option.splits)
qed (simp add: json_decode_error_def scan_exhausted_def)

lemma length_span_digits: "span_digits s = (ds, q) \<Longrightarrow> length s = length ds + length q"
  using arg_cong [OF takeWhile_dropWhile_id [of is_digit s], of length]
  by (auto simp: span_digits_def)

lemma length_split_sign: "split_sign s = (neg, q) \<Longrightarrow> length q \<le> length s"
  by (auto simp: split_sign_def split: list.splits if_splits)

lemma length_scan_integer_part: "scan_integer_part s = (ip, q) \<Longrightarrow> length s = length ip + length q"
  by (cases s) (auto simp: scan_integer_part_def split: if_splits dest!: length_span_digits)

lemma length_scan_fraction: "scan_fraction s = (fp, q) \<Longrightarrow> length q \<le> length s"
  using length_span_digits by (fastforce simp: scan_fraction_def split: if_splits)

lemma length_scan_exponent: "scan_exponent s = (ex, q) \<Longrightarrow> length q \<le> length s"
  using length_span_digits length_split_sign
  by (fastforce simp: scan_exponent_def split: if_splits prod.splits)

lemma scan_number_shorter: "scan_number s = Inr (v, q) \<Longrightarrow> length q < length s"
proof -
  assume v: "scan_number s = Inr (v, q)"
  define s' where "s' = (if take 1 s = ''-'' then drop 1 s else s)"
  obtain ip r1 where ip: "scan_integer_part s' = (ip, r1)" by force
  obtain fp r2 where fp: "scan_fraction r1 = (fp, r2)" by force
  obtain ex r3 where ex: "scan_exponent r2 = (ex, r3)" by force
  from v [unfolded scan_number_def Let_def, folded s'_def] have "ip \<noteq> []" "q = r3"
    by (auto simp: ip fp ex res_bind_Inr split: if_splits)
  moreover have "length s' \<le> length s" by (simp add: s'_def)
  ultimately show "length q < length s"
    using length_scan_integer_part [OF ip] length_scan_fraction [OF fp] length_scan_exponent [OF ex]
    by (cases ip) auto
qed

lemma scan_number_not_exhausted: "scan_number s \<noteq> Inl scan_exhausted"
  by (auto simp: scan_number_def Let_def res_bind_Inl read_integer_def json_decode_error_def scan_exhausted_def
      split: prod.splits)

lemma scan_literal_shorter: "scan_literal s = Some (v, q) \<Longrightarrow> length q < length s"
  by (cases s) (auto simp: scan_literal_def literals_def split: if_splits)


lemma drop_one_shorter: "take 1 s = [c] \<Longrightarrow> length (drop 1 s) < length s"
  by (cases s) auto

lemma scan_shorter:
  "scan_value n s = Inr (v, q) \<Longrightarrow> length q < length s"
  "scan_members n s = Inr (kvs, q) \<Longrightarrow> length q < length s"
  "scan_elements n s = Inr (vs, q) \<Longrightarrow> length q < length s"
proof (induction n s and n s and n s arbitrary: v q and kvs q and vs q
    rule: scan_value_scan_members_scan_elements.induct)
  case (2 n s)
  show ?case
  proof (cases s)
    case Nil
    with "2.prems" show ?thesis by simp
  next
    case (Cons c r)
    have sp: "length (skip_space r) \<le> length r" by (rule length_skip_space)
    consider "c = CHR 0x22" | "c = CHR 0x7B" | "c = CHR 0x5B"
      | "c \<noteq> CHR 0x22" "c \<noteq> CHR 0x7B" "c \<noteq> CHR 0x5B" by blast
    then show ?thesis
    proof cases
      case 1
      with Cons "2.prems" show ?thesis by (auto simp: res_bind_Inr dest!: scan_string_shorter)
    next
      case 2
      with Cons "2.prems" sp show ?thesis
        by (auto simp: res_bind_Inr split: list.splits if_splits dest!: "2.IH"(1) [rotated -1])
    next
      case 3
      with Cons "2.prems" sp show ?thesis
        by (auto simp: res_bind_Inr split: list.splits if_splits dest!: "2.IH"(2) [rotated -1])
    next
      case 4
      with Cons "2.prems" show ?thesis
        using scan_literal_shorter [of s] scan_number_shorter [of s]
        by (auto split: option.splits)
    qed
  qed
next
  case (4 n s)
  from "4.prems" obtain k q1 v q2
    where key: "scan_string s = Inr (k, q1)" and colon: "take 1 (skip_space q1) = '':''"
      and val: "scan_value n (skip_space (drop 1 (skip_space q1))) = Inr (v, q2)"
    by (auto simp: res_bind_Inr split: if_splits)
  have q2: "length q2 < length s"
    using "4.IH"(1) [OF _ val] scan_string_shorter [OF key] colon
      length_skip_space [of q1] length_skip_space [of "drop 1 (skip_space q1)"] by simp
  have sp: "length (skip_space q2) \<le> length q2" by (rule length_skip_space)
  show ?case
  proof (cases "skip_space q2")
    case Nil
    with "4.prems" key colon val show ?thesis by simp
  next
    case (Cons d q3)
    show ?thesis
    proof (cases "d = CHR 0x7D")
      case True
      with Cons "4.prems" key colon val q2 sp show ?thesis by simp
    next
      case False
      with Cons "4.prems" key colon val
      obtain kvs' q4 where d: "d = CHR '',''" "take 1 (skip_space q3) = [CHR 0x22]"
        and rest: "scan_members n (drop 1 (skip_space q3)) = Inr (kvs', q4)" "q = q4"
        by (auto simp: res_bind_Inr split: if_splits)
      have "length q4 < length (drop 1 (skip_space q3))"
        by (rule "4.IH"(2) [OF _ Cons]) (use colon d rest False in auto)
      with q2 sp Cons rest length_skip_space [of q3] show ?thesis by simp
    qed
  qed
next
  case (6 n s)
  from "6.prems" obtain v q2 where val: "scan_value n s = Inr (v, q2)" by (auto simp: res_bind_Inr)
  have q2: "length q2 < length s" by (rule "6.IH"(1) [OF val])
  have sp: "length (skip_space q2) \<le> length q2" by (rule length_skip_space)
  show ?case
  proof (cases "skip_space q2")
    case Nil
    with "6.prems" val show ?thesis by simp
  next
    case (Cons d q3)
    show ?thesis
    proof (cases "d = CHR 0x5D")
      case True
      with Cons "6.prems" val q2 sp show ?thesis by simp
    next
      case False
      with Cons "6.prems" val
      obtain vs' q4 where d: "d = CHR '',''" and rest: "scan_elements n (skip_space q3) = Inr (vs', q4)" "q = q4"
        by (auto simp: res_bind_Inr split: if_splits)
      have "length q4 < length (skip_space q3)"
        by (rule "6.IH"(2) [OF Cons]) (use d rest False in auto)
      with q2 sp Cons rest length_skip_space [of q3] show ?thesis by simp
    qed
  qed
qed simp_all

lemma scan_error_not_exhausted [simp]: "json_decode_error \<noteq> scan_exhausted"
  by (simp add: json_decode_error_def scan_exhausted_def)

lemma scan_not_exhausted:
  "2 * length s < n \<Longrightarrow> scan_value n s \<noteq> Inl scan_exhausted"
  "2 * length s < n \<Longrightarrow> scan_members n s \<noteq> Inl scan_exhausted"
  "Suc (2 * length s) < n \<Longrightarrow> scan_elements n s \<noteq> Inl scan_exhausted"
proof (induction n s and n s and n s rule: scan_value_scan_members_scan_elements.induct)
  case (2 n s)
  show ?case
  proof (cases s)
    case Nil
    then show ?thesis by simp
  next
    case (Cons c r)
    have "length (skip_space r) \<le> length r" by (rule length_skip_space)
    with Cons "2.prems" have r: "Suc (2 * length (skip_space r)) < n" by simp
    have members: "scan_members n q \<noteq> Inl scan_exhausted" if "c = CHR 0x7B" "skip_space r = CHR 0x22 # q" for q
      by (rule "2.IH"(1) [OF Cons _ that(1) that(2)]) (use that r in auto)
    have elements: "scan_elements n (skip_space r) \<noteq> Inl scan_exhausted"
      if "c = CHR 0x5B" "take 1 (skip_space r) \<noteq> [CHR 0x5D]"
      by (rule "2.IH"(2) [OF Cons _ _ that]) (use that r in auto)
    from Cons show ?thesis
      using members elements scan_number_not_exhausted [of s] scan_string_not_exhausted [of r]
      by (auto simp: res_bind_Inl split: list.splits option.splits)
  qed
next
  case (4 n s)
  show ?case
  proof (rule notI)
    assume e: "scan_members (Suc n) s = Inl scan_exhausted"
    then obtain k q1 where key: "scan_string s = Inr (k, q1)" and colon: "take 1 (skip_space q1) = '':''"
      using scan_string_not_exhausted [of s] by (auto simp: res_bind_Inl split: if_splits)
    define t where "t = skip_space (drop 1 (skip_space q1))"
    have t: "2 * length t < n"
      using scan_string_shorter [OF key] "4.prems" length_skip_space [of q1]
        length_skip_space [of "drop 1 (skip_space q1)"] unfolding t_def by simp
    have "scan_value n t \<noteq> Inl scan_exhausted"
      unfolding t_def by (rule "4.IH"(1)) (use colon t [unfolded t_def] in auto)
    with e key colon obtain v q2 where val: "scan_value n t = Inr (v, q2)"
      by (cases "scan_value n t") (auto simp: t_def)
    with e key colon obtain d q3 where d: "skip_space q2 = d # q3" "d \<noteq> CHR 0x7D" "d = CHR '',''"
        "take 1 (skip_space q3) = [CHR 0x22]"
      and rest: "scan_members n (drop 1 (skip_space q3)) = Inl scan_exhausted"
      by (auto simp: t_def res_bind_Inl split: list.splits if_splits)
    have "2 * length (drop 1 (skip_space q3)) < n"
      using scan_shorter(1) [OF val] t d(1) length_skip_space [of q2] length_skip_space [of q3] by simp
    then have "scan_members n (drop 1 (skip_space q3)) \<noteq> Inl scan_exhausted"
      by (intro "4.IH"(2) [OF _ d(1)]) (use colon d in auto)
    with rest show False by simp
  qed
next
  case (6 n s)
  show ?case
  proof (rule notI)
    assume e: "scan_elements (Suc n) s = Inl scan_exhausted"
    have s: "2 * length s < n" using "6.prems" by simp
    then have "scan_value n s \<noteq> Inl scan_exhausted" by (rule "6.IH"(1))
    with e obtain v q2 where val: "scan_value n s = Inr (v, q2)"
      by (cases "scan_value n s") auto
    with e obtain d q3 where d: "skip_space q2 = d # q3" "d \<noteq> CHR 0x5D" "d = CHR '',''"
      and rest: "scan_elements n (skip_space q3) = Inl scan_exhausted"
      by (auto simp: res_bind_Inl split: list.splits if_splits)
    have "Suc (2 * length (skip_space q3)) < n"
      using scan_shorter(1) [OF val] s d(1) length_skip_space [of q2] length_skip_space [of q3] by simp
    then have "scan_elements n (skip_space q3) \<noteq> Inl scan_exhausted"
      by (intro "6.IH"(2) [OF d(1)]) (use d in auto)
    with rest show False by simp
  qed
qed simp_all

text \<open>The fuel of \<open>json_loads\<close> is enough for every text.\<close>

lemma json_loads_not_exhausted: "json_loads s \<noteq> Inl scan_exhausted"
proof -
  have "2 * length (skip_space s) < Suc (2 * length s)" using length_skip_space [of s] by simp
  from scan_not_exhausted(1) [OF this] show ?thesis
    by (auto simp: json_loads_def res_bind_Inl json_decode_error_def scan_exhausted_def split: if_splits)
qed

end
