(* ===== verification/Json_Roundtrip.thy ===== *)
theory Json_Roundtrip
  imports Json_Text Rounding
begin

text \<open>
  The canonical text of a JSON value is read back as that value with the keys of every object in order, so
  that two values with the same canonical text, and with it the same digest, differ in the order of their
  keys only.
\<close>

subsection \<open>Strings\<close>

lemma hex_digit_char: "d < 16 \<Longrightarrow> hex_digit (hex_char d) = Some d"
  by (cases "d < 10") (auto simp: hex_digit_def hex_char_def is_digit_def)

lemma hex_digit_zero: "hex_digit (CHR ''0'') = Some 0"
  by (simp add: hex_digit_def is_digit_def)

lemma scan_string_escaped: "scan_string (escape_char c @ s) = add_char c (scan_string s)"
proof -
  define n where "n = (of_char c :: nat)"
  have n: "n < 256" and c: "c = char_of n" by (simp_all add: n_def)
  have code: "c = d" if "n = of_char d" for d using that by (simp add: n_def)
  have named: "c \<in> {CHR 0x22, CHR 0x5C, CHR 0x0A, CHR 0x0D, CHR 0x09, CHR 0x0C, CHR 0x08}"
    if "n \<in> {34, 92, 10, 13, 9, 12, 8}"
    using that code [of "CHR 0x22"] code [of "CHR 0x5C"] code [of "CHR 0x0A"] code [of "CHR 0x0D"]
      code [of "CHR 0x09"] code [of "CHR 0x0C"] code [of "CHR 0x08"] by auto
  consider "n \<in> {34, 92, 10, 13, 9, 12, 8}" | "32 \<le> n" "n \<le> 126" "n \<noteq> 34" "n \<noteq> 92"
    | "\<not> (32 \<le> n \<and> n \<le> 126)" "n \<notin> {8, 9, 10, 12, 13}" by auto
  then show ?thesis
  proof cases
    case 1
    then show ?thesis using named by (auto simp: escape_char_def plain_escape_def)
  next
    case 2
    then have "c \<noteq> CHR 0x22" "c \<noteq> CHR 0x5C" by (auto simp: n_def)
    with 2 show ?thesis by (simp add: escape_char_def n_def [symmetric])
  next
    case 3
    then have e: "escape_char c = CHR 0x5C # ''u00'' @ [hex_char (n div 16), hex_char (n mod 16)]"
      by (auto simp: escape_char_def n_def [symmetric] Let_def)
    have "hex_escape (''00'' @ [hex_char (n div 16), hex_char (n mod 16)] @ s) = Some n"
      using n by (simp add: hex_escape_def hex_digit_char hex_digit_zero)
    with e n c show ?thesis by simp
  qed
qed

lemma scan_string_text: "scan_string (concat (map escape_char t) @ CHR 0x22 # s) = Inr (t, s)"
  by (induction t) (simp_all add: scan_string_escaped add_char_def)

subsection \<open>Numbers\<close>

definition number_stop :: "string \<Rightarrow> bool" where
  "number_stop s \<longleftrightarrow> stops s \<and> take 1 s \<notin> {''.'', ''e'', ''E''}"

lemma number_stop_simps [simp]:
  "number_stop []" "number_stop (CHR '','' # s)" "number_stop (CHR 0x5D # s)" "number_stop (CHR 0x7D # s)"
  by (simp_all add: number_stop_def is_digit_def)

definition plain_integer :: "string \<Rightarrow> bool" where
  "plain_integer ds \<longleftrightarrow> ds \<noteq> [] \<and> list_all is_digit ds \<and> (ds = ''0'' \<or> hd ds \<noteq> CHR ''0'')"

lemma scan_integer_part_text:
  assumes "plain_integer ds" and "stops s"
  shows "scan_integer_part (ds @ s) = (ds, s)"
proof (cases "ds = ''0''")
  case True
  then show ?thesis by (simp add: scan_integer_part_def)
next
  case False
  with assms(1) have "take 1 (ds @ s) \<noteq> ''0''" by (cases ds) (auto simp: plain_integer_def)
  with assms show ?thesis by (simp add: scan_integer_part_def plain_integer_def span_digits_append)
qed

text \<open>An exponent: the sign is written out.\<close>

definition exponent_suffix :: "(bool \<times> string) option \<Rightarrow> string" where
  "exponent_suffix ex =
     (case ex of None \<Rightarrow> [] | Some (neg, ds) \<Rightarrow> CHR ''e'' # (if neg then CHR ''-'' else CHR ''+'') # ds)"

definition exponent_of :: "(bool \<times> string) option \<Rightarrow> int option" where
  "exponent_of ex =
     map_option (\<lambda>(neg, ds). if neg then - int (digits_value ds) else int (digits_value ds)) ex"

definition exponent_ok :: "(bool \<times> string) option \<Rightarrow> bool" where
  "exponent_ok ex \<longleftrightarrow> (case ex of None \<Rightarrow> True | Some (neg, ds) \<Rightarrow> ds \<noteq> [] \<and> list_all is_digit ds)"

lemma scan_exponent_text:
  assumes "exponent_ok ex" and "number_stop s"
  shows "scan_exponent (exponent_suffix ex @ s) = (exponent_of ex, s)"
  using assms
  by (auto simp: exponent_ok_def exponent_suffix_def exponent_of_def scan_exponent_def number_stop_def
      split_sign_def span_digits_append split: option.splits)

definition fraction_suffix :: "string \<Rightarrow> string" where
  "fraction_suffix fp = (if fp = [] then [] else CHR ''.'' # fp)"

lemma stops_exponent: "number_stop s \<Longrightarrow> stops (exponent_suffix ex @ s)"
  by (auto simp: exponent_suffix_def number_stop_def is_digit_def split: option.splits)

lemma scan_fraction_text:
  assumes "list_all is_digit fp" and "number_stop s"
  shows "scan_fraction (fraction_suffix fp @ exponent_suffix ex @ s) = (fp, exponent_suffix ex @ s)"
proof (cases "fp = []")
  case True
  with assms(2) show ?thesis
    by (auto simp: fraction_suffix_def scan_fraction_def exponent_suffix_def number_stop_def split: option.splits)
next
  case False
  with span_digits_append [OF assms(1) stops_exponent [OF assms(2)]] show ?thesis
    by (simp add: fraction_suffix_def scan_fraction_def)
qed

definition number_text :: "bool \<Rightarrow> string \<Rightarrow> string \<Rightarrow> (bool \<times> string) option \<Rightarrow> string" where
  "number_text neg ip fp ex = (if neg then ''-'' else []) @ ip @ fraction_suffix fp @ exponent_suffix ex"

lemma scan_number_text:
  assumes "plain_integer ip" and "list_all is_digit fp" and "exponent_ok ex" and "number_stop s"
  shows "scan_number (number_text neg ip fp ex @ s) =
     (if fp = [] \<and> ex = None then res_bind (read_integer neg ip) (\<lambda>v. Inr (v, s))
      else Inr (read_float neg (digits_value (ip @ fp))
                  ((case exponent_of ex of None \<Rightarrow> 0 | Some e \<Rightarrow> e) - int (length fp)), s))"
proof -
  let ?t = "number_text neg ip fp ex @ s"
  have "stops (fraction_suffix fp @ exponent_suffix ex @ s)"
    using assms(4) stops_exponent [OF assms(4), of ex] by (auto simp: fraction_suffix_def is_digit_def)
  then have ip: "scan_integer_part (ip @ fraction_suffix fp @ exponent_suffix ex @ s)
      = (ip, fraction_suffix fp @ exponent_suffix ex @ s)"
    by (rule scan_integer_part_text [OF assms(1)])
  have head: "take 1 ip \<noteq> ''-''" "ip \<noteq> []"
    using assms(1) by (cases ip; auto simp: plain_integer_def is_digit_def)+
  then have neg: "(take 1 ?t = ''-'') = neg" by (cases ip) (auto simp: number_text_def)
  have rest: "(if neg then drop 1 ?t else ?t) = ip @ fraction_suffix fp @ exponent_suffix ex @ s"
    by (simp add: number_text_def)
  have none: "exponent_of ex = None \<longleftrightarrow> ex = None" by (simp add: exponent_of_def)
  show ?thesis
    unfolding scan_number_def Let_def neg rest
    using head by (simp only: ip prod.case scan_fraction_text [OF assms(2,4)] scan_exponent_text [OF assms(3,4)] none if_False)
qed


lemma nat_to_str_plain: "plain_integer (nat_to_str n)"
proof -
  have "n \<noteq> 0 \<Longrightarrow> hd (nat_to_str n) \<noteq> CHR ''0''"
  proof (induction n rule: nat_to_str.induct)
    case (1 n)
    show ?case
    proof (cases "n < 10")
      case True
      have "of_char (digit_char n) = 48 + n" using True by (simp add: digit_char_def)
      then have "digit_char n \<noteq> CHR ''0''" using "1.prems" by auto
      with True show ?thesis by (simp add: nat_to_str.simps [of n])
    next
      case False
      with 1 show ?thesis by (simp add: nat_to_str.simps [of n])
    qed
  qed
  moreover have "nat_to_str 0 = ''0''" by code_simp
  ultimately show ?thesis
    using nat_to_str_digits [of n] by (auto simp: plain_integer_def)
qed

lemma plain_integer_zero: "plain_integer ''0''"
  by (simp add: plain_integer_def is_digit_def)

text \<open>An integer that the interpreter would read back\<close>

definition readable_int :: "int \<Rightarrow> bool" where
  "readable_int i \<longleftrightarrow> num_digits (nat \<bar>i\<bar>) \<le> 4300"

lemma scan_int_text:
  assumes "readable_int i" and "number_stop s"
  shows "scan_number (int_to_str i @ s) = Inr (RInt i, s)"
proof -
  have t: "int_to_str i = number_text (i < 0) (nat_to_str (nat \<bar>i\<bar>)) [] None"
    by (simp add: int_to_str_def number_text_def fraction_suffix_def exponent_suffix_def)
  have "\<not> 4300 < length (nat_to_str (nat \<bar>i\<bar>))" using assms(1) by (simp add: readable_int_def num_digits_def)
  then show ?thesis
    unfolding t using scan_number_text [OF nat_to_str_plain, of "[]" None s] assms(2)
    by (simp add: exponent_ok_def read_integer_def)
qed

text \<open>A float reads as the number its digits denote, however many zeros its text has.\<close>

lemma read_float_value:
  assumes "int c * 10 ^ nat e * 10 ^ nat (- e') = int c' * 10 ^ nat e' * 10 ^ nat (- e)"
  shows "read_float neg c e = read_float neg c' e'"
proof -
  have "binary64 False (c * 10 ^ nat e) (10 ^ nat (- e)) = binary64 False (c' * 10 ^ nat e') (10 ^ nat (- e'))"
  proof (rule binary64_fraction)
    have "int (c * 10 ^ nat e * 10 ^ nat (- e')) = int (c' * 10 ^ nat e' * 10 ^ nat (- e))"
      using assms by simp
    then show "c * 10 ^ nat e * 10 ^ nat (- e') = c' * 10 ^ nat e' * 10 ^ nat (- e)" by (simp only: of_nat_eq_iff)
  qed simp_all
  then show ?thesis by (simp add: read_float_def scaled_def)
qed

lemma read_float_shift: "read_float neg (c * 10 ^ k) e = read_float neg c (e + int k)"
proof (rule read_float_value)
  show "int (c * 10 ^ k) * 10 ^ nat e * 10 ^ nat (- (e + int k)) = int c * 10 ^ nat (e + int k) * 10 ^ nat (- e)"
  proof -
    have "k + nat e + nat (- (e + int k)) = nat (e + int k) + nat (- e)" by linarith
    then have "(10::int) ^ k * 10 ^ nat e * 10 ^ nat (- (e + int k)) = 10 ^ nat (e + int k) * 10 ^ nat (- e)"
      by (simp only: power_add [symmetric])
    then show ?thesis by (simp add: mult.assoc)
  qed
qed

text \<open>A float whose shortest text is its own: what \<^verbatim>\<open>repr\<close> of a float gives.\<close>

definition readable_float :: "pyfloat \<Rightarrow> bool" where
  "readable_float f \<longleftrightarrow> read_float (float_neg f) (float_digits f) (float_exp f) = RFloat f"

lemma pad_int_zeros:
  "0 \<le> i \<Longrightarrow> pad_int w i = zeros (int (w - length (nat_to_str (nat i)))) @ nat_to_str (nat i)"
  by (simp add: pad_int_def zeros_def int_to_str_def Let_def)

lemma pad_int_digits:
  assumes "0 \<le> i"
  shows "list_all is_digit (pad_int w i)" and "pad_int w i \<noteq> []" and "digits_value (pad_int w i) = nat i"
  by (simp_all add: pad_int_zeros [OF assms] nat_to_str_digits digits_value_append_digit)

lemma read_float_zero: "read_float neg 0 e = read_float neg 0 e'"
  by (rule read_float_value) simp

definition written_as :: "pyfloat \<Rightarrow> string \<Rightarrow> string \<Rightarrow> (bool \<times> string) option \<Rightarrow> bool" where
  "written_as f ip fp ex \<longleftrightarrow>
     float_repr f = number_text (float_neg f) ip fp ex \<and> plain_integer ip \<and> list_all is_digit fp \<and>
     exponent_ok ex \<and> (fp \<noteq> [] \<or> ex \<noteq> None) \<and>
     read_float (float_neg f) (digits_value (ip @ fp))
         ((case exponent_of ex of None \<Rightarrow> 0 | Some e \<Rightarrow> e) - int (length fp))
       = read_float (float_neg f) (float_digits f) (float_exp f)"

lemma float_repr_text: "\<exists>ip fp ex. written_as f ip fp ex"
proof (cases "float_digits f = 0")
  case True
  have "digits_value ''00'' = 0" by code_simp
  then have "written_as f ''0'' ''0'' None"
    using read_float_zero [of "float_neg f" "- 1" "float_exp f"]
    by (simp add: written_as_def True float_repr_def number_text_def fraction_suffix_def exponent_suffix_def
        exponent_of_def exponent_ok_def plain_integer_zero is_digit_def)
  then show ?thesis by blast
next
  case False
  define c where "c = float_digits f"
  define ds where "ds = nat_to_str c"
  define n where "n = int (length ds)"
  define decpt where "decpt = n + float_exp f"
  have ds: "ds \<noteq> []" "list_all is_digit ds" "digits_value ds = c"
    by (simp_all add: ds_def nat_to_str_digits)
  have "ds \<noteq> ''0''" using False ds(3) by (auto simp: c_def digits_value_def char_digit_def)
  then have hd: "hd ds \<noteq> CHR ''0''" using nat_to_str_plain [of c] by (simp add: plain_integer_def ds_def [symmetric])
  have taken: "plain_integer (take k ds)" if "0 < k" for k
    using that ds hd by (cases ds; cases k) (auto simp: plain_integer_def list_all_iff dest: in_set_takeD)
  have dropped: "list_all is_digit (drop k ds)" for k
    using ds(2) by (auto simp: list_all_iff dest: in_set_dropD)
  have repr: "float_repr f =
      (let sign = (if float_neg f then ''-'' else []) in
       if -4 < decpt \<and> decpt \<le> 16 then
         sign @ (if decpt \<le> 0 then ''0.'' @ zeros (- decpt) @ ds
                 else if n \<le> decpt then ds @ zeros (decpt - n) @ ''.0''
                 else take (nat decpt) ds @ ''.'' @ drop (nat decpt) ds)
       else
         sign @ take 1 ds @ (if length ds = 1 then [] else ''.'' @ drop 1 ds)
           @ ''e'' @ (if decpt - 1 < 0 then ''-'' else ''+'') @ pad_int 2 (abs (decpt - 1)))"
    using False by (simp add: float_repr_def Let_def zeros_def c_def [symmetric] ds_def [symmetric] n_def [symmetric]
        decpt_def [symmetric])
  consider "-4 < decpt" "decpt \<le> 0" | "0 < decpt" "decpt \<le> 16" "n \<le> decpt" | "0 < decpt" "decpt \<le> 16" "decpt < n"
    | "\<not> (-4 < decpt \<and> decpt \<le> 16)" by linarith
  then show ?thesis
  proof cases
    case 1
    have "digits_value (''0'' @ zeros (- decpt) @ ds) = c"
      using digits_value_append_digit [of "''0''" "zeros (- decpt) @ ds"] ds(3)
      by (simp add: digits_value_append_digit digits_value_def [of "''0''"] char_digit_def)
    with 1 ds have "written_as f ''0'' (zeros (- decpt) @ ds) None"
      by (simp add: written_as_def repr number_text_def fraction_suffix_def exponent_suffix_def exponent_of_def
          exponent_ok_def plain_integer_zero c_def [symmetric]) (simp add: decpt_def n_def)
    then show ?thesis by blast
  next
    case 2
    have e: "decpt - n = float_exp f" by (simp add: decpt_def)
    have "digits_value ((ds @ zeros (decpt - n)) @ ''0'') = c * 10 ^ Suc (nat (float_exp f))"
      by (simp add: digits_value_append_digit ds(3) e digits_value_def [of "''0''"] char_digit_def)
    moreover have "plain_integer (ds @ zeros (decpt - n))"
      using ds hd by (simp add: plain_integer_def)
    moreover have "read_float (float_neg f) (c * 10 ^ Suc (nat (float_exp f))) (- 1) = read_float (float_neg f) c (float_exp f)"
      using read_float_shift [of "float_neg f" c "Suc (nat (float_exp f))" "- 1"] 2 by (simp add: decpt_def)
    ultimately have "written_as f (ds @ zeros (decpt - n)) ''0'' None"
      using 2 by (simp add: written_as_def repr number_text_def fraction_suffix_def exponent_suffix_def exponent_of_def
          exponent_ok_def is_digit_def c_def [symmetric] del: power_Suc)
    then show ?thesis by blast
  next
    case 3
    then have d: "drop (nat decpt) ds \<noteq> []" "nat decpt \<le> length ds" by (auto simp: n_def)
    have "written_as f (take (nat decpt) ds) (drop (nat decpt) ds) None"
      using 3 d ds taken [of "nat decpt"] dropped
      by (simp add: written_as_def repr number_text_def fraction_suffix_def exponent_suffix_def exponent_of_def
          exponent_ok_def c_def [symmetric]) (simp add: decpt_def n_def of_nat_diff)
    then show ?thesis by blast
  next
    case 4
    define ex where "ex = decpt - 1"
    have pad: "list_all is_digit (pad_int 2 \<bar>ex\<bar>)" "pad_int 2 \<bar>ex\<bar> \<noteq> []" "digits_value (pad_int 2 \<bar>ex\<bar>) = nat \<bar>ex\<bar>"
      by (simp_all add: pad_int_digits)
    have one: "length ds = 1 \<longleftrightarrow> drop 1 ds = []" using ds(1) by (cases ds) auto
    have len: "int (length (drop 1 ds)) = n - 1" using ds(1) by (cases ds) (simp_all add: n_def)
    have "(case exponent_of (Some (ex < 0, pad_int 2 \<bar>ex\<bar>)) of None \<Rightarrow> 0 | Some e \<Rightarrow> e) = ex"
      using pad by (cases "ex < 0") (simp_all add: exponent_of_def)
    then have exp: "(case exponent_of (Some (ex < 0, pad_int 2 \<bar>ex\<bar>)) of None \<Rightarrow> 0 | Some e \<Rightarrow> e) - int (length (drop 1 ds)) = float_exp f"
      unfolding len by (simp add: ex_def decpt_def)
    have "float_repr f = number_text (float_neg f) (take 1 ds) (drop 1 ds) (Some (ex < 0, pad_int 2 \<bar>ex\<bar>))"
      unfolding repr Let_def if_not_P [OF 4] one number_text_def fraction_suffix_def exponent_suffix_def ex_def by simp
    then have "written_as f (take 1 ds) (drop 1 ds) (Some (ex < 0, pad_int 2 \<bar>ex\<bar>))"
      unfolding written_as_def exp append_take_drop_id ds(3) c_def
      using pad taken [of 1] dropped [of 1] by (simp add: exponent_ok_def)
    then show ?thesis by blast
  qed
qed

lemma scan_float_text:
  assumes "readable_float f" and "number_stop s"
  shows "scan_number (float_repr f @ s) = Inr (RFloat f, s)"
proof -
  obtain ip fp ex where w: "written_as f ip fp ex" using float_repr_text by blast
  then show ?thesis
    using scan_number_text [of ip fp ex s "float_neg f"] assms by (auto simp: written_as_def readable_float_def)
qed


subsection \<open>Values\<close>

fun key_sorted :: "json \<Rightarrow> json" where
  "key_sorted (JList xs) = JList (map key_sorted xs)"
| "key_sorted (JObj kvs) = JObj (sort_key fst (map (\<lambda>(k, v). (k, key_sorted v)) kvs))"
| "key_sorted j = j"

fun raw_of_json :: "json \<Rightarrow> raw" where
  "raw_of_json JNull = RNull"
| "raw_of_json (JBool b) = RBool b"
| "raw_of_json (JInt i) = RInt i"
| "raw_of_json (JFloat f) = RFloat f"
| "raw_of_json (JStr s) = RStr s"
| "raw_of_json (JList xs) = RList (map raw_of_json xs)"
| "raw_of_json (JObj kvs) = RObj (map (\<lambda>(k, v). (k, raw_of_json v)) kvs)"

text \<open>
  The values whose text can be read back: distinct keys, integers below the limit of the interpreter, floats
  in their shortest form.
\<close>

fun readable :: "json \<Rightarrow> bool" where
  "readable (JInt i) = readable_int i"
| "readable (JFloat f) = readable_float f"
| "readable (JList xs) = list_all readable xs"
| "readable (JObj kvs) = (distinct (map fst kvs) \<and> list_all (\<lambda>(k, v). readable v) kvs)"
| "readable _ = True"

lemma insort_key_map: "insort_key f (g x) (map g xs) = map g (insort_key (\<lambda>x. f (g x)) x xs)"
  by (induction xs) auto

lemma sort_key_map: "sort_key f (map g xs) = map g (sort_key (\<lambda>x. f (g x)) xs)"
  by (induction xs) (simp_all add: insort_key_map)

lemma sort_key_values:
  "sort_key fst (map (\<lambda>(k, v). (k, f v)) kvs) = map (\<lambda>(k, v). (k, f v)) (sort_key fst kvs)"
  by (subst sort_key_map) (simp add: case_prod_unfold)

definition member_text :: "string \<times> json \<Rightarrow> string" where
  "member_text = (\<lambda>(k, v). json_string k @ '':'' @ canonical_json v)"

lemma canonical_object:
  "canonical_json (JObj kvs) = ''{'' @ str_join '','' (map member_text (sort_key fst kvs)) @ ''}''"
  by (simp only: canonical_json.simps sort_key_values map_map) (simp add: member_text_def comp_def case_prod_unfold)

lemma str_join_simps [simp]:
  "str_join sep [] = []" "str_join sep [x] = x" "str_join sep (x # y # ys) = x @ sep @ str_join sep (y # ys)"
  by (simp_all add: str_join_def)

text \<open>The first character of a text says what it is.\<close>

lemma number_text_head:
  assumes "plain_integer ip"
  shows "\<exists>c t. number_text neg ip fp ex = c # t \<and> (is_digit c \<or> c = CHR ''-'')"
  using assms by (cases ip) (auto simp: number_text_def plain_integer_def)

lemma scan_literal_digit:
  assumes "is_digit d"
  shows "scan_literal (d # t) = None" and "scan_literal (CHR ''-'' # d # t) = None"
proof -
  have "d \<notin> {CHR ''n'', CHR ''t'', CHR ''f'', CHR ''N'', CHR ''I''}" "d \<noteq> CHR ''-''"
    using assms by (auto simp: is_digit_def)
  then show "scan_literal (d # t) = None" "scan_literal (CHR ''-'' # d # t) = None"
    by (simp_all add: scan_literal_def literals_def)
qed

lemma number_text_literal:
  assumes "plain_integer ip"
  shows "scan_literal (number_text neg ip fp ex @ s) = None"
proof -
  obtain d r where "ip = d # r" "is_digit d" using assms by (cases ip) (auto simp: plain_integer_def)
  then show ?thesis by (simp add: number_text_def scan_literal_digit)
qed

definition number_form :: "string \<Rightarrow> bool" where
  "number_form t \<longleftrightarrow> (\<exists>neg ip fp ex. t = number_text neg ip fp ex \<and> plain_integer ip)"

lemma number_form_int: "number_form (int_to_str i)"
proof -
  have "int_to_str i = number_text (i < 0) (nat_to_str (nat \<bar>i\<bar>)) [] None"
    by (simp add: int_to_str_def number_text_def fraction_suffix_def exponent_suffix_def)
  then show ?thesis using nat_to_str_plain unfolding number_form_def by blast
qed

lemma number_form_float: "number_form (float_repr f)"
  using float_repr_text [of f] unfolding number_form_def written_as_def by blast

lemma number_form_head: "number_form t \<Longrightarrow> \<exists>c r. t = c # r \<and> (is_digit c \<or> c = CHR ''-'')"
  unfolding number_form_def using number_text_head by blast

lemma number_form_scan:
  assumes "number_form t"
  shows "scan_value (Suc n) (t @ s) = scan_number (t @ s)"
proof -
  obtain c r where t: "t = c # r" "is_digit c \<or> c = CHR ''-''" using number_form_head [OF assms] by blast
  have "scan_literal (t @ s) = None" using assms by (auto simp: number_form_def number_text_literal)
  with t show ?thesis by (auto simp: is_digit_def)
qed

lemma canonical_head: "\<exists>c t. canonical_json j = c # t \<and> \<not> json_space c \<and> c \<noteq> CHR 0x5D"
proof -
  have number: "\<exists>c r. t = c # r \<and> \<not> json_space c \<and> c \<noteq> CHR 0x5D" if "number_form t" for t
    using number_form_head [OF that] by (auto simp: json_space_def is_digit_def)
  show ?thesis
    using number [OF number_form_int] number [OF number_form_float]
    by (cases j) (simp_all add: json_space_def json_string_def del: canonical_json.simps(7) add: canonical_object)
qed

lemma skip_space_canonical: "skip_space (canonical_json j @ s) = canonical_json j @ s"
  using canonical_head [of j] by (auto simp: skip_space_def)

lemma skip_space_simps [simp]:
  "\<not> json_space c \<Longrightarrow> skip_space (c # s) = c # s" "skip_space [] = []"
  by (simp_all add: skip_space_def)

lemma json_space_marks [simp]:
  "\<not> json_space (CHR '','')" "\<not> json_space (CHR '':'')" "\<not> json_space (CHR 0x5D)" "\<not> json_space (CHR 0x7D)"
  "\<not> json_space (CHR 0x22)"
  by (simp_all add: json_space_def)

definition reads_as :: "json \<Rightarrow> bool" where
  "reads_as j \<longleftrightarrow>
     (\<forall>n s. number_stop s \<longrightarrow> 2 * length (canonical_json j) < n \<longrightarrow>
        scan_value n (canonical_json j @ s) = Inr (raw_of_json (key_sorted j), s))"

lemma scan_elements_text:
  assumes "xs \<noteq> []" and "\<And>x. x \<in> set xs \<Longrightarrow> reads_as x"
    and "Suc (2 * length (str_join '','' (map canonical_json xs))) < n"
  shows "scan_elements n (str_join '','' (map canonical_json xs) @ CHR 0x5D # s)
    = Inr (map (\<lambda>x. raw_of_json (key_sorted x)) xs, s)"
  using assms
proof (induction xs arbitrary: n)
  case Nil
  then show ?case by simp
next
  case (Cons x xs)
  then obtain m where n: "n = Suc m" by (cases n) auto
  show ?case
  proof (cases xs)
    case Nil
    have "scan_value m (canonical_json x @ CHR 0x5D # s) = Inr (raw_of_json (key_sorted x), CHR 0x5D # s)"
      using Cons.prems(2) [of x] Cons.prems(3) Nil n by (simp add: reads_as_def)
    with Nil n show ?thesis by simp
  next
    case (Cons y ys)
    let ?rest = "str_join '','' (map canonical_json xs) @ CHR 0x5D # s"
    have joined: "str_join '','' (map canonical_json (x # xs)) @ CHR 0x5D # s = canonical_json x @ CHR '','' # ?rest"
      by (simp add: Cons)
    have "scan_value m (canonical_json x @ CHR '','' # ?rest) = Inr (raw_of_json (key_sorted x), CHR '','' # ?rest)"
      using Cons.prems(2) [of x] Cons.prems(3) n Cons by (simp add: reads_as_def)
    moreover have "skip_space ?rest = ?rest"
      using canonical_head [of y] by (cases ys) (auto simp: Cons)
    moreover have "scan_elements m ?rest = Inr (map (\<lambda>x. raw_of_json (key_sorted x)) xs, s)"
      by (rule Cons.IH) (use Cons.prems n Cons in auto)
    ultimately show ?thesis unfolding joined n by simp
  qed
qed

lemma scan_members_text:
  assumes "kvs \<noteq> []" and "\<And>k v. (k, v) \<in> set kvs \<Longrightarrow> reads_as v"
    and "2 * length (str_join '','' (map member_text kvs)) < n"
  shows "scan_members n (tl (str_join '','' (map member_text kvs)) @ CHR 0x7D # s)
    = Inr (map (\<lambda>(k, v). (k, raw_of_json (key_sorted v))) kvs, s)"
  using assms
proof (induction kvs arbitrary: n)
  case Nil
  then show ?case by simp
next
  case (Cons kv kvs)
  obtain k v where kv: "kv = (k, v)" by force
  from Cons.prems(3) obtain m where n: "n = Suc m" by (cases n) auto
  have key: "scan_string (concat (map escape_char k) @ CHR 0x22 # t) = Inr (k, t)" for t
    by (rule scan_string_text)
  show ?case
  proof (cases kvs)
    case Nil
    have "scan_value m (canonical_json v @ CHR 0x7D # s) = Inr (raw_of_json (key_sorted v), CHR 0x7D # s)"
      using Cons.prems(2) [of k v] Cons.prems(3) Nil n kv by (simp add: reads_as_def member_text_def)
    with Nil n kv key show ?thesis
      by (simp add: member_text_def json_string_def skip_space_canonical)
  next
    case (Cons y ys)
    let ?join = "str_join '','' (map member_text kvs)"
    let ?rest = "?join @ CHR 0x7D # s"
    have quote: "?join = CHR 0x22 # tl ?join"
      by (cases ys) (simp_all add: Cons member_text_def json_string_def case_prod_unfold)
    then have skip: "skip_space ?rest = CHR 0x22 # tl ?join @ CHR 0x7D # s"
      by (metis append_Cons json_space_marks(5) skip_space_simps(1))
    have joined: "tl (str_join '','' (map member_text (kv # kvs))) @ CHR 0x7D # s
        = concat (map escape_char k) @ CHR 0x22 # CHR '':'' # canonical_json v @ CHR '','' # ?rest"
      by (simp add: Cons kv member_text_def json_string_def)
    have "scan_value m (canonical_json v @ CHR '','' # ?rest) = Inr (raw_of_json (key_sorted v), CHR '','' # ?rest)"
      using Cons.prems(2) [of k v] Cons.prems(3) n Cons kv by (simp add: reads_as_def member_text_def)
    moreover have "scan_members m (tl ?join @ CHR 0x7D # s)
        = Inr (map (\<lambda>(k, v). (k, raw_of_json (key_sorted v))) kvs, s)"
      by (rule Cons.IH) (use Cons.prems n Cons in auto)
    ultimately show ?thesis unfolding joined n by (simp add: key skip skip_space_canonical kv)
  qed
qed


lemma reads_as_number:
  assumes "number_form (canonical_json j)"
    and "\<And>s. number_stop s \<Longrightarrow> scan_number (canonical_json j @ s) = Inr (raw_of_json (key_sorted j), s)"
  shows "reads_as j"
  unfolding reads_as_def
proof (intro allI impI)
  fix n s
  assume s: "number_stop s" and "2 * length (canonical_json j) < n"
  then obtain m where "n = Suc m" by (cases n) auto
  then show "scan_value n (canonical_json j @ s) = Inr (raw_of_json (key_sorted j), s)"
    by (simp only: number_form_scan [OF assms(1)] assms(2) [OF s])
qed

lemma reads_as_word:
  assumes "\<And>s n. scan_value (Suc n) (canonical_json j @ s) = Inr (raw_of_json (key_sorted j), s)"
  shows "reads_as j"
  unfolding reads_as_def
proof (intro allI impI)
  fix n s
  assume "2 * length (canonical_json j) < n"
  then obtain m where "n = Suc m" by (cases n) auto
  then show "scan_value n (canonical_json j @ s) = Inr (raw_of_json (key_sorted j), s)"
    by (simp only: assms)
qed

lemma reads_as_list:
  assumes "\<And>x. x \<in> set xs \<Longrightarrow> reads_as x"
  shows "reads_as (JList xs)"
proof (cases xs)
  case Nil
  then show ?thesis by (intro reads_as_word) simp
next
  case (Cons x ys)
  show ?thesis
    unfolding reads_as_def
  proof (intro allI impI)
    fix n s
    assume "2 * length (canonical_json (JList xs)) < n"
    then obtain m where n: "n = Suc m" and m: "Suc (2 * length (str_join '','' (map canonical_json xs))) < m"
      by (cases n) auto
    let ?rest = "str_join '','' (map canonical_json xs) @ CHR 0x5D # s"
    obtain c t where "?rest = c # t" "\<not> json_space c" "c \<noteq> CHR 0x5D"
      using canonical_head [of x] by (cases ys) (auto simp: Cons)
    then have "skip_space ?rest = ?rest" "take 1 ?rest \<noteq> [CHR 0x5D]" by simp_all
    then show "scan_value n (canonical_json (JList xs) @ s) = Inr (raw_of_json (key_sorted (JList xs)), s)"
      using scan_elements_text [OF _ assms m, of s] Cons by (simp add: n comp_def)
  qed
qed

lemma reads_as_object:
  assumes "distinct (map fst kvs)" and "\<And>k v. (k, v) \<in> set kvs \<Longrightarrow> reads_as v"
  shows "reads_as (JObj kvs)"
proof (cases kvs)
  case Nil
  then show ?thesis by (intro reads_as_word) simp
next
  case (Cons x xs)
  define sorted_kvs where "sorted_kvs = sort_key fst kvs"
  have ne: "sorted_kvs \<noteq> []" by (simp add: sorted_kvs_def Cons)
  have each: "reads_as v" if "(k, v) \<in> set sorted_kvs" for k v
    using assms(2) that by (simp add: sorted_kvs_def)
  have "distinct (map fst sorted_kvs)"
    using assms(1) by (simp add: sorted_kvs_def distinct_map inj_on_def)
  then have keys: "dict_of_items (map (\<lambda>(k, v). (k, raw_of_json (key_sorted v))) sorted_kvs)
      = map (\<lambda>(k, v). (k, raw_of_json (key_sorted v))) sorted_kvs"
    by (intro dict_of_items_distinct) (simp add: case_prod_unfold comp_def)
  have raw: "raw_of_json (key_sorted (JObj kvs)) = RObj (map (\<lambda>(k, v). (k, raw_of_json (key_sorted v))) sorted_kvs)"
    by (simp only: key_sorted.simps sort_key_values raw_of_json.simps sorted_kvs_def) (simp add: comp_def case_prod_unfold)
  show ?thesis
    unfolding reads_as_def
  proof (intro allI impI)
    fix n s
    let ?join = "str_join '','' (map member_text sorted_kvs)"
    assume "2 * length (canonical_json (JObj kvs)) < n"
    then obtain m where n: "n = Suc m" and m: "2 * length ?join < m"
      by (cases n) (auto simp: canonical_object sorted_kvs_def simp del: canonical_json.simps)
    obtain y ys where y: "sorted_kvs = y # ys" using ne by (cases sorted_kvs) auto
    have "?join = CHR 0x22 # tl ?join"
      by (cases ys) (simp_all add: y member_text_def json_string_def case_prod_unfold)
    then have "canonical_json (JObj kvs) @ s = CHR 0x7B # CHR 0x22 # tl ?join @ CHR 0x7D # s"
      by (simp only: canonical_object sorted_kvs_def [symmetric]) (metis append_Cons append_Nil append_assoc)
    moreover have "scan_members m (tl ?join @ CHR 0x7D # s)
        = Inr (map (\<lambda>(k, v). (k, raw_of_json (key_sorted v))) sorted_kvs, s)"
      by (rule scan_members_text [OF ne each m])
    ultimately show "scan_value n (canonical_json (JObj kvs) @ s) = Inr (raw_of_json (key_sorted (JObj kvs)), s)"
      unfolding raw by (simp add: n keys)
  qed
qed

lemma reads_as_readable: "readable j \<Longrightarrow> reads_as j"
proof (induction j)
  case (JInt i)
  then show ?case using number_form_int scan_int_text by (intro reads_as_number) simp_all
next
  case (JFloat f)
  then show ?case using number_form_float scan_float_text by (intro reads_as_number) simp_all
next
  case (JStr t)
  then show ?case by (intro reads_as_word) (simp add: json_string_def scan_string_text)
next
  case (JList xs)
  then show ?case by (intro reads_as_list) (simp add: list_all_iff)
next
  case (JObj kvs)
  then show ?case by (intro reads_as_object) (auto simp: list_all_iff)
qed (intro reads_as_word, simp add: scan_literal_def literals_def)+

theorem json_loads_canonical:
  assumes "readable j"
  shows "json_loads (canonical_json j) = Inr (raw_of_json (key_sorted j))"
proof -
  have "scan_value (Suc (2 * length (canonical_json j))) (canonical_json j @ []) = Inr (raw_of_json (key_sorted j), [])"
    using reads_as_readable [OF assms] unfolding reads_as_def by (metis lessI number_stop_simps(1))
  then show ?thesis using skip_space_canonical [of j "[]"] by (simp add: json_loads_def)
qed

text \<open>What is read back is normalised to the value with its keys in order.\<close>

lemma pyval_of_raw_json: "pyval_of_raw (raw_of_json j) = pyval_of_json j"
  by (induction j) (auto simp: comp_def case_prod_unfold)

lemma readable_wf: "readable j \<Longrightarrow> json_wf j"
  by (induction j) (auto simp: list_all_iff)

lemma readable_key_sorted: "readable j \<Longrightarrow> readable (key_sorted j)"
  by (induction j) (auto simp: list_all_iff sort_key_values distinct_map inj_on_def case_prod_unfold)

lemma canonical_key_sorted: "canonical_json (key_sorted j) = canonical_json j"
proof (induction j)
  case (JList xs)
  then have "map (\<lambda>x. canonical_json (key_sorted x)) xs = map canonical_json xs" by simp
  then show ?case by (simp only: key_sorted.simps canonical_json.simps map_map comp_def)
next
  case (JObj kvs)
  have member: "member_text (case kv of (k, v) \<Rightarrow> (k, key_sorted v)) = member_text kv" if "kv \<in> set kvs" for kv
    using JObj [of kv "snd kv"] that by (cases kv) (simp add: member_text_def)
  have "sort_key fst (sort_key fst (map (\<lambda>(k, v). (k, key_sorted v)) kvs)) = sort_key fst (map (\<lambda>(k, v). (k, key_sorted v)) kvs)"
    by (rule sort_key_id_if_sorted) simp
  moreover have "map member_text (map (\<lambda>(k, v). (k, key_sorted v)) (sort_key fst kvs)) = map member_text (sort_key fst kvs)"
    using member by simp
  ultimately show ?case by (simp only: key_sorted.simps canonical_object) (simp only: sort_key_values)
qed simp_all

lemma normalize_read_back: "readable j \<Longrightarrow> normalize_json (pyval_of_raw (raw_of_json (key_sorted j))) = Inr (key_sorted j)"
  by (simp add: pyval_of_raw_json normalize_json_of_json readable_wf readable_key_sorted)

theorem canonical_json_determines:
  assumes "readable j" and "readable j'" and "canonical_json j = canonical_json j'"
  shows "key_sorted j = key_sorted j'"
proof -
  have "raw_of_json (key_sorted j) = raw_of_json (key_sorted j')"
    using json_loads_canonical [OF assms(1)] json_loads_canonical [OF assms(2)] assms(3) by simp
  then have "normalize_json (pyval_of_raw (raw_of_json (key_sorted j)))
      = normalize_json (pyval_of_raw (raw_of_json (key_sorted j')))" by (simp only:)
  then show ?thesis
    by (simp only: normalize_read_back [OF assms(1)] normalize_read_back [OF assms(2)] sum.inject)
qed

end
