(* ===== verification/Isoformat.thy ===== *)
theory Isoformat
  imports Json_Roundtrip
begin

text \<open>
  Instants read back from their text, as \<^verbatim>\<open>audit/ledger.py\<close> and \<^verbatim>\<open>audit/checkpoints.py\<close> do with
  \<^verbatim>\<open>datetime.fromisoformat(text).astimezone(timezone.utc)\<close>. The reader follows the standard library's
  \<^verbatim>\<open>datetime.py\<close> (calendar and week dates, the separators that may be left out, fractions, offsets). A
  text without an offset is in the local time zone of the process, which is an argument.
\<close>

subsection \<open>The calendar\<close>

definition is_leap :: "int \<Rightarrow> bool" where
  "is_leap y \<longleftrightarrow> y mod 4 = 0 \<and> (y mod 100 \<noteq> 0 \<or> y mod 400 = 0)"

definition days_before_year :: "int \<Rightarrow> int" where
  "days_before_year year = (let y = year - 1 in y * 365 + y div 4 - y div 100 + y div 400)"

definition month_days :: "bool \<Rightarrow> int \<Rightarrow> int" where
  "month_days leap m = (if m = 2 \<and> leap then 29 else days_in_month m)"

definition before_month :: "bool \<Rightarrow> int \<Rightarrow> int" where
  "before_month leap m = days_before_month m + (if m > 2 \<and> leap then 1 else 0)"

definition ymd2ord :: "int \<Rightarrow> int \<Rightarrow> int \<Rightarrow> int" where
  "ymd2ord y m d = days_before_year y + before_month (is_leap y) m + d"

definition valid_date :: "int \<Rightarrow> int \<Rightarrow> int \<Rightarrow> bool" where
  "valid_date y m d \<longleftrightarrow>
     1 \<le> y \<and> y \<le> 9999 \<and> 1 \<le> m \<and> m \<le> 12 \<and> 1 \<le> d \<and> d \<le> month_days (is_leap y) m"

text \<open>\<^verbatim>\<open>_isoweek_to_gregorian\<close>\<close>

definition isoweek1monday :: "int \<Rightarrow> int" where
  "isoweek1monday y =
     (let firstday = ymd2ord y 1 1; firstweekday = (firstday + 6) mod 7; monday = firstday - firstweekday
      in if firstweekday > 3 then monday + 7 else monday)"

definition isoweek_to_gregorian :: "int \<Rightarrow> int \<Rightarrow> int \<Rightarrow> (int \<times> int \<times> int) option" where
  "isoweek_to_gregorian y week d =
     (let first_weekday = ymd2ord y 1 1 mod 7;
          long_year = (first_weekday = 4 \<or> (first_weekday = 3 \<and> is_leap y))
      in if \<not> (1 \<le> y \<and> y \<le> 9999) then None
         else if \<not> (0 < week \<and> week < 53) \<and> \<not> (week = 53 \<and> long_year) then None
         else if \<not> (0 < d \<and> d < 8) then None
         else Some (ord2ymd (isoweek1monday y + (week - 1) * 7 + (d - 1))))"

subsection \<open>Texts\<close>

definition slice :: "nat \<Rightarrow> nat \<Rightarrow> string \<Rightarrow> string" where
  "slice i n s = take n (drop i s)"

definition read_digits :: "nat \<Rightarrow> nat \<Rightarrow> string \<Rightarrow> int option" where
  "read_digits i n s =
     (let ds = slice i n s in
      if length ds = n \<and> 0 < n \<and> list_all is_digit ds then Some (int (digits_value ds)) else None)"

definition digit_at :: "nat \<Rightarrow> string \<Rightarrow> bool" where
  "digit_at i s \<longleftrightarrow> i < length s \<and> is_digit (s ! i)"

text \<open>\<^verbatim>\<open>_find_isoformat_datetime_separator\<close>\<close>

definition separator_location :: "string \<Rightarrow> nat option" where
  "separator_location s =
     (if length s = 7 then Some 7
      else if slice 4 1 s = ''-'' then
        if slice 5 1 s = ''W'' then
          if slice 8 1 s = ''-'' then
            if length s = 9 then None else if digit_at 10 s then Some 8 else Some 10
          else Some 8
        else Some 10
      else if slice 4 1 s = ''W'' then
        (let idx = 7 + length (takeWhile is_digit (drop 7 s)) in
         if idx < 9 then Some idx else if even idx then Some 7 else Some 8)
      else Some 8)"

text \<open>\<^verbatim>\<open>_parse_isoformat_date\<close>; a range error of the constructor is found below.\<close>

definition parse_date :: "string \<Rightarrow> (int \<times> int \<times> int) option" where
  "parse_date s =
     (let has_sep = (slice 4 1 s = ''-''); sep = (if has_sep then 1 else 0); pos = 4 + sep in
      Option.bind (read_digits 0 4 s) (\<lambda>year.
        if slice pos 1 s = ''W'' then
          Option.bind (read_digits (pos + 1) 2 s) (\<lambda>week.
            if length s \<le> pos + 3 then isoweek_to_gregorian year week 1
            else if (slice (pos + 3) 1 s = ''-'') \<noteq> has_sep then None
            else Option.bind (read_digits (pos + 3 + sep) 1 s) (isoweek_to_gregorian year week))
        else
          Option.bind (read_digits pos 2 s) (\<lambda>month.
            if (slice (pos + 2) 1 s = ''-'') \<noteq> has_sep then None
            else map_option (\<lambda>day. (year, month, day)) (read_digits (pos + 2 + sep) 2 s))))"

text \<open>\<^verbatim>\<open>_parse_hh_mm_ss_ff\<close>: the fraction after the seconds, cut at six digits\<close>

definition parse_fraction :: "string \<Rightarrow> int option" where
  "parse_fraction s =
     (if s = [] then Some 0
      else if hd s \<noteq> CHR ''.'' \<and> hd s \<noteq> CHR '','' then None
      else
        let fs = tl s; n = min 6 (length fs) in
        if \<not> list_all is_digit (drop n fs) then None
        else map_option (\<lambda>f. f * 10 ^ (6 - n)) (read_digits 0 n fs))"

definition parse_clock :: "string \<Rightarrow> (int \<times> int \<times> int \<times> int) option" where
  "parse_clock s =
     (let has_sep = (slice 2 1 s = '':''); sep = (if has_sep then 1 else 0) in
      Option.bind (read_digits 0 2 s) (\<lambda>hh.
        if length s = 2 then Some (hh, 0, 0, 0)
        else Option.bind (read_digits (2 + sep) 2 s) (\<lambda>mm.
          if length s = 4 + sep then Some (hh, mm, 0, 0)
          else if has_sep \<and> slice (4 + sep) 1 s \<noteq> '':'' then None
          else Option.bind (read_digits (4 + 2 * sep) 2 s) (\<lambda>ss.
            map_option (\<lambda>us. (hh, mm, ss, us)) (parse_fraction (drop (6 + 2 * sep) s))))))"

definition clock_us :: "int \<times> int \<times> int \<times> int \<Rightarrow> int" where
  "clock_us = (\<lambda>(hh, mm, ss, us). ((hh * 60 + mm) * 60 + ss) * 1000000 + us)"

definition valid_clock :: "int \<times> int \<times> int \<times> int \<Rightarrow> bool" where
  "valid_clock = (\<lambda>(hh, mm, ss, us). hh < 24 \<and> mm < 60 \<and> ss < 60 \<and> us < 1000000)"

text \<open>\<^verbatim>\<open>tstr.find('-') + 1 or tstr.find('+') + 1 or tstr.find('Z') + 1\<close>\<close>

definition find_char :: "char \<Rightarrow> string \<Rightarrow> nat option" where
  "find_char c s = (if c \<in> set s then Some (length (takeWhile (\<lambda>x. x \<noteq> c) s)) else None)"

definition zone_location :: "string \<Rightarrow> nat option" where
  "zone_location s =
     or_else (find_char (CHR ''-'') s) (or_else (find_char (CHR ''+'') s) (find_char (CHR ''Z'') s))"

text \<open>\<^verbatim>\<open>_parse_isoformat_time\<close>: the clock and, with an offset, the microseconds east of UTC\<close>

definition parse_offset :: "bool \<Rightarrow> string \<Rightarrow> int option" where
  "parse_offset west s =
     (if length s \<in> {0, 1, 3} then None
      else Option.bind (parse_clock s) (\<lambda>c.
        if clock_us c < 86400000000 then Some (if west then - clock_us c else clock_us c) else None))"

definition parse_time :: "string \<Rightarrow> ((int \<times> int \<times> int \<times> int) \<times> int option) option" where
  "parse_time s =
     (if length s < 2 then None
      else case zone_location s of
        None \<Rightarrow> map_option (\<lambda>c. (c, None)) (parse_clock s)
      | Some i \<Rightarrow>
          Option.bind (parse_clock (take i s)) (\<lambda>c.
            if Suc i = length s \<and> s ! i = CHR ''Z'' then Some (c, Some 0)
            else map_option (\<lambda>off. (c, Some off)) (parse_offset (s ! i = CHR ''-'') (drop (Suc i) s))))"

text \<open>\<^verbatim>\<open>datetime.fromisoformat\<close>: the microseconds of the civil time and the offset\<close>

definition civil_us :: "int \<times> int \<times> int \<Rightarrow> int" where
  "civil_us = (\<lambda>(y, m, d). (ymd2ord y m d - 719163) * 86400000000)"

definition fromisoformat :: "string \<Rightarrow> (int \<times> int option) option" where
  "fromisoformat s =
     (if length s < 7 then None
      else Option.bind (separator_location s) (\<lambda>p.
        Option.bind (parse_date (take p s)) (\<lambda>ymd.
          Option.bind (if drop (Suc p) s = [] then Some ((0, 0, 0, 0), None) else parse_time (drop (Suc p) s))
            (\<lambda>(c, off).
              if (case ymd of (y, m, d) \<Rightarrow> valid_date y m d) \<and> valid_clock c
              then Some (civil_us ymd + clock_us c, off) else None))))"

definition min_instant :: datetime where
  "min_instant = (1 - 719163) * 86400000000"

definition max_instant :: datetime where
  "max_instant = (3652060 - 719163) * 86400000000 - 1"

definition date_overflow :: pyexc where
  "date_overflow = PyExc ''OverflowError'' ''date value out of range'' None"

definition read_instant :: "(int \<Rightarrow> datetime res) \<Rightarrow> string \<Rightarrow> datetime res" where
  "read_instant local_zone s =
     (case fromisoformat s of
        None \<Rightarrow> Inl (value_error (''Invalid isoformat string: '' @ s))
      | Some (t, None) \<Rightarrow> local_zone t
      | Some (t, Some off) \<Rightarrow>
          if min_instant \<le> t - off \<and> t - off \<le> max_instant then Inr (t - off) else Inl date_overflow)"

subsection \<open>The calendar and its inverse\<close>

definition month_of_day :: "bool \<Rightarrow> int \<Rightarrow> int \<times> int" where
  "month_of_day leap n =
     (let month = (n + 50) div 32;
          preceding = days_before_month month + (if month > 2 \<and> leap then 1 else 0)
      in if preceding > n
         then (month - 1, n - (preceding - (days_in_month (month - 1) + (if month - 1 = 2 \<and> leap then 1 else 0))) + 1)
         else (month, n - preceding + 1))"

definition month_of_day_ok :: "bool \<Rightarrow> int \<Rightarrow> bool" where
  "month_of_day_ok leap n =
     (case month_of_day leap n of (m, d) \<Rightarrow>
        1 \<le> m \<and> m \<le> 12 \<and> 1 \<le> d \<and> d \<le> month_days leap m \<and> before_month leap m + d = n + 1)"

lemma month_tables [simp]:
  "days_before_month 1 = 0" "days_before_month 2 = 31" "days_before_month 3 = 59" "days_before_month 4 = 90"
  "days_before_month 5 = 120" "days_before_month 6 = 151" "days_before_month 7 = 181" "days_before_month 8 = 212"
  "days_before_month 9 = 243" "days_before_month 10 = 273" "days_before_month 11 = 304" "days_before_month 12 = 334"
  "days_in_month 1 = 31" "days_in_month 2 = 28" "days_in_month 3 = 31" "days_in_month 4 = 30"
  "days_in_month 5 = 31" "days_in_month 6 = 30" "days_in_month 7 = 31" "days_in_month 8 = 31"
  "days_in_month 9 = 30" "days_in_month 10 = 31" "days_in_month 11 = 30" "days_in_month 12 = 31"
  by (simp_all add: days_before_month_def days_in_month_def)

lemma month_of_day_month:
  assumes "m \<in> set [1..12]"
  shows "(n + 50) div 32 = m \<longrightarrow> 32 * m \<le> n + 50 \<longrightarrow> n + 50 < 32 * m + 32 \<longrightarrow> 0 \<le> n \<longrightarrow> n < 365 \<longrightarrow>
    month_of_day_ok leap n"
proof -
  have "[1..12] = [1, 2, 3, 4, 5, 6, 7, 8, 9, 10, 11, 12 :: int]" by code_simp
  with assms have "m \<in> {1, 2, 3, 4, 5, 6, 7, 8, 9, 10, 11, 12}" by (simp only: list.set)
  then show ?thesis
    by (elim insertE emptyE; hypsubst; cases leap;
        simp add: month_of_day_ok_def month_of_day_def Let_def month_days_def before_month_def)
qed

lemma month_of_day_ok:
  assumes "0 \<le> n" and "n < 365"
  shows "month_of_day_ok leap n"
proof -
  have "1 \<le> (n + 50) div 32" "(n + 50) div 32 \<le> 12" using assms by simp_all
  then show ?thesis using month_of_day_month [of "(n + 50) div 32" n leap] assms by simp
qed

lemma mod_zero_top: "x = k * q + r \<Longrightarrow> 0 < r \<Longrightarrow> r \<le> k \<Longrightarrow> x mod k = 0 \<longleftrightarrow> r = (k :: int)"
  by (cases "r = k") (auto simp: mod_pos_pos_trivial)

lemma year_of_cycles:
  assumes "0 \<le> b" and "b \<le> 3" and "0 \<le> c" and "c \<le> 24" and "0 \<le> d" and "d \<le> 3"
  shows "days_before_year (a * 400 + 1 + b * 100 + c * 4 + d) = 146097 * a + 36524 * b + 1461 * c + 365 * d"
    and "is_leap (a * 400 + 1 + b * 100 + c * 4 + d) \<longleftrightarrow> d = 3 \<and> (c \<noteq> 24 \<or> b = 3)"
proof -
  let ?y = "a * 400 + 1 + b * 100 + c * 4 + d"
  have "(?y - 1) div 4 = 100 * a + 25 * b + c" by (rule int_div_pos_eq [of _ _ _ d]) (use assms in auto)
  moreover have "(?y - 1) div 100 = 4 * a + b" by (rule int_div_pos_eq [of _ _ _ "4 * c + d"]) (use assms in auto)
  moreover have "(?y - 1) div 400 = a" by (rule int_div_pos_eq [of _ _ _ "100 * b + 4 * c + d"]) (use assms in auto)
  ultimately show "days_before_year ?y = 146097 * a + 36524 * b + 1461 * c + 365 * d"
    by (simp only: days_before_year_def Let_def) simp
  have "?y mod 4 = 0 \<longleftrightarrow> d + 1 = 4" by (rule mod_zero_top [of _ _ "100 * a + 25 * b + c"]) (use assms in auto)
  moreover have "?y mod 100 = 0 \<longleftrightarrow> 4 * c + d + 1 = 100" by (rule mod_zero_top [of _ _ "4 * a + b"]) (use assms in auto)
  moreover have "?y mod 400 = 0 \<longleftrightarrow> 100 * b + 4 * c + d + 1 = 400" by (rule mod_zero_top [of _ _ a]) (use assms in auto)
  ultimately show "is_leap ?y \<longleftrightarrow> d = 3 \<and> (c \<noteq> 24 \<or> b = 3)"
    unfolding is_leap_def using assms by auto
qed

lemma ord2ymd_inverse:
  assumes "1 \<le> n" and "n \<le> 3652059"
  shows "case ord2ymd n of (y, m, d) \<Rightarrow> valid_date y m d \<and> ymd2ord y m d = n"
proof -
  define N where "N = n - 1"
  define a where "a = N div 146097"
  define r where "r = N mod 146097"
  define b where "b = r div 36524"
  define s where "s = r mod 36524"
  define c where "c = s div 1461"
  define t where "t = s mod 1461"
  define d where "d = t div 365"
  define u where "u = t mod 365"
  have N: "N = 146097 * a + r" "0 \<le> r" "r < 146097" by (simp_all add: a_def r_def)
  have r: "r = 36524 * b + s" "0 \<le> s" "s < 36524" by (simp_all add: b_def s_def)
  have s: "s = 1461 * c + t" "0 \<le> t" "t < 1461" by (simp_all add: c_def t_def)
  have t: "t = 365 * d + u" "0 \<le> u" "u < 365" by (simp_all add: d_def u_def)
  have a: "0 \<le> a" "a \<le> 24" using N assms by (simp_all add: N_def)
  have bounds: "0 \<le> b" "b \<le> 4" "0 \<le> c" "c \<le> 24" "0 \<le> d" "d \<le> 4"
    using N r s t by linarith+
  define year where "year = a * 400 + 1 + b * 100 + c * 4 + d"
  define leap where "leap = (d = 3 \<and> (c \<noteq> 24 \<or> b = 3))"
  have ord: "ord2ymd n =
      (if d = 4 \<or> b = 4 then (year - 1, 12, 31)
       else (year, fst (month_of_day leap u), snd (month_of_day leap u)))"
    unfolding ord2ymd_def Let_def N_def [symmetric] a_def [symmetric] r_def [symmetric] b_def [symmetric]
      s_def [symmetric] c_def [symmetric] t_def [symmetric] d_def [symmetric] u_def [symmetric]
      year_def [symmetric] leap_def [symmetric] month_of_day_def
    by simp
  have december: "before_month True 12 = 335" "month_days True 12 = 31"
    by (simp_all add: before_month_def month_days_def)
  consider "b = 4" | "b \<le> 3" "d = 4" | "b \<le> 3" "d \<le> 3" using bounds by linarith
  then show ?thesis
  proof cases
    case 1
    with r N have "s = 0" by simp
    with s t bounds have z: "c = 0" "t = 0" "d = 0" "u = 0" by linarith+
    have y: "year - 1 = a * 400 + 1 + 3 * 100 + 24 * 4 + 3" using 1 z by (simp add: year_def)
    have a23: "a \<le> 23" using 1 N r z assms(2) by (simp add: N_def)
    have "ymd2ord (year - 1) 12 31 = n"
      using year_of_cycles [of 3 24 3 a] 1 y z N r \<open>s = 0\<close> december by (simp add: ymd2ord_def N_def)
    moreover have "valid_date (year - 1) 12 31"
      using year_of_cycles [of 3 24 3 a] y a a23 december by (simp add: valid_date_def)
    ultimately show ?thesis using 1 ord by simp
  next
    case 2
    with t s have z: "u = 0" "t = 1460" by linarith+
    have c: "c \<le> 23" using r s z bounds by linarith
    have y: "year - 1 = a * 400 + 1 + b * 100 + c * 4 + 3" using 2 by (simp add: year_def)
    have "ymd2ord (year - 1) 12 31 = n"
      using year_of_cycles [of b c 3 a] 2 y z c N r s bounds december by (simp add: ymd2ord_def N_def)
    moreover have "valid_date (year - 1) 12 31"
      using year_of_cycles [of b c 3 a] 2 y z c a bounds december by (simp add: valid_date_def)
    ultimately show ?thesis using 2 ord by simp
  next
    case 3
    obtain m k where mk: "month_of_day leap u = (m, k)" by force
    with month_of_day_ok [of u leap] t
    have ok: "1 \<le> m" "m \<le> 12" "1 \<le> k" "k \<le> month_days leap m" "before_month leap m + k = u + 1"
      by (simp_all add: month_of_day_ok_def)
    have cycles: "days_before_year year = 146097 * a + 36524 * b + 1461 * c + 365 * d" "is_leap year = leap"
      using year_of_cycles [of b c d a] 3 bounds unfolding year_def leap_def by simp_all
    have "year \<le> 9999"
      using assms(2) N r s t a bounds 3 unfolding year_def N_def by linarith
    moreover have "1 \<le> year" using a bounds by (simp add: year_def)
    ultimately have "valid_date year m k" using ok cycles by (simp add: valid_date_def)
    moreover have "ymd2ord year m k = n" using ok cycles N r s t by (simp add: ymd2ord_def N_def)
    ultimately show ?thesis using 3 ord mk by simp
  qed
qed

subsection \<open>Reading a written instant\<close>

lemma pad_int_length:
  assumes "0 \<le> i" and "i < 10 ^ w" and "0 < w"
  shows "length (pad_int w i) = w"
proof -
  have "nat i < 10 ^ w" using assms(1,2) by (simp add: nat_less_iff)
  then have "length (nat_to_str (nat i)) \<le> w"
    using num_digits_le_iff [OF assms(3), of "nat i"] by (simp add: num_digits_def)
  then show ?thesis by (simp add: pad_int_zeros [OF assms(1)])
qed

lemma digit_marks:
  "is_digit c \<Longrightarrow> c \<noteq> CHR ''-'' \<and> c \<noteq> CHR ''+'' \<and> c \<noteq> CHR ''Z'' \<and> c \<noteq> CHR ''W'' \<and> c \<noteq> CHR '':''"
  by (auto simp: is_digit_def)

lemma two_digits: "length ds = 2 \<Longrightarrow> list_all is_digit ds \<Longrightarrow> \<exists>a b. ds = [a, b] \<and> is_digit a \<and> is_digit b"
  by (auto simp: numeral_2_eq_2 length_Suc_conv)

lemma four_digits:
  "length ds = 4 \<Longrightarrow> list_all is_digit ds \<Longrightarrow>
   \<exists>a b c d. ds = [a, b, c, d] \<and> is_digit a \<and> is_digit b \<and> is_digit c \<and> is_digit d"
  by (auto simp: eval_nat_numeral length_Suc_conv)

lemma six_digits:
  "length ds = 6 \<Longrightarrow> list_all is_digit ds \<Longrightarrow>
   \<exists>a b c d e f. ds = [a, b, c, d, e, f] \<and> is_digit a \<and> is_digit b \<and> is_digit c \<and> is_digit d \<and> is_digit e \<and> is_digit f"
  by (auto simp: eval_nat_numeral length_Suc_conv)

lemma parse_date_text:
  assumes "length yy = 4" "list_all is_digit yy" "length mm = 2" "list_all is_digit mm" "length dd = 2" "list_all is_digit dd"
  shows "parse_date (yy @ CHR ''-'' # mm @ CHR ''-'' # dd)
    = Some (int (digits_value yy), int (digits_value mm), int (digits_value dd))"
proof -
  obtain y1 y2 y3 y4 where y: "yy = [y1, y2, y3, y4]" "is_digit y1" "is_digit y2" "is_digit y3" "is_digit y4"
    using four_digits [OF assms(1,2)] by blast
  obtain m1 m2 where m: "mm = [m1, m2]" "is_digit m1" "is_digit m2" using two_digits [OF assms(3,4)] by blast
  obtain d1 d2 where d: "dd = [d1, d2]" "is_digit d1" "is_digit d2" using two_digits [OF assms(5,6)] by blast
  from y m d digit_marks [OF m(2)] show ?thesis
    by (simp add: parse_date_def slice_def read_digits_def)
qed

definition fraction_text :: "string \<Rightarrow> string" where
  "fraction_text fs = (if fs = [] then [] else CHR ''.'' # fs)"

lemma parse_clock_text:
  assumes "length hh = 2" "list_all is_digit hh" "length mm = 2" "list_all is_digit mm" "length ss = 2" "list_all is_digit ss"
    and "fs = [] \<or> length fs = 6" "list_all is_digit fs"
  shows "parse_clock (hh @ CHR '':'' # mm @ CHR '':'' # ss @ fraction_text fs)
    = Some (int (digits_value hh), int (digits_value mm), int (digits_value ss), int (digits_value fs))"
proof -
  obtain h1 h2 where h: "hh = [h1, h2]" "is_digit h1" "is_digit h2" using two_digits [OF assms(1,2)] by blast
  obtain m1 m2 where m: "mm = [m1, m2]" "is_digit m1" "is_digit m2" using two_digits [OF assms(3,4)] by blast
  obtain s1 s2 where s: "ss = [s1, s2]" "is_digit s1" "is_digit s2" using two_digits [OF assms(5,6)] by blast
  have "parse_fraction (fraction_text fs) = Some (int (digits_value fs))"
    using assms(7,8) by (auto simp: parse_fraction_def fraction_text_def read_digits_def slice_def digits_value_def)
  with h m s show ?thesis
    by (simp add: parse_clock_def slice_def read_digits_def)
qed

lemma parse_offset_utc: "parse_offset False ''00:00'' = Some 0"
proof -
  have "parse_clock ''00:00'' = Some (0, 0, 0, 0)" by code_simp
  then show ?thesis by (simp add: parse_offset_def clock_us_def)
qed

lemma parse_time_text:
  assumes "length hh = 2" "list_all is_digit hh" "length mm = 2" "list_all is_digit mm" "length ss = 2" "list_all is_digit ss"
    and "fs = [] \<or> length fs = 6" "list_all is_digit fs"
  shows "parse_time (hh @ CHR '':'' # mm @ CHR '':'' # ss @ fraction_text fs @ ''+00:00'')
    = Some ((int (digits_value hh), int (digits_value mm), int (digits_value ss), int (digits_value fs)), Some 0)"
proof -
  define clock where "clock = hh @ CHR '':'' # mm @ CHR '':'' # ss @ fraction_text fs"
  have chars: "c \<noteq> CHR ''-'' \<and> c \<noteq> CHR ''+'' \<and> c \<noteq> CHR ''Z''" if "c \<in> set clock" for c
  proof -
    have "is_digit c \<or> c = CHR '':'' \<or> c = CHR ''.''"
      using that assms by (auto simp: clock_def fraction_text_def list_all_iff split: if_splits)
    then show ?thesis using digit_marks by auto
  qed
  have "takeWhile (\<lambda>x. x \<noteq> CHR ''+'') (clock @ ''+00:00'') = clock"
    using chars by (subst takeWhile_append2) auto
  then have zone: "zone_location (clock @ ''+00:00'') = Some (length clock)"
    using chars by (auto simp: zone_location_def find_char_def or_else_def)
  have "parse_clock clock
      = Some (int (digits_value hh), int (digits_value mm), int (digits_value ss), int (digits_value fs))"
    unfolding clock_def by (rule parse_clock_text [OF assms])
  moreover have "parse_time (clock @ ''+00:00'') = Option.bind (parse_clock clock) (\<lambda>c. Some (c, Some 0))"
    by (simp add: parse_time_def zone parse_offset_utc)
  ultimately show ?thesis by (simp add: clock_def)
qed

definition iso_text :: "string \<Rightarrow> string \<Rightarrow> string \<Rightarrow> string \<Rightarrow> string \<Rightarrow> string \<Rightarrow> string \<Rightarrow> string" where
  "iso_text yy mo dd hh mm ss fs =
     (yy @ CHR ''-'' # mo @ CHR ''-'' # dd) @ CHR ''T'' # hh @ CHR '':'' # mm @ CHR '':'' # ss @ fraction_text fs @ ''+00:00''"

lemma fromisoformat_text:
  assumes "length yy = 4" "list_all is_digit yy" "length mo = 2" "list_all is_digit mo" "length dd = 2" "list_all is_digit dd"
    and "length hh = 2" "list_all is_digit hh" "length mm = 2" "list_all is_digit mm" "length ss = 2" "list_all is_digit ss"
    and "fs = [] \<or> length fs = 6" "list_all is_digit fs"
  shows "fromisoformat (iso_text yy mo dd hh mm ss fs) =
     (let ymd = (int (digits_value yy), int (digits_value mo), int (digits_value dd));
          c = (int (digits_value hh), int (digits_value mm), int (digits_value ss), int (digits_value fs))
      in if (case ymd of (y, m, d) \<Rightarrow> valid_date y m d) \<and> valid_clock c
         then Some (civil_us ymd + clock_us c, Some 0) else None)"
proof -
  let ?s = "iso_text yy mo dd hh mm ss fs"
  let ?date = "yy @ CHR ''-'' # mo @ CHR ''-'' # dd"
  obtain y1 y2 y3 y4 where y: "yy = [y1, y2, y3, y4]" using four_digits [OF assms(1,2)] by blast
  obtain m1 m2 where m: "mo = [m1, m2]" "is_digit m1" using two_digits [OF assms(3,4)] by blast
  have sep: "separator_location ?s = Some 10"
    using y m digit_marks [OF m(2)] by (simp add: separator_location_def iso_text_def slice_def)
  have len: "length ?date = 10" using assms by simp
  have date: "take 10 ?s = ?date"
    unfolding iso_text_def using len by (simp only: take_append) simp
  have time: "drop (Suc 10) ?s = hh @ CHR '':'' # mm @ CHR '':'' # ss @ fraction_text fs @ ''+00:00''"
    unfolding iso_text_def using len by (simp only: drop_append) simp
  have "\<not> length ?s < 7" using assms by (simp add: iso_text_def)
  then show ?thesis
    unfolding fromisoformat_def sep date time Option.bind.bind_lunit parse_date_text [OF assms(1-6)]
    using parse_time_text [OF assms(7-14)] by (simp add: Let_def)
qed

text \<open>\<open>fromisoformat\<close> is the inverse of \<open>isoformat\<close> on the instants a \<^verbatim>\<open>datetime\<close> can be.\<close>

theorem read_instant_isoformat:
  assumes "min_instant \<le> t" and "t \<le> max_instant"
  shows "read_instant local_zone (isoformat t) = Inr t"
proof -
  define day where "day = t div 86400000000"
  define us where "us = t mod 86400000000"
  define micro where "micro = us mod 1000000"
  define sec where "sec = us div 1000000"
  have t: "t = day * 86400000000 + us" by (simp add: day_def us_def)
  have us: "us = sec * 1000000 + micro" "0 \<le> us" "us < 86400000000" by (simp_all add: sec_def micro_def us_def)
  have micro: "0 \<le> micro" "micro < 1000000" by (simp_all add: micro_def)
  have sec: "0 \<le> sec" "sec < 86400" using us micro by linarith+
  obtain y m d where ymd: "ord2ymd (day + 719163) = (y, m, d)" by (metis prod_cases3)
  have "1 \<le> day + 719163" "day + 719163 \<le> 3652059"
    using assms t us(2,3) by (simp_all add: min_instant_def max_instant_def)
  from ord2ymd_inverse [OF this] ymd
  have date: "valid_date y m d" "ymd2ord y m d = day + 719163" by simp_all
  have "month_days (is_leap y) m \<le> 31"
  proof -
    have "m \<in> set [1..12]" using date(1) by (simp add: valid_date_def)
    moreover have "[1..12] = [1, 2, 3, 4, 5, 6, 7, 8, 9, 10, 11, 12 :: int]" by code_simp
    ultimately show ?thesis by (auto simp: month_days_def simp del: set_upto)
  qed
  with date(1) have small: "0 \<le> y" "y < 10 ^ 4" "0 \<le> m" "m < 10 ^ 2" "0 \<le> d" "d < 10 ^ 2"
    by (auto simp: valid_date_def)
  define hh where "hh = sec div 3600"
  define mm where "mm = sec mod 3600 div 60"
  define ss where "ss = sec mod 60"
  have clock: "sec = (hh * 60 + mm) * 60 + ss" "0 \<le> hh" "hh < 24" "0 \<le> mm" "mm < 60" "0 \<le> ss" "ss < 60"
  proof -
    have rest: "0 \<le> sec mod 3600" "sec mod 3600 < 3600" by simp_all
    have "sec = hh * 3600 + sec mod 3600" by (simp add: hh_def)
    moreover have "sec mod 3600 = mm * 60 + sec mod 3600 mod 60" by (simp add: mm_def)
    moreover have "sec mod 3600 mod 60 = ss" by (simp add: ss_def mod_mod_cancel)
    ultimately show "sec = (hh * 60 + mm) * 60 + ss" by simp
    show "0 \<le> hh" "hh < 24" using sec by (simp_all add: hh_def)
    show "0 \<le> mm" "mm < 60" using rest by (simp_all add: mm_def)
    show "0 \<le> ss" "ss < 60" by (simp_all add: ss_def)
  qed
  define fs where "fs = (if micro = 0 then [] else pad_int 6 micro)"
  have fs: "fs = [] \<or> length fs = 6" "list_all is_digit fs" "int (digits_value fs) = micro"
    using micro by (auto simp: fs_def pad_int_digits pad_int_length digits_value_def [of "[]"])
  have written: "isoformat t = iso_text (pad_int 4 y) (pad_int 2 m) (pad_int 2 d) (pad_int 2 hh) (pad_int 2 mm) (pad_int 2 ss) fs"
    using micro ymd
    by (auto simp: isoformat_def Let_def iso_text_def fraction_text_def fs_def day_def [symmetric] us_def [symmetric]
        micro_def [symmetric] sec_def [symmetric] hh_def mm_def ss_def pad_int_digits)
  have "fromisoformat (isoformat t) = Some (civil_us (y, m, d) + clock_us (hh, mm, ss, micro), Some 0)"
    unfolding written
    using fromisoformat_text [of "pad_int 4 y" "pad_int 2 m" "pad_int 2 d" "pad_int 2 hh" "pad_int 2 mm" "pad_int 2 ss" fs]
      small clock fs date micro
    by (simp add: pad_int_length pad_int_digits Let_def valid_clock_def)
  moreover have "civil_us (y, m, d) + clock_us (hh, mm, ss, micro) = t"
    using date(2) clock(1) t us(1) by (simp add: civil_us_def clock_us_def)
  ultimately show ?thesis using assms by (simp add: read_instant_def)
qed

end
