(* ===== verification/Ledger_File.thy ===== *)
theory Ledger_File
  imports Ledger Isoformat
begin

text \<open>
  The ledger as a file: the text that \<^verbatim>\<open>AuditLedger\<close> of \<^verbatim>\<open>audit/ledger.py\<close> reads, checks line by line and
  appends to. The other theories work on the list of the records; here the operations on the text are shown
  to implement the operations on the list, and a write that a crash cuts short to be found. A file is its
  text, \<open>None\<close> when it does not exist, and whether another process holds the lock.
\<close>

subsection \<open>Values of a decoded line\<close>

definition printable :: "char \<Rightarrow> bool" where
  "printable c = (let n = (of_char c :: nat) in (32 \<le> n \<and> n \<le> 126) \<or> (161 \<le> n \<and> n \<noteq> 173))"

definition repr_char :: "char \<Rightarrow> char \<Rightarrow> string" where
  "repr_char q c = (let n = (of_char c :: nat) in
     if c = q \<or> c = CHR 0x5C then [CHR 0x5C, c]
     else if n = 9 then CHR 0x5C # ''t''
     else if n = 10 then CHR 0x5C # ''n''
     else if n = 13 then CHR 0x5C # ''r''
     else if printable c then [c]
     else CHR 0x5C # ''x'' @ [hex_char (n div 16), hex_char (n mod 16)])"

definition repr_string :: "string \<Rightarrow> string" where
  "repr_string s =
     (let q = (if CHR 0x27 \<in> set s \<and> CHR 0x22 \<notin> set s then CHR 0x22 else CHR 0x27)
      in [q] @ concat (map (repr_char q) s) @ [q])"

fun repr_raw :: "raw \<Rightarrow> string" where
  "repr_raw RNull = ''None''"
| "repr_raw (RBool b) = (if b then ''True'' else ''False'')"
| "repr_raw (RInt i) = int_to_str i"
| "repr_raw (RFloat f) = float_repr f"
| "repr_raw RNan = ''nan''"
| "repr_raw (RInfinity s) = (if s then ''-inf'' else ''inf'')"
| "repr_raw (RStr s) = repr_string s"
| "repr_raw (RList xs) = ''['' @ str_join '', '' (map repr_raw xs) @ '']''"
| "repr_raw (RObj kvs) = ''{'' @ str_join '', '' (map (\<lambda>(k, t). repr_string k @ '': '' @ t)
     (map (\<lambda>(k, v). (k, repr_raw v)) kvs)) @ ''}''"

text \<open>\<^verbatim>\<open>str(value)\<close> and \<^verbatim>\<open>int(value)\<close>\<close>

definition raw_str :: "raw \<Rightarrow> string" where
  "raw_str v = (case v of RStr s \<Rightarrow> s | _ \<Rightarrow> repr_raw v)"

definition raw_int :: "raw \<Rightarrow> int res" where
  "raw_int v =
     (case v of
        RInt i \<Rightarrow> Inr i
      | RBool b \<Rightarrow> Inr (if b then 1 else 0)
      | RFloat f \<Rightarrow> Inr (Payloads.truncate (float_value f))
      | RNan \<Rightarrow> Inl (value_error ''cannot convert float NaN to integer'')
      | RInfinity s \<Rightarrow> Inl (PyExc ''OverflowError'' ''cannot convert float infinity to integer'' None)
      | RStr s \<Rightarrow> (case parse_int s of Some i \<Rightarrow> Inr i
                   | None \<Rightarrow> Inl (value_error ''invalid literal for int() with base 10''))
      | _ \<Rightarrow> Inl (type_error ''int() argument must be a string or a number''))"

definition raw_item :: "raw \<Rightarrow> string \<Rightarrow> raw res" where
  "raw_item v k =
     (case v of
        RObj kvs \<Rightarrow> (case dict_get kvs k of Some x \<Rightarrow> Inr x | None \<Rightarrow> Inl (key_error k))
      | _ \<Rightarrow> Inl (type_error ''not a mapping''))"

definition raw_event_type :: "raw \<Rightarrow> event_type res" where
  "raw_event_type v =
     (case v of
        RStr s \<Rightarrow> (case event_type_of s of Some et \<Rightarrow> Inr et | None \<Rightarrow> Inl (value_error ''not a valid EventType''))
      | _ \<Rightarrow> Inl (value_error ''not a valid EventType''))"

text \<open>\<^verbatim>\<open>except (KeyError, TypeError, ValueError)\<close>\<close>

definition malformed_record :: "'a res \<Rightarrow> 'a res" where
  "malformed_record r =
     (case r of
        Inl e \<Rightarrow> if exc_class e \<in> {''KeyError'', ''TypeError'', ''ValueError''}
                 then Inl (ledger_corruption ''Malformed ledger record'') else Inl e
      | Inr x \<Rightarrow> Inr x)"

definition raw_field :: "raw \<Rightarrow> string \<Rightarrow> string res" where
  "raw_field v k = res_bind (raw_item v k) (\<lambda>x. Inr (raw_str x))"

definition audit_record_from_dict :: "(int \<Rightarrow> datetime res) \<Rightarrow> raw \<Rightarrow> audit_record res" where
  "audit_record_from_dict local_zone v =
     malformed_record
       (res_bind (raw_field v ''occurred_at'') (\<lambda>at_text.
        res_bind (read_instant local_zone at_text) (\<lambda>occurred.
        res_bind (res_bind (raw_item v ''event_type'') raw_event_type) (\<lambda>et.
        res_bind (res_bind (raw_item v ''payload'') (\<lambda>p. normalize_json (pyval_of_raw p))) (\<lambda>p.
        res_bind (raw_field v ''payload_hash'') (\<lambda>ph.
        res_bind (raw_field v ''previous_hash'') (\<lambda>prev.
        res_bind (raw_field v ''record_hash'') (\<lambda>h.
        res_bind (raw_field v ''record_id'') (\<lambda>uid.
        res_bind (res_bind (raw_item v ''schema_version'') raw_int) (\<lambda>schema.
        res_bind (res_bind (raw_item v ''sequence'') raw_int) (\<lambda>n.
          Inr \<lparr>rec_sequence = n, rec_id = uid, rec_occurred_at = occurred, rec_event_type = et,
               rec_payload = p, rec_previous_hash = prev, rec_payload_hash = ph, rec_hash = h,
               rec_schema_version = schema\<rparr>)))))))))))"

subsection \<open>Lines\<close>

record ledger_file =
  file_text :: "string option"
  file_locked :: bool

text \<open>A text file is opened with universal newlines.\<close>

fun universal_newlines :: "string \<Rightarrow> string" where
  "universal_newlines [] = []"
| "universal_newlines (c # r) =
     (if c = CHR 0x0D
      then CHR 0x0A # universal_newlines (if take 1 r = [CHR 0x0A] then drop 1 r else r)
      else c # universal_newlines r)"

function file_lines :: "string \<Rightarrow> string list" where
  "file_lines s =
     (if s = [] then []
      else takeWhile (\<lambda>c. c \<noteq> CHR 0x0A) s # file_lines (drop 1 (dropWhile (\<lambda>c. c \<noteq> CHR 0x0A) s)))"
  by pat_completeness auto

termination
proof (relation "measure length")
  fix s :: string
  assume "s \<noteq> []"
  have "length (dropWhile (\<lambda>c. c \<noteq> CHR 0x0A) s) \<le> length s" by (rule length_dropWhile_le)
  with \<open>s \<noteq> []\<close> have "length (drop 1 (dropWhile (\<lambda>c. c \<noteq> CHR 0x0A) s)) < length s" by (cases s) auto
  then show "(drop 1 (dropWhile (\<lambda>c. c \<noteq> CHR 0x0A) s), s) \<in> measure length" by simp
qed simp

declare file_lines.simps [simp del]

definition read_line :: "(int \<Rightarrow> datetime res) \<Rightarrow> int \<Rightarrow> string \<Rightarrow> audit_record res" where
  "read_line local_zone n line =
     (let stripped = str_strip line in
      if stripped = [] then Inl (ledger_corruption (''Blank ledger line at '' @ int_to_str n))
      else case json_loads stripped of
        Inl e \<Rightarrow> if exc_class e = ''JSONDecodeError''
                 then Inl (ledger_corruption (''Invalid JSON on line '' @ int_to_str n)) else Inl e
      | Inr v \<Rightarrow> audit_record_from_dict local_zone v)"

definition assert_append_boundary :: "string option \<Rightarrow> unit res" where
  "assert_append_boundary text =
     (case text of
        None \<Rightarrow> Inr ()
      | Some s \<Rightarrow>
          if s = [] \<or> last s = CHR 0x0A then Inr ()
          else Inl (ledger_corruption ''Ledger does not end with an append boundary newline''))"

definition text_lines :: "string option \<Rightarrow> string list" where
  "text_lines text = (case text of None \<Rightarrow> [] | Some s \<Rightarrow> file_lines (universal_newlines s))"

text \<open>Reading and checking go line by line, so the first bad line decides the error.\<close>

fun verify_lines ::
  "digest \<Rightarrow> (int \<Rightarrow> datetime res) \<Rightarrow> string list \<Rightarrow> int \<Rightarrow> string \<Rightarrow> ledger_state res" where
  "verify_lines sha local_zone [] n prev = Inr \<lparr>next_sequence = n, last_hash = prev\<rparr>"
| "verify_lines sha local_zone (line # lines) n prev =
     res_bind (read_line local_zone n line) (\<lambda>r.
       res_bind (verify_audit_record sha r n n prev) (\<lambda>h. verify_lines sha local_zone lines (n + 1) h))"

fun read_lines :: "(int \<Rightarrow> datetime res) \<Rightarrow> string list \<Rightarrow> int \<Rightarrow> audit_record list res" where
  "read_lines local_zone [] n = Inr []"
| "read_lines local_zone (line # lines) n =
     res_bind (read_line local_zone n line) (\<lambda>r.
       res_bind (read_lines local_zone lines (n + 1)) (\<lambda>rs. Inr (r # rs)))"

definition verify_file :: "digest \<Rightarrow> (int \<Rightarrow> datetime res) \<Rightarrow> string option \<Rightarrow> ledger_state res" where
  "verify_file sha local_zone text =
     res_bind (assert_append_boundary text) (\<lambda>_. verify_lines sha local_zone (text_lines text) 1 genesis_hash)"

subsection \<open>Operations\<close>

definition file_snapshot ::
  "digest \<Rightarrow> (int \<Rightarrow> datetime res) \<Rightarrow> ledger_file \<Rightarrow> (ledger_state \<times> audit_record list) res" where
  "file_snapshot sha local_zone f =
     (if file_locked f then Inl ledger_lock_error
      else res_bind (verify_file sha local_zone (file_text f)) (\<lambda>st.
        res_bind (read_lines local_zone (text_lines (file_text f)) 1) (\<lambda>rs. Inr (st, rs))))"

definition unsigned_fields ::
  "digest \<Rightarrow> event_type \<Rightarrow> json \<Rightarrow> datetime \<Rightarrow> string \<Rightarrow> ledger_state \<Rightarrow> payload" where
  "unsigned_fields sha et p now uid st =
     [(''event_type'', JStr (event_type_value et)),
      (''occurred_at'', JStr (isoformat now)),
      (''payload'', p),
      (''payload_hash'', JStr (sha (canonical_json p))),
      (''previous_hash'', JStr (last_hash st)),
      (''record_id'', JStr uid),
      (''schema_version'', JInt ledger_schema_version),
      (''sequence'', JInt (next_sequence st))]"

definition file_append ::
  "digest \<Rightarrow> (int \<Rightarrow> datetime res) \<Rightarrow> event_type \<Rightarrow> pyval \<Rightarrow> datetime \<Rightarrow> string \<Rightarrow> ledger_file
     \<Rightarrow> audit_record res \<times> ledger_file" where
  "file_append sha local_zone et p now uid f =
     (if file_locked f then (Inl ledger_lock_error, f)
      else
        case verify_file sha local_zone (file_text f) of
          Inl e \<Rightarrow> (Inl e, f)
        | Inr st \<Rightarrow>
            (case normalize_json p of
               Inl e \<Rightarrow> (Inl e, f)
             | Inr j \<Rightarrow>
                 let unsigned = unsigned_fields sha et j now uid st;
                     signed = unsigned @ [(''record_hash'', JStr (sha (canonical_json (JObj unsigned))))]
                 in (case audit_record_from_dict local_zone (raw_of_json (JObj signed)) of
                       Inl e \<Rightarrow> (Inl e, f)
                     | Inr r \<Rightarrow>
                         (Inr r, f\<lparr>file_text :=
                            Some ((case file_text f of None \<Rightarrow> [] | Some s \<Rightarrow> s)
                                  @ canonical_json (JObj signed) @ [CHR 0x0A])\<rparr>))))"

subsection \<open>The characters of a canonical text\<close>

definition plain_char :: "char \<Rightarrow> bool" where
  "plain_char c \<longleftrightarrow> 32 \<le> (of_char c :: nat) \<and> (of_char c :: nat) \<le> 126"

lemma digit_plain: "is_digit c \<Longrightarrow> plain_char c"
  by (simp add: is_digit_def plain_char_def)

lemma plain_marks [simp]:
  "plain_char (CHR '':'')" "plain_char (CHR 0x5B)" "plain_char (CHR 0x5D)" "plain_char (CHR 0x7B)" "plain_char (CHR 0x7D)"
  by (simp_all add: plain_char_def)

lemma hex_char_plain: "d < 16 \<Longrightarrow> plain_char (hex_char d)"
  by (auto simp: hex_char_def plain_char_def)

lemma escape_char_plain: "list_all plain_char (escape_char c)"
proof -
  have "(of_char c :: nat) < 256" by simp
  then have "(of_char c :: nat) div 16 < 16" "(of_char c :: nat) mod 16 < 16" by linarith+
  then have "plain_char (hex_char (of_char c div 16))" "plain_char (hex_char (of_char c mod 16))"
    by (simp_all add: hex_char_plain)
  then show ?thesis
    by (auto simp: escape_char_def Let_def plain_char_def)
qed

lemma json_string_plain: "list_all plain_char (json_string s)"
  using escape_char_plain by (auto simp: json_string_def list_all_iff plain_char_def)

lemma number_text_plain:
  assumes "plain_integer ip" and "list_all is_digit fp" and "exponent_ok ex"
  shows "list_all plain_char (number_text neg ip fp ex)"
  using assms digit_plain
  by (auto simp: number_text_def plain_integer_def fraction_suffix_def exponent_suffix_def exponent_ok_def
      list_all_iff plain_char_def split: option.splits)

lemma int_to_str_plain: "list_all plain_char (int_to_str i)"
  using nat_to_str_digits digit_plain by (auto simp: int_to_str_def list_all_iff plain_char_def)

lemma float_repr_plain: "list_all plain_char (float_repr f)"
  using float_repr_text [of f] number_text_plain by (auto simp: written_as_def)

lemma str_join_plain:
  "list_all plain_char sep \<Longrightarrow> (\<And>x. x \<in> set xs \<Longrightarrow> list_all plain_char x) \<Longrightarrow> list_all plain_char (str_join sep xs)"
  by (cases xs) (auto simp: str_join_def list_all_iff)

lemma comma_plain: "list_all plain_char '',''"
  by (simp add: plain_char_def)

lemma plain_words: "list_all plain_char ''null''" "list_all plain_char ''true''" "list_all plain_char ''false''"
  by (simp_all add: plain_char_def)

lemma canonical_plain: "list_all plain_char (canonical_json j)"
proof (induction j)
  case (JList xs)
  then have "list_all plain_char (str_join '','' (map canonical_json xs))"
    by (intro str_join_plain [OF comma_plain]) auto
  then show ?case by simp
next
  case (JObj kvs)
  have "list_all plain_char (member_text kv)" if "kv \<in> set kvs" for kv
    using JObj [of kv "snd kv"] that json_string_plain [of "fst kv"]
    by (cases kv) (simp add: member_text_def)
  then have "list_all plain_char (str_join '','' (map member_text (sort_key fst kvs)))"
    by (intro str_join_plain [OF comma_plain]) auto
  then show ?case by (simp only: canonical_object) simp
next
  case JNull
  show ?case by (simp only: canonical_json.simps plain_words)
next
  case (JBool b)
  show ?case by (cases b) (simp_all only: canonical_json.simps plain_words if_True if_False)
qed (simp_all add: json_string_plain int_to_str_plain float_repr_plain)

lemma plain_not_newline: "list_all plain_char s \<Longrightarrow> CHR 0x0A \<notin> set s \<and> CHR 0x0D \<notin> set s"
  by (auto simp: list_all_iff plain_char_def)

subsection \<open>The lines of a written ledger\<close>

definition record_line :: "audit_record \<Rightarrow> string" where
  "record_line r = canonical_json (JObj (record_to_dict r))"

definition ledger_text :: "audit_record list \<Rightarrow> string" where
  "ledger_text rs = concat (map (\<lambda>r. record_line r @ [CHR 0x0A]) rs)"

lemma record_line_plain: "list_all plain_char (record_line r)"
  unfolding record_line_def by (rule canonical_plain)

lemma universal_newlines_id: "CHR 0x0D \<notin> set s \<Longrightarrow> universal_newlines s = s"
  by (induction s) auto

lemma file_lines_cons:
  assumes "CHR 0x0A \<notin> set l"
  shows "file_lines (l @ CHR 0x0A # s) = l # file_lines s"
proof -
  have "takeWhile (\<lambda>c. c \<noteq> CHR 0x0A) (l @ CHR 0x0A # s) = l"
    "dropWhile (\<lambda>c. c \<noteq> CHR 0x0A) (l @ CHR 0x0A # s) = CHR 0x0A # s"
    using assms by (induction l) auto
  then show ?thesis by (subst file_lines.simps) simp
qed

lemma ledger_text_lines: "text_lines (Some (ledger_text rs)) = map record_line rs"
proof -
  have "CHR 0x0D \<notin> set (ledger_text rs)"
    using record_line_plain by (auto simp: ledger_text_def dest!: plain_not_newline)
  moreover have "file_lines (ledger_text rs) = map record_line rs"
    using record_line_plain plain_not_newline
    by (induction rs) (simp_all add: ledger_text_def file_lines_cons file_lines.simps [of "[]"])
  ultimately show ?thesis by (simp add: text_lines_def universal_newlines_id)
qed

lemma ledger_text_boundary: "assert_append_boundary (Some (ledger_text rs)) = Inr ()"
  by (cases rs rule: rev_cases) (simp_all add: assert_append_boundary_def ledger_text_def)



lemma record_line_braces: "\<exists>t. record_line r = CHR 0x7B # t @ [CHR 0x7D]"
  unfolding record_line_def canonical_object by auto

lemma str_strip_braces: "str_strip (CHR 0x7B # t @ [CHR 0x7D]) = CHR 0x7B # t @ [CHR 0x7D]"
  by (simp add: str_strip_def is_space_def)

lemma record_line_strip: "str_strip (record_line r) = record_line r" "record_line r \<noteq> []"
  using record_line_braces [of r] str_strip_braces by auto

subsection \<open>Reading a record back\<close>

definition sort_record :: "audit_record \<Rightarrow> audit_record" where
  "sort_record r = r\<lparr>rec_payload := key_sorted (rec_payload r)\<rparr>"

text \<open>A record whose line can be read back: its payload and numbers, and an instant a \<^verbatim>\<open>datetime\<close> can be.\<close>

definition storable :: "audit_record \<Rightarrow> bool" where
  "storable r \<longleftrightarrow>
     readable (rec_payload r) \<and> readable_int (rec_sequence r) \<and> readable_int (rec_schema_version r) \<and>
     min_instant \<le> rec_occurred_at r \<and> rec_occurred_at r \<le> max_instant"

lemma readable_record: "storable r \<Longrightarrow> readable (JObj (record_to_dict r))"
  by (simp add: storable_def record_to_dict_def)

lemma record_keys_sorted: "sorted (map fst (record_to_dict r))"
proof -
  have "sorted [''event_type'', ''occurred_at'', ''payload'', ''payload_hash'', ''previous_hash'', ''record_hash'',
      ''record_id'', ''schema_version'', ''sequence'']" by code_simp
  then show ?thesis by (simp add: record_to_dict_def)
qed

lemma key_sorted_record: "key_sorted (JObj (record_to_dict r)) = JObj (record_to_dict (sort_record r))"
proof -
  have "key_sorted (JObj (record_to_dict r)) = JObj (map (\<lambda>(k, v). (k, key_sorted v)) (sort_key fst (record_to_dict r)))"
    by (simp only: key_sorted.simps sort_key_values)
  also have "sort_key fst (record_to_dict r) = record_to_dict r"
    by (rule sort_key_id_if_sorted [OF record_keys_sorted])
  finally show ?thesis by (simp add: record_to_dict_def sort_record_def)
qed

lemma record_line_sorted: "record_line (sort_record r) = record_line r"
  unfolding record_line_def key_sorted_record [symmetric] by (rule canonical_key_sorted)

lemma record_from_dict:
  assumes "storable r" and "set kvs = set (record_to_dict r)" and "distinct (map fst kvs)"
  shows "audit_record_from_dict local_zone (raw_of_json (JObj kvs)) = Inr r"
proof -
  define get where "get = map_of (record_to_dict r)"
  have "distinct (map fst (record_to_dict r))" by (simp add: record_to_dict_def)
  then have "map_of kvs = get"
    unfolding get_def using assms(2,3) by (simp add: map_of_inject_set)
  then have item: "raw_item (raw_of_json (JObj kvs)) k
      = (case get k of Some x \<Rightarrow> Inr (raw_of_json x) | None \<Rightarrow> Inl (key_error k))" for k
    by (simp add: raw_item_def map_of_map split: option.splits)
  have get: "get ''event_type'' = Some (JStr (event_type_value (rec_event_type r)))"
    "get ''occurred_at'' = Some (JStr (isoformat (rec_occurred_at r)))"
    "get ''payload'' = Some (rec_payload r)" "get ''payload_hash'' = Some (JStr (rec_payload_hash r))"
    "get ''previous_hash'' = Some (JStr (rec_previous_hash r))" "get ''record_hash'' = Some (JStr (rec_hash r))"
    "get ''record_id'' = Some (JStr (rec_id r))" "get ''schema_version'' = Some (JInt (rec_schema_version r))"
    "get ''sequence'' = Some (JInt (rec_sequence r))"
    by (simp_all add: get_def record_to_dict_def)
  have "read_instant local_zone (isoformat (rec_occurred_at r)) = Inr (rec_occurred_at r)"
    by (rule read_instant_isoformat) (use assms(1) in \<open>simp_all add: storable_def\<close>)
  moreover have "normalize_json (pyval_of_raw (raw_of_json (rec_payload r))) = Inr (rec_payload r)"
    using assms(1) by (simp add: storable_def pyval_of_raw_json normalize_json_of_json readable_wf)
  ultimately show ?thesis
    unfolding audit_record_from_dict_def raw_field_def item get
    by (simp add: raw_str_def raw_event_type_def raw_int_def malformed_record_def)
qed

lemma read_line_record:
  assumes "storable r"
  shows "read_line local_zone n (record_line r) = Inr (sort_record r)"
proof -
  have "json_loads (record_line r) = Inr (raw_of_json (JObj (record_to_dict (sort_record r))))"
    unfolding record_line_def by (subst json_loads_canonical [OF readable_record [OF assms]]) (simp only: key_sorted_record)
  moreover have "audit_record_from_dict local_zone (raw_of_json (JObj (record_to_dict (sort_record r)))) = Inr (sort_record r)"
    by (rule record_from_dict) (use assms readable_key_sorted in \<open>auto simp: storable_def sort_record_def record_to_dict_def\<close>)
  ultimately show ?thesis by (simp add: read_line_def record_line_strip)
qed

lemma unsigned_dict:
  "dict_pop ''record_hash'' (record_to_dict r) =
     [(''event_type'', JStr (event_type_value (rec_event_type r))),
      (''occurred_at'', JStr (isoformat (rec_occurred_at r))),
      (''payload'', rec_payload r),
      (''payload_hash'', JStr (rec_payload_hash r)),
      (''previous_hash'', JStr (rec_previous_hash r)),
      (''record_id'', JStr (rec_id r)),
      (''schema_version'', JInt (rec_schema_version r)),
      (''sequence'', JInt (rec_sequence r))]"
  by (simp add: record_to_dict_def)

lemma key_sorted_unsigned:
  "key_sorted (JObj (dict_pop ''record_hash'' (record_to_dict r)))
     = JObj (dict_pop ''record_hash'' (record_to_dict (sort_record r)))"
proof -
  let ?d = "dict_pop ''record_hash'' (record_to_dict r)"
  have "sorted [''event_type'', ''occurred_at'', ''payload'', ''payload_hash'', ''previous_hash'',
      ''record_id'', ''schema_version'', ''sequence'']" by code_simp
  then have "sorted (map fst ?d)" by (simp add: unsigned_dict)
  then have "sort_key fst ?d = ?d" by (rule sort_key_id_if_sorted)
  then have "key_sorted (JObj ?d) = JObj (map (\<lambda>(k, v). (k, key_sorted v)) ?d)"
    by (simp only: key_sorted.simps sort_key_values)
  then show ?thesis by (simp add: unsigned_dict sort_record_def)
qed

lemma unsigned_text_sorted: "unsigned_text (sort_record r) = unsigned_text r"
  unfolding unsigned_text_def key_sorted_unsigned [symmetric] by (rule canonical_key_sorted)

lemma verify_sorted_record:
  "verify_audit_record sha (sort_record r) expected line prev = verify_audit_record sha r expected line prev"
proof -
  have "payload_text (sort_record r) = payload_text r"
    by (simp add: payload_text_def sort_record_def canonical_key_sorted)
  with unsigned_text_sorted [of r] show ?thesis
    by (simp add: verify_audit_record_def) (simp add: sort_record_def)
qed

lemma verify_lines_ledger:
  "list_all storable rs \<Longrightarrow> verify_lines sha local_zone (map record_line rs) n prev = verify_from sha rs n prev"
proof (induction rs arbitrary: n prev)
  case Nil
  show ?case by simp
next
  case (Cons r rs)
  then show ?case
    by (cases "verify_audit_record sha r n n prev") (simp_all add: read_line_record verify_sorted_record)
qed

lemma read_lines_ledger:
  "list_all storable rs \<Longrightarrow> read_lines local_zone (map record_line rs) n = Inr (map sort_record rs)"
  by (induction rs arbitrary: n) (simp_all add: read_line_record)

subsection \<open>The file implements the list of records\<close>

definition represents :: "ledger_file \<Rightarrow> ledger \<Rightarrow> bool" where
  "represents f led \<longleftrightarrow>
     file_locked f = led_locked led \<and> list_all storable (led_records led) \<and>
     (file_text f = Some (ledger_text (led_records led)) \<or> file_text f = None \<and> led_records led = [])"

lemma missing_file: "text_lines None = []" "assert_append_boundary None = Inr ()"
  by (simp_all add: text_lines_def assert_append_boundary_def)

lemma represents_verify:
  "represents f led \<Longrightarrow> verify_file sha local_zone (file_text f) = verify_audit_records sha (led_records led)"
  by (auto simp: represents_def verify_file_def ledger_text_boundary ledger_text_lines verify_lines_ledger
      verify_audit_records_def missing_file)

lemma represents_read:
  "represents f led \<Longrightarrow> read_lines local_zone (text_lines (file_text f)) 1 = Inr (map sort_record (led_records led))"
  by (auto simp: represents_def ledger_text_lines read_lines_ledger missing_file)

text \<open>Reading the file gives the state of the list and its records, the keys of their payloads in order.\<close>

theorem file_snapshot_refines:
  assumes "represents f led"
  shows "file_snapshot sha local_zone f
    = res_bind (ledger_snapshot sha led) (\<lambda>(st, rs). Inr (st, map sort_record rs))"
  using assms represents_verify [OF assms, of sha local_zone] represents_read [OF assms, of local_zone]
  by (cases "verify_audit_records sha (led_records led)")
    (simp_all add: file_snapshot_def ledger_snapshot_def, simp_all add: represents_def)

lemma readable_int_one: "readable_int 1"
  by (simp add: readable_int_def num_digits_def nat_to_str.simps)

lemma signed_record_fields:
  "dict_pop ''record_hash'' (record_to_dict (signed_record sha et j now uid st)) = unsigned_fields sha et j now uid st"
  "rec_hash (signed_record sha et j now uid st) = sha (canonical_json (JObj (unsigned_fields sha et j now uid st)))"
proof -
  show "dict_pop ''record_hash'' (record_to_dict (signed_record sha et j now uid st)) = unsigned_fields sha et j now uid st"
    by (simp add: unsigned_dict signed_record_def Let_def unsigned_fields_def)
  moreover have "rec_hash (signed_record sha et j now uid st) = sha (unsigned_text (signed_record sha et j now uid st))"
    by (simp only: signed_record_def Let_def unsigned_text_hash) simp
  ultimately show "rec_hash (signed_record sha et j now uid st)
      = sha (canonical_json (JObj (unsigned_fields sha et j now uid st)))"
    by (simp only: unsigned_text_def)
qed

definition signed_fields ::
  "digest \<Rightarrow> event_type \<Rightarrow> json \<Rightarrow> datetime \<Rightarrow> string \<Rightarrow> ledger_state \<Rightarrow> payload" where
  "signed_fields sha et j now uid st =
     unsigned_fields sha et j now uid st
     @ [(''record_hash'', JStr (sha (canonical_json (JObj (unsigned_fields sha et j now uid st)))))]"

lemma signed_fields_perm:
  "mset (signed_fields sha et j now uid st) = mset (record_to_dict (signed_record sha et j now uid st))"
  "distinct (map fst (signed_fields sha et j now uid st))"
proof -
  let ?r = "signed_record sha et j now uid st"
  have "mset (record_to_dict ?r) = mset (dict_pop ''record_hash'' (record_to_dict ?r) @ [(''record_hash'', JStr (rec_hash ?r))])"
    by (simp add: record_to_dict_def)
  then show "mset (signed_fields sha et j now uid st) = mset (record_to_dict ?r)"
    by (simp only: signed_record_fields signed_fields_def)
  show "distinct (map fst (signed_fields sha et j now uid st))"
    by (simp add: signed_fields_def unsigned_fields_def)
qed

lemma signed_fields_line: "canonical_json (JObj (signed_fields sha et j now uid st)) = record_line (signed_record sha et j now uid st)"
  unfolding record_line_def by (rule canonical_json_key_order [OF signed_fields_perm])

lemma appended_record_storable:
  assumes "verify_audit_records sha (led_records led) = Inr st" and "readable j"
    and "min_instant \<le> now" and "now \<le> max_instant" and "readable_int (int (length (led_records led)) + 1)"
  shows "storable (signed_record sha et j now uid st)"
proof -
  have "next_sequence st = int (length (led_records led)) + 1" using verify_state_unique [OF assms(1)] by simp
  with assms(2-5) readable_int_one show ?thesis
    by (simp add: storable_def signed_record_def Let_def ledger_schema_version_def)
qed

lemma append_storable:
  assumes "ledger_append sha et p now uid led = (Inr r, led')" and "list_all storable (led_records led)"
    and "\<And>j. normalize_json p = Inr j \<Longrightarrow> readable j"
    and "min_instant \<le> now" and "now \<le> max_instant" and "readable_int (int (length (led_records led)) + 1)"
  shows "list_all storable (led_records led')"
proof -
  from assms(1) obtain st j where st: "verify_audit_records sha (led_records led) = Inr st" and j: "normalize_json p = Inr j"
    and led': "led' = led\<lparr>led_records := led_records led @ [signed_record sha et j now uid st]\<rparr>"
    by (auto simp: ledger_append_def Let_def split: if_splits sum.splits)
  have "storable (signed_record sha et j now uid st)"
    by (rule appended_record_storable [OF st assms(3) [OF j] assms(4-6)])
  with assms(2) show ?thesis by (simp add: led')
qed

lemma file_append_simulates:
  assumes "represents f led" and "\<And>j. normalize_json p = Inr j \<Longrightarrow> readable j"
    and "min_instant \<le> now" and "now \<le> max_instant" and "readable_int (int (length (led_records led)) + 1)"
  shows "\<exists>f'. file_append sha local_zone et p now uid f = (fst (ledger_append sha et p now uid led), f') \<and>
           represents f' (snd (ledger_append sha et p now uid led))"
proof (cases "led_locked led")
  case True
  with assms(1) show ?thesis by (simp add: represents_def file_append_def ledger_append_def)
next
  case False
  with assms(1) have unlocked: "\<not> file_locked f" by (simp add: represents_def)
  show ?thesis
  proof (cases "verify_audit_records sha (led_records led)")
    case (Inl e)
    with False unlocked show ?thesis
      using assms(1) represents_verify [OF assms(1)] by (simp add: file_append_def ledger_append_def)
  next
    case (Inr st)
    show ?thesis
    proof (cases "normalize_json p")
      case (Inl e)
      with Inr False unlocked show ?thesis
        using assms(1) represents_verify [OF assms(1)] by (simp add: file_append_def ledger_append_def)
    next
      case j: (Inr j)
      let ?r = "signed_record sha et j now uid st"
      have r: "storable ?r" by (rule appended_record_storable [OF Inr assms(2) [OF j] assms(3-5)])
      have "audit_record_from_dict local_zone (raw_of_json (JObj (signed_fields sha et j now uid st))) = Inr ?r"
        by (rule record_from_dict [OF r mset_eq_setD [OF signed_fields_perm(1)] signed_fields_perm(2)])
      moreover have "represents (f\<lparr>file_text := Some ((case file_text f of None \<Rightarrow> [] | Some s \<Rightarrow> s)
          @ record_line ?r @ [CHR 0x0A])\<rparr>) (led\<lparr>led_records := led_records led @ [?r]\<rparr>)"
        using assms(1) r by (auto simp: represents_def ledger_text_def)
      ultimately show ?thesis
        using unlocked False Inr j represents_verify [OF assms(1), of sha local_zone]
        by (simp add: file_append_def ledger_append_def Let_def signed_fields_line
            flip: signed_fields_def del: raw_of_json.simps canonical_json.simps)
    qed
  qed
qed

text \<open>
  C5. The file refines the list: appending to the text of a ledger does what appending to its records does,
  with the same result or the same error, and the text afterwards is the text of the records afterwards.
\<close>

theorem file_append_refines:
  assumes "represents f led" and "\<And>j. normalize_json p = Inr j \<Longrightarrow> readable j"
    and "min_instant \<le> now" and "now \<le> max_instant" and "readable_int (int (length (led_records led)) + 1)"
  shows "\<exists>f'. file_append sha local_zone et p now uid f = (fst (ledger_append sha et p now uid led), f') \<and>
           represents f' (snd (ledger_append sha et p now uid led))"
  by (rule file_append_simulates [OF assms])

lemma represents_empty: "represents \<lparr>file_text = None, file_locked = False\<rparr> \<lparr>led_records = [], led_locked = False\<rparr>"
  by (simp add: represents_def)

theorem file_append_refines_witness:
  "\<exists>f'. file_append (\<lambda>s. s) (\<lambda>t. Inr t) ET_SYSTEM_STARTED (PvMapping [(''task_count'', PvInt 2)]) 0 ''id''
           \<lparr>file_text = None, file_locked = False\<rparr>
         = (fst (ledger_append (\<lambda>s. s) ET_SYSTEM_STARTED (PvMapping [(''task_count'', PvInt 2)]) 0 ''id''
                   \<lparr>led_records = [], led_locked = False\<rparr>), f') \<and>
       represents f' (snd (ledger_append (\<lambda>s. s) ET_SYSTEM_STARTED (PvMapping [(''task_count'', PvInt 2)]) 0 ''id''
                   \<lparr>led_records = [], led_locked = False\<rparr>))"
  by (rule file_append_refines [OF represents_empty])
    (auto simp: dict_of_items_def readable_int_def num_digits_def nat_to_str.simps min_instant_def max_instant_def)

subsection \<open>A write cut short\<close>

definition boundary_error :: pyexc where
  "boundary_error = ledger_corruption ''Ledger does not end with an append boundary newline''"

text \<open>What a crash leaves of an append: the file before and the first \<open>k\<close> characters of the new line.\<close>

definition torn_append :: "nat \<Rightarrow> ledger_file \<Rightarrow> ledger_file \<Rightarrow> ledger_file" where
  "torn_append k f f' =
     f\<lparr>file_text := Some (take (length (case file_text f of None \<Rightarrow> [] | Some s \<Rightarrow> s) + k)
                           (case file_text f' of None \<Rightarrow> [] | Some s \<Rightarrow> s))\<rparr>"

lemma file_append_Inr:
  assumes "file_append sha local_zone et p now uid f = (Inr r, f')"
  obtains j st where "\<not> file_locked f" and "f' = f\<lparr>file_text := Some ((case file_text f of None \<Rightarrow> [] | Some s \<Rightarrow> s)
      @ canonical_json j @ [CHR 0x0A])\<rparr>" and "verify_file sha local_zone (file_text f) = Inr st"
  using assms
  by (auto simp: file_append_def Let_def simp del: raw_of_json.simps canonical_json.simps split: if_splits sum.splits)

lemma boundary_refuses:
  assumes "\<not> file_locked f" and "file_text f = Some s" and "s \<noteq> []" and "last s \<noteq> CHR 0x0A"
  shows "file_snapshot sha local_zone f = Inl boundary_error"
    and "file_append sha local_zone et p now uid f = (Inl boundary_error, f)"
  using assms by (simp_all add: file_snapshot_def file_append_def verify_file_def assert_append_boundary_def boundary_error_def)

text \<open>
  C6. A crash while a record is appended loses nothing silently: wherever the new line was cut, the file reads
  as before the append or as after it, or it is refused, and then nothing is appended to it either.
\<close>

theorem torn_append_detected:
  assumes "file_append sha local_zone et p now uid f = (Inr r, f')"
  shows "file_snapshot sha local_zone (torn_append k f f') = file_snapshot sha local_zone f \<or>
         file_snapshot sha local_zone (torn_append k f f') = file_snapshot sha local_zone f' \<or>
         (file_snapshot sha local_zone (torn_append k f f') = Inl boundary_error \<and>
          (\<forall>et' p' now' uid'. file_append sha local_zone et' p' now' uid' (torn_append k f f')
             = (Inl boundary_error, torn_append k f f')))"
proof -
  obtain j st where unlocked: "\<not> file_locked f"
    and f': "f' = f\<lparr>file_text := Some ((case file_text f of None \<Rightarrow> [] | Some s \<Rightarrow> s) @ canonical_json j @ [CHR 0x0A])\<rparr>"
    using assms by (rule file_append_Inr)
  define s where "s = (case file_text f of None \<Rightarrow> [] | Some s \<Rightarrow> s)"
  have torn: "torn_append k f f' = f\<lparr>file_text := Some (s @ take k (canonical_json j @ [CHR 0x0A]))\<rparr>"
    by (simp add: torn_append_def f' s_def)
  consider "k = 0" | "length (canonical_json j) < k" | "0 < k" "k \<le> length (canonical_json j)" by linarith
  then show ?thesis
  proof cases
    case 1
    have "verify_file sha local_zone (Some s) = verify_file sha local_zone (file_text f)"
      "text_lines (Some s) = text_lines (file_text f)"
      by (cases "file_text f"; simp add: s_def verify_file_def assert_append_boundary_def text_lines_def file_lines.simps [of "[]"])+
    with 1 torn show ?thesis by (simp add: file_snapshot_def)
  next
    case 2
    then have "torn_append k f f' = f'" unfolding torn by (simp add: f' s_def)
    then show ?thesis by simp
  next
    case 3
    define t where "t = take k (canonical_json j)"
    have t: "t \<noteq> []" using 3 by (cases "canonical_json j") (auto simp: t_def)
    have "last t \<in> set (canonical_json j)" using last_in_set [OF t] set_take_subset unfolding t_def by fast
    then have "last t \<noteq> CHR 0x0A" using plain_not_newline [OF canonical_plain [of j]] by auto
    moreover have "torn_append k f f' = f\<lparr>file_text := Some (s @ t)\<rparr>" using 3 by (simp add: torn t_def)
    ultimately show ?thesis using boundary_refuses [of "torn_append k f f'" "s @ t"] unlocked t by simp
  qed
qed

theorem torn_append_detected_witness:
  "\<exists>r f f'. file_append (\<lambda>s. s) (\<lambda>t. Inr t) ET_ERROR PvNone 0 ''id'' f = (Inr r, f') \<and> file_text f = None \<and>
     (file_snapshot (\<lambda>s. s) (\<lambda>t. Inr t) (torn_append 5 f f') = file_snapshot (\<lambda>s. s) (\<lambda>t. Inr t) f \<or>
      file_snapshot (\<lambda>s. s) (\<lambda>t. Inr t) (torn_append 5 f f') = file_snapshot (\<lambda>s. s) (\<lambda>t. Inr t) f' \<or>
      (file_snapshot (\<lambda>s. s) (\<lambda>t. Inr t) (torn_append 5 f f') = Inl boundary_error \<and>
       (\<forall>et' p' now' uid'. file_append (\<lambda>s. s) (\<lambda>t. Inr t) et' p' now' uid' (torn_append 5 f f')
          = (Inl boundary_error, torn_append 5 f f'))))"
proof -
  let ?f = "\<lparr>file_text = None, file_locked = False\<rparr>" and ?led = "\<lparr>led_records = [], led_locked = False\<rparr>"
  have "normalize_json PvNone = Inr JNull" by simp
  from ledger_append_ok [OF ledger_ok_empty this, where sha = "\<lambda>s. s" and et = ET_ERROR and now = 0 and uid = "''id''"]
  obtain r where r: "fst (ledger_append (\<lambda>s. s) ET_ERROR PvNone 0 ''id'' ?led) = Inr r" by auto
  obtain f' where "file_append (\<lambda>s. s) (\<lambda>t. Inr t) ET_ERROR PvNone 0 ''id'' ?f
      = (fst (ledger_append (\<lambda>s. s) ET_ERROR PvNone 0 ''id'' ?led), f')"
    using file_append_simulates [OF represents_empty, of PvNone 0 "\<lambda>s. s" "\<lambda>t. Inr t" ET_ERROR "''id''"]
    by (auto simp: readable_int_one min_instant_def max_instant_def)
  then have f': "file_append (\<lambda>s. s) (\<lambda>t. Inr t) ET_ERROR PvNone 0 ''id'' ?f = (Inr r, f')" by (simp only: r)
  from torn_append_detected [OF f', of 5] f' show ?thesis
    by (intro exI [of _ r] exI [of _ ?f] exI [of _ f'] conjI) (simp_all only: ledger_file.select_convs)
qed

subsection \<open>The hash chain determines the records\<close>

lemma unsigned_text_determines:
  assumes "storable r" and "storable r'" and "unsigned_text r = unsigned_text r'" and "rec_hash r = rec_hash r'"
  shows "sort_record r = sort_record r'"
proof -
  let ?d = "\<lambda>r. dict_pop ''record_hash'' (record_to_dict r)"
  have readable: "readable (JObj (?d r))" if "storable r" for r
    using that by (simp add: unsigned_dict storable_def)
  have "key_sorted (JObj (?d r)) = key_sorted (JObj (?d r'))"
    by (rule canonical_json_determines [OF readable [OF assms(1)] readable [OF assms(2)]])
      (rule assms(3) [unfolded unsigned_text_def])
  then have fields: "?d (sort_record r) = ?d (sort_record r')" by (simp only: key_sorted_unsigned json.inject)
  have "isoformat (rec_occurred_at r) = isoformat (rec_occurred_at r')"
    using fields by (simp add: unsigned_dict sort_record_def)
  moreover have "read_instant (\<lambda>t. Inr t) (isoformat (rec_occurred_at r)) = Inr (rec_occurred_at r)" if "storable r" for r
    using that by (intro read_instant_isoformat) (simp_all add: storable_def)
  ultimately have "rec_occurred_at r = rec_occurred_at r'" using assms(1,2) by (metis sum.inject(2))
  with fields assms(4) show ?thesis
    by (simp add: unsigned_dict sort_record_def event_type_enum.value_inj)
qed

text \<open>
  Tamper evidence: two ledgers that verify up to the same state hold the same records, payload for payload,
  unless the digest maps two different record texts to the same value. Whoever knows the last hash and its
  sequence can tell whether any record was changed, removed, added or reordered.
\<close>

theorem hash_chain_tamper_evident:
  assumes "verify_audit_records sha rs = Inr st" and "verify_audit_records sha rs' = Inr st"
    and "list_all storable rs" and "list_all storable rs'"
    and "inj_on sha (unsigned_text ` (set rs \<union> set rs'))"
  shows "map sort_record rs = map sort_record rs'"
  using assms
proof (induction rs arbitrary: rs' st rule: rev_induct)
  case Nil
  then show ?case using verify_state_unique [OF Nil.prems(1)] verify_state_unique [OF Nil.prems(2)] by simp
next
  case (snoc r rs)
  have st: "st = \<lparr>next_sequence = int (length (rs @ [r])) + 1, last_hash = rec_hash r\<rparr>"
    using verify_state_unique [OF snoc.prems(1)] by simp
  then have "length rs' = length (rs @ [r])" using verify_state_unique [OF snoc.prems(2)] by simp
  then obtain ys y where rs': "rs' = ys @ [y]" by (cases rs' rule: rev_cases) auto
  have hash: "rec_hash r = rec_hash y" using st verify_state_unique [OF snoc.prems(2)] rs' by simp
  from snoc.prems(1) obtain st1 where st1: "verify_audit_records sha rs = Inr st1"
      "verify_audit_record sha r (next_sequence st1) (next_sequence st1) (last_hash st1) = Inr (rec_hash r)"
    by (auto simp: verify_audit_records_def verify_from_append res_bind_Inr verify_audit_record_Inr)
  from snoc.prems(2) obtain st2 where st2: "verify_audit_records sha ys = Inr st2"
      "verify_audit_record sha y (next_sequence st2) (next_sequence st2) (last_hash st2) = Inr (rec_hash y)"
    by (auto simp: rs' verify_audit_records_def verify_from_append res_bind_Inr verify_audit_record_Inr)
  have "sha (unsigned_text r) = sha (unsigned_text y)"
    using hash st1(2) st2(2) by (simp add: verify_audit_record_Inr)
  then have "unsigned_text r = unsigned_text y"
    by (rule inj_onD [OF snoc.prems(5)]) (simp_all add: rs')
  then have same: "sort_record r = sort_record y"
    by (intro unsigned_text_determines) (use snoc.prems(3,4) rs' hash in auto)
  then have "rec_previous_hash r = rec_previous_hash y" by (simp add: sort_record_def) (metis audit_record.select_convs(6) audit_record.surjective audit_record.update_convs(5))
  then have "st2 = st1"
    using st1 st2 verify_state_unique [OF st1(1)] verify_state_unique [OF st2(1)] \<open>length rs' = length (rs @ [r])\<close> rs'
    by (simp add: verify_audit_record_Inr)
  then have "map sort_record rs = map sort_record ys"
    using snoc.prems rs' st1(1) st2(1) by (intro snoc.IH) (auto intro: inj_on_subset)
  with same rs' show ?case by simp
qed

end
