(* ===== verification/Checkpoints.thy ===== *)
theory Checkpoints
  imports Ledger_File
begin

text \<open>
  \<^verbatim>\<open>audit/checkpoints.py\<close>: a checkpoint is a digest of the records of the ledger so far, itself hashed and
  recorded in the ledger. The path of the ledger is its text, the digest and the clock readings are
  arguments, and the file exists.
\<close>

subsection \<open>Checkpoints and their payloads\<close>

record checkpoint =
  cp_created_at :: datetime
  cp_digest_algorithm :: digest_algorithm
  cp_ledger_path :: string
  cp_record_count :: int
  cp_records_digest :: string
  cp_through_hash :: string
  cp_through_sequence :: int
  cp_hash :: string
  cp_schema_version :: int

definition checkpoint_schema_version :: int where
  "checkpoint_schema_version = 1"

definition checkpoint_error :: "string \<Rightarrow> pyexc" where
  "checkpoint_error msg = audit_integrity_error ''LedgerCheckpointError'' msg"

definition checkpoint_payload :: "checkpoint \<Rightarrow> payload" where
  "checkpoint_payload c =
     [(''checkpoint_hash'', JStr (cp_hash c)),
      (''created_at'', JStr (isoformat (cp_created_at c))),
      (''digest_algorithm'', JStr (digest_algorithm_value (cp_digest_algorithm c))),
      (''ledger_path'', JStr (cp_ledger_path c)),
      (''record_count'', JInt (cp_record_count c)),
      (''records_digest'', JStr (cp_records_digest c)),
      (''schema_version'', JInt (cp_schema_version c)),
      (''through_hash'', JStr (cp_through_hash c)),
      (''through_sequence'', JInt (cp_through_sequence c))]"

definition checkpoint_digest :: "digest \<Rightarrow> checkpoint \<Rightarrow> string" where
  "checkpoint_digest sha c = sha (canonical_json (JObj (dict_pop ''checkpoint_hash'' (checkpoint_payload c))))"

definition raw_digest_algorithm :: "raw \<Rightarrow> digest_algorithm res" where
  "raw_digest_algorithm v =
     (case v of
        RStr s \<Rightarrow> (case digest_algorithm_of s of Some a \<Rightarrow> Inr a
                   | None \<Rightarrow> Inl (value_error ''not a valid DigestAlgorithm''))
      | _ \<Rightarrow> Inl (value_error ''not a valid DigestAlgorithm''))"

definition malformed_checkpoint :: "'a res \<Rightarrow> 'a res" where
  "malformed_checkpoint r =
     (case r of
        Inl e \<Rightarrow> if exc_class e \<in> {''KeyError'', ''TypeError'', ''ValueError''}
                 then Inl (checkpoint_error ''Malformed ledger checkpoint'') else Inl e
      | Inr x \<Rightarrow> Inr x)"

definition checkpoint_from_payload :: "(int \<Rightarrow> datetime res) \<Rightarrow> raw \<Rightarrow> checkpoint res" where
  "checkpoint_from_payload local_zone v =
     malformed_checkpoint
       (res_bind (raw_field v ''checkpoint_hash'') (\<lambda>h.
        res_bind (res_bind (raw_field v ''created_at'') (read_instant local_zone)) (\<lambda>created.
        res_bind (res_bind (raw_item v ''digest_algorithm'') raw_digest_algorithm) (\<lambda>algorithm.
        res_bind (raw_field v ''ledger_path'') (\<lambda>path.
        res_bind (res_bind (raw_item v ''record_count'') raw_int) (\<lambda>count.
        res_bind (raw_field v ''records_digest'') (\<lambda>digest.
        res_bind (res_bind (raw_item v ''schema_version'') raw_int) (\<lambda>schema.
        res_bind (raw_field v ''through_hash'') (\<lambda>through_hash.
        res_bind (res_bind (raw_item v ''through_sequence'') raw_int) (\<lambda>through.
          Inr \<lparr>cp_created_at = created, cp_digest_algorithm = algorithm, cp_ledger_path = path,
               cp_record_count = count, cp_records_digest = digest, cp_through_hash = through_hash,
               cp_through_sequence = through, cp_hash = h, cp_schema_version = schema\<rparr>))))))))))"

subsection \<open>Creating and recording\<close>

definition records_digest :: "digest \<Rightarrow> audit_record list \<Rightarrow> string" where
  "records_digest sha rs = sha (canonical_json (JList (map (\<lambda>r. JObj (record_to_dict r)) rs)))"

definition create_checkpoint :: "digest \<Rightarrow> string \<Rightarrow> datetime \<Rightarrow> ledger \<Rightarrow> checkpoint res" where
  "create_checkpoint sha path now led =
     res_bind (ledger_snapshot sha led) (\<lambda>(st, rs).
       let c = \<lparr>cp_created_at = now, cp_digest_algorithm = DA_SHA256, cp_ledger_path = path,
                cp_record_count = int (length rs), cp_records_digest = records_digest sha rs,
                cp_through_hash = last_hash st, cp_through_sequence = next_sequence st - 1,
                cp_hash = [], cp_schema_version = checkpoint_schema_version\<rparr>
       in Inr (c\<lparr>cp_hash := checkpoint_digest sha c\<rparr>))"

record recorded_checkpoint =
  rcp_hash :: string
  rcp_sequence :: int
  rcp_checkpoint :: checkpoint

definition record_checkpoint ::
  "digest \<Rightarrow> string \<Rightarrow> datetime \<Rightarrow> datetime \<Rightarrow> string \<Rightarrow> ledger \<Rightarrow> recorded_checkpoint res \<times> ledger" where
  "record_checkpoint sha path now now' uid led =
     (case create_checkpoint sha path now led of
        Inl e \<Rightarrow> (Inl e, led)
      | Inr c \<Rightarrow>
          (case ledger_append sha ET_AUDIT_CHECKPOINT (PvJson (JObj (checkpoint_payload c))) now' uid led of
             (Inl e, led') \<Rightarrow> (Inl e, led')
           | (Inr r, led') \<Rightarrow>
               (Inr \<lparr>rcp_hash = rec_hash r, rcp_sequence = rec_sequence r, rcp_checkpoint = c\<rparr>, led')))"

subsection \<open>Verifying\<close>

definition prefix_records :: "int \<Rightarrow> audit_record list \<Rightarrow> audit_record list" where
  "prefix_records through rs = filter (\<lambda>r. rec_sequence r \<le> through) rs"

definition verify_checkpoint :: "digest \<Rightarrow> ledger \<Rightarrow> checkpoint \<Rightarrow> unit res" where
  "verify_checkpoint sha led c =
     (if cp_hash c \<noteq> checkpoint_digest sha c then Inl (checkpoint_error ''Checkpoint hash mismatch'')
      else res_bind (iter_records sha led) (\<lambda>all_records.
        let rs = prefix_records (cp_through_sequence c) all_records in
        if cp_record_count c \<noteq> int (length rs)
        then Inl (checkpoint_error ''Checkpoint record count does not match ledger prefix'')
        else if cp_records_digest c \<noteq> records_digest sha rs
        then Inl (checkpoint_error ''Checkpoint records digest does not match ledger prefix'')
        else if cp_through_hash c \<noteq> (if rs = [] then genesis_hash else rec_hash (last rs))
        then Inl (checkpoint_error ''Checkpoint through hash does not match ledger prefix'')
        else Inr ()))"

definition is_checkpoint :: "audit_record \<Rightarrow> bool" where
  "is_checkpoint r \<longleftrightarrow> rec_event_type r = ET_AUDIT_CHECKPOINT"

text \<open>What one recorded checkpoint must satisfy in the ledger\<close>

definition verify_recorded :: "digest \<Rightarrow> (int \<Rightarrow> datetime res) \<Rightarrow> ledger \<Rightarrow> audit_record \<Rightarrow> checkpoint res" where
  "verify_recorded sha local_zone led r =
     (case rec_payload r of
        JObj kvs \<Rightarrow>
          res_bind (checkpoint_from_payload local_zone (raw_of_json (JObj kvs))) (\<lambda>c.
            if rec_sequence r \<le> cp_through_sequence c
            then Inl (checkpoint_error ''Checkpoint cannot include its own audit record'')
            else res_bind (verify_checkpoint sha led c) (\<lambda>_. Inr c))
      | _ \<Rightarrow> Inl (checkpoint_error ''Malformed ledger checkpoint payload''))"

definition latest_checkpoint :: "digest \<Rightarrow> (int \<Rightarrow> datetime res) \<Rightarrow> ledger \<Rightarrow> recorded_checkpoint res" where
  "latest_checkpoint sha local_zone led =
     res_bind (iter_records sha led) (\<lambda>rs.
       case rev (filter is_checkpoint rs) of
         [] \<Rightarrow> Inl (checkpoint_error ''Ledger has no recorded checkpoints'')
       | r # _ \<Rightarrow>
           res_bind (verify_recorded sha local_zone led r) (\<lambda>c.
             Inr \<lparr>rcp_hash = rec_hash r, rcp_sequence = rec_sequence r, rcp_checkpoint = c\<rparr>))"

definition verify_recorded_checkpoints :: "digest \<Rightarrow> (int \<Rightarrow> datetime res) \<Rightarrow> ledger \<Rightarrow> int res" where
  "verify_recorded_checkpoints sha local_zone led =
     res_bind (iter_records sha led) (\<lambda>rs.
       res_fold (\<lambda>r verified.
         if is_checkpoint r then res_bind (verify_recorded sha local_zone led r) (\<lambda>_. Inr (verified + 1))
         else Inr verified) rs 0)"

subsection \<open>A checkpoint read back from its payload\<close>

lemma checkpoint_read_back:
  assumes "min_instant \<le> cp_created_at c" and "cp_created_at c \<le> max_instant"
  shows "checkpoint_from_payload local_zone (raw_of_json (JObj (checkpoint_payload c))) = Inr c"
  using read_instant_isoformat [OF assms, of local_zone]
  by (simp add: checkpoint_from_payload_def checkpoint_payload_def raw_field_def raw_item_def raw_str_def
      raw_digest_algorithm_def raw_int_def malformed_checkpoint_def)

subsection \<open>Prefixes of a verified ledger\<close>

lemma ledger_ok_iter: "ledger_ok sha led \<Longrightarrow> iter_records sha led = Inr (led_records led)"
  by (simp add: iter_records_def ledger_ok_snapshot)

lemma iter_records_ok: "iter_records sha led = Inr rs \<Longrightarrow> ledger_ok sha led \<and> rs = led_records led"
  by (auto simp: iter_records_def ledger_snapshot_def res_bind_Inr ledger_ok_def split: if_splits)

lemma ledger_sequences:
  assumes "ledger_ok sha led" and "i < length (led_records led)"
  shows "rec_sequence (led_records led ! i) = int i + 1"
  using verify_from_sequences [OF ledger_ok_verify [OF assms(1), unfolded verify_audit_records_def] assms(2)] by simp

lemma prefix_records_take:
  assumes "ledger_ok sha led"
  shows "prefix_records n (led_records led) = take (nat n) (led_records led)"
proof -
  let ?rs = "led_records led"
  have "rec_sequence r \<le> n" if "r \<in> set (take (nat n) ?rs)" for r
    using that ledger_sequences [OF assms] by (fastforce simp: in_set_conv_nth)
  moreover have "\<not> rec_sequence r \<le> n" if "r \<in> set (drop (nat n) ?rs)" for r
  proof -
    from that obtain i where "i < length ?rs - nat n" "r = ?rs ! (nat n + i)" by (auto simp: in_set_conv_nth)
    then show ?thesis using ledger_sequences [OF assms, of "nat n + i"] by simp
  qed
  moreover have "prefix_records n ?rs = prefix_records n (take (nat n) ?rs @ drop (nat n) ?rs)" by simp
  ultimately show ?thesis
    unfolding prefix_records_def filter_append by (simp add: filter_id_conv filter_empty_conv)
qed

lemma create_checkpoint_Inr:
  assumes "create_checkpoint sha path now led = Inr c"
  shows "ledger_ok sha led" and "cp_created_at c = now" and "cp_hash c = checkpoint_digest sha c"
    and "cp_record_count c = int (length (led_records led))"
    and "cp_records_digest c = records_digest sha (led_records led)"
    and "cp_through_sequence c = int (length (led_records led))"
    and "cp_through_hash c = (if led_records led = [] then genesis_hash else rec_hash (last (led_records led)))"
proof -
  show ok: "ledger_ok sha led"
    using assms by (auto simp: create_checkpoint_def ledger_snapshot_def res_bind_Inr ledger_ok_def split: if_splits)
  show "cp_hash c = checkpoint_digest sha c"
    using assms by (auto simp: create_checkpoint_def ledger_ok_snapshot [OF ok] Let_def checkpoint_digest_def checkpoint_payload_def)
  show "cp_created_at c = now" "cp_record_count c = int (length (led_records led))"
    "cp_records_digest c = records_digest sha (led_records led)"
    "cp_through_sequence c = int (length (led_records led))"
    "cp_through_hash c = (if led_records led = [] then genesis_hash else rec_hash (last (led_records led)))"
    using assms by (auto simp: create_checkpoint_def ledger_ok_snapshot [OF ok] tip_def Let_def)
qed

text \<open>A ledger that has grown\<close>

definition extends :: "digest \<Rightarrow> ledger \<Rightarrow> ledger \<Rightarrow> bool" where
  "extends sha led led' \<longleftrightarrow>
     ledger_ok sha led \<and> ledger_ok sha led' \<and> (\<exists>more. led_records led' = led_records led @ more)"

lemma append_extends: "ledger_append sha et p now uid led = (Inr r, led') \<Longrightarrow> extends sha led led'"
  using ledger_append_Inr [of sha et p now uid led r led'] by (simp add: extends_def)

lemma created_checkpoint_verifies:
  assumes "create_checkpoint sha path now led = Inr c" and "extends sha led led'"
  shows "verify_checkpoint sha led' c = Inr ()"
proof -
  from assms(2) obtain more where ok: "ledger_ok sha led'" and more: "led_records led' = led_records led @ more"
    by (auto simp: extends_def)
  have "prefix_records (cp_through_sequence c) (led_records led') = led_records led"
    by (simp only: prefix_records_take [OF ok]) (simp add: more create_checkpoint_Inr [OF assms(1)])
  then show ?thesis
    using create_checkpoint_Inr [OF assms(1)] by (simp add: verify_checkpoint_def ledger_ok_iter [OF ok] Let_def)
qed

text \<open>A recorded checkpoint that verifies goes on verifying while the ledger grows.\<close>

lemma verify_checkpoint_extends:
  assumes "extends sha led led'" and "cp_through_sequence c \<le> int (length (led_records led))"
  shows "verify_checkpoint sha led' c = verify_checkpoint sha led c"
proof -
  from assms(1) obtain more where ok: "ledger_ok sha led" "ledger_ok sha led'"
    and more: "led_records led' = led_records led @ more" by (auto simp: extends_def)
  have "prefix_records (cp_through_sequence c) (led_records led') = prefix_records (cp_through_sequence c) (led_records led)"
    by (simp only: prefix_records_take [OF ok(1)] prefix_records_take [OF ok(2)]) (use more assms(2) in simp)
  then show ?thesis by (simp add: verify_checkpoint_def ledger_ok_iter [OF ok(1)] ledger_ok_iter [OF ok(2)] Let_def)
qed

lemma verify_recorded_extends:
  assumes "extends sha led led'" and "r \<in> set (led_records led)" and "verify_recorded sha local_zone led r = Inr c"
  shows "verify_recorded sha local_zone led' r = Inr c"
proof -
  have ok: "ledger_ok sha led" using assms(1) by (simp add: extends_def)
  obtain i where "i < length (led_records led)" "r = led_records led ! i" using assms(2) by (auto simp: in_set_conv_nth)
  then have r: "rec_sequence r \<le> int (length (led_records led))" using ledger_sequences [OF ok, of i] by simp
  obtain kvs where kvs: "rec_payload r = JObj kvs" using assms(3) by (cases "rec_payload r") (simp_all add: verify_recorded_def)
  with assms(3) have c: "checkpoint_from_payload local_zone (raw_of_json (JObj kvs)) = Inr c"
      "\<not> rec_sequence r \<le> cp_through_sequence c" "verify_checkpoint sha led c = Inr ()"
    by (auto simp: verify_recorded_def res_bind_Inr simp del: raw_of_json.simps split: if_splits)
  then have "verify_checkpoint sha led' c = Inr ()" using verify_checkpoint_extends [OF assms(1), of c] r by simp
  with c kvs show ?thesis by (simp add: verify_recorded_def del: raw_of_json.simps)
qed

definition count_step ::
  "digest \<Rightarrow> (int \<Rightarrow> datetime res) \<Rightarrow> ledger \<Rightarrow> audit_record \<Rightarrow> int \<Rightarrow> int res" where
  "count_step sha local_zone led r verified =
     (if is_checkpoint r then res_bind (verify_recorded sha local_zone led r) (\<lambda>_. Inr (verified + 1))
      else Inr verified)"

lemma verify_recorded_checkpoints_fold:
  "ledger_ok sha led \<Longrightarrow>
   verify_recorded_checkpoints sha local_zone led = res_fold (count_step sha local_zone led) (led_records led) 0"
  by (simp add: verify_recorded_checkpoints_def ledger_ok_iter count_step_def [abs_def])

lemma count_fold_extends:
  assumes "extends sha led led'" and "set rs \<subseteq> set (led_records led)"
    and "res_fold (count_step sha local_zone led) rs k = Inr n"
  shows "res_fold (count_step sha local_zone led') rs k = Inr n"
  using assms(2,3)
proof (induction rs arbitrary: k)
  case Nil
  then show ?case by simp
next
  case (Cons r rs)
  then obtain k' where k': "count_step sha local_zone led r k = Inr k'"
    and rest: "res_fold (count_step sha local_zone led) rs k' = Inr n" by (auto simp: res_bind_Inr)
  have "count_step sha local_zone led' r k = Inr k'"
    using k' verify_recorded_extends [OF assms(1), of r local_zone] Cons.prems(1)
    by (fastforce simp: count_step_def res_bind_Inr split: if_splits)
  with Cons.IH [OF _ rest] Cons.prems(1) show ?case by simp
qed

lemma verify_recorded_append:
  assumes "ledger_append sha et p now uid led = (Inr r, led')"
    and "verify_recorded_checkpoints sha local_zone led = Inr n"
  shows "verify_recorded_checkpoints sha local_zone led' = count_step sha local_zone led' r n"
proof -
  note ext = append_extends [OF assms(1)]
  then have ok: "ledger_ok sha led" "ledger_ok sha led'" by (simp_all add: extends_def)
  have "led_records led' = led_records led @ [r]" using ledger_append_Inr(1) [OF assms(1)] by simp
  with count_fold_extends [OF ext subset_refl assms(2) [unfolded verify_recorded_checkpoints_fold [OF ok(1)]]]
  show ?thesis
    by (cases "count_step sha local_zone led' r n")
      (simp_all add: verify_recorded_checkpoints_fold [OF ok(2)] res_fold_append)
qed

lemma recorded_checkpoint_verifies:
  assumes "record_checkpoint sha path now now' uid led = (Inr rc, led')"
    and "min_instant \<le> now" and "now \<le> max_instant"
  obtains p r where "ledger_append sha ET_AUDIT_CHECKPOINT p now' uid led = (Inr r, led')" and "is_checkpoint r"
    and "verify_recorded sha local_zone led' r = Inr (rcp_checkpoint rc)"
    and "rcp_hash rc = rec_hash r" and "rcp_sequence rc = rec_sequence r"
proof -
  from assms(1) obtain c r where c: "create_checkpoint sha path now led = Inr c"
    and r: "ledger_append sha ET_AUDIT_CHECKPOINT (PvJson (JObj (checkpoint_payload c))) now' uid led = (Inr r, led')"
    and rc: "rc = \<lparr>rcp_hash = rec_hash r, rcp_sequence = rec_sequence r, rcp_checkpoint = c\<rparr>"
    by (auto simp: record_checkpoint_def split: sum.splits prod.splits)
  have ok: "ledger_ok sha led" by (rule create_checkpoint_Inr(1) [OF c])
  from ledger_append_ok [OF ok, of "PvJson (JObj (checkpoint_payload c))" _ ET_AUDIT_CHECKPOINT now' uid] r
  have fields: "rec_sequence r = int (length (led_records led)) + 1" "rec_event_type r = ET_AUDIT_CHECKPOINT"
    "rec_payload r = JObj (checkpoint_payload c)" by simp_all
  have "verify_checkpoint sha led' c = Inr ()"
    by (rule created_checkpoint_verifies [OF c append_extends [OF r]])
  moreover have "checkpoint_from_payload local_zone (raw_of_json (JObj (checkpoint_payload c))) = Inr c"
    using assms(2,3) create_checkpoint_Inr(2) [OF c] by (intro checkpoint_read_back) simp_all
  ultimately have "verify_recorded sha local_zone led' r = Inr (rcp_checkpoint rc)"
    using fields create_checkpoint_Inr(6) [OF c] rc by (simp add: verify_recorded_def del: raw_of_json.simps)
  then show ?thesis using that [OF r] fields rc by (simp add: is_checkpoint_def)
qed

text \<open>A checkpoint can be recorded in every ledger that verifies.\<close>

lemma record_checkpoint_ok:
  assumes "ledger_ok sha led"
  shows "\<exists>rc led'. record_checkpoint sha path now now' uid led = (Inr rc, led')"
proof -
  obtain c where c: "create_checkpoint sha path now led = Inr c"
    by (simp add: create_checkpoint_def ledger_ok_snapshot [OF assms] Let_def)
  have "normalize_json (PvJson (JObj (checkpoint_payload c))) = Inr (JObj (checkpoint_payload c))" by simp
  from ledger_append_ok [OF assms this, of ET_AUDIT_CHECKPOINT now' uid] c
  show ?thesis by (auto simp: record_checkpoint_def)
qed

subsection \<open>Every recorded checkpoint verifies\<close>

text \<open>The histories of a ledger: other records are appended and checkpoints are recorded.\<close>

inductive checkpointed :: "digest \<Rightarrow> string \<Rightarrow> ledger \<Rightarrow> nat \<Rightarrow> bool" for sha path where
  new_ledger: "checkpointed sha path \<lparr>led_records = [], led_locked = False\<rparr> 0"
| other_record: "checkpointed sha path led n \<Longrightarrow> et \<noteq> ET_AUDIT_CHECKPOINT \<Longrightarrow>
    ledger_append sha et p now uid led = (Inr r, led') \<Longrightarrow> checkpointed sha path led' n"
| new_checkpoint: "checkpointed sha path led n \<Longrightarrow> min_instant \<le> now \<Longrightarrow> now \<le> max_instant \<Longrightarrow>
    record_checkpoint sha path now now' uid led = (Inr rc, led') \<Longrightarrow> checkpointed sha path led' (Suc n)"

lemma append_event_type:
  assumes "ledger_append sha et p now uid led = (Inr r, led')"
  shows "rec_event_type r = et"
  using assms by (auto simp: ledger_append_def Let_def signed_record_def split: if_splits sum.splits)

text \<open>
  C21. In whatever order records are appended and checkpoints recorded, every recorded checkpoint verifies
  against the ledger as it has become, and the verification counts them all.
\<close>

theorem recorded_checkpoints_verify:
  assumes "checkpointed sha path led n"
  shows "verify_recorded_checkpoints sha local_zone led = Inr (int n)"
  using assms
proof (induction rule: checkpointed.induct)
  case new_ledger
  show ?case by (simp add: verify_recorded_checkpoints_fold)
next
  case (other_record led n et p now uid r led')
  have "\<not> is_checkpoint r"
    using append_event_type [OF other_record.hyps(3)] other_record.hyps(2) by (simp add: is_checkpoint_def)
  then show ?case
    using verify_recorded_append [OF other_record.hyps(3) other_record.IH] by (simp add: count_step_def)
next
  case (new_checkpoint led n now now' uid rc led')
  obtain p r where "ledger_append sha ET_AUDIT_CHECKPOINT p now' uid led = (Inr r, led')" "is_checkpoint r"
      "verify_recorded sha local_zone led' r = Inr (rcp_checkpoint rc)"
    using recorded_checkpoint_verifies [OF new_checkpoint.hyps(4,2,3)] by blast
  then show ?case
    using verify_recorded_append [OF _ new_checkpoint.IH] by (simp add: count_step_def)
qed

theorem recorded_checkpoints_verify_witness:
  "\<exists>led. length (led_records led) = 2 \<and> verify_recorded_checkpoints (\<lambda>s. s) (\<lambda>t. Inr t) led = Inr 1"
proof -
  let ?led = "\<lparr>led_records = [], led_locked = False\<rparr>"
  obtain rc led1 where one: "record_checkpoint (\<lambda>s. s) ''ledger.jsonl'' 0 1 ''a'' ?led = (Inr rc, led1)"
    using record_checkpoint_ok [OF ledger_ok_empty] by blast
  have first: "checkpointed (\<lambda>s. s) ''ledger.jsonl'' led1 (Suc 0)"
    by (rule checkpointed.new_checkpoint [OF checkpointed.new_ledger _ _ one]) (simp_all add: min_instant_def max_instant_def)
  obtain p r where r: "ledger_append (\<lambda>s. s) ET_AUDIT_CHECKPOINT p 1 ''a'' ?led = (Inr r, led1)"
    by (rule recorded_checkpoint_verifies [OF one]) (simp_all add: min_instant_def max_instant_def)
  have ok: "ledger_ok (\<lambda>s. s) led1" and one_record: "led_records led1 = [r]"
    using ledger_append_Inr [OF r] by simp_all
  have "normalize_json PvNone = Inr JNull" by simp
  from ledger_append_ok [OF ok this, of ET_ERROR 2 "''b''"]
  obtain r2 led2 where r2: "ledger_append (\<lambda>s. s) ET_ERROR PvNone 2 ''b'' led1 = (Inr r2, led2)"
    and two: "led_records led2 = led_records led1 @ [r2]" by blast
  have "checkpointed (\<lambda>s. s) ''ledger.jsonl'' led2 (Suc 0)"
    by (rule checkpointed.other_record [OF first _ r2]) simp
  from recorded_checkpoints_verify [OF this, of "\<lambda>t. Inr t"] two one_record
  show ?thesis by (intro exI [of _ led2]) simp
qed

text \<open>
  C4. Tamper evidence: a ledger that passes the verification of a checkpoint begins with the very records the
  checkpoint was created over, payload for payload, unless the digest maps two record texts to one value. So
  no record under a checkpoint can be changed, dropped, inserted or moved.
\<close>

theorem checkpoint_tamper_evident:
  assumes "create_checkpoint sha path now led = Inr c" and "verify_checkpoint sha led' c = Inr ()"
    and "list_all storable (led_records led)" and "list_all storable (led_records led')"
    and "inj_on sha (unsigned_text ` (set (led_records led) \<union> set (led_records led')))"
  shows "map sort_record (take (length (led_records led)) (led_records led')) = map sort_record (led_records led)"
proof -
  let ?n = "length (led_records led)"
  let ?rs = "take ?n (led_records led')"
  note c = create_checkpoint_Inr [OF assms(1)]
  from assms(2) have ok: "ledger_ok sha led'"
    by (auto simp: verify_checkpoint_def res_bind_Inr dest: iter_records_ok split: if_splits)
  then have prefix: "prefix_records (cp_through_sequence c) (led_records led') = ?rs"
    by (simp add: prefix_records_take c)
  with assms(2) have count: "length ?rs = ?n"
    and through: "cp_through_hash c = (if ?rs = [] then genesis_hash else rec_hash (last ?rs))"
    by (auto simp: verify_checkpoint_def ledger_ok_iter [OF ok] Let_def c split: if_splits)
  obtain st where st: "verify_audit_records sha ?rs = Inr st"
    using ledger_ok_verify [OF ok] verify_from_prefix [of sha ?rs "drop ?n (led_records led')" 1 genesis_hash]
    by (auto simp: verify_audit_records_def)
  have "verify_audit_records sha (led_records led) = Inr (tip sha led)" by (rule ledger_ok_verify [OF c(1)])
  moreover have "st = tip sha led"
    using verify_state_unique [OF st] count through c(7) by (simp add: tip_def)
  ultimately show ?thesis
    using st assms(3-5)
    by (intro hash_chain_tamper_evident [of sha _ st])
      (auto simp: list_all_iff dest: in_set_takeD intro: inj_on_subset)
qed

theorem checkpoint_tamper_evident_witness:
  "\<exists>c led led'. create_checkpoint (\<lambda>s. s) ''ledger.jsonl'' 0 led = Inr c \<and> verify_checkpoint (\<lambda>s. s) led' c = Inr () \<and>
     length (led_records led) = 1 \<and> length (led_records led') = 2 \<and>
     map sort_record (take 1 (led_records led')) = map sort_record (led_records led)"
proof -
  have n: "normalize_json PvNone = Inr JNull" by simp
  have int: "readable_int 1" "readable_int 2" by (simp_all add: readable_int_def num_digits_def nat_to_str.simps)
  obtain r led where r: "ledger_append (\<lambda>s. s) ET_ERROR PvNone 1 ''a'' \<lparr>led_records = [], led_locked = False\<rparr> = (Inr r, led)"
    and led: "led_records led = [r]" "ledger_ok (\<lambda>s. s) led"
    using ledger_append_ok [OF ledger_ok_empty n, where sha = "\<lambda>s. s" and et = ET_ERROR and now = 1 and uid = "''a''"] by auto
  obtain r' led' where r': "ledger_append (\<lambda>s. s) ET_ERROR PvNone 2 ''b'' led = (Inr r', led')"
    and led': "led_records led' = [r, r']"
    using ledger_append_ok [OF led(2) n, where et = ET_ERROR and now = 2 and uid = "''b''"] led(1) by auto
  obtain c where c: "create_checkpoint (\<lambda>s. s) ''ledger.jsonl'' 0 led = Inr c"
    by (simp add: create_checkpoint_def ledger_ok_snapshot [OF led(2)] Let_def)
  have v: "verify_checkpoint (\<lambda>s. s) led' c = Inr ()"
    by (rule created_checkpoint_verifies [OF c append_extends [OF r']])
  have s: "list_all storable (led_records led)"
    by (rule append_storable [OF r]) (auto simp: min_instant_def max_instant_def int)
  have s': "list_all storable (led_records led')"
    by (rule append_storable [OF r' s]) (auto simp: min_instant_def max_instant_def int led)
  have "map sort_record (take (length (led_records led)) (led_records led')) = map sort_record (led_records led)"
    by (rule checkpoint_tamper_evident [OF c v s s']) simp
  then show ?thesis using c v led led' by (intro exI [of _ c] exI [of _ led] exI [of _ led']) simp
qed

end
