(* ===== verification/Spec2Isabelle.thy ===== *)
theory Spec2Isabelle
  imports Engine Projection Action_Errors Idempotency Sized_Orders Supervisor Runtime Positions Checkpoints
begin

text \<open>
  A trading bot whose only memory is an append-only audit ledger. Components write events through the
  audit core; the state of the system is rebuilt by folding the records of the ledger; commands to
  place or cancel orders go through a gateway that validates them against that state, asks the risk
  gate, and calls the executor of the exchange. This development models that path from the JSON values
  to the outcome of an execution.

  The parts, in the order of their imports:

  \<^item> \<^verbatim>\<open>Prelude\<close>: results (\<open>Inl\<close> an exception, \<open>Inr\<close> a value), dictionaries as association lists in
    insertion order (Python's \<^verbatim>\<open>dict\<close>), decimal and integer texts, order of texts.
  \<^item> \<^verbatim>\<open>Enums\<close> (\<^verbatim>\<open>core/enums.py\<close>): the string enumerations, their values and the lookup by value.
  \<^item> \<^verbatim>\<open>Datetime\<close>: instants in microseconds, their UTC date and their text.
  \<^item> \<^verbatim>\<open>Json\<close> (\<^verbatim>\<open>core/json_tools.py\<close>): what Python values become (\<open>normalize_json\<close>) and the canonical text
    that is hashed. Python floats are given by their shortest decimal text.
  \<^item> \<^verbatim>\<open>Errors\<close> (\<^verbatim>\<open>core/errors.py\<close>): exceptions by class, text and bot error, and the error envelope.
  \<^item> \<^verbatim>\<open>Decimal\<close>, \<^verbatim>\<open>Decimal_Text\<close>: Python's decimal arithmetic at 28 digits with half-even rounding, the
    exceptions of its context, and its texts with their round trip.
  \<^item> \<^verbatim>\<open>Ledger\<close> (\<^verbatim>\<open>audit/ledger.py\<close>, \<^verbatim>\<open>audit/replay.py\<close>): records, hash chain, append, verify, replay. The
    digest (SHA-256) is a parameter. The other theories work on this list of records.
  \<^item> \<^verbatim>\<open>Json_Text\<close>, \<^verbatim>\<open>Json_Roundtrip\<close>, \<^verbatim>\<open>Isoformat\<close>: what the ledger uses of the standard library to read its
    file: \<^verbatim>\<open>json.loads\<close> and \<^verbatim>\<open>datetime.fromisoformat\<close>, with their round trips. The scanner's fuel is twice
    the length of the text, and \<open>json_loads_not_exhausted\<close> shows it is never used up.
  \<^item> \<^verbatim>\<open>Ledger_File\<close> (\<^verbatim>\<open>audit/ledger.py\<close>): the ledger as the text of a file, read and checked line by line; its
    operations implement the ones on the list, and an append that a crash cuts short is refused.
  \<^item> \<^verbatim>\<open>Checkpoints\<close> (\<^verbatim>\<open>audit/checkpoints.py\<close>): checkpoints created over the records, recorded among them, and
    verified against a ledger that has grown, or that someone has changed.
  \<^item> \<^verbatim>\<open>Hooks\<close>, \<^verbatim>\<open>Triggers\<close>, \<^verbatim>\<open>Programs\<close>, \<^verbatim>\<open>Engine\<close> (\<^verbatim>\<open>hooks/registry.py\<close>, \<^verbatim>\<open>triggers/rules.py\<close>,
    \<^verbatim>\<open>core/engine.py\<close>): programs over the state of the core, the emission of an event with its hooks and
    triggers; the locale \<open>event_sink\<close> is what an emitting component relies on, interpreted on
    \<open>core_emit\<close>; \<open>facts\<close> relates the events a component writes with the records of the ledger.
  \<^item> \<^verbatim>\<open>Payloads\<close>, \<^verbatim>\<open>Snapshots\<close>, \<^verbatim>\<open>Market\<close>, \<^verbatim>\<open>Orders\<close>, \<^verbatim>\<open>Facts\<close>, \<^verbatim>\<open>Projection\<close> (\<^verbatim>\<open>projections/state.py\<close>): the
    state rebuilt from the ledger, one function per handler, and its invariants. Snapshots that the
    code shares are cells of \<open>pj_orders\<close>, and the dictionaries of the code hold their indices.
    \<^verbatim>\<open>Exceptions\<close> shows that what the rebuilding raises has a class name.
  \<^item> \<^verbatim>\<open>Products\<close> (\<^verbatim>\<open>products/catalog.py\<close>): product metadata, its size, price and notional rules.
  \<^item> \<^verbatim>\<open>Lineage\<close> (\<^verbatim>\<open>orders/lineage.py\<close>): logical orders and placements and how they are read back.
  \<^item> \<^verbatim>\<open>Commands\<close>, \<^verbatim>\<open>Risk\<close>, \<^verbatim>\<open>Execution\<close>, \<^verbatim>\<open>Gateway\<close> (\<^verbatim>\<open>actions/\<close>, \<^verbatim>\<open>risk/gate.py\<close>): the commands, every
    check of the risk gate, the executors with their guard by venue, and the gateway. The executor is a
    parameter over a state of the outside world.
  \<^item> \<^verbatim>\<open>Sizing\<close>, \<^verbatim>\<open>Sized_Orders\<close> (\<^verbatim>\<open>orders/sizing.py\<close>): the sizes of follow-up, split, consolidated and
    staged orders; the loop of the staged releases is \<open>while_option\<close>, so not returning is \<open>None\<close>.
  \<^item> \<^verbatim>\<open>Judgements\<close>, \<^verbatim>\<open>Components\<close>, \<^verbatim>\<open>Memory\<close>: total correctness judgements for programs over the core (\<open>writes\<close>,
    \<open>settles\<close>, and \<open>concludes\<close> for a component with a state of its own beside the core), and what the
    state rebuilt from a longer ledger still knows.
  \<^item> \<^verbatim>\<open>Actions\<close>, \<^verbatim>\<open>Idempotency\<close>, \<^verbatim>\<open>Action_Errors\<close>: what a submission guarantees and where it goes wrong.
  \<^item> \<^verbatim>\<open>Feeds\<close> (\<^verbatim>\<open>feeds/router.py\<close>, \<^verbatim>\<open>core/order_update_contract.py\<close>): the deduplicator, the contract of order
    updates, the router with its sources and its restart from the ledger.
  \<^item> \<^verbatim>\<open>Floats\<close>, \<^verbatim>\<open>Supervisor\<close> (\<^verbatim>\<open>feeds/supervisor.py\<close>): finite floats as rationals rounded to binary64, the
    reconnect policy, and the loop of one source. What its stream delivers and what happens while it
    sleeps are scripts, arguments of the model.
  \<^item> \<^verbatim>\<open>Reconciliation\<close> (\<^verbatim>\<open>reconciliation/watchdog.py\<close>, \<^verbatim>\<open>recovery.py\<close>, \<^verbatim>\<open>fills.py\<close>): the watchdog, the recovery of
    the mismatches it writes and the fills; the exchange clients are arguments over a state of the world.

  \<^item> \<^verbatim>\<open>Positions\<close> (\<^verbatim>\<open>reconciliation/positions.py\<close>, \<^verbatim>\<open>exchange_state_contract.py\<close>): the snapshots of balances and
    positions and the audit of the drifts between the exchange and the fills of the ledger.
  \<^item> \<^verbatim>\<open>Rounding\<close>, \<^verbatim>\<open>Runtime\<close> (\<^verbatim>\<open>runtime/orchestrator.py\<close>): the scheduled tasks and the loop that runs them
    between a system start and a system stop. The locale \<open>task_handler\<close> is what a task owes the loop,
    interpreted on the health audit of the feeds; the sleep is an argument.

  The lemmas show: emission appends exactly one record for the event, with those of triggers and failed
  hooks around it, to a ledger that stays verified; a corrupt ledger is never extended; triggers fire
  once; the rebuilt state keeps its indices, bounds and best prices consistent and counts a fill once;
  an order the risk gate passes is within every limit of the policy; the executor is reached only by a
  command that was valid and passed, an accepted command always gets an outcome, and an action id is
  used once; payloads that are written are read back as the records they came from. The deduplicator keeps
  the most recent keys, an accepted message stays refused across restarts, every connection of a feed
  is closed in the ledger, whoever holds a checkpoint can tell whether a record under it was changed, a run of the bot ends with a system stop, and no mismatch, recovery, fill or drift is
  written twice.

  Bounds: decimals are exact integers with an exponent, rounded at 28 digits as the code's context
  does. Two loops have fuel: \<open>run_source\<close>, the number of attempts it may make, and with as much fuel as the bound of the
  attempts it returns; \<open>run_cycles\<close>, the number of its turns, and with two turns more than twice the bound of the
  cycles it returns. Concurrency: the code holds a lock for a submission and a file lock for an
  append, so the model runs them one after another, and \<^verbatim>\<open>FeedSupervisor.run\<close>, which interleaves its
  sources, is left out; a ledger whose file is locked is \<open>led_locked\<close>.

  Not modelled: the anchors and archives of the ledger in files and S3, the bytes of the ledger file (a text is
  a list of characters below 256, and the reader refuses an escape of a later one), the HTTP and WebSocket clients, configuration files, strategies and command line
  applications; \<^verbatim>\<open>isinstance\<close> checks on arguments whose type the model fixes; \<^verbatim>\<open>to_payload\<close> of the
  projection. The text \<^verbatim>\<open>str\<close> gives of a list or dictionary in a payload is not modelled; validation
  excludes those values.
\<close>

end
